(* ===== verification/BwPrelude.thy ===== *)
theory BwPrelude
  imports Main "HOL-Library.AList" "HOL-Library.Char_ord" "HOL-Library.List_Lexorder"
begin

text \<open>
  Shared material of the Calibre Bookwarden development: the Python exceptions the code raises,
  the result type of fallible code, dictionaries as association lists in insertion order, tables
  of rows with a key, and a generic invariant rule for transition systems.
\<close>

section \<open>Exceptions and results\<close>

text \<open>
  The exception classes the modelled code raises or catches, each with its message.
  \<open>Inl e\<close> is "the exception e propagates", \<open>Inr v\<close> is "v is returned".
\<close>

datatype exn =
    ValueError string
  | TypeError string
  | RuntimeError string
  | OSError string
  | IndexError
  | KeyError string
  | NoResultFound
  | MultipleResultsFound
  | IntegrityError
  | CalibreCLIError string
  | LostVerifierLeaseError string
  | SourceSnapshotMismatchError string
  | CertificateAContractError string
  | VerifierCancellationRequestedError string
  | OfflineCalibreError string
  | OfflineLibraryChangedError string
  | HTTPException int "string list"

type_synonym 'a res = "exn + 'a"

named_theorems dict_simps \<open>dictionary lookups after updates\<close>
named_theorems row_simps \<open>table rows after updates and inserts\<close>

primrec is_ok :: "'a res \<Rightarrow> bool" where
  "is_ok (Inl e) = False"
| "is_ok (Inr v) = True"

section \<open>Dictionaries\<close>

text \<open>
  A Python dict keeps its insertion order, and an assignment to an existing key keeps the key's
  position: \<^const>\<open>AList.update\<close> on association lists. \<open>dict_get\<close> is \<open>d.get(k)\<close>.
\<close>

type_synonym 'v dict = "(string \<times> 'v) list"

definition dict_get :: "'v dict \<Rightarrow> string \<Rightarrow> 'v option" where
  "dict_get d k = map_of d k"

definition dict_set :: "string \<Rightarrow> 'v \<Rightarrow> 'v dict \<Rightarrow> 'v dict" where
  "dict_set k v d = AList.update k v d"

definition dict_pop :: "string \<Rightarrow> 'v dict \<Rightarrow> 'v dict" where
  "dict_pop k d = AList.delete k d"

definition dict_has :: "'v dict \<Rightarrow> string \<Rightarrow> bool" where
  "dict_has d k = (k \<in> fst ` set d)"

fun dict_update :: "'v dict \<Rightarrow> 'v dict \<Rightarrow> 'v dict" where
  "dict_update d [] = d"
| "dict_update d ((k, v) # ps) = dict_update (dict_set k v d) ps"

lemma dict_get_set [dict_simps]: "dict_get (dict_set k v d) j = (if j = k then Some v else dict_get d j)"
  by (simp add: dict_get_def dict_set_def update_conv')

lemma dict_get_pop [dict_simps]: "dict_get (dict_pop k d) j = (if j = k then None else dict_get d j)"
  by (simp add: dict_get_def dict_pop_def delete_conv')

lemma dict_get_Nil [dict_simps]: "dict_get [] j = None"
  by (simp add: dict_get_def)

lemma dict_has_get: "dict_has d k \<longleftrightarrow> dict_get d k \<noteq> None"
  by (simp add: dict_has_def dict_get_def map_of_eq_None_iff)

lemma dict_has_set [dict_simps]: "dict_has (dict_set k v d) j \<longleftrightarrow> j = k \<or> dict_has d j"
  by (auto simp: dict_has_get dict_simps)

lemma distinct_dict_set: "distinct (map fst d) \<Longrightarrow> distinct (map fst (dict_set k v d))"
  by (simp add: dict_set_def distinct_update)

lemma dict_get_update:
  "distinct (map fst ps) \<Longrightarrow>
   dict_get (dict_update d ps) j = (case dict_get ps j of Some v \<Rightarrow> Some v | None \<Rightarrow> dict_get d j)"
proof (induction d ps rule: dict_update.induct)
  case (1 d)
  then show ?case by (simp add: dict_simps)
next
  case (2 d k v ps)
  have k: "j = k \<Longrightarrow> dict_get ps j = None"
    using "2.prems" by (auto simp: dict_get_def map_of_eq_None_iff)
  have "dict_get ((k, v) # ps) j = (if j = k then Some v else dict_get ps j)"
    by (simp add: dict_get_def)
  with k "2.IH" "2.prems" show ?case
    by (auto simp: dict_get_set split: option.split)
qed

lemma distinct_dict_update:
  "distinct (map fst d) \<Longrightarrow> distinct (map fst (dict_update d ps))"
  by (induction d ps rule: dict_update.induct) (auto simp: distinct_dict_set)

lemma dict_has_update: "dict_has (dict_update d ps) j \<longleftrightarrow> dict_has d j \<or> dict_has ps j"
proof (induction d ps rule: dict_update.induct)
  case (2 d k v ps)
  have "dict_has ((k, v) # ps) j \<longleftrightarrow> j = k \<or> dict_has ps j"
    by (auto simp: dict_has_def)
  with 2 show ?case by (auto simp: dict_has_set)
qed (simp add: dict_has_def)

section \<open>Rows\<close>

text \<open>
  A database table is the list of its rows in primary key order. \<open>row_first p t\<close> is a query that
  takes the first row satisfying \<open>p\<close>; \<open>row_one p t\<close> is SQLAlchemy's \<open>.one()\<close>, which raises unless
  exactly one row matches; \<open>row_map p f t\<close> writes the changed fields of the rows satisfying \<open>p\<close>.
\<close>

definition row_first :: "('r \<Rightarrow> bool) \<Rightarrow> 'r list \<Rightarrow> 'r option" where
  "row_first p t = List.find p t"

definition row_one :: "('r \<Rightarrow> bool) \<Rightarrow> 'r list \<Rightarrow> 'r res" where
  "row_one p t = (case filter p t of [] \<Rightarrow> Inl NoResultFound | [r] \<Rightarrow> Inr r | _ \<Rightarrow> Inl MultipleResultsFound)"

definition row_map :: "('r \<Rightarrow> bool) \<Rightarrow> ('r \<Rightarrow> 'r) \<Rightarrow> 'r list \<Rightarrow> 'r list" where
  "row_map p f t = map (\<lambda>r. if p r then f r else r) t"

lemma row_first_Some: "row_first p t = Some r \<Longrightarrow> r \<in> set t \<and> p r"
  by (auto simp: row_first_def find_Some_iff in_set_conv_nth)

lemma row_first_None: "row_first p t = None \<longleftrightarrow> (\<forall>r\<in>set t. \<not> p r)"
  by (auto simp: row_first_def find_None_iff)

lemma row_one_Inr: "row_one p t = Inr r \<longleftrightarrow> filter p t = [r]"
  by (auto simp: row_one_def split: list.splits)

lemma row_one_in: "row_one p t = Inr r \<Longrightarrow> r \<in> set t \<and> p r"
proof -
  assume "row_one p t = Inr r"
  then have "set (filter p t) = {r}" by (simp add: row_one_Inr)
  then show ?thesis by auto
qed

lemma length_row_map [row_simps]: "length (row_map p f t) = length t"
  by (simp add: row_map_def)

lemma set_row_map: "set (row_map p f t) = (\<lambda>r. if p r then f r else r) ` set t"
  by (simp add: row_map_def)

lemma row_first_row_map:
  assumes "\<And>r. p (f r) = p r"
  shows "row_first p (row_map q f t) = map_option (\<lambda>r. if q r then f r else r) (row_first p t)"
  using assms unfolding row_first_def row_map_def by (induction t) (simp_all split: if_split)

lemma row_first_cong: "(\<And>r. r \<in> set t \<Longrightarrow> p r = q r) \<Longrightarrow> row_first p t = row_first q t"
  unfolding row_first_def by (induction t) auto

lemma row_one_row_map:
  assumes "\<And>r. p (f r) = p r" "row_one p t = Inr r"
  shows "row_one p (row_map q f t) = Inr (if q r then f r else r)"
proof -
  have "filter p (row_map q f t) = row_map q f (filter p t)"
    using assms(1) unfolding row_map_def by (induction t) simp_all
  with assms(2) show ?thesis by (simp add: row_one_Inr row_map_def)
qed

lemma row_one_eq: "row_one p t = Inr r \<Longrightarrow> s \<in> set t \<Longrightarrow> p s \<Longrightarrow> s = r"
  by (metis (mono_tags, lifting) empty_iff filter_set insert_iff list.set(1,2) row_one_Inr mem_Collect_eq set_filter)

section \<open>Transition systems\<close>

text \<open>
  The interface every state machine of the development offers its clients: a step relation and a
  property that each step keeps. The client gets the property for every reachable state.
\<close>

locale transition_system =
  fixes step :: "'s \<Rightarrow> 's \<Rightarrow> bool"
    and inv :: "'s \<Rightarrow> bool"
  assumes step_keeps: "inv s \<Longrightarrow> step s s' \<Longrightarrow> inv s'"
begin

lemma reachable_keeps: "step\<^sup>*\<^sup>* s s' \<Longrightarrow> inv s \<Longrightarrow> inv s'"
  by (induction rule: rtranclp_induct) (auto intro: step_keeps)

lemma power_keeps: "(step ^^ n) s s' \<Longrightarrow> inv s \<Longrightarrow> inv s'"
  using reachable_keeps by (blast dest: relpowp_imp_rtranclp)

text \<open>A preorder that every step obeys relates any two states of a run.\<close>

lemma reachable_relates:
  assumes "step\<^sup>*\<^sup>* s s'" "inv s" "\<And>a b. inv a \<Longrightarrow> step a b \<Longrightarrow> R a b" "\<And>a. R a a" "\<And>a b c. R a b \<Longrightarrow> R b c \<Longrightarrow> R a c"
  shows "R s s'"
  using assms(1)
proof (induction rule: rtranclp_induct)
  case base
  show ?case by (rule assms(4))
next
  case (step t u)
  then have "R t u" using reachable_keeps assms(2,3) by blast
  with step.IH show ?case by (rule assms(5))
qed

lemma reachable_holds: "step\<^sup>*\<^sup>* s s' \<Longrightarrow> inv s \<Longrightarrow> (\<And>t. inv t \<Longrightarrow> P t) \<Longrightarrow> P s'"
  by (blast dest: reachable_keeps)

end

text \<open>A system that keeps a fence token per resource, which no step lowers.\<close>

locale fenced_system = transition_system step inv
  for step :: "'s \<Rightarrow> 's \<Rightarrow> bool" and inv :: "'s \<Rightarrow> bool" +
  fixes token :: "'s \<Rightarrow> 'k \<Rightarrow> int option"
  assumes token_mono: "inv s \<Longrightarrow> step s s' \<Longrightarrow> token s k = Some n \<Longrightarrow> \<exists>m. token s' k = Some m \<and> n \<le> m"
begin

lemma token_reach:
  assumes "step\<^sup>*\<^sup>* s s'" "inv s" "token s k = Some n"
  shows "\<exists>m. token s' k = Some m \<and> n \<le> m"
  using assms(1)
proof (induction rule: rtranclp_induct)
  case base
  with assms(3) show ?case by simp
next
  case (step t u)
  then obtain m where m: "token t k = Some m" "n \<le> m" by blast
  have "inv t" using step.hyps(1) assms(2) by (rule reachable_keeps)
  from token_mono [OF this step.hyps(2) m(1)] m(2) show ?case by force
qed

lemma token_superseded: "step\<^sup>*\<^sup>* s s' \<Longrightarrow> inv s \<Longrightarrow> token s k = Some n \<Longrightarrow> old < n \<Longrightarrow> token s' k \<noteq> Some old"
  by (drule (2) token_reach) auto

end

text \<open>A system whose steps also lower a rank while a condition holds makes boundedly many of them.\<close>

locale ranked_system = transition_system step inv
  for step :: "'s \<Rightarrow> 's \<Rightarrow> bool" and inv :: "'s \<Rightarrow> bool" +
  fixes rank :: "'s \<Rightarrow> nat"
  assumes step_ranks: "inv s \<Longrightarrow> step s s' \<Longrightarrow> rank s' < rank s"
begin

lemma steps_bounded: "(step ^^ n) s s' \<Longrightarrow> inv s \<Longrightarrow> n + rank s' \<le> rank s"
proof (induction n arbitrary: s')
  case (Suc n)
  then obtain m where m: "(step ^^ n) s m" "step m s'" by auto
  with Suc have "n + rank m \<le> rank s" "inv m" using power_keeps by blast+
  with step_ranks m(2) show ?case by fastforce
qed simp

end

end
