(* ===== verification/PyStr.thy ===== *)
theory PyStr
  imports BwPrelude
begin

text \<open>
  The string methods of Python the modelled code uses, on HOL's character strings. A character
  stands for the code point of its number; the case mappings and character classes are those of
  Python on ASCII text (\<open>lower\<close>, \<open>upper\<close> and \<open>casefold\<close> agree there up to direction, and Unicode
  normalisation is the identity), and the blanks are Python's below code point 256.
\<close>

section \<open>Characters\<close>

definition is_space :: "char \<Rightarrow> bool" where
  "is_space c = (let n = of_char c :: nat in 9 \<le> n \<and> n \<le> 13 \<or> 28 \<le> n \<and> n \<le> 32 \<or> n = 133 \<or> n = 160)"

definition is_digit :: "char \<Rightarrow> bool" where
  "is_digit c = (let n = of_char c :: nat in 48 \<le> n \<and> n \<le> 57)"

definition is_upper :: "char \<Rightarrow> bool" where
  "is_upper c = (let n = of_char c :: nat in 65 \<le> n \<and> n \<le> 90)"

definition is_lower :: "char \<Rightarrow> bool" where
  "is_lower c = (let n = of_char c :: nat in 97 \<le> n \<and> n \<le> 122)"

definition is_word :: "char \<Rightarrow> bool" where
  "is_word c = (is_digit c \<or> is_upper c \<or> is_lower c \<or> c = CHR ''_'')"

definition digit_val :: "char \<Rightarrow> nat" where
  "digit_val c = of_char c - 48"

definition digit_char :: "nat \<Rightarrow> char" where
  "digit_char n = char_of (48 + n)"

definition lower_char :: "char \<Rightarrow> char" where
  "lower_char c = (if is_upper c then char_of (of_char c + 32 :: nat) else c)"

definition upper_char :: "char \<Rightarrow> char" where
  "upper_char c = (if is_lower c then char_of (of_char c - 32 :: nat) else c)"

section \<open>Strings\<close>

definition py_lower :: "string \<Rightarrow> string" where
  "py_lower s = map lower_char s"

definition py_upper :: "string \<Rightarrow> string" where
  "py_upper s = map upper_char s"

definition py_lstrip :: "string \<Rightarrow> string" where
  "py_lstrip s = dropWhile is_space s"

definition py_strip :: "string \<Rightarrow> string" where
  "py_strip s = rev (dropWhile is_space (rev (py_lstrip s)))"

text \<open>
  What \<open>int(s, base)\<close> strips: in a text of ASCII characters the blanks of C only, in any other text the blanks of \<open>str\<close>.
\<close>

definition is_c_space :: "char \<Rightarrow> bool" where
  "is_c_space c = (let n = of_char c :: nat in 9 \<le> n \<and> n \<le> 13 \<or> n = 32)"

definition py_int_strip :: "string \<Rightarrow> string" where
  "py_int_strip s =
     (let blank = (if list_all (\<lambda>c. of_char c < (128 :: nat)) s then is_c_space else is_space)
      in rev (dropWhile blank (rev (dropWhile blank s))))"

definition py_isdigit :: "string \<Rightarrow> bool" where
  "py_isdigit s = (s \<noteq> [] \<and> list_all is_digit s)"

text \<open>\<open>s.split(sep)\<close> for a separator of one character: always at least one piece.\<close>

fun py_split :: "char \<Rightarrow> string \<Rightarrow> string list" where
  "py_split c [] = [[]]"
| "py_split c (x # xs) =
     (if x = c then [] # py_split c xs
      else (case py_split c xs of [] \<Rightarrow> [[x]] | w # ws \<Rightarrow> (x # w) # ws))"

fun py_join :: "string \<Rightarrow> string list \<Rightarrow> string" where
  "py_join sep [] = []"
| "py_join sep [x] = x"
| "py_join sep (x # y # xs) = x @ sep @ py_join sep (y # xs)"

definition py_startswith :: "string \<Rightarrow> string \<Rightarrow> bool" where
  "py_startswith s p = (take (length p) s = p)"

definition py_removeprefix :: "string \<Rightarrow> string \<Rightarrow> string" where
  "py_removeprefix s p = (if py_startswith s p then drop (length p) s else s)"

text \<open>\<open>re.findall(r"\w+", s)\<close>: the maximal runs of word characters.\<close>

fun py_words_from :: "string \<Rightarrow> string \<Rightarrow> string list" where
  "py_words_from w [] = (if w = [] then [] else [rev w])"
| "py_words_from w (c # cs) =
     (if is_word c then py_words_from (c # w) cs
      else if w = [] then py_words_from [] cs
      else rev w # py_words_from [] cs)"

definition py_words :: "string \<Rightarrow> string list" where
  "py_words s = py_words_from [] s"

text \<open>Decimal rendering of integers, as \<open>str\<close> and f-strings do.\<close>

fun show_nat :: "nat \<Rightarrow> string" where
  "show_nat n = (if n < 10 then [digit_char n] else show_nat (n div 10) @ [digit_char (n mod 10)])"

declare show_nat.simps [simp del]

definition show_int :: "int \<Rightarrow> string" where
  "show_int i = (if i < 0 then ''-'' @ show_nat (nat (- i)) else show_nat (nat i))"

definition is_hex_lower :: "char \<Rightarrow> bool" where
  "is_hex_lower c = (is_digit c \<or> (let n = of_char c :: nat in 97 \<le> n \<and> n \<le> 102))"

definition is_hex :: "char \<Rightarrow> bool" where
  "is_hex c = (is_hex_lower c \<or> (let n = of_char c :: nat in 65 \<le> n \<and> n \<le> 70))"

text \<open>The pattern \<open>^[0-9a-f]{64}$\<close> under \<open>fullmatch\<close>.\<close>

definition is_sha256_hex :: "string \<Rightarrow> bool" where
  "is_sha256_hex s = (length s = 64 \<and> list_all is_hex_lower s)"

section \<open>Lemmas\<close>

lemma of_char_digit_char [simp]: "n < 10 \<Longrightarrow> (of_char (digit_char n) :: nat) = 48 + n"
  by (simp add: digit_char_def)

lemma is_digit_digit_char [simp]: "n < 10 \<Longrightarrow> is_digit (digit_char n)"
  by (simp add: is_digit_def)

lemma digit_val_digit_char [simp]: "n < 10 \<Longrightarrow> digit_val (digit_char n) = n"
  by (simp add: digit_val_def)

lemma digit_val_less [simp]: "is_digit c \<Longrightarrow> digit_val c < 10"
  by (auto simp: is_digit_def digit_val_def Let_def)

lemma digit_char_digit_val [simp]: "is_digit c \<Longrightarrow> digit_char (digit_val c) = c"
proof -
  assume d: "is_digit c"
  then have "48 + (of_char c - 48) = (of_char c :: nat)"
    by (auto simp: is_digit_def Let_def)
  then show ?thesis by (simp add: digit_char_def digit_val_def)
qed

lemma show_nat_nonempty [simp]: "show_nat n \<noteq> []"
  by (subst show_nat.simps) simp

lemma show_nat_digits: "list_all is_digit (show_nat n)"
proof (induction n rule: show_nat.induct)
  case (1 n)
  then show ?case by (cases "n < 10") (simp_all add: show_nat.simps [of n])
qed

definition nat_of_digits :: "string \<Rightarrow> nat" where
  "nat_of_digits s = foldl (\<lambda>a c. 10 * a + digit_val c) 0 s"

lemma nat_of_digits_show [simp]: "nat_of_digits (show_nat n) = n"
proof (induction n rule: show_nat.induct)
  case (1 n)
  show ?case
  proof (cases "n < 10")
    case True
    then show ?thesis by (simp add: show_nat.simps [of n] nat_of_digits_def)
  next
    case False
    with 1 have "foldl (\<lambda>a c. 10 * a + digit_val c) 0 (show_nat (n div 10)) = n div 10"
      by (simp add: nat_of_digits_def)
    then have "nat_of_digits (show_nat n) = 10 * (n div 10) + n mod 10"
      using False by (simp add: show_nat.simps [of n] nat_of_digits_def)
    then show ?thesis by simp
  qed
qed

lemma show_nat_inject [simp]: "show_nat m = show_nat n \<longleftrightarrow> m = n"
  by (metis nat_of_digits_show)

lemma show_nat_not_minus: "show_nat n \<noteq> CHR ''-'' # s"
proof
  assume "show_nat n = CHR ''-'' # s"
  with show_nat_digits [of n] have "is_digit (CHR ''-'')" by simp
  then show False by (simp add: is_digit_def)
qed

lemma show_int_inject [simp]: "show_int i = show_int j \<longleftrightarrow> i = j"
proof -
  have "show_nat a \<noteq> ''-'' @ show_nat b" "''-'' @ show_nat a \<noteq> show_nat b" for a b
    using show_nat_not_minus by (auto simp: eq_commute)
  then show ?thesis by (auto simp: show_int_def)
qed

lemma py_strip_Nil [simp]: "py_strip [] = []"
  by (simp add: py_strip_def py_lstrip_def)

lemma lower_upper_char: "is_upper c \<Longrightarrow> \<not> is_upper (lower_char c)"
  by (auto simp: lower_char_def is_upper_def Let_def)

lemma lower_char_idem [simp]: "lower_char (lower_char c) = lower_char c"
  using lower_upper_char by (cases "is_upper c") (auto simp: lower_char_def)

lemma py_lower_idem [simp]: "py_lower (py_lower s) = py_lower s"
  by (simp add: py_lower_def)

lemma length_py_lower [simp]: "length (py_lower s) = length s"
  by (simp add: py_lower_def)

lemma is_space_lower [simp]: "is_space (lower_char c) = is_space c"
  by (auto simp: lower_char_def is_upper_def is_space_def Let_def)

lemma dropWhile_space_map_lower:
  "dropWhile is_space (map lower_char s) = map lower_char (dropWhile is_space s)"
  by (induction s) auto

lemma py_strip_lower: "py_strip (py_lower s) = py_lower (py_strip s)"
  by (simp add: py_strip_def py_lstrip_def py_lower_def dropWhile_space_map_lower rev_map)

lemma dropWhile_idem_hd: "dropWhile P (dropWhile P xs) = dropWhile P xs"
  by (induction xs) auto

lemma dropWhile_rev_idem:
  assumes "dropWhile P xs = xs"
  shows "dropWhile P (rev (dropWhile P (rev xs))) = rev (dropWhile P (rev xs))"
proof (cases "rev (dropWhile P (rev xs))")
  case Nil
  then have "dropWhile P (rev xs) = []" by (metis rev_is_Nil_conv)
  then show ?thesis by (simp only: rev.simps dropWhile.simps)
next
  case (Cons a as)
  have "rev xs = takeWhile P (rev xs) @ dropWhile P (rev xs)" by simp
  then have "xs = rev (dropWhile P (rev xs)) @ rev (takeWhile P (rev xs))"
    by (metis rev_append rev_rev_ident)
  with Cons have "xs = a # as @ rev (takeWhile P (rev xs))" by simp
  with assms have "\<not> P a" by (metis dropWhile_eq_Cons_conv)
  with Cons show ?thesis by simp
qed

lemma py_strip_idem [simp]: "py_strip (py_strip s) = py_strip s"
proof -
  have "dropWhile is_space (py_lstrip s) = py_lstrip s"
    by (simp add: py_lstrip_def dropWhile_idem_hd)
  then have "py_lstrip (py_strip s) = py_strip s"
    unfolding py_strip_def by (subst py_lstrip_def) (rule dropWhile_rev_idem)
  then show ?thesis by (simp add: py_strip_def [of "py_strip s"]) (simp add: py_strip_def dropWhile_idem_hd)
qed

lemma is_hex_lower_not_upper: "is_hex_lower c \<Longrightarrow> lower_char c = c"
  by (auto simp: is_hex_lower_def is_digit_def lower_char_def is_upper_def Let_def)

lemma is_sha256_hex_lower: "is_sha256_hex s \<Longrightarrow> py_lower s = s"
  by (auto simp: is_sha256_hex_def py_lower_def list_all_iff is_hex_lower_not_upper intro: map_idI)

end
