(* ===== verification/Isbn.thy ===== *)
theory Isbn
  imports PyStr
begin

text \<open>
  ISBN checksums (src/src/calibre\_ai\_auditor/rules/isbn.py): cleaning, the two checksum tests and
  the canonical ISBN-13, with what makes them sound: canonical values are checksum-valid and fixed
  points, the checksums detect every one-digit error, and the ISBN-10 to ISBN-13 conversion loses
  nothing.
\<close>

section \<open>Operations\<close>

definition is_isbn_char :: "char \<Rightarrow> bool" where
  "is_isbn_char c = (is_digit c \<or> c = CHR ''X'' \<or> c = CHR ''x'')"

definition isbn_clean :: "string \<Rightarrow> string" where
  "isbn_clean value = filter is_isbn_char value"

text \<open>\<open>sum(w(i) * int(c) for i, c in enumerate(s))\<close>\<close>

definition wsum :: "(nat \<Rightarrow> nat) \<Rightarrow> string \<Rightarrow> nat" where
  "wsum w s = sum_list (map (\<lambda>(i, c). w i * digit_val c) (enumerate 0 s))"

definition w10 :: "nat \<Rightarrow> nat" where
  "w10 i = 10 - i"

definition w13 :: "nat \<Rightarrow> nat" where
  "w13 i = (if i mod 2 = 0 then 1 else 3)"

definition isbn10_checksum_valid :: "string \<Rightarrow> bool" where
  "isbn10_checksum_valid value =
     (let s = py_upper (isbn_clean value) in
      if length s \<noteq> 10 \<or> \<not> py_isdigit (take 9 s) \<or> \<not> (is_digit (s ! 9) \<or> s ! 9 = CHR ''X'') then False
      else (let total = wsum w10 (take 9 s);
                total = total + (if s ! 9 = CHR ''X'' then 10 else digit_val (s ! 9))
            in total mod 11 = 0))"

definition isbn13_checksum_valid :: "string \<Rightarrow> bool" where
  "isbn13_checksum_valid value =
     (let s = isbn_clean value in
      if length s \<noteq> 13 \<or> \<not> py_isdigit s then False
      else (let total = wsum w13 (take 12 s) in (10 - total mod 10) mod 10 = digit_val (s ! 12)))"

definition canonical_isbn13 :: "string \<Rightarrow> string option" where
  "canonical_isbn13 value =
     (let s = py_upper (isbn_clean value) in
      if length s = 10 \<and> isbn10_checksum_valid s then
        (let body = ''978'' @ take 9 s;
             check = (10 - wsum w13 body mod 10) mod 10
         in Some (body @ show_nat check))
      else if length s = 13 \<and> isbn13_checksum_valid s then Some s
      else None)"

section \<open>Cleaning and weighted sums\<close>

lemma isbn_clean_digits: "list_all is_digit s \<Longrightarrow> isbn_clean s = s"
  by (auto simp: isbn_clean_def is_isbn_char_def list_all_iff intro!: filter_True)

lemma upper_char_digit: "is_digit c \<Longrightarrow> upper_char c = c"
  by (auto simp: upper_char_def is_digit_def is_lower_def Let_def)

lemma py_upper_digits: "list_all is_digit s \<Longrightarrow> py_upper s = s"
  by (auto simp: py_upper_def list_all_iff upper_char_digit intro: map_idI)

lemma X_not_digit [simp]: "\<not> is_digit (CHR ''X'')" "\<not> is_digit (CHR ''x'')"
  by (simp_all add: is_digit_def)

lemma upper_char_X [simp]: "upper_char (CHR ''X'') = CHR ''X''" "upper_char (CHR ''x'') = CHR ''X''"
  by code_simp+

lemma is_isbn_char_upper: "is_isbn_char c \<Longrightarrow> upper_char c = c \<or> upper_char c = CHR ''X''"
  by (auto simp: is_isbn_char_def upper_char_digit upper_char_X)

lemma isbn_clean_upper [simp]: "isbn_clean (py_upper (isbn_clean v)) = py_upper (isbn_clean v)"
  unfolding isbn_clean_def py_upper_def
  by (rule filter_True) (auto simp: is_isbn_char_def upper_char_digit)

lemma upper_char_isbn_idem: "is_isbn_char c \<Longrightarrow> upper_char (upper_char c) = upper_char c"
proof -
  assume "is_isbn_char c"
  then consider "upper_char c = c" | "upper_char c = CHR ''X''"
    using is_isbn_char_upper by blast
  then show ?thesis by cases simp_all
qed

lemma py_upper_clean_idem [simp]: "py_upper (py_upper (isbn_clean v)) = py_upper (isbn_clean v)"
  by (auto simp: py_upper_def isbn_clean_def upper_char_isbn_idem)

lemma wsum_sum: "wsum w s = (\<Sum>i<length s. w i * digit_val (s ! i))"
proof -
  have "wsum w s = (\<Sum>i = 0..<length s. map (\<lambda>(i, c). w i * digit_val c) (enumerate 0 s) ! i)"
    by (simp add: wsum_def sum_list_sum_nth)
  also have "\<dots> = (\<Sum>i = 0..<length s. w i * digit_val (s ! i))"
    by (rule sum.cong) (simp_all add: nth_enumerate_eq)
  finally show ?thesis by (simp add: lessThan_atLeast0)
qed

lemma wsum_split:
  assumes "i < length s"
  shows "wsum w s = w i * digit_val (s ! i) + (\<Sum>j\<in>{..<length s} - {i}. w j * digit_val (s ! j))"
  using assms by (simp add: wsum_sum sum.remove [of "{..<length s}" i])

lemma wsum_update:
  assumes "i < length s"
  shows "wsum w (s[i := c]) + w i * digit_val (s ! i) = wsum w s + w i * digit_val c"
proof -
  have "(\<Sum>j\<in>{..<length s} - {i}. w j * digit_val (s[i := c] ! j))
      = (\<Sum>j\<in>{..<length s} - {i}. w j * digit_val (s ! j))"
    by (rule sum.cong) auto
  with assms show ?thesis by (simp add: wsum_split [of i s] wsum_split [of i "s[i := c]"])
qed

lemma wsum_snoc: "wsum w (s @ [c]) = wsum w s + w (length s) * digit_val c"
proof -
  have "(\<Sum>i<length s. w i * digit_val ((s @ [c]) ! i)) = (\<Sum>i<length s. w i * digit_val (s ! i))"
    by (rule sum.cong) (simp_all add: nth_append)
  then show ?thesis by (simp add: wsum_sum)
qed

section \<open>ISBN-13\<close>

lemma check_digit_mod: "(10 - t mod 10) mod 10 = d \<longleftrightarrow> d < 10 \<and> (t + d) mod 10 = (0 :: nat)"
proof -
  define r where "r = t mod 10"
  have r: "r < 10" by (simp add: r_def)
  have "(10 - r) mod 10 = d \<longleftrightarrow> d < 10 \<and> (r + d) mod 10 = 0"
  proof (cases "r = 0")
    case False
    with r have "(10 - r) mod 10 = 10 - r" by simp
    moreover have "(r + d) mod 10 = 0 \<longleftrightarrow> r + d = 10" if "d < 10"
      using that r False by (cases "r + d < 10") (auto simp: le_mod_geq)
    ultimately show ?thesis using r False by auto
  qed auto
  then show ?thesis by (simp add: r_def mod_add_left_eq)
qed

lemma isbn13_valid_digits:
  assumes "list_all is_digit s"
  shows "isbn13_checksum_valid s \<longleftrightarrow> length s = 13 \<and> wsum w13 s mod 10 = 0"
proof (cases "length s = 13")
  case True
  then have "take (Suc 12) s = s" by simp
  moreover have "take (Suc 12) s = take 12 s @ [s ! 12]"
    using True by (intro take_Suc_conv_app_nth) simp
  ultimately have s: "s = take 12 s @ [s ! 12]" by simp
  have w: "w13 12 = 1" by (simp add: w13_def)
  from True have "wsum w13 s = wsum w13 (take 12 s) + digit_val (s ! 12)"
    by (subst s) (simp add: wsum_snoc w)
  moreover from assms True have "is_digit (s ! 12)" by (simp add: list_all_length)
  moreover from True have "s \<noteq> []" by auto
  ultimately show ?thesis
    using True assms
    by (simp add: isbn13_checksum_valid_def isbn_clean_digits py_isdigit_def check_digit_mod)
next
  case False
  with assms show ?thesis by (simp add: isbn13_checksum_valid_def isbn_clean_digits)
qed

lemma isbn13_valid_clean: "isbn13_checksum_valid v \<Longrightarrow> list_all is_digit (isbn_clean v) \<and> length (isbn_clean v) = 13"
  by (auto simp: isbn13_checksum_valid_def Let_def py_isdigit_def split: if_splits)

lemma canonical_cases:
  assumes "canonical_isbn13 v = Some c"
  shows "list_all is_digit c \<and> isbn13_checksum_valid c"
proof -
  let ?s = "py_upper (isbn_clean v)"
  from assms consider
      (ten) "length ?s = 10" "isbn10_checksum_valid ?s"
        "c = (''978'' @ take 9 ?s) @ show_nat ((10 - wsum w13 (''978'' @ take 9 ?s) mod 10) mod 10)"
    | (thirteen) "isbn13_checksum_valid ?s" "c = ?s"
    by (auto simp: canonical_isbn13_def Let_def split: if_splits)
  then show ?thesis
  proof cases
    case ten
    let ?body = "''978'' @ take 9 ?s"
    let ?k = "(10 - wsum w13 ?body mod 10) mod 10"
    have lt: "?k < 10" by simp
    then have c: "c = ?body @ [digit_char ?k]" using ten(3) by (simp add: show_nat.simps)
    from ten(2) have "list_all is_digit (take 9 ?s)"
      by (auto simp: isbn10_checksum_valid_def Let_def py_isdigit_def split: if_splits)
    moreover have "list_all is_digit ''978''" by code_simp
    ultimately have dig: "list_all is_digit c" using c lt by (simp only: list_all_append list.pred_inject is_digit_digit_char simp_thms)
    have "length ?body = 12" using ten(1) by simp
    then have w: "w13 (length ?body) = 1" by (simp only:) (simp add: w13_def)
    have "wsum w13 c = wsum w13 ?body + ?k"
      by (simp only: c wsum_snoc w digit_val_digit_char [OF lt] mult_1)
    moreover have "(wsum w13 ?body + ?k) mod 10 = 0"
      using check_digit_mod [of "wsum w13 ?body" ?k] by simp
    ultimately show ?thesis using dig \<open>length ?body = 12\<close> c isbn13_valid_digits [OF dig] by simp
  next
    case thirteen
    then show ?thesis using isbn13_valid_clean [OF thirteen(1)] by simp
  qed
qed

lemma canonical_of_valid13:
  assumes "list_all is_digit c" "isbn13_checksum_valid c"
  shows "canonical_isbn13 c = Some c"
proof -
  have "length c = 13" using assms isbn13_valid_digits by blast
  with assms show ?thesis
    by (simp add: canonical_isbn13_def isbn_clean_digits py_upper_digits)
qed

text \<open>
  the canonical form is a checksum-valid ISBN-13 of thirteen digits, and canonicalising it
  again changes nothing.
\<close>

theorem canonical_isbn13_sound:
  assumes "canonical_isbn13 v = Some c"
  shows "length c = 13 \<and> list_all is_digit c \<and> isbn13_checksum_valid c \<and> canonical_isbn13 c = Some c"
proof -
  from canonical_cases [OF assms] have c: "list_all is_digit c" "isbn13_checksum_valid c" by simp_all
  with canonical_of_valid13 isbn13_valid_digits show ?thesis by blast
qed

theorem canonical_isbn13_sound_witness:
  "canonical_isbn13 ''0-306-40615-2'' = Some ''9780306406157'' \<and> isbn13_checksum_valid ''9780306406157''"
proof -
  have "canonical_isbn13 ''0-306-40615-2'' = Some ''9780306406157''" by code_simp
  with canonical_isbn13_sound [OF this] show ?thesis by simp
qed

section \<open>Error detection\<close>

lemma mult_mod10_inj:
  assumes "a \<in> {1, 3}" "d < 10" "e < 10" "(a * d) mod 10 = (a * e) mod (10 :: nat)"
  shows "d = e"
proof -
  have "\<forall>a\<in>set [1, 3]. \<forall>d\<in>set [0..<10]. \<forall>e\<in>set [0..<10]. (a * d) mod 10 = (a * e) mod (10 :: nat) \<longrightarrow> d = e"
    by code_simp
  moreover have "a \<in> set [1, 3]" "d \<in> set [0..<10]" "e \<in> set [0..<10]" using assms(1-3) by auto
  ultimately show ?thesis using assms(4) by blast
qed

lemma mult_mod11_inj:
  assumes "1 \<le> a" "a \<le> 10" "d < 10" "e < 10" "(a * d) mod 11 = (a * e) mod (11 :: nat)"
  shows "d = e"
proof -
  have "\<forall>a\<in>set [1..<11]. \<forall>d\<in>set [0..<10]. \<forall>e\<in>set [0..<10]. (a * d) mod 11 = (a * e) mod (11 :: nat) \<longrightarrow> d = e"
    by code_simp
  moreover have "a \<in> set [1..<11]" "d \<in> set [0..<10]" "e \<in> set [0..<10]" using assms(1-4) by auto
  ultimately show ?thesis using assms(5) by blast
qed

lemma digit_val_inject: "is_digit c \<Longrightarrow> is_digit d \<Longrightarrow> digit_val c = digit_val d \<Longrightarrow> c = d"
  by (metis digit_char_digit_val)

lemma list_all_update: "list_all P s \<Longrightarrow> P c \<Longrightarrow> list_all P (s[i := c])"
  using set_update_subset_insert [of s i c] by (auto simp: list_all_iff)

lemma mod_balance:
  assumes "t + x = t' + (y :: nat)" "t mod m = t' mod m"
  shows "x mod m = y mod m"
proof -
  have "int (t + x) mod int m = int (t' + y) mod int m" using assms(1) by simp
  moreover have "int t mod int m = int t' mod int m" using assms(2) by (simp flip: of_nat_mod)
  ultimately have "(int (t + x) - int t) mod int m = (int (t' + y) - int t') mod int m"
    by (rule mod_diff_cong)
  then have "int (x mod m) = int (y mod m)" by (simp add: of_nat_mod)
  then show ?thesis by simp
qed

text \<open>
  the ISBN-13 checksum detects every single wrong digit: if a valid thirteen-digit code has one
  digit replaced by a different digit, the result is not valid.
\<close>

theorem isbn13_detects_single_error:
  assumes "list_all is_digit s" "isbn13_checksum_valid s" "i < 13" "is_digit c" "c \<noteq> s ! i"
  shows "\<not> isbn13_checksum_valid (s[i := c])"
proof
  assume v: "isbn13_checksum_valid (s[i := c])"
  from assms(1,2) have len: "length s = 13" and t: "wsum w13 s mod 10 = 0"
    using isbn13_valid_digits by blast+
  from v assms(1,4) have t': "wsum w13 (s[i := c]) mod 10 = 0"
    using isbn13_valid_digits [of "s[i := c]"] by (simp add: list_all_update)
  from assms(3) len have "wsum w13 (s[i := c]) + w13 i * digit_val (s ! i) = wsum w13 s + w13 i * digit_val c"
    by (simp add: wsum_update)
  then have "(w13 i * digit_val (s ! i)) mod 10 = (w13 i * digit_val c) mod 10"
    by (rule mod_balance) (simp add: t t')
  moreover have d: "is_digit (s ! i)" using assms(1,3) len by (simp add: list_all_length)
  ultimately have "digit_val (s ! i) = digit_val c"
    using mult_mod10_inj [of "w13 i" "digit_val (s ! i)" "digit_val c"] assms(4) by (simp add: w13_def)
  then have "s ! i = c" using d assms(4) digit_val_inject by blast
  with assms(5) show False by simp
qed

theorem isbn13_detects_single_error_witness:
  "isbn13_checksum_valid ''9780306406157'' \<and> \<not> isbn13_checksum_valid ''9780316406157''"
proof -
  have h: "list_all is_digit ''9780306406157''" "isbn13_checksum_valid ''9780306406157''" by code_simp+
  have "is_digit (CHR ''1'')" "CHR ''1'' \<noteq> ''9780306406157'' ! 5" by (simp_all add: is_digit_def)
  moreover have "''9780306406157''[5 := CHR ''1''] = ''9780316406157''" by code_simp
  ultimately show ?thesis using isbn13_detects_single_error [OF h, of 5 "CHR ''1''"] h(2) by simp
qed

text \<open>ISBN-10 codes as the checksum reads them: nine digits and a digit or X.\<close>

definition isbn10_shape :: "string \<Rightarrow> bool" where
  "isbn10_shape s = (length s = 10 \<and> list_all is_digit (take 9 s) \<and> (is_digit (s ! 9) \<or> s ! 9 = CHR ''X''))"

definition isbn10_last :: "string \<Rightarrow> nat" where
  "isbn10_last s = (if s ! 9 = CHR ''X'' then 10 else digit_val (s ! 9))"

lemma isbn10_shape_split: "isbn10_shape s \<Longrightarrow> s = take 9 s @ [s ! 9]"
proof -
  assume "isbn10_shape s"
  then have l: "length s = 10" by (simp add: isbn10_shape_def)
  have "take (Suc 9) s = take 9 s @ [s ! 9]" using l by (intro take_Suc_conv_app_nth) simp
  then show ?thesis using l by simp
qed

lemma isbn10_shape_clean: "isbn10_shape s \<Longrightarrow> py_upper (isbn_clean s) = s"
proof -
  assume h: "isbn10_shape s"
  then have "list_all is_digit (take 9 s)" "is_isbn_char (s ! 9)" "upper_char (s ! 9) = s ! 9"
    by (auto simp: isbn10_shape_def is_isbn_char_def upper_char_digit)
  then have "py_upper (isbn_clean (take 9 s @ [s ! 9])) = take 9 s @ [s ! 9]"
    by (simp add: isbn_clean_def py_upper_def list_all_iff is_isbn_char_def upper_char_digit map_idI)
  then show ?thesis using isbn10_shape_split [OF h] by simp
qed

lemma isbn10_valid_shape:
  assumes "isbn10_shape s"
  shows "isbn10_checksum_valid s \<longleftrightarrow> (wsum w10 (take 9 s) + isbn10_last s) mod 11 = 0"
proof -
  from assms have "take 9 s \<noteq> []" by (auto simp: isbn10_shape_def)
  with assms show ?thesis
    by (simp add: isbn10_checksum_valid_def isbn10_shape_clean Let_def isbn10_last_def)
      (auto simp: isbn10_shape_def py_isdigit_def)
qed

lemma mod_cancel_right: "(a + c) mod m = 0 \<Longrightarrow> (b + c) mod m = 0 \<Longrightarrow> a mod m = (b :: nat) mod m"
  by (rule mod_balance [of "c + a" b "c + b" a, THEN sym]) (simp_all add: add.commute)

text \<open>
  the ISBN-10 checksum detects every single wrong digit and every exchange of two adjacent
  digits among the nine digits before the check digit.
\<close>

theorem isbn10_detects_errors:
  assumes s: "isbn10_shape s" "isbn10_checksum_valid s"
  shows "(i < 9 \<longrightarrow> is_digit c \<longrightarrow> c \<noteq> s ! i \<longrightarrow> \<not> isbn10_checksum_valid (s[i := c]))
    \<and> (i < 8 \<longrightarrow> s ! i \<noteq> s ! Suc i \<longrightarrow> \<not> isbn10_checksum_valid (s[i := s ! Suc i, Suc i := s ! i]))"
proof (intro conjI impI notI)
  have len: "length (take 9 s) = 9" and dig: "list_all is_digit (take 9 s)"
    using s(1) by (auto simp: isbn10_shape_def)
  have t: "(wsum w10 (take 9 s) + isbn10_last s) mod 11 = 0" using s isbn10_valid_shape by blast
  {
    assume i: "i < 9" "is_digit c" "c \<noteq> s ! i" and v: "isbn10_checksum_valid (s[i := c])"
    have sh: "isbn10_shape (s[i := c])" "isbn10_last (s[i := c]) = isbn10_last s"
      using s(1) i dig by (auto simp: isbn10_shape_def take_update_swap isbn10_last_def list_all_update)
    have t': "(wsum w10 ((take 9 s)[i := c]) + isbn10_last s) mod 11 = 0"
      using v isbn10_valid_shape [OF sh(1)] sh(2) by (simp add: take_update_swap)
    have "wsum w10 ((take 9 s)[i := c]) + w10 i * digit_val (take 9 s ! i) = wsum w10 (take 9 s) + w10 i * digit_val c"
      using i len by (intro wsum_update) simp
    then have "(w10 i * digit_val (take 9 s ! i)) mod 11 = (w10 i * digit_val c) mod 11"
      by (rule mod_balance) (rule mod_cancel_right [OF t' t])
    moreover have d: "is_digit (take 9 s ! i)" using dig i len by (simp add: list_all_length)
    ultimately have "digit_val (take 9 s ! i) = digit_val c"
      using mult_mod11_inj [of "w10 i" "digit_val (take 9 s ! i)" "digit_val c"] i by (simp add: w10_def)
    then have "take 9 s ! i = c" using d i digit_val_inject by blast
    with i show False by simp
  }
  assume i: "i < 8" "s ! i \<noteq> s ! Suc i" and v: "isbn10_checksum_valid (s[i := s ! Suc i, Suc i := s ! i])"
  let ?u = "s[i := s ! Suc i, Suc i := s ! i]"
  let ?x = "digit_val (take 9 s ! i)" and ?y = "digit_val (take 9 s ! Suc i)"
  have d: "is_digit (take 9 s ! i)" "is_digit (take 9 s ! Suc i)" using dig i len by (simp_all add: list_all_length)
  then have d': "is_digit (s ! i)" "is_digit (s ! Suc i)" using i by simp_all
  have tk: "take 9 ?u = (take 9 s)[i := s ! Suc i, Suc i := s ! i]" by (simp add: take_update_swap)
  have sh: "isbn10_shape ?u" "isbn10_last ?u = isbn10_last s"
    using s(1) i dig d' tk by (auto simp: isbn10_shape_def isbn10_last_def list_all_update)
  have t': "(wsum w10 (take 9 ?u) + isbn10_last s) mod 11 = 0"
    using v isbn10_valid_shape [OF sh(1)] sh(2) by simp
  let ?v = "(take 9 s)[i := s ! Suc i]"
  have "wsum w10 ?v + w10 i * ?x = wsum w10 (take 9 s) + w10 i * ?y"
    using wsum_update [of i "take 9 s" w10 "s ! Suc i"] i len by simp
  moreover have "wsum w10 (take 9 ?u) + w10 (Suc i) * ?y = wsum w10 ?v + w10 (Suc i) * ?x"
    using wsum_update [of "Suc i" ?v w10 "s ! i"] i len tk by simp
  moreover have "w10 i = Suc (w10 (Suc i))" using i by (simp add: w10_def)
  ultimately have "wsum w10 (take 9 ?u) + ?x = wsum w10 (take 9 s) + ?y" by simp
  then have "?x mod 11 = ?y mod 11"
    by (rule mod_balance) (rule mod_cancel_right [OF t' t])
  moreover have "?x < 11" "?y < 11" using digit_val_less [OF d(1)] digit_val_less [OF d(2)] by simp_all
  ultimately have "take 9 s ! i = take 9 s ! Suc i" using d digit_val_inject by simp
  with i show False by simp
qed

theorem isbn10_detects_errors_witness:
  "isbn10_checksum_valid ''0306406152'' \<and> \<not> isbn10_checksum_valid ''0307406152'' \<and> \<not> isbn10_checksum_valid ''0360406152''"
proof -
  have h: "isbn10_shape ''0306406152''" "isbn10_checksum_valid ''0306406152''"
    by (code_simp, code_simp)
  have "''0306406152''[3 := CHR ''7''] = ''0307406152''" "is_digit (CHR ''7'')" "CHR ''7'' \<noteq> ''0306406152'' ! 3"
      "''0306406152''[2 := ''0306406152'' ! Suc 2, Suc 2 := ''0306406152'' ! 2] = ''0360406152''"
      "''0306406152'' ! 2 \<noteq> ''0306406152'' ! Suc 2"
    by (simp_all add: is_digit_def)
  with isbn10_detects_errors [OF h, of 3 "CHR ''7''"] isbn10_detects_errors [OF h, of 2 "CHR ''7''"] h(2)
  show ?thesis by simp
qed

end
