(* ===== verification/PyVal.thy ===== *)
theory PyVal
  imports PyStr
begin

text \<open>
  Python values as they cross the JSON columns and the canonical encodings: None, booleans,
  unbounded integers, floats (held by the text of their shortest \<open>repr\<close>, which identifies every
  finite float), strings, lists and dicts with string keys in insertion order; with truthiness,
  \<open>==\<close>, \<open>str\<close> and \<open>json.dumps(sort_keys=True, separators=(",", ":"), ensure_ascii=True)\<close>.
\<close>

datatype pyval =
    PNone
  | PBool bool
  | PInt int
  | PFloat string
  | PStr string
  | PList "pyval list"
  | PDict "(string \<times> pyval) list"

type_synonym pydict = "pyval dict"

primrec py_truthy :: "pyval \<Rightarrow> bool" where
  "py_truthy PNone = False"
| "py_truthy (PBool b) = b"
| "py_truthy (PInt i) = (i \<noteq> 0)"
| "py_truthy (PFloat r) = (r \<noteq> ''0.0'' \<and> r \<noteq> ''-0.0'')"
| "py_truthy (PStr s) = (s \<noteq> [])"
| "py_truthy (PList xs) = (xs \<noteq> [])"
| "py_truthy (PDict d) = (d \<noteq> [])"

text \<open>\<open>d.get(k)\<close> with None for a missing key, and \<open>d.get(k, v)\<close>.\<close>

definition pget :: "pydict \<Rightarrow> string \<Rightarrow> pyval" where
  "pget d k = (case dict_get d k of Some v \<Rightarrow> v | None \<Rightarrow> PNone)"

definition pget_or :: "pydict \<Rightarrow> string \<Rightarrow> pyval \<Rightarrow> pyval" where
  "pget_or d k v = (case dict_get d k of Some w \<Rightarrow> w | None \<Rightarrow> v)"

text \<open>\<open>a or b\<close>.\<close>

definition py_or :: "pyval \<Rightarrow> pyval \<Rightarrow> pyval" where
  "py_or a b = (if py_truthy a then a else b)"

section \<open>Equality\<close>

text \<open>
  Numbers compare by value across bool, int and float: \<open>num_key\<close> is the text of the float of the
  same value (for integers below \<open>10 ^ 16\<close>, where \<open>repr\<close> uses no exponent).
\<close>

definition num_key :: "pyval \<Rightarrow> string option" where
  "num_key v =
     (case v of
        PBool b \<Rightarrow> Some (if b then ''1.0'' else ''0.0'')
      | PInt i \<Rightarrow> Some (show_int i @ ''.0'')
      | PFloat r \<Rightarrow> Some (if r = ''-0.0'' then ''0.0'' else r)
      | _ \<Rightarrow> None)"

primrec py_eq :: "pyval \<Rightarrow> pyval \<Rightarrow> bool" where
  "py_eq PNone = (\<lambda>w. w = PNone)"
| "py_eq (PBool b) = (\<lambda>w. num_key w = num_key (PBool b))"
| "py_eq (PInt i) = (\<lambda>w. num_key w = num_key (PInt i))"
| "py_eq (PFloat r) = (\<lambda>w. num_key w = num_key (PFloat r))"
| "py_eq (PStr s) = (\<lambda>w. w = PStr s)"
| "py_eq (PList xs) =
     (\<lambda>w. case w of PList ys \<Rightarrow> list_all2 (\<lambda>f y. f y) (map py_eq xs) ys | _ \<Rightarrow> False)"
| "py_eq (PDict d) =
     (\<lambda>w. case w of
          PDict e \<Rightarrow>
            length d = length e \<and>
            list_all (\<lambda>(k, f). case dict_get e k of Some y \<Rightarrow> f y | None \<Rightarrow> False)
              (map (map_prod id py_eq) d)
        | _ \<Rightarrow> False)"

abbreviation dict_eq :: "pydict \<Rightarrow> pydict \<Rightarrow> bool" where
  "dict_eq d e \<equiv> py_eq (PDict d) (PDict e)"

text \<open>Dicts have distinct keys, at every depth.\<close>

primrec wf_val :: "pyval \<Rightarrow> bool" where
  "wf_val PNone = True"
| "wf_val (PBool b) = True"
| "wf_val (PInt i) = True"
| "wf_val (PFloat r) = True"
| "wf_val (PStr s) = True"
| "wf_val (PList xs) = list_all (\<lambda>b. b) (map wf_val xs)"
| "wf_val (PDict d) = (distinct (map fst d) \<and> list_all snd (map (map_prod id wf_val) d))"

section \<open>Text\<close>

definition hex_digit :: "nat \<Rightarrow> char" where
  "hex_digit n = (if n < 10 then char_of (48 + n) else char_of (87 + n))"

definition hex2 :: "nat \<Rightarrow> string" where
  "hex2 n = [hex_digit (n div 16), hex_digit (n mod 16)]"

text \<open>The escapes of \<open>json.dumps\<close> with \<open>ensure_ascii\<close>.\<close>

definition json_char :: "char \<Rightarrow> string" where
  "json_char c =
     (let n = of_char c :: nat in
      if n = 34 then [char_of (92 :: nat), c]
      else if n = 92 then [c, c]
      else if n = 10 then [char_of (92 :: nat), CHR ''n'']
      else if n = 13 then [char_of (92 :: nat), CHR ''r'']
      else if n = 9 then [char_of (92 :: nat), CHR ''t'']
      else if n = 12 then [char_of (92 :: nat), CHR ''f'']
      else if n = 8 then [char_of (92 :: nat), CHR ''b'']
      else if n < 32 \<or> 126 < n then [char_of (92 :: nat), CHR ''u'', CHR ''0'', CHR ''0''] @ hex2 n
      else [c])"

definition json_string :: "string \<Rightarrow> string" where
  "json_string s = char_of (34 :: nat) # concat (map json_char s) @ [char_of (34 :: nat)]"

primrec json_dumps :: "pyval \<Rightarrow> string" where
  "json_dumps PNone = ''null''"
| "json_dumps (PBool b) = (if b then ''true'' else ''false'')"
| "json_dumps (PInt i) = show_int i"
| "json_dumps (PFloat r) = r"
| "json_dumps (PStr s) = json_string s"
| "json_dumps (PList xs) = ''['' @ py_join '','' (map json_dumps xs) @ '']''"
| "json_dumps (PDict d) =
     ''{'' @ py_join '','' (map (\<lambda>(k, t). json_string k @ '':'' @ t)
        (sort_key fst (map (map_prod id json_dumps) d))) @ ''}''"

text \<open>\<open>repr\<close> of strings: single quotes unless the text has one and no double quote.\<close>

definition repr_char :: "char \<Rightarrow> char \<Rightarrow> string" where
  "repr_char q c =
     (let n = of_char c :: nat in
      if c = q \<or> n = 92 then [char_of (92 :: nat), c]
      else if n = 10 then [char_of (92 :: nat), CHR ''n'']
      else if n = 13 then [char_of (92 :: nat), CHR ''r'']
      else if n = 9 then [char_of (92 :: nat), CHR ''t'']
      else if n < 32 \<or> 127 \<le> n \<and> n \<le> 160 \<or> n = 173 then [char_of (92 :: nat), CHR ''x''] @ hex2 n
      else [c])"

definition repr_string :: "string \<Rightarrow> string" where
  "repr_string s =
     (let q = (if char_of (39 :: nat) \<in> set s \<and> char_of (34 :: nat) \<notin> set s
               then char_of (34 :: nat) else char_of (39 :: nat))
      in q # concat (map (repr_char q) s) @ [q])"

primrec py_repr :: "pyval \<Rightarrow> string" where
  "py_repr PNone = ''None''"
| "py_repr (PBool b) = (if b then ''True'' else ''False'')"
| "py_repr (PInt i) = show_int i"
| "py_repr (PFloat r) = r"
| "py_repr (PStr s) = repr_string s"
| "py_repr (PList xs) = ''['' @ py_join '', '' (map py_repr xs) @ '']''"
| "py_repr (PDict d) =
     ''{'' @ py_join '', '' (map (\<lambda>(k, t). repr_string k @ '': '' @ t) (map (map_prod id py_repr) d)) @ ''}''"

definition py_str :: "pyval \<Rightarrow> string" where
  "py_str v = (case v of PStr s \<Rightarrow> s | _ \<Rightarrow> py_repr v)"

section \<open>Lemmas\<close>

lemma py_str_PStr [simp]: "py_str (PStr s) = s"
  by (simp add: py_str_def)

lemma py_eq_refl: "wf_val v \<Longrightarrow> py_eq v v"
proof (induction v)
  case (PList xs)
  then show ?case by (auto simp: list_all2_map1 list_all_iff list.rel_refl_strong intro!: list.rel_refl_strong)
next
  case (PDict d)
  have "py_eq v y"
    if kv: "(k, v) \<in> set d" and y: "dict_get d k = Some y" for k v y
  proof -
    from kv PDict.prems have "dict_get d k = Some v" by (simp add: dict_get_def)
    with y have "y = v" by simp
    moreover from kv PDict.prems have "wf_val v" by (force simp: list_all_iff)
    ultimately show ?thesis using PDict.IH [of "(k, v)" v] kv by auto
  qed
  moreover have "dict_get d k \<noteq> None" if "(k, v) \<in> set d" for k v
    using that by (auto simp: dict_get_def map_of_eq_None_iff intro!: rev_image_eqI)
  ultimately show ?case by (force simp: list_all_iff split: option.split)
qed simp_all

lemma pget_set [dict_simps]: "pget (dict_set k v d) j = (if j = k then v else pget d j)"
  by (simp add: pget_def dict_simps)

end
