(* ===== verification/Ledger.thy ===== *)
theory Ledger
  imports PyVal
begin

text \<open>
  The durable state: the tables of src/src/calibre\_ai\_auditor/storage/models.py that the write path
  uses, and the operation ledger with its outbox (storage/operations.py). Timestamps are microseconds
  as integers; the values of \<open>uuid4()\<close> and \<open>utc_now()\<close> are arguments.
\<close>

section \<open>Tables\<close>

type_synonym time = int

record book_record =
  bk_id :: nat
  bk_book_key :: string
  bk_run_id :: string
  bk_calibre_book_id :: "int option"
  bk_paperless_document_id :: "int option"
  bk_source :: string
  bk_discovered_at :: time
  bk_files :: "pyval list"
  bk_current_metadata :: pydict
  bk_field_locks :: pydict
  bk_status :: string

record evidence_row =
  ep_id :: nat
  ep_evidence_id :: string
  ep_book_key :: string
  ep_run_id :: string
  ep_created_at :: time
  ep_schema_version :: int
  ep_current :: pydict
  ep_extracted :: pydict
  ep_candidates :: "pyval list"
  ep_snippets :: "pyval list"
  ep_cover :: "pydict option"
  ep_risk_flags :: "string list"
  ep_decision :: "pydict option"
  ep_observations :: "pydict option"

record change =
  ch_id :: nat
  ch_operation_id :: "string option"
  ch_book_key :: string
  ch_run_id :: string
  ch_applied_at :: time
  ch_before_metadata :: pydict
  ch_after_metadata :: pydict
  ch_backup_opf_path :: string
  ch_backup_opf_sha256 :: "string option"
  ch_backup_cover_path :: "string option"
  ch_backup_cover_sha256 :: "string option"
  ch_before_custom :: pydict
  ch_status :: string

record operation =
  op_id :: nat
  op_operation_id :: string
  op_idempotency_key :: string
  op_operation_type :: string
  op_book_key :: string
  op_run_id :: "string option"
  op_calibre_book_id :: "int option"
  op_state :: string
  op_requested_patch :: pydict
  op_expected_before_metadata :: "pydict option"
  op_before_metadata :: "pydict option"
  op_target_metadata :: "pydict option"
  op_observed_metadata :: "pydict option"
  op_authorization_id :: "string option"
  op_verdict_hash :: "string option"
  op_patch_hash :: "string option"
  op_field_locks_hash :: "string option"
  op_policy_version :: string
  op_change_id :: "nat option"
  op_rollback_opf_path :: "string option"
  op_rollback_opf_sha256 :: "string option"
  op_rollback_cover_path :: "string option"
  op_rollback_cover_sha256 :: "string option"
  op_rollback_custom :: pydict
  op_evidence_id :: "string option"
  op_pilot_id :: "string option"
  op_lease_owner :: "string option"
  op_lease_expires_at :: "time option"
  op_error :: "string option"
  op_created_at :: time
  op_updated_at :: time
  op_completed_at :: "time option"

record incident_ack =
  ak_operation_id :: string
  ak_actor :: string
  ak_reason :: string
  ak_created_at :: time

record pilot_session =
  ps_pilot_id :: string
  ps_library_root_sha256 :: string
  ps_release_digest :: string
  ps_alembic_revision :: string
  ps_max_operations :: int
  ps_reserved_operations :: int
  ps_state :: string
  ps_created_at :: time
  ps_updated_at :: time

record book_write_lock =
  lk_book_key :: string
  lk_operation_id :: string
  lk_lease_owner :: string
  lk_lease_expires_at :: time

record outbox_event =
  ob_id :: nat
  ob_event_id :: string
  ob_aggregate_id :: string
  ob_event_type :: string
  ob_payload :: pydict
  ob_status :: string
  ob_attempts :: nat
  ob_available_at :: time
  ob_created_at :: time
  ob_published_at :: "time option"
  ob_last_error :: "string option"

record manual_authorization =
  au_id :: nat
  au_authorization_id :: string
  au_book_key :: string
  au_run_id :: string
  au_verdict_hash :: string
  au_patch_hash :: string
  au_actor :: string
  au_reason :: string
  au_created_at :: time

text \<open>The database: each table is the list of its rows in the order of their primary keys.\<close>

record db =
  db_books :: "book_record list"
  db_evidence :: "evidence_row list"
  db_changes :: "change list"
  db_operations :: "operation list"
  db_outbox :: "outbox_event list"
  db_locks :: "book_write_lock list"
  db_pilots :: "pilot_session list"
  db_acks :: "incident_ack list"
  db_auths :: "manual_authorization list"

definition empty_db :: db where
  "empty_db = \<lparr>db_books = [], db_evidence = [], db_changes = [], db_operations = [], db_outbox = [],
     db_locks = [], db_pilots = [], db_acks = [], db_auths = []\<rparr>"

text \<open>The next value of an autoincremented primary key.\<close>

definition next_id :: "nat list \<Rightarrow> nat" where
  "next_id ids = Suc (foldl max 0 ids)"

lemma next_id_fresh: "next_id ids \<notin> set ids"
proof -
  have "a \<le> foldl max a ids \<and> (\<forall>x\<in>set ids. x \<le> foldl max a ids)" for a :: nat
    by (induction ids arbitrary: a) (auto intro: le_trans [OF max.cobounded1] le_trans [OF max.cobounded2])
  then show ?thesis unfolding next_id_def by (metis Suc_n_not_le_n)
qed

section \<open>Operations\<close>

definition ALLOWED_TRANSITIONS :: "string list dict" where
  "ALLOWED_TRANSITIONS =
     [(''requested'', [''claimed'', ''cancelled'']),
      (''claimed'', [''requested'', ''writing'', ''failed'', ''cancelled'']),
      (''writing'', [''verifying'', ''restoring'', ''unknown'']),
      (''verifying'', [''succeeded'', ''restoring'', ''unknown'']),
      (''restoring'', [''restored'', ''restore_failed'']),
      (''succeeded'', []), (''restored'', []), (''restore_failed'', []), (''unknown'', []),
      (''failed'', []), (''cancelled'', [])]"

text \<open>The constructor call of \<open>OperationLedger\<close> with the column defaults.\<close>

definition new_operation ::
    "nat \<Rightarrow> string \<Rightarrow> time \<Rightarrow> string \<Rightarrow> string \<Rightarrow> string \<Rightarrow> pydict \<Rightarrow> operation" where
  "new_operation pk operation_id now idempotency_key operation_type book_key requested_patch =
     \<lparr>op_id = pk, op_operation_id = operation_id, op_idempotency_key = idempotency_key,
      op_operation_type = operation_type, op_book_key = book_key, op_run_id = None, op_calibre_book_id = None,
      op_state = ''requested'', op_requested_patch = requested_patch, op_expected_before_metadata = None,
      op_before_metadata = None, op_target_metadata = None, op_observed_metadata = None,
      op_authorization_id = None, op_verdict_hash = None, op_patch_hash = None, op_field_locks_hash = None,
      op_policy_version = ''v1'', op_change_id = None, op_rollback_opf_path = None,
      op_rollback_opf_sha256 = None, op_rollback_cover_path = None, op_rollback_cover_sha256 = None,
      op_rollback_custom = [], op_evidence_id = None, op_pilot_id = None, op_lease_owner = None,
      op_lease_expires_at = None, op_error = None, op_created_at = now, op_updated_at = now,
      op_completed_at = None\<rparr>"

definition new_outbox_event :: "nat \<Rightarrow> string \<Rightarrow> time \<Rightarrow> string \<Rightarrow> string \<Rightarrow> string \<Rightarrow> outbox_event" where
  "new_outbox_event pk event_id now operation_id operation_type book_key =
     \<lparr>ob_id = pk, ob_event_id = event_id, ob_aggregate_id = operation_id,
      ob_event_type = ''operation.requested'',
      ob_payload = [(''operation_id'', PStr operation_id), (''operation_type'', PStr operation_type),
                    (''book_key'', PStr book_key)],
      ob_status = ''pending'', ob_attempts = 0, ob_available_at = now, ob_created_at = now,
      ob_published_at = None, ob_last_error = None\<rparr>"

text \<open>
  \<open>create_operation\<close>: the optional keyword arguments are the update \<open>opts\<close> of the new row. The flush
  raises IntegrityError when a generated identifier is already in use.
\<close>

definition create_operation ::
    "string \<Rightarrow> string \<Rightarrow> time \<Rightarrow> string \<Rightarrow> string \<Rightarrow> string \<Rightarrow> pydict \<Rightarrow> (operation \<Rightarrow> operation) \<Rightarrow> db
      \<Rightarrow> (operation \<times> db) res" where
  "create_operation uuid1 uuid2 now idempotency_key operation_type book_key requested_patch opts d =
     (case row_first (\<lambda>r. op_idempotency_key r = idempotency_key) (db_operations d) of
        Some existing \<Rightarrow> Inr (existing, d)
      | None \<Rightarrow>
          (let operation = opts (new_operation (next_id (map op_id (db_operations d))) uuid1 now idempotency_key
                 operation_type book_key requested_patch);
               event = new_outbox_event (next_id (map ob_id (db_outbox d))) uuid2 now (op_operation_id operation)
                 operation_type book_key
           in if list_ex (\<lambda>r. op_operation_id r = uuid1) (db_operations d)
                 \<or> list_ex (\<lambda>r. ob_event_id r = uuid2) (db_outbox d)
              then Inl IntegrityError
              else Inr (operation, d\<lparr>db_operations := db_operations d @ [operation],
                                    db_outbox := db_outbox d @ [event]\<rparr>)))"

definition transition_operation :: "string \<Rightarrow> string option \<Rightarrow> time \<Rightarrow> operation \<Rightarrow> operation res" where
  "transition_operation new_state error now operation =
     (case dict_get ALLOWED_TRANSITIONS (op_state operation) of
        None \<Rightarrow> Inl (ValueError (''Invalid operation transition: '' @ op_state operation @ '' -> '' @ new_state))
      | Some allowed \<Rightarrow>
          if new_state \<notin> set allowed
          then Inl (ValueError (''Invalid operation transition: '' @ op_state operation @ '' -> '' @ new_state))
          else (case dict_get ALLOWED_TRANSITIONS new_state of
              None \<Rightarrow> Inl (KeyError new_state)
            | Some successors \<Rightarrow>
                (let moved = operation\<lparr>op_state := new_state, op_error := error, op_updated_at := now\<rparr>
                 in Inr (if successors = [] then moved\<lparr>op_completed_at := Some now\<rparr> else moved))))"

section \<open>States and transitions\<close>

definition STATES :: "string list" where
  "STATES = map fst ALLOWED_TRANSITIONS"

definition terminal_state :: "string \<Rightarrow> bool" where
  "terminal_state s = (dict_get ALLOWED_TRANSITIONS s = Some [])"

definition can_move :: "string \<Rightarrow> string \<Rightarrow> bool" where
  "can_move s s' = (case dict_get ALLOWED_TRANSITIONS s of Some xs \<Rightarrow> s' \<in> set xs | None \<Rightarrow> False)"

text \<open>A row is well formed when its state is known and the completion time marks the terminal states.\<close>

definition op_wf :: "operation \<Rightarrow> bool" where
  "op_wf r = (op_state r \<in> set STATES \<and> (op_completed_at r \<noteq> None \<longleftrightarrow> terminal_state (op_state r)))"

definition in_flight :: "string \<Rightarrow> bool" where
  "in_flight s = (s \<in> {''writing'', ''verifying'', ''restoring''})"

lemma can_move_cases:
  "can_move s s' \<longleftrightarrow>
     (s, s') \<in> {(''requested'', ''claimed''), (''requested'', ''cancelled''), (''claimed'', ''requested''),
       (''claimed'', ''writing''), (''claimed'', ''failed''), (''claimed'', ''cancelled''),
       (''writing'', ''verifying''), (''writing'', ''restoring''), (''writing'', ''unknown''),
       (''verifying'', ''succeeded''), (''verifying'', ''restoring''), (''verifying'', ''unknown''),
       (''restoring'', ''restored''), (''restoring'', ''restore_failed'')}"
  by (auto simp: can_move_def ALLOWED_TRANSITIONS_def dict_get_def split: if_splits)

lemma terminal_cases:
  "terminal_state s \<longleftrightarrow>
     s \<in> {''succeeded'', ''restored'', ''restore_failed'', ''unknown'', ''failed'', ''cancelled''}"
  by (auto simp: terminal_state_def ALLOWED_TRANSITIONS_def dict_get_def split: if_splits)

lemma STATES_set:
  "set STATES = {''requested'', ''claimed'', ''writing'', ''verifying'', ''restoring'', ''succeeded'',
     ''restored'', ''restore_failed'', ''unknown'', ''failed'', ''cancelled''}"
  by (simp add: STATES_def ALLOWED_TRANSITIONS_def insert_commute)

lemma can_move_STATES: "can_move s s' \<Longrightarrow> s \<in> set STATES \<and> s' \<in> set STATES"
  unfolding can_move_cases STATES_set by auto

lemma STATES_get: "s \<in> set STATES \<longleftrightarrow> dict_get ALLOWED_TRANSITIONS s \<noteq> None"
  by (simp add: STATES_def dict_get_def map_of_eq_None_iff)

text \<open>What an accepted transition does to the row; every other request is a ValueError.\<close>

definition moved :: "string \<Rightarrow> string option \<Rightarrow> time \<Rightarrow> operation \<Rightarrow> operation" where
  "moved s e now r =
     (let r' = r\<lparr>op_state := s, op_error := e, op_updated_at := now\<rparr>
      in if terminal_state s then r'\<lparr>op_completed_at := Some now\<rparr> else r')"

lemma transition_operation_eq:
  "transition_operation s e now r =
     (if can_move (op_state r) s then Inr (moved s e now r)
      else Inl (ValueError (''Invalid operation transition: '' @ op_state r @ '' -> '' @ s)))"
proof (cases "can_move (op_state r) s")
  case True
  then have "s \<in> set STATES" using can_move_STATES by blast
  then obtain xs where "dict_get ALLOWED_TRANSITIONS s = Some xs" by (auto simp: STATES_get)
  with True show ?thesis
    by (auto simp: transition_operation_def can_move_def moved_def terminal_state_def Let_def split: option.splits)
next
  case False
  then show ?thesis
    by (auto simp: transition_operation_def can_move_def split: option.splits)
qed

lemma moved_simps [simp]:
  "op_state (moved s e now r) = s" "op_error (moved s e now r) = e"
  "op_operation_id (moved s e now r) = op_operation_id r" "op_book_key (moved s e now r) = op_book_key r"
  "op_idempotency_key (moved s e now r) = op_idempotency_key r"
  "op_before_metadata (moved s e now r) = op_before_metadata r"
  "op_target_metadata (moved s e now r) = op_target_metadata r"
  "op_observed_metadata (moved s e now r) = op_observed_metadata r"
  "op_requested_patch (moved s e now r) = op_requested_patch r"
  "op_policy_version (moved s e now r) = op_policy_version r"
  "op_pilot_id (moved s e now r) = op_pilot_id r"
  "op_operation_type (moved s e now r) = op_operation_type r"
  "op_evidence_id (moved s e now r) = op_evidence_id r"
  by (simp_all add: moved_def Let_def)

inductive op_step :: "operation \<Rightarrow> operation \<Rightarrow> bool" where
  "transition_operation s e now r = Inr r' \<Longrightarrow> op_step r r'"

inductive_cases op_stepE: "op_step r r'"

lemma op_step_move: "op_step r r' \<Longrightarrow> \<exists>s e now. can_move (op_state r) s \<and> r' = moved s e now r"
  by (erule op_stepE) (auto simp: transition_operation_eq split: if_splits)

lemma terminal_no_move: "terminal_state s \<Longrightarrow> \<not> can_move s s'"
  unfolding terminal_cases can_move_cases by auto

lemma nonterminal_incomplete:
  "op_wf r \<Longrightarrow> can_move (op_state r) s \<Longrightarrow> op_completed_at r = None"
  using terminal_no_move unfolding op_wf_def by blast

lemma op_step_wf:
  assumes "op_step r r'" "op_wf r"
  shows "op_wf r'"
proof -
  obtain s e now where m: "can_move (op_state r) s" "r' = moved s e now r"
    using op_step_move [OF assms(1)] by blast
  then have "s \<in> set STATES" "op_completed_at r = None"
    using can_move_STATES nonterminal_incomplete [OF assms(2)] by blast+
  with m(2) show ?thesis by (simp add: op_wf_def moved_def Let_def)
qed

text \<open>The steps left after an external write may have started.\<close>

definition move_rank :: "string \<Rightarrow> nat" where
  "move_rank s = (if s = ''writing'' then 3 else if s = ''verifying'' then 2 else if s = ''restoring'' then 1 else 0)"

lemma in_flight_move:
  "in_flight s \<Longrightarrow> can_move s s' \<Longrightarrow>
     move_rank s' < move_rank s \<and> s' \<in> {''verifying'', ''restoring'', ''succeeded'', ''restored'', ''restore_failed'', ''unknown''}"
  unfolding in_flight_def can_move_cases by (auto simp: move_rank_def)

definition written_states :: "string set" where
  "written_states = {''writing'', ''verifying'', ''restoring'', ''succeeded'', ''restored'', ''restore_failed'', ''unknown''}"

lemma written_move: "s \<in> written_states \<Longrightarrow> can_move s s' \<Longrightarrow> s' \<in> written_states \<and> move_rank s' < move_rank s"
  unfolding written_states_def can_move_cases by (auto simp: move_rank_def)

interpretation rows: transition_system op_step op_wf
  by unfold_locales (rule op_step_wf)

interpretation written_rows: ranked_system op_step "\<lambda>r. op_state r \<in> written_states" "\<lambda>r. move_rank (op_state r)"
  by unfold_locales (use op_step_move written_move in fastforce)+

text \<open>
  Claim C8. The ledger state machine: along any sequence of accepted transitions a row stays well
  formed (its completion time is set exactly in the terminal states) and keeps its identity; a
  terminal row never changes again; and once an external write may have started (state \<open>writing\<close> or
  later) the operation can neither be requested, claimed, failed nor cancelled, and makes at most
  three further transitions.
\<close>

theorem ledger_lifecycle:
  assumes "(op_step ^^ n) r r'" "op_wf r"
  shows "op_wf r' \<and> op_operation_id r' = op_operation_id r
    \<and> (terminal_state (op_state r) \<longrightarrow> n = 0 \<and> r' = r)
    \<and> (in_flight (op_state r) \<longrightarrow> n \<le> 3 \<and> op_state r' \<notin> {''requested'', ''claimed'', ''failed'', ''cancelled''})"
proof -
  have star: "op_step\<^sup>*\<^sup>* r r'" using assms(1) by (rule relpowp_imp_rtranclp)
  have idn: "op_operation_id r' = op_operation_id r"
    using star by (induction rule: rtranclp_induct) (auto dest!: op_step_move)
  have fin: "terminal_state (op_state r) \<Longrightarrow> n = 0 \<and> r' = r"
  proof -
    assume t: "terminal_state (op_state r)"
    then have no: "\<not> op_step r x" for x using op_step_move terminal_no_move by blast
    with assms(1) show "n = 0 \<and> r' = r" by (cases n) (simp, metis relpowp_Suc_D2)
  qed
  have fl: "n \<le> 3 \<and> op_state r' \<notin> {''requested'', ''claimed'', ''failed'', ''cancelled''}" if "in_flight (op_state r)"
  proof -
    from that have "op_state r \<in> written_states" "move_rank (op_state r) \<le> 3"
      by (auto simp: in_flight_def written_states_def move_rank_def)
    with written_rows.steps_bounded [OF assms(1)] written_rows.power_keeps [OF assms(1)] show ?thesis
      by (auto simp: written_states_def)
  qed
  from rows.reachable_keeps [OF star assms(2)] idn fin fl show ?thesis by blast
qed

definition demo_operation :: operation where
  "demo_operation = (new_operation 1 ''op-1'' 5 ''k'' ''apply_metadata'' ''calibre:1'' [])\<lparr>op_state := ''writing''\<rparr>"

theorem ledger_lifecycle_witness:
  "\<exists>r'. (op_step ^^ 2) demo_operation r' \<and> op_state r' = ''succeeded'' \<and> op_wf r'"
proof -
  let ?a = "moved ''verifying'' None 6 demo_operation" and ?b = "moved ''succeeded'' None 7 (moved ''verifying'' None 6 demo_operation)"
  have "op_step demo_operation ?a" "op_step ?a ?b"
    by (rule op_step.intros [where e = None and now = 6 and s = "''verifying''"],
        simp add: transition_operation_eq can_move_cases demo_operation_def)
      (rule op_step.intros [where e = None and now = 7 and s = "''succeeded''"],
        simp add: transition_operation_eq can_move_cases)
  then have st: "(op_step ^^ 2) demo_operation ?b" by (auto simp: numeral_2_eq_2)
  have "op_wf demo_operation" by code_simp
  from ledger_lifecycle [OF st this] st show ?thesis by (intro exI [of _ ?b]) simp
qed

section \<open>The ledger and its outbox\<close>

text \<open>
  The invariant of the two tables: operation identifiers and idempotency keys are unique, rows are
  well formed, and events and operations correspond one to one.
\<close>

definition ledger_ok :: "db \<Rightarrow> bool" where
  "ledger_ok d =
     (distinct (map op_operation_id (db_operations d))
      \<and> distinct (map op_idempotency_key (db_operations d))
      \<and> distinct (map ob_event_id (db_outbox d))
      \<and> list_all op_wf (db_operations d)
      \<and> map ob_aggregate_id (db_outbox d) = map op_operation_id (db_operations d))"

lemma ledger_ok_distinct_events: "ledger_ok d \<Longrightarrow> distinct (map ob_aggregate_id (db_outbox d))"
  by (simp add: ledger_ok_def)

lemma filter_unique:
  "distinct (map f xs) \<Longrightarrow> x \<in> set xs \<Longrightarrow> filter (\<lambda>y. f y = f x) xs = [x]"
  by (induction xs) (auto simp: filter_empty_conv image_iff)

lemma ledger_ok_event:
  assumes "ledger_ok d" "r \<in> set (db_operations d)"
  shows "\<exists>e. row_one (\<lambda>e. ob_aggregate_id e = op_operation_id r) (db_outbox d) = Inr e"
proof -
  from assms have "op_operation_id r \<in> set (map ob_aggregate_id (db_outbox d))" by (simp add: ledger_ok_def)
  then obtain e where e: "e \<in> set (db_outbox d)" "ob_aggregate_id e = op_operation_id r" by auto
  with filter_unique [OF ledger_ok_distinct_events [OF assms(1)] e(1)] show ?thesis
    by (auto simp: row_one_Inr)
qed

lemma ledger_ok_operation:
  assumes "ledger_ok d" "e \<in> set (db_outbox d)"
  shows "\<exists>r. row_one (\<lambda>r. op_operation_id r = ob_aggregate_id e) (db_operations d) = Inr r"
proof -
  from assms have "ob_aggregate_id e \<in> set (map op_operation_id (db_operations d))"
    by (metis image_set imageI ledger_ok_def)
  then obtain r where r: "r \<in> set (db_operations d)" "op_operation_id r = ob_aggregate_id e" by auto
  moreover have "distinct (map op_operation_id (db_operations d))" using assms(1) by (simp add: ledger_ok_def)
  ultimately show ?thesis using filter_unique [of op_operation_id "db_operations d" r] by (auto simp: row_one_Inr)
qed

lemma row_first_append_None:
  "row_first p xs = None \<Longrightarrow> p x \<Longrightarrow> row_first p (xs @ [x]) = Some x"
  unfolding row_first_def by (induction xs) (auto split: if_splits)

text \<open>The option keywords set columns other than the keys, the state and the completion time.\<close>

definition keeps_keys :: "(operation \<Rightarrow> operation) \<Rightarrow> bool" where
  "keeps_keys opts =
     (\<forall>r. op_operation_id (opts r) = op_operation_id r \<and> op_idempotency_key (opts r) = op_idempotency_key r
        \<and> op_state (opts r) = op_state r \<and> op_completed_at (opts r) = op_completed_at r
        \<and> op_book_key (opts r) = op_book_key r)"

lemma create_operation_cases:
  assumes "create_operation u1 u2 now k ty bkey patch opts d = Inr (r, d')"
  obtains
    (existing) "d' = d" "row_first (\<lambda>r. op_idempotency_key r = k) (db_operations d) = Some r"
  | (created) e where "row_first (\<lambda>r. op_idempotency_key r = k) (db_operations d) = None"
      "u1 \<notin> set (map op_operation_id (db_operations d))" "u2 \<notin> set (map ob_event_id (db_outbox d))"
      "r = opts (new_operation (next_id (map op_id (db_operations d))) u1 now k ty bkey patch)"
      "e = new_outbox_event (next_id (map ob_id (db_outbox d))) u2 now (op_operation_id r) ty bkey"
      "d' = d\<lparr>db_operations := db_operations d @ [r], db_outbox := db_outbox d @ [e]\<rparr>"
  using assms by (auto simp: create_operation_def Let_def list_ex_iff split: option.splits if_splits)

text \<open>
  Claim C9. \<open>create_operation\<close> is idempotent and keeps the ledger and outbox consistent: a successful
  call returns a row with the requested key, the unique-key and one-event-per-operation invariant is
  kept, and every later call with the same key returns that same row and changes nothing, whatever
  its other arguments are.
\<close>

theorem create_operation_idempotent:
  assumes "ledger_ok d" "keeps_keys opts" "create_operation u1 u2 now k ty bkey patch opts d = Inr (r, d')"
  shows "ledger_ok d' \<and> r \<in> set (db_operations d') \<and> op_idempotency_key r = k
    \<and> create_operation v1 v2 now' k ty' bkey' patch' opts' d' = Inr (r, d')"
  using assms(3)
proof (cases rule: create_operation_cases)
  case existing
  with assms(1) show ?thesis
    by (auto dest: row_first_Some simp: create_operation_def)
next
  case (created e)
  have kk: "op_operation_id r = u1" "op_idempotency_key r = k" "op_state r = ''requested''" "op_completed_at r = None"
    using assms(2) created(4) by (simp_all add: keeps_keys_def new_operation_def)
  then have wf: "op_wf r" by (simp add: op_wf_def terminal_cases STATES_set)
  have nk: "k \<notin> set (map op_idempotency_key (db_operations d))"
    using created(1) by (auto simp: row_first_None)
  have ev: "ob_aggregate_id e = u1" "ob_event_id e = u2" using created(5) kk by (simp_all add: new_outbox_event_def)
  have "ledger_ok d'" using assms(1) created(2,3,6) kk wf nk ev by (simp add: ledger_ok_def)
  moreover have "row_first (\<lambda>r. op_idempotency_key r = k) (db_operations d') = Some r"
    using created(1,6) kk by (simp add: row_first_append_None)
  ultimately show ?thesis using created(6) kk by (simp add: create_operation_def)
qed

theorem create_operation_idempotent_witness:
  "\<exists>r d'. create_operation ''u'' ''v'' 3 ''k'' ''apply_metadata'' ''calibre:1'' [] id empty_db = Inr (r, d')
     \<and> length (db_operations d') = 1 \<and> create_operation ''u2'' ''v2'' 9 ''k'' ''undo_change'' ''calibre:2'' [] id d' = Inr (r, d')"
proof -
  have c: "is_ok (create_operation ''u'' ''v'' 3 ''k'' ''apply_metadata'' ''calibre:1'' [] id empty_db)"
    "map_sum id (\<lambda>x. length (db_operations (snd x))) (create_operation ''u'' ''v'' 3 ''k'' ''apply_metadata'' ''calibre:1'' [] id empty_db)
       = Inr 1" by code_simp+
  then obtain r d' where r: "create_operation ''u'' ''v'' 3 ''k'' ''apply_metadata'' ''calibre:1'' [] id empty_db = Inr (r, d')"
    by (cases "create_operation ''u'' ''v'' 3 ''k'' ''apply_metadata'' ''calibre:1'' [] id empty_db") auto
  have "ledger_ok empty_db" "keeps_keys id" by (simp_all add: ledger_ok_def empty_db_def keeps_keys_def)
  from create_operation_idempotent [OF this r] c(2) r show ?thesis by auto
qed

end
