(* ===== verification/IdentityV2.thy ===== *)
theory IdentityV2
  imports PyVal Isbn
begin

text \<open>
  The deterministic manifestation resolver
  (src/src/calibre\_ai\_auditor/verification/identity\_v2.py): evidence records and their validators,
  the canonical patch, the per-field consensus and the tier decision. The type coercion of the
  pydantic library is the parameter \<open>coerce\<close>: \<open>coerce f v\<close> is the value a field annotated as \<open>f\<close> takes
  for the input \<open>v\<close>, \<^const>\<open>None\<close> when the library rejects it.
\<close>

section \<open>Data\<close>

datatype identity_tier = tier_a | tier_b | tier_c

datatype evidence_source_kind =
    calibre_current | embedded_metadata | content_native | ocr_observation | ocr_consensus | vision
  | provider_structured | official_page | national_library | calibre_fetch | llm

datatype format_evidence_status = readable | unsupported | drm | corrupt | fe_status_error

datatype field_decision_status = fd_unchanged | fd_auto | fd_review | fd_blocked

definition ALLOWED_PATCH_FIELDS :: "string list" where
  "ALLOWED_PATCH_FIELDS =
     [''title'', ''authors'', ''identifiers'', ''languages'', ''publisher'', ''pubdate'', ''series'',
      ''series_index'', ''edition_statement'', ''cover'']"

definition INTERNAL_PROMOTION_KINDS :: "evidence_source_kind list" where
  "INTERNAL_PROMOTION_KINDS = [embedded_metadata, content_native, ocr_consensus]"

definition INTERNAL_IDENTITY_KINDS :: "evidence_source_kind list" where
  "INTERNAL_IDENTITY_KINDS = [content_native, ocr_consensus]"

definition EXTERNAL_PROMOTION_KINDS :: "evidence_source_kind list" where
  "EXTERNAL_PROMOTION_KINDS = [provider_structured, official_page, national_library]"

definition OFFICIAL_KINDS :: "evidence_source_kind list" where
  "OFFICIAL_KINDS = [official_page, national_library]"

record format_evidence =
  fe_path :: string
  fe_format :: string
  fe_sha256 :: string
  fe_status :: format_evidence_status
  fe_identifiers :: "string dict"
  fe_title :: "string option"
  fe_authors :: "string list"
  fe_languages :: "string list"
  fe_evidence_ids :: "string list"
  fe_error :: "string option"

record source_evidence =
  se_evidence_id :: string
  se_root_id :: string
  se_independence_root :: "string option"
  se_source_kind :: evidence_source_kind
  se_field :: string
  se_value :: pyval
  se_manifestation_ids :: "string dict"
  se_locator :: "string option"
  se_artifact_sha256 :: "string option"
  se_source_url :: "string option"
  se_authoritative :: bool

record field_decision =
  fd_field :: string
  fd_current_value :: pyval
  fd_resolved_value :: pyval
  fd_status :: field_decision_status
  fd_evidence_ids :: "string list"
  fd_root_ids :: "string list"
  fd_reasons :: "string list"

record manifestation_resolution =
  mr_tier :: identity_tier
  mr_manifestation_ids :: "string dict"
  mr_field_decisions :: "field_decision dict"
  mr_auto_patch :: pydict
  mr_risk_flags :: "string list"
  mr_reasons :: "string list"

section \<open>Validators\<close>

definition validate_isbn :: "string \<Rightarrow> string option" where
  "validate_isbn value = canonical_isbn13 value"

text \<open>One iteration of the loop of \<open>_normalize_identifiers\<close>, then the loop over the items.\<close>

definition normalize_identifier_step :: "string dict \<Rightarrow> string \<times> string \<Rightarrow> string dict" where
  "normalize_identifier_step normalized item =
     (let namespace = py_lower (py_strip (fst item));
          candidate = py_strip (snd item)
      in if namespace = ''isbn'' then
           (case validate_isbn candidate of
              Some valid \<Rightarrow> dict_set namespace valid normalized
            | None \<Rightarrow> normalized)
         else if namespace \<noteq> [] \<and> candidate \<noteq> [] then dict_set namespace candidate normalized
         else normalized)"

definition normalize_identifiers :: "string dict \<Rightarrow> string dict" where
  "normalize_identifiers value = foldl normalize_identifier_step [] value"

definition valid_sha256 :: "string \<Rightarrow> string res" where
  "valid_sha256 value =
     (let lowered = py_lower value in
      if \<not> is_sha256_hex lowered
      then Inl (ValueError ''sha256 must contain exactly 64 hexadecimal characters'')
      else Inr lowered)"

definition valid_artifact_sha256 :: "string \<Rightarrow> string res" where
  "valid_artifact_sha256 value =
     (let lowered = py_lower value in
      if \<not> is_sha256_hex lowered
      then Inl (ValueError ''artifact_sha256 must contain exactly 64 hexadecimal characters'')
      else Inr lowered)"

definition valid_optional_sha256 :: "string option \<Rightarrow> string option res" where
  "valid_optional_sha256 value =
     (case value of
        None \<Rightarrow> Inr None
      | Some v \<Rightarrow>
          (let lowered = py_lower v in
           if \<not> is_sha256_hex lowered
           then Inl (ValueError ''artifact_sha256 must contain exactly 64 hexadecimal characters'')
           else Inr (Some lowered)))"

definition canonical_format :: "string \<Rightarrow> string" where
  "canonical_format value = py_upper (py_strip value)"

text \<open>Construction of a \<open>FormatEvidence\<close>: the length constraints, then the field validators.\<close>

definition mk_format_evidence :: "format_evidence \<Rightarrow> format_evidence res" where
  "mk_format_evidence raw =
     (if fe_path raw = [] \<or> fe_format raw = [] then Inl (ValueError ''String should have at least 1 character'')
      else (case valid_sha256 (fe_sha256 raw) of
          Inl e \<Rightarrow> Inl e
        | Inr h \<Rightarrow> Inr (raw\<lparr>fe_format := canonical_format (fe_format raw), fe_sha256 := h,
                           fe_identifiers := normalize_identifiers (fe_identifiers raw)\<rparr>)))"

definition mk_source_evidence :: "source_evidence \<Rightarrow> source_evidence res" where
  "mk_source_evidence raw =
     (if se_evidence_id raw = [] \<or> se_root_id raw = [] \<or> se_field raw = []
      then Inl (ValueError ''String should have at least 1 character'')
      else (case valid_optional_sha256 (se_artifact_sha256 raw) of
          Inl e \<Rightarrow> Inl e
        | Inr h \<Rightarrow> Inr (raw\<lparr>se_artifact_sha256 := h,
                           se_manifestation_ids := normalize_identifiers (se_manifestation_ids raw)\<rparr>)))"

definition effective_root :: "source_evidence \<Rightarrow> string" where
  "effective_root e =
     (case se_independence_root e of
        Some r \<Rightarrow> if r \<noteq> [] then r else se_root_id e
      | None \<Rightarrow> se_root_id e)"

section \<open>The canonical patch\<close>

text \<open>
  \<open>CanonicalPatch.model_validate(patch).model_dump(exclude_none=True)\<close>: unknown fields are refused
  (\<open>extra="forbid"\<close>), fields come out in declaration order, None values are dropped, and the
  validators of the identifiers and of the nested cover run after the coercion.
\<close>

definition cover_fields :: "string list" where
  "cover_fields = [''artifact_path'', ''artifact_sha256'', ''manifestation_isbn'']"

definition cover_string :: "(string \<Rightarrow> pyval \<Rightarrow> pyval option) \<Rightarrow> pydict \<Rightarrow> string \<Rightarrow> string option" where
  "cover_string coerce d f =
     (case dict_get d f of
        None \<Rightarrow> None
      | Some v \<Rightarrow> (case coerce (''cover.'' @ f) v of Some (PStr s) \<Rightarrow> Some s | _ \<Rightarrow> None))"

definition validate_cover :: "(string \<Rightarrow> pyval \<Rightarrow> pyval option) \<Rightarrow> pyval \<Rightarrow> pyval res" where
  "validate_cover coerce v =
     (case v of
        PDict d \<Rightarrow>
          (if \<not> list_all (\<lambda>(k, _). k \<in> set cover_fields) d then Inl (ValueError ''Extra inputs are not permitted'')
           else case (cover_string coerce d ''artifact_path'', cover_string coerce d ''artifact_sha256'',
                      cover_string coerce d ''manifestation_isbn'') of
             (Some p, Some h, Some i) \<Rightarrow>
               (if p = [] then Inl (ValueError ''String should have at least 1 character'')
                else case valid_artifact_sha256 h of
                  Inl e \<Rightarrow> Inl e
                | Inr h' \<Rightarrow>
                    (case validate_isbn i of
                       None \<Rightarrow> Inl (ValueError ''manifestation_isbn must be checksum-valid'')
                     | Some i' \<Rightarrow> Inr (PDict [(''artifact_path'', PStr p), (''artifact_sha256'', PStr h'),
                                            (''manifestation_isbn'', PStr i')])))
           | _ \<Rightarrow> Inl (ValueError ''Field required''))
      | _ \<Rightarrow> Inl (ValueError ''Input should be a valid dictionary''))"

text \<open>\<open>{str(k): str(v) for k, v in d.items()}\<close>\<close>

definition str_items :: "pydict \<Rightarrow> string dict" where
  "str_items d = map (\<lambda>(k, v). (k, py_str v)) d"

definition str_dict_val :: "string dict \<Rightarrow> pyval" where
  "str_dict_val d = PDict (map (\<lambda>(k, v). (k, PStr v)) d)"

definition canonical_patch_identifiers :: "pyval \<Rightarrow> pyval res" where
  "canonical_patch_identifiers v =
     (case v of
        PDict d \<Rightarrow>
          (let normalized = normalize_identifiers (str_items d) in
           if d \<noteq> [] \<and> normalized = [] then Inl (ValueError ''identifiers contains no valid namespaced values'')
           else Inr (str_dict_val normalized))
      | _ \<Rightarrow> Inl (ValueError ''Input should be a valid dictionary''))"

definition validate_patch_field :: "(string \<Rightarrow> pyval \<Rightarrow> pyval option) \<Rightarrow> string \<Rightarrow> pyval \<Rightarrow> pyval res" where
  "validate_patch_field coerce f v =
     (if v = PNone then Inr PNone
      else if f = ''cover'' then validate_cover coerce v
      else (case coerce f v of
          None \<Rightarrow> Inl (ValueError (''Input should be a valid '' @ f))
        | Some w \<Rightarrow> if f = ''identifiers'' then canonical_patch_identifiers w else Inr w))"

fun validate_patch_fields ::
    "(string \<Rightarrow> pyval \<Rightarrow> pyval option) \<Rightarrow> pydict \<Rightarrow> string list \<Rightarrow> pydict res" where
  "validate_patch_fields coerce patch [] = Inr []"
| "validate_patch_fields coerce patch (f # fs) =
     (case validate_patch_field coerce f (pget patch f) of
        Inl e \<Rightarrow> Inl e
      | Inr v \<Rightarrow>
          (case validate_patch_fields coerce patch fs of
             Inl e \<Rightarrow> Inl e
           | Inr rest \<Rightarrow> Inr (if v = PNone then rest else (f, v) # rest)))"

definition canonical_patch :: "(string \<Rightarrow> pyval \<Rightarrow> pyval option) \<Rightarrow> pydict \<Rightarrow> pydict res" where
  "canonical_patch coerce patch =
     (if \<not> list_all (\<lambda>(k, _). k \<in> set ALLOWED_PATCH_FIELDS) patch
      then Inl (ValueError ''Extra inputs are not permitted'')
      else validate_patch_fields coerce patch ALLOWED_PATCH_FIELDS)"

section \<open>Value keys\<close>

definition text_key :: "string \<Rightarrow> string" where
  "text_key value = py_join '' '' (py_words (py_lower value))"

definition value_key :: "string \<Rightarrow> pyval \<Rightarrow> string" where
  "value_key field value =
     (case (field \<in> {''title'', ''publisher'', ''series'', ''edition_statement''}, value) of
        (True, PStr s) \<Rightarrow> text_key s
      | _ \<Rightarrow>
        if field = ''authors'' \<and> (case value of PList _ \<Rightarrow> True | PStr _ \<Rightarrow> True | _ \<Rightarrow> False) then
          (let authors = (case value of PList xs \<Rightarrow> map py_str xs | PStr s \<Rightarrow> py_split (CHR ''&'') s | _ \<Rightarrow> []);
               normalized = sort (map text_key (filter (\<lambda>item. py_strip item \<noteq> []) authors))
           in json_dumps (PList (map PStr normalized)))
        else if field = ''languages'' \<and> (case value of PList _ \<Rightarrow> True | PStr _ \<Rightarrow> True | _ \<Rightarrow> False) then
          (let languages = (case value of PList xs \<Rightarrow> map py_str xs
                            | PStr s \<Rightarrow> py_split (CHR '','') (map (\<lambda>c. if c = CHR '';'' then CHR '','' else c) s)
                            | _ \<Rightarrow> []);
               normalized = sort (map (\<lambda>item. py_lower (py_strip item)) (filter (\<lambda>item. py_strip item \<noteq> []) languages))
           in json_dumps (PList (map PStr normalized)))
        else if field = ''identifiers'' then
          (case value of
             PDict d \<Rightarrow> json_dumps (str_dict_val (normalize_identifiers (str_items d)))
           | _ \<Rightarrow> json_dumps value)
        else json_dumps value)"

section \<open>Core fields of formats and external roots\<close>

definition core_fields :: "string list" where
  "core_fields = [''title'', ''authors'', ''languages'']"

text \<open>\<open>getattr(item, field)\<close> for the core fields.\<close>

definition fe_core_value :: "string \<Rightarrow> format_evidence \<Rightarrow> pyval" where
  "fe_core_value field item =
     (if field = ''title'' then (case fe_title item of Some s \<Rightarrow> PStr s | None \<Rightarrow> PNone)
      else if field = ''authors'' then PList (map PStr (fe_authors item))
      else PList (map PStr (fe_languages item)))"

definition core_value_present :: "string \<Rightarrow> pyval \<Rightarrow> bool" where
  "core_value_present field value =
     (if field = ''title'' then (case value of PStr s \<Rightarrow> py_strip s \<noteq> [] | _ \<Rightarrow> False)
      else (case value of PList xs \<Rightarrow> xs \<noteq> [] | _ \<Rightarrow> False))"

definition formats_have_core_conflict :: "format_evidence list \<Rightarrow> bool" where
  "formats_have_core_conflict formats =
     list_ex (\<lambda>field.
       length (remdups (map (value_key field)
         (filter (core_value_present field) (map (fe_core_value field) formats)))) > 1) core_fields"

definition formats_have_complete_core :: "format_evidence list \<Rightarrow> bool" where
  "formats_have_complete_core formats =
     list_all (\<lambda>item. list_all (\<lambda>field. core_value_present field (fe_core_value field item)) core_fields) formats"

definition expected_core :: "format_evidence \<Rightarrow> string dict" where
  "expected_core item = map (\<lambda>field. (field, value_key field (fe_core_value field item))) core_fields"

definition is_external_confirmation :: "string \<Rightarrow> string \<Rightarrow> source_evidence \<Rightarrow> bool" where
  "is_external_confirmation namespace identifier item =
     (se_authoritative item \<and> se_source_kind item \<in> set EXTERNAL_PROMOTION_KINDS
      \<and> dict_get (se_manifestation_ids item) namespace = Some identifier
      \<and> se_field item = ''identifiers'')"

definition external_roots :: "source_evidence list \<Rightarrow> string \<Rightarrow> string \<Rightarrow> string list" where
  "external_roots evidence namespace identifier =
     remdups (map effective_root (filter (is_external_confirmation namespace identifier) evidence))"

text \<open>The dict comprehension \<open>fields\<close>: a later item of the same field overwrites an earlier one.\<close>

definition root_fields :: "source_evidence list \<Rightarrow> string \<Rightarrow> string dict" where
  "root_fields evidence root_id =
     dict_update [] (map (\<lambda>item. (se_field item, value_key (se_field item) (se_value item)))
       (filter (\<lambda>item. effective_root item = root_id \<and> se_field item \<in> set core_fields \<and> se_authoritative item)
         evidence))"

definition external_core_matches :: "format_evidence list \<Rightarrow> source_evidence list \<Rightarrow> string \<Rightarrow> string \<Rightarrow> bool res" where
  "external_core_matches formats evidence namespace identifier =
     (case formats of
        [] \<Rightarrow> Inl IndexError
      | first # _ \<Rightarrow>
          Inr (list_ex (\<lambda>root_id.
             list_all (\<lambda>field. dict_get (root_fields evidence root_id) field = dict_get (expected_core first) field)
               core_fields) (external_roots evidence namespace identifier)))"

definition external_core_conflicts :: "format_evidence list \<Rightarrow> source_evidence list \<Rightarrow> string \<Rightarrow> string \<Rightarrow> bool res" where
  "external_core_conflicts formats evidence namespace identifier =
     (case formats of
        [] \<Rightarrow> Inl IndexError
      | first # _ \<Rightarrow>
          Inr (list_ex (\<lambda>item. dict_get (expected_core first) (se_field item) \<noteq> Some (value_key (se_field item) (se_value item)))
             (filter (\<lambda>item. se_authoritative item \<and> se_source_kind item \<in> set EXTERNAL_PROMOTION_KINDS
                 \<and> effective_root item \<in> set (external_roots evidence namespace identifier)
                 \<and> se_field item \<in> set core_fields) evidence)))"

section \<open>Resolution\<close>

text \<open>\<open>sorted({item.field for item in evidence if item.field in ALLOWED_PATCH_FIELDS})\<close>\<close>

definition evidence_fields :: "source_evidence list \<Rightarrow> string list" where
  "evidence_fields evidence =
     sort (remdups (filter (\<lambda>f. f \<in> set ALLOWED_PATCH_FIELDS) (map se_field evidence)))"

definition non_authoritative_resolution ::
    "identity_tier \<Rightarrow> string dict \<Rightarrow> string \<Rightarrow> string \<Rightarrow> source_evidence list \<Rightarrow> pydict \<Rightarrow> manifestation_resolution" where
  "non_authoritative_resolution tier manifestation_ids risk_flag reason evidence current_metadata =
     (let status = (if tier = tier_c then fd_blocked else fd_review);
          decisions = map (\<lambda>field. (field,
            \<lparr>fd_field = field, fd_current_value = pget current_metadata field, fd_resolved_value = PNone,
             fd_status = status,
             fd_evidence_ids = map se_evidence_id (filter (\<lambda>item. se_field item = field) evidence),
             fd_root_ids = [], fd_reasons = [reason]\<rparr>)) (evidence_fields evidence)
      in \<lparr>mr_tier = tier, mr_manifestation_ids = manifestation_ids, mr_field_decisions = decisions,
          mr_auto_patch = [], mr_risk_flags = [risk_flag], mr_reasons = [reason]\<rparr>)"

definition is_eligible :: "string \<times> string \<Rightarrow> string \<Rightarrow> source_evidence \<Rightarrow> bool" where
  "is_eligible target_id field item =
     (se_field item = field \<and> se_authoritative item
      \<and> se_source_kind item \<in> set INTERNAL_PROMOTION_KINDS \<union> set EXTERNAL_PROMOTION_KINDS
      \<and> dict_get (se_manifestation_ids item) (fst target_id) = Some (snd target_id))"

text \<open>\<open>by_value.setdefault(_value_key(field, item.value), []).append(item)\<close> over the eligible items.\<close>

fun group_by_value :: "string \<Rightarrow> source_evidence list dict \<Rightarrow> source_evidence list \<Rightarrow> source_evidence list dict" where
  "group_by_value field by_value [] = by_value"
| "group_by_value field by_value (item # items) =
     (let k = value_key field (se_value item);
          old = (case dict_get by_value k of Some xs \<Rightarrow> xs | None \<Rightarrow> [])
      in group_by_value field (dict_set k (old @ [item]) by_value) items)"

text \<open>The merge of observed identifiers into the current ones, and the value a field resolves to.\<close>

definition target_value :: "string \<Rightarrow> pyval \<Rightarrow> pydict \<Rightarrow> pyval" where
  "target_value field resolved current_metadata =
     (case (field = ''identifiers'', resolved) of
        (True, PDict d) \<Rightarrow>
          (let current_identifiers =
                 (case dict_get current_metadata field of
                    Some (PDict c) \<Rightarrow> normalize_identifiers (str_items c)
                  | _ \<Rightarrow> []);
               resolved_identifiers = normalize_identifiers (str_items d)
           in str_dict_val (dict_update current_identifiers resolved_identifiers))
      | _ \<Rightarrow> resolved)"

text \<open>One iteration of the loop of \<open>_resolve_fields\<close>: the decision and the value put in the patch.\<close>

definition resolve_field ::
    "source_evidence list \<Rightarrow> pydict \<Rightarrow> string \<times> string \<Rightarrow> string \<Rightarrow> field_decision \<times> pyval option" where
  "resolve_field evidence current_metadata target_id field =
     (let eligible = filter (is_eligible target_id field) evidence;
          by_value = group_by_value field [] eligible
      in case by_value of
           [(_, supporting)] \<Rightarrow>
             (let roots = remdups (map effective_root supporting);
                  has_preferred_root = list_ex (\<lambda>item.
                    se_source_kind item \<in> set INTERNAL_PROMOTION_KINDS \<union> set OFFICIAL_KINDS) supporting;
                  tv = target_value field (se_value (hd supporting)) current_metadata;
                  (status, reasons, entry) =
                    (if length roots < 2 \<or> \<not> has_preferred_root then
                       (fd_review, [''field lacks two independent roots including internal or official evidence''], None)
                     else if value_key field (pget current_metadata field) = value_key field tv then
                       (fd_unchanged, [''current Calibre value matches the evidence consensus''], None)
                     else (fd_auto, [''two independent roots support the exact manifestation value''], Some tv))
              in (\<lparr>fd_field = field, fd_current_value = pget current_metadata field, fd_resolved_value = tv,
                   fd_status = status, fd_evidence_ids = map se_evidence_id supporting,
                   fd_root_ids = sort roots, fd_reasons = reasons\<rparr>, entry))
         | _ \<Rightarrow>
             (\<lparr>fd_field = field, fd_current_value = pget current_metadata field, fd_resolved_value = PNone,
               fd_status = fd_review, fd_evidence_ids = map se_evidence_id eligible,
               fd_root_ids = sort (remdups (map se_root_id eligible)),
               fd_reasons = [''independent evidence is missing or conflicting'']\<rparr>, None))"

fun resolve_fields_loop ::
    "source_evidence list \<Rightarrow> pydict \<Rightarrow> string \<times> string \<Rightarrow> string list \<Rightarrow> field_decision dict \<times> pydict" where
  "resolve_fields_loop evidence current_metadata target_id [] = ([], [])"
| "resolve_fields_loop evidence current_metadata target_id (field # rest) =
     (let (d, entry) = resolve_field evidence current_metadata target_id field;
          (ds, patch) = resolve_fields_loop evidence current_metadata target_id rest
      in ((field, d) # ds, (case entry of Some v \<Rightarrow> (field, v) # patch | None \<Rightarrow> patch)))"

text \<open>\<open>next(iter({}.items()))\<close> raises StopIteration; \<open>resolve_manifestation\<close> never passes an empty dict.\<close>

definition resolve_fields ::
    "(string \<Rightarrow> pyval \<Rightarrow> pyval option) \<Rightarrow> source_evidence list \<Rightarrow> pydict \<Rightarrow> string dict
      \<Rightarrow> (field_decision dict \<times> pydict) res" where
  "resolve_fields coerce evidence current_metadata manifestation_ids =
     (case manifestation_ids of
        [] \<Rightarrow> Inl (RuntimeError ''StopIteration'')
      | target_id # _ \<Rightarrow>
          (let (decisions, patch) =
                 resolve_fields_loop evidence current_metadata target_id (evidence_fields evidence)
           in case canonical_patch coerce patch of
                Inl e \<Rightarrow> Inl e
              | Inr canonical \<Rightarrow> Inr (decisions, canonical)))"

definition format_ids :: "format_evidence list \<Rightarrow> (string \<times> string) list" where
  "format_ids formats =
     remdups (filter (\<lambda>(namespace, value). namespace = ''isbn'' \<and> validate_isbn value \<noteq> None)
       (concat (map fe_identifiers formats)))"

definition is_internal_confirmation :: "string \<Rightarrow> string \<Rightarrow> source_evidence \<Rightarrow> bool" where
  "is_internal_confirmation namespace identifier item =
     (se_field item = ''identifiers'' \<and> se_authoritative item
      \<and> se_source_kind item \<in> set INTERNAL_IDENTITY_KINDS
      \<and> dict_get (se_manifestation_ids item) namespace = Some identifier
      \<and> (case se_value item of
           PDict d \<Rightarrow> dict_get (normalize_identifiers (str_items d)) namespace = Some identifier
         | _ \<Rightarrow> False))"

text \<open>The end of \<open>resolve_manifestation\<close>, reached when every check has passed.\<close>

definition confirmed_resolution ::
    "(string \<Rightarrow> pyval \<Rightarrow> pyval option) \<Rightarrow> source_evidence list \<Rightarrow> pydict \<Rightarrow> string dict \<Rightarrow> manifestation_resolution res" where
  "confirmed_resolution coerce evidence current_metadata manifestation_ids =
     (case resolve_fields coerce evidence current_metadata manifestation_ids of
        Inl e \<Rightarrow> Inl e
      | Inr (decisions, patch) \<Rightarrow>
          Inr \<lparr>mr_tier = tier_a, mr_manifestation_ids = manifestation_ids, mr_field_decisions = decisions,
               mr_auto_patch = patch, mr_risk_flags = [],
               mr_reasons = [''internal content and a structured external root identify the same manifestation'']\<rparr>)"

definition resolve_manifestation ::
    "(string \<Rightarrow> pyval \<Rightarrow> pyval option) \<Rightarrow> format_evidence list \<Rightarrow> source_evidence list \<Rightarrow> pydict
      \<Rightarrow> manifestation_resolution res" where
  "resolve_manifestation coerce formats evidence current_metadata =
     (let readable_formats = filter (\<lambda>item. fe_status item = readable) formats;
          ids = format_ids readable_formats;
          refuse = (\<lambda>tier mids flag reason.
            Inr (non_authoritative_resolution tier mids flag reason evidence current_metadata))
      in if length ids > 1 then
           refuse tier_c [] ''format_manifestation_conflict'' ''readable formats identify different manifestations''
         else if length readable_formats \<noteq> length formats then
           refuse tier_b ids ''incomplete_format_evidence''
             ''at least one format is unsupported, protected, corrupt, or unreadable''
         else case ids of
           [] \<Rightarrow> refuse tier_b [] ''missing_manifestation_identifier''
                  ''no valid manifestation identifier was found in edition-bearing content''
         | (namespace, identifier) # _ \<Rightarrow>
           (let mids = [(namespace, identifier)] in
            if \<not> list_ex (is_internal_confirmation namespace identifier) evidence then
              refuse tier_b mids ''missing_internal_manifestation_confirmation''
                ''the identifier is not anchored to internal edition-bearing evidence''
            else if \<not> list_ex (is_external_confirmation namespace identifier) evidence then
              refuse tier_b mids ''missing_external_manifestation_confirmation''
                ''no structured external root confirms the internal manifestation identifier''
            else if formats_have_core_conflict readable_formats then
              refuse tier_c mids ''format_expression_conflict''
                ''readable formats disagree on title, authors, or language''
            else if \<not> formats_have_complete_core readable_formats then
              refuse tier_b mids ''incomplete_internal_core_evidence''
                ''title, authors, or language are missing from at least one readable format''
            else case external_core_conflicts readable_formats evidence namespace identifier of
              Inl e \<Rightarrow> Inl e
            | Inr True \<Rightarrow> refuse tier_c mids ''external_expression_conflict''
                ''an exact-identifier external root conflicts on title, authors, or language''
            | Inr False \<Rightarrow>
              (case external_core_matches readable_formats evidence namespace identifier of
                 Inl e \<Rightarrow> Inl e
               | Inr False \<Rightarrow> refuse tier_b mids ''missing_external_core_confirmation''
                   ''no single structured root confirms identifier, title, authors, and language''
               | Inr True \<Rightarrow>
                 confirmed_resolution coerce evidence current_metadata mids)))"

section \<open>Identifiers\<close>

lemma distinct_normalize_step:
  "distinct (map fst d) \<Longrightarrow> distinct (map fst (normalize_identifier_step d i))"
  by (auto simp: normalize_identifier_step_def Let_def distinct_dict_set split: option.split)

lemma distinct_normalize_foldl:
  "distinct (map fst d) \<Longrightarrow> distinct (map fst (foldl normalize_identifier_step d xs))"
  by (induction xs arbitrary: d) (simp_all add: distinct_normalize_step)

lemma distinct_normalize_identifiers [simp]: "distinct (map fst (normalize_identifiers d))"
  unfolding normalize_identifiers_def by (rule distinct_normalize_foldl) simp

text \<open>The shape of every pair a normalised dict holds.\<close>

definition normal_pair :: "string \<times> string \<Rightarrow> bool" where
  "normal_pair kv =
     (py_lower (py_strip (fst kv)) = fst kv \<and> py_strip (snd kv) = snd kv \<and> fst kv \<noteq> [] \<and> snd kv \<noteq> []
      \<and> (fst kv = ''isbn'' \<longrightarrow> validate_isbn (snd kv) = Some (snd kv)))"

lemma py_strip_digits: "list_all is_digit s \<Longrightarrow> py_strip s = s"
proof -
  assume d: "list_all is_digit s"
  have ns: "is_digit c \<Longrightarrow> \<not> is_space c" for c
    by (auto simp: is_digit_def is_space_def Let_def)
  have dw: "list_all is_digit xs \<Longrightarrow> dropWhile is_space xs = xs" for xs
    using ns by (cases xs) auto
  from d have "list_all is_digit (rev s)" by (simp add: list_all_iff)
  with d dw show ?thesis by (simp add: py_strip_def py_lstrip_def)
qed

lemma validate_isbn_canonical:
  assumes "validate_isbn v = Some c"
  shows "validate_isbn c = Some c \<and> py_strip c = c \<and> c \<noteq> []"
proof -
  from assms have c: "list_all is_digit c" "isbn13_checksum_valid c"
    using canonical_cases by (simp_all add: validate_isbn_def)
  moreover from c have "length c = 13" using isbn13_valid_digits by blast
  ultimately show ?thesis
    by (auto simp: validate_isbn_def canonical_of_valid13 py_strip_digits)
qed

lemma normal_pair_dict_set:
  assumes "list_all normal_pair d" "normal_pair (k, v)"
  shows "list_all normal_pair (dict_set k v d)"
  using assms by (induction d) (auto simp: dict_set_def)

lemma normal_pair_strip:
  assumes "py_lower (py_strip k) \<noteq> ''isbn''" "py_lower (py_strip k) \<noteq> []" "py_strip v \<noteq> []"
  shows "normal_pair (py_lower (py_strip k), py_strip v)"
  using assms by (simp add: normal_pair_def py_strip_lower)

lemma normal_pair_isbn:
  assumes "validate_isbn v = Some c"
  shows "normal_pair (''isbn'', c)"
proof -
  have "py_lower (py_strip ''isbn'') = ''isbn''" by code_simp
  with validate_isbn_canonical [OF assms] show ?thesis by (simp add: normal_pair_def)
qed

lemma normal_normalize_step:
  assumes "list_all normal_pair d"
  shows "list_all normal_pair (normalize_identifier_step d i)"
proof (cases "py_lower (py_strip (fst i)) = ''isbn''")
  case True
  with assms show ?thesis
    by (auto simp: normalize_identifier_step_def Let_def normal_pair_dict_set normal_pair_isbn split: option.split)
next
  case False
  with assms show ?thesis
    by (auto simp: normalize_identifier_step_def Let_def normal_pair_dict_set normal_pair_strip)
qed

lemma normal_normalize_foldl:
  "list_all normal_pair d \<Longrightarrow> list_all normal_pair (foldl normalize_identifier_step d xs)"
  by (induction xs arbitrary: d) (simp_all add: normal_normalize_step)

lemma normal_normalize_identifiers: "list_all normal_pair (normalize_identifiers d)"
  unfolding normalize_identifiers_def by (rule normal_normalize_foldl) simp

lemma dict_set_fresh: "k \<notin> fst ` set d \<Longrightarrow> dict_set k v d = d @ [(k, v)]"
  by (induction d) (auto simp: dict_set_def)

lemma normalize_step_normal:
  assumes "normal_pair (k, v)" "k \<notin> fst ` set d"
  shows "normalize_identifier_step d (k, v) = d @ [(k, v)]"
  using assms by (auto simp: normal_pair_def normalize_identifier_step_def Let_def dict_set_fresh)

lemma normalize_foldl_normal:
  "list_all normal_pair xs \<Longrightarrow> distinct (map fst (d @ xs)) \<Longrightarrow> foldl normalize_identifier_step d xs = d @ xs"
proof (induction xs arbitrary: d)
  case (Cons x xs)
  obtain k v where x: "x = (k, v)" by force
  with Cons.prems have "normalize_identifier_step d x = d @ [x]"
    by (auto intro!: normalize_step_normal)
  with Cons show ?case by simp
qed simp

lemma normalize_identifiers_normal:
  "list_all normal_pair xs \<Longrightarrow> distinct (map fst xs) \<Longrightarrow> normalize_identifiers xs = xs"
  using normalize_foldl_normal [of xs "[]"] by (simp add: normalize_identifiers_def)

lemma str_items_str_dict [simp]: "str_items (map (\<lambda>(k, v). (k, PStr v)) d) = d"
  by (induction d) (auto simp: str_items_def)

lemma normal_dict_update:
  "list_all normal_pair d \<Longrightarrow> list_all normal_pair e \<Longrightarrow> list_all normal_pair (dict_update d e)"
  by (induction d e rule: dict_update.induct) (simp_all add: normal_pair_dict_set)

section \<open>Grouping\<close>

lemma distinct_group:
  "distinct (map fst d) \<Longrightarrow> distinct (map fst (group_by_value f d items))"
  by (induction f d items rule: group_by_value.induct) (simp_all add: Let_def distinct_dict_set)

lemma dict_get_group:
  "dict_get (group_by_value f d items) k =
     (let new = filter (\<lambda>i. value_key f (se_value i) = k) items
      in if new = [] then dict_get d k
         else Some ((case dict_get d k of Some xs \<Rightarrow> xs | None \<Rightarrow> []) @ new))"
  by (induction f d items rule: group_by_value.induct)
    (auto simp: Let_def dict_get_set split: option.split)

lemma group_single:
  assumes g: "group_by_value f [] items = [(k, support)]"
  shows "support = items \<and> items \<noteq> [] \<and> (\<forall>i\<in>set items. value_key f (se_value i) = k)"
proof -
  have get: "(if j = k then Some support else None) =
      (let new = filter (\<lambda>i. value_key f (se_value i) = j) items in if new = [] then None else Some new)" for j
    using dict_get_group [of f "[]" items j] by (simp add: g dict_get_def Let_def)
  have all: "\<forall>i\<in>set items. value_key f (se_value i) = k"
    using get by (fastforce simp: Let_def filter_empty_conv split: if_splits)
  then have "filter (\<lambda>i. value_key f (se_value i) = k) items = items" by simp
  with get [of k] all show ?thesis by (auto simp: Let_def split: if_splits)
qed

section \<open>The tier decision\<close>

lemma non_auth_simps [simp]:
  "mr_tier (non_authoritative_resolution t m f r e c) = t"
  "mr_manifestation_ids (non_authoritative_resolution t m f r e c) = m"
  "mr_auto_patch (non_authoritative_resolution t m f r e c) = []"
  "mr_risk_flags (non_authoritative_resolution t m f r e c) = [f]"
  by (simp_all add: non_authoritative_resolution_def Let_def)

text \<open>The checks a Tier A resolution passes, as one predicate on the inputs.\<close>

definition tier_a_checks :: "format_evidence list \<Rightarrow> source_evidence list \<Rightarrow> string \<Rightarrow> string \<Rightarrow> bool" where
  "tier_a_checks formats evidence namespace identifier =
     (list_all (\<lambda>item. fe_status item = readable) formats
      \<and> format_ids formats = [(namespace, identifier)]
      \<and> list_ex (is_internal_confirmation namespace identifier) evidence
      \<and> list_ex (is_external_confirmation namespace identifier) evidence
      \<and> \<not> formats_have_core_conflict formats
      \<and> formats_have_complete_core formats
      \<and> external_core_conflicts formats evidence namespace identifier = Inr False
      \<and> external_core_matches formats evidence namespace identifier = Inr True)"

lemma filter_length_eq: "length (filter P xs) = length xs \<longleftrightarrow> filter P xs = xs"
  by (metis filter_id_conv length_filter_less linorder_neq_iff)

text \<open>
  \<open>resolve_manifestation\<close> either refuses with a tier below A and an empty patch, or passes every
  check and returns what \<open>_resolve_fields\<close> returns; which of the two does not depend on the
  current metadata.
\<close>

definition refuses :: "format_evidence list \<Rightarrow> source_evidence list \<Rightarrow> bool" where
  "refuses formats evidence =
     (\<exists>t m f r. t \<noteq> tier_a \<and> (\<forall>c cur. resolve_manifestation c formats evidence cur
        = Inr (non_authoritative_resolution t m f r evidence cur)))"

lemma refusesI:
  assumes "\<And>c cur. resolve_manifestation c formats evidence cur
        = Inr (non_authoritative_resolution t m f r evidence cur)" "t \<noteq> tier_a"
  shows "refuses formats evidence"
  using assms unfolding refuses_def by blast

definition tier_a_result :: "string dict \<Rightarrow> field_decision dict \<Rightarrow> pydict \<Rightarrow> manifestation_resolution" where
  "tier_a_result mids decisions patch =
     \<lparr>mr_tier = tier_a, mr_manifestation_ids = mids, mr_field_decisions = decisions,
      mr_auto_patch = patch, mr_risk_flags = [],
      mr_reasons = [''internal content and a structured external root identify the same manifestation'']\<rparr>"

lemma tier_a_result_simps [simp]:
  "mr_tier (tier_a_result m d p) = tier_a"
  "mr_manifestation_ids (tier_a_result m d p) = m"
  "mr_auto_patch (tier_a_result m d p) = p"
  "mr_field_decisions (tier_a_result m d p) = d"
  "mr_risk_flags (tier_a_result m d p) = []"
  by (simp_all add: tier_a_result_def)

definition accepts :: "format_evidence list \<Rightarrow> source_evidence list \<Rightarrow> string \<Rightarrow> string \<Rightarrow> bool" where
  "accepts formats evidence namespace identifier =
     (\<forall>c cur. resolve_manifestation c formats evidence cur =
        (case resolve_fields c evidence cur [(namespace, identifier)] of
           Inl e \<Rightarrow> Inl e
         | Inr (decisions, patch) \<Rightarrow> Inr (tier_a_result [(namespace, identifier)] decisions patch)))"

lemma external_core_total:
  assumes "formats \<noteq> []"
  shows "\<exists>b b'. external_core_conflicts formats evidence n i = Inr b \<and> external_core_matches formats evidence n i = Inr b'"
  using assms by (auto simp: external_core_conflicts_def external_core_matches_def split: list.split)

lemma resolve_identified_cases:
  assumes rd: "filter (\<lambda>item. fe_status item = readable) formats = formats"
    and ids: "format_ids formats = [(n, i)]"
  shows "refuses formats evidence \<or> tier_a_checks formats evidence n i \<and> accepts formats evidence n i"
proof -
  from ids have "formats \<noteq> []" by (auto simp: format_ids_def)
  then obtain b b' where b: "external_core_conflicts formats evidence n i = Inr b"
      "external_core_matches formats evidence n i = Inr b'"
    using external_core_total by blast
  note unf = resolve_manifestation_def Let_def rd ids b
  have r: "list_all (\<lambda>item. fe_status item = readable) formats"
    using rd by (simp add: filter_id_conv list_all_iff)
  show ?thesis
  proof (cases "tier_a_checks formats evidence n i")
    case True
    then show ?thesis
      by (simp add: accepts_def tier_a_checks_def unf confirmed_resolution_def tier_a_result_def split: sum.split)
  next
    case False
    with r ids b consider
        "\<not> list_ex (is_internal_confirmation n i) evidence"
      | "list_ex (is_internal_confirmation n i) evidence" "\<not> list_ex (is_external_confirmation n i) evidence"
      | "list_ex (is_internal_confirmation n i) evidence" "list_ex (is_external_confirmation n i) evidence"
        "formats_have_core_conflict formats"
      | "list_ex (is_internal_confirmation n i) evidence" "list_ex (is_external_confirmation n i) evidence"
        "\<not> formats_have_core_conflict formats" "\<not> formats_have_complete_core formats"
      | "list_ex (is_internal_confirmation n i) evidence" "list_ex (is_external_confirmation n i) evidence"
        "\<not> formats_have_core_conflict formats" "formats_have_complete_core formats" "b \<or> \<not> b'"
      by (auto simp: tier_a_checks_def)
    then have "refuses formats evidence"
    proof cases
      case 1 then show ?thesis by (intro refusesI) (simp add: unf, simp)
    next
      case 2 then show ?thesis by (intro refusesI) (simp add: unf, simp)
    next
      case 3 then show ?thesis by (intro refusesI) (simp add: unf, simp)
    next
      case 4 then show ?thesis by (intro refusesI) (simp add: unf, simp)
    next
      case 5
      show ?thesis
      proof (cases b)
        case True
        with 5 show ?thesis by (intro refusesI) (simp add: unf, simp)
      next
        case False
        with 5 show ?thesis by (intro refusesI) (simp add: unf, simp)
      qed
    qed
    then show ?thesis ..
  qed
qed

lemma resolve_manifestation_cases:
  "refuses formats evidence
   \<or> (\<exists>n i. tier_a_checks formats evidence n i \<and> accepts formats evidence n i)"
proof -
  let ?rf = "filter (\<lambda>item. fe_status item = readable) formats"
  note unf = resolve_manifestation_def Let_def
  consider "length (format_ids ?rf) > 1"
    | "\<not> length (format_ids ?rf) > 1" "length ?rf \<noteq> length formats"
    | "length ?rf = length formats" "format_ids ?rf = []"
    | n i where "length ?rf = length formats" "format_ids ?rf = [(n, i)]"
    by (cases "format_ids ?rf") (auto simp: not_less)
  then show ?thesis
  proof cases
    case 1
    then have "refuses formats evidence" by (intro refusesI) (simp add: unf, simp)
    then show ?thesis ..
  next
    case 2
    then have "refuses formats evidence" by (intro refusesI) (simp add: unf, simp)
    then show ?thesis ..
  next
    case 3
    then have "refuses formats evidence" by (intro refusesI) (simp add: unf, simp)
    then show ?thesis ..
  next
    case 4
    then have "?rf = formats" by (simp only: filter_length_eq)
    with 4 resolve_identified_cases show ?thesis by metis
  qed
qed

lemma resolve_manifestation_result:
  assumes "resolve_manifestation c formats evidence cur = Inr r"
  shows "refuses formats evidence \<and> mr_tier r \<noteq> tier_a \<and> mr_auto_patch r = []
         \<or> (\<exists>n i decisions. tier_a_checks formats evidence n i \<and> accepts formats evidence n i
              \<and> resolve_fields c evidence cur [(n, i)] = Inr (decisions, mr_auto_patch r)
              \<and> r = tier_a_result [(n, i)] decisions (mr_auto_patch r))"
  using resolve_manifestation_cases [of formats evidence]
proof (elim disjE exE conjE)
  assume h: "refuses formats evidence"
  with assms show ?thesis by (auto simp: refuses_def)
next
  fix n i
  assume h: "tier_a_checks formats evidence n i" "accepts formats evidence n i"
  with assms obtain d p where "resolve_fields c evidence cur [(n, i)] = Inr (d, p)"
      "r = tier_a_result [(n, i)] d p"
    by (auto simp: accepts_def split: sum.splits)
  with h show ?thesis by auto
qed

lemma format_ids_single:
  assumes "format_ids formats = [(n, i)]"
  shows "n = ''isbn'' \<and> validate_isbn i \<noteq> None
    \<and> (\<forall>f\<in>set formats. \<forall>v. (''isbn'', v) \<in> set (fe_identifiers f) \<and> validate_isbn v \<noteq> None \<longrightarrow> v = i)"
proof -
  have s: "set (format_ids formats) = {(n, i)}" using assms by simp
  then have a: "n = ''isbn'' \<and> validate_isbn i \<noteq> None"
    by (auto simp: format_ids_def)
  have "v = i" if "f \<in> set formats" "(''isbn'', v) \<in> set (fe_identifiers f)" "validate_isbn v \<noteq> None" for f v
  proof -
    from that have "(''isbn'', v) \<in> set (format_ids formats)" by (auto simp: format_ids_def)
    with s show ?thesis by simp
  qed
  with a show ?thesis by blast
qed

lemma dict_get_map_fields: "dict_get (map (\<lambda>f. (f, g f)) fs) f = (if f \<in> set fs then Some (g f) else None)"
  by (induction fs) (auto simp: dict_get_def)

lemma dict_get_update_in:
  assumes "dict_get (dict_update d ps) k = Some v"
  shows "dict_get d k = Some v \<or> (k, v) \<in> set ps"
  using assms
proof (induction d ps rule: dict_update.induct)
  case (2 d j w ps)
  then show ?case by (auto simp: dict_get_set split: if_splits)
qed simp

lemma root_fields_Some:
  assumes "dict_get (root_fields evidence root) f = Some k"
  shows "\<exists>x\<in>set evidence. effective_root x = root \<and> se_field x = f \<and> se_authoritative x \<and> value_key f (se_value x) = k"
  using dict_get_update_in [OF assms [unfolded root_fields_def]] by (auto simp: dict_simps)

lemma core_agreement:
  assumes "\<not> formats_have_core_conflict formats" "formats_have_complete_core formats"
    and "field \<in> set core_fields" "f \<in> set formats" "g \<in> set formats"
  shows "value_key field (fe_core_value field g) = value_key field (fe_core_value field f)"
proof -
  let ?ks = "map (value_key field) (filter (core_value_present field) (map (fe_core_value field) formats))"
  from assms(1,3) have "length (remdups ?ks) \<le> 1"
    by (auto simp: formats_have_core_conflict_def list_ex_iff not_less)
  moreover have "{value_key field (fe_core_value field g), value_key field (fe_core_value field f)} \<subseteq> set ?ks"
    using assms(2-5) by (auto simp: formats_have_complete_core_def list_all_iff)
  ultimately have "card {value_key field (fe_core_value field g), value_key field (fe_core_value field f)} \<le> 1"
    by (metis card_mono finite_set length_remdups_card_conv order_trans)
  then show ?thesis by (auto simp: card_insert_if split: if_splits)
qed

lemma external_core_matchesD:
  assumes "external_core_matches formats evidence n i = Inr True"
    and nc: "\<not> formats_have_core_conflict formats" "formats_have_complete_core formats"
  shows "\<exists>e\<in>set evidence. is_external_confirmation n i e \<and>
           (\<forall>f\<in>set formats. \<forall>field\<in>set core_fields.
              \<exists>x\<in>set evidence. se_authoritative x \<and> effective_root x = effective_root e
              \<and> se_field x = field \<and> value_key field (se_value x) = value_key field (fe_core_value field f))"
proof -
  from assms(1) obtain first rest e where fm: "formats = first # rest" and e: "e \<in> set evidence" "is_external_confirmation n i e"
      and m: "\<forall>field\<in>set core_fields.
          dict_get (root_fields evidence (effective_root e)) field = dict_get (expected_core first) field"
    by (auto simp: external_core_matches_def list_ex_iff list_all_iff external_roots_def split: list.splits)
  have "\<exists>x\<in>set evidence. se_authoritative x \<and> effective_root x = effective_root e
              \<and> se_field x = field \<and> value_key field (se_value x) = value_key field (fe_core_value field f)"
    if "field \<in> set core_fields" "f \<in> set formats" for field f
  proof -
    from m that have "dict_get (root_fields evidence (effective_root e)) field = Some (value_key field (fe_core_value field first))"
      by (simp add: expected_core_def dict_get_map_fields)
    from root_fields_Some [OF this] core_agreement [OF nc that, of first] show ?thesis by (auto simp: fm)
  qed
  with e show ?thesis by blast
qed

section \<open>The patch\<close>

lemma validate_patch_fields_get:
  assumes "validate_patch_fields c patch fs = Inr out" "distinct fs"
  shows "dict_get out f = Some v \<longleftrightarrow>
    f \<in> set fs \<and> v \<noteq> PNone \<and> validate_patch_field c f (pget patch f) = Inr v"
  using assms
proof (induction fs arbitrary: out)
  case (Cons g fs)
  then obtain w rest where w: "validate_patch_field c g (pget patch g) = Inr w"
      and rest: "validate_patch_fields c patch fs = Inr rest"
      and out: "out = (if w = PNone then rest else (g, w) # rest)"
    by (auto split: sum.splits)
  from Cons.prems(2) have "g \<notin> set fs" "distinct fs" by simp_all
  with Cons.IH [OF rest] w out show ?case by (auto simp: dict_get_def)
qed (simp add: dict_get_def)

lemma distinct_ALLOWED: "distinct ALLOWED_PATCH_FIELDS"
  by (simp add: ALLOWED_PATCH_FIELDS_def)

lemma canonical_patch_get:
  assumes "canonical_patch c patch = Inr out"
  shows "dict_get out f = Some v \<longleftrightarrow>
    f \<in> set ALLOWED_PATCH_FIELDS \<and> v \<noteq> PNone \<and> validate_patch_field c f (pget patch f) = Inr v"
  using assms validate_patch_fields_get [OF _ distinct_ALLOWED]
  by (auto simp: canonical_patch_def split: if_splits)

lemma validate_patch_fields_keys:
  "validate_patch_fields c patch fs = Inr out \<Longrightarrow> set (map fst out) \<subseteq> set fs \<and> (distinct fs \<longrightarrow> distinct (map fst out))"
proof (induction fs arbitrary: out)
  case (Cons g fs)
  then obtain w rest where "validate_patch_fields c patch fs = Inr rest"
      and out: "out = (if w = PNone then rest else (g, w) # rest)"
    by (auto split: sum.splits)
  with Cons.IH [of rest] show ?case by auto
qed simp

text \<open>The pair the loop puts in the patch for a field, and the whole patch as a filtered map.\<close>

definition field_entry :: "source_evidence list \<Rightarrow> pydict \<Rightarrow> string \<times> string \<Rightarrow> string \<Rightarrow> pyval option" where
  "field_entry evidence cur target field = snd (resolve_field evidence cur target field)"

lemma loop_patch:
  "snd (resolve_fields_loop evidence cur target fs)
     = List.map_filter (\<lambda>f. map_option (Pair f) (field_entry evidence cur target f)) fs"
  by (induction fs) (auto simp: field_entry_def map_filter_simps Let_def split: option.split prod.split)

lemma loop_patch_get:
  "dict_get (snd (resolve_fields_loop evidence cur target fs)) f
     = (if f \<in> set fs then field_entry evidence cur target f else None)"
  unfolding loop_patch by (induction fs) (auto simp: map_filter_simps dict_get_def split: option.split)

definition supports :: "string \<times> string \<Rightarrow> string \<Rightarrow> pyval \<Rightarrow> source_evidence list \<Rightarrow> bool" where
  "supports target field value items =
     (list_all (\<lambda>x. is_eligible target field x \<and> value_key field (se_value x) = value_key field value) items
      \<and> 2 \<le> length (remdups (map effective_root items))
      \<and> list_ex (\<lambda>x. se_source_kind x \<in> set INTERNAL_PROMOTION_KINDS \<union> set OFFICIAL_KINDS) items)"

lemma field_entry_Some:
  assumes "field_entry evidence cur target field = Some tv"
  shows "\<exists>x\<in>set evidence. tv = target_value field (se_value x) cur \<and>
    supports target field (se_value x) (filter (is_eligible target field) evidence)"
proof -
  let ?el = "filter (is_eligible target field) evidence"
  from assms obtain k support where g: "group_by_value field [] ?el = [(k, support)]"
    by (auto simp: field_entry_def resolve_field_def Let_def split: list.splits)
  note gs = group_single [OF g]
  then have sp: "support = ?el" "?el \<noteq> []" by simp_all
  then have hd: "hd ?el \<in> set evidence" using hd_in_set [of ?el] by auto
  have keys: "value_key field (se_value x) = value_key field (se_value (hd ?el))" if "x \<in> set ?el" for x
    using gs that sp(2) hd_in_set [of ?el] by metis
  have "tv = target_value field (se_value (hd ?el)) cur \<and> 2 \<le> length (remdups (map effective_root ?el))
      \<and> list_ex (\<lambda>x. se_source_kind x \<in> set INTERNAL_PROMOTION_KINDS \<union> set OFFICIAL_KINDS) ?el"
    using assms by (auto simp: field_entry_def resolve_field_def Let_def g sp(1) split: if_splits)
  with hd keys show ?thesis by (auto simp: supports_def list_all_iff)
qed

lemma resolve_fields_patch:
  assumes "resolve_fields c evidence cur [t] = Inr (decisions, patch)"
  shows "canonical_patch c (snd (resolve_fields_loop evidence cur t (evidence_fields evidence))) = Inr patch"
  using assms by (auto simp: resolve_fields_def Let_def split: sum.splits prod.splits)

lemma validate_patch_field_PNone: "validate_patch_field c f PNone = Inr PNone"
  by (simp add: validate_patch_field_def)

lemma resolve_fields_entry:
  assumes r: "resolve_fields c evidence cur [t] = Inr (decisions, patch)" and f: "dict_get patch f = Some v"
  shows "\<exists>x\<in>set evidence. supports t f (se_value x) (filter (is_eligible t f) evidence)
     \<and> validate_patch_field c f (target_value f (se_value x) cur) = Inr v \<and> f \<in> set ALLOWED_PATCH_FIELDS"
proof -
  let ?p = "snd (resolve_fields_loop evidence cur t (evidence_fields evidence))"
  from canonical_patch_get [OF resolve_fields_patch [OF r]] f
  have v: "f \<in> set ALLOWED_PATCH_FIELDS" "v \<noteq> PNone" "validate_patch_field c f (pget ?p f) = Inr v" by auto
  then have "pget ?p f \<noteq> PNone" using validate_patch_field_PNone by (metis sum.inject(2))
  then obtain tv where tv: "field_entry evidence cur t f = Some tv" "pget ?p f = tv"
    by (auto simp: pget_def loop_patch_get split: if_splits option.splits)
  with field_entry_Some [OF tv(1)] v show ?thesis by auto
qed

section \<open>Properties of the resolver\<close>

text \<open>
  Claim C2. A Tier A resolution of \<open>resolve_manifestation\<close> is a proof of identity: every format is
  readable, one checksum-valid ISBN is the only valid ISBN any format carries, it is confirmed by
  authoritative internal content (native text or OCR consensus), and some authoritative structured
  external root with the same ISBN has title, authors and languages that agree with every format.
\<close>

theorem tier_a_is_confirmed:
  assumes "resolve_manifestation c formats evidence cur = Inr r" "mr_tier r = tier_a"
  shows "\<exists>isbn. mr_manifestation_ids r = [(''isbn'', isbn)] \<and> validate_isbn isbn \<noteq> None \<and> formats \<noteq> []
    \<and> (\<forall>f\<in>set formats. fe_status f = readable
         \<and> (\<forall>v. (''isbn'', v) \<in> set (fe_identifiers f) \<and> validate_isbn v \<noteq> None \<longrightarrow> v = isbn))
    \<and> (\<exists>e\<in>set evidence. is_internal_confirmation ''isbn'' isbn e)
    \<and> (\<exists>e\<in>set evidence. is_external_confirmation ''isbn'' isbn e \<and>
         (\<forall>f\<in>set formats. \<forall>field\<in>set core_fields. \<exists>x\<in>set evidence.
            se_authoritative x \<and> effective_root x = effective_root e
            \<and> se_field x = field \<and> value_key field (se_value x) = value_key field (fe_core_value field f)))"
proof -
  from resolve_manifestation_result [OF assms(1)] assms(2) obtain n i d
    where ch: "tier_a_checks formats evidence n i" and r: "r = tier_a_result [(n, i)] d (mr_auto_patch r)"
    by blast
  from ch have ids: "format_ids formats = [(n, i)]" by (simp add: tier_a_checks_def)
  note fi = format_ids_single [OF ids]
  have m: "mr_manifestation_ids r = [(n, i)]" using r by (metis tier_a_result_simps(2))
  have ne: "formats \<noteq> []" using ids by (auto simp: format_ids_def)
  have rd: "\<forall>f\<in>set formats. fe_status f = readable" using ch by (simp add: tier_a_checks_def list_all_iff)
  have int: "\<exists>e\<in>set evidence. is_internal_confirmation n i e"
    using ch by (simp add: tier_a_checks_def list_ex_iff)
  note ext = external_core_matchesD [of formats evidence n i]
  from ch have "external_core_matches formats evidence n i = Inr True"
    "\<not> formats_have_core_conflict formats" "formats_have_complete_core formats" by (simp_all add: tier_a_checks_def)
  note ext = ext [OF this]
  from fi have n: "n = ''isbn''" by simp
  from fi m ne rd int ext show ?thesis unfolding n by blast
qed

text \<open>
  A library record with one readable EPUB, corroborated by its own text and by a catalogue; the
  type coercion accepts values that already have the declared type.
\<close>

definition lax_coerce :: "string \<Rightarrow> pyval \<Rightarrow> pyval option" where
  "lax_coerce field v =
     (if \<not> wf_val v then None
      else if field = ''identifiers'' then
        (case v of PDict d \<Rightarrow> if list_all (\<lambda>(_, x). case x of PStr _ \<Rightarrow> True | _ \<Rightarrow> False) d then Some v else None
         | _ \<Rightarrow> None)
      else if field = ''authors'' \<or> field = ''languages'' then
        (case v of PList xs \<Rightarrow> if list_all (\<lambda>x. case x of PStr _ \<Rightarrow> True | _ \<Rightarrow> False) xs then Some v else None
         | _ \<Rightarrow> None)
      else if field = ''series_index'' then (case v of PFloat _ \<Rightarrow> Some v | PInt i \<Rightarrow> Some (PFloat (show_int i @ ''.0'')) | _ \<Rightarrow> None)
      else (case v of PStr _ \<Rightarrow> Some v | _ \<Rightarrow> None))"

definition demo_evidence :: "string \<Rightarrow> evidence_source_kind \<Rightarrow> bool \<Rightarrow> string \<Rightarrow> pyval \<Rightarrow> source_evidence" where
  "demo_evidence root kind auth field value =
     \<lparr>se_evidence_id = root @ '':'' @ field, se_root_id = root, se_independence_root = None, se_source_kind = kind,
      se_field = field, se_value = value, se_manifestation_ids = [(''isbn'', ''9780306406157'')],
      se_locator = None, se_artifact_sha256 = None, se_source_url = None, se_authoritative = auth\<rparr>"

definition demo_format :: format_evidence where
  "demo_format =
     \<lparr>fe_path = ''/lib/a.epub'', fe_format = ''EPUB'', fe_sha256 = replicate 64 (CHR ''a''), fe_status = readable,
      fe_identifiers = [(''isbn'', ''9780306406157'')], fe_title = Some ''Dune'', fe_authors = [''F. Herbert''],
      fe_languages = [''eng''], fe_evidence_ids = [], fe_error = None\<rparr>"

definition demo_ids :: pyval where
  "demo_ids = PDict [(''isbn'', PStr ''9780306406157'')]"

definition demo_evidences :: "source_evidence list" where
  "demo_evidences =
     [demo_evidence ''epub'' content_native True ''identifiers'' demo_ids,
      demo_evidence ''epub'' content_native True ''title'' (PStr ''Dune''),
      demo_evidence ''loc'' national_library True ''identifiers'' demo_ids,
      demo_evidence ''loc'' national_library True ''title'' (PStr ''DUNE''),
      demo_evidence ''loc'' national_library True ''authors'' (PList [PStr ''F. Herbert'']),
      demo_evidence ''loc'' national_library True ''languages'' (PList [PStr ''eng'']),
      demo_evidence ''gpt'' llm False ''title'' (PStr ''Messiah'')]"

definition demo_current :: pydict where
  "demo_current = [(''title'', PStr ''Doon''), (''identifiers'', PDict [(''goodreads'', PStr ''44'')])]"

definition demo_identity :: manifestation_resolution where
  "demo_identity =
    \<lparr>mr_tier = tier_a, mr_manifestation_ids = [(''isbn'', ''9780306406157'')],
     mr_field_decisions = [(''authors'', \<lparr>fd_field = ''authors'', fd_current_value = PNone,
     fd_resolved_value = PList [PStr ''F. Herbert''], fd_status = fd_review, fd_evidence_ids = [''loc:authors''],
     fd_root_ids = [''loc''],
     fd_reasons = [''field lacks two independent roots including internal or official evidence'']\<rparr>),
     (''identifiers'', \<lparr>fd_field = ''identifiers'', fd_current_value = PDict [(''goodreads'',
     PStr ''44'')], fd_resolved_value = PDict [(''goodreads'', PStr ''44''), (''isbn'', PStr ''9780306406157'')],
     fd_status = fd_auto, fd_evidence_ids = [''epub:identifiers'', ''loc:identifiers''], fd_root_ids = [''epub'',
     ''loc''], fd_reasons = [''two independent roots support the exact manifestation value'']\<rparr>),
     (''languages'', \<lparr>fd_field = ''languages'', fd_current_value = PNone,
     fd_resolved_value = PList [PStr ''eng''], fd_status = fd_review, fd_evidence_ids = [''loc:languages''],
     fd_root_ids = [''loc''],
     fd_reasons = [''field lacks two independent roots including internal or official evidence'']\<rparr>),
     (''title'', \<lparr>fd_field = ''title'', fd_current_value = PStr ''Doon'',
     fd_resolved_value = PStr ''Dune'', fd_status = fd_auto, fd_evidence_ids = [''epub:title'', ''loc:title''],
     fd_root_ids = [''epub'', ''loc''],
     fd_reasons = [''two independent roots support the exact manifestation value'']\<rparr>)],
     mr_auto_patch = [(''title'', PStr ''Dune''), (''identifiers'', PDict [(''goodreads'', PStr ''44''),
     (''isbn'', PStr ''9780306406157'')])], mr_risk_flags = [],
     mr_reasons = [''internal content and a structured external root identify the same manifestation'']\<rparr>"

lemma demo_resolved: "resolve_manifestation lax_coerce [demo_format] demo_evidences demo_current = Inr demo_identity"
  by code_simp

lemma demo_obtain:
  "\<exists>r. resolve_manifestation lax_coerce [demo_format] demo_evidences demo_current = Inr r \<and> mr_tier r = tier_a
     \<and> mr_auto_patch r = [(''title'', PStr ''Dune''),
        (''identifiers'', PDict [(''goodreads'', PStr ''44''), (''isbn'', PStr ''9780306406157'')])]"
  using demo_resolved by (simp add: demo_identity_def)

theorem tier_a_is_confirmed_witness:
  "\<exists>r isbn. resolve_manifestation lax_coerce [demo_format] demo_evidences demo_current = Inr r
     \<and> mr_manifestation_ids r = [(''isbn'', isbn)] \<and> (\<exists>e\<in>set demo_evidences. is_internal_confirmation ''isbn'' isbn e)"
  using demo_obtain tier_a_is_confirmed [of lax_coerce "[demo_format]" demo_evidences demo_current] by metis

text \<open>
  Below Tier A nothing is patched automatically and nothing is even marked automatic: the
  patch is empty, every field decision is \<open>blocked\<close> for Tier C and \<open>review\<close> for Tier B, and exactly
  one risk flag names the reason.
\<close>

theorem below_tier_a_no_patch:
  assumes "resolve_manifestation c formats evidence cur = Inr r" "mr_tier r \<noteq> tier_a"
  shows "mr_auto_patch r = [] \<and> length (mr_risk_flags r) = 1
    \<and> (\<forall>(field, d)\<in>set (mr_field_decisions r). fd_field d = field
         \<and> fd_status d = (if mr_tier r = tier_c then fd_blocked else fd_review))"
proof -
  from resolve_manifestation_result [OF assms(1)] assms(2) have "refuses formats evidence"
    by (metis tier_a_result_simps(1))
  with assms(1) obtain t m f why where "r = non_authoritative_resolution t m f why evidence cur"
    by (auto simp: refuses_def)
  then show ?thesis by (auto simp: non_authoritative_resolution_def Let_def)
qed

theorem below_tier_a_no_patch_witness:
  "\<exists>r. resolve_manifestation lax_coerce [demo_format] [] demo_current = Inr r
     \<and> mr_tier r = tier_b \<and> mr_auto_patch r = []"
proof -
  have t: "map_sum id mr_tier (resolve_manifestation lax_coerce [demo_format] [] demo_current) = Inr tier_b"
    by code_simp
  then obtain r where r: "resolve_manifestation lax_coerce [demo_format] [] demo_current = Inr r" "mr_tier r = tier_b"
    by (cases "resolve_manifestation lax_coerce [demo_format] [] demo_current") auto
  with below_tier_a_no_patch [OF r(1)] show ?thesis by simp
qed

text \<open>
  Claim C3. Every field of the automatic patch rests on independent agreement: all the eligible
  evidence for the field (authoritative, of a promotion kind, bound to the resolved ISBN) has one
  value, comes from at least two different effective roots, and includes an internal or an official
  item. The record being audited (\<open>calibre_current\<close>), LLM, vision and single-engine OCR items are
  never among it.
\<close>

theorem auto_patch_needs_two_roots:
  assumes "resolve_manifestation c formats evidence cur = Inr r" "dict_get (mr_auto_patch r) field = Some v"
  shows "\<exists>isbn x. mr_manifestation_ids r = [(''isbn'', isbn)] \<and> x \<in> set evidence \<and> field \<in> set ALLOWED_PATCH_FIELDS
    \<and> validate_patch_field c field (target_value field (se_value x) cur) = Inr v
    \<and> supports (''isbn'', isbn) field (se_value x) (filter (is_eligible (''isbn'', isbn) field) evidence)
    \<and> (\<forall>y\<in>set (filter (is_eligible (''isbn'', isbn) field) evidence).
         se_source_kind y \<notin> {calibre_current, llm, vision, ocr_observation, calibre_fetch})"
proof -
  from assms(2) have "mr_auto_patch r \<noteq> []" by (auto simp: dict_get_def)
  with resolve_manifestation_result [OF assms(1)] obtain n i d
    where ch: "tier_a_checks formats evidence n i" and rf: "resolve_fields c evidence cur [(n, i)] = Inr (d, mr_auto_patch r)"
      and r: "r = tier_a_result [(n, i)] d (mr_auto_patch r)"
    by blast
  have m: "mr_manifestation_ids r = [(n, i)]" using r by (metis tier_a_result_simps(2))
  from ch have n: "n = ''isbn''" unfolding tier_a_checks_def using format_ids_single by blast
  have k: "\<forall>y\<in>set (filter (is_eligible (n, i) field) evidence).
         se_source_kind y \<notin> {calibre_current, llm, vision, ocr_observation, calibre_fetch}"
    by (auto simp: is_eligible_def INTERNAL_PROMOTION_KINDS_def EXTERNAL_PROMOTION_KINDS_def)
  from resolve_fields_entry [OF rf assms(2)] m k show ?thesis unfolding n by blast
qed

theorem auto_patch_needs_two_roots_witness:
  "\<exists>isbn x. x \<in> set demo_evidences
     \<and> supports (''isbn'', isbn) ''title'' (se_value x) (filter (is_eligible (''isbn'', isbn) ''title'') demo_evidences)"
proof -
  from demo_obtain obtain r where r: "resolve_manifestation lax_coerce [demo_format] demo_evidences demo_current = Inr r"
      "dict_get (mr_auto_patch r) ''title'' = Some (PStr ''Dune'')"
    by (auto simp: dict_get_def)
  from auto_patch_needs_two_roots [OF r] show ?thesis by blast
qed

text \<open>
  The record being audited is not evidence: two runs of \<open>resolve_manifestation\<close> on the same
  formats and evidence return the same tier, identifiers and risk flags whatever the current Calibre
  metadata are.
\<close>

theorem tier_ignores_current_metadata:
  assumes "resolve_manifestation c formats evidence cur = Inr r" "resolve_manifestation c formats evidence cur' = Inr r'"
  shows "mr_tier r = mr_tier r' \<and> mr_manifestation_ids r = mr_manifestation_ids r' \<and> mr_risk_flags r = mr_risk_flags r'"
  using resolve_manifestation_cases [of formats evidence]
proof (elim disjE exE conjE)
  assume "refuses formats evidence"
  with assms show ?thesis by (auto simp: refuses_def)
next
  fix n i
  assume "accepts formats evidence n i"
  with assms show ?thesis by (auto simp: accepts_def split: sum.splits)
qed

theorem tier_ignores_current_metadata_witness:
  "\<exists>r r'. resolve_manifestation lax_coerce [demo_format] demo_evidences demo_current = Inr r
     \<and> resolve_manifestation lax_coerce [demo_format] demo_evidences [] = Inr r' \<and> mr_tier r = mr_tier r'"
proof -
  have "is_ok (resolve_manifestation lax_coerce [demo_format] demo_evidences [])" by code_simp
  then obtain r' where "resolve_manifestation lax_coerce [demo_format] demo_evidences [] = Inr r'"
    by (cases "resolve_manifestation lax_coerce [demo_format] demo_evidences []") auto
  moreover obtain r where "resolve_manifestation lax_coerce [demo_format] demo_evidences demo_current = Inr r"
    using demo_obtain by blast
  ultimately show ?thesis using tier_ignores_current_metadata by blast
qed

lemma filter_auth:
  "(\<And>x. P x \<Longrightarrow> se_authoritative x) \<Longrightarrow> filter P (filter se_authoritative evidence) = filter P evidence"
  by (induction evidence) auto

lemma external_roots_auth:
  "external_roots (filter se_authoritative evidence) n i = external_roots evidence n i"
  unfolding external_roots_def by (subst filter_auth) (simp_all add: is_external_confirmation_def)

lemma root_fields_auth: "root_fields (filter se_authoritative evidence) root = root_fields evidence root"
  unfolding root_fields_def by (subst filter_auth) simp_all

lemma core_auth:
  "external_core_matches formats (filter se_authoritative evidence) n i = external_core_matches formats evidence n i"
  "external_core_conflicts formats (filter se_authoritative evidence) n i = external_core_conflicts formats evidence n i"
  unfolding external_core_matches_def external_core_conflicts_def external_roots_auth root_fields_auth
  by (simp, subst filter_auth, simp_all)

lemma confirmations_auth:
  "list_ex (is_internal_confirmation n i) (filter se_authoritative evidence) = list_ex (is_internal_confirmation n i) evidence"
  "list_ex (is_external_confirmation n i) (filter se_authoritative evidence) = list_ex (is_external_confirmation n i) evidence"
  by (auto simp: list_ex_iff is_internal_confirmation_def is_external_confirmation_def)

lemma field_entry_auth: "field_entry (filter se_authoritative evidence) cur t f = field_entry evidence cur t f"
proof -
  have "filter (is_eligible t f) (filter se_authoritative evidence) = filter (is_eligible t f) evidence"
    by (rule filter_auth) (simp add: is_eligible_def)
  then show ?thesis by (simp only: field_entry_def resolve_field_def)
qed

lemma field_entry_needs_auth:
  "field_entry evidence cur t f \<noteq> None \<Longrightarrow> \<exists>x\<in>set evidence. se_authoritative x \<and> se_field x = f"
proof -
  assume "field_entry evidence cur t f \<noteq> None"
  then obtain v where "supports t f v (filter (is_eligible t f) evidence)" using field_entry_Some by blast
  then obtain x where "x \<in> set (filter (is_eligible t f) evidence)" by (auto simp: supports_def list_ex_iff)
  then show ?thesis by (auto simp: is_eligible_def)
qed

lemma map_filter_filter:
  "(\<And>x. f x \<noteq> None \<Longrightarrow> P x) \<Longrightarrow> List.map_filter f (filter P xs) = List.map_filter f xs"
  by (induction xs) (auto simp: map_filter_simps split: option.split)

lemma loop_patch_auth:
  "snd (resolve_fields_loop (filter se_authoritative evidence) cur t (evidence_fields (filter se_authoritative evidence)))
     = snd (resolve_fields_loop evidence cur t (evidence_fields evidence))"
proof -
  let ?P = "\<lambda>f. \<exists>x\<in>set evidence. se_authoritative x \<and> se_field x = f"
  let ?g = "\<lambda>f. map_option (Pair f) (field_entry evidence cur t f)"
  have "evidence_fields (filter se_authoritative evidence) = filter ?P (evidence_fields evidence)"
  proof (rule sorted_distinct_set_unique)
    show "set (evidence_fields (filter se_authoritative evidence)) = set (filter ?P (evidence_fields evidence))"
      by (auto simp: evidence_fields_def image_iff)
  qed (auto simp: evidence_fields_def sorted_wrt_filter)
  moreover have "List.map_filter ?g (filter ?P (evidence_fields evidence)) = List.map_filter ?g (evidence_fields evidence)"
    by (rule map_filter_filter) (use field_entry_needs_auth in auto)
  ultimately show ?thesis by (simp add: loop_patch field_entry_auth)
qed

abbreviation resolution_view :: "manifestation_resolution \<Rightarrow> identity_tier \<times> string dict \<times> string list \<times> pydict" where
  "resolution_view r \<equiv> (mr_tier r, mr_manifestation_ids r, mr_risk_flags r, mr_auto_patch r)"

lemma confirmed_view:
  "map_sum id resolution_view (confirmed_resolution c evidence cur [t])
     = map_sum id (\<lambda>p. (tier_a, [t], [], p))
         (canonical_patch c (snd (resolve_fields_loop evidence cur t (evidence_fields evidence))))"
  by (cases "resolve_fields_loop evidence cur t (evidence_fields evidence)")
    (auto simp: confirmed_resolution_def resolve_fields_def split: sum.split)

lemma confirmed_auth:
  "map_sum id resolution_view (confirmed_resolution c (filter se_authoritative evidence) cur [t])
     = map_sum id resolution_view (confirmed_resolution c evidence cur [t])"
  by (simp only: confirmed_view loop_patch_auth)

text \<open>
  Claim C12. Evidence not marked authoritative is context only: removing every such item leaves the
  tier, the identifiers, the risk flags and the automatic patch of \<open>resolve_manifestation\<close> as they
  are, and it fails on the filtered evidence exactly when it fails on all of it.
\<close>

theorem non_authoritative_evidence_is_inert:
  "map_sum id (\<lambda>r. (mr_tier r, mr_manifestation_ids r, mr_risk_flags r, mr_auto_patch r))
     (resolve_manifestation c formats (filter se_authoritative evidence) cur)
   = map_sum id (\<lambda>r. (mr_tier r, mr_manifestation_ids r, mr_risk_flags r, mr_auto_patch r))
     (resolve_manifestation c formats evidence cur)"
  unfolding resolve_manifestation_def Let_def confirmations_auth core_auth
  by (simp add: confirmed_auth split: list.split sum.split bool.split)

definition current_identifiers :: "pydict \<Rightarrow> string dict" where
  "current_identifiers cur =
     (case dict_get cur ''identifiers'' of Some (PDict c) \<Rightarrow> normalize_identifiers (str_items c) | _ \<Rightarrow> [])"

lemma current_identifiers_normal:
  "list_all normal_pair (current_identifiers cur)" "distinct (map fst (current_identifiers cur))"
  by (simp_all add: current_identifiers_def normal_normalize_identifiers split: option.split pyval.split)

lemma target_value_identifiers:
  "target_value ''identifiers'' (PDict d) cur =
     str_dict_val (dict_update (current_identifiers cur) (normalize_identifiers (str_items d)))"
  by (simp add: target_value_def current_identifiers_def Let_def)

lemma target_value_not_dict: "(\<And>d. v \<noteq> PDict d) \<Longrightarrow> target_value f v cur = v"
  by (auto simp: target_value_def split: bool.split pyval.split)

lemma validate_identifiers_normal:
  assumes "list_all normal_pair m" "distinct (map fst m)" "c ''identifiers'' (str_dict_val m) = Some (str_dict_val m)"
  shows "validate_patch_field c ''identifiers'' (str_dict_val m) = Inr (str_dict_val m)"
proof -
  have "canonical_patch_identifiers (str_dict_val m) = Inr (str_dict_val m)"
    using normalize_identifiers_normal [OF assms(1,2)]
    by (simp add: canonical_patch_identifiers_def str_dict_val_def)
  with assms(3) show ?thesis by (simp add: validate_patch_field_def str_dict_val_def)
qed

text \<open>
  An automatic identifier patch changes only the namespaces the evidence observes: the
  patched dict maps every namespace to the normalised value of one evidence item if it has one, and
  otherwise to the normalised current Calibre value, so no unrelated identifier is lost. The type
  coercion is assumed to keep string dicts as they are and to refuse values that are no dicts.
\<close>

theorem identifier_patch_keeps_other_namespaces:
  assumes "resolve_manifestation c formats evidence cur = Inr r"
    and "dict_get (mr_auto_patch r) ''identifiers'' = Some v"
    and keep: "\<And>d. distinct (map fst d) \<Longrightarrow> c ''identifiers'' (str_dict_val d) = Some (str_dict_val d)"
    and refuse: "\<And>w. (\<And>d. w \<noteq> PDict d) \<Longrightarrow> c ''identifiers'' w = None"
  shows "\<exists>x\<in>set evidence. \<exists>d merged. se_value x = PDict d \<and> v = str_dict_val merged \<and> distinct (map fst merged) \<and>
    (\<forall>ns. dict_get merged ns =
       (case dict_get (normalize_identifiers (str_items d)) ns of Some y \<Rightarrow> Some y
        | None \<Rightarrow> dict_get (current_identifiers cur) ns))"
proof -
  from assms(2) have "mr_auto_patch r \<noteq> []" by (auto simp: dict_get_def)
  with resolve_manifestation_result [OF assms(1)] obtain t d
    where rf: "resolve_fields c evidence cur [t] = Inr (d, mr_auto_patch r)"
    by blast
  from resolve_fields_entry [OF rf assms(2)] obtain x where x: "x \<in> set evidence"
      "validate_patch_field c ''identifiers'' (target_value ''identifiers'' (se_value x) cur) = Inr v" by blast
  have "v \<noteq> PNone" using canonical_patch_get [OF resolve_fields_patch [OF rf]] assms(2) by blast
  have "\<exists>d. se_value x = PDict d"
  proof (rule ccontr)
    assume nd: "\<not> (\<exists>d. se_value x = PDict d)"
    then have "c ''identifiers'' (se_value x) = None" using refuse by blast
    with nd x(2) \<open>v \<noteq> PNone\<close> show False
      by (auto simp: target_value_not_dict validate_patch_field_def split: if_splits)
  qed
  then obtain d where d: "se_value x = PDict d" ..
  let ?obs = "normalize_identifiers (str_items d)"
  let ?m = "dict_update (current_identifiers cur) ?obs"
  have m: "list_all normal_pair ?m" "distinct (map fst ?m)"
    using current_identifiers_normal [of cur] by (simp_all add: normal_dict_update normal_normalize_identifiers distinct_dict_update)
  have "v = str_dict_val ?m"
    using x(2) validate_identifiers_normal [OF m, of c, OF keep [OF m(2)]] by (simp add: d target_value_identifiers)
  with x(1) d m(2) show ?thesis by (metis dict_get_update distinct_normalize_identifiers)
qed

lemma wf_str_dict: "distinct (map fst d) \<Longrightarrow> wf_val (str_dict_val d)"
  by (auto simp: str_dict_val_def list_all_iff comp_def case_prod_unfold)

lemma lax_keeps_str_dicts: "distinct (map fst d) \<Longrightarrow> lax_coerce ''identifiers'' (str_dict_val d) = Some (str_dict_val d)"
  using wf_str_dict by (auto simp: lax_coerce_def str_dict_val_def list_all_iff)

lemma lax_refuses_others: "(\<And>d. w \<noteq> PDict d) \<Longrightarrow> lax_coerce ''identifiers'' w = None"
  by (cases w) (auto simp: lax_coerce_def)

theorem identifier_patch_keeps_other_namespaces_witness:
  "\<exists>r merged. resolve_manifestation lax_coerce [demo_format] demo_evidences demo_current = Inr r
     \<and> dict_get (mr_auto_patch r) ''identifiers'' = Some (str_dict_val merged)
     \<and> (\<exists>d. dict_get merged ''goodreads'' =
       (case dict_get (normalize_identifiers (str_items d)) ''goodreads'' of Some y \<Rightarrow> Some y
        | None \<Rightarrow> dict_get (current_identifiers demo_current) ''goodreads''))"
proof -
  from demo_obtain obtain r v where r: "resolve_manifestation lax_coerce [demo_format] demo_evidences demo_current = Inr r"
      "dict_get (mr_auto_patch r) ''identifiers'' = Some v"
    by (auto simp: dict_get_def)
  from identifier_patch_keeps_other_namespaces [OF r lax_keeps_str_dicts lax_refuses_others] r show ?thesis by blast
qed

definition llm_language_item :: source_evidence where
  "llm_language_item = demo_evidence ''loc'' llm True ''languages'' (PList [PStr ''eng''])"

definition no_language_evidences :: "source_evidence list" where
  "no_language_evidences = filter (\<lambda>x. se_field x \<noteq> ''languages'') demo_evidences"

lemma tier_a_checks_accepts:
  assumes "tier_a_checks formats evidence n i" shows "accepts formats evidence n i"
proof -
  have rd: "filter (\<lambda>item. fe_status item = readable) formats = formats"
    using assms by (simp add: tier_a_checks_def filter_id_conv list_all_iff)
  with assms show ?thesis
    by (simp add: accepts_def tier_a_checks_def resolve_manifestation_def Let_def confirmed_resolution_def tier_a_result_def split: sum.split)
qed

lemma external_roots_snoc:
  "se_source_kind item \<notin> set EXTERNAL_PROMOTION_KINDS \<Longrightarrow> external_roots (evidence @ [item]) n i = external_roots evidence n i"
  by (simp add: external_roots_def is_external_confirmation_def)

lemma external_core_conflicts_snoc:
  "se_source_kind item \<notin> set EXTERNAL_PROMOTION_KINDS \<Longrightarrow>
     external_core_conflicts formats (evidence @ [item]) n i = external_core_conflicts formats evidence n i"
  by (simp add: external_core_conflicts_def external_roots_snoc split: list.split)

lemma dict_update_snoc: "dict_update d (ps @ [(k, v)]) = dict_set k v (dict_update d ps)"
  by (induction d ps rule: dict_update.induct) simp_all

lemma root_fields_snoc:
  assumes "se_authoritative item" "effective_root item = root" "se_field item \<in> set core_fields"
  shows "root_fields (evidence @ [item]) root = dict_set (se_field item) (value_key (se_field item) (se_value item)) (root_fields evidence root)"
  using assms by (simp add: root_fields_def dict_update_snoc)

text \<open>The checks before the comparison with the external roots, all passed.\<close>

definition awaits_core :: "format_evidence list \<Rightarrow> source_evidence list \<Rightarrow> string \<Rightarrow> string \<Rightarrow> bool" where
  "awaits_core formats evidence namespace identifier =
     (list_all (\<lambda>item. fe_status item = readable) formats \<and> format_ids formats = [(namespace, identifier)]
      \<and> list_ex (is_internal_confirmation namespace identifier) evidence
      \<and> list_ex (is_external_confirmation namespace identifier) evidence
      \<and> \<not> formats_have_core_conflict formats \<and> formats_have_complete_core formats
      \<and> external_core_conflicts formats evidence namespace identifier = Inr False)"

text \<open>
  Claim C15. The module promises that LLM and vision observations never satisfy a Tier A requirement, but
  \<open>_external_core_matches\<close> checks the source kind only of the item that carries the identifier: take any evidence that passes
  every other check and whose external roots all lack one core field (title, authors or languages), which one of them would need
  to agree with the format. It resolves to Tier B. Any LLM or vision item that is marked authoritative, shares the effective root
  and gives the missing field turns the same evidence into Tier A, and its fields are resolved for an automatic patch.
\<close>

theorem llm_item_can_complete_tier_a:
  assumes pass: "awaits_core (first # formats) evidence n i"
    and lacks: "\<And>root. root \<in> set (external_roots evidence n i) \<Longrightarrow> dict_get (root_fields evidence root) field = None"
    and root: "root \<in> set (external_roots evidence n i)"
      "\<And>f. f \<in> set core_fields \<Longrightarrow> f \<noteq> field \<Longrightarrow> dict_get (root_fields evidence root) f = dict_get (expected_core first) f"
    and item: "se_source_kind item \<in> {llm, vision}" "se_authoritative item" "effective_root item = root" "se_field item = field"
      "field \<in> set core_fields" "dict_get (expected_core first) field = Some (value_key field (se_value item))"
  shows "map_sum id mr_tier (resolve_manifestation coerce (first # formats) evidence cur) = Inr tier_b
    \<and> map_sum id mr_tier (resolve_manifestation coerce (first # formats) (evidence @ [item]) cur)
      = map_sum id (\<lambda>_. tier_a) (resolve_fields coerce (evidence @ [item]) cur [(n, i)])"
proof
  have rd: "filter (\<lambda>item. fe_status item = readable) (first # formats) = first # formats"
    using pass by (auto simp: awaits_core_def list_all_iff intro: filter_True)
  have lacking: "external_core_matches (first # formats) evidence n i = Inr False"
    using lacks item(5,6) by (fastforce simp: external_core_matches_def list_ex_iff list_all_iff intro!: bexI [of _ field])
  from pass rd lacking show "map_sum id mr_tier (resolve_manifestation coerce (first # formats) evidence cur) = Inr tier_b"
    by (simp add: resolve_manifestation_def Let_def awaits_core_def non_authoritative_resolution_def del: filter.simps)
  have kind: "se_source_kind item \<notin> set EXTERNAL_PROMOTION_KINDS" using item(1) by (auto simp: EXTERNAL_PROMOTION_KINDS_def)
  have "external_core_matches (first # formats) (evidence @ [item]) n i = Inr True"
    using root item by (auto simp: external_core_matches_def external_roots_snoc [OF kind] root_fields_snoc list_ex_iff list_all_iff dict_get_set
        intro!: bexI [of _ root])
  with pass have "tier_a_checks (first # formats) (evidence @ [item]) n i"
    by (simp add: awaits_core_def tier_a_checks_def external_core_conflicts_snoc [OF kind])
  from tier_a_checks_accepts [OF this]
  show "map_sum id mr_tier (resolve_manifestation coerce (first # formats) (evidence @ [item]) cur)
      = map_sum id (\<lambda>_. tier_a) (resolve_fields coerce (evidence @ [item]) cur [(n, i)])"
    by (auto simp: accepts_def split: sum.split)
qed

lemma no_language_root: "set (external_roots no_language_evidences ''isbn'' ''9780306406157'') = {''loc''}"
  by code_simp

theorem llm_item_can_complete_tier_a_witness:
  "map_sum id mr_tier (resolve_manifestation lax_coerce [demo_format] no_language_evidences demo_current) = Inr tier_b
   \<and> map_sum id mr_tier (resolve_manifestation lax_coerce [demo_format] (no_language_evidences @ [llm_language_item]) demo_current) = Inr tier_a"
proof -
  have checks: "awaits_core [demo_format] no_language_evidences ''isbn'' ''9780306406157''"
      "dict_get (root_fields no_language_evidences ''loc'') ''languages'' = None"
      "dict_get (root_fields no_language_evidences ''loc'') ''title'' = dict_get (expected_core demo_format) ''title''"
      "dict_get (root_fields no_language_evidences ''loc'') ''authors'' = dict_get (expected_core demo_format) ''authors''"
      "se_source_kind llm_language_item = llm" "se_authoritative llm_language_item" "effective_root llm_language_item = ''loc''"
      "se_field llm_language_item = ''languages''"
      "dict_get (expected_core demo_format) ''languages'' = Some (value_key ''languages'' (se_value llm_language_item))"
      "map_sum id (\<lambda>_. ()) (resolve_fields lax_coerce (no_language_evidences @ [llm_language_item]) demo_current [(''isbn'', ''9780306406157'')]) = Inr ()"
    by code_simp+
  have core: "dict_get (root_fields no_language_evidences ''loc'') f = dict_get (expected_core demo_format) f"
    if "f \<in> set core_fields" "f \<noteq> ''languages''" for f
    using that checks(3,4) by (auto simp: core_fields_def)
  have lacks: "dict_get (root_fields no_language_evidences root) ''languages'' = None"
    if "root \<in> set (external_roots no_language_evidences ''isbn'' ''9780306406157'')" for root
    using that checks(2) unfolding no_language_root by simp
  obtain y where y: "resolve_fields lax_coerce (no_language_evidences @ [llm_language_item]) demo_current [(''isbn'', ''9780306406157'')] = Inr y"
    using checks(10) by (cases "resolve_fields lax_coerce (no_language_evidences @ [llm_language_item]) demo_current [(''isbn'', ''9780306406157'')]") simp_all
  have loc: "''loc'' \<in> set (external_roots no_language_evidences ''isbn'' ''9780306406157'')" by (simp add: no_language_root)
  have "map_sum id mr_tier (resolve_manifestation lax_coerce [demo_format] no_language_evidences demo_current) = Inr tier_b
      \<and> map_sum id mr_tier (resolve_manifestation lax_coerce [demo_format] (no_language_evidences @ [llm_language_item]) demo_current)
        = map_sum id (\<lambda>_. tier_a) (resolve_fields lax_coerce (no_language_evidences @ [llm_language_item]) demo_current [(''isbn'', ''9780306406157'')])"
  proof (rule llm_item_can_complete_tier_a [OF checks(1)])
    show "\<And>root. root \<in> set (external_roots no_language_evidences ''isbn'' ''9780306406157'') \<Longrightarrow>
        dict_get (root_fields no_language_evidences root) ''languages'' = None" by (fact lacks)
    show "\<And>f. f \<in> set core_fields \<Longrightarrow> f \<noteq> ''languages'' \<Longrightarrow>
        dict_get (root_fields no_language_evidences ''loc'') f = dict_get (expected_core demo_format) f" by (fact core)
  qed (use loc checks in \<open>simp_all add: core_fields_def\<close>)
  then show ?thesis by (simp only: y map_sum.simps)
qed

end
