(* ===== verification/PyPath.thy ===== *)
theory PyPath
  imports PyStr
begin

text \<open>
  The parts of \<open>os.path\<close> and \<open>pathlib\<close> the code relies on, for POSIX paths: \<open>normpath\<close>, \<open>abspath\<close> with
  the working directory as an argument, \<open>Path.is_relative_to\<close> on normalised absolute paths and the
  suffix of the final component.
\<close>

text \<open>The component loop of \<open>posixpath.normpath\<close>; the components so far are kept in reverse.\<close>

fun norm_comps :: "bool \<Rightarrow> string list \<Rightarrow> string list \<Rightarrow> string list" where
  "norm_comps rooted acc [] = rev acc"
| "norm_comps rooted acc (c # cs) =
     (if c = [] \<or> c = ''.'' then norm_comps rooted acc cs
      else if c \<noteq> ''..'' \<or> (\<not> rooted \<and> acc = []) \<or> (acc \<noteq> [] \<and> hd acc = ''..'')
        then norm_comps rooted (c # acc) cs
      else (case acc of [] \<Rightarrow> norm_comps rooted [] cs | _ # rest \<Rightarrow> norm_comps rooted rest cs))"

definition leading_slashes :: "string \<Rightarrow> nat" where
  "leading_slashes p =
     (if py_startswith p ''///'' then 1 else if py_startswith p ''//'' then 2
      else if py_startswith p ''/'' then 1 else 0)"

definition normpath :: "string \<Rightarrow> string" where
  "normpath p =
     (if p = [] then ''.''
      else (let n = leading_slashes p;
                body = replicate n (CHR ''/'') @ py_join ''/'' (norm_comps (0 < n) [] (py_split (CHR ''/'') p))
            in if body = [] then ''.'' else body))"

definition is_absolute :: "string \<Rightarrow> bool" where
  "is_absolute p = py_startswith p ''/''"

definition path_join :: "string \<Rightarrow> string \<Rightarrow> string" where
  "path_join a b =
     (if is_absolute b then b
      else if a = [] \<or> last a = CHR ''/'' then a @ b
      else a @ ''/'' @ b)"

text \<open>\<open>str(Path(os.path.normpath(os.path.abspath(p))))\<close>\<close>

definition canonical_path :: "string \<Rightarrow> string \<Rightarrow> string" where
  "canonical_path cwd p = normpath (path_join cwd p)"

text \<open>\<open>Path(p).parts\<close> of a normalised absolute path: the root, then the components.\<close>

definition path_parts :: "string \<Rightarrow> nat \<times> string list" where
  "path_parts p = (leading_slashes p, filter (\<lambda>c. c \<noteq> []) (py_split (CHR ''/'') p))"

definition is_relative_to :: "string \<Rightarrow> string \<Rightarrow> bool" where
  "is_relative_to p root =
     (let (n, cs) = path_parts p; (m, rs) = path_parts root
      in n = m \<and> take (length rs) cs = rs)"

definition path_name :: "string \<Rightarrow> string" where
  "path_name p = (let cs = snd (path_parts p) in if cs = [] then [] else last cs)"

text \<open>\<open>Path(p).suffix\<close>: from the last dot of the name, unless it is the first or the last character.\<close>

definition path_suffix :: "string \<Rightarrow> string" where
  "path_suffix p =
     (let name = path_name p;
          ext = takeWhile (\<lambda>c. c \<noteq> CHR ''.'') (rev name);
          stem = drop (Suc (length ext)) (rev name)
      in if CHR ''.'' \<in> set name \<and> ext \<noteq> [] \<and> stem \<noteq> [] then CHR ''.'' # rev ext else [])"

definition path_parent :: "string \<Rightarrow> string" where
  "path_parent p =
     (let (n, cs) = path_parts p in replicate n (CHR ''/'') @ py_join ''/'' (butlast cs))"

section \<open>Lemmas\<close>

lemma norm_comps_no_dotdot:
  assumes "rooted" "''..'' \<notin> set acc" "list_all (\<lambda>c. c \<noteq> [] \<and> c \<noteq> ''.'') acc"
  shows "''..'' \<notin> set (norm_comps rooted acc cs) \<and> list_all (\<lambda>c. c \<noteq> [] \<and> c \<noteq> ''.'') (norm_comps rooted acc cs)"
  using assms
proof (induction rooted acc cs rule: norm_comps.induct)
  case (2 rooted acc c cs)
  then show ?case
    by (cases acc) (auto split: if_splits)
qed (simp add: list_all_iff)

lemma split_no_sep: "w \<in> set (py_split c s) \<Longrightarrow> c \<notin> set w"
  by (induction c s arbitrary: w rule: py_split.induct) (auto split: if_splits list.splits)

lemma norm_comps_no_sep:
  "(\<forall>w\<in>set acc. c \<notin> set w) \<Longrightarrow> (\<forall>w\<in>set cs. c \<notin> set w) \<Longrightarrow> w \<in> set (norm_comps rooted acc cs) \<Longrightarrow> c \<notin> set w"
proof (induction rooted acc cs rule: norm_comps.induct)
  case (2 rooted acc d ds)
  then show ?case by (cases acc) (auto split: if_splits)
qed simp

lemma split_join:
  assumes "ws \<noteq> []" "\<forall>w\<in>set ws. c \<notin> set w"
  shows "py_split c (py_join [c] ws) = ws"
proof -
  have app: "c \<notin> set w \<Longrightarrow> py_split c (w @ c # s) = w # py_split c s" for w s
    by (induction w) (auto split: list.splits)
  have single: "c \<notin> set w \<Longrightarrow> py_split c w = [w]" for w
    by (induction w) (auto split: list.splits)
  show ?thesis using assms
    by (induction "[c]" ws rule: py_join.induct) (auto simp: app single)
qed

end
