(* ===== verification/Verdict.thy ===== *)
theory Verdict
  imports PyVal
begin

text \<open>
  The aggregated verdict of a book (src/src/calibre\_ai\_auditor/verification/verdict.py) and the
  conservative auto-apply gate (class ConservativeAutoApply of verification/restore.py). The nested
  per-field verdicts are held as their JSON values: the gate and the hash only pass them on.
\<close>

datatype verdict_action = no_change | suggest_fix | needs_review | defer_action

definition action_text :: "verdict_action \<Rightarrow> string" where
  "action_text a = (case a of no_change \<Rightarrow> ''no_change'' | suggest_fix \<Rightarrow> ''suggest_fix''
     | needs_review \<Rightarrow> ''needs_review'' | defer_action \<Rightarrow> ''defer'')"

record book_verdict =
  vd_book_key :: string
  vd_run_id :: string
  vd_field_verdicts :: pydict
  vd_overall_confidence :: int
  vd_risk_flags :: "string list"
  vd_action :: verdict_action
  vd_auto_apply_eligible :: bool
  vd_proposed_patch :: pydict
  vd_reasons :: "string list"

definition HIGH_RISK_FLAGS :: "string list" where
  "HIGH_RISK_FLAGS =
     [''author_swap'', ''isbn_conflict'', ''edition_ambiguous'', ''cover_mismatch'', ''wrong_book'',
      ''series_mismatch'', ''publisher_mismatch'']"

text \<open>\<open>verdict.model_dump(mode="json", exclude={"created_at"})\<close>\<close>

definition dump_verdict :: "book_verdict \<Rightarrow> pyval" where
  "dump_verdict v = PDict
     [(''book_key'', PStr (vd_book_key v)), (''run_id'', PStr (vd_run_id v)),
      (''field_verdicts'', PDict (vd_field_verdicts v)), (''overall_confidence'', PInt (vd_overall_confidence v)),
      (''risk_flags'', PList (map PStr (vd_risk_flags v))), (''action'', PStr (action_text (vd_action v))),
      (''auto_apply_eligible'', PBool (vd_auto_apply_eligible v)),
      (''proposed_patch'', PDict (vd_proposed_patch v)), (''reasons'', PList (map PStr (vd_reasons v)))]"

definition gate_is_eligible :: "bool \<Rightarrow> book_verdict \<Rightarrow> bool \<times> string" where
  "gate_is_eligible allow_high_risk v =
     (if \<not> vd_auto_apply_eligible v then
        (False, ''BookVerdict.auto_apply_eligible=False (action='' @ action_text (vd_action v) @ '')'')
      else if \<not> allow_high_risk \<and> vd_risk_flags v \<noteq> [] \<and> list_ex (\<lambda>rf. rf \<in> set HIGH_RISK_FLAGS) (vd_risk_flags v) then
        (False, ''High-risk flag present: ''
           @ py_repr (PList (map PStr (filter (\<lambda>f. f \<in> set HIGH_RISK_FLAGS) (vd_risk_flags v)))))
      else if vd_overall_confidence v < 80 then
        (False, ''Overall confidence '' @ show_int (vd_overall_confidence v) @ '' < 80'')
      else if vd_proposed_patch v = [] then (False, ''No proposed patch'')
      else (True, ''ok''))"

definition filter_eligible :: "bool \<Rightarrow> book_verdict list \<Rightarrow> book_verdict list" where
  "filter_eligible allow_high_risk vs = filter (\<lambda>v. fst (gate_is_eligible allow_high_risk v)) vs"

text \<open>
  The conservative gate admits a verdict exactly when it is marked eligible, carries a
  non-empty patch, has confidence of at least 80 and, unless high risk is explicitly allowed, no
  high-risk flag; and \<open>filter_eligible\<close> keeps exactly those verdicts.
\<close>

theorem gate_is_conservative:
  "(fst (gate_is_eligible hr v) \<longleftrightarrow>
      vd_auto_apply_eligible v \<and> 80 \<le> vd_overall_confidence v \<and> vd_proposed_patch v \<noteq> []
      \<and> (hr \<or> set (vd_risk_flags v) \<inter> set HIGH_RISK_FLAGS = {}))
   \<and> (v \<in> set (filter_eligible hr vs) \<longleftrightarrow> v \<in> set vs \<and> fst (gate_is_eligible hr v))"
  by (auto simp: gate_is_eligible_def filter_eligible_def list_ex_iff)

end
