(* ===== verification/Evidence.thy ===== *)
theory Evidence
  imports IdentityV2 PyPath Verdict
begin

text \<open>
  Sealed evidence packages (src/src/calibre\_ai\_auditor/verification/pipeline\_v2.py): the source
  descriptor, the book snapshot with its hash, the package with its internal invariants, its seal,
  and the JSON dumps of the pydantic models that the hashes are taken of. SHA-256, the type coercion
  of pydantic, its parsing of stored packages and verdicts, and the working directory are the fields
  of \<open>env\<close>.
\<close>

datatype audit_state =
    bs_pending | bs_snapshotting | bs_extracting | bs_resolving | bs_decided | bs_shadowed | bs_applying
  | bs_verified | bs_review | bs_deferred | bs_failed | bs_source_changed | bs_blocked_recovery

datatype source_kind_desc = calibre_content_server | offline_calibre_snapshot

record book_source =
  src_kind :: source_kind_desc
  src_fingerprint :: string

record book_snapshot =
  sn_book_key :: string
  sn_calibre_book_id :: int
  sn_current_metadata :: pydict
  sn_files :: "string list"
  sn_library_root :: "string option"
  sn_source :: "book_source option"
  sn_source_revision_sha256 :: "string option"
  sn_snapshot_sha256 :: string

record evidence_package_v2 =
  pk_evidence_id :: string
  pk_run_id :: string
  pk_book_key :: string
  pk_created_at :: string
  pk_state :: audit_state
  pk_snapshot :: book_snapshot
  pk_formats :: "format_evidence list"
  pk_source_evidence :: "source_evidence list"
  pk_identity :: manifestation_resolution
  pk_privacy_receipts :: "pyval list"
  pk_warnings :: "string list"
  pk_error :: "string option"
  pk_package_sha256 :: "string option"

section \<open>Validators\<close>

definition validate_fingerprint :: "string \<Rightarrow> string res" where
  "validate_fingerprint value =
     (let canonical = py_lower (py_strip value) in
      if length canonical \<noteq> 64 \<or> \<not> list_all is_hex_lower canonical
      then Inl (ValueError ''source fingerprint must be a lowercase SHA-256 digest'')
      else Inr canonical)"

definition validate_source_revision :: "string option \<Rightarrow> string option res" where
  "validate_source_revision value =
     (case value of
        None \<Rightarrow> Inr None
      | Some v \<Rightarrow>
          (let canonical = py_lower (py_strip v) in
           if length canonical \<noteq> 64 \<or> \<not> list_all is_hex_lower canonical
           then Inl (ValueError ''source revision must be a lowercase SHA-256 digest'')
           else Inr (Some canonical)))"

section \<open>JSON dumps\<close>

definition opt_str :: "string option \<Rightarrow> pyval" where
  "opt_str s = (case s of Some t \<Rightarrow> PStr t | None \<Rightarrow> PNone)"

definition str_list :: "string list \<Rightarrow> pyval" where
  "str_list xs = PList (map PStr xs)"

definition tier_text :: "identity_tier \<Rightarrow> string" where
  "tier_text t = (case t of tier_a \<Rightarrow> ''A'' | tier_b \<Rightarrow> ''B'' | tier_c \<Rightarrow> ''C'')"

definition kind_text :: "evidence_source_kind \<Rightarrow> string" where
  "kind_text k = (case k of
      calibre_current \<Rightarrow> ''calibre_current'' | embedded_metadata \<Rightarrow> ''embedded_metadata''
    | content_native \<Rightarrow> ''content_native'' | ocr_observation \<Rightarrow> ''ocr_observation''
    | ocr_consensus \<Rightarrow> ''ocr_consensus'' | vision \<Rightarrow> ''vision'' | provider_structured \<Rightarrow> ''provider_structured''
    | official_page \<Rightarrow> ''official_page'' | national_library \<Rightarrow> ''national_library''
    | calibre_fetch \<Rightarrow> ''calibre_fetch'' | llm \<Rightarrow> ''llm'')"

definition format_status_text :: "format_evidence_status \<Rightarrow> string" where
  "format_status_text s = (case s of readable \<Rightarrow> ''readable'' | unsupported \<Rightarrow> ''unsupported'' | drm \<Rightarrow> ''drm''
    | corrupt \<Rightarrow> ''corrupt'' | fe_status_error \<Rightarrow> ''error'')"

definition decision_status_text :: "field_decision_status \<Rightarrow> string" where
  "decision_status_text s = (case s of fd_unchanged \<Rightarrow> ''unchanged'' | fd_auto \<Rightarrow> ''auto'' | fd_review \<Rightarrow> ''review''
    | fd_blocked \<Rightarrow> ''blocked'')"

definition state_text :: "audit_state \<Rightarrow> string" where
  "state_text s = (case s of bs_pending \<Rightarrow> ''pending'' | bs_snapshotting \<Rightarrow> ''snapshotting''
    | bs_extracting \<Rightarrow> ''extracting'' | bs_resolving \<Rightarrow> ''resolving'' | bs_decided \<Rightarrow> ''decided''
    | bs_shadowed \<Rightarrow> ''shadowed'' | bs_applying \<Rightarrow> ''applying'' | bs_verified \<Rightarrow> ''verified'' | bs_review \<Rightarrow> ''review''
    | bs_deferred \<Rightarrow> ''deferred'' | bs_failed \<Rightarrow> ''failed'' | bs_source_changed \<Rightarrow> ''source_changed''
    | bs_blocked_recovery \<Rightarrow> ''blocked_recovery'')"

definition dump_format :: "format_evidence \<Rightarrow> pyval" where
  "dump_format f = PDict
     [(''path'', PStr (fe_path f)), (''format'', PStr (fe_format f)), (''sha256'', PStr (fe_sha256 f)),
      (''status'', PStr (format_status_text (fe_status f))), (''identifiers'', str_dict_val (fe_identifiers f)),
      (''title'', opt_str (fe_title f)), (''authors'', str_list (fe_authors f)),
      (''languages'', str_list (fe_languages f)), (''evidence_ids'', str_list (fe_evidence_ids f)),
      (''error'', opt_str (fe_error f))]"

definition dump_source_evidence :: "source_evidence \<Rightarrow> pyval" where
  "dump_source_evidence e = PDict
     [(''evidence_id'', PStr (se_evidence_id e)), (''root_id'', PStr (se_root_id e)),
      (''independence_root'', opt_str (se_independence_root e)), (''source_kind'', PStr (kind_text (se_source_kind e))),
      (''field'', PStr (se_field e)), (''value'', se_value e),
      (''manifestation_ids'', str_dict_val (se_manifestation_ids e)), (''locator'', opt_str (se_locator e)),
      (''artifact_sha256'', opt_str (se_artifact_sha256 e)), (''source_url'', opt_str (se_source_url e)),
      (''authoritative'', PBool (se_authoritative e))]"

definition dump_decision :: "field_decision \<Rightarrow> pyval" where
  "dump_decision d = PDict
     [(''field'', PStr (fd_field d)), (''current_value'', fd_current_value d),
      (''resolved_value'', fd_resolved_value d), (''status'', PStr (decision_status_text (fd_status d))),
      (''evidence_ids'', str_list (fd_evidence_ids d)), (''root_ids'', str_list (fd_root_ids d)),
      (''reasons'', str_list (fd_reasons d))]"

definition dump_identity :: "manifestation_resolution \<Rightarrow> pydict" where
  "dump_identity r =
     [(''tier'', PStr (tier_text (mr_tier r))), (''manifestation_ids'', str_dict_val (mr_manifestation_ids r)),
      (''field_decisions'', PDict (map (\<lambda>(k, d). (k, dump_decision d)) (mr_field_decisions r))),
      (''auto_patch'', PDict (mr_auto_patch r)), (''risk_flags'', str_list (mr_risk_flags r)),
      (''reasons'', str_list (mr_reasons r))]"

definition dump_source :: "book_source \<Rightarrow> pyval" where
  "dump_source s = PDict
     [(''kind'', PStr (case src_kind s of calibre_content_server \<Rightarrow> ''calibre_content_server''
        | offline_calibre_snapshot \<Rightarrow> ''offline_calibre_snapshot'')),
      (''fingerprint'', PStr (src_fingerprint s)), (''access_mode'', PStr ''read_only'')]"

text \<open>
  \<open>payload["snapshot"]\<close> of \<open>_seal_value\<close>: for local evidence the two source keys are popped, which keeps
  the seals of packages written before remote sources existed.
\<close>

definition dump_snapshot :: "book_snapshot \<Rightarrow> pyval" where
  "dump_snapshot s = PDict
     ([(''book_key'', PStr (sn_book_key s)), (''calibre_book_id'', PInt (sn_calibre_book_id s)),
       (''current_metadata'', PDict (sn_current_metadata s)), (''files'', str_list (sn_files s)),
       (''library_root'', opt_str (sn_library_root s))]
      @ (case sn_source s of
           None \<Rightarrow> []
         | Some src \<Rightarrow> [(''source'', dump_source src), (''source_revision_sha256'', opt_str (sn_source_revision_sha256 s))])
      @ [(''snapshot_sha256'', PStr (sn_snapshot_sha256 s))])"

definition seal_payload :: "evidence_package_v2 \<Rightarrow> pyval" where
  "seal_payload p = PDict
     [(''schema_version'', PInt 2), (''policy_version'', PStr ''manifestation-v2''),
      (''evidence_id'', PStr (pk_evidence_id p)), (''run_id'', PStr (pk_run_id p)),
      (''book_key'', PStr (pk_book_key p)), (''created_at'', PStr (pk_created_at p)),
      (''state'', PStr (state_text (pk_state p))), (''snapshot'', dump_snapshot (pk_snapshot p)),
      (''formats'', PList (map dump_format (pk_formats p))),
      (''source_evidence'', PList (map dump_source_evidence (pk_source_evidence p))),
      (''identity'', PDict (dump_identity (pk_identity p))), (''privacy_receipts'', PList (pk_privacy_receipts p)),
      (''warnings'', str_list (pk_warnings p)), (''error'', opt_str (pk_error p))]"

section \<open>The environment\<close>

record env =
  env_sha256 :: "string \<Rightarrow> string"
  env_coerce :: "string \<Rightarrow> pyval \<Rightarrow> pyval option"
  env_cwd :: string
  env_parse_package :: "pydict \<Rightarrow> evidence_package_v2 option"
  env_parse_verdict :: "pydict \<Rightarrow> book_verdict option"
  env_schema_revision :: string

section \<open>Hashes, invariants and the seal\<close>

definition canonical_json_hash :: "env \<Rightarrow> pyval \<Rightarrow> string" where
  "canonical_json_hash en value = env_sha256 en (json_dumps value)"

definition calculated_sha256 :: "env \<Rightarrow> book_snapshot \<Rightarrow> string" where
  "calculated_sha256 en s =
     canonical_json_hash en (PDict
       ([(''book_key'', PStr (sn_book_key s)), (''current_metadata'', PDict (sn_current_metadata s)),
         (''files'', str_list (sn_files s)), (''library_root'', opt_str (sn_library_root s))]
        @ (case sn_source s of
             None \<Rightarrow> []
           | Some src \<Rightarrow> [(''source'', dump_source src),
                          (''source_revision_sha256'', opt_str (sn_source_revision_sha256 s))])))"

definition verify_hash :: "env \<Rightarrow> book_snapshot \<Rightarrow> bool" where
  "verify_hash en s = (sn_snapshot_sha256 s = calculated_sha256 en s)"

definition expected_book_key :: "book_snapshot \<Rightarrow> string" where
  "expected_book_key s =
     (case sn_source s of
        None \<Rightarrow> ''calibre:'' @ show_int (sn_calibre_book_id s)
      | Some src \<Rightarrow>
          (case src_kind src of
             calibre_content_server \<Rightarrow> ''calibre-server:'' @ src_fingerprint src @ '':'' @ show_int (sn_calibre_book_id s)
           | offline_calibre_snapshot \<Rightarrow> ''calibre-offline:'' @ src_fingerprint src @ '':'' @ show_int (sn_calibre_book_id s)))"

definition remote_path_ok :: "string \<Rightarrow> string \<Rightarrow> bool" where
  "remote_path_ok prefix path =
     (py_startswith path prefix \<and> py_removeprefix path prefix \<noteq> []
      \<and> list_all (\<lambda>c. is_upper c \<or> is_digit c) (py_removeprefix path prefix))"

definition local_path_ok :: "string \<Rightarrow> string \<Rightarrow> string \<Rightarrow> bool" where
  "local_path_ok cwd root path = (canonical_path cwd path = path \<and> is_relative_to path root)"

text \<open>The part of \<open>verify_invariants\<close> on the snapshot's source, root and files.\<close>

definition snapshot_paths_ok :: "env \<Rightarrow> book_snapshot \<Rightarrow> bool" where
  "snapshot_paths_ok en s =
     (case sn_source s of
        Some _ \<Rightarrow>
          sn_library_root s = None \<and> sn_source_revision_sha256 s \<noteq> None
          \<and> list_all (remote_path_ok (expected_book_key s @ '':'')) (sn_files s)
      | None \<Rightarrow>
          sn_source_revision_sha256 s = None \<and>
          (case sn_library_root s of
             None \<Rightarrow> True
           | Some raw \<Rightarrow>
               (let root = canonical_path (env_cwd en) raw
                in root = raw \<and> list_all (local_path_ok (env_cwd en) root) (sn_files s))))"

definition verify_invariants :: "env \<Rightarrow> evidence_package_v2 \<Rightarrow> bool res" where
  "verify_invariants en p =
     (let s = pk_snapshot p;
          format_paths = map fe_path (pk_formats p);
          evidence_ids = map se_evidence_id (pk_source_evidence p)
      in if pk_book_key p \<noteq> sn_book_key s \<or> pk_book_key p \<noteq> expected_book_key s
            \<or> \<not> verify_hash en s \<or> \<not> distinct (sn_files s) then Inr False
         else if \<not> snapshot_paths_ok en s then Inr False
         else if pk_state p \<notin> {bs_failed, bs_source_changed} \<and> format_paths \<noteq> sn_files s then Inr False
         else if \<not> distinct format_paths then Inr False
         else if \<not> distinct evidence_ids then Inr False
         else if mr_tier (pk_identity p) = tier_a then
           (case resolve_manifestation (env_coerce en) (pk_formats p) (pk_source_evidence p) (sn_current_metadata s) of
              Inl e \<Rightarrow> Inl e
            | Inr derived \<Rightarrow> Inr (dict_eq (dump_identity derived) (dump_identity (pk_identity p))))
         else Inr True)"

definition seal_value :: "env \<Rightarrow> evidence_package_v2 \<Rightarrow> string" where
  "seal_value en p = env_sha256 en (json_dumps (seal_payload p))"

definition seal :: "env \<Rightarrow> evidence_package_v2 \<Rightarrow> evidence_package_v2 res" where
  "seal en p =
     (case verify_invariants en p of
        Inl e \<Rightarrow> Inl e
      | Inr False \<Rightarrow> Inl (ValueError ''V2 evidence package violates its internal snapshot invariants'')
      | Inr True \<Rightarrow> Inr (p\<lparr>pk_package_sha256 := Some (seal_value en p)\<rparr>))"

definition verify_seal :: "env \<Rightarrow> evidence_package_v2 \<Rightarrow> bool res" where
  "verify_seal en p =
     (case verify_invariants en p of
        Inl e \<Rightarrow> Inl e
      | Inr b \<Rightarrow> Inr (b \<and> pk_package_sha256 p = Some (seal_value en p)))"

section \<open>Lemmas\<close>

lemma seal_value_sha [simp]: "seal_value en (p\<lparr>pk_package_sha256 := h\<rparr>) = seal_value en p"
  by (simp add: seal_value_def seal_payload_def)

lemma verify_invariants_sha [simp]: "verify_invariants en (p\<lparr>pk_package_sha256 := h\<rparr>) = verify_invariants en p"
  by (simp add: verify_invariants_def Let_def cong: if_cong sum.case_cong)

lemma seal_Inr:
  "seal en p = Inr q \<longleftrightarrow> verify_invariants en p = Inr True \<and> q = p\<lparr>pk_package_sha256 := Some (seal_value en p)\<rparr>"
  by (auto simp: seal_def split: sum.splits bool.splits)

lemma verify_seal_True:
  "verify_seal en p = Inr True \<longleftrightarrow> verify_invariants en p = Inr True \<and> pk_package_sha256 p = Some (seal_value en p)"
  by (auto simp: verify_seal_def split: sum.splits)

lemma verify_invariantsD:
  assumes "verify_invariants en p = Inr True"
  shows "pk_book_key p = sn_book_key (pk_snapshot p)" "pk_book_key p = expected_book_key (pk_snapshot p)"
    "verify_hash en (pk_snapshot p)" "distinct (sn_files (pk_snapshot p))" "snapshot_paths_ok en (pk_snapshot p)"
    "pk_state p \<notin> {bs_failed, bs_source_changed} \<Longrightarrow> map fe_path (pk_formats p) = sn_files (pk_snapshot p)"
    "mr_tier (pk_identity p) = tier_a \<Longrightarrow>
       \<exists>derived. resolve_manifestation (env_coerce en) (pk_formats p) (pk_source_evidence p)
           (sn_current_metadata (pk_snapshot p)) = Inr derived
         \<and> dict_eq (dump_identity derived) (dump_identity (pk_identity p))"
  using assms by (auto simp: verify_invariants_def Let_def split: if_splits sum.splits)

lemma py_eq_dict_get:
  assumes "dict_eq d e" "dict_get d k = Some v"
  shows "\<exists>w. dict_get e k = Some w \<and> py_eq v w"
proof -
  from assms(2) have "(k, py_eq v) \<in> set (map (map_prod id py_eq) d)"
    by (force simp: dict_get_def dest: map_of_SomeD)
  with assms(1) show ?thesis by (fastforce simp: list_all_iff split: option.splits)
qed

lemma tier_text_inject [simp]: "tier_text t = tier_text u \<longleftrightarrow> t = u"
  by (cases t; cases u) (simp_all add: tier_text_def)

lemma dump_identity_eq:
  assumes "dict_eq (dump_identity r) (dump_identity q)"
  shows "mr_tier r = mr_tier q \<and> dict_eq (mr_auto_patch r) (mr_auto_patch q)"
proof
  have "dict_get (dump_identity r) ''tier'' = Some (PStr (tier_text (mr_tier r)))"
    by (simp add: dump_identity_def dict_get_def)
  from py_eq_dict_get [OF assms this] have "tier_text (mr_tier r) = tier_text (mr_tier q)"
    by (simp add: dump_identity_def dict_get_def)
  then show "mr_tier r = mr_tier q" by simp
  have "dict_get (dump_identity r) ''auto_patch'' = Some (PDict (mr_auto_patch r))"
    by (simp add: dump_identity_def dict_get_def)
  from py_eq_dict_get [OF assms this] show "dict_eq (mr_auto_patch r) (mr_auto_patch q)"
    by (simp only: dump_identity_def dict_get_def) simp
qed

lemma split_slashes: "py_split c (replicate n c @ s) = replicate n [] @ py_split c s"
  by (induction n) simp_all

lemma leading_slashes_le: "leading_slashes p \<le> 2"
  by (simp add: leading_slashes_def)

lemma is_absolute_slashes: "is_absolute p \<longleftrightarrow> 0 < leading_slashes p"
  by (cases p) (auto simp: is_absolute_def leading_slashes_def py_startswith_def)

text \<open>A normalised absolute path has no empty, \<open>.\<close> or \<open>..\<close> component.\<close>

lemma normpath_parts:
  assumes "is_absolute p"
  shows "''..'' \<notin> set (snd (path_parts (normpath p)))"
proof -
  let ?n = "leading_slashes p" and ?cs = "norm_comps True [] (py_split (CHR ''/'') p)"
  have n: "0 < ?n" using assms by (simp add: is_absolute_slashes)
  have np: "p \<noteq> []" using assms by (auto simp: is_absolute_def py_startswith_def)
  have eq: "normpath p = replicate ?n (CHR ''/'') @ py_join ''/'' ?cs"
    using n np by (simp add: normpath_def Let_def)
  have nd: "''..'' \<notin> set ?cs" using norm_comps_no_dotdot [of True "[]"] by simp
  have ns: "\<forall>w\<in>set ?cs. CHR ''/'' \<notin> set w"
    using norm_comps_no_sep [of "[]" "CHR ''/''" "py_split (CHR ''/'') p"] split_no_sep by auto
  have "set (py_split (CHR ''/'') (py_join ''/'' ?cs)) \<subseteq> insert [] (set ?cs)"
  proof (cases "?cs = []")
    case False
    then show ?thesis using split_join [OF False ns] by auto
  qed simp
  then have "set (py_split (CHR ''/'') (normpath p)) \<subseteq> insert [] (set ?cs)"
    by (auto simp: eq split_slashes)
  with nd show ?thesis by (auto simp: path_parts_def)
qed

lemma path_join_absolute: "is_absolute a \<Longrightarrow> is_absolute (path_join a b)"
  by (cases a) (auto simp: path_join_def is_absolute_def py_startswith_def)

section \<open>Properties\<close>

text \<open>
  Claim C10. Sealing round trip: \<open>seal\<close> succeeds exactly on the packages whose invariants hold, its result
  differs from the package only in the seal, and \<open>verify_seal\<close> accepts it; sealing again changes
  nothing.
\<close>

theorem seal_roundtrip:
  "(is_ok (seal en p) \<longleftrightarrow> verify_invariants en p = Inr True) \<and>
   (\<forall>q. seal en p = Inr q \<longrightarrow>
      q\<lparr>pk_package_sha256 := pk_package_sha256 p\<rparr> = p \<and> verify_seal en q = Inr True \<and> seal en q = Inr q)"
proof -
  have "is_ok (seal en p) \<longleftrightarrow> verify_invariants en p = Inr True"
    by (cases "seal en p") (auto simp: seal_def split: sum.splits bool.splits)
  then show ?thesis by (auto simp: seal_Inr verify_seal_True)
qed

definition demo_env :: env where
  "demo_env = \<lparr>env_sha256 = (\<lambda>_. ''h''), env_coerce = lax_coerce, env_cwd = ''/srv'', env_parse_package = (\<lambda>_. None),
     env_parse_verdict = (\<lambda>_. None),
     env_schema_revision = ''rev1''\<rparr>"

definition demo_snapshot :: book_snapshot where
  "demo_snapshot =
     (let s = \<lparr>sn_book_key = ''calibre:7'', sn_calibre_book_id = 7, sn_current_metadata = demo_current,
               sn_files = [''/lib/a.epub''], sn_library_root = Some ''/lib'', sn_source = None,
               sn_source_revision_sha256 = None, sn_snapshot_sha256 = []\<rparr>
      in s\<lparr>sn_snapshot_sha256 := calculated_sha256 demo_env s\<rparr>)"

definition demo_package :: evidence_package_v2 where
  "demo_package =
     \<lparr>pk_evidence_id = ''e1'', pk_run_id = ''r1'', pk_book_key = ''calibre:7'', pk_created_at = ''2025-01-01T00:00:00Z'',
      pk_state = bs_shadowed, pk_snapshot = demo_snapshot, pk_formats = [demo_format],
      pk_source_evidence = demo_evidences, pk_identity = demo_identity,
      pk_privacy_receipts = [], pk_warnings = [], pk_error = None, pk_package_sha256 = None\<rparr>"

definition demo_sealed :: evidence_package_v2 where
  "demo_sealed = demo_package\<lparr>pk_package_sha256 := Some (seal_value demo_env demo_package)\<rparr>"

lemma demo_identity_tier: "mr_tier demo_identity = tier_a"
  by (simp add: demo_identity_def)

lemma demo_identity_dump: "dict_eq (dump_identity demo_identity) (dump_identity demo_identity)"
proof (rule py_eq_refl)
  show "wf_val (PDict (dump_identity demo_identity))" by code_simp
qed

lemma demo_snapshot_ok:
  "verify_hash demo_env demo_snapshot" "snapshot_paths_ok demo_env demo_snapshot"
  "expected_book_key demo_snapshot = ''calibre:7''" "sn_book_key demo_snapshot = ''calibre:7''"
  "sn_files demo_snapshot = [''/lib/a.epub'']" "sn_current_metadata demo_snapshot = demo_current"
proof -
  show "verify_hash demo_env demo_snapshot"
    by (simp add: verify_hash_def demo_snapshot_def Let_def calculated_sha256_def)
  show "sn_book_key demo_snapshot = ''calibre:7''" "sn_files demo_snapshot = [''/lib/a.epub'']"
    "sn_current_metadata demo_snapshot = demo_current"
    by (simp_all add: demo_snapshot_def Let_def)
  have "canonical_path ''/srv'' ''/lib'' = ''/lib''" "local_path_ok ''/srv'' ''/lib'' ''/lib/a.epub''"
    "''calibre:'' @ show_int 7 = ''calibre:7''" by code_simp+
  then show "snapshot_paths_ok demo_env demo_snapshot" "expected_book_key demo_snapshot = ''calibre:7''"
    by (simp_all add: demo_snapshot_def Let_def snapshot_paths_ok_def demo_env_def expected_book_key_def)
qed

lemma demo_ids_distinct: "distinct (map se_evidence_id demo_evidences)"
  by code_simp

lemma demo_package_simps:
  "pk_book_key demo_package = ''calibre:7''" "pk_state demo_package = bs_shadowed"
  "pk_snapshot demo_package = demo_snapshot" "pk_formats demo_package = [demo_format]"
  "pk_source_evidence demo_package = demo_evidences" "pk_identity demo_package = demo_identity"
  "fe_path demo_format = ''/lib/a.epub''" "env_coerce demo_env = lax_coerce"
  by (simp_all add: demo_package_def demo_env_def demo_format_def)

lemma demo_invariants: "verify_invariants demo_env demo_package = Inr True"
  using demo_identity_dump
  by (simp add: verify_invariants_def Let_def demo_package_simps demo_snapshot_ok demo_resolved
      demo_identity_tier demo_ids_distinct del: py_eq.simps)

lemma demo_package_tier: "mr_tier (pk_identity demo_package) = tier_a"
  by (simp add: demo_package_simps demo_identity_tier)

theorem seal_roundtrip_witness:
  "seal demo_env demo_package = Inr demo_sealed \<and> verify_seal demo_env demo_sealed = Inr True"
proof -
  have "seal demo_env demo_package = Inr demo_sealed"
    using demo_invariants by (simp add: seal_Inr demo_sealed_def)
  with seal_roundtrip show ?thesis by blast
qed

text \<open>
  Claim C11. A package that passes \<open>verify_seal\<close> and describes a local library stays inside it: every file
  of the snapshot lies beneath the sealed library root and has no \<open>..\<close> component, so no sealed path
  escapes the library. The working directory is absolute.
\<close>

theorem sealed_files_stay_in_library:
  assumes "verify_seal en p = Inr True" "sn_library_root (pk_snapshot p) = Some root" "is_absolute (env_cwd en)"
  shows "sn_source (pk_snapshot p) = None \<and>
    (\<forall>f\<in>set (sn_files (pk_snapshot p)). is_relative_to f root \<and> ''..'' \<notin> set (snd (path_parts f)))"
proof -
  let ?s = "pk_snapshot p"
  from assms(1) have ok: "snapshot_paths_ok en ?s" by (simp add: verify_seal_True verify_invariantsD)
  with assms(2) have src: "sn_source ?s = None" by (auto simp: snapshot_paths_ok_def split: option.splits)
  with ok assms(2) have h: "\<forall>f\<in>set (sn_files ?s). canonical_path (env_cwd en) f = f \<and> is_relative_to f root"
    by (auto simp: snapshot_paths_ok_def Let_def local_path_ok_def list_all_iff)
  have "''..'' \<notin> set (snd (path_parts f))" if "f \<in> set (sn_files ?s)" for f
    using h that normpath_parts [OF path_join_absolute [OF assms(3)]] by (metis canonical_path_def)
  with h src show ?thesis by blast
qed

theorem sealed_files_stay_in_library_witness:
  "list_all (\<lambda>f. is_relative_to f ''/lib'') (sn_files (pk_snapshot demo_sealed))"
proof -
  have "sn_library_root (pk_snapshot demo_sealed) = Some ''/lib''"
    by (simp add: demo_sealed_def demo_package_def demo_snapshot_def Let_def)
  moreover have "is_absolute (env_cwd demo_env)" by code_simp
  moreover have "verify_seal demo_env demo_sealed = Inr True"
    using demo_invariants by (simp add: verify_seal_True demo_sealed_def)
  ultimately show ?thesis using sealed_files_stay_in_library [of demo_env demo_sealed] by (simp add: list_all_iff)
qed

text \<open>
  The seal re-derives a Tier A identity: a package that passes \<open>verify_seal\<close> with Tier A has
  exactly the formats of its snapshot (unless it failed), resolving its own evidence again gives Tier A, and the automatic
  patch it carries equals the re-derived patch, so a stored patch cannot be edited without its evidence.
\<close>

theorem sealed_tier_a_is_derived:
  assumes "verify_seal en p = Inr True" "mr_tier (pk_identity p) = tier_a" "pk_state p = bs_shadowed"
  shows "map fe_path (pk_formats p) = sn_files (pk_snapshot p) \<and>
    (\<exists>r. resolve_manifestation (env_coerce en) (pk_formats p) (pk_source_evidence p)
          (sn_current_metadata (pk_snapshot p)) = Inr r
       \<and> mr_tier r = tier_a \<and> dict_eq (mr_auto_patch r) (mr_auto_patch (pk_identity p)))"
proof -
  from assms(1) have v: "verify_invariants en p = Inr True" by (simp add: verify_seal_True)
  from verify_invariantsD(7) [OF v assms(2)] show ?thesis
    using verify_invariantsD(6) [OF v] assms dump_identity_eq by auto
qed

theorem sealed_tier_a_is_derived_witness:
  "\<exists>r. resolve_manifestation lax_coerce (pk_formats demo_sealed) (pk_source_evidence demo_sealed) demo_current = Inr r
     \<and> mr_tier r = tier_a"
proof -
  have "verify_seal demo_env demo_sealed = Inr True" "mr_tier (pk_identity demo_sealed) = tier_a" "pk_state demo_sealed = bs_shadowed"
    using demo_invariants demo_package_tier by (simp_all add: verify_seal_True demo_sealed_def demo_package_simps)
  from sealed_tier_a_is_derived [OF this] show ?thesis
    by (auto simp: demo_sealed_def demo_package_simps demo_snapshot_ok)
qed

end
