(* ===== verification/Coordinator.thy ===== *)
theory Coordinator
  imports Ledger Evidence
begin

text \<open>
  The coordinator of durable write requests (src/src/calibre\_ai\_auditor/apply/coordinator.py) and the
  writer heartbeat predicates (apply/heartbeat.py). Every function takes the committed database its
  session starts from and returns the database it commits; a request that raises commits nothing.
  Fresh uuids and the clock are arguments, the hash and the parsers come from \<open>env\<close>.
\<close>

section \<open>Hashes and packages\<close>

definition NONTERMINAL_OPERATION_STATES :: "string list" where
  "NONTERMINAL_OPERATION_STATES = [''requested'', ''claimed'', ''writing'', ''verifying'', ''restoring'']"

definition hash_json :: "env \<Rightarrow> pyval \<Rightarrow> string" where
  "hash_json en value = env_sha256 en (json_dumps value)"

definition hash_verdict :: "env \<Rightarrow> book_verdict \<Rightarrow> string" where
  "hash_verdict en verdict = hash_json en (dump_verdict verdict)"

text \<open>
  The key renamings of \<open>_canonicalize_legacy_patch\<close>: \<open>patch[new] = patch.pop(old)\<close> moves the entry to the
  end of the dict.
\<close>

definition canonicalize_legacy_patch :: "env \<Rightarrow> pydict \<Rightarrow> pydict res" where
  "canonicalize_legacy_patch en raw_patch =
     (if dict_has raw_patch ''published_date'' \<and> dict_has raw_patch ''pubdate''
      then Inl (ValueError ''legacy and canonical publication date fields conflict'')
      else
        (let patch = (if dict_has raw_patch ''published_date''
              then dict_set ''pubdate'' (pget raw_patch ''published_date'') (dict_pop ''published_date'' raw_patch)
              else raw_patch)
         in if dict_has patch ''language'' \<and> dict_has patch ''languages''
            then Inl (ValueError ''legacy and canonical language fields conflict'')
            else
              (let patch2 = (if dict_has patch ''language''
                    then (let language = pget patch ''language''
                          in dict_set ''languages''
                               (case language of PList _ \<Rightarrow> language | _ \<Rightarrow> PList [language])
                               (dict_pop ''language'' patch))
                    else patch)
               in canonical_patch (env_coerce en) patch2)))"

definition load_v2_package :: "env \<Rightarrow> db \<Rightarrow> string \<Rightarrow> (evidence_row \<times> evidence_package_v2) res" where
  "load_v2_package en d evidence_id =
     (case row_first (\<lambda>r. ep_evidence_id r = evidence_id) (db_evidence d) of
        None \<Rightarrow> Inl (ValueError ''sealed V2 evidence package is unavailable'')
      | Some stored \<Rightarrow>
          (case ep_observations stored of
             None \<Rightarrow> Inl (ValueError ''sealed V2 evidence package is unavailable'')
           | Some observations \<Rightarrow>
               if ep_schema_version stored \<noteq> 2 \<or> observations = []
               then Inl (ValueError ''sealed V2 evidence package is unavailable'')
               else (case env_parse_package en observations of
                   None \<Rightarrow> Inl (ValueError ''validation errors for EvidencePackageV2'')
                 | Some package \<Rightarrow>
                     (case verify_seal en package of
                        Inl e \<Rightarrow> Inl e
                      | Inr sealed \<Rightarrow>
                          if \<not> sealed \<or> pk_evidence_id package \<noteq> ep_evidence_id stored
                             \<or> pk_book_key package \<noteq> ep_book_key stored \<or> pk_run_id package \<noteq> ep_run_id stored
                             \<or> \<not> dict_eq (ep_current stored) (sn_current_metadata (pk_snapshot package))
                             \<or> \<not> dict_eq (ep_extracted stored) (dump_identity (pk_identity package))
                          then Inl (ValueError ''V2 evidence package identity or seal is invalid'')
                          else Inr (stored, package)))))"

definition book_file_paths :: "book_record \<Rightarrow> string list" where
  "book_file_paths book =
     List.map_filter (\<lambda>item. case item of
         PDict i \<Rightarrow> (case pget i ''path'' of PStr p \<Rightarrow> Some p | _ \<Rightarrow> None)
       | _ \<Rightarrow> None) (bk_files book)"

definition validate_v2_book_snapshot :: "book_record \<Rightarrow> evidence_package_v2 \<Rightarrow> unit res" where
  "validate_v2_book_snapshot book package =
     (let s = pk_snapshot package in
      if sn_source s \<noteq> None
      then Inl (ValueError ''remote Content Server evidence cannot be authorized for writing'')
      else if pk_error package \<noteq> None \<or> pk_state package \<noteq> bs_shadowed
           \<or> bk_book_key book \<noteq> pk_book_key package \<or> bk_run_id book \<noteq> pk_run_id package
           \<or> bk_calibre_book_id book \<noteq> Some (sn_calibre_book_id s)
           \<or> \<not> dict_eq (bk_current_metadata book) (sn_current_metadata s)
           \<or> book_file_paths book \<noteq> sn_files s
      then Inl (ValueError ''persisted book no longer matches the exact sealed V2 snapshot'')
      else Inr ())"

definition v2_patch :: "env \<Rightarrow> evidence_package_v2 \<Rightarrow> book_record \<Rightarrow> pydict res" where
  "v2_patch en package book =
     (case canonical_patch (env_coerce en) (mr_auto_patch (pk_identity package)) of
        Inl e \<Rightarrow> Inl e
      | Inr patch \<Rightarrow> Inr (filter (\<lambda>(field, _). \<not> dict_has (bk_field_locks book) field) patch))"

definition current_value_for_patch :: "book_record \<Rightarrow> string \<Rightarrow> pyval" where
  "current_value_for_patch book field =
     (if field = ''edition_statement''
      then pget_or (bk_current_metadata book) ''#edition'' (pget (bk_current_metadata book) ''edition_statement'')
      else pget (bk_current_metadata book) field)"

section \<open>Authorizations\<close>

definition new_authorization :: "db \<Rightarrow> string \<Rightarrow> time \<Rightarrow> book_record \<Rightarrow> string \<Rightarrow> string \<Rightarrow> string \<Rightarrow> string \<Rightarrow> manual_authorization" where
  "new_authorization d uuid now book verdict_hash patch_hash actor reason =
     \<lparr>au_id = next_id (map au_id (db_auths d)), au_authorization_id = uuid, au_book_key = bk_book_key book,
      au_run_id = bk_run_id book, au_verdict_hash = verdict_hash, au_patch_hash = patch_hash,
      au_actor = py_strip actor, au_reason = py_strip reason, au_created_at = now\<rparr>"

text \<open>\<open>session.add(authorization)\<close> and the flush, which checks the unique authorization id.\<close>

definition insert_authorization :: "manual_authorization \<Rightarrow> db \<Rightarrow> (manual_authorization \<times> db) res" where
  "insert_authorization a d =
     (if list_ex (\<lambda>r. au_authorization_id r = au_authorization_id a) (db_auths d) then Inl IntegrityError
      else Inr (a, d\<lparr>db_auths := db_auths d @ [a]\<rparr>))"

definition create_v2_manual_authorization ::
    "env \<Rightarrow> string \<Rightarrow> time \<Rightarrow> book_record \<Rightarrow> evidence_package_v2 \<Rightarrow> string \<Rightarrow> string \<Rightarrow> db \<Rightarrow> (manual_authorization \<times> db) res" where
  "create_v2_manual_authorization en uuid now book package actor reason d =
     (if py_strip actor = [] \<or> py_strip reason = []
      then Inl (ValueError ''actor, reason, and a valid sealed package are required'')
      else case verify_seal en package of
        Inl e \<Rightarrow> Inl e
      | Inr sealed \<Rightarrow>
        (case (sealed, pk_package_sha256 package) of
           (True, Some package_sha256) \<Rightarrow>
             if pk_book_key package \<noteq> bk_book_key book \<or> pk_run_id package \<noteq> bk_run_id book
             then Inl (ValueError ''evidence package does not belong to the current book snapshot'')
             else (case validate_v2_book_snapshot book package of
                 Inl e \<Rightarrow> Inl e
               | Inr _ \<Rightarrow>
                   (case v2_patch en package book of
                      Inl e \<Rightarrow> Inl e
                    | Inr patch \<Rightarrow>
                        if mr_tier (pk_identity package) \<noteq> tier_a \<or> patch = []
                        then Inl (ValueError ''only a Tier A package with a non-empty canonical patch can be authorized'')
                        else insert_authorization (new_authorization d uuid now book package_sha256
                               (hash_json en (PDict patch)) actor reason) d))
         | _ \<Rightarrow> Inl (ValueError ''actor, reason, and a valid sealed package are required'')))"

definition v2_authorization_matches ::
    "env \<Rightarrow> manual_authorization option \<Rightarrow> book_record \<Rightarrow> evidence_package_v2 \<Rightarrow> pydict \<Rightarrow> bool" where
  "v2_authorization_matches en authorization book package patch =
     (case (authorization, pk_package_sha256 package) of
        (Some a, Some h) \<Rightarrow>
          h \<noteq> [] \<and> au_book_key a = bk_book_key book \<and> au_run_id a = bk_run_id book \<and> au_verdict_hash a = h
          \<and> au_patch_hash a = hash_json en (PDict patch)
      | _ \<Rightarrow> False)"

text \<open>\<open>order_by(desc(created_at), desc(id))\<close>: the rows are in id order and the sort is stable.\<close>

definition find_current_v2_authorization :: "env \<Rightarrow> evidence_package_v2 \<Rightarrow> db \<Rightarrow> manual_authorization option" where
  "find_current_v2_authorization en package d =
     (case row_first (\<lambda>b. bk_book_key b = pk_book_key package) (db_books d) of
        None \<Rightarrow> None
      | Some book \<Rightarrow>
          (case (validate_v2_book_snapshot book package, v2_patch en package book) of
             (Inr _, Inr patch) \<Rightarrow>
               (let authorization = row_first (\<lambda>a. au_book_key a = pk_book_key package \<and> au_run_id a = pk_run_id package
                      \<and> Some (au_verdict_hash a) = pk_package_sha256 package
                      \<and> au_patch_hash a = hash_json en (PDict patch))
                      (rev (sort_key au_created_at (db_auths d)))
                in if v2_authorization_matches en authorization book package patch then authorization else None)
           | _ \<Rightarrow> None))"

definition create_manual_authorization ::
    "env \<Rightarrow> string \<Rightarrow> time \<Rightarrow> book_record \<Rightarrow> book_verdict \<Rightarrow> string \<Rightarrow> string \<Rightarrow> db \<Rightarrow> (manual_authorization \<times> db) res" where
  "create_manual_authorization en uuid now book verdict actor reason d =
     (if py_strip actor = [] \<or> py_strip reason = [] then Inl (ValueError ''actor and reason are required'')
      else insert_authorization (new_authorization d uuid now book (hash_verdict en verdict)
             (hash_json en (PDict (vd_proposed_patch verdict))) actor reason) d)"

definition authorization_matches :: "env \<Rightarrow> manual_authorization option \<Rightarrow> book_record \<Rightarrow> book_verdict \<Rightarrow> bool" where
  "authorization_matches en authorization book verdict =
     (case authorization of
        None \<Rightarrow> False
      | Some a \<Rightarrow>
          au_book_key a = bk_book_key book \<and> au_run_id a = bk_run_id book
          \<and> au_verdict_hash a = hash_verdict en verdict
          \<and> au_patch_hash a = hash_json en (PDict (vd_proposed_patch verdict)))"

section \<open>The supervised pilot\<close>

record pilot_guard =
  pg_enabled :: bool
  pg_pilot_id :: string
  pg_library_root :: string
  pg_release_digest :: string
  pg_alembic_revision :: string
  pg_max_operations :: int
  pg_writer_ready :: bool

text \<open>
  \<open>int(s, 16)\<close> succeeds on optional blanks around an optional sign, an optional \<open>0x\<close> prefix and
  hexadecimal digits with single underscores between them.
\<close>

definition hex_digits_ok :: "string \<Rightarrow> bool" where
  "hex_digits_ok s = list_all (\<lambda>w. w \<noteq> [] \<and> list_all is_hex w) (py_split (CHR ''_'') s)"

definition py_int16_ok :: "string \<Rightarrow> bool" where
  "py_int16_ok s =
     (let t = py_int_strip s;
          u = (case t of c # cs \<Rightarrow> if c = CHR ''+'' \<or> c = CHR ''-'' then cs else t | [] \<Rightarrow> t)
      in hex_digits_ok u
         \<or> (case u of
              a # b # cs \<Rightarrow> a = CHR ''0'' \<and> (b = CHR ''x'' \<or> b = CHR ''X'') \<and>
                (hex_digits_ok cs \<or> (case cs of x # xs \<Rightarrow> x = CHR ''_'' \<and> hex_digits_ok xs | [] \<Rightarrow> False))
            | _ \<Rightarrow> False))"

definition library_root_sha256 :: "env \<Rightarrow> string \<Rightarrow> string" where
  "library_root_sha256 en root = env_sha256 en (canonical_path (env_cwd en) root)"

definition heartbeat_matches_pilot :: "pyval \<Rightarrow> string \<Rightarrow> string \<Rightarrow> string \<Rightarrow> string \<Rightarrow> int \<Rightarrow> bool" where
  "heartbeat_matches_pilot payload release_digest alembic_revision root_sha256 pilot_id max_operations =
     (case payload of
        PDict p \<Rightarrow>
          py_eq (pget p ''release_digest'') (PStr release_digest)
          \<and> py_eq (pget p ''alembic_revision'') (PStr alembic_revision)
          \<and> py_eq (pget p ''library_root_sha256'') (PStr root_sha256)
          \<and> py_eq (pget p ''pilot_id'') (PStr pilot_id)
          \<and> py_eq (pget p ''max_operations'') (PInt max_operations)
      | _ \<Rightarrow> False)"

definition validate_pilot_guard :: "env \<Rightarrow> pilot_guard \<Rightarrow> evidence_package_v2 \<Rightarrow> string res" where
  "validate_pilot_guard en pilot package =
     (if \<not> pg_enabled pilot then Inl (ValueError ''supervised V2 apply is disabled'')
      else if \<not> pg_writer_ready pilot then Inl (ValueError ''a fresh writer heartbeat is required'')
      else if py_strip (pg_pilot_id pilot) = [] \<or> length (pg_pilot_id pilot) > 128
        then Inl (ValueError ''a valid pilot id is required'')
      else if \<not> py_startswith (pg_release_digest pilot) ''sha256:'' \<or> length (pg_release_digest pilot) \<noteq> 71
        then Inl (ValueError ''a sha256 release digest is required'')
      else if \<not> py_int16_ok (py_removeprefix (pg_release_digest pilot) ''sha256:'')
        then Inl (ValueError ''a sha256 release digest is required'')
      else if py_strip (pg_alembic_revision pilot) = [] then Inl (ValueError ''an Alembic revision is required'')
      else if \<not> (1 \<le> pg_max_operations pilot \<and> pg_max_operations pilot \<le> 5)
        then Inl (ValueError ''the supervised pilot is limited to five operations'')
      else
        (let canonical_root = canonical_path (env_cwd en) (pg_library_root pilot) in
         if pg_library_root pilot \<noteq> canonical_root \<or> sn_library_root (pk_snapshot package) \<noteq> Some canonical_root
         then Inl (ValueError ''pilot and evidence library roots do not match'')
         else Inr (library_root_sha256 en canonical_root)))"

definition pilot_operation_count :: "db \<Rightarrow> string \<Rightarrow> int" where
  "pilot_operation_count d pilot_id =
     int (length (filter (\<lambda>r. op_pilot_id r = Some pilot_id) (db_operations d)))"

definition new_pilot_session :: "pilot_guard \<Rightarrow> string \<Rightarrow> time \<Rightarrow> pilot_session" where
  "new_pilot_session pilot root_sha256 now =
     \<lparr>ps_pilot_id = pg_pilot_id pilot, ps_library_root_sha256 = root_sha256,
      ps_release_digest = pg_release_digest pilot, ps_alembic_revision = pg_alembic_revision pilot,
      ps_max_operations = pg_max_operations pilot, ps_reserved_operations = 0, ps_state = ''open'',
      ps_created_at = now, ps_updated_at = now\<rparr>"

definition lock_or_create_pilot :: "time \<Rightarrow> pilot_guard \<Rightarrow> string \<Rightarrow> db \<Rightarrow> (pilot_session \<times> db) res" where
  "lock_or_create_pilot now pilot root_sha256 d =
     (let bound_operations = pilot_operation_count d (pg_pilot_id pilot);
          existing = row_first (\<lambda>p. ps_pilot_id p = pg_pilot_id pilot) (db_pilots d);
          fresh = new_pilot_session pilot root_sha256 now;
          (stored, d1) = (case existing of
             Some p \<Rightarrow> (p, d)
           | None \<Rightarrow> (fresh, d\<lparr>db_pilots := db_pilots d @ [fresh]\<rparr>))
      in if existing = None \<and> bound_operations \<noteq> 0
         then Inl (ValueError ''pilot budget ledger has operations without a persisted session'')
         else if ps_library_root_sha256 stored \<noteq> root_sha256 \<or> ps_release_digest stored \<noteq> pg_release_digest pilot
              \<or> ps_alembic_revision stored \<noteq> pg_alembic_revision pilot
              \<or> ps_max_operations stored \<noteq> pg_max_operations pilot
         then Inl (ValueError ''pilot runtime binding does not match its persisted session'')
         else if ps_state stored \<noteq> ''open'' then Inl (ValueError ''pilot session is closed'')
         else if ps_reserved_operations stored \<noteq> bound_operations
         then Inl (ValueError ''pilot budget ledger does not match its bound operations'')
         else if ps_reserved_operations stored \<ge> ps_max_operations stored
         then Inl (ValueError ''pilot operation limit has been reached'')
         else Inr (stored, d1))"

text \<open>
  The queue mutex: on PostgreSQL an advisory lock, which serialises the transactions that follow and
  changes no row; on other databases a book row must exist.
\<close>

definition lock_v2_queue_mutex :: "bool \<Rightarrow> db \<Rightarrow> unit res" where
  "lock_v2_queue_mutex postgresql d =
     (if postgresql then Inr ()
      else if db_books d = [] then Inl (ValueError ''a persisted book is required before starting a supervised pilot'')
      else Inr ())"

section \<open>Acknowledgement of failures\<close>

definition acknowledge_v2_failure :: "time \<Rightarrow> string \<Rightarrow> string \<Rightarrow> string \<Rightarrow> db \<Rightarrow> (incident_ack \<times> db) res" where
  "acknowledge_v2_failure now operation_id actor reason d =
     (let clean_actor = py_strip actor; clean_reason = py_strip reason in
      if clean_actor = [] \<or> length clean_actor > 128 \<or> length clean_reason < 12 \<or> length clean_reason > 1000
      then Inl (ValueError ''a valid actor and detailed acknowledgement reason are required'')
      else case row_first (\<lambda>r. op_operation_id r = operation_id) (db_operations d) of
        None \<Rightarrow> Inl (ValueError ''only a completed V2 operation in a safe failed state can be acknowledged'')
      | Some operation \<Rightarrow>
        if op_policy_version operation \<noteq> ''manifestation-v2'' \<or> op_state operation \<noteq> ''failed''
           \<or> op_completed_at operation = None \<or> op_pilot_id operation = None \<or> op_pilot_id operation = Some []
        then Inl (ValueError ''only a completed V2 operation in a safe failed state can be acknowledged'')
        else (case row_first (\<lambda>p. Some (ps_pilot_id p) = op_pilot_id operation) (db_pilots d) of
            None \<Rightarrow> Inl (ValueError (''the failed V2 operation'' @ [CHR 0x27] @ ''s supervised pilot must be stopped before acknowledgement''))
          | Some pilot \<Rightarrow>
            if ps_state pilot \<noteq> ''stopped''
            then Inl (ValueError (''the failed V2 operation'' @ [CHR 0x27] @ ''s supervised pilot must be stopped before acknowledgement''))
            else if list_ex (\<lambda>a. ak_operation_id a = operation_id) (db_acks d)
            then Inl (ValueError ''operation incident is already acknowledged'')
            else (case row_first (\<lambda>e. ob_aggregate_id e = operation_id) (db_outbox d) of
                None \<Rightarrow> Inl (ValueError ''the failed V2 operation is not safely quiescent'')
              | Some outbox \<Rightarrow>
                if ob_status outbox \<noteq> ''failed'' \<or> list_ex (\<lambda>l. lk_book_key l = op_book_key operation) (db_locks d)
                then Inl (ValueError ''the failed V2 operation is not safely quiescent'')
                else
                  (let ack = \<lparr>ak_operation_id = op_operation_id operation, ak_actor = clean_actor,
                              ak_reason = clean_reason, ak_created_at = now\<rparr>
                   in Inr (ack, d\<lparr>db_acks := db_acks d @ [ack]\<rparr>)))))"

section \<open>Validation at the writer boundary\<close>

text \<open>The runtime binding of the pilot session an operation is bound to.\<close>

definition check_bound_pilot :: "env \<Rightarrow> operation \<Rightarrow> pilot_guard \<Rightarrow> string \<Rightarrow> db \<Rightarrow> unit res" where
  "check_bound_pilot en operation pilot runtime_root_sha256 d =
     (case op_pilot_id operation of
        None \<Rightarrow> Inl (ValueError ''V2 operation is not bound to a supervised pilot'')
      | Some pid \<Rightarrow>
        if pid = [] \<or> pid \<noteq> pg_pilot_id pilot
        then Inl (ValueError ''V2 operation is not bound to a supervised pilot'')
        else (case row_first (\<lambda>p. ps_pilot_id p = pid) (db_pilots d) of
            None \<Rightarrow> Inl (ValueError ''V2 supervised pilot runtime binding is invalid or stopped'')
          | Some stored_pilot \<Rightarrow>
            if ps_reserved_operations stored_pilot \<noteq> pilot_operation_count d pid
            then Inl (ValueError ''V2 supervised pilot budget ledger does not match its bound operations'')
            else if ps_state stored_pilot \<noteq> ''open'' \<or> ps_reserved_operations stored_pilot < 1
                 \<or> ps_reserved_operations stored_pilot > ps_max_operations stored_pilot
                 \<or> ps_library_root_sha256 stored_pilot \<noteq> runtime_root_sha256
                 \<or> ps_release_digest stored_pilot \<noteq> pg_release_digest pilot
                 \<or> ps_alembic_revision stored_pilot \<noteq> pg_alembic_revision pilot
                 \<or> ps_alembic_revision stored_pilot \<noteq> env_schema_revision en
                 \<or> ps_max_operations stored_pilot \<noteq> pg_max_operations pilot
            then Inl (ValueError ''V2 supervised pilot runtime binding is invalid or stopped'')
            else Inr ()))"

definition exn_text :: "exn \<Rightarrow> string" where
  "exn_text e = (case e of
      ValueError m \<Rightarrow> m | TypeError m \<Rightarrow> m | RuntimeError m \<Rightarrow> m | OSError m \<Rightarrow> m | CalibreCLIError m \<Rightarrow> m
    | KeyError m \<Rightarrow> repr_string m | IndexError \<Rightarrow> ''list index out of range''
    | NoResultFound \<Rightarrow> ''No row was found when one was required''
    | MultipleResultsFound \<Rightarrow> ''Multiple rows were found when exactly one was required''
    | IntegrityError \<Rightarrow> ''integrity error''
    | LostVerifierLeaseError m \<Rightarrow> m | SourceSnapshotMismatchError m \<Rightarrow> m | CertificateAContractError m \<Rightarrow> m
    | VerifierCancellationRequestedError m \<Rightarrow> m | OfflineLibraryChangedError m \<Rightarrow> m | OfflineCalibreError m \<Rightarrow> m
    | HTTPException status detail \<Rightarrow> show_int status @ concat (map (\<lambda>t. '' '' @ t) detail))"

definition check_v2_authorized_patch :: "env \<Rightarrow> operation \<Rightarrow> book_record \<Rightarrow> evidence_package_v2 \<Rightarrow> db \<Rightarrow> unit res" where
  "check_v2_authorized_patch en operation book package d =
     (case v2_patch en package book of
        Inl e \<Rightarrow> Inl e
      | Inr patch \<Rightarrow>
          if mr_tier (pk_identity package) \<noteq> tier_a \<or> pk_package_sha256 package \<noteq> op_verdict_hash operation
             \<or> \<not> dict_eq patch (op_requested_patch operation)
             \<or> op_patch_hash operation \<noteq> Some (hash_json en (PDict patch))
          then Inl (ValueError ''V2 evidence seal or canonical patch changed after authorization'')
          else
            (let authorization = row_first (\<lambda>a. Some (au_authorization_id a) = op_authorization_id operation) (db_auths d)
             in if \<not> v2_authorization_matches en authorization book package patch
                then Inl (ValueError ''V2 operation lacks an exact manual authorization'')
                else Inr ()))"

definition validate_v2_apply_operation ::
    "env \<Rightarrow> operation \<Rightarrow> book_record \<Rightarrow> pilot_guard option \<Rightarrow> db \<Rightarrow> unit res" where
  "validate_v2_apply_operation en operation book pilot d =
     (case op_evidence_id operation of
        None \<Rightarrow> Inl (ValueError ''V2 operation identity changed after authorization'')
      | Some evidence_id \<Rightarrow>
        if op_operation_type operation \<noteq> ''apply_metadata'' \<or> evidence_id = []
           \<or> op_run_id operation \<noteq> Some (bk_run_id book)
           \<or> op_calibre_book_id operation \<noteq> bk_calibre_book_id book
           \<or> op_field_locks_hash operation \<noteq> Some (hash_json en (PDict (bk_field_locks book)))
        then Inl (ValueError ''V2 operation identity changed after authorization'')
        else case load_v2_package en d evidence_id of
          Inl e \<Rightarrow> Inl e
        | Inr (_, package) \<Rightarrow>
          (case validate_v2_book_snapshot book package of
             Inl e \<Rightarrow> Inl e
           | Inr _ \<Rightarrow>
             (case pilot of
                None \<Rightarrow> Inl (ValueError ''V2 writer runtime pilot binding is unavailable'')
              | Some guard \<Rightarrow>
                (case validate_pilot_guard en guard package of
                   Inl e \<Rightarrow> Inl (ValueError (''V2 writer runtime pilot binding is invalid: '' @ exn_text e))
                 | Inr runtime_root_sha256 \<Rightarrow>
                   (case check_bound_pilot en operation guard runtime_root_sha256 d of
                      Inl e \<Rightarrow> Inl e
                    | Inr _ \<Rightarrow> check_v2_authorized_patch en operation book package d)))))"

definition validate_apply_operation ::
    "env \<Rightarrow> operation \<Rightarrow> book_record \<Rightarrow> pilot_guard option \<Rightarrow> db \<Rightarrow> unit res" where
  "validate_apply_operation en operation book pilot d =
     (if op_policy_version operation \<noteq> ''manifestation-v2''
      then Inl (ValueError ''legacy metadata apply is disabled at the writer boundary'')
      else validate_v2_apply_operation en operation book pilot d)"

section \<open>Queueing\<close>

definition set_book_status :: "string \<Rightarrow> string \<Rightarrow> db \<Rightarrow> db" where
  "set_book_status book_key status d =
     d\<lparr>db_books := row_map (\<lambda>b. bk_book_key b = book_key) (\<lambda>b. b\<lparr>bk_status := status\<rparr>) (db_books d)\<rparr>"

definition queue_undo_operation :: "string \<Rightarrow> string \<Rightarrow> time \<Rightarrow> change \<Rightarrow> db \<Rightarrow> (string \<times> db) res" where
  "queue_undo_operation uuid1 uuid2 now c d =
     (let book = row_first (\<lambda>b. bk_book_key b = ch_book_key c) (db_books d) in
      case create_operation uuid1 uuid2 now (''undo:'' @ show_nat (ch_id c) @ '':'' @ ch_status c) ''undo_change''
             (ch_book_key c) [(''change_id'', PInt (int (ch_id c)))]
             (\<lambda>r. r\<lparr>op_run_id := Some (ch_run_id c),
                    op_calibre_book_id := (case book of Some b \<Rightarrow> bk_calibre_book_id b | None \<Rightarrow> None),
                    op_expected_before_metadata := Some (ch_after_metadata c)\<rparr>) d of
        Inl e \<Rightarrow> Inl e
      | Inr (operation, d1) \<Rightarrow>
          Inr (op_operation_id operation,
               case book of Some b \<Rightarrow> set_book_status (bk_book_key b) ''undo_queued'' d1 | None \<Rightarrow> d1))"

text \<open>
  One book of the loop of \<open>queue_approved_operations\<close>: \<open>Inr (Some id, d)\<close> queues an operation,
  \<open>Inr (None, d)\<close> skips the book.
\<close>

definition queue_approved_book ::
    "env \<Rightarrow> string \<Rightarrow> string \<Rightarrow> time \<Rightarrow> string dict \<Rightarrow> book_record \<Rightarrow> db \<Rightarrow> (string option \<times> db) res" where
  "queue_approved_book en uuid1 uuid2 now authorization_ids book d =
     (case row_first (\<lambda>p. ep_book_key p = bk_book_key book \<and> ep_run_id p = bk_run_id book) (db_evidence d) of
        None \<Rightarrow> Inr (None, d)
      | Some package \<Rightarrow>
        (case ep_decision package of
           None \<Rightarrow> Inr (None, d)
         | Some decision \<Rightarrow>
           (case env_parse_verdict en decision of
              None \<Rightarrow> Inr (None, d)
            | Some verdict \<Rightarrow>
              if vd_book_key verdict \<noteq> bk_book_key book \<or> vd_run_id verdict \<noteq> bk_run_id book then Inr (None, d)
              else
                (case canonicalize_legacy_patch en
                        (filter (\<lambda>(k, _). \<not> dict_has (bk_field_locks book) k) (vd_proposed_patch verdict)) of
                   Inl _ \<Rightarrow> Inr (None, d)
                 | Inr patch \<Rightarrow>
                   if patch = [] then Inr (None, d)
                   else
                     (let eligible = fst (gate_is_eligible False verdict);
                          authorization = (case dict_get authorization_ids (bk_book_key book) of
                             Some aid \<Rightarrow> if aid \<noteq> [] then row_first (\<lambda>a. au_authorization_id a = aid) (db_auths d) else None
                           | None \<Rightarrow> None)
                      in if \<not> eligible \<and> \<not> authorization_matches en authorization book verdict then Inr (None, d)
                         else
                           (case create_operation uuid1 uuid2 now
                                   (''apply:'' @ bk_run_id book @ '':'' @ bk_book_key book @ '':'' @ hash_json en (PDict patch))
                                   ''apply_metadata'' (bk_book_key book) patch
                                   (\<lambda>r. r\<lparr>op_run_id := Some (bk_run_id book),
                                          op_authorization_id := map_option au_authorization_id authorization,
                                          op_calibre_book_id := bk_calibre_book_id book,
                                          op_verdict_hash := Some (hash_verdict en verdict),
                                          op_patch_hash := Some (hash_json en (PDict patch)),
                                          op_field_locks_hash := Some (hash_json en (PDict (bk_field_locks book))),
                                          op_expected_before_metadata :=
                                            Some (map (\<lambda>(f, _). (f, pget (bk_current_metadata book) f)) patch)\<rparr>) d of
                              Inl e \<Rightarrow> Inl e
                            | Inr (operation, d1) \<Rightarrow>
                                if op_state operation = ''requested''
                                then Inr (Some (op_operation_id operation), set_book_status (bk_book_key book) ''apply_queued'' d1)
                                else Inr (None, d1)))))))"

fun queue_approved_books ::
    "env \<Rightarrow> (string \<times> string) list \<Rightarrow> time \<Rightarrow> string dict \<Rightarrow> book_record list \<Rightarrow> db
      \<Rightarrow> (string list \<times> string list \<times> db) res" where
  "queue_approved_books en uuids now authorization_ids [] d = Inr ([], [], d)"
| "queue_approved_books en uuids now authorization_ids (book # books) d =
     (let (u1, u2) = (case uuids of u # _ \<Rightarrow> u | [] \<Rightarrow> ([], [])) in
      case queue_approved_book en u1 u2 now authorization_ids book d of
        Inl e \<Rightarrow> Inl e
      | Inr (r, d1) \<Rightarrow>
          (case queue_approved_books en (tl uuids) now authorization_ids books d1 of
             Inl e \<Rightarrow> Inl e
           | Inr (queued, skipped, d2) \<Rightarrow>
               Inr (case r of Some i \<Rightarrow> (i # queued, skipped, d2) | None \<Rightarrow> (queued, bk_book_key book # skipped, d2))))"

definition queue_approved_operations ::
    "env \<Rightarrow> (string \<times> string) list \<Rightarrow> time \<Rightarrow> string list \<Rightarrow> string dict \<Rightarrow> db \<Rightarrow> (string list \<times> string list \<times> db) res" where
  "queue_approved_operations en uuids now book_keys authorization_ids d =
     queue_approved_books en uuids now authorization_ids
       (filter (\<lambda>b. bk_status b = ''suggest_fix'' \<and> bk_book_key b \<in> set book_keys) (db_books d)) d"

text \<open>
  The outbox query of \<open>queue_v2_operation\<close>: a column of a missing joined row is NULL, and a comparison
  with NULL does not hold.
\<close>

definition blocks_outbox :: "db \<Rightarrow> string \<Rightarrow> outbox_event \<Rightarrow> bool" where
  "blocks_outbox d pilot_id e =
     (ob_status e \<noteq> ''published'' \<and>
      (case row_first (\<lambda>r. op_operation_id r = ob_aggregate_id e) (db_operations d) of
         None \<Rightarrow> True
       | Some r \<Rightarrow>
           \<not> list_ex (\<lambda>a. ak_operation_id a = ob_aggregate_id e) (db_acks d)
           \<or> op_policy_version r \<noteq> ''manifestation-v2'' \<or> op_state r \<noteq> ''failed'' \<or> op_completed_at r = None
           \<or> ob_status e \<noteq> ''failed'' \<or> op_pilot_id r = None
           \<or> (case row_first (\<lambda>p. Some (ps_pilot_id p) = op_pilot_id r) (db_pilots d) of
                None \<Rightarrow> True
              | Some p \<Rightarrow> ps_state p \<noteq> ''stopped'')
           \<or> op_pilot_id r = Some pilot_id
           \<or> list_ex (\<lambda>l. lk_book_key l = op_book_key r) (db_locks d)))"

text \<open>The reservation: the part of \<open>queue_v2_operation\<close> after all checks on the evidence.\<close>

definition reserve_v2_operation ::
    "env \<Rightarrow> string \<Rightarrow> string \<Rightarrow> time \<Rightarrow> book_record \<Rightarrow> evidence_package_v2 \<Rightarrow> pydict \<Rightarrow> string option \<Rightarrow> pilot_session \<Rightarrow> db
      \<Rightarrow> (string \<times> db) res" where
  "reserve_v2_operation en uuid1 uuid2 now book package patch authorization_id stored_pilot d =
     (let pid = ps_pilot_id stored_pilot in
      if list_ex (\<lambda>r. op_state r \<in> set NONTERMINAL_OPERATION_STATES) (db_operations d)
      then Inl (ValueError ''another nonterminal operation is already present'')
      else if list_ex (blocks_outbox d pid) (db_outbox d)
      then Inl (ValueError ''the writer outbox is not empty'')
      else case create_operation uuid1 uuid2 now
             (''apply-v2:'' @ pid @ '':'' @ pk_evidence_id package @ '':'' @ hash_json en (PDict patch))
             ''apply_metadata'' (bk_book_key book) patch
             (\<lambda>r. r\<lparr>op_run_id := Some (bk_run_id book), op_authorization_id := authorization_id,
                    op_calibre_book_id := bk_calibre_book_id book, op_verdict_hash := pk_package_sha256 package,
                    op_patch_hash := Some (hash_json en (PDict patch)),
                    op_field_locks_hash := Some (hash_json en (PDict (bk_field_locks book))),
                    op_expected_before_metadata :=
                      Some (map (\<lambda>(f, _). (f, current_value_for_patch book f)) patch),
                    op_policy_version := ''manifestation-v2'', op_evidence_id := Some (pk_evidence_id package),
                    op_pilot_id := Some pid\<rparr>) d of
        Inl e \<Rightarrow> Inl e
      | Inr (operation, d1) \<Rightarrow>
          if op_state operation \<noteq> ''requested'' then Inl (ValueError ''operation was already queued'')
          else if pilot_operation_count d1 pid \<noteq> ps_reserved_operations stored_pilot + 1
          then Inl (ValueError ''pilot budget ledger changed while reserving an operation'')
          else Inr (op_operation_id operation,
                 set_book_status (bk_book_key book) ''apply_queued''
                   (d1\<lparr>db_pilots := row_map (\<lambda>p. ps_pilot_id p = pid)
                         (\<lambda>p. p\<lparr>ps_reserved_operations := pilot_operation_count d1 pid, ps_updated_at := now\<rparr>)
                         (db_pilots d1)\<rparr>)))"

definition queue_v2_operation ::
    "env \<Rightarrow> bool \<Rightarrow> string \<Rightarrow> string \<Rightarrow> time \<Rightarrow> string \<Rightarrow> string \<Rightarrow> pilot_guard \<Rightarrow> db \<Rightarrow> (string \<times> db) res" where
  "queue_v2_operation en postgresql uuid1 uuid2 now evidence_id authorization_id pilot d =
     (case load_v2_package en d evidence_id of
        Inl e \<Rightarrow> Inl e
      | Inr (_, package) \<Rightarrow>
        (case row_first (\<lambda>b. bk_book_key b = pk_book_key package) (db_books d) of
           None \<Rightarrow> Inl (ValueError ''book snapshot or Tier A identity is unavailable'')
         | Some book \<Rightarrow>
           if bk_run_id book \<noteq> pk_run_id package \<or> mr_tier (pk_identity package) \<noteq> tier_a
           then Inl (ValueError ''book snapshot or Tier A identity is unavailable'')
           else (case validate_v2_book_snapshot book package of
               Inl e \<Rightarrow> Inl e
             | Inr _ \<Rightarrow>
               (case v2_patch en package book of
                  Inl e \<Rightarrow> Inl e
                | Inr patch \<Rightarrow>
                  if patch = [] then Inl (ValueError ''canonical patch is empty'')
                  else
                    (let authorization = row_first (\<lambda>a. au_authorization_id a = authorization_id) (db_auths d) in
                     if \<not> v2_authorization_matches en authorization book package patch
                     then Inl (ValueError ''exact manual authorization is required'')
                     else (case validate_pilot_guard en pilot package of
                         Inl e \<Rightarrow> Inl e
                       | Inr root_sha256 \<Rightarrow>
                         (case lock_v2_queue_mutex postgresql d of
                            Inl e \<Rightarrow> Inl e
                          | Inr _ \<Rightarrow>
                            (case lock_or_create_pilot now pilot root_sha256 d of
                               Inl e \<Rightarrow> Inl e
                             | Inr (stored_pilot, d1) \<Rightarrow>
                                 reserve_v2_operation en uuid1 uuid2 now book package patch
                                   (map_option au_authorization_id authorization) stored_pilot d1)))))))) "

section \<open>Invariants\<close>

text \<open>
  The pilot budget: every session has reserved exactly the operations bound to it, at most its
  maximum and never more than five, and every bound operation has a session.
\<close>

definition pilots_ok :: "db \<Rightarrow> bool" where
  "pilots_ok d =
     (distinct (map ps_pilot_id (db_pilots d))
      \<and> list_all (\<lambda>p. ps_reserved_operations p = pilot_operation_count d (ps_pilot_id p)
           \<and> ps_reserved_operations p \<le> ps_max_operations p \<and> 1 \<le> ps_max_operations p \<and> ps_max_operations p \<le> 5)
           (db_pilots d)
      \<and> list_all (\<lambda>r. op_pilot_id r = None \<or> op_pilot_id r \<in> (\<lambda>p. Some (ps_pilot_id p)) ` set (db_pilots d))
           (db_operations d))"

lemma pilot_count_append:
  "pilot_operation_count (d\<lparr>db_operations := ops @ [r]\<rparr>) pid =
     pilot_operation_count (d\<lparr>db_operations := ops\<rparr>) pid + (if op_pilot_id r = Some pid then 1 else 0)"
  by (simp add: pilot_operation_count_def)

lemma pilot_count_cong: "db_operations d = db_operations d' \<Longrightarrow> pilot_operation_count d = pilot_operation_count d'"
  by (simp add: pilot_operation_count_def fun_eq_iff)

lemma pilot_count_nonneg [simp]: "0 \<le> pilot_operation_count d pid"
  by (simp add: pilot_operation_count_def)

lemma set_book_status_simps [simp]:
  "db_operations (set_book_status k v d) = db_operations d" "db_outbox (set_book_status k v d) = db_outbox d"
  "db_pilots (set_book_status k v d) = db_pilots d" "db_locks (set_book_status k v d) = db_locks d"
  "db_auths (set_book_status k v d) = db_auths d" "db_evidence (set_book_status k v d) = db_evidence d"
  "db_acks (set_book_status k v d) = db_acks d" "db_changes (set_book_status k v d) = db_changes d"
  by (simp_all add: set_book_status_def)

lemma ledger_ok_cong:
  "db_operations d = db_operations d' \<Longrightarrow> db_outbox d = db_outbox d' \<Longrightarrow> ledger_ok d = ledger_ok d'"
  by (simp add: ledger_ok_def)

lemma pilots_ok_cong:
  "db_operations d = db_operations d' \<Longrightarrow> db_pilots d = db_pilots d' \<Longrightarrow> pilots_ok d = pilots_ok d'"
  by (simp add: pilots_ok_def pilot_operation_count_def)

lemma create_operation_Inr_db:
  assumes "create_operation u1 u2 now k ty bkey patch opts d = Inr (r, d')" "keeps_keys opts"
  shows "ledger_ok d \<Longrightarrow> ledger_ok d'"
    "db_books d' = db_books d \<and> db_evidence d' = db_evidence d \<and> db_changes d' = db_changes d \<and> db_locks d' = db_locks d
       \<and> db_pilots d' = db_pilots d \<and> db_acks d' = db_acks d \<and> db_auths d' = db_auths d"
proof -
  show "ledger_ok d \<Longrightarrow> ledger_ok d'"
    using assms(1)
  proof (cases rule: create_operation_cases)
    case (created e)
    assume ok: "ledger_ok d"
    have "op_operation_id r = u1" "op_idempotency_key r = k" "op_wf r"
      using assms(2) created(4)
      by (simp_all add: keeps_keys_def new_operation_def op_wf_def terminal_cases STATES_set)
    with ok created show ?thesis
      by (auto simp: ledger_ok_def row_first_None new_outbox_event_def)
  qed simp
  show "db_books d' = db_books d \<and> db_evidence d' = db_evidence d \<and> db_changes d' = db_changes d \<and> db_locks d' = db_locks d
       \<and> db_pilots d' = db_pilots d \<and> db_acks d' = db_acks d \<and> db_auths d' = db_auths d"
    using assms(1) by (cases rule: create_operation_cases) simp_all
qed

lemma create_unbound_pilots_ok:
  assumes "create_operation u1 u2 now k ty bkey patch opts d = Inr (r, d')" "pilots_ok d"
    and "\<And>x. op_pilot_id (opts x) = op_pilot_id x"
  shows "pilots_ok d'"
  using assms(1)
proof (cases rule: create_operation_cases)
  case (created e)
  have "op_pilot_id r = None" using assms(3) created(4) by (simp add: new_operation_def)
  with assms(2) created(6) show ?thesis by (simp add: pilots_ok_def pilot_operation_count_def)
qed (use assms in simp)

section \<open>The pilot session\<close>

lemma lock_or_create_pilot_Inr:
  assumes "lock_or_create_pilot now pilot root d = Inr (stored, d1)"
  shows "row_first (\<lambda>p. ps_pilot_id p = pg_pilot_id pilot) (db_pilots d1) = Some stored"
    "ps_pilot_id stored = pg_pilot_id pilot" "ps_state stored = ''open''"
    "ps_reserved_operations stored = pilot_operation_count d (pg_pilot_id pilot)"
    "ps_reserved_operations stored < ps_max_operations stored" "ps_max_operations stored = pg_max_operations pilot"
    "ps_library_root_sha256 stored = root" "ps_release_digest stored = pg_release_digest pilot"
    "ps_alembic_revision stored = pg_alembic_revision pilot"
    "d1 = d \<or> row_first (\<lambda>p. ps_pilot_id p = pg_pilot_id pilot) (db_pilots d) = None \<and> d1 = d\<lparr>db_pilots := db_pilots d @ [stored]\<rparr>"
proof -
  have c: "row_first (\<lambda>p. ps_pilot_id p = pg_pilot_id pilot) (db_pilots d) = Some stored \<and> d1 = d
      \<or> row_first (\<lambda>p. ps_pilot_id p = pg_pilot_id pilot) (db_pilots d) = None
        \<and> stored = new_pilot_session pilot root now \<and> d1 = d\<lparr>db_pilots := db_pilots d @ [stored]\<rparr>"
    using assms by (auto simp: lock_or_create_pilot_def Let_def split: option.splits if_splits)
  then show rf: "row_first (\<lambda>p. ps_pilot_id p = pg_pilot_id pilot) (db_pilots d1) = Some stored"
    by (auto simp: row_first_append_None new_pilot_session_def)
  then show "ps_pilot_id stored = pg_pilot_id pilot" using row_first_Some by fastforce
  show "d1 = d \<or> row_first (\<lambda>p. ps_pilot_id p = pg_pilot_id pilot) (db_pilots d) = None \<and> d1 = d\<lparr>db_pilots := db_pilots d @ [stored]\<rparr>"
    using c by blast
  show "ps_state stored = ''open''" "ps_reserved_operations stored = pilot_operation_count d (pg_pilot_id pilot)"
    "ps_reserved_operations stored < ps_max_operations stored" "ps_max_operations stored = pg_max_operations pilot"
    "ps_library_root_sha256 stored = root" "ps_release_digest stored = pg_release_digest pilot"
    "ps_alembic_revision stored = pg_alembic_revision pilot"
    using assms by (auto simp: lock_or_create_pilot_def Let_def split: option.splits if_splits)
qed

lemma lock_or_create_pilots_ok:
  assumes l: "lock_or_create_pilot now pilot root d = Inr (stored, d1)"
    and ok: "pilots_ok d" and m: "1 \<le> pg_max_operations pilot" "pg_max_operations pilot \<le> 5"
  shows "pilots_ok d1"
  using lock_or_create_pilot_Inr(10) [OF l]
proof
  assume a: "row_first (\<lambda>p. ps_pilot_id p = pg_pilot_id pilot) (db_pilots d) = None \<and> d1 = d\<lparr>db_pilots := db_pilots d @ [stored]\<rparr>"
  then have "pg_pilot_id pilot \<notin> ps_pilot_id ` set (db_pilots d)" by (auto simp: row_first_None)
  with a ok m lock_or_create_pilot_Inr(2-6) [OF l] show ?thesis
    by (auto simp: pilots_ok_def pilot_operation_count_def list_all_iff split: option.splits)
qed (use ok in simp)

lemma validate_pilot_guard_Inr:
  assumes "validate_pilot_guard en pilot package = Inr root"
  shows "1 \<le> pg_max_operations pilot" "pg_max_operations pilot \<le> 5" "pg_pilot_id pilot \<noteq> []"
    "pg_enabled pilot" "pg_writer_ready pilot" "sn_library_root (pk_snapshot package) = Some (pg_library_root pilot)"
  using assms by (auto simp: validate_pilot_guard_def Let_def split: if_splits)

section \<open>Reservation\<close>

lemma nonterminal_states: "op_wf r \<Longrightarrow> op_state r \<notin> set NONTERMINAL_OPERATION_STATES \<Longrightarrow> terminal_state (op_state r)"
  by (auto simp: op_wf_def STATES_set NONTERMINAL_OPERATION_STATES_def terminal_cases)

lemma reserve_Inr:
  assumes r: "reserve_v2_operation en u1 u2 now book package patch aid stored d = Inr (oid, d')"
    and ok: "ledger_ok d"
  obtains r e d1 where
    "d1 = d\<lparr>db_operations := db_operations d @ [r], db_outbox := db_outbox d @ [e]\<rparr>"
    "ledger_ok d1" "op_operation_id r = oid" "op_state r = ''requested''" "op_requested_patch r = patch"
    "op_policy_version r = ''manifestation-v2''" "op_pilot_id r = Some (ps_pilot_id stored)"
    "op_evidence_id r = Some (pk_evidence_id package)" "op_book_key r = bk_book_key book"
    "op_operation_type r = ''apply_metadata''" "op_run_id r = Some (bk_run_id book)"
    "op_calibre_book_id r = bk_calibre_book_id book" "op_verdict_hash r = pk_package_sha256 package"
    "op_patch_hash r = Some (hash_json en (PDict patch))"
    "op_field_locks_hash r = Some (hash_json en (PDict (bk_field_locks book)))" "op_authorization_id r = aid"
    "\<forall>x\<in>set (db_operations d). terminal_state (op_state x)"
    "pilot_operation_count d1 (ps_pilot_id stored) = ps_reserved_operations stored + 1"
    "d' = set_book_status (bk_book_key book) ''apply_queued''
            (d1\<lparr>db_pilots := row_map (\<lambda>p. ps_pilot_id p = ps_pilot_id stored)
               (\<lambda>p. p\<lparr>ps_reserved_operations := pilot_operation_count d1 (ps_pilot_id stored), ps_updated_at := now\<rparr>)
               (db_pilots d1)\<rparr>)"
proof -
  let ?k = "''apply-v2:'' @ ps_pilot_id stored @ '':'' @ pk_evidence_id package @ '':'' @ hash_json en (PDict patch)"
  let ?o = "\<lambda>r. r\<lparr>op_run_id := Some (bk_run_id book), op_authorization_id := aid,
                    op_calibre_book_id := bk_calibre_book_id book, op_verdict_hash := pk_package_sha256 package,
                    op_patch_hash := Some (hash_json en (PDict patch)),
                    op_field_locks_hash := Some (hash_json en (PDict (bk_field_locks book))),
                    op_expected_before_metadata :=
                      Some (map (\<lambda>(f, _). (f, current_value_for_patch book f)) patch),
                    op_policy_version := ''manifestation-v2'', op_evidence_id := Some (pk_evidence_id package),
                    op_pilot_id := Some (ps_pilot_id stored)\<rparr>"
  from r obtain op d1 where c: "create_operation u1 u2 now ?k ''apply_metadata'' (bk_book_key book) patch ?o d = Inr (op, d1)"
    and st: "op_state op = ''requested''" and oid: "op_operation_id op = oid"
    and nt: "\<not> list_ex (\<lambda>r. op_state r \<in> set NONTERMINAL_OPERATION_STATES) (db_operations d)"
    and cnt: "pilot_operation_count d1 (ps_pilot_id stored) = ps_reserved_operations stored + 1"
    and d': "d' = set_book_status (bk_book_key book) ''apply_queued''
            (d1\<lparr>db_pilots := row_map (\<lambda>p. ps_pilot_id p = ps_pilot_id stored)
               (\<lambda>p. p\<lparr>ps_reserved_operations := pilot_operation_count d1 (ps_pilot_id stored), ps_updated_at := now\<rparr>)
               (db_pilots d1)\<rparr>)"
    by (auto simp: reserve_v2_operation_def Let_def split: if_splits sum.splits)
  have kk: "keeps_keys ?o" by (simp add: keeps_keys_def)
  have tm: "\<forall>x\<in>set (db_operations d). terminal_state (op_state x)"
    using nt ok nonterminal_states by (fastforce simp: list_ex_iff ledger_ok_def list_all_iff)
  from c show thesis
  proof (cases rule: create_operation_cases)
    case existing
    then have "op \<in> set (db_operations d)" using row_first_Some by fast
    with tm st show thesis by (auto simp: terminal_cases)
  next
    case (created e)
    show thesis
      by (rule that [where r = op and e = e and ?d1.0 = d1])
        (use created(6) create_operation_Inr_db(1) [OF c kk ok] oid st tm cnt d' in
          \<open>simp_all add: created(4) new_operation_def\<close>)
  qed
qed

lemma reserve_pilots_ok:
  assumes r: "reserve_v2_operation en u1 u2 now book package patch aid stored d = Inr (oid, d')"
    and ok: "ledger_ok d" "pilots_ok d" and s: "row_first (\<lambda>p. ps_pilot_id p = pid) (db_pilots d) = Some stored"
    and lt: "ps_reserved_operations stored < ps_max_operations stored"
  shows "pilots_ok d'"
proof -
  have stored: "stored \<in> set (db_pilots d)" "ps_pilot_id stored = pid" using row_first_Some [OF s] by simp_all
  obtain op e d1 where d1: "d1 = d\<lparr>db_operations := db_operations d @ [op], db_outbox := db_outbox d @ [e]\<rparr>"
    and pid: "op_pilot_id op = Some (ps_pilot_id stored)"
    and cnt: "pilot_operation_count d1 (ps_pilot_id stored) = ps_reserved_operations stored + 1"
    and d': "d' = set_book_status (bk_book_key book) ''apply_queued''
            (d1\<lparr>db_pilots := row_map (\<lambda>p. ps_pilot_id p = ps_pilot_id stored)
               (\<lambda>p. p\<lparr>ps_reserved_operations := pilot_operation_count d1 (ps_pilot_id stored), ps_updated_at := now\<rparr>)
               (db_pilots d1)\<rparr>)"
    by (rule reserve_Inr [OF r ok(1)])
  let ?f = "\<lambda>p. if ps_pilot_id p = pid
      then p\<lparr>ps_reserved_operations := pilot_operation_count d1 pid, ps_updated_at := now\<rparr> else p"
  have ops: "db_operations d' = db_operations d @ [op]" by (simp add: d' d1)
  have pl: "db_pilots d' = map ?f (db_pilots d)" by (simp add: d' d1 row_map_def stored)
  have idf: "ps_pilot_id (?f p) = ps_pilot_id p" for p by simp
  have count: "pilot_operation_count d' x = pilot_operation_count d x + (if x = pid then 1 else 0)" for x
    using pid by (auto simp: pilot_operation_count_def ops stored)
  have uniq: "p = stored" if "p \<in> set (db_pilots d)" "ps_pilot_id p = pid" for p
    using ok(2) that stored by (auto simp: pilots_ok_def distinct_map dest: inj_onD)
  have each: "ps_reserved_operations (?f p) = pilot_operation_count d' (ps_pilot_id (?f p))
       \<and> ps_reserved_operations (?f p) \<le> ps_max_operations (?f p)
       \<and> 1 \<le> ps_max_operations (?f p) \<and> ps_max_operations (?f p) \<le> 5" if p: "p \<in> set (db_pilots d)" for p
  proof -
    have o: "ps_reserved_operations p = pilot_operation_count d (ps_pilot_id p)"
        "ps_reserved_operations p \<le> ps_max_operations p" "1 \<le> ps_max_operations p" "ps_max_operations p \<le> 5"
      using ok(2) p by (auto simp: pilots_ok_def list_all_iff)
    show ?thesis
    proof (cases "ps_pilot_id p = pid")
      case True
      with uniq p have "p = stored" by blast
      moreover have "pilot_operation_count d1 pid = pilot_operation_count d' pid"
        using ops by (simp add: pilot_operation_count_def d1)
      ultimately show ?thesis using True o count lt by simp
    qed (use o count in simp)
  qed
  have ids: "map ps_pilot_id (db_pilots d') = map ps_pilot_id (db_pilots d)" by (simp add: pl idf cong: map_cong)
  have img: "(\<lambda>p. Some (ps_pilot_id p)) ` set (db_pilots d') = Some ` set (map ps_pilot_id (db_pilots d))"
    unfolding ids [symmetric] by (simp add: image_image)
  have "list_all (\<lambda>r. op_pilot_id r = None \<or> op_pilot_id r \<in> Some ` set (map ps_pilot_id (db_pilots d))) (db_operations d')"
    using ok(2) stored pid by (auto simp: pilots_ok_def list_all_iff ops)
  moreover have "distinct (map ps_pilot_id (db_pilots d'))" using ok(2) unfolding ids by (simp add: pilots_ok_def)
  moreover have "list_all (\<lambda>p. ps_reserved_operations p = pilot_operation_count d' (ps_pilot_id p)
           \<and> ps_reserved_operations p \<le> ps_max_operations p \<and> 1 \<le> ps_max_operations p \<and> ps_max_operations p \<le> 5) (db_pilots d')"
    unfolding pl list.pred_map using each by (simp only: list_all_iff comp_def) blast
  ultimately show ?thesis unfolding pilots_ok_def img by blast
qed

lemma v2_authorization_matchesD:
  assumes "v2_authorization_matches en a book package patch"
  shows "\<exists>x h. a = Some x \<and> pk_package_sha256 package = Some h \<and> au_book_key x = bk_book_key book
    \<and> au_run_id x = bk_run_id book \<and> au_verdict_hash x = h \<and> au_patch_hash x = hash_json en (PDict patch)"
  using assms by (auto simp: v2_authorization_matches_def split: option.splits)

lemma queue_v2_Inr:
  assumes "queue_v2_operation en pg u1 u2 now eid aid pilot d = Inr (oid, d')"
  obtains row package book patch root stored d1 where
    "load_v2_package en d eid = Inr (row, package)"
    "row_first (\<lambda>b. bk_book_key b = pk_book_key package) (db_books d) = Some book"
    "bk_run_id book = pk_run_id package" "mr_tier (pk_identity package) = tier_a"
    "validate_v2_book_snapshot book package = Inr ()" "v2_patch en package book = Inr patch" "patch \<noteq> []"
    "v2_authorization_matches en (row_first (\<lambda>a. au_authorization_id a = aid) (db_auths d)) book package patch"
    "validate_pilot_guard en pilot package = Inr root"
    "lock_or_create_pilot now pilot root d = Inr (stored, d1)"
    "reserve_v2_operation en u1 u2 now book package patch
       (map_option au_authorization_id (row_first (\<lambda>a. au_authorization_id a = aid) (db_auths d))) stored d1 = Inr (oid, d')"
  using assms by (auto simp: queue_v2_operation_def Let_def split: sum.splits option.splits if_splits)

lemma load_v2_package_Inr:
  assumes "load_v2_package en d eid = Inr (row, package)"
  shows "verify_seal en package = Inr True" "pk_evidence_id package = eid" "row \<in> set (db_evidence d)"
    "row_first (\<lambda>r. ep_evidence_id r = eid) (db_evidence d) = Some row"
  using assms row_first_Some
  by (fastforce simp: load_v2_package_def split: sum.splits option.splits if_splits)+

lemma lock_or_create_db:
  assumes "lock_or_create_pilot now pilot root d = Inr (stored, d1)"
  shows "db_operations d1 = db_operations d" "db_outbox d1 = db_outbox d" "db_books d1 = db_books d"
    "db_auths d1 = db_auths d" "db_evidence d1 = db_evidence d" "db_locks d1 = db_locks d" "db_acks d1 = db_acks d"
    "db_changes d1 = db_changes d"
  using lock_or_create_pilot_Inr(10) [OF assms] by auto

section \<open>Properties of the coordinator\<close>

lemma queue_v2_keeps:
  assumes q: "queue_v2_operation en pg u1 u2 now eid aid pilot d = Inr (oid, d')"
    and ok: "ledger_ok d" "pilots_ok d"
  shows "ledger_ok d' \<and> pilots_ok d' \<and>
    (\<exists>r. db_operations d' = db_operations d @ [r] \<and> op_operation_id r = oid \<and> op_state r = ''requested''
       \<and> op_pilot_id r = Some (pg_pilot_id pilot) \<and> op_policy_version r = ''manifestation-v2'')
    \<and> (\<forall>r\<in>set (db_operations d). terminal_state (op_state r))
    \<and> pilot_operation_count d' (pg_pilot_id pilot) = pilot_operation_count d (pg_pilot_id pilot) + 1
    \<and> pilot_operation_count d' (pg_pilot_id pilot) \<le> 5"
proof -
  from q obtain row package book patch root stored d1 where
    g: "validate_pilot_guard en pilot package = Inr root"
    and l: "lock_or_create_pilot now pilot root d = Inr (stored, d1)"
    and rs: "reserve_v2_operation en u1 u2 now book package patch
       (map_option au_authorization_id (row_first (\<lambda>a. au_authorization_id a = aid) (db_auths d))) stored d1 = Inr (oid, d')"
    by (rule queue_v2_Inr)
  note li = lock_or_create_pilot_Inr [OF l] and ldb = lock_or_create_db [OF l]
  note gi = validate_pilot_guard_Inr [OF g]
  have ok1: "ledger_ok d1" using ok(1) ledger_ok_cong [of d1 d] ldb by simp
  have pk1: "pilots_ok d1" by (rule lock_or_create_pilots_ok [OF l ok(2) gi(1,2)])
  have pk': "pilots_ok d'" by (rule reserve_pilots_ok [OF rs ok1 pk1 li(1,5)])
  from rs ok1 obtain r e d2 where
    d2: "d2 = d1\<lparr>db_operations := db_operations d1 @ [r], db_outbox := db_outbox d1 @ [e]\<rparr>"
    and l2: "ledger_ok d2" and r: "op_operation_id r = oid" "op_state r = ''requested''"
      "op_policy_version r = ''manifestation-v2''" "op_pilot_id r = Some (ps_pilot_id stored)"
    and tm: "\<forall>x\<in>set (db_operations d1). terminal_state (op_state x)"
    and cnt: "pilot_operation_count d2 (ps_pilot_id stored) = ps_reserved_operations stored + 1"
    and d': "d' = set_book_status (bk_book_key book) ''apply_queued''
            (d2\<lparr>db_pilots := row_map (\<lambda>p. ps_pilot_id p = ps_pilot_id stored)
               (\<lambda>p. p\<lparr>ps_reserved_operations := pilot_operation_count d2 (ps_pilot_id stored), ps_updated_at := now\<rparr>)
               (db_pilots d2)\<rparr>)"
    by (rule reserve_Inr)
  have "ledger_ok d'" using l2 ledger_ok_cong [of d' d2] by (simp add: d')
  moreover have "db_operations d' = db_operations d @ [r]" by (simp add: d' d2 ldb)
  moreover have "pilot_operation_count d' (pg_pilot_id pilot) = pilot_operation_count d2 (ps_pilot_id stored)"
    using pilot_count_cong [of d' d2] li(2) by (simp add: d')
  ultimately show ?thesis using pk' r tm cnt li gi(2) ldb(1) by simp
qed

text \<open>
  Claim C4. \<open>queue_v2_operation\<close> commits exactly one new operation, requested, bound to the pilot, and only
  when every earlier operation is terminal; it keeps the ledger consistent and the pilot budget exact
  (reserved = bound operations, at most the maximum, at most five).
\<close>

theorem queue_v2_reserves_one:
  assumes q: "queue_v2_operation en pg u1 u2 now eid aid pilot d = Inr (oid, d')"
    and ok: "ledger_ok d" "pilots_ok d"
  shows "ledger_ok d' \<and> pilots_ok d' \<and>
    (\<exists>r. db_operations d' = db_operations d @ [r] \<and> op_operation_id r = oid \<and> op_state r = ''requested''
       \<and> op_pilot_id r = Some (pg_pilot_id pilot) \<and> op_policy_version r = ''manifestation-v2'')
    \<and> (\<forall>r\<in>set (db_operations d). terminal_state (op_state r))
    \<and> pilot_operation_count d' (pg_pilot_id pilot) = pilot_operation_count d (pg_pilot_id pilot) + 1
    \<and> pilot_operation_count d' (pg_pilot_id pilot) \<le> 5"
  by (rule queue_v2_keeps [OF assms])

text \<open>
  Claim C1. What \<open>queue_v2_operation\<close> queues was sealed and approved: the evidence package loads with a
  valid seal and Tier A, the book still matches the sealed snapshot, the requested patch is the
  canonical patch of the package without any locked field and is not empty, and a stored manual
  authorization names this book, run, seal and the hash of exactly this patch.
\<close>

theorem queue_v2_is_authorized:
  assumes q: "queue_v2_operation en pg u1 u2 now eid aid pilot d = Inr (oid, d')" and ok: "ledger_ok d"
  shows "\<exists>r row package book patch a h. r \<in> set (db_operations d') \<and> op_operation_id r = oid
    \<and> load_v2_package en d eid = Inr (row, package) \<and> verify_seal en package = Inr True
    \<and> mr_tier (pk_identity package) = tier_a
    \<and> book \<in> set (db_books d) \<and> validate_v2_book_snapshot book package = Inr ()
    \<and> v2_patch en package book = Inr patch \<and> op_requested_patch r = patch \<and> patch \<noteq> []
    \<and> (\<forall>f\<in>fst ` set patch. \<not> dict_has (bk_field_locks book) f)
    \<and> a \<in> set (db_auths d) \<and> au_book_key a = bk_book_key book \<and> au_run_id a = bk_run_id book
    \<and> pk_package_sha256 package = Some h \<and> au_verdict_hash a = h \<and> au_patch_hash a = hash_json en (PDict patch)"
proof -
  from q obtain row package book patch root stored d1 where
    ld: "load_v2_package en d eid = Inr (row, package)"
    and bk: "row_first (\<lambda>b. bk_book_key b = pk_book_key package) (db_books d) = Some book"
    and t: "mr_tier (pk_identity package) = tier_a" and sn: "validate_v2_book_snapshot book package = Inr ()"
    and pt: "v2_patch en package book = Inr patch" "patch \<noteq> []"
    and au: "v2_authorization_matches en (row_first (\<lambda>a. au_authorization_id a = aid) (db_auths d)) book package patch"
    and l: "lock_or_create_pilot now pilot root d = Inr (stored, d1)"
    and rs: "reserve_v2_operation en u1 u2 now book package patch
       (map_option au_authorization_id (row_first (\<lambda>a. au_authorization_id a = aid) (db_auths d))) stored d1 = Inr (oid, d')"
    by (rule queue_v2_Inr)
  have ok1: "ledger_ok d1" using ok ledger_ok_cong [of d1 d] lock_or_create_db [OF l] by simp
  from rs ok1 obtain r e d2 where d2: "d2 = d1\<lparr>db_operations := db_operations d1 @ [r], db_outbox := db_outbox d1 @ [e]\<rparr>"
    and r: "op_operation_id r = oid" "op_requested_patch r = patch"
    and d': "d' = set_book_status (bk_book_key book) ''apply_queued''
            (d2\<lparr>db_pilots := row_map (\<lambda>p. ps_pilot_id p = ps_pilot_id stored)
               (\<lambda>p. p\<lparr>ps_reserved_operations := pilot_operation_count d2 (ps_pilot_id stored), ps_updated_at := now\<rparr>)
               (db_pilots d2)\<rparr>)"
    by (rule reserve_Inr)
  have rin: "r \<in> set (db_operations d')" by (simp add: d' d2)
  from v2_authorization_matchesD [OF au] obtain a h
    where a: "row_first (\<lambda>a. au_authorization_id a = aid) (db_auths d) = Some a" "pk_package_sha256 package = Some h"
      "au_book_key a = bk_book_key book" "au_run_id a = bk_run_id book" "au_verdict_hash a = h"
      "au_patch_hash a = hash_json en (PDict patch)" by blast
  from pt(1) have lk: "\<forall>f\<in>fst ` set patch. \<not> dict_has (bk_field_locks book) f"
    by (auto simp: v2_patch_def split: sum.splits)
  note load_v2_package_Inr(1) [OF ld] row_first_Some [OF bk, THEN conjunct1] row_first_Some [OF a(1), THEN conjunct1]
  then show ?thesis
    by (intro exI [of _ r] exI [of _ row] exI [of _ package] exI [of _ book] exI [of _ patch] exI [of _ a]
        exI [of _ h] conjI rin r ld t sn pt lk a(2-6))
qed

section \<open>A request\<close>

definition demo_cenv :: env where
  "demo_cenv = demo_env\<lparr>env_parse_package := (\<lambda>_. Some demo_sealed)\<rparr>"

definition demo_row :: evidence_row where
  "demo_row = \<lparr>ep_id = 1, ep_evidence_id = ''e1'', ep_book_key = ''calibre:7'', ep_run_id = ''r1'', ep_created_at = 0,
     ep_schema_version = 2, ep_current = demo_current, ep_extracted = dump_identity demo_identity, ep_candidates = [],
     ep_snippets = [], ep_cover = None, ep_risk_flags = [], ep_decision = None, ep_observations = Some [(''v'', PInt 2)]\<rparr>"

definition demo_book :: book_record where
  "demo_book = \<lparr>bk_id = 1, bk_book_key = ''calibre:7'', bk_run_id = ''r1'', bk_calibre_book_id = Some 7,
     bk_paperless_document_id = None, bk_source = ''calibre'', bk_discovered_at = 0,
     bk_files = [PDict [(''path'', PStr ''/lib/a.epub'')]], bk_current_metadata = demo_current,
     bk_field_locks = [(''title'', PBool True)], bk_status = ''suggest_fix''\<rparr>"

definition demo_auth :: manual_authorization where
  "demo_auth = \<lparr>au_id = 1, au_authorization_id = ''au1'', au_book_key = ''calibre:7'', au_run_id = ''r1'',
     au_verdict_hash = ''h'', au_patch_hash = ''h'', au_actor = ''ops'', au_reason = ''reviewed'', au_created_at = 1\<rparr>"

definition demo_guard :: pilot_guard where
  "demo_guard = \<lparr>pg_enabled = True, pg_pilot_id = ''p1'', pg_library_root = ''/lib'',
     pg_release_digest = ''sha256:'' @ replicate 64 (CHR ''a''), pg_alembic_revision = ''rev1'', pg_max_operations = 2,
     pg_writer_ready = True\<rparr>"

definition demo_db :: db where
  "demo_db = empty_db\<lparr>db_books := [demo_book], db_evidence := [demo_row], db_auths := [demo_auth]\<rparr>"

definition demo_v2_patch :: pydict where
  "demo_v2_patch = [(''identifiers'', PDict [(''goodreads'', PStr ''44''), (''isbn'', PStr ''9780306406157'')])]"

lemma verify_seal_parse [simp]: "verify_seal (en\<lparr>env_parse_package := f\<rparr>) p = verify_seal en p"
  by (simp add: verify_seal_def verify_invariants_def seal_value_def verify_hash_def calculated_sha256_def
      canonical_json_hash_def snapshot_paths_ok_def local_path_ok_def cong: if_cong sum.case_cong option.case_cong)

lemma demo_sealed_simps:
  "pk_evidence_id demo_sealed = ''e1''" "pk_book_key demo_sealed = ''calibre:7''" "pk_run_id demo_sealed = ''r1''"
  "pk_snapshot demo_sealed = demo_snapshot" "pk_identity demo_sealed = demo_identity" "pk_error demo_sealed = None"
  "pk_state demo_sealed = bs_shadowed" "pk_package_sha256 demo_sealed = Some ''h''"
  "sn_source demo_snapshot = None" "sn_calibre_book_id demo_snapshot = 7" "sn_library_root demo_snapshot = Some ''/lib''"
  by (simp_all add: demo_sealed_def demo_package_def demo_snapshot_def Let_def seal_value_def demo_env_def)

lemma demo_current_eq: "dict_eq demo_current demo_current"
  by (rule py_eq_refl) code_simp

lemma demo_load: "load_v2_package demo_cenv demo_db ''e1'' = Inr (demo_row, demo_sealed)"
proof -
  have "verify_seal demo_env demo_sealed = Inr True"
    using demo_invariants by (simp add: verify_seal_True demo_sealed_def)
  then show ?thesis
    using demo_current_eq demo_identity_dump
    by (simp add: load_v2_package_def demo_db_def row_first_def demo_row_def demo_cenv_def demo_sealed_simps
        demo_snapshot_ok del: py_eq.simps)
qed

lemma demo_snapshot_valid: "validate_v2_book_snapshot demo_book demo_sealed = Inr ()"
proof -
  have "book_file_paths demo_book = [''/lib/a.epub'']" by code_simp
  then show ?thesis using demo_current_eq
    by (simp add: validate_v2_book_snapshot_def demo_sealed_simps demo_snapshot_ok del: py_eq.simps)
      (simp add: demo_book_def del: py_eq.simps)
qed

lemma demo_patch_value: "v2_patch demo_cenv demo_sealed demo_book = Inr demo_v2_patch"
proof -
  have "canonical_patch lax_coerce (mr_auto_patch demo_identity) =
     Inr [(''title'', PStr ''Dune''), (''identifiers'', PDict [(''goodreads'', PStr ''44''), (''isbn'', PStr ''9780306406157'')])]"
    by code_simp
  then show ?thesis
    by (simp add: v2_patch_def demo_cenv_def demo_package_simps demo_sealed_simps demo_book_def dict_has_def demo_v2_patch_def)
qed

lemma demo_guard_ok: "validate_pilot_guard demo_cenv demo_guard demo_sealed = Inr ''h''"
proof -
  have "py_int16_ok (replicate 64 (CHR ''a''))" "canonical_path ''/srv'' ''/lib'' = ''/lib''"
    "py_strip ''p1'' = ''p1''" "py_strip ''rev1'' = ''rev1''" by code_simp+
  then show ?thesis
    by (simp add: validate_pilot_guard_def demo_guard_def demo_cenv_def demo_env_def demo_sealed_simps
        library_root_sha256_def py_startswith_def py_removeprefix_def)
qed

lemma demo_queue: "is_ok (queue_v2_operation demo_cenv True ''u1'' ''v1'' 9 ''e1'' ''au1'' demo_guard demo_db)"
proof -
  have a: "v2_authorization_matches demo_cenv (Some demo_auth) demo_book demo_sealed demo_v2_patch"
    by (simp add: v2_authorization_matches_def demo_sealed_simps demo_auth_def demo_book_def hash_json_def demo_cenv_def demo_env_def)
  have g: "pg_pilot_id demo_guard = ''p1''" "pg_max_operations demo_guard = 2" by (simp_all add: demo_guard_def)
  have b: "row_first (\<lambda>b. bk_book_key b = ''calibre:7'') (db_books demo_db) = Some demo_book"
    "row_first (\<lambda>a. au_authorization_id a = ''au1'') (db_auths demo_db) = Some demo_auth"
    "bk_run_id demo_book = ''r1''" "demo_v2_patch \<noteq> []"
    by (simp_all add: demo_db_def row_first_def demo_book_def demo_auth_def demo_v2_patch_def)
  show ?thesis
    by (simp add: queue_v2_operation_def demo_load demo_sealed_simps b demo_identity_tier demo_snapshot_valid
        demo_patch_value a demo_guard_ok lock_v2_queue_mutex_def lock_or_create_pilot_def g pilot_operation_count_def
        new_pilot_session_def Let_def)
      (simp add: demo_db_def empty_db_def row_first_def reserve_v2_operation_def create_operation_def Let_def
        new_operation_def pilot_operation_count_def g)
qed

lemma demo_db_ok: "ledger_ok demo_db" "pilots_ok demo_db"
  by (simp_all add: ledger_ok_def pilots_ok_def demo_db_def empty_db_def)

lemma demo_queue_obtain:
  "\<exists>oid d'. queue_v2_operation demo_cenv True ''u1'' ''v1'' 9 ''e1'' ''au1'' demo_guard demo_db = Inr (oid, d')"
  using demo_queue by (cases "queue_v2_operation demo_cenv True ''u1'' ''v1'' 9 ''e1'' ''au1'' demo_guard demo_db") auto

theorem queue_v2_reserves_one_witness:
  "\<exists>oid d'. queue_v2_operation demo_cenv True ''u1'' ''v1'' 9 ''e1'' ''au1'' demo_guard demo_db = Inr (oid, d')
     \<and> pilot_operation_count d' ''p1'' = pilot_operation_count demo_db ''p1'' + 1 \<and> ledger_ok d' \<and> pilots_ok d'"
proof -
  obtain oid d' where q: "queue_v2_operation demo_cenv True ''u1'' ''v1'' 9 ''e1'' ''au1'' demo_guard demo_db = Inr (oid, d')"
    using demo_queue_obtain by blast
  have "pg_pilot_id demo_guard = ''p1''" by (simp add: demo_guard_def)
  with q queue_v2_reserves_one [OF q demo_db_ok] show ?thesis by auto
qed

theorem queue_v2_is_authorized_witness:
  "\<exists>r d' patch. r \<in> set (db_operations d') \<and> op_requested_patch r = patch \<and> patch \<noteq> []
     \<and> v2_patch demo_cenv demo_sealed demo_book = Inr demo_v2_patch
     \<and> (\<exists>oid. queue_v2_operation demo_cenv True ''u1'' ''v1'' 9 ''e1'' ''au1'' demo_guard demo_db = Inr (oid, d'))"
proof -
  obtain oid d' where q: "queue_v2_operation demo_cenv True ''u1'' ''v1'' 9 ''e1'' ''au1'' demo_guard demo_db = Inr (oid, d')"
    using demo_queue_obtain by blast
  from queue_v2_is_authorized [OF q demo_db_ok(1)] obtain r where "r \<in> set (db_operations d')" "op_requested_patch r \<noteq> []"
    by blast
  with q demo_patch_value show ?thesis by blast
qed

section \<open>What the writer boundary accepts\<close>

text \<open>
  Claim C7. \<open>validate_apply_operation\<close> accepts an operation only when it is a supervised V2 operation whose
  sealed Tier A package still loads and still matches the book, whose field locks are unchanged, whose
  pilot session is open, within its budget and bound to the running release, and for which a stored
  authorization names exactly the seal and the patch; a legacy operation is always refused.
\<close>

theorem validate_apply_operation_sound:
  assumes "validate_apply_operation en operation book pilot d = Inr ()"
  shows "op_policy_version operation = ''manifestation-v2'' \<and> op_operation_type operation = ''apply_metadata''
    \<and> op_field_locks_hash operation = Some (hash_json en (PDict (bk_field_locks book)))
    \<and> (\<exists>eid row package patch a h. op_evidence_id operation = Some eid \<and> load_v2_package en d eid = Inr (row, package)
        \<and> verify_seal en package = Inr True \<and> mr_tier (pk_identity package) = tier_a
        \<and> validate_v2_book_snapshot book package = Inr () \<and> v2_patch en package book = Inr patch
        \<and> dict_eq patch (op_requested_patch operation)
        \<and> a \<in> set (db_auths d) \<and> au_book_key a = bk_book_key book \<and> au_verdict_hash a = h
        \<and> pk_package_sha256 package = Some h \<and> au_patch_hash a = hash_json en (PDict patch))
    \<and> (\<exists>guard p. pilot = Some guard \<and> p \<in> set (db_pilots d) \<and> op_pilot_id operation = Some (ps_pilot_id p)
        \<and> ps_pilot_id p = pg_pilot_id guard \<and> ps_state p = ''open'' \<and> ps_release_digest p = pg_release_digest guard
        \<and> pg_enabled guard \<and> 1 \<le> ps_reserved_operations p \<and> ps_reserved_operations p \<le> ps_max_operations p
        \<and> ps_reserved_operations p = pilot_operation_count d (ps_pilot_id p))"
proof -
  from assms have pv: "op_policy_version operation = ''manifestation-v2''"
    and v: "validate_v2_apply_operation en operation book pilot d = Inr ()"
    by (auto simp: validate_apply_operation_def split: if_splits)
  from v obtain eid row package guard root where
    id: "op_evidence_id operation = Some eid" "op_operation_type operation = ''apply_metadata''"
      "op_field_locks_hash operation = Some (hash_json en (PDict (bk_field_locks book)))"
    and ld: "load_v2_package en d eid = Inr (row, package)" and sn: "validate_v2_book_snapshot book package = Inr ()"
    and pg: "pilot = Some guard" "validate_pilot_guard en guard package = Inr root"
    and bp: "check_bound_pilot en operation guard root d = Inr ()"
    and ap: "check_v2_authorized_patch en operation book package d = Inr ()"
    by (auto simp: validate_v2_apply_operation_def split: option.splits if_splits sum.splits)
  from bp obtain p where p: "row_first (\<lambda>q. ps_pilot_id q = pg_pilot_id guard) (db_pilots d) = Some p"
      "op_pilot_id operation = Some (pg_pilot_id guard)" "ps_state p = ''open''" "ps_release_digest p = pg_release_digest guard"
      "1 \<le> ps_reserved_operations p" "ps_reserved_operations p \<le> ps_max_operations p"
      "ps_reserved_operations p = pilot_operation_count d (pg_pilot_id guard)"
    by (auto simp: check_bound_pilot_def not_less split: option.splits if_splits)
  from row_first_Some [OF p(1)] have pp: "p \<in> set (db_pilots d)" "ps_pilot_id p = pg_pilot_id guard" by simp_all
  from ap obtain patch where pt: "v2_patch en package book = Inr patch" "mr_tier (pk_identity package) = tier_a"
      "dict_eq patch (op_requested_patch operation)"
    and au: "v2_authorization_matches en (row_first (\<lambda>a. Some (au_authorization_id a) = op_authorization_id operation) (db_auths d))
      book package patch"
    by (auto simp: check_v2_authorized_patch_def Let_def simp del: py_eq.simps split: sum.splits if_splits)
  from v2_authorization_matchesD [OF au] row_first_Some obtain a h where
    "a \<in> set (db_auths d)" "au_book_key a = bk_book_key book" "pk_package_sha256 package = Some h"
    "au_verdict_hash a = h" "au_patch_hash a = hash_json en (PDict patch)" by fast
  then have E: "\<exists>eid row package patch a h. op_evidence_id operation = Some eid \<and> load_v2_package en d eid = Inr (row, package)
        \<and> verify_seal en package = Inr True \<and> mr_tier (pk_identity package) = tier_a
        \<and> validate_v2_book_snapshot book package = Inr () \<and> v2_patch en package book = Inr patch
        \<and> dict_eq patch (op_requested_patch operation)
        \<and> a \<in> set (db_auths d) \<and> au_book_key a = bk_book_key book \<and> au_verdict_hash a = h
        \<and> pk_package_sha256 package = Some h \<and> au_patch_hash a = hash_json en (PDict patch)"
    using id(1) ld load_v2_package_Inr(1) [OF ld] sn pt by (simp del: py_eq.simps) metis
  have G: "\<exists>guard p. pilot = Some guard \<and> p \<in> set (db_pilots d) \<and> op_pilot_id operation = Some (ps_pilot_id p)
        \<and> ps_pilot_id p = pg_pilot_id guard \<and> ps_state p = ''open'' \<and> ps_release_digest p = pg_release_digest guard
        \<and> pg_enabled guard \<and> 1 \<le> ps_reserved_operations p \<and> ps_reserved_operations p \<le> ps_max_operations p
        \<and> ps_reserved_operations p = pilot_operation_count d (ps_pilot_id p)"
    using pg(1) validate_pilot_guard_Inr(4) [OF pg(2)] p pp by auto
  from pv id(2,3) E G show ?thesis by blast
qed

section \<open>A queued operation is accepted\<close>

text \<open>Python dicts have distinct keys, so the coercion of a value is a well-formed value.\<close>

definition coerce_wf :: "(string \<Rightarrow> pyval \<Rightarrow> pyval option) \<Rightarrow> bool" where
  "coerce_wf c = (\<forall>f v w. c f v = Some w \<longrightarrow> wf_val w)"

lemma validate_patch_field_wf:
  assumes "coerce_wf c" "validate_patch_field c f v = Inr w"
  shows "wf_val w"
  using assms
  by (auto simp: validate_patch_field_def coerce_wf_def validate_cover_def canonical_patch_identifiers_def Let_def wf_str_dict
      split: if_splits pyval.splits option.splits sum.splits)

lemma canonical_patch_wf:
  assumes "coerce_wf c" "canonical_patch c p = Inr q"
  shows "wf_val (PDict q)"
proof -
  from assms(2) have v: "validate_patch_fields c p ALLOWED_PATCH_FIELDS = Inr q"
    by (auto simp: canonical_patch_def split: if_splits)
  have dk: "distinct (map fst q)" using validate_patch_fields_keys [OF v] distinct_ALLOWED by blast
  moreover have "wf_val w" if "(f, w) \<in> set q" for f w
  proof -
    from that dk have "dict_get q f = Some w" by (simp add: dict_get_def)
    with canonical_patch_get [OF assms(2)] have "validate_patch_field c f (pget p f) = Inr w" by blast
    with assms(1) show ?thesis by (rule validate_patch_field_wf)
  qed
  ultimately show ?thesis by (auto simp: list_all_iff)
qed

lemma v2_patch_wf:
  assumes "coerce_wf (env_coerce en)" "v2_patch en package book = Inr patch"
  shows "wf_val (PDict patch)"
proof -
  from assms(2) obtain q where q: "canonical_patch (env_coerce en) (mr_auto_patch (pk_identity package)) = Inr q"
    and p: "patch = filter (\<lambda>(field, _). \<not> dict_has (bk_field_locks book) field) q"
    by (auto simp: v2_patch_def split: sum.splits)
  from canonical_patch_wf [OF assms(1) q] show ?thesis
    by (auto simp: p list_all_iff distinct_map_filter)
qed

lemma validate_snapshot_status [simp]:
  "validate_v2_book_snapshot (book\<lparr>bk_status := s\<rparr>) package = validate_v2_book_snapshot book package"
  by (simp add: validate_v2_book_snapshot_def book_file_paths_def Let_def)

lemma v2_patch_status [simp]: "v2_patch en package (book\<lparr>bk_status := s\<rparr>) = v2_patch en package book"
  by (simp add: v2_patch_def cong: sum.case_cong)

lemma authorization_matches_status [simp]:
  "v2_authorization_matches en a (book\<lparr>bk_status := s\<rparr>) package patch = v2_authorization_matches en a book package patch"
  by (simp add: v2_authorization_matches_def cong: option.case_cong)

lemma load_v2_package_cong: "db_evidence d' = db_evidence d \<Longrightarrow> load_v2_package en d' eid = load_v2_package en d eid"
  by (simp add: load_v2_package_def)

lemma bound_pilot_after_reserve:
  assumes l: "lock_or_create_pilot now pilot root d = Inr (stored, d1)"
    and g: "validate_pilot_guard en pilot package = Inr root" and rev: "env_schema_revision en = pg_alembic_revision pilot"
    and r: "op_pilot_id r = Some (ps_pilot_id stored)"
    and cnt: "pilot_operation_count d2 (ps_pilot_id stored) = ps_reserved_operations stored + 1"
    and d': "db_operations d' = db_operations d2"
      "db_pilots d' = row_map (\<lambda>p. ps_pilot_id p = ps_pilot_id stored)
         (\<lambda>p. p\<lparr>ps_reserved_operations := pilot_operation_count d2 (ps_pilot_id stored), ps_updated_at := now\<rparr>) (db_pilots d1)"
  shows "check_bound_pilot en r pilot root d' = Inr ()"
proof -
  note li = lock_or_create_pilot_Inr [OF l]
  have f: "row_first (\<lambda>p. ps_pilot_id p = pg_pilot_id pilot) (db_pilots d') =
      Some (stored\<lparr>ps_reserved_operations := pilot_operation_count d2 (ps_pilot_id stored), ps_updated_at := now\<rparr>)"
    unfolding d'(2) by (subst row_first_row_map) (simp_all add: li)
  have "pilot_operation_count d' (pg_pilot_id pilot) = ps_reserved_operations stored + 1"
    using cnt d'(1) li(2) by (simp add: pilot_operation_count_def)
  moreover have "0 \<le> ps_reserved_operations stored" by (simp add: li(4))
  ultimately show ?thesis
    using f r validate_pilot_guard_Inr(3) [OF g] li cnt rev by (simp add: check_bound_pilot_def not_less)
qed

lemma authorized_after_reserve:
  assumes "v2_patch en package book = Inr patch" "mr_tier (pk_identity package) = tier_a" "wf_val (PDict patch)"
    and "v2_authorization_matches en (row_first (\<lambda>a. au_authorization_id a = aid) (db_auths d)) book package patch"
    and "op_verdict_hash r = pk_package_sha256 package" "op_requested_patch r = patch"
      "op_patch_hash r = Some (hash_json en (PDict patch))"
      "op_authorization_id r = map_option au_authorization_id (row_first (\<lambda>a. au_authorization_id a = aid) (db_auths d))"
    and "db_auths d' = db_auths d"
  shows "check_v2_authorized_patch en r book package d' = Inr ()"
proof -
  from v2_authorization_matchesD [OF assms(4)] obtain a
    where a: "row_first (\<lambda>a. au_authorization_id a = aid) (db_auths d) = Some a" by blast
  then have "au_authorization_id a = aid" using row_first_Some by fast
  then have "row_first (\<lambda>x. Some (au_authorization_id x) = op_authorization_id r) (db_auths d') = Some a"
    using a assms(8,9) by simp
  with a assms py_eq_refl [OF assms(3)] show ?thesis
    by (simp add: check_v2_authorized_patch_def Let_def del: py_eq.simps)
qed

lemma queued_validates:
  assumes q: "queue_v2_operation en pg u1 u2 now eid aid pilot d = Inr (oid, d')"
    and ok: "ledger_ok d" "pilots_ok d" and wf: "coerce_wf (env_coerce en)" and ne: "eid \<noteq> []"
    and rev: "env_schema_revision en = pg_alembic_revision pilot"
  shows "\<exists>r book. r \<in> set (db_operations d') \<and> op_operation_id r = oid \<and> book \<in> set (db_books d')
    \<and> bk_book_key book = op_book_key r \<and> validate_apply_operation en r book (Some pilot) d' = Inr ()"
proof -
  from q obtain row package book patch root stored d1 where
    ld: "load_v2_package en d eid = Inr (row, package)"
    and bk: "row_first (\<lambda>b. bk_book_key b = pk_book_key package) (db_books d) = Some book"
    and t: "mr_tier (pk_identity package) = tier_a" and sn: "validate_v2_book_snapshot book package = Inr ()"
    and pt: "v2_patch en package book = Inr patch"
    and au: "v2_authorization_matches en (row_first (\<lambda>a. au_authorization_id a = aid) (db_auths d)) book package patch"
    and g: "validate_pilot_guard en pilot package = Inr root"
    and l: "lock_or_create_pilot now pilot root d = Inr (stored, d1)"
    and rs: "reserve_v2_operation en u1 u2 now book package patch
       (map_option au_authorization_id (row_first (\<lambda>a. au_authorization_id a = aid) (db_auths d))) stored d1 = Inr (oid, d')"
    by (rule queue_v2_Inr)
  note ldb = lock_or_create_db [OF l]
  have ok1: "ledger_ok d1" using ok(1) ledger_ok_cong [of d1 d] ldb by simp
  from rs ok1 obtain r e d2 where d2: "d2 = d1\<lparr>db_operations := db_operations d1 @ [r], db_outbox := db_outbox d1 @ [e]\<rparr>"
    and r: "op_operation_id r = oid" "op_requested_patch r = patch" "op_policy_version r = ''manifestation-v2''"
      "op_pilot_id r = Some (ps_pilot_id stored)" "op_evidence_id r = Some (pk_evidence_id package)"
      "op_book_key r = bk_book_key book" "op_operation_type r = ''apply_metadata''" "op_run_id r = Some (bk_run_id book)"
      "op_calibre_book_id r = bk_calibre_book_id book" "op_verdict_hash r = pk_package_sha256 package"
      "op_patch_hash r = Some (hash_json en (PDict patch))"
      "op_field_locks_hash r = Some (hash_json en (PDict (bk_field_locks book)))"
      "op_authorization_id r = map_option au_authorization_id (row_first (\<lambda>a. au_authorization_id a = aid) (db_auths d))"
    and cnt: "pilot_operation_count d2 (ps_pilot_id stored) = ps_reserved_operations stored + 1"
    and d': "d' = set_book_status (bk_book_key book) ''apply_queued''
            (d2\<lparr>db_pilots := row_map (\<lambda>p. ps_pilot_id p = ps_pilot_id stored)
               (\<lambda>p. p\<lparr>ps_reserved_operations := pilot_operation_count d2 (ps_pilot_id stored), ps_updated_at := now\<rparr>)
               (db_pilots d2)\<rparr>)"
    by (rule reserve_Inr)
  let ?b = "book\<lparr>bk_status := ''apply_queued''\<rparr>"
  have "?b \<in> set (row_map (\<lambda>b. bk_book_key b = bk_book_key book) (\<lambda>b. b\<lparr>bk_status := ''apply_queued''\<rparr>) (db_books d))"
    unfolding set_row_map by (rule image_eqI [of _ _ book]) (use row_first_Some [OF bk] in simp_all)
  then have bin: "?b \<in> set (db_books d')" by (simp add: d' d2 ldb set_book_status_def)
  have "load_v2_package en d' eid = Inr (row, package)"
  proof -
    have "db_evidence d' = db_evidence d" by (simp add: d' d2 ldb)
    from load_v2_package_cong [OF this] ld show ?thesis by (rule trans)
  qed
  moreover have "check_bound_pilot en r pilot root d' = Inr ()"
    by (rule bound_pilot_after_reserve [OF l g rev r(4) cnt]) (simp_all add: d' d2)
  moreover have "check_v2_authorized_patch en r ?b package d' = Inr ()"
    by (rule authorized_after_reserve [where d = d and aid = aid and patch = patch])
      (use t pt au r v2_patch_wf [OF wf pt] in \<open>simp_all add: d' d2 ldb del: wf_val.simps\<close>)
  ultimately have "validate_apply_operation en r ?b (Some pilot) d' = Inr ()"
    using r g sn load_v2_package_Inr(2) [OF ld] ne
    by (simp add: validate_apply_operation_def validate_v2_apply_operation_def)
  with bin r show ?thesis by (intro exI [of _ r] exI [of _ ?b]) (simp add: d' d2)
qed

lemma lax_coerce_wf: "coerce_wf lax_coerce"
  by (auto simp: coerce_wf_def lax_coerce_def split: if_splits pyval.splits)

text \<open>
  Claim C6. Queueing and the writer boundary agree: right after \<open>queue_v2_operation\<close> succeeds, the writer's
  \<open>validate_apply_operation\<close> accepts the queued operation for the book it names, as long as the pilot
  runs the code's schema revision. No accepted request is stranded by the second check.
\<close>

theorem queued_operation_validates:
  assumes q: "queue_v2_operation en pg u1 u2 now eid aid pilot d = Inr (oid, d')"
    and ok: "ledger_ok d" "pilots_ok d" and wf: "coerce_wf (env_coerce en)" and ne: "eid \<noteq> []"
    and rev: "env_schema_revision en = pg_alembic_revision pilot"
  shows "\<exists>r book. r \<in> set (db_operations d') \<and> op_operation_id r = oid \<and> book \<in> set (db_books d')
    \<and> bk_book_key book = op_book_key r \<and> validate_apply_operation en r book (Some pilot) d' = Inr ()"
  by (rule queued_validates [OF assms])

theorem queued_operation_validates_witness:
  "\<exists>r d' book. r \<in> set (db_operations d') \<and> validate_apply_operation demo_cenv r book (Some demo_guard) d' = Inr ()"
proof -
  obtain oid d' where q: "queue_v2_operation demo_cenv True ''u1'' ''v1'' 9 ''e1'' ''au1'' demo_guard demo_db = Inr (oid, d')"
    using demo_queue_obtain by blast
  have "coerce_wf (env_coerce demo_cenv)" "env_schema_revision demo_cenv = pg_alembic_revision demo_guard"
    using lax_coerce_wf by (simp_all add: demo_cenv_def demo_env_def demo_guard_def)
  with queued_operation_validates [OF q demo_db_ok] show ?thesis by blast
qed

lemma demo_accepted:
  assumes "queue_v2_operation demo_cenv True ''u1'' ''v1'' 9 ''e1'' ''au1'' demo_guard demo_db = Inr (oid, d')"
  shows "\<exists>r book. validate_apply_operation demo_cenv r book (Some demo_guard) d' = Inr ()"
proof -
  have "coerce_wf (env_coerce demo_cenv)" "env_schema_revision demo_cenv = pg_alembic_revision demo_guard"
    using lax_coerce_wf by (simp_all add: demo_cenv_def demo_env_def demo_guard_def)
  with queued_validates [OF assms demo_db_ok] show ?thesis by blast
qed

theorem validate_apply_operation_sound_witness:
  "\<exists>r d' book. validate_apply_operation demo_cenv r book (Some demo_guard) d' = Inr ()
     \<and> op_policy_version r = ''manifestation-v2'' \<and> (\<exists>p\<in>set (db_pilots d'). ps_state p = ''open'')"
proof -
  obtain oid d' where q: "queue_v2_operation demo_cenv True ''u1'' ''v1'' 9 ''e1'' ''au1'' demo_guard demo_db = Inr (oid, d')"
    using demo_queue_obtain by blast
  obtain r book where v: "validate_apply_operation demo_cenv r book (Some demo_guard) d' = Inr ()"
    using demo_accepted [OF q] by blast
  from validate_apply_operation_sound [OF v] v show ?thesis by blast
qed

section \<open>Any sequence of requests\<close>

text \<open>One committed request of the coordinator, with any arguments.\<close>

inductive coord_step :: "env \<Rightarrow> db \<Rightarrow> db \<Rightarrow> bool" for en where
  queue_v2: "queue_v2_operation en pg u1 u2 now eid aid pilot d = Inr (oid, d') \<Longrightarrow> coord_step en d d'"
| queue_undo: "queue_undo_operation u1 u2 now c d = Inr (oid, d') \<Longrightarrow> coord_step en d d'"
| queue_approved: "queue_approved_operations en uuids now keys aids d = Inr (qs, ss, d') \<Longrightarrow> coord_step en d d'"
| acknowledge: "acknowledge_v2_failure now oid actor reason d = Inr (ack, d') \<Longrightarrow> coord_step en d d'"
| authorize_v2: "create_v2_manual_authorization en u now book package actor reason d = Inr (a, d') \<Longrightarrow> coord_step en d d'"
| authorize: "create_manual_authorization en u now book verdict actor reason d = Inr (a, d') \<Longrightarrow> coord_step en d d'"

definition coord_inv :: "db \<Rightarrow> bool" where
  "coord_inv d = (ledger_ok d \<and> pilots_ok d)"

lemma coord_inv_cong:
  "db_operations d' = db_operations d \<Longrightarrow> db_outbox d' = db_outbox d \<Longrightarrow> db_pilots d' = db_pilots d \<Longrightarrow>
     coord_inv d \<Longrightarrow> coord_inv d'"
  using ledger_ok_cong [of d' d] pilots_ok_cong [of d' d] by (simp add: coord_inv_def)

lemma create_unbound_inv:
  assumes "create_operation u1 u2 now k ty bkey patch opts d = Inr (r, d')" "coord_inv d" "keeps_keys opts"
    and "\<And>x. op_pilot_id (opts x) = op_pilot_id x"
  shows "coord_inv d'"
  using create_operation_Inr_db(1) [OF assms(1,3)] create_unbound_pilots_ok [OF assms(1)] assms(2,4)
  by (simp add: coord_inv_def)

lemma queue_undo_inv:
  assumes "queue_undo_operation u1 u2 now c d = Inr (oid, d')" "coord_inv d"
  shows "coord_inv d'"
proof -
  let ?book = "row_first (\<lambda>b. bk_book_key b = ch_book_key c) (db_books d)"
  from assms(1) obtain r d1 where
    cr: "create_operation u1 u2 now (''undo:'' @ show_nat (ch_id c) @ '':'' @ ch_status c) ''undo_change''
             (ch_book_key c) [(''change_id'', PInt (int (ch_id c)))]
             (\<lambda>r. r\<lparr>op_run_id := Some (ch_run_id c),
                    op_calibre_book_id := (case ?book of Some b \<Rightarrow> bk_calibre_book_id b | None \<Rightarrow> None),
                    op_expected_before_metadata := Some (ch_after_metadata c)\<rparr>) d = Inr (r, d1)"
    and d': "d' = (case ?book of Some b \<Rightarrow> set_book_status (bk_book_key b) ''undo_queued'' d1 | None \<Rightarrow> d1)"
    by (auto simp: queue_undo_operation_def Let_def split: sum.splits)
  have "coord_inv d1" by (rule create_unbound_inv [OF cr assms(2)]) (simp_all add: keeps_keys_def)
  then show ?thesis by (rule coord_inv_cong [rotated 3]) (simp_all add: d' split: option.split)
qed

lemma queue_approved_book_inv:
  assumes "queue_approved_book en u1 u2 now aids book d = Inr (x, d')" "coord_inv d"
  shows "coord_inv d'"
proof (cases "d' = d")
  case False
  with assms(1) obtain k p r d1 aid cid vh ph fl ex where
    cr: "create_operation u1 u2 now k ''apply_metadata'' (bk_book_key book) p
          (\<lambda>r. r\<lparr>op_run_id := Some (bk_run_id book), op_authorization_id := aid, op_calibre_book_id := cid,
                 op_verdict_hash := vh, op_patch_hash := ph, op_field_locks_hash := fl,
                 op_expected_before_metadata := ex\<rparr>) d = Inr (r, d1)"
    and d': "d' = set_book_status (bk_book_key book) ''apply_queued'' d1 \<or> d' = d1"
    unfolding queue_approved_book_def Let_def
    by (simp split: option.splits sum.splits if_splits prod.splits)
  have "coord_inv d1" by (rule create_unbound_inv [OF cr assms(2)]) (simp_all add: keeps_keys_def)
  then show ?thesis by (rule coord_inv_cong [rotated 3]) (use d' in auto)
qed (use assms in simp)

lemma queue_approved_books_inv:
  "queue_approved_books en uuids now aids books d = Inr (qs, ss, d') \<Longrightarrow> coord_inv d \<Longrightarrow> coord_inv d'"
proof (induction en uuids now aids books d arbitrary: qs ss d' rule: queue_approved_books.induct)
  case (2 en uuids now aids book books d)
  obtain u1 u2 where u: "(case uuids of u # _ \<Rightarrow> u | [] \<Rightarrow> ([], [])) = (u1, u2)" by fastforce
  from "2.prems"(1) obtain x d1 qs' ss' where
    b: "queue_approved_book en u1 u2 now aids book d = Inr (x, d1)"
    and rest: "queue_approved_books en (tl uuids) now aids books d1 = Inr (qs', ss', d')"
    by (auto simp: u split: sum.splits option.splits)
  have "coord_inv d1" by (rule queue_approved_book_inv [OF b "2.prems"(2)])
  with "2.IH" [OF u [symmetric] refl b refl rest] show ?case by simp
qed simp

lemma insert_authorization_db:
  "insert_authorization a d = Inr (x, d') \<Longrightarrow> d' = d\<lparr>db_auths := db_auths d @ [a]\<rparr> \<and> x = a"
  by (auto simp: insert_authorization_def split: if_splits)

lemma create_authorization_db:
  "create_v2_manual_authorization en u now book package actor reason d = Inr (a, d') \<Longrightarrow> d' = d\<lparr>db_auths := db_auths d @ [a]\<rparr>"
  "create_manual_authorization en u now book verdict actor reason d = Inr (a, d') \<Longrightarrow> d' = d\<lparr>db_auths := db_auths d @ [a]\<rparr>"
  by (auto simp: create_v2_manual_authorization_def create_manual_authorization_def
      split: if_splits sum.splits option.splits bool.splits dest: insert_authorization_db)

lemma acknowledge_db:
  "acknowledge_v2_failure now oid actor reason d = Inr (ack, d') \<Longrightarrow> d' = d\<lparr>db_acks := db_acks d @ [ack]\<rparr>"
  by (auto simp: acknowledge_v2_failure_def Let_def split: if_splits option.splits)

lemma coord_step_inv:
  assumes "coord_inv d" "coord_step en d d'"
  shows "coord_inv d'"
  using assms(2,1)
proof (cases rule: coord_step.cases)
  case (queue_v2 pg u1 u2 now eid aid pilot oid)
  then show ?thesis using queue_v2_keeps [of en pg u1 u2 now eid aid pilot d oid d'] assms(1) by (simp add: coord_inv_def)
next
  case (queue_approved uuids now keys aids qs ss)
  with assms(1) show ?thesis by (auto simp: queue_approved_operations_def intro: queue_approved_books_inv)
next
  case (acknowledge now oid actor reason ack)
  then show ?thesis using assms(1) coord_inv_cong [of d' d] by (auto dest!: acknowledge_db)
next
  case (authorize_v2 u now book package actor reason a)
  then show ?thesis using assms(1) coord_inv_cong [of d' d] by (auto dest!: create_authorization_db(1))
next
  case (authorize u now book verdict actor reason a)
  then show ?thesis using assms(1) coord_inv_cong [of d' d] by (auto dest!: create_authorization_db(2))
qed (use queue_undo_inv assms in blast)

interpretation coordinator: transition_system "coord_step en" coord_inv
  by unfold_locales (rule coord_step_inv)

lemma pilots_ok_budget:
  assumes "pilots_ok d"
  shows "pilot_operation_count d pid \<le> 5"
proof (cases "\<exists>p\<in>set (db_pilots d). ps_pilot_id p = pid")
  case True
  with assms show ?thesis by (fastforce simp: pilots_ok_def list_all_iff)
next
  case False
  with assms have "filter (\<lambda>r. op_pilot_id r = Some pid) (db_operations d) = []"
    by (auto simp: pilots_ok_def list_all_iff filter_empty_conv)
  then show ?thesis by (simp add: pilot_operation_count_def)
qed

text \<open>
  Claim C5. The supervised pilot can never exceed its budget: from an empty ledger, whatever sequence of
  queueing, undo, approval, acknowledgement and authorization requests the coordinator commits, every
  pilot session has reserved exactly its bound operations, at most its maximum, and no pilot ever has
  more than five operations.
\<close>

theorem pilot_budget_never_exceeded:
  assumes "(coord_step en)\<^sup>*\<^sup>* d d'" "coord_inv d"
  shows "pilot_operation_count d' pid \<le> 5 \<and>
    (\<forall>p\<in>set (db_pilots d'). ps_reserved_operations p = pilot_operation_count d' (ps_pilot_id p)
        \<and> ps_reserved_operations p \<le> ps_max_operations p)"
proof -
  have ok: "pilots_ok d'" using coordinator.reachable_keeps [OF assms] by (simp add: coord_inv_def)
  then show ?thesis using pilots_ok_budget [OF ok] by (auto simp: pilots_ok_def list_all_iff)
qed

theorem pilot_budget_never_exceeded_witness:
  "\<exists>d'. (coord_step demo_cenv)\<^sup>*\<^sup>* demo_db d' \<and> db_operations d' \<noteq> [] \<and> pilot_operation_count d' ''p1'' \<le> 5"
proof -
  obtain oid d' where q: "queue_v2_operation demo_cenv True ''u1'' ''v1'' 9 ''e1'' ''au1'' demo_guard demo_db = Inr (oid, d')"
    using demo_queue_obtain by blast
  then have s: "(coord_step demo_cenv)\<^sup>*\<^sup>* demo_db d'" by (blast intro: coord_step.queue_v2)
  have "coord_inv demo_db" using demo_db_ok by (simp add: coord_inv_def)
  moreover have "db_operations d' \<noteq> []" using queue_v2_keeps [OF q demo_db_ok] by auto
  ultimately show ?thesis using s pilot_budget_never_exceeded [OF s] by blast
qed

text \<open>
  The release digest check accepts strings that are no SHA-256 digests: \<open>int(value, 16)\<close> also
  accepts a \<open>0x\<close> prefix, a sign, blanks and underscores, so a prefix followed by 62 hexadecimal digits
  passes \<open>_validate_pilot_guard\<close>.
\<close>

theorem release_digest_check_is_lax:
  "is_ok (validate_pilot_guard demo_cenv (demo_guard\<lparr>pg_release_digest := ''sha256:0x'' @ replicate 62 (CHR ''a'')\<rparr>) demo_sealed)
   \<and> \<not> is_sha256_hex (py_removeprefix (''sha256:0x'' @ replicate 62 (CHR ''a'')) ''sha256:'')"
proof -
  have "py_int16_ok (''0x'' @ replicate 62 (CHR ''a''))" "canonical_path ''/srv'' ''/lib'' = ''/lib''"
    "py_strip ''p1'' = ''p1''" "py_strip ''rev1'' = ''rev1''" "\<not> is_sha256_hex (''0x'' @ replicate 62 (CHR ''a''))" by code_simp+
  then show ?thesis
    by (simp add: validate_pilot_guard_def demo_guard_def demo_cenv_def demo_env_def demo_sealed_simps
        library_root_sha256_def py_startswith_def py_removeprefix_def)
qed

end
