(* ===== verification/Session.thy ===== *)
theory Session
  imports Coordinator
begin

text \<open>
  Database sessions and the outside world of the metadata writer. A program is a function from a
  session to a result or an exception and the next session. The session holds the rows as the
  transaction sees them, the committed rows, the outside world (library and artifact files), a clock
  and a supply of uuids read through one counter, and a log of the external writes, each with the
  committed database at the moment of the write. The Calibre command line, the protected file
  operations, Pillow and the XML library are the fields of \<open>io\<close>.
\<close>

section \<open>Sessions\<close>

record ext_write =
  ew_kind :: string
  ew_book :: int
  ew_db :: db

record 'w session =
  s_db :: db
  s_committed :: db
  s_broken :: bool
  s_world :: 'w
  s_clock :: "nat \<Rightarrow> time"
  s_uuids :: "nat \<Rightarrow> string"
  s_ticks :: nat
  s_log :: "ext_write list"

text \<open>Programs over any state, and programs over a session.\<close>

type_synonym ('s, 'a) eff = "'s \<Rightarrow> 'a res \<times> 's"

type_synonym ('w, 'a) prog = "('w session, 'a) eff"

definition ret :: "'a \<Rightarrow> ('s, 'a) eff" where
  "ret x = (\<lambda>s. (Inr x, s))"

definition raise :: "exn \<Rightarrow> ('s, 'a) eff" where
  "raise e = (\<lambda>s. (Inl e, s))"

definition bnd :: "('s, 'a) eff \<Rightarrow> ('a \<Rightarrow> ('s, 'b) eff) \<Rightarrow> ('s, 'b) eff" where
  "bnd m f = (\<lambda>s. case m s of (Inl e, s') \<Rightarrow> (Inl e, s') | (Inr x, s') \<Rightarrow> f x s')"

definition thn :: "('s, unit) eff \<Rightarrow> ('s, 'b) eff \<Rightarrow> ('s, 'b) eff" where
  "thn m n = bnd m (\<lambda>_. n)"

text \<open>\<open>try: m  except <class> as exc: h exc\<close>, with the class as a predicate.\<close>

definition try_except :: "(exn \<Rightarrow> bool) \<Rightarrow> ('s, 'a) eff \<Rightarrow> (exn \<Rightarrow> ('s, 'a) eff) \<Rightarrow> ('s, 'a) eff" where
  "try_except cls m h = (\<lambda>s. case m s of
     (Inl e, s') \<Rightarrow> if cls e then h e s' else (Inl e, s')
   | (Inr x, s') \<Rightarrow> (Inr x, s'))"

text \<open>\<open>try: x = m  except <class> as exc: h exc  else: the rest\<close>\<close>

definition try_else :: "(exn \<Rightarrow> bool) \<Rightarrow> ('s, 'a) eff \<Rightarrow> (exn \<Rightarrow> ('s, 'b) eff) \<Rightarrow> ('a \<Rightarrow> ('s, 'b) eff) \<Rightarrow> ('s, 'b) eff" where
  "try_else cls m h k = (\<lambda>s. case m s of
     (Inl e, s') \<Rightarrow> if cls e then h e s' else (Inl e, s')
   | (Inr x, s') \<Rightarrow> k x s')"

definition lift_res :: "'a res \<Rightarrow> ('s, 'a) eff" where
  "lift_res r = (\<lambda>s. (r, s))"

fun for_each :: "('a \<Rightarrow> ('s, unit) eff) \<Rightarrow> 'a list \<Rightarrow> ('s, unit) eff" where
  "for_each f [] = ret ()"
| "for_each f (x # xs) = thn (f x) (for_each f xs)"

definition any_exception :: "exn \<Rightarrow> bool" where
  "any_exception e = True"

text \<open>\<open>SecurePathError\<close> and every other RuntimeError are neither ValueError nor OSError.\<close>

definition is_value_error :: "exn \<Rightarrow> bool" where
  "is_value_error e = (case e of ValueError _ \<Rightarrow> True | _ \<Rightarrow> False)"

definition is_os_or_value_error :: "exn \<Rightarrow> bool" where
  "is_os_or_value_error e = (case e of OSError _ \<Rightarrow> True | ValueError _ \<Rightarrow> True | _ \<Rightarrow> False)"

definition is_value_or_type_error :: "exn \<Rightarrow> bool" where
  "is_value_or_type_error e = (case e of ValueError _ \<Rightarrow> True | TypeError _ \<Rightarrow> True | _ \<Rightarrow> False)"

section \<open>Rows\<close>

text \<open>After a failed flush every statement raises until the transaction is rolled back.\<close>

definition query :: "(db \<Rightarrow> 'a) \<Rightarrow> ('w, 'a) prog" where
  "query f = (\<lambda>s. if s_broken s then (Inl (RuntimeError ''PendingRollbackError''), s) else (Inr (f (s_db s)), s))"

definition query_res :: "(db \<Rightarrow> 'a res) \<Rightarrow> ('w, 'a) prog" where
  "query_res f = bnd (query f) lift_res"

definition modify_db :: "(db \<Rightarrow> db) \<Rightarrow> ('w, unit) prog" where
  "modify_db f = (\<lambda>s. (Inr (), s\<lparr>s_db := f (s_db s)\<rparr>))"

definition commit :: "('w, unit) prog" where
  "commit = (\<lambda>s. if s_broken s then (Inl (RuntimeError ''PendingRollbackError''), s)
     else (Inr (), s\<lparr>s_committed := s_db s\<rparr>))"

definition rollback :: "('w, unit) prog" where
  "rollback = (\<lambda>s. (Inr (), s\<lparr>s_db := s_committed s, s_broken := False\<rparr>))"

definition utc_now :: "('w, time) prog" where
  "utc_now = (\<lambda>s. (Inr (s_clock s (s_ticks s)), s\<lparr>s_ticks := Suc (s_ticks s)\<rparr>))"

definition new_uuid :: "('w, string) prog" where
  "new_uuid = (\<lambda>s. (Inr (s_uuids s (s_ticks s)), s\<lparr>s_ticks := Suc (s_ticks s)\<rparr>))"

abbreviation is_op :: "string \<Rightarrow> operation \<Rightarrow> bool" where
  "is_op oid \<equiv> \<lambda>r. op_operation_id r = oid"

definition the_operation :: "string \<Rightarrow> db \<Rightarrow> operation res" where
  "the_operation oid d = row_one (is_op oid) (db_operations d)"

definition upd_operation :: "string \<Rightarrow> (operation \<Rightarrow> operation) \<Rightarrow> db \<Rightarrow> db" where
  "upd_operation oid f d = d\<lparr>db_operations := row_map (is_op oid) f (db_operations d)\<rparr>"

definition upd_outbox :: "string \<Rightarrow> (outbox_event \<Rightarrow> outbox_event) \<Rightarrow> db \<Rightarrow> db" where
  "upd_outbox oid f d = d\<lparr>db_outbox := row_map (\<lambda>e. ob_aggregate_id e = oid) f (db_outbox d)\<rparr>"

definition upd_change :: "nat \<Rightarrow> (change \<Rightarrow> change) \<Rightarrow> db \<Rightarrow> db" where
  "upd_change cid f d = d\<lparr>db_changes := row_map (\<lambda>c. ch_id c = cid) f (db_changes d)\<rparr>"

definition get_operation :: "string \<Rightarrow> ('w, operation) prog" where
  "get_operation oid = query_res (the_operation oid)"

definition transition :: "string \<Rightarrow> string \<Rightarrow> string option \<Rightarrow> ('w, unit) prog" where
  "transition oid new_state error =
     bnd (get_operation oid) (\<lambda>r.
     bnd utc_now (\<lambda>now.
     bnd (lift_res (transition_operation new_state error now r)) (\<lambda>r'.
     modify_db (upd_operation oid (\<lambda>_. r')))))"

definition set_status :: "string \<Rightarrow> string \<Rightarrow> ('w, unit) prog" where
  "set_status book_key status = modify_db (set_book_status book_key status)"

definition set_change_status :: "nat \<Rightarrow> string \<Rightarrow> ('w, unit) prog" where
  "set_change_status cid status = modify_db (upd_change cid (\<lambda>c. c\<lparr>ch_status := status\<rparr>))"

section \<open>The outside world\<close>

record xml_element =
  xe_tag :: string
  xe_attrs :: "string dict"
  xe_text :: string

text \<open>An OPF document: the children of its metadata element, if it has one, and the rest.\<close>

record opf_document =
  opf_metadata :: "xml_element list option"
  opf_rest :: string

record 'w io =
  io_library_path :: "string option"
  io_artifacts_dir :: string
  io_show_metadata :: "int \<Rightarrow> 'w \<Rightarrow> pydict res \<times> 'w"
  io_export_opf :: "int \<Rightarrow> string \<Rightarrow> 'w \<Rightarrow> string res \<times> 'w"
  io_export_cover :: "int \<Rightarrow> string \<Rightarrow> 'w \<Rightarrow> string option res \<times> 'w"
  io_set_metadata_from_fd :: "int \<Rightarrow> string \<Rightarrow> 'w \<Rightarrow> unit res \<times> 'w"
  io_set_custom :: "int \<Rightarrow> string \<Rightarrow> string \<Rightarrow> 'w \<Rightarrow> unit res \<times> 'w"
  io_set_cover_from_fd :: "int \<Rightarrow> string \<Rightarrow> 'w \<Rightarrow> unit res \<times> 'w"
  io_sha256_file_beneath :: "string \<Rightarrow> string \<Rightarrow> int option \<Rightarrow> 'w \<Rightarrow> string res"
  io_sealed_file_beneath :: "string \<Rightarrow> string \<Rightarrow> string \<Rightarrow> int \<Rightarrow> 'w \<Rightarrow> string res"
  io_read_file_beneath :: "string \<Rightarrow> string \<Rightarrow> int \<Rightarrow> string option \<Rightarrow> 'w \<Rightarrow> string res"
  io_write_bytes_beneath :: "string \<Rightarrow> string \<Rightarrow> string \<Rightarrow> 'w \<Rightarrow> unit res \<times> 'w"
  io_copy_file_beneath :: "string \<Rightarrow> string \<Rightarrow> string \<Rightarrow> int \<Rightarrow> string \<Rightarrow> 'w \<Rightarrow> unit res \<times> 'w"
  io_ensure_secure_directory :: "string \<Rightarrow> 'w \<Rightarrow> unit res \<times> 'w"
  io_is_file :: "string \<Rightarrow> 'w \<Rightarrow> bool"
  io_sha256_file :: "string \<Rightarrow> 'w \<Rightarrow> string res"
  io_image_size :: "string \<Rightarrow> (int \<times> int) res"
  io_image_verify :: "string \<Rightarrow> unit res"
  io_create_restore_point :: "book_record \<Rightarrow> pydict \<Rightarrow> string \<Rightarrow> 'w \<Rightarrow> string res \<times> 'w"
  io_parse_opf :: "string \<Rightarrow> opf_document res"
  io_render_opf :: "opf_document \<Rightarrow> string"
  io_strftime :: "time \<Rightarrow> string"

text \<open>An observation, an effect on artifact files, and a write to the library, which is logged.\<close>

definition observe :: "('w \<Rightarrow> 'a res) \<Rightarrow> ('w, 'a) prog" where
  "observe f = (\<lambda>s. (f (s_world s), s))"

definition effect :: "('w \<Rightarrow> 'a res \<times> 'w) \<Rightarrow> ('w, 'a) prog" where
  "effect f = (\<lambda>s. let (r, w) = f (s_world s) in (r, s\<lparr>s_world := w\<rparr>))"

definition library_write :: "string \<Rightarrow> int \<Rightarrow> ('w \<Rightarrow> unit res \<times> 'w) \<Rightarrow> ('w, unit) prog" where
  "library_write kind book f =
     (\<lambda>s. let (r, w) = f (s_world s)
          in (r, s\<lparr>s_world := w, s_log := s_log s @ [\<lparr>ew_kind = kind, ew_book = book, ew_db = s_committed s\<rparr>]\<rparr>))"

definition show_metadata :: "'w io \<Rightarrow> int \<Rightarrow> ('w, pydict) prog" where
  "show_metadata io book_id = effect (io_show_metadata io book_id)"

section \<open>Weakest preconditions\<close>

text \<open>Of a program over any state, with a normal and an exceptional postcondition.\<close>

definition wp :: "('s, 'a) eff \<Rightarrow> ('a \<Rightarrow> 's \<Rightarrow> bool) \<Rightarrow> (exn \<Rightarrow> 's \<Rightarrow> bool) \<Rightarrow> 's \<Rightarrow> bool" where
  "wp m Q E s = (case m s of (Inr x, s') \<Rightarrow> Q x s' | (Inl e, s') \<Rightarrow> E e s')"

named_theorems wp_eqs \<open>weakest preconditions of the program constructs\<close>

lemma wp_ret [wp_eqs]: "wp (ret x) Q E s = Q x s"
  by (simp add: wp_def ret_def)

lemma wp_raise [wp_eqs]: "wp (raise e) Q E s = E e s"
  by (simp add: wp_def raise_def)

lemma wp_bnd [wp_eqs]: "wp (bnd m f) Q E s = wp m (\<lambda>x. wp (f x) Q E) E s"
  by (simp add: wp_def bnd_def split: prod.split sum.split)

lemma wp_thn [wp_eqs]: "wp (thn m n) Q E s = wp m (\<lambda>_. wp n Q E) E s"
  by (simp add: thn_def wp_bnd)

lemma wp_try_except [wp_eqs]:
  "wp (try_except cls m h) Q E s = wp m Q (\<lambda>e s'. if cls e then wp (h e) Q E s' else E e s') s"
  by (simp add: wp_def try_except_def split: prod.split sum.split)

lemma wp_try_else [wp_eqs]:
  "wp (try_else cls m h k) Q E s = wp m (\<lambda>x. wp (k x) Q E) (\<lambda>e s'. if cls e then wp (h e) Q E s' else E e s') s"
  by (simp add: wp_def try_else_def split: prod.split sum.split)

lemma wp_lift_res [wp_eqs]: "wp (lift_res r) Q E s = (case r of Inl e \<Rightarrow> E e s | Inr x \<Rightarrow> Q x s)"
  by (simp add: wp_def lift_res_def split: sum.split)

lemma wp_query [wp_eqs]:
  "wp (query f) Q E s = (if s_broken s then E (RuntimeError ''PendingRollbackError'') s else Q (f (s_db s)) s)"
  by (simp add: wp_def query_def)

lemma wp_query_res [wp_eqs]:
  "wp (query_res f) Q E s =
     (if s_broken s then E (RuntimeError ''PendingRollbackError'') s
      else case f (s_db s) of Inl e \<Rightarrow> E e s | Inr x \<Rightarrow> Q x s)"
  by (simp add: query_res_def wp_eqs)

lemma wp_modify_db [wp_eqs]: "wp (modify_db f) Q E s = Q () (s\<lparr>s_db := f (s_db s)\<rparr>)"
  by (simp add: wp_def modify_db_def)

lemma wp_rollback [wp_eqs]: "wp rollback Q E s = Q () (s\<lparr>s_db := s_committed s, s_broken := False\<rparr>)"
  by (simp add: wp_def rollback_def)

lemma wp_if [wp_eqs]: "wp (if b then m else n) Q E s = (if b then wp m Q E s else wp n Q E s)"
  by simp

lemma wp_mono:
  "wp m Q E s \<Longrightarrow> (\<And>x s'. Q x s' \<Longrightarrow> Q' x s') \<Longrightarrow> (\<And>e s'. E e s' \<Longrightarrow> E' e s') \<Longrightarrow> wp m Q' E' s"
  by (auto simp: wp_def split: prod.splits sum.splits)

lemma wpD: "wp m Q E s \<Longrightarrow> m s = (Inr x, s') \<Longrightarrow> Q x s'"
  by (simp add: wp_def)

lemma wpE: "wp m Q E s \<Longrightarrow> m s = (Inl e, s') \<Longrightarrow> E e s'"
  by (simp add: wp_def)

lemma wp_no_raise: "wp m Q (\<lambda>_ _. False) s \<Longrightarrow> \<exists>x s'. m s = (Inr x, s') \<and> Q x s'"
  by (auto simp: wp_def split: prod.splits sum.splits)

text \<open>What every value a program returns satisfies, and the assertions it keeps however it ends.\<close>

definition results :: "('s, 'a) eff \<Rightarrow> ('a \<Rightarrow> bool) \<Rightarrow> bool" where
  "results m P = (\<forall>s v s'. m s = (Inr v, s') \<longrightarrow> P v)"

lemma results_bnd: "(\<And>x. results (f x) P) \<Longrightarrow> results (bnd m f) P"
  by (auto simp: results_def bnd_def split: sum.splits prod.splits)

lemma results_seq: "results m Q \<Longrightarrow> (\<And>x. Q x \<Longrightarrow> results (f x) P) \<Longrightarrow> results (bnd m f) P"
  by (fastforce simp: results_def bnd_def split: sum.splits prod.splits)

lemma results_lift: "results (lift_res r) (\<lambda>x. r = Inr x)"
  by (simp add: results_def lift_res_def)

lemma results_simps: "results (ret v) P = P v" "results (raise e) P"
  by (simp_all add: results_def ret_def raise_def)

lemma results_try_else_seq:
  assumes "results m Q" "\<And>e. results (h e) P" "\<And>x. Q x \<Longrightarrow> results (k x) P"
  shows "results (try_else cls m h k) P"
  unfolding results_def
proof (intro allI impI)
  fix s v s' assume e: "try_else cls m h k s = (Inr v, s')"
  obtain r t where m: "m s = (r, t)" by (cases "m s") blast
  show "P v"
  proof (cases r)
    case (Inl x)
    with e m assms(2) show ?thesis unfolding results_def try_else_def by (auto split: if_splits)
  next
    case (Inr x)
    with m assms(1) have "Q x" unfolding results_def by blast
    with assms(3) e m Inr show ?thesis unfolding results_def try_else_def by auto
  qed
qed

lemma results_try_else: "(\<And>e. results (h e) P) \<Longrightarrow> (\<And>x. results (k x) P) \<Longrightarrow> results (try_else cls m h k) P"
  by (rule results_try_else_seq [where Q = "\<lambda>_. True"]) (simp_all add: results_def [of m])

lemma bnd_lift_Inr: "bnd (lift_res (Inr x)) f = f x"
  by (simp add: bnd_def lift_res_def)

lemma results_thn: "results n P \<Longrightarrow> results (thn m n) P"
  unfolding thn_def by (rule results_bnd)

lemma results_any: "results m (\<lambda>_. True)"
  by (simp add: results_def)

lemma wp_results: "results m P \<Longrightarrow> wp m Q E s \<Longrightarrow> wp m (\<lambda>v s'. Q v s' \<and> P v) E s"
  unfolding results_def wp_def by (auto split: prod.splits sum.splits)

definition preserves :: "('s \<Rightarrow> bool) \<Rightarrow> ('s, 'a) eff \<Rightarrow> bool" where
  "preserves I m = (\<forall>s. I s \<longrightarrow> wp m (\<lambda>_. I) (\<lambda>_. I) s)"

named_theorems preserved \<open>programs that keep an assertion\<close>

lemma preserves_simps [preserved]: "preserves I (ret x)" "preserves I (raise e)" "preserves I (lift_res r)"
  by (simp_all add: preserves_def wp_eqs split: sum.split)

lemma preserves_bnd [preserved]: "preserves I m \<Longrightarrow> (\<And>x. preserves I (f x)) \<Longrightarrow> preserves I (bnd m f)"
  unfolding preserves_def wp_eqs by (blast intro: wp_mono)

lemma preserves_thn [preserved]: "preserves I m \<Longrightarrow> preserves I n \<Longrightarrow> preserves I (thn m n)"
  by (simp add: thn_def preserves_bnd)

lemma preserves_iff: "preserves I m \<longleftrightarrow> (\<forall>s. I s \<longrightarrow> I (snd (m s)))"
  unfolding preserves_def wp_def by (simp add: case_prod_unfold split: sum.splits)

lemma preserves_try_else [preserved]:
  assumes "preserves I m" "\<And>e. preserves I (h e)" "\<And>x. preserves I (k x)"
  shows "preserves I (try_else cls m h k)"
  unfolding preserves_iff
proof (intro allI impI)
  fix s assume s: "I s"
  obtain r s' where m: "m s = (r, s')" by (cases "m s") blast
  with assms(1) s have "I s'" unfolding preserves_iff by (metis snd_conv)
  with assms(2,3) m show "I (snd (try_else cls m h k s))"
    unfolding preserves_iff try_else_def by (cases r) simp_all
qed

lemma preserves_try_except [preserved]:
  assumes "preserves I m" "\<And>e. preserves I (h e)"
  shows "preserves I (try_except cls m h)"
proof -
  have "try_except cls m h = try_else cls m h ret"
    by (auto simp: try_except_def try_else_def ret_def fun_eq_iff split: prod.splits sum.splits)
  with assms show ?thesis by (simp add: preserves_try_else preserves_simps)
qed

lemma preserves_split [preserved]:
  "(b \<Longrightarrow> preserves I m) \<Longrightarrow> (\<not> b \<Longrightarrow> preserves I n) \<Longrightarrow> preserves I (if b then m else n)"
  "preserves I n \<Longrightarrow> (\<And>x. preserves I (f x)) \<Longrightarrow> preserves I (case y of None \<Rightarrow> n | Some x \<Rightarrow> f x)"
  "(\<And>x. preserves I (g x)) \<Longrightarrow> (\<And>x. preserves I (h x)) \<Longrightarrow> preserves I (case z of Inl x \<Rightarrow> g x | Inr x \<Rightarrow> h x)"
  "(\<And>a c. preserves I (p a c)) \<Longrightarrow> preserves I (case q of (a, c) \<Rightarrow> p a c)"
  by (simp_all split: option.split sum.split prod.split)

lemma preserves_wp: "preserves I m \<Longrightarrow> I s \<Longrightarrow> wp m (\<lambda>_. I) (\<lambda>_. I) s"
  by (simp add: preserves_def)

end
