(* ===== verification/ApplyEngine.thy ===== *)
theory ApplyEngine
  imports Session
begin

text \<open>
  The handoff of rollback artifacts (src/src/calibre\_ai\_auditor/apply/artifacts.py) and the apply engine
  (apply/engine.py): backup, restore point, the durable change row, the target OPF, the writes to the
  library and the roll back when one fails.
\<close>

definition MAX_OPF_BYTES :: int where
  "MAX_OPF_BYTES = 32 * 1024 * 1024"

definition MAX_COVER_BYTES :: int where
  "MAX_COVER_BYTES = 20 * 1024 * 1024"

definition MAX_COVER_PIXELS :: int where
  "MAX_COVER_PIXELS = 25000000"

definition VOLATILE_METADATA_FIELDS :: "string list" where
  "VOLATILE_METADATA_FIELDS = [''last_modified'']"

section \<open>Artifacts\<close>

definition bind_exported_artifact :: "'w io \<Rightarrow> string \<Rightarrow> string \<Rightarrow> string option \<Rightarrow> int \<Rightarrow> ('w, string) prog" where
  "bind_exported_artifact io root path exporter_sha256 max_bytes =
     bnd (observe (io_sha256_file_beneath io root path (Some max_bytes))) (\<lambda>observed.
     case exporter_sha256 of
       Some h \<Rightarrow> if h \<noteq> observed
         then raise (RuntimeError ''exported artifact was replaced before it could be sealed'') else ret observed
     | None \<Rightarrow> ret observed)"

definition verify_artifact :: "'w io \<Rightarrow> string \<Rightarrow> string \<Rightarrow> string option \<Rightarrow> int \<Rightarrow> ('w, unit) prog" where
  "verify_artifact io root path expected_sha256 max_bytes =
     (case expected_sha256 of
        None \<Rightarrow> raise (RuntimeError ''artifact has no integrity seal'')
      | Some h \<Rightarrow> bnd (observe (io_sealed_file_beneath io root path h max_bytes)) (\<lambda>_. ret ()))"

definition set_metadata_from_artifact :: "'w io \<Rightarrow> int \<Rightarrow> string \<Rightarrow> string \<Rightarrow> string option \<Rightarrow> ('w, unit) prog" where
  "set_metadata_from_artifact io book_id root path expected_sha256 =
     (case expected_sha256 of
        None \<Rightarrow> raise (RuntimeError ''OPF artifact has no integrity seal'')
      | Some h \<Rightarrow>
          bnd (observe (io_sealed_file_beneath io root path h MAX_OPF_BYTES)) (\<lambda>content.
          library_write ''set_metadata'' book_id (io_set_metadata_from_fd io book_id content)))"

definition set_cover_from_artifact :: "'w io \<Rightarrow> int \<Rightarrow> string \<Rightarrow> string \<Rightarrow> string option \<Rightarrow> ('w, unit) prog" where
  "set_cover_from_artifact io book_id root path expected_sha256 =
     (case expected_sha256 of
        None \<Rightarrow> raise (RuntimeError ''cover artifact has no integrity seal'')
      | Some h \<Rightarrow>
          bnd (observe (io_sealed_file_beneath io root path h MAX_COVER_BYTES)) (\<lambda>content.
          library_write ''set_cover'' book_id (io_set_cover_from_fd io book_id content)))"

definition set_custom :: "'w io \<Rightarrow> int \<Rightarrow> string \<Rightarrow> string \<Rightarrow> ('w, unit) prog" where
  "set_custom io book_id column value = library_write ''set_custom'' book_id (io_set_custom io book_id column value)"

section \<open>The target OPF\<close>

definition DC :: string where
  "DC = ''{http://purl.org/dc/elements/1.1/}''"

definition OPF :: string where
  "OPF = ''{http://www.idpf.org/2007/opf}''"

definition replace_dc :: "string \<Rightarrow> string list \<Rightarrow> xml_element list \<Rightarrow> xml_element list" where
  "replace_dc tag values metadata =
     filter (\<lambda>e. xe_tag e \<noteq> DC @ tag) metadata
     @ map (\<lambda>v. \<lparr>xe_tag = DC @ tag, xe_attrs = [], xe_text = v\<rparr>) values"

definition patch_scalar :: "pydict \<Rightarrow> string \<Rightarrow> string \<Rightarrow> xml_element list \<Rightarrow> xml_element list" where
  "patch_scalar patch field tag metadata =
     (case dict_get patch field of
        Some v \<Rightarrow> replace_dc tag [py_str v] metadata
      | None \<Rightarrow> metadata)"

definition patch_list :: "pydict \<Rightarrow> string \<Rightarrow> string \<Rightarrow> xml_element list \<Rightarrow> xml_element list" where
  "patch_list patch field tag metadata =
     (case dict_get patch field of
        Some v \<Rightarrow> replace_dc tag (map py_str (case v of PList xs \<Rightarrow> xs | _ \<Rightarrow> [v])) metadata
      | None \<Rightarrow> metadata)"

definition identifier_element :: "string \<times> pyval \<Rightarrow> xml_element" where
  "identifier_element item =
     \<lparr>xe_tag = DC @ ''identifier'', xe_attrs = [(OPF @ ''scheme'', py_upper (fst item))], xe_text = py_str (snd item)\<rparr>"

definition patch_identifiers :: "pydict \<Rightarrow> xml_element list \<Rightarrow> xml_element list" where
  "patch_identifiers patch metadata =
     (case dict_get patch ''identifiers'' of
        Some (PDict ids) \<Rightarrow>
          filter (\<lambda>e. xe_tag e \<noteq> DC @ ''identifier'') metadata @ map identifier_element (sort_key fst ids)
      | _ \<Rightarrow> metadata)"

definition is_named_meta :: "string \<Rightarrow> xml_element \<Rightarrow> bool" where
  "is_named_meta name e = (xe_tag e = OPF @ ''meta'' \<and> dict_get (xe_attrs e) ''name'' = Some name)"

definition patch_meta :: "pydict \<Rightarrow> string \<Rightarrow> string \<Rightarrow> xml_element list \<Rightarrow> xml_element list" where
  "patch_meta patch field name metadata =
     (case dict_get patch field of
        Some v \<Rightarrow>
          filter (\<lambda>e. \<not> is_named_meta name e) metadata
          @ [\<lparr>xe_tag = OPF @ ''meta'', xe_attrs = [(''name'', name), (''content'', py_str v)], xe_text = []\<rparr>]
      | None \<Rightarrow> metadata)"

definition target_metadata :: "pydict \<Rightarrow> xml_element list \<Rightarrow> xml_element list" where
  "target_metadata patch metadata =
     patch_meta patch ''series_index'' ''calibre:series_index''
     (patch_meta patch ''series'' ''calibre:series''
     (patch_identifiers patch
     (patch_list patch ''languages'' ''language''
     (patch_list patch ''authors'' ''creator''
     (patch_scalar patch ''pubdate'' ''date''
     (patch_scalar patch ''publisher'' ''publisher''
     (patch_scalar patch ''title'' ''title'' metadata)))))))"

definition build_target_opf :: "env \<Rightarrow> 'w io \<Rightarrow> string \<Rightarrow> string \<Rightarrow> pydict \<Rightarrow> string option \<Rightarrow> ('w, string) prog" where
  "build_target_opf en io source target patch source_sha256 =
     bnd (observe (io_read_file_beneath io (io_artifacts_dir io) source MAX_OPF_BYTES source_sha256)) (\<lambda>payload.
     bnd (lift_res (io_parse_opf io payload)) (\<lambda>root.
     case opf_metadata root of
       None \<Rightarrow> raise (ValueError ''backup OPF has no metadata element'')
     | Some metadata \<Rightarrow>
         (let rendered = io_render_opf io (root\<lparr>opf_metadata := Some (target_metadata patch metadata)\<rparr>)
          in thn (effect (io_write_bytes_beneath io (io_artifacts_dir io) target rendered))
               (ret (env_sha256 en rendered)))))"

section \<open>Restoring\<close>

text \<open>The sequence shared by \<open>_restore_components\<close> and the writer's \<open>_restore_change\<close>.\<close>

definition restore_parts ::
    "'w io \<Rightarrow> int \<Rightarrow> string \<Rightarrow> string \<Rightarrow> string option \<Rightarrow> pydict \<Rightarrow> string option \<Rightarrow> string option \<Rightarrow> ('w, unit) prog" where
  "restore_parts io book_id root opf_path opf_sha256 custom cover_path cover_sha256 =
     thn (set_metadata_from_artifact io book_id root opf_path opf_sha256)
     (thn (for_each (\<lambda>(column, value). set_custom io book_id column (py_str value)) custom)
     (case cover_path of
        Some p \<Rightarrow> if p \<noteq> [] then set_cover_from_artifact io book_id root p cover_sha256 else ret ()
      | None \<Rightarrow> ret ()))"

definition restore_components :: "'w io \<Rightarrow> int \<Rightarrow> change \<Rightarrow> ('w, unit) prog" where
  "restore_components io book_id c =
     restore_parts io book_id (io_artifacts_dir io) (ch_backup_opf_path c) (ch_backup_opf_sha256 c)
       (ch_before_custom c) (ch_backup_cover_path c) (ch_backup_cover_sha256 c)"

definition metadata_matches_restore :: "'w io \<Rightarrow> pydict \<Rightarrow> pydict \<Rightarrow> change \<Rightarrow> 'w \<Rightarrow> bool res" where
  "metadata_matches_restore io observed expected c w =
     (if \<not> list_all (\<lambda>(field, value).
            field \<in> set ([''cover'', ''#edition'', ''edition_statement''] @ VOLATILE_METADATA_FIELDS)
            \<or> py_eq (pget observed field) value) expected then Inr False
      else if \<not> list_all (\<lambda>(column, value).
            py_str (py_or (pget_or observed column (pget_or observed ''edition_statement'' (PStr []))) (PStr []))
              = py_str value) (ch_before_custom c) then Inr False
      else case ch_backup_cover_path c of
        None \<Rightarrow> Inr True
      | Some [] \<Rightarrow> Inr True
      | Some _ \<Rightarrow>
          (case (pget observed ''cover'', ch_backup_cover_sha256 c) of
             (PStr path, Some h) \<Rightarrow>
               (let root = (case io_library_path io of Some l \<Rightarrow> l | None \<Rightarrow> path_parent path)
                in case io_sha256_file_beneath io root path (Some MAX_COVER_BYTES) w of
                     Inl e \<Rightarrow> Inl e
                   | Inr observed_sha \<Rightarrow> Inr (observed_sha = h))
           | _ \<Rightarrow> Inr False))"

section \<open>Staging a cover\<close>

definition stage_cover_patch :: "'w io \<Rightarrow> pyval \<Rightarrow> pydict \<Rightarrow> pyval \<Rightarrow> string \<Rightarrow> ('w, string option) prog" where
  "stage_cover_patch io raw_cover current_metadata patch_ids backup_dir =
     (case raw_cover of
        PDict cover \<Rightarrow>
          (let artifact = py_str (pget cover ''artifact_path'');
               identifiers = (case patch_ids of PDict _ \<Rightarrow> patch_ids
                 | _ \<Rightarrow> pget_or current_metadata ''identifiers'' (PDict []));
               current_isbn = (case identifiers of
                   PDict ids \<Rightarrow> validate_isbn (py_str (pget_or ids ''isbn'' (PStr [])))
                 | _ \<Rightarrow> None);
               sha = py_str (pget cover ''artifact_sha256'')
           in if (case current_isbn of Some i \<Rightarrow> PStr i | None \<Rightarrow> PNone) \<noteq> pget cover ''manifestation_isbn''
              then raise (ValueError ''cover artifact is not bound to the exact patch manifestation'')
              else
                bnd new_uuid (\<lambda>u.
                (let staged = path_join backup_dir (''cover_input_'' @ u @ py_lower (path_suffix artifact)) in
                 thn (effect (io_copy_file_beneath io (io_artifacts_dir io) artifact staged MAX_COVER_BYTES sha))
                 (bnd (observe (io_read_file_beneath io (io_artifacts_dir io) staged MAX_COVER_BYTES (Some sha))) (\<lambda>payload.
                  bnd (lift_res (io_image_size io payload)) (\<lambda>(width, height).
                  if width * height > MAX_COVER_PIXELS
                  then raise (ValueError ''cover artifact exceeds the 25 megapixel limit'')
                  else thn (lift_res (io_image_verify io payload)) (ret (Some staged))))))))
      | _ \<Rightarrow> ret None)"

section \<open>Applying a patch\<close>

text \<open>\<open>backup_opf.with_suffix(".cover")\<close> and the name of the target OPF beside the backup.\<close>

definition backup_name :: "'w io \<Rightarrow> time \<Rightarrow> string \<Rightarrow> string" where
  "backup_name io now u = ''before_'' @ io_strftime io now @ ''_'' @ u"

definition target_name :: "'w io \<Rightarrow> time \<Rightarrow> string \<Rightarrow> string" where
  "target_name io now u = ''target_'' @ io_strftime io now @ ''_'' @ u"

definition insert_change :: "change \<Rightarrow> ('w, nat) prog" where
  "insert_change c =
     bnd (query (\<lambda>d. (list_ex (\<lambda>x. ch_operation_id x = ch_operation_id c \<and> ch_operation_id c \<noteq> None) (db_changes d),
                      next_id (map ch_id (db_changes d))))) (\<lambda>(dup, cid).
     if dup then (\<lambda>s. (Inl IntegrityError, s\<lparr>s_broken := True\<rparr>))
     else thn (modify_db (\<lambda>d. d\<lparr>db_changes := db_changes d @ [c\<lparr>ch_id := cid\<rparr>]\<rparr>)) (ret cid))"

definition set_fields :: "'w io \<Rightarrow> int \<Rightarrow> pydict \<Rightarrow> string \<Rightarrow> string \<Rightarrow> string option \<Rightarrow> ('w, unit) prog" where
  "set_fields io book_id patch target_opf target_sha256 cover_path =
     thn (set_metadata_from_artifact io book_id (io_artifacts_dir io) target_opf (Some target_sha256))
     (thn (case dict_get patch ''edition_statement'' of
             Some v \<Rightarrow> set_custom io book_id ''#edition'' (py_str v)
           | None \<Rightarrow> ret ())
     (case cover_path of
        Some staged \<Rightarrow>
          set_cover_from_artifact io book_id (io_artifacts_dir io) staged
            (Some (case pget patch ''cover'' of PDict c \<Rightarrow> py_str (pget c ''artifact_sha256'') | v \<Rightarrow> py_str v))
      | None \<Rightarrow> ret ()))"

text \<open>The \<open>except\<close> branch of \<open>apply_patch\<close>: roll back, record the outcome durably, raise again.\<close>

definition roll_back_apply :: "'w io \<Rightarrow> int \<Rightarrow> change \<Rightarrow> pydict \<Rightarrow> exn \<Rightarrow> ('w, 'a) prog" where
  "roll_back_apply io book_id c expected e =
     thn (try_except any_exception
            (thn (restore_components io book_id c)
             (bnd (show_metadata io book_id) (\<lambda>restored.
              bnd (observe (metadata_matches_restore io restored expected c)) (\<lambda>ok.
              set_change_status (ch_id c) (if ok then ''failed_rolled_back'' else ''failed_rollback_failed'')))))
            (\<lambda>_. set_change_status (ch_id c) ''failed_rollback_failed''))
     (thn commit (raise e))"

definition backup_cover ::
    "'w io \<Rightarrow> int \<Rightarrow> string option \<Rightarrow> string \<Rightarrow> ('w, (string \<times> string) option) prog" where
  "backup_cover io book_id cover_path candidate =
     (case cover_path of
        None \<Rightarrow> ret None
      | Some _ \<Rightarrow>
          bnd (effect (io_export_cover io book_id candidate)) (\<lambda>exported.
          if exported = None \<or> exported = Some []
          then raise (ValueError ''cover update is not reversible because the current cover could not be backed up'')
          else bnd (bind_exported_artifact io (io_artifacts_dir io) candidate exported MAX_COVER_BYTES) (\<lambda>h.
               ret (Some (candidate, h)))))"

definition before_custom_of :: "pydict \<Rightarrow> pydict \<Rightarrow> pydict" where
  "before_custom_of before_source patch =
     (if dict_has patch ''edition_statement''
      then [(''#edition'', PStr (py_str (py_or (py_or (pget before_source ''#edition'') (pget before_source ''edition_statement''))
              (PStr []))))]
      else [])"

text \<open>The backup phase of \<open>apply_patch\<close>, up to the change row to be recorded; it writes artifacts only.\<close>

definition prepare_change ::
    "'w io \<Rightarrow> book_record \<Rightarrow> int \<Rightarrow> pydict \<Rightarrow> string \<Rightarrow> pydict \<Rightarrow> ('w, change \<times> string \<times> string option) prog" where
  "prepare_change io book book_id patch operation_id live_before =
     (let art = io_artifacts_dir io;
          dir = path_join (path_join art ''backups'') (show_int book_id)
      in thn (effect (io_ensure_secure_directory io art))
         (thn (effect (io_ensure_secure_directory io dir))
         (bnd (stage_cover_patch io (pget patch ''cover'') live_before (pget patch ''identifiers'') dir) (\<lambda>cover_path.
          bnd utc_now (\<lambda>now.
          bnd new_uuid (\<lambda>u.
          (let backup_opf = path_join dir (backup_name io now u @ ''.opf'') in
           bnd (effect (io_export_opf io book_id backup_opf)) (\<lambda>exported.
           bnd (bind_exported_artifact io art backup_opf (Some exported) MAX_OPF_BYTES) (\<lambda>backup_sha256.
           bnd (backup_cover io book_id cover_path (path_join dir (backup_name io now u @ ''.cover''))) (\<lambda>cover_backup.
           bnd (effect (io_create_restore_point io book patch backup_opf)) (\<lambda>restore_path.
           bnd (observe (io_sha256_file_beneath io art (path_join restore_path ''original.opf'') (Some MAX_OPF_BYTES))) (\<lambda>restored_sha256.
           if restored_sha256 \<noteq> backup_sha256
           then raise (RuntimeError (''Restore point could not be created for '' @ bk_book_key book))
           else
             bnd utc_now (\<lambda>applied_at.
             ret (\<lparr>ch_id = 0, ch_operation_id = Some operation_id, ch_book_key = bk_book_key book, ch_run_id = bk_run_id book,
                   ch_applied_at = applied_at, ch_before_metadata = live_before, ch_after_metadata = patch,
                   ch_backup_opf_path = backup_opf, ch_backup_opf_sha256 = Some backup_sha256,
                   ch_backup_cover_path = map_option fst cover_backup, ch_backup_cover_sha256 = map_option snd cover_backup,
                   ch_before_custom = before_custom_of live_before patch, ch_status = ''pending_apply''\<rparr>,
                  path_join dir (target_name io now u @ ''.opf''), cover_path))))))))))))))"

definition apply_patch ::
    "env \<Rightarrow> 'w io \<Rightarrow> book_record \<Rightarrow> pydict \<Rightarrow> string \<Rightarrow> pydict \<Rightarrow> ('w, change) prog" where
  "apply_patch en io book raw_patch operation_id live_before =
     (case bk_calibre_book_id book of
        None \<Rightarrow> raise (ValueError (''Cannot apply patch to non-Calibre book: '' @ bk_book_key book))
      | Some book_id \<Rightarrow>
        if bk_source book \<noteq> ''calibre'' \<or> book_id = 0
        then raise (ValueError (''Cannot apply patch to non-Calibre book: '' @ bk_book_key book))
        else
          bnd (lift_res (canonical_patch (env_coerce en) raw_patch)) (\<lambda>patch.
          if patch = [] then raise (ValueError ''Cannot apply an empty canonical patch'')
          else
            bnd (prepare_change io book book_id patch operation_id live_before) (\<lambda>(row, target_opf, cover_path).
            bnd (insert_change row) (\<lambda>cid.
            thn commit
            (bnd (build_target_opf en io (ch_backup_opf_path row) target_opf patch (ch_backup_opf_sha256 row)) (\<lambda>target_sha256.
             thn (try_except any_exception (set_fields io book_id patch target_opf target_sha256 cover_path)
                    (roll_back_apply io book_id (row\<lparr>ch_id := cid\<rparr>) live_before))
             (thn (set_change_status cid ''applied'')
             (thn commit (ret (row\<lparr>ch_id := cid, ch_status := ''applied''\<rparr>))))))))))"

text \<open>\<open>int(s)\<close>: blanks around an optional sign and digits with single underscores between them.\<close>

definition py_int :: "string \<Rightarrow> int option" where
  "py_int s =
     (let t = py_int_strip s;
          (neg, u) = (case t of c # cs \<Rightarrow> if c = CHR ''-'' then (True, cs) else if c = CHR ''+'' then (False, cs) else (False, t)
             | [] \<Rightarrow> (False, t));
          pieces = py_split (CHR ''_'') u
      in if list_all py_isdigit pieces
         then Some ((if neg then - 1 else 1) * int (nat_of_digits (concat pieces))) else None)"

definition undo_change :: "'w io \<Rightarrow> change \<Rightarrow> bool \<Rightarrow> ('w, unit) prog" where
  "undo_change io c do_commit =
     (if ch_status c = ''undone'' then ret ()
      else case py_int (last (py_split (CHR '':'') (ch_book_key c))) of
          None \<Rightarrow> raise (ValueError (''Invalid book_key '' @ repr_string (ch_book_key c) @ '': expected ''
                @ repr_string ''calibre:<id>''))
        | Some book_id \<Rightarrow>
           thn (restore_components io book_id c)
           (thn (set_change_status (ch_id c) ''undone'')
           (if do_commit then commit else ret ())))"

section \<open>The target OPF changes what the patch names\<close>

text \<open>An element the patch replaces.\<close>

definition touches :: "pydict \<Rightarrow> xml_element \<Rightarrow> bool" where
  "touches patch e =
     (list_ex (\<lambda>(f, t). dict_has patch f \<and> xe_tag e = DC @ t)
        [(''title'', ''title''), (''publisher'', ''publisher''), (''pubdate'', ''date''), (''authors'', ''creator''),
         (''languages'', ''language''), (''identifiers'', ''identifier'')]
      \<or> list_ex (\<lambda>(f, n). dict_has patch f \<and> is_named_meta n e)
        [(''series'', ''calibre:series''), (''series_index'', ''calibre:series_index'')])"

lemma dict_has_SomeI: "dict_get d k = Some v \<Longrightarrow> dict_has d k"
  by (simp add: dict_has_get)

lemma filter_replaced:
  assumes "\<And>e. P e \<Longrightarrow> \<not> Q e" "list_all P new"
  shows "filter Q (filter (\<lambda>e. \<not> P e) xs @ new) = filter Q xs"
proof -
  have "filter Q new = []" using assms by (auto simp: filter_empty_conv list_all_iff)
  moreover have "filter Q (filter (\<lambda>e. \<not> P e) xs) = filter Q xs"
    using assms(1) by (induction xs) auto
  ultimately show ?thesis by (simp only: filter_append append_Nil2)
qed

lemma replace_dc_other:
  assumes "\<And>e. xe_tag e = DC @ t \<Longrightarrow> \<not> Q e"
  shows "filter Q (replace_dc t vs m) = filter Q m"
  unfolding replace_dc_def
  by (rule filter_replaced [where P = "\<lambda>e. xe_tag e = DC @ t"]) (use assms in \<open>auto simp: list_all_iff\<close>)

lemma patch_scalar_other:
  "(\<And>e. xe_tag e = DC @ t \<Longrightarrow> dict_has patch f \<Longrightarrow> \<not> Q e) \<Longrightarrow> filter Q (patch_scalar patch f t m) = filter Q m"
  unfolding patch_scalar_def by (auto split: option.split dest: dict_has_SomeI intro: replace_dc_other)

lemma patch_list_other:
  "(\<And>e. xe_tag e = DC @ t \<Longrightarrow> dict_has patch f \<Longrightarrow> \<not> Q e) \<Longrightarrow> filter Q (patch_list patch f t m) = filter Q m"
  unfolding patch_list_def by (auto split: option.split dest: dict_has_SomeI intro: replace_dc_other)

lemma patch_identifiers_other:
  assumes "\<And>e. xe_tag e = DC @ ''identifier'' \<Longrightarrow> dict_has patch ''identifiers'' \<Longrightarrow> \<not> Q e"
  shows "filter Q (patch_identifiers patch m) = filter Q m"
proof (cases "\<exists>ids. dict_get patch ''identifiers'' = Some (PDict ids)")
  case True
  then obtain ids where i: "dict_get patch ''identifiers'' = Some (PDict ids)" ..
  then have "filter Q (filter (\<lambda>e. \<not> xe_tag e = DC @ ''identifier'') m @ map identifier_element (sort_key fst ids)) = filter Q m"
    by (intro filter_replaced) (use assms dict_has_SomeI [OF i] in \<open>auto simp: list_all_iff identifier_element_def\<close>)
  then show ?thesis by (simp only: patch_identifiers_def i option.case pyval.case)
qed (auto simp: patch_identifiers_def split: option.split pyval.split)

lemma patch_meta_other:
  assumes "\<And>e. is_named_meta n e \<Longrightarrow> dict_has patch f \<Longrightarrow> \<not> Q e"
  shows "filter Q (patch_meta patch f n m) = filter Q m"
proof (cases "dict_get patch f")
  case (Some v)
  have "filter Q (filter (\<lambda>e. \<not> is_named_meta n e) m
      @ [\<lparr>xe_tag = OPF @ ''meta'', xe_attrs = [(''name'', n), (''content'', py_str v)], xe_text = []\<rparr>]) = filter Q m"
    by (intro filter_replaced) (use assms dict_has_SomeI [OF Some] in \<open>auto simp: is_named_meta_def dict_get_def\<close>)
  then show ?thesis by (simp only: patch_meta_def Some option.case)
qed (simp add: patch_meta_def)

lemma DC_OPF_neq [simp]: "DC @ t \<noteq> OPF @ u" "OPF @ u \<noteq> DC @ t"
  by (simp_all add: DC_def OPF_def)

lemma meta_not_dc: "is_named_meta n e \<Longrightarrow> xe_tag e \<noteq> DC @ t"
  by (simp add: is_named_meta_def)

lemma named_meta_other: "is_named_meta n e \<Longrightarrow> n \<noteq> n' \<Longrightarrow> \<not> is_named_meta n' e"
  by (simp add: is_named_meta_def)

lemmas patch_others = patch_scalar_other patch_list_other patch_identifiers_other patch_meta_other meta_not_dc named_meta_other

definition dc_element :: "string \<Rightarrow> string \<Rightarrow> xml_element" where
  "dc_element tag v = \<lparr>xe_tag = DC @ tag, xe_attrs = [], xe_text = v\<rparr>"

lemma replaced_dc: "filter (\<lambda>e. xe_tag e = DC @ t) (replace_dc t vs m) = map (dc_element t) vs"
  by (simp add: replace_dc_def dc_element_def)

lemma replaced_meta:
  "dict_get patch f = Some v \<Longrightarrow> filter (is_named_meta n) (patch_meta patch f n m)
     = [\<lparr>xe_tag = OPF @ ''meta'', xe_attrs = [(''name'', n), (''content'', py_str v)], xe_text = []\<rparr>]"
  by (simp add: patch_meta_def) (simp add: is_named_meta_def dict_get_def)

lemma identifier_element_pair:
  "identifier_element = (\<lambda>(scheme, x). \<lparr>xe_tag = DC @ ''identifier'', xe_attrs = [(OPF @ ''scheme'', py_upper scheme)], xe_text = py_str x\<rparr>)"
  by (simp add: fun_eq_iff identifier_element_def)

lemma identifier_patched:
  "dict_get patch ''identifiers'' = Some v \<Longrightarrow> filter (\<lambda>e. xe_tag e = DC @ ''identifier'') (patch_identifiers patch m)
     = (case v of PDict ids \<Rightarrow> map identifier_element (sort_key fst ids) | _ \<Rightarrow> filter (\<lambda>e. xe_tag e = DC @ ''identifier'') m)"
  by (auto simp: patch_identifiers_def comp_def identifier_element_def split: pyval.split)

text \<open>
  Claim C13. The target OPF is the backup OPF with the patch applied and nothing else: every element the patch does not name keeps
  its content and order; each scalar field of the patch (title, publisher, publication date) becomes the one element of its tag; the
  authors and the languages become exactly one element for each value, in order; a dictionary of identifiers becomes exactly its
  entries, by scheme, with the scheme in capitals (any other value leaves the identifiers); and the series and its index become
  the one calibre meta element of their name.
\<close>

theorem target_opf_is_exact:
  "filter (\<lambda>e. \<not> touches patch e) (target_metadata patch m) = filter (\<lambda>e. \<not> touches patch e) m
   \<and> (\<forall>(field, tag) \<in> set [(''title'', ''title''), (''publisher'', ''publisher''), (''pubdate'', ''date'')]. \<forall>v.
        dict_get patch field = Some v \<longrightarrow>
        filter (\<lambda>e. xe_tag e = DC @ tag) (target_metadata patch m) = [dc_element tag (py_str v)])
   \<and> (\<forall>(field, tag) \<in> set [(''authors'', ''creator''), (''languages'', ''language'')]. \<forall>v.
        dict_get patch field = Some v \<longrightarrow>
        filter (\<lambda>e. xe_tag e = DC @ tag) (target_metadata patch m)
          = (case v of PList xs \<Rightarrow> map (\<lambda>x. dc_element tag (py_str x)) xs | _ \<Rightarrow> [dc_element tag (py_str v)]))
   \<and> (\<forall>v. dict_get patch ''identifiers'' = Some v \<longrightarrow>
        filter (\<lambda>e. xe_tag e = DC @ ''identifier'') (target_metadata patch m)
          = (case v of
               PDict ids \<Rightarrow> map (\<lambda>(scheme, x). \<lparr>xe_tag = DC @ ''identifier'', xe_attrs = [(OPF @ ''scheme'', py_upper scheme)],
                                xe_text = py_str x\<rparr>) (sort_key fst ids)
             | _ \<Rightarrow> filter (\<lambda>e. xe_tag e = DC @ ''identifier'') m))
   \<and> (\<forall>(field, name) \<in> set [(''series'', ''calibre:series''), (''series_index'', ''calibre:series_index'')]. \<forall>v.
        dict_get patch field = Some v \<longrightarrow>
        filter (is_named_meta name) (target_metadata patch m)
          = [\<lparr>xe_tag = OPF @ ''meta'', xe_attrs = [(''name'', name), (''content'', py_str v)], xe_text = []\<rparr>])"
proof (intro conjI)
  show "filter (\<lambda>e. \<not> touches patch e) (target_metadata patch m) = filter (\<lambda>e. \<not> touches patch e) m"
    unfolding target_metadata_def
    by (simp add: patch_scalar_other patch_list_other patch_identifiers_other patch_meta_other touches_def)
  show "\<forall>(field, tag) \<in> set [(''title'', ''title''), (''publisher'', ''publisher''), (''pubdate'', ''date'')]. \<forall>v.
      dict_get patch field = Some v \<longrightarrow>
      filter (\<lambda>e. xe_tag e = DC @ tag) (target_metadata patch m) = [dc_element tag (py_str v)]"
    unfolding target_metadata_def by (simp add: patch_others) (simp add: patch_scalar_def replaced_dc)
  show "\<forall>(field, tag) \<in> set [(''authors'', ''creator''), (''languages'', ''language'')]. \<forall>v.
      dict_get patch field = Some v \<longrightarrow>
      filter (\<lambda>e. xe_tag e = DC @ tag) (target_metadata patch m)
        = (case v of PList xs \<Rightarrow> map (\<lambda>x. dc_element tag (py_str x)) xs | _ \<Rightarrow> [dc_element tag (py_str v)])"
    unfolding target_metadata_def by (simp add: patch_others) (simp add: patch_list_def replaced_dc split: pyval.split)
  show "\<forall>v. dict_get patch ''identifiers'' = Some v \<longrightarrow>
      filter (\<lambda>e. xe_tag e = DC @ ''identifier'') (target_metadata patch m)
        = (case v of
             PDict ids \<Rightarrow> map (\<lambda>(scheme, x). \<lparr>xe_tag = DC @ ''identifier'', xe_attrs = [(OPF @ ''scheme'', py_upper scheme)],
                              xe_text = py_str x\<rparr>) (sort_key fst ids)
           | _ \<Rightarrow> filter (\<lambda>e. xe_tag e = DC @ ''identifier'') m)"
    unfolding target_metadata_def
    by (simp add: patch_scalar_other patch_list_other patch_meta_other meta_not_dc identifier_patched)
      (simp add: patch_scalar_other patch_list_other identifier_element_pair split: pyval.split)
  show "\<forall>(field, name) \<in> set [(''series'', ''calibre:series''), (''series_index'', ''calibre:series_index'')]. \<forall>v.
      dict_get patch field = Some v \<longrightarrow>
      filter (is_named_meta name) (target_metadata patch m)
        = [\<lparr>xe_tag = OPF @ ''meta'', xe_attrs = [(''name'', name), (''content'', py_str v)], xe_text = []\<rparr>]"
    unfolding target_metadata_def by (simp add: patch_meta_other named_meta_other replaced_meta)
qed

definition opf_patch :: pydict where
  "opf_patch = [(''title'', PStr ''Dune''), (''authors'', PList [PStr ''Frank Herbert'']), (''series_index'', PInt 1),
     (''identifiers'', PDict [(''isbn'', PStr ''9780441013593'')])]"

theorem target_opf_is_exact_witness:
  "filter (\<lambda>e. xe_tag e = DC @ ''title'') (target_metadata opf_patch [dc_element ''title'' ''Doon'', dc_element ''date'' ''1965''])
      = [dc_element ''title'' ''Dune'']
   \<and> filter (\<lambda>e. xe_tag e = DC @ ''creator'') (target_metadata opf_patch []) = [dc_element ''creator'' ''Frank Herbert'']
   \<and> map xe_text (filter (\<lambda>e. xe_tag e = DC @ ''identifier'') (target_metadata opf_patch [])) = [''9780441013593'']
   \<and> map xe_attrs (filter (is_named_meta ''calibre:series_index'') (target_metadata opf_patch []))
      = [[(''name'', ''calibre:series_index''), (''content'', ''1'')]]"
proof -
  have patch: "dict_get opf_patch ''title'' = Some (PStr ''Dune'')" "dict_get opf_patch ''authors'' = Some (PList [PStr ''Frank Herbert''])"
      "dict_get opf_patch ''identifiers'' = Some (PDict [(''isbn'', PStr ''9780441013593'')])" "dict_get opf_patch ''series_index'' = Some (PInt 1)"
      "py_str (PInt 1) = ''1''"
    by code_simp+
  note exact = target_opf_is_exact [of opf_patch]
  show ?thesis
    using exact [of "[dc_element ''title'' ''Doon'', dc_element ''date'' ''1965'']"] exact [of "[]"] by (simp add: patch)
qed

end
