(* ===== verification/Runs.thy ===== *)
theory Runs
  imports Coordinator
begin

text \<open>
  Verification runs: the tables VerificationRun and VerificationResult of
  src/src/calibre\_ai\_auditor/storage/models.py, and the request API of web/api/production\_verify.py,
  which records runs for the verifier process and never starts work itself.
\<close>

section \<open>Tables\<close>

record verification_run =
  vr_id :: nat
  vr_run_id :: string
  vr_status :: string
  vr_started_at :: time
  vr_finished_at :: "time option"
  vr_total :: int
  vr_completed :: int
  vr_counts :: "int dict"
  vr_use_llm :: bool
  vr_pipeline_version :: string
  vr_mode :: string
  vr_contract_version :: "string option"
  vr_idempotency_key :: "string option"
  vr_request_sha256 :: "string option"
  vr_source_root :: "string option"
  vr_source_root_sha256 :: "string option"
  vr_effective_config :: pydict
  vr_source_snapshot :: "pydict option"
  vr_lease_owner :: "string option"
  vr_lease_expires_at :: "time option"
  vr_fence_token :: int
  vr_claimed_at :: "time option"
  vr_heartbeat_at :: "time option"
  vr_inventory_finished_at :: "time option"
  vr_cancel_requested_at :: "time option"
  vr_error_code :: "string option"

record verification_result =
  vx_id :: nat
  vx_result_id :: string
  vx_run_id :: string
  vx_book_key :: string
  vx_verdict :: pydict
  vx_evidence_id :: "string option"
  vx_state :: string
  vx_created_at :: time

text \<open>The two run tables beside the tables of the write path.\<close>

record run_db =
  rd_runs :: "verification_run list"
  rd_results :: "verification_result list"
  rd_main :: db

definition upd_run :: "string \<Rightarrow> (verification_run \<Rightarrow> verification_run) \<Rightarrow> run_db \<Rightarrow> run_db" where
  "upd_run rid f d = d\<lparr>rd_runs := row_map (\<lambda>r. vr_run_id r = rid) f (rd_runs d)\<rparr>"

definition find_run :: "string \<Rightarrow> run_db \<Rightarrow> verification_run option" where
  "find_run rid d = row_first (\<lambda>r. vr_run_id r = rid) (rd_runs d)"

definition results_of :: "string \<Rightarrow> run_db \<Rightarrow> verification_result list" where
  "results_of rid d = filter (\<lambda>x. vx_run_id x = rid) (rd_results d)"

definition CERTIFICATE_A_CONTRACT_VERSION :: string where
  "CERTIFICATE_A_CONTRACT_VERSION = ''certificate-a-v1''"

definition ACTIVE_STATUSES :: "string list" where
  "ACTIVE_STATUSES = [''pending'', ''inventorying'', ''running'', ''cancelling'']"

definition TERMINAL_STATUSES :: "string list" where
  "TERMINAL_STATUSES = [''cancelled'', ''completed'', ''completed_with_errors'', ''failed'', ''source_changed'', ''blocked_recovery'']"

text \<open>The unique constraints and the check of the run table.\<close>

definition active_source :: "verification_run \<Rightarrow> bool" where
  "active_source r = (vr_contract_version r = Some CERTIFICATE_A_CONTRACT_VERSION \<and> vr_status r \<in> set ACTIVE_STATUSES)"

definition run_constraints :: "verification_run list \<Rightarrow> bool" where
  "run_constraints rs =
     (distinct (map vr_run_id rs)
      \<and> distinct (filter (\<lambda>k. k \<noteq> None) (map vr_idempotency_key rs))
      \<and> distinct (filter (\<lambda>k. k \<noteq> None) (map vr_source_root_sha256 (filter active_source rs)))
      \<and> list_all (\<lambda>r. 0 \<le> vr_fence_token r) rs)"

definition add_run :: "verification_run \<Rightarrow> run_db \<Rightarrow> run_db res" where
  "add_run r d = (if run_constraints (rd_runs d @ [r]) then Inr (d\<lparr>rd_runs := rd_runs d @ [r]\<rparr>) else Inl IntegrityError)"

section \<open>Settings and requests\<close>

text \<open>The settings that Certificate A reads, with the shape pydantic has validated.\<close>

record settings =
  st_profile :: string
  st_database_backend :: string
  st_queue_backend :: string
  st_release_digest :: "string option"
  st_library_path :: "string option"
  st_library_read_only :: bool
  st_allow_remote_file_upload :: bool
  st_allow_remote_text :: bool
  st_allow_remote_images :: bool
  st_calibre_fetch :: bool
  st_google_books :: bool
  st_openlibrary :: bool
  st_ocr_backends :: "string list"
  st_ocr_language :: string
  st_ocr_max_pages :: int
  st_ocr_timeout_seconds :: int
  st_vision_enabled :: bool
  st_ollama_enabled :: bool
  st_lmstudio_enabled :: bool
  st_open_ai_api_key :: "string option"
  st_auto_apply_enabled :: bool
  st_supervised_pilot_enabled :: bool
  st_paperless_enabled :: bool
  st_gotenberg_enabled :: bool
  st_tika_enabled :: bool
  st_vectors_enabled :: bool
  st_manga_enabled :: bool
  st_lease_ttl_seconds :: int

definition is_release_digest :: "string \<Rightarrow> bool" where
  "is_release_digest s = (py_startswith s ''sha256:'' \<and> is_sha256_hex (py_removeprefix s ''sha256:''))"

definition is_language_code :: "string \<Rightarrow> bool" where
  "is_language_code s = (length s \<in> {2, 3} \<and> list_all is_lower s)"

definition settings_ok :: "settings \<Rightarrow> bool" where
  "settings_ok st =
     (case_option True is_release_digest (st_release_digest st) \<and> is_language_code (st_ocr_language st)
      \<and> 1 \<le> st_ocr_max_pages st \<and> st_ocr_max_pages st \<le> 12
      \<and> 10 \<le> st_ocr_timeout_seconds st \<and> st_ocr_timeout_seconds st \<le> 600
      \<and> 30 \<le> st_lease_ttl_seconds st \<and> st_lease_ttl_seconds st \<le> 3600)"

record verify_request =
  rq_limit :: "int option"
  rq_use_ocr :: bool

definition mk_verify_request :: "int option \<Rightarrow> bool \<Rightarrow> bool \<Rightarrow> verify_request res" where
  "mk_verify_request limit use_ocr confirm_calibre_stopped =
     (if \<not> case_option True (\<lambda>n. 0 < n \<and> n \<le> 10000) limit \<or> \<not> confirm_calibre_stopped
      then Inl (HTTPException 422 [])
      else Inr \<lparr>rq_limit = limit, rq_use_ocr = use_ocr\<rparr>)"

definition configuration_errors :: "settings \<Rightarrow> string list" where
  "configuration_errors st = concat
     [(if st_profile st \<noteq> ''production'' then [''production_profile_required''] else []),
      (if st_database_backend st \<noteq> ''postgres'' then [''postgres_required''] else []),
      (if st_queue_backend st \<noteq> ''valkey'' then [''valkey_required''] else []),
      (if st_release_digest st = None then [''release_digest_required''] else []),
      (if st_library_path st = None then [''offline_library_root_required''] else []),
      (if \<not> st_library_read_only st then [''read_only_library_required''] else []),
      (if st_allow_remote_file_upload st then [''uploads_must_be_disabled''] else []),
      (if st_allow_remote_text st \<or> st_allow_remote_images st then [''remote_content_must_be_disabled''] else []),
      (if st_calibre_fetch st \<or> \<not> st_google_books st \<or> \<not> st_openlibrary st then [''exact_isbn_providers_required''] else []),
      (if st_ocr_backends st \<noteq> [''tesseract''] then [''tesseract_only_required''] else []),
      (if st_vision_enabled st then [''vision_must_be_disabled''] else []),
      (if st_ollama_enabled st \<or> st_lmstudio_enabled st \<or> (st_open_ai_api_key st \<noteq> None \<and> st_open_ai_api_key st \<noteq> Some [])
       then [''llm_must_be_disabled''] else []),
      (if st_auto_apply_enabled st \<or> st_supervised_pilot_enabled st then [''certificate_a_must_be_shadow_only''] else []),
      (if st_paperless_enabled st then [''paperless_must_be_disabled''] else []),
      (if st_gotenberg_enabled st then [''preview_must_be_disabled''] else []),
      (if st_tika_enabled st then [''tika_must_be_disabled''] else []),
      (if st_vectors_enabled st then [''vectors_must_be_disabled''] else []),
      (if st_manga_enabled st then [''manga_must_be_disabled''] else [])]"

definition canonical_root :: "env \<Rightarrow> settings \<Rightarrow> string res" where
  "canonical_root en st =
     (case st_library_path st of
        None \<Rightarrow> Inl (ValueError ''offline library root is unavailable'')
      | Some p \<Rightarrow> Inr (canonical_path (env_cwd en) p))"

definition sha256_text :: "env \<Rightarrow> string \<Rightarrow> string" where
  "sha256_text en value = env_sha256 en value"

definition request_sha256 :: "env \<Rightarrow> verify_request \<Rightarrow> string" where
  "request_sha256 en rq = sha256_text en (json_dumps (PDict
     [(''limit'', case rq_limit rq of None \<Rightarrow> PNone | Some n \<Rightarrow> PInt n), (''use_ocr'', PBool (rq_use_ocr rq)),
      (''confirm_calibre_stopped'', PBool True)]))"

definition effective_config :: "env \<Rightarrow> settings \<Rightarrow> verify_request \<Rightarrow> string \<Rightarrow> pydict" where
  "effective_config en st rq source_root_sha256 =
     [(''contract_version'', PStr CERTIFICATE_A_CONTRACT_VERSION), (''pipeline_version'', PStr ''manifestation-v2''),
      (''policy_version'', PStr ''manifestation-v2''), (''schema_revision'', PStr (env_schema_revision en)),
      (''release_digest'', opt_str (st_release_digest st)), (''mode'', PStr ''shadow''),
      (''source'', PDict [(''kind'', PStr ''offline-folder''), (''root_sha256'', PStr source_root_sha256)]),
      (''limits'', PDict [(''book_limit'', case rq_limit rq of None \<Rightarrow> PNone | Some n \<Rightarrow> PInt n)]),
      (''providers'', PList [PStr ''google_books_isbn'', PStr ''openlibrary_isbn'']),
      (''recognition'', PDict
        [(''ocr_enabled'', PBool (rq_use_ocr rq)), (''ocr_backend'', PStr ''tesseract''),
         (''ocr_language'', PStr (st_ocr_language st)), (''ocr_max_pages'', PInt (st_ocr_max_pages st)),
         (''ocr_timeout_seconds'', PInt (st_ocr_timeout_seconds st)), (''vision_enabled'', PBool False),
         (''llm_enabled'', PBool False)]),
      (''privacy'', PDict [(''remote_text'', PBool False), (''remote_images'', PBool False)])]"

section \<open>Starting a run\<close>

record run_summary =
  sm_run_id :: string
  sm_status :: string
  sm_started_at :: time
  sm_finished_at :: "time option"
  sm_total :: "int option"
  sm_completed :: int
  sm_counts :: "int dict"
  sm_error_code :: "string option"

definition summary :: "verification_run \<Rightarrow> run_summary" where
  "summary run =
     \<lparr>sm_run_id = vr_run_id run, sm_status = vr_status run, sm_started_at = vr_started_at run,
      sm_finished_at = vr_finished_at run,
      sm_total = (if vr_inventory_finished_at run \<noteq> None then Some (vr_total run) else None),
      sm_completed = vr_completed run, sm_counts = vr_counts run, sm_error_code = vr_error_code run\<rparr>"

definition valid_idempotency_key :: "string \<Rightarrow> bool" where
  "valid_idempotency_key key =
     (16 \<le> int (length key) \<and> int (length key) \<le> 128
      \<and> list_all (\<lambda>c. is_upper c \<or> is_lower c \<or> is_digit c \<or> c \<in> set ''._:-'') key)"

definition existing_for_key :: "string \<Rightarrow> run_db \<Rightarrow> verification_run option" where
  "existing_for_key key d = row_first (\<lambda>r. vr_idempotency_key r = Some key) (rd_runs d)"

definition active_for_source :: "string \<Rightarrow> run_db \<Rightarrow> verification_run option" where
  "active_for_source source_hash d =
     (case sort_key vr_started_at (filter (\<lambda>r. vr_contract_version r = Some CERTIFICATE_A_CONTRACT_VERSION
             \<and> vr_source_root_sha256 r = Some source_hash \<and> vr_status r \<in> set ACTIVE_STATUSES) (rd_runs d)) of
        [] \<Rightarrow> None
      | r # _ \<Rightarrow> Some r)"

definition idempotent_or_conflict :: "verification_run \<Rightarrow> string \<Rightarrow> run_summary res" where
  "idempotent_or_conflict existing request_hash =
     (if vr_request_sha256 existing \<noteq> Some request_hash then Inl (HTTPException 409 [''idempotency_key_reused''])
      else Inr (summary existing))"

definition new_run :: "env \<Rightarrow> settings \<Rightarrow> verify_request \<Rightarrow> nat \<Rightarrow> string \<Rightarrow> time \<Rightarrow> string \<Rightarrow> string \<Rightarrow> verification_run" where
  "new_run en st rq pk uuid now key source_root =
     \<lparr>vr_id = pk, vr_run_id = ''verify_'' @ uuid, vr_status = ''pending'', vr_started_at = now, vr_finished_at = None,
      vr_total = 0, vr_completed = 0, vr_counts = [], vr_use_llm = False, vr_pipeline_version = ''manifestation-v2'',
      vr_mode = ''shadow'', vr_contract_version = Some CERTIFICATE_A_CONTRACT_VERSION, vr_idempotency_key = Some key,
      vr_request_sha256 = Some (request_sha256 en rq), vr_source_root = Some source_root,
      vr_source_root_sha256 = Some (sha256_text en source_root),
      vr_effective_config = effective_config en st rq (sha256_text en source_root), vr_source_snapshot = None,
      vr_lease_owner = None, vr_lease_expires_at = None, vr_fence_token = 0, vr_claimed_at = None, vr_heartbeat_at = None,
      vr_inventory_finished_at = None, vr_cancel_requested_at = None, vr_error_code = None\<rparr>"

text \<open>
  The request reads the tables in state \<open>seen\<close> and inserts in state \<open>d\<close>; other requests may commit in between, in which
  case a constraint refuses the insert and the queries are repeated. The header and the body are validated first.
\<close>

definition start_verification ::
    "env \<Rightarrow> settings \<Rightarrow> verify_request \<Rightarrow> string \<Rightarrow> string \<Rightarrow> time \<Rightarrow> run_db \<Rightarrow> run_db \<Rightarrow> run_summary res \<times> run_db" where
  "start_verification en st rq key uuid now seen d =
     (if \<not> valid_idempotency_key key then (Inl (HTTPException 422 []), d)
      else if configuration_errors st \<noteq> []
      then (Inl (HTTPException 503 (''certificate_a_configuration_invalid'' # configuration_errors st)), d)
      else
        (let request_hash = request_sha256 en rq in
         case existing_for_key key seen of
           Some existing \<Rightarrow> (idempotent_or_conflict existing request_hash, d)
         | None \<Rightarrow>
           (case canonical_root en st of
              Inl e \<Rightarrow> (Inl e, d)
            | Inr source_root \<Rightarrow>
              (let source_hash = sha256_text en source_root in
               case active_for_source source_hash seen of
                 Some active \<Rightarrow> (Inl (HTTPException 409 [''active_run_exists'', vr_run_id active]), d)
               | None \<Rightarrow>
                 (let run = new_run en st rq (next_id (map vr_id (rd_runs d))) uuid now key source_root in
                  case add_run run d of
                    Inr d' \<Rightarrow> (Inr (summary run), d')
                  | Inl _ \<Rightarrow>
                    (case existing_for_key key d of
                       Some raced \<Rightarrow> (idempotent_or_conflict raced request_hash, d)
                     | None \<Rightarrow>
                       (case active_for_source source_hash d of
                          Some active \<Rightarrow> (Inl (HTTPException 409 [''active_run_exists'', vr_run_id active]), d)
                        | None \<Rightarrow> (Inl (HTTPException 409 [''verification_request_conflict'']), d))))))))"

section \<open>Reading and cancelling\<close>

definition certificate_a_run :: "string \<Rightarrow> run_db \<Rightarrow> verification_run res" where
  "certificate_a_run rid d =
     (case row_first (\<lambda>r. vr_run_id r = rid \<and> vr_contract_version r = Some CERTIFICATE_A_CONTRACT_VERSION
             \<and> vr_pipeline_version r = ''manifestation-v2'') (rd_runs d) of
        None \<Rightarrow> Inl (HTTPException 404 [''run_not_found''])
      | Some r \<Rightarrow> Inr r)"

definition list_runs :: "nat \<Rightarrow> nat \<Rightarrow> run_db \<Rightarrow> run_summary list" where
  "list_runs limit offset d =
     map summary (take limit (drop offset (rev (sort_key vr_started_at
       (filter (\<lambda>r. vr_contract_version r = Some CERTIFICATE_A_CONTRACT_VERSION \<and> vr_pipeline_version r = ''manifestation-v2'')
         (rd_runs d))))))"

definition get_run :: "string \<Rightarrow> run_db \<Rightarrow> (run_summary \<times> (string \<times> string \<times> string option) list) res" where
  "get_run rid d =
     (case certificate_a_run rid d of
        Inl e \<Rightarrow> Inl e
      | Inr run \<Rightarrow> Inr (summary run, map (\<lambda>x. (vx_book_key x, vx_state x, vx_evidence_id x)) (results_of rid d)))"

definition cancellable :: "string \<Rightarrow> verification_run \<Rightarrow> bool" where
  "cancellable rid r =
     (vr_run_id r = rid \<and> vr_contract_version r = Some CERTIFICATE_A_CONTRACT_VERSION
      \<and> vr_pipeline_version r = ''manifestation-v2'' \<and> vr_finished_at r = None \<and> vr_status r \<in> set ACTIVE_STATUSES)"

definition cancel_run :: "string \<Rightarrow> time \<Rightarrow> run_db \<Rightarrow> run_summary res \<times> run_db" where
  "cancel_run rid moment d =
     (if length (filter (cancellable rid) (rd_runs d)) = 1 then
        (let d' = d\<lparr>rd_runs := row_map (cancellable rid) (\<lambda>r. r\<lparr>vr_status := ''cancelling'',
               vr_cancel_requested_at := (case vr_cancel_requested_at r of Some t \<Rightarrow> Some t | None \<Rightarrow> Some moment)\<rparr>) (rd_runs d)\<rparr>
         in (map_sum id summary (certificate_a_run rid d'), d'))
      else
        (case certificate_a_run rid d of
           Inl e \<Rightarrow> (Inl e, d)
         | Inr run \<Rightarrow>
             if vr_status run \<in> set TERMINAL_STATUSES \<or> vr_finished_at run \<noteq> None
             then (Inl (HTTPException 409 [''run_already_terminal'', vr_status run]), d)
             else (Inl (HTTPException 409 [''run_state_conflict'', vr_status run]), d)))"

end
