(* ===== verification/CertificateA.thy ===== *)
theory CertificateA
  imports Runs
begin

text \<open>
  The verifier's queue and result store (src/src/calibre\_ai\_auditor/verification/certificate\_a\_worker.py): claiming a
  run under a growing fence token, the heartbeat, the contract a claim executes, and the store whose every write checks the
  live owner and fence. Each operation takes the committed tables and the clock readings it makes and returns what it
  commits; an operation that raises commits nothing.
\<close>

section \<open>Claims\<close>

definition CLAIMABLE_STATUSES :: "string list" where
  "CLAIMABLE_STATUSES = [''pending'', ''inventorying'', ''running'', ''cancelling'']"

record claim =
  cl_run_id :: string
  cl_owner :: string
  cl_fence_token :: int

definition seconds :: "int \<Rightarrow> time" where
  "seconds n = n * 1000000"

definition claim_predicate :: "time \<Rightarrow> verification_run \<Rightarrow> bool" where
  "claim_predicate moment run =
     (vr_contract_version run = Some CERTIFICATE_A_CONTRACT_VERSION \<and> vr_pipeline_version run = ''manifestation-v2''
      \<and> vr_mode run = ''shadow'' \<and> vr_finished_at run = None \<and> vr_status run \<in> set CLAIMABLE_STATUSES
      \<and> (vr_lease_owner run = None \<or> (case vr_lease_expires_at run of None \<Rightarrow> True | Some t \<Rightarrow> t \<le> moment)))"

definition claimed_run :: "string \<Rightarrow> time \<Rightarrow> time \<Rightarrow> verification_run \<Rightarrow> verification_run" where
  "claimed_run owner moment expires run =
     run\<lparr>vr_lease_owner := Some owner, vr_lease_expires_at := Some expires, vr_claimed_at := Some moment,
         vr_heartbeat_at := Some moment, vr_fence_token := vr_fence_token run + 1,
         vr_status := (if vr_status run = ''pending'' then ''inventorying'' else vr_status run)\<rparr>"

text \<open>
  The candidate of the update statement: ordered by start time, then by id (\<open>sort_key\<close> is stable and the table is in id
  order). The statement is one atomic update.
\<close>

definition claim_candidate :: "time \<Rightarrow> string option \<Rightarrow> run_db \<Rightarrow> verification_run option" where
  "claim_candidate moment run_id d =
     (case sort_key vr_started_at (filter (\<lambda>r. claim_predicate moment r
             \<and> (case run_id of None \<Rightarrow> True | Some i \<Rightarrow> vr_run_id r = i)) (rd_runs d)) of
        [] \<Rightarrow> None
      | r # _ \<Rightarrow> Some r)"

definition claim_next_certificate_a_run ::
    "string \<Rightarrow> time \<Rightarrow> int \<Rightarrow> string option \<Rightarrow> run_db \<Rightarrow> claim option res \<times> run_db" where
  "claim_next_certificate_a_run owner moment ttl_seconds run_id d =
     (if owner = [] \<or> 128 < int (length owner)
      then (Inl (ValueError ''verifier owner must contain between 1 and 128 characters''), d)
      else
        (let expires = moment + seconds (max 3 ttl_seconds) in
         case claim_candidate moment run_id d of
           None \<Rightarrow> (Inr None, d)
         | Some run \<Rightarrow>
             (Inr (Some \<lparr>cl_run_id = vr_run_id run, cl_owner = owner, cl_fence_token = vr_fence_token run + 1\<rparr>),
              d\<lparr>rd_runs := row_map (\<lambda>r. vr_id r = vr_id run \<and> claim_predicate moment r) (claimed_run owner moment expires)
                  (rd_runs d)\<rparr>)))"

definition heartbeat_matches :: "claim \<Rightarrow> time \<Rightarrow> verification_run \<Rightarrow> bool" where
  "heartbeat_matches c moment run =
     (vr_run_id run = cl_run_id c \<and> vr_contract_version run = Some CERTIFICATE_A_CONTRACT_VERSION
      \<and> vr_lease_owner run = Some (cl_owner c) \<and> vr_fence_token run = cl_fence_token c \<and> vr_finished_at run = None
      \<and> vr_status run \<in> set CLAIMABLE_STATUSES
      \<and> (case vr_lease_expires_at run of None \<Rightarrow> False | Some t \<Rightarrow> moment < t))"

definition heartbeat_certificate_a_run :: "claim \<Rightarrow> time \<Rightarrow> int \<Rightarrow> run_db \<Rightarrow> bool \<times> run_db" where
  "heartbeat_certificate_a_run c moment ttl_seconds d =
     (let expires = moment + seconds (max 3 ttl_seconds) in
      (length (filter (heartbeat_matches c moment) (rd_runs d)) = 1,
       d\<lparr>rd_runs := row_map (heartbeat_matches c moment)
          (\<lambda>r. r\<lparr>vr_lease_expires_at := Some expires, vr_heartbeat_at := Some moment\<rparr>) (rd_runs d)\<rparr>))"

definition load_owned_run :: "claim \<Rightarrow> time \<Rightarrow> run_db \<Rightarrow> verification_run res" where
  "load_owned_run c moment d =
     (let lost = Inl (LostVerifierLeaseError ''verifier lease or fence is no longer current'') in
      case find_run (cl_run_id c) d of
        None \<Rightarrow> lost
      | Some run \<Rightarrow>
          if vr_contract_version run \<noteq> Some CERTIFICATE_A_CONTRACT_VERSION \<or> vr_lease_owner run \<noteq> Some (cl_owner c)
             \<or> vr_fence_token run \<noteq> cl_fence_token c \<or> vr_finished_at run \<noteq> None
             \<or> vr_status run \<notin> set CLAIMABLE_STATUSES
             \<or> (case vr_lease_expires_at run of None \<Rightarrow> True | Some t \<Rightarrow> t \<le> moment)
          then lost
          else Inr run)"

section \<open>The contract\<close>

record effective_contract =
  ef_schema_revision :: string
  ef_release_digest :: string
  ef_root_sha256 :: string
  ef_book_limit :: "int option"
  ef_providers :: "string list"
  ef_ocr_enabled :: bool
  ef_ocr_language :: string
  ef_ocr_max_pages :: int
  ef_ocr_timeout_seconds :: int

record contract =
  ct_run_id :: string
  ct_source_root :: string
  ct_source_root_sha256 :: string
  ct_release_digest :: string
  ct_book_limit :: "int option"
  ct_use_ocr :: bool
  ct_ocr_backend :: string
  ct_ocr_language :: string
  ct_ocr_max_pages :: int
  ct_ocr_timeout_seconds :: int
  ct_providers :: "string list"

text \<open>
  Validation by pydantic: \<open>extra="forbid"\<close>, required fields, literals and ranges as declared; the lax conversions of
  the types bool, int and str are the parameter \<open>lax\<close>.
\<close>

definition model_fields :: "string list \<Rightarrow> string list \<Rightarrow> pyval \<Rightarrow> pydict option" where
  "model_fields required optional v =
     (case v of
        PDict d \<Rightarrow>
          if list_all (dict_has d) required \<and> list_all (\<lambda>(k, _). k \<in> set required \<union> set optional) d
          then Some d else None
      | _ \<Rightarrow> None)"

definition lax_bool :: "(string \<Rightarrow> pyval \<Rightarrow> pyval option) \<Rightarrow> pyval \<Rightarrow> bool option" where
  "lax_bool lax v = (case lax ''bool'' v of Some (PBool b) \<Rightarrow> Some b | _ \<Rightarrow> None)"

definition lax_int :: "(string \<Rightarrow> pyval \<Rightarrow> pyval option) \<Rightarrow> int \<Rightarrow> int \<Rightarrow> pyval \<Rightarrow> int option" where
  "lax_int lax lo hi v =
     (case lax ''int'' v of Some (PInt i) \<Rightarrow> if lo \<le> i \<and> i \<le> hi then Some i else None | _ \<Rightarrow> None)"

definition lax_text :: "(string \<Rightarrow> pyval \<Rightarrow> pyval option) \<Rightarrow> (string \<Rightarrow> bool) \<Rightarrow> pyval \<Rightarrow> string option" where
  "lax_text lax pattern v =
     (case lax ''str'' v of Some (PStr s) \<Rightarrow> if pattern s then Some s else None | _ \<Rightarrow> None)"

definition source_contract :: "(string \<Rightarrow> pyval \<Rightarrow> pyval option) \<Rightarrow> pyval \<Rightarrow> string option" where
  "source_contract lax v =
     (case model_fields [''kind'', ''root_sha256''] [] v of
        None \<Rightarrow> None
      | Some d \<Rightarrow>
          if pget d ''kind'' \<noteq> PStr ''offline-folder'' then None
          else lax_text lax is_sha256_hex (pget d ''root_sha256''))"

definition limits_contract :: "(string \<Rightarrow> pyval \<Rightarrow> pyval option) \<Rightarrow> pyval \<Rightarrow> int option option" where
  "limits_contract lax v =
     (case model_fields [] [''book_limit''] v of
        None \<Rightarrow> None
      | Some d \<Rightarrow>
          if pget d ''book_limit'' = PNone then Some None
          else map_option Some (lax_int lax 1 10000 (pget d ''book_limit'')))"

definition recognition_contract ::
    "(string \<Rightarrow> pyval \<Rightarrow> pyval option) \<Rightarrow> pyval \<Rightarrow> (bool \<times> string \<times> int \<times> int) option" where
  "recognition_contract lax v =
     (case model_fields [''ocr_enabled'', ''ocr_backend'', ''ocr_language'', ''ocr_max_pages'', ''ocr_timeout_seconds'',
              ''vision_enabled'', ''llm_enabled''] [] v of
        None \<Rightarrow> None
      | Some d \<Rightarrow>
          if pget d ''ocr_backend'' \<noteq> PStr ''tesseract'' \<or> pget d ''vision_enabled'' \<noteq> PBool False
             \<or> pget d ''llm_enabled'' \<noteq> PBool False then None
          else
            (case (lax_bool lax (pget d ''ocr_enabled''), lax_text lax is_language_code (pget d ''ocr_language''),
                   lax_int lax 1 12 (pget d ''ocr_max_pages''), lax_int lax 10 600 (pget d ''ocr_timeout_seconds'')) of
               (Some enabled, Some language, Some pages, Some timeout) \<Rightarrow> Some (enabled, language, pages, timeout)
             | _ \<Rightarrow> None))"

definition privacy_contract :: "pyval \<Rightarrow> bool" where
  "privacy_contract v =
     (case model_fields [''remote_text'', ''remote_images''] [] v of
        None \<Rightarrow> False
      | Some d \<Rightarrow> pget d ''remote_text'' = PBool False \<and> pget d ''remote_images'' = PBool False)"

definition provider_names :: "pyval \<Rightarrow> string list option" where
  "provider_names v =
     (case v of
        PList xs \<Rightarrow>
          if list_all (\<lambda>x. x = PStr ''google_books_isbn'' \<or> x = PStr ''openlibrary_isbn'') xs
          then Some (map (\<lambda>x. case x of PStr s \<Rightarrow> s | _ \<Rightarrow> []) xs) else None
      | _ \<Rightarrow> None)"

definition effective_validate :: "(string \<Rightarrow> pyval \<Rightarrow> pyval option) \<Rightarrow> pydict \<Rightarrow> effective_contract option" where
  "effective_validate lax raw =
     (case model_fields [''contract_version'', ''pipeline_version'', ''policy_version'', ''schema_revision'', ''release_digest'',
              ''mode'', ''source'', ''limits'', ''providers'', ''recognition'', ''privacy''] [] (PDict raw) of
        None \<Rightarrow> None
      | Some d \<Rightarrow>
          if pget d ''contract_version'' \<noteq> PStr ''certificate-a-v1'' \<or> pget d ''pipeline_version'' \<noteq> PStr ''manifestation-v2''
             \<or> pget d ''policy_version'' \<noteq> PStr ''manifestation-v2'' \<or> pget d ''mode'' \<noteq> PStr ''shadow''
             \<or> \<not> privacy_contract (pget d ''privacy'') then None
          else
            (case (lax_text lax (\<lambda>_. True) (pget d ''schema_revision''), lax_text lax is_release_digest (pget d ''release_digest''),
                   source_contract lax (pget d ''source''), limits_contract lax (pget d ''limits''),
                   provider_names (pget d ''providers''), recognition_contract lax (pget d ''recognition'')) of
               (Some revision, Some digest, Some root, Some limit, Some providers, Some (enabled, language, pages, timeout)) \<Rightarrow>
                 Some \<lparr>ef_schema_revision = revision, ef_release_digest = digest, ef_root_sha256 = root, ef_book_limit = limit,
                   ef_providers = providers, ef_ocr_enabled = enabled, ef_ocr_language = language, ef_ocr_max_pages = pages,
                   ef_ocr_timeout_seconds = timeout\<rparr>
             | _ \<Rightarrow> None))"

text \<open>\<open>_absolute_lexical\<close>\<close>

definition absolute_lexical :: "env \<Rightarrow> string \<Rightarrow> string" where
  "absolute_lexical en path = canonical_path (env_cwd en) path"

definition check_contract ::
    "(string \<Rightarrow> pyval \<Rightarrow> pyval option) \<Rightarrow> env \<Rightarrow> settings \<Rightarrow> claim \<Rightarrow> verification_run \<Rightarrow> contract res" where
  "check_contract lax en st c run =
     (let bad = (\<lambda>m. Inl (CertificateAContractError m)) in
      case effective_validate lax (vr_effective_config run) of
        None \<Rightarrow> bad ''persisted Certificate A options are invalid''
      | Some effective \<Rightarrow>
          if ef_providers effective \<noteq> [''google_books_isbn'', ''openlibrary_isbn'']
          then bad ''persisted provider contract is not the exact Certificate A allowlist''
          else if ef_schema_revision effective \<noteq> env_schema_revision en
          then bad ''persisted schema revision does not match this release''
          else if st_release_digest st \<noteq> Some (ef_release_digest effective)
          then bad ''persisted release digest does not match the verifier release''
          else (case (vr_source_root run, vr_source_root_sha256 run) of
              (Some source_root, Some root_sha256) \<Rightarrow>
                (let canonical = absolute_lexical en source_root;
                     actual = env_sha256 en source_root
                 in if canonical \<noteq> source_root then bad ''persisted source root is not canonical''
                    else if root_sha256 \<noteq> actual \<or> ef_root_sha256 effective \<noteq> actual
                    then bad ''persisted source root identity is inconsistent''
                    else if map_option (absolute_lexical en) (st_library_path st) \<noteq> Some canonical
                    then bad ''configured source root differs from the persisted source root''
                    else if st_profile st \<noteq> ''production'' \<or> \<not> st_library_read_only st
                    then bad ''verifier requires the read-only production profile''
                    else Inr \<lparr>ct_run_id = cl_run_id c, ct_source_root = canonical, ct_source_root_sha256 = actual,
                      ct_release_digest = ef_release_digest effective, ct_book_limit = ef_book_limit effective,
                      ct_use_ocr = ef_ocr_enabled effective, ct_ocr_backend = ''tesseract'',
                      ct_ocr_language = ef_ocr_language effective, ct_ocr_max_pages = ef_ocr_max_pages effective,
                      ct_ocr_timeout_seconds = ef_ocr_timeout_seconds effective, ct_providers = ef_providers effective\<rparr>)
            | _ \<Rightarrow> bad ''persisted source root is missing''))"

definition load_certificate_a_contract ::
    "(string \<Rightarrow> pyval \<Rightarrow> pyval option) \<Rightarrow> env \<Rightarrow> settings \<Rightarrow> claim \<Rightarrow> time \<Rightarrow> run_db \<Rightarrow> contract res" where
  "load_certificate_a_contract lax en st c moment d =
     (case load_owned_run c moment d of
        Inl e \<Rightarrow> Inl e
      | Inr run \<Rightarrow> check_contract lax en st c run)"

section \<open>The fenced store\<close>

definition store_run :: "claim \<Rightarrow> bool \<Rightarrow> time \<Rightarrow> run_db \<Rightarrow> verification_run res" where
  "store_run c allow_cancelling moment d =
     (case load_owned_run c moment d of
        Inl e \<Rightarrow> Inl e
      | Inr run \<Rightarrow>
          if \<not> allow_cancelling \<and> (vr_status run = ''cancelling'' \<or> vr_cancel_requested_at run \<noteq> None)
          then Inl (VerifierCancellationRequestedError ''verification cancellation was requested'')
          else Inr run)"

definition store_result :: "string \<Rightarrow> string \<Rightarrow> run_db \<Rightarrow> verification_result res" where
  "store_result rid book_key d =
     (case row_first (\<lambda>x. vx_run_id x = rid \<and> vx_book_key x = book_key) (rd_results d) of
        None \<Rightarrow> Inl (ValueError ''book is outside the frozen Certificate A membership'')
      | Some x \<Rightarrow> Inr x)"

definition upd_result :: "string \<Rightarrow> string \<Rightarrow> (verification_result \<Rightarrow> verification_result) \<Rightarrow> run_db \<Rightarrow> run_db" where
  "upd_result rid book_key f d =
     d\<lparr>rd_results := row_map (\<lambda>x. vx_run_id x = rid \<and> vx_book_key x = book_key) f (rd_results d)\<rparr>"

text \<open>The new pending rows of an inventory, with the uuids \<open>u\<close> for their result ids.\<close>

fun pending_results :: "string \<Rightarrow> time \<Rightarrow> string list \<Rightarrow> string list \<Rightarrow> verification_result list \<Rightarrow> verification_result list" where
  "pending_results rid now us [] rows = rows"
| "pending_results rid now us (book_key # keys) rows =
     pending_results rid now (tl us) keys
       (rows @ [\<lparr>vx_id = next_id (map vx_id rows), vx_result_id = (case us of u # _ \<Rightarrow> u | [] \<Rightarrow> []), vx_run_id = rid,
          vx_book_key = book_key, vx_verdict = [], vx_evidence_id = None, vx_state = ''pending'', vx_created_at = now\<rparr>])"

definition store_inventory ::
    "claim \<Rightarrow> string list \<Rightarrow> pydict \<Rightarrow> time \<Rightarrow> time \<Rightarrow> string list \<Rightarrow> run_db \<Rightarrow> unit res \<times> run_db" where
  "store_inventory c book_keys source_snapshot m1 m2 us d =
     (if \<not> distinct book_keys \<or> list_ex (\<lambda>k. py_strip k = []) book_keys
      then (Inl (ValueError ''Certificate A inventory must contain unique non-empty book keys''), d)
      else case store_run c False m1 d of
        Inl e \<Rightarrow> (Inl e, d)
      | Inr run \<Rightarrow>
          (let existing_keys = map vx_book_key (results_of (cl_run_id c) d);
               changed = (case vr_source_snapshot run of None \<Rightarrow> False | Some s \<Rightarrow> \<not> dict_eq s source_snapshot)
           in if changed
              then (Inl (SourceSnapshotMismatchError ''offline source snapshot changed during recovery''), d)
              else if existing_keys \<noteq> [] \<and> set existing_keys \<noteq> set book_keys
              then (Inl (SourceSnapshotMismatchError ''selected library membership changed during recovery''), d)
              else
                (let rows = (if existing_keys = [] then pending_results (cl_run_id c) m2 us book_keys (rd_results d) else rd_results d)
                 in if \<not> distinct (map vx_result_id rows) then (Inl IntegrityError, d)
                    else (Inr (), upd_run (cl_run_id c) (\<lambda>r. r\<lparr>vr_source_snapshot := Some source_snapshot,
                        vr_total := int (length book_keys),
                        vr_inventory_finished_at := (case vr_inventory_finished_at r of Some t \<Rightarrow> Some t | None \<Rightarrow> Some m2),
                        vr_status := ''running''\<rparr>) (d\<lparr>rd_results := rows\<rparr>)))))"

definition store_record_state :: "claim \<Rightarrow> string \<Rightarrow> audit_state \<Rightarrow> time \<Rightarrow> run_db \<Rightarrow> unit res \<times> run_db" where
  "store_record_state c book_key state m d =
     (case store_run c False m d of
        Inl e \<Rightarrow> (Inl e, d)
      | Inr _ \<Rightarrow>
          (case store_result (cl_run_id c) book_key d of
             Inl e \<Rightarrow> (Inl e, d)
           | Inr _ \<Rightarrow> (Inr (), upd_result (cl_run_id c) book_key (\<lambda>x. x\<lparr>vx_state := state_text state\<rparr>) d)))"

text \<open>\<open>package.model_dump(mode="json")\<close>\<close>

definition dump_full_snapshot :: "book_snapshot \<Rightarrow> pyval" where
  "dump_full_snapshot s = PDict
     [(''book_key'', PStr (sn_book_key s)), (''calibre_book_id'', PInt (sn_calibre_book_id s)),
      (''current_metadata'', PDict (sn_current_metadata s)), (''files'', str_list (sn_files s)),
      (''library_root'', opt_str (sn_library_root s)),
      (''source'', case sn_source s of None \<Rightarrow> PNone | Some src \<Rightarrow> dump_source src),
      (''source_revision_sha256'', opt_str (sn_source_revision_sha256 s)), (''snapshot_sha256'', PStr (sn_snapshot_sha256 s))]"

definition dump_package :: "evidence_package_v2 \<Rightarrow> pydict" where
  "dump_package p =
     [(''schema_version'', PInt 2), (''policy_version'', PStr ''manifestation-v2''),
      (''evidence_id'', PStr (pk_evidence_id p)), (''run_id'', PStr (pk_run_id p)),
      (''book_key'', PStr (pk_book_key p)), (''created_at'', PStr (pk_created_at p)),
      (''state'', PStr (state_text (pk_state p))), (''snapshot'', dump_full_snapshot (pk_snapshot p)),
      (''formats'', PList (map dump_format (pk_formats p))),
      (''source_evidence'', PList (map dump_source_evidence (pk_source_evidence p))),
      (''identity'', PDict (dump_identity (pk_identity p))), (''privacy_receipts'', PList (pk_privacy_receipts p)),
      (''warnings'', str_list (pk_warnings p)), (''error'', opt_str (pk_error p)),
      (''package_sha256'', opt_str (pk_package_sha256 p))]"

definition after_last :: "char \<Rightarrow> string \<Rightarrow> string" where
  "after_last c s = last (py_split c s)"

definition source_text :: "evidence_package_v2 \<Rightarrow> string" where
  "source_text p =
     (case sn_source (pk_snapshot p) of
        None \<Rightarrow> ''calibre''
      | Some src \<Rightarrow> (case src_kind src of calibre_content_server \<Rightarrow> ''calibre_content_server''
                     | offline_calibre_snapshot \<Rightarrow> ''offline_calibre_snapshot''))"

definition package_files :: "evidence_package_v2 \<Rightarrow> pyval list" where
  "package_files p =
     (let format_by_reference = dict_update [] (map (\<lambda>f. (fe_path f, py_upper (fe_format f))) (pk_formats p)) in
      map (\<lambda>path.
        let format_name = (case dict_get format_by_reference path of
              Some name \<Rightarrow> name
            | None \<Rightarrow>
                if sn_source (pk_snapshot p) \<noteq> None then after_last (CHR '':'') path
                else if CHR ''.'' \<in> set path then py_upper (after_last (CHR ''.'') path) else ''UNKNOWN'')
        in PDict [(''path'', PStr path), (''format'', PStr format_name)]) (sn_files (pk_snapshot p)))"

definition record_book :: "evidence_package_v2 \<Rightarrow> time \<Rightarrow> db \<Rightarrow> db" where
  "record_book p now d =
     (let s = pk_snapshot p;
          fill = (\<lambda>b. b\<lparr>bk_run_id := pk_run_id p, bk_calibre_book_id := Some (sn_calibre_book_id s), bk_source := source_text p,
            bk_files := package_files p, bk_current_metadata := sn_current_metadata s, bk_status := state_text (pk_state p)\<rparr>)
      in case row_first (\<lambda>b. bk_book_key b = pk_book_key p) (db_books d) of
           None \<Rightarrow> d\<lparr>db_books := db_books d @ [fill \<lparr>bk_id = next_id (map bk_id (db_books d)), bk_book_key = pk_book_key p,
             bk_run_id = pk_run_id p, bk_calibre_book_id = Some (sn_calibre_book_id s), bk_paperless_document_id = None,
             bk_source = source_text p, bk_discovered_at = now, bk_files = [], bk_current_metadata = [], bk_field_locks = [],
             bk_status = ''pending''\<rparr>]\<rparr>
         | Some _ \<Rightarrow> d\<lparr>db_books := row_map (\<lambda>b. bk_book_key b = pk_book_key p) fill (db_books d)\<rparr>)"

definition record_evidence :: "evidence_package_v2 \<Rightarrow> time \<Rightarrow> db \<Rightarrow> db res" where
  "record_evidence p now d =
     (let payload = dump_package p in
      case row_first (\<lambda>e. ep_evidence_id e = pk_evidence_id p) (db_evidence d) of
        None \<Rightarrow> Inr (d\<lparr>db_evidence := db_evidence d @ [\<lparr>ep_id = next_id (map ep_id (db_evidence d)),
          ep_evidence_id = pk_evidence_id p, ep_book_key = pk_book_key p, ep_run_id = pk_run_id p, ep_created_at = now,
          ep_schema_version = 2, ep_current = sn_current_metadata (pk_snapshot p), ep_extracted = dump_identity (pk_identity p),
          ep_candidates = [], ep_snippets = [], ep_cover = None, ep_risk_flags = mr_risk_flags (pk_identity p),
          ep_decision = None, ep_observations = Some payload\<rparr>]\<rparr>)
      | Some e \<Rightarrow>
          if (case ep_observations e of None \<Rightarrow> True | Some o' \<Rightarrow> \<not> dict_eq o' payload)
          then Inl (ValueError ''evidence id already exists with different sealed content'')
          else Inr d)"

definition package_verdict :: "evidence_package_v2 \<Rightarrow> pydict" where
  "package_verdict p =
     [(''schema_version'', PInt 2), (''evidence_id'', PStr (pk_evidence_id p)), (''book_key'', PStr (pk_book_key p)),
      (''state'', PStr (state_text (pk_state p))), (''identity'', PDict (dump_identity (pk_identity p))),
      (''warnings'', str_list (pk_warnings p))]"

definition TERMINAL_BOOK_STATES :: "audit_state list" where
  "TERMINAL_BOOK_STATES = [bs_shadowed, bs_verified, bs_review, bs_deferred, bs_failed, bs_source_changed, bs_blocked_recovery]"

definition sealed_result :: "verification_result \<Rightarrow> bool" where
  "sealed_result x =
     (vx_state x \<in> set (map state_text TERMINAL_BOOK_STATES) \<and> vx_evidence_id x \<noteq> None \<and> vx_evidence_id x \<noteq> Some [])"

definition count_state :: "string \<Rightarrow> int dict \<Rightarrow> int dict" where
  "count_state s counts = dict_set s ((case dict_get counts s of Some n \<Rightarrow> n | None \<Rightarrow> 0) + 1) counts"

definition refresh_counts :: "string \<Rightarrow> run_db \<Rightarrow> run_db" where
  "refresh_counts rid d =
     (let done = filter sealed_result (results_of rid d) in
      upd_run rid (\<lambda>r. r\<lparr>vr_completed := int (length done),
        vr_counts := foldl (\<lambda>counts x. count_state (vx_state x) counts) [] done\<rparr>) d)"

definition store_record_package ::
    "env \<Rightarrow> claim \<Rightarrow> evidence_package_v2 \<Rightarrow> time \<Rightarrow> time \<Rightarrow> run_db \<Rightarrow> unit res \<times> run_db" where
  "store_record_package en c p m1 m2 d =
     (let invalid = (Inl (ValueError ''evidence package identity or seal is invalid''), d) in
      if pk_run_id p \<noteq> cl_run_id c then invalid
      else case verify_seal en p of
        Inl e \<Rightarrow> (Inl e, d)
      | Inr False \<Rightarrow> invalid
      | Inr True \<Rightarrow>
          (case store_run c True m1 d of
             Inl e \<Rightarrow> (Inl e, d)
           | Inr _ \<Rightarrow>
               (case store_result (cl_run_id c) (pk_book_key p) d of
                  Inl e \<Rightarrow> (Inl e, d)
                | Inr _ \<Rightarrow>
                    (case record_evidence p m1 (record_book p m1 (rd_main d)) of
                       Inl e \<Rightarrow> (Inl e, d)
                     | Inr main \<Rightarrow>
                         (let d1 = upd_result (cl_run_id c) (pk_book_key p) (\<lambda>x. x\<lparr>vx_evidence_id := Some (pk_evidence_id p),
                                vx_state := state_text (pk_state p), vx_verdict := package_verdict p\<rparr>) (d\<lparr>rd_main := main\<rparr>)
                          in case store_run c True m2 d1 of
                               Inl e \<Rightarrow> (Inl e, d)
                             | Inr _ \<Rightarrow> (Inr (), refresh_counts (cl_run_id c) d1))))))"

text \<open>Which results of a run need no more work.\<close>

definition resumable_state :: "string \<Rightarrow> bool" where
  "resumable_state s = (s \<in> set (map state_text (filter (\<lambda>x. x \<noteq> bs_failed \<and> x \<noteq> bs_source_changed) TERMINAL_BOOK_STATES)))"

definition result_resumable :: "env \<Rightarrow> string \<Rightarrow> db \<Rightarrow> verification_result \<Rightarrow> bool res" where
  "result_resumable en rid d x =
     (case vx_evidence_id x of
        None \<Rightarrow> Inr False
      | Some eid \<Rightarrow>
          if eid = [] \<or> \<not> resumable_state (vx_state x) then Inr False
          else (case row_first (\<lambda>e. ep_evidence_id e = eid) (db_evidence d) of
              None \<Rightarrow> Inr False
            | Some e \<Rightarrow>
                (case ep_observations e of
                   None \<Rightarrow> Inr False
                 | Some observations \<Rightarrow>
                     if ep_schema_version e \<noteq> 2 \<or> observations = [] then Inr False
                     else (case env_parse_package en observations of
                         None \<Rightarrow> Inr False
                       | Some p \<Rightarrow>
                           (case verify_seal en p of
                              Inl exn \<Rightarrow> Inl exn
                            | Inr sealed \<Rightarrow> Inr (sealed \<and> pk_evidence_id p = eid \<and> pk_run_id p = rid
                                \<and> pk_book_key p = vx_book_key x \<and> ep_book_key e = pk_book_key p \<and> ep_run_id e = pk_run_id p))))))"

fun resumable_keys :: "env \<Rightarrow> string \<Rightarrow> db \<Rightarrow> verification_result list \<Rightarrow> string list res" where
  "resumable_keys en rid d [] = Inr []"
| "resumable_keys en rid d (x # xs) =
     (case result_resumable en rid d x of
        Inl e \<Rightarrow> Inl e
      | Inr b \<Rightarrow>
          (case resumable_keys en rid d xs of
             Inl e \<Rightarrow> Inl e
           | Inr keys \<Rightarrow> Inr (if b then vx_book_key x # keys else keys)))"

definition store_resumable_book_keys :: "env \<Rightarrow> claim \<Rightarrow> time \<Rightarrow> run_db \<Rightarrow> string list res" where
  "store_resumable_book_keys en c m d =
     (case store_run c False m d of
        Inl e \<Rightarrow> Inl e
      | Inr _ \<Rightarrow> resumable_keys en (cl_run_id c) (rd_main d) (results_of (cl_run_id c) d))"

definition store_cancellation_requested :: "claim \<Rightarrow> time \<Rightarrow> run_db \<Rightarrow> bool res" where
  "store_cancellation_requested c m d =
     (case store_run c True m d of
        Inl e \<Rightarrow> Inl e
      | Inr run \<Rightarrow> Inr (vr_status run = ''cancelling'' \<or> vr_cancel_requested_at run \<noteq> None))"

definition store_finish :: "claim \<Rightarrow> string \<Rightarrow> string option \<Rightarrow> time \<Rightarrow> time \<Rightarrow> run_db \<Rightarrow> unit res \<times> run_db" where
  "store_finish c status error_code m1 m2 d =
     (if status \<notin> set TERMINAL_STATUSES then (Inl (ValueError ''invalid Certificate A terminal status''), d)
      else case store_run c True m1 d of
        Inl e \<Rightarrow> (Inl e, d)
      | Inr _ \<Rightarrow>
          (Inr (), upd_run (cl_run_id c) (\<lambda>r. r\<lparr>vr_status := status, vr_error_code := error_code, vr_finished_at := Some m2,
             vr_lease_owner := None, vr_lease_expires_at := None\<rparr>) (refresh_counts (cl_run_id c) d)))"

end
