(* ===== verification/Pipeline.thy ===== *)
theory Pipeline
  imports ApplyEngine CertificateA
begin

text \<open>
  The audit of a library, one book at a time (class LibraryAuditPipeline of
  src/src/calibre\_ai\_auditor/verification/pipeline\_v2.py): the canonical snapshot of a book, the inspection of its formats,
  the evidence package of every outcome, and the loop over the books. The reader, the format inspector, the evidence
  enricher and the two callbacks are programs over any state, the fields of \<open>pipeline\<close>; optional methods are options.
\<close>

section \<open>Canonical metadata\<close>

definition normalize_authors :: "pyval \<Rightarrow> string list" where
  "normalize_authors value =
     (case value of
        PList xs \<Rightarrow> filter (\<lambda>s. s \<noteq> []) (map (\<lambda>x. py_strip (py_str x)) xs)
      | PStr s \<Rightarrow> filter (\<lambda>s. s \<noteq> []) (map py_strip (py_split (CHR ''&'') s))
      | _ \<Rightarrow> [])"

definition normalize_languages :: "pyval \<Rightarrow> string list" where
  "normalize_languages value =
     (case value of
        PList xs \<Rightarrow> map (\<lambda>x. py_lower (py_strip (py_str x))) (filter (\<lambda>x. py_strip (py_str x) \<noteq> []) xs)
      | PStr s \<Rightarrow> map (\<lambda>x. py_lower (py_strip x))
          (filter (\<lambda>x. py_strip x \<noteq> []) (py_split (CHR '','') (map (\<lambda>c. if c = CHR '';'' then CHR '','' else c) s)))
      | _ \<Rightarrow> [])"

definition canonical_current :: "pydict \<Rightarrow> pydict" where
  "canonical_current raw =
     [(''title'', pget raw ''title''), (''authors'', str_list (normalize_authors (pget raw ''authors''))),
      (''identifiers'', case pget raw ''identifiers'' of PDict d \<Rightarrow> PDict d | _ \<Rightarrow> PDict []),
      (''languages'', str_list (normalize_languages (pget_or raw ''languages'' (pget raw ''language'')))),
      (''publisher'', pget raw ''publisher''), (''pubdate'', pget_or raw ''pubdate'' (pget raw ''published_date'')),
      (''series'', pget raw ''series''), (''series_index'', pget raw ''series_index''),
      (''edition_statement'', pget_or raw ''#edition'' (pget raw ''edition_statement'')), (''cover'', pget raw ''cover'')]"

definition format_paths :: "pyval \<Rightarrow> string list" where
  "format_paths raw =
     (case raw of
        PList xs \<Rightarrow>
          List.map_filter (\<lambda>item. case item of
              PStr p \<Rightarrow> if py_strip p \<noteq> [] then Some (py_strip p) else None
            | PDict d \<Rightarrow> (case pget d ''path'' of PStr p \<Rightarrow> Some (py_strip p) | _ \<Rightarrow> None)
            | _ \<Rightarrow> None) xs
      | PStr s \<Rightarrow> filter (\<lambda>p. p \<noteq> []) (map py_strip (py_split (CHR '','') s))
      | _ \<Rightarrow> [])"

text \<open>\<open>int(v)\<close>; a float is held by its \<open>repr\<close>, here below \<open>10 ^ 16\<close>, where it has no exponent.\<close>

definition py_int_of :: "pyval \<Rightarrow> int res" where
  "py_int_of v =
     (case v of
        PInt i \<Rightarrow> Inr i
      | PBool b \<Rightarrow> Inr (if b then 1 else 0)
      | PStr s \<Rightarrow> (case py_int s of Some i \<Rightarrow> Inr i | None \<Rightarrow> Inl (ValueError ''invalid literal for int()''))
      | PFloat r \<Rightarrow> (case py_int (hd (py_split (CHR ''.'') r)) of Some i \<Rightarrow> Inr i
          | None \<Rightarrow> Inl (ValueError ''cannot convert float to integer''))
      | _ \<Rightarrow> Inl (TypeError ''int() argument must be a string or a real number''))"

definition book_id_of :: "pydict \<Rightarrow> int res" where
  "book_id_of raw = (case dict_get raw ''id'' of None \<Rightarrow> Inl (KeyError ''id'') | Some v \<Rightarrow> py_int_of v)"

section \<open>The pipeline object\<close>

record inspection =
  in_format_evidence :: format_evidence
  in_evidence :: "source_evidence list"

record enrichment =
  er_evidence :: "source_evidence list"
  er_privacy_receipts :: "pyval list"
  er_warnings :: "string list"

record 's pipeline =
  pl_list_books :: "('s, pydict list) eff"
  pl_show_metadata :: "int \<Rightarrow> ('s, pydict) eff"
  pl_format_references :: "int \<Rightarrow> pyval \<Rightarrow> ('s, string list) eff"
  pl_format_from_reference :: "string \<Rightarrow> ('s, string) eff"
  pl_export_format :: "int \<Rightarrow> string \<Rightarrow> ('s, string \<times> (bool \<Rightarrow> ('s, unit) eff)) eff"
  pl_assert_unchanged :: "(int \<Rightarrow> ('s, unit) eff) option"
  pl_open_file_beneath :: "string \<Rightarrow> string \<Rightarrow> ('s, unit) eff"
  pl_source :: "book_source option"
  pl_library_root :: "string option"
  pl_inspector :: "string \<Rightarrow> ('s, inspection) eff"
  pl_collect :: "book_snapshot \<Rightarrow> inspection list \<Rightarrow> ('s, enrichment) eff"
  pl_collect_materialized :: "(book_snapshot \<Rightarrow> inspection \<Rightarrow> ('s, enrichment) eff) option"
  pl_collect_aggregate :: "(book_snapshot \<Rightarrow> inspection list \<Rightarrow> ('s, enrichment) eff) option"
  pl_state_callback :: "(string \<Rightarrow> audit_state \<Rightarrow> ('s, unit) eff) option"
  pl_package_callback :: "(evidence_package_v2 \<Rightarrow> ('s, unit) eff) option"
  pl_now :: "('s, string) eff"
  pl_uuid :: "('s, string) eff"

text \<open>The source and library root of \<open>__init__\<close>, for a reader with a source kind or without one.\<close>

definition init_source ::
    "env \<Rightarrow> source_kind_desc option \<Rightarrow> string \<Rightarrow> bool \<Rightarrow> string option \<Rightarrow> (book_source option \<times> string option) res" where
  "init_source en kind fingerprint scratch raw_library_root =
     (case kind of
        Some k \<Rightarrow>
          (case validate_fingerprint fingerprint of
             Inl e \<Rightarrow> Inl e
           | Inr f \<Rightarrow>
               if \<not> scratch then Inl (ValueError ''materialized Calibre verification requires a scratch root'')
               else Inr (Some \<lparr>src_kind = k, src_fingerprint = f\<rparr>, None))
      | None \<Rightarrow>
          Inr (None, case raw_library_root of None \<Rightarrow> None
            | Some r \<Rightarrow> if r = [] then None else Some (canonical_path (env_cwd en) r)))"

definition emit :: "'s pipeline \<Rightarrow> string \<Rightarrow> audit_state \<Rightarrow> ('s, unit) eff" where
  "emit pl book_key state = (case pl_state_callback pl of None \<Rightarrow> ret () | Some f \<Rightarrow> f book_key state)"

definition book_key_of :: "'s pipeline \<Rightarrow> int \<Rightarrow> string" where
  "book_key_of pl book_id =
     (case pl_source pl of
        None \<Rightarrow> ''calibre:'' @ show_int book_id
      | Some src \<Rightarrow>
          (case src_kind src of calibre_content_server \<Rightarrow> ''calibre-server'' | offline_calibre_snapshot \<Rightarrow> ''calibre-offline'')
            @ '':'' @ src_fingerprint src @ '':'' @ show_int book_id)"

definition file_references :: "'s pipeline \<Rightarrow> int \<Rightarrow> pyval \<Rightarrow> ('s, string list) eff" where
  "file_references pl book_id raw_formats =
     (case pl_source pl of
        None \<Rightarrow> ret (format_paths raw_formats)
      | Some _ \<Rightarrow>
          bnd (pl_format_references pl book_id raw_formats) (\<lambda>references.
          if \<not> distinct references then raise (ValueError ''Calibre returned duplicate remote format references'')
          else ret references))"

definition new_snapshot :: "env \<Rightarrow> 's pipeline \<Rightarrow> int \<Rightarrow> pydict \<Rightarrow> string list \<Rightarrow> string option \<Rightarrow> book_snapshot" where
  "new_snapshot en pl book_id current files source_revision =
     (let snapshot = \<lparr>sn_book_key = book_key_of pl book_id, sn_calibre_book_id = book_id, sn_current_metadata = current,
            sn_files = files, sn_library_root = pl_library_root pl, sn_source = pl_source pl,
            sn_source_revision_sha256 = source_revision, sn_snapshot_sha256 = replicate 64 (CHR ''0'')\<rparr>
      in snapshot\<lparr>sn_snapshot_sha256 := calculated_sha256 en snapshot\<rparr>)"

definition revision_of :: "env \<Rightarrow> 's pipeline \<Rightarrow> pydict \<Rightarrow> string option" where
  "revision_of en pl raw = (case pl_source pl of None \<Rightarrow> None | Some _ \<Rightarrow> Some (canonical_json_hash en (PDict raw)))"

definition take_book_snapshot :: "env \<Rightarrow> 's pipeline \<Rightarrow> pydict \<Rightarrow> ('s, book_snapshot) eff" where
  "take_book_snapshot en pl raw_book =
     bnd (lift_res (book_id_of raw_book)) (\<lambda>book_id.
     bnd (pl_show_metadata pl book_id) (\<lambda>current_raw.
     bnd (file_references pl book_id (py_or (pget current_raw ''formats'') (pget raw_book ''formats''))) (\<lambda>files.
     ret (new_snapshot en pl book_id (canonical_current current_raw) files (revision_of en pl current_raw)))))"

definition validated_file :: "'s pipeline \<Rightarrow> string \<Rightarrow> ('s, string) eff" where
  "validated_file pl raw_path =
     (case pl_library_root pl of
        None \<Rightarrow> ret raw_path
      | Some root \<Rightarrow>
          if \<not> is_absolute raw_path then raise (ValueError ''Calibre returned a non-absolute ebook path'')
          else
            thn (try_except (\<lambda>e. case e of OSError _ \<Rightarrow> True | RuntimeError _ \<Rightarrow> True | _ \<Rightarrow> False)
                  (pl_open_file_beneath pl root raw_path)
                  (\<lambda>_. raise (ValueError ''Calibre returned an unreadable or symlinked ebook path'')))
            (ret raw_path))"

section \<open>Packages of a book that was not decided\<close>

definition exn_name :: "exn \<Rightarrow> string" where
  "exn_name e = (case e of
      ValueError _ \<Rightarrow> ''ValueError'' | TypeError _ \<Rightarrow> ''TypeError'' | RuntimeError _ \<Rightarrow> ''RuntimeError''
    | OSError _ \<Rightarrow> ''OSError'' | IndexError \<Rightarrow> ''IndexError'' | KeyError _ \<Rightarrow> ''KeyError''
    | NoResultFound \<Rightarrow> ''NoResultFound'' | MultipleResultsFound \<Rightarrow> ''MultipleResultsFound''
    | IntegrityError \<Rightarrow> ''IntegrityError'' | CalibreCLIError _ \<Rightarrow> ''CalibreCLIError''
    | LostVerifierLeaseError _ \<Rightarrow> ''LostVerifierLeaseError''
    | SourceSnapshotMismatchError _ \<Rightarrow> ''SourceSnapshotMismatchError''
    | CertificateAContractError _ \<Rightarrow> ''CertificateAContractError''
    | VerifierCancellationRequestedError _ \<Rightarrow> ''VerifierCancellationRequestedError''
    | OfflineCalibreError _ \<Rightarrow> ''OfflineCalibreError''
    | OfflineLibraryChangedError _ \<Rightarrow> ''OfflineLibraryChangedError''
    | HTTPException _ _ \<Rightarrow> ''HTTPException'')"

definition undecided :: "string \<Rightarrow> string \<Rightarrow> manifestation_resolution" where
  "undecided flag reason = \<lparr>mr_tier = tier_c, mr_manifestation_ids = [], mr_field_decisions = [], mr_auto_patch = [],
     mr_risk_flags = [flag], mr_reasons = [reason]\<rparr>"

definition undecided_package ::
    "env \<Rightarrow> 's pipeline \<Rightarrow> string \<Rightarrow> audit_state \<Rightarrow> string \<Rightarrow> book_snapshot \<Rightarrow> string \<Rightarrow> ('s, evidence_package_v2) eff" where
  "undecided_package en pl run_id state flag snapshot message =
     bnd (pl_uuid pl) (\<lambda>u.
     bnd (pl_now pl) (\<lambda>now.
     lift_res (seal en \<lparr>pk_evidence_id = ''evidence_'' @ u, pk_run_id = run_id, pk_book_key = sn_book_key snapshot,
       pk_created_at = now, pk_state = state, pk_snapshot = snapshot, pk_formats = [], pk_source_evidence = [],
       pk_identity = undecided flag message, pk_privacy_receipts = [], pk_warnings = [], pk_error = Some message,
       pk_package_sha256 = None\<rparr>)))"

definition failed_package :: "env \<Rightarrow> 's pipeline \<Rightarrow> string \<Rightarrow> pydict \<Rightarrow> exn \<Rightarrow> ('s, evidence_package_v2) eff" where
  "failed_package en pl run_id raw_book error =
     bnd (lift_res (book_id_of raw_book)) (\<lambda>book_id.
     bnd (try_except any_exception (take_book_snapshot en pl raw_book)
           (\<lambda>_. ret (new_snapshot en pl book_id (canonical_current raw_book)
              (if pl_source pl \<noteq> None then [] else format_paths (pget raw_book ''formats'')) (revision_of en pl raw_book)))) (\<lambda>snapshot.
     undecided_package en pl run_id bs_failed ''pipeline_error'' snapshot
       (if pl_source pl \<noteq> None then ''Remote content inspection failed''
        else if take 500 (exn_text error) = [] then exn_name error else take 500 (exn_text error))))"

definition source_changed_package :: "env \<Rightarrow> 's pipeline \<Rightarrow> string \<Rightarrow> book_snapshot \<Rightarrow> ('s, evidence_package_v2) eff" where
  "source_changed_package en pl run_id snapshot =
     undecided_package en pl run_id bs_source_changed ''source_changed'' snapshot
       ''Calibre source changed while the book was being inspected''"

section \<open>Inspecting a materialized book\<close>

text \<open>Equality of evidence records: the value compares as Python compares it, the identifiers as a dict.\<close>

definition evidence_eq :: "source_evidence \<Rightarrow> source_evidence \<Rightarrow> bool" where
  "evidence_eq a b =
     (a\<lparr>se_value := PNone, se_manifestation_ids := []\<rparr> = b\<lparr>se_value := PNone, se_manifestation_ids := []\<rparr>
      \<and> py_eq (se_value a) (se_value b) \<and> py_eq (str_dict_val (se_manifestation_ids a)) (str_dict_val (se_manifestation_ids b)))"

fun merge_evidence :: "source_evidence dict \<Rightarrow> source_evidence list \<Rightarrow> source_evidence dict res" where
  "merge_evidence by_id [] = Inr by_id"
| "merge_evidence by_id (x # xs) =
     (case dict_get by_id (se_evidence_id x) of
        Some existing \<Rightarrow>
          if \<not> evidence_eq existing x then Inl (ValueError ''remote enricher returned conflicting evidence identifiers'')
          else merge_evidence (dict_set (se_evidence_id x) x by_id) xs
      | None \<Rightarrow> merge_evidence (dict_set (se_evidence_id x) x by_id) xs)"

text \<open>The evidence by id, and the receipts and warnings merged so far; receipts are compared by their hash.\<close>

type_synonym merged = "source_evidence dict \<times> pyval list \<times> string list"

definition merge_receipts :: "env \<Rightarrow> pyval list \<Rightarrow> pyval list \<Rightarrow> pyval list" where
  "merge_receipts en receipts new =
     foldl (\<lambda>rs r. if canonical_json_hash en r \<in> set (map (canonical_json_hash en) rs) then rs else rs @ [r]) receipts new"

definition merge_warnings :: "string list \<Rightarrow> string list \<Rightarrow> string list" where
  "merge_warnings warnings new = foldl (\<lambda>ws w. if w \<in> set ws then ws else ws @ [w]) warnings new"

definition merge :: "env \<Rightarrow> merged \<Rightarrow> enrichment \<Rightarrow> merged res" where
  "merge en m er =
     (case m of (by_id, receipts, warnings) \<Rightarrow>
      case merge_evidence by_id (er_evidence er) of
        Inl e \<Rightarrow> Inl e
      | Inr by_id' \<Rightarrow> Inr (by_id', merge_receipts en receipts (er_privacy_receipts er), merge_warnings warnings (er_warnings er)))"

text \<open>\<open>with export_format(...) as path: body\<close>: entering gives the path and what leaving does when the body succeeds or raises.\<close>

definition with_export :: "'s pipeline \<Rightarrow> int \<Rightarrow> string \<Rightarrow> (string \<Rightarrow> ('s, 'a) eff) \<Rightarrow> ('s, 'a) eff" where
  "with_export pl book_id format_name body =
     bnd (pl_export_format pl book_id format_name) (\<lambda>(path, leave).
     try_else any_exception (body path) (\<lambda>e. thn (leave False) (raise e)) (\<lambda>x. thn (leave True) (ret x)))"

fun inspect_formats ::
    "env \<Rightarrow> 's pipeline \<Rightarrow> book_snapshot \<Rightarrow> string list \<Rightarrow> merged \<Rightarrow> ('s, inspection list \<times> merged) eff" where
  "inspect_formats en pl snapshot [] m = ret ([], m)"
| "inspect_formats en pl snapshot (reference # references) m =
     bnd (bnd (pl_format_from_reference pl reference) (\<lambda>format_name.
       with_export pl (sn_calibre_book_id snapshot) format_name (\<lambda>path.
         bnd (pl_inspector pl path) (\<lambda>inspection.
         bnd (case pl_collect_materialized pl of
                None \<Rightarrow> ret m
              | Some f \<Rightarrow> bnd (f snapshot inspection) (\<lambda>er. lift_res (merge en m er))) (\<lambda>m'.
         ret (inspection\<lparr>in_format_evidence := (in_format_evidence inspection)\<lparr>fe_path := reference\<rparr>\<rparr>, m')))))) (\<lambda>(x, m').
     bnd (inspect_formats en pl snapshot references m') (\<lambda>(xs, m''). ret (x # xs, m'')))"

text \<open>
  The exception SourceChangedError carries a snapshot and is caught only by the loop over the books: it is the left value of
  \<open>Inr (Inl snapshot)\<close> here.
\<close>

definition changed_on ::
    "book_snapshot \<Rightarrow> ('s, 'a) eff \<Rightarrow> ('a \<Rightarrow> ('s, book_snapshot + 'b) eff) \<Rightarrow> ('s, book_snapshot + 'b) eff" where
  "changed_on snapshot m k =
     try_else (\<lambda>e. case e of OfflineLibraryChangedError _ \<Rightarrow> True | _ \<Rightarrow> False) m (\<lambda>_. ret (Inl snapshot)) k"

definition inspect_remote ::
    "env \<Rightarrow> 's pipeline \<Rightarrow> book_snapshot \<Rightarrow> ('s, book_snapshot + (inspection list \<times> enrichment)) eff" where
  "inspect_remote en pl snapshot =
     changed_on snapshot (inspect_formats en pl snapshot (sn_files snapshot) ([], [], [])) (\<lambda>(inspections, m).
     bnd (case pl_collect_aggregate pl of Some f \<Rightarrow> f snapshot inspections | None \<Rightarrow> pl_collect pl snapshot inspections) (\<lambda>er.
     bnd (lift_res (merge en m er)) (\<lambda>(by_id, receipts, warnings).
     bnd (pl_show_metadata pl (sn_calibre_book_id snapshot)) (\<lambda>current_raw.
     bnd (file_references pl (sn_calibre_book_id snapshot) (pget current_raw ''formats'')) (\<lambda>files.
     if \<not> dict_eq (canonical_current current_raw) (sn_current_metadata snapshot) \<or> files \<noteq> sn_files snapshot
        \<or> Some (canonical_json_hash en (PDict current_raw)) \<noteq> sn_source_revision_sha256 snapshot
     then ret (Inl snapshot)
     else
       (let result = Inr (inspections, \<lparr>er_evidence = map snd by_id, er_privacy_receipts = receipts, er_warnings = warnings\<rparr>)
        in case pl_assert_unchanged pl of
             None \<Rightarrow> ret result
           | Some f \<Rightarrow> changed_on snapshot (f (sn_calibre_book_id snapshot)) (\<lambda>_. ret result)))))))"

section \<open>One book\<close>

datatype audit_mode = shadow | tier_a_auto

fun inspect_local :: "'s pipeline \<Rightarrow> string list \<Rightarrow> ('s, inspection list) eff" where
  "inspect_local pl [] = ret []"
| "inspect_local pl (path # paths) =
     bnd (bnd (validated_file pl path) (pl_inspector pl)) (\<lambda>x. bnd (inspect_local pl paths) (\<lambda>xs. ret (x # xs)))"

definition inspect_book ::
    "env \<Rightarrow> 's pipeline \<Rightarrow> book_snapshot \<Rightarrow> ('s, book_snapshot + (inspection list \<times> enrichment)) eff" where
  "inspect_book en pl snapshot =
     (if pl_source pl \<noteq> None then inspect_remote en pl snapshot
      else bnd (inspect_local pl (sn_files snapshot)) (\<lambda>inspections.
           bnd (pl_collect pl snapshot inspections) (\<lambda>er. ret (Inr (inspections, er)))))"

definition state_for :: "audit_mode \<Rightarrow> identity_tier \<Rightarrow> audit_state res" where
  "state_for mode tier =
     (case tier of
        tier_c \<Rightarrow> Inr bs_deferred
      | tier_b \<Rightarrow> Inr bs_review
      | tier_a \<Rightarrow> if mode = shadow then Inr bs_shadowed else Inl (ValueError ''automatic V2 application is unavailable''))"

text \<open>From the inspections and the enrichment to the sealed package.\<close>

definition decide_book ::
    "env \<Rightarrow> 's pipeline \<Rightarrow> string \<Rightarrow> audit_mode \<Rightarrow> string \<Rightarrow> book_snapshot \<Rightarrow> inspection list \<Rightarrow> enrichment \<Rightarrow> ('s, evidence_package_v2) eff" where
  "decide_book en pl run_id mode book_key snapshot inspections er =
     (let source_evidence = concat (map in_evidence inspections) @ er_evidence er;
          formats = map in_format_evidence inspections
      in thn (emit pl book_key bs_resolving)
         (bnd (lift_res (resolve_manifestation (env_coerce en) formats source_evidence (sn_current_metadata snapshot))) (\<lambda>identity.
          bnd (pl_uuid pl) (\<lambda>u.
          thn (emit pl book_key bs_decided)
          (bnd (lift_res (state_for mode (mr_tier identity))) (\<lambda>state.
           bnd (pl_now pl) (\<lambda>now.
           bnd (lift_res (seal en \<lparr>pk_evidence_id = ''evidence_'' @ u, pk_run_id = run_id, pk_book_key = book_key,
                 pk_created_at = now, pk_state = state, pk_snapshot = snapshot, pk_formats = formats,
                 pk_source_evidence = source_evidence, pk_identity = identity,
                 pk_privacy_receipts = er_privacy_receipts er, pk_warnings = er_warnings er, pk_error = None,
                 pk_package_sha256 = None\<rparr>)) (\<lambda>package.
           thn (emit pl book_key state) (ret package)))))))))"

definition process_book ::
    "env \<Rightarrow> 's pipeline \<Rightarrow> string \<Rightarrow> audit_mode \<Rightarrow> pydict \<Rightarrow> ('s, book_snapshot + evidence_package_v2) eff" where
  "process_book en pl run_id mode raw_book =
     bnd (lift_res (book_id_of raw_book)) (\<lambda>book_id.
     let book_key = book_key_of pl book_id in
     thn (emit pl book_key bs_snapshotting)
     (bnd (take_book_snapshot en pl raw_book) (\<lambda>snapshot.
     thn (emit pl book_key bs_extracting)
     (bnd (inspect_book en pl snapshot) (\<lambda>outcome.
      case outcome of
        Inl changed \<Rightarrow> ret (Inl changed)
      | Inr (inspections, er) \<Rightarrow>
          bnd (decide_book en pl run_id mode book_key snapshot inspections er) (\<lambda>package. ret (Inr package)))))))"

section \<open>The library\<close>

datatype library_status = ls_running | ls_completed | ls_completed_with_errors | ls_blocked_recovery

record library_snapshot =
  ly_run_id :: string
  ly_created_at :: string
  ly_book_keys :: "string list"
  ly_snapshot_sha256 :: string

record library_result =
  lr_run_id :: string
  lr_status :: library_status
  lr_snapshot :: library_snapshot
  lr_packages :: "evidence_package_v2 list"

text \<open>
  The body of the loop: the package of a book, and whether it is an error; then the callback. The guard against a second active book cannot fire
  in one run, which clears the active book before it goes on.
\<close>

definition book_outcome ::
    "env \<Rightarrow> 's pipeline \<Rightarrow> string \<Rightarrow> audit_mode \<Rightarrow> pydict \<Rightarrow> string \<Rightarrow> ('s, evidence_package_v2 \<times> bool) eff" where
  "book_outcome en pl run_id mode raw_book book_key =
     try_else any_exception (process_book en pl run_id mode raw_book)
       (\<lambda>e. bnd (failed_package en pl run_id raw_book e) (\<lambda>package. thn (emit pl book_key bs_failed) (ret (package, True))))
       (\<lambda>outcome. case outcome of
          Inl snapshot \<Rightarrow> bnd (source_changed_package en pl run_id snapshot) (\<lambda>package.
            thn (emit pl book_key bs_source_changed) (ret (package, False)))
        | Inr package \<Rightarrow> ret (package, False))"

definition audit_book ::
    "env \<Rightarrow> 's pipeline \<Rightarrow> string \<Rightarrow> audit_mode \<Rightarrow> pydict \<Rightarrow> string \<Rightarrow> ('s, evidence_package_v2 \<times> bool) eff" where
  "audit_book en pl run_id mode raw_book book_key =
     bnd (book_outcome en pl run_id mode raw_book book_key) (\<lambda>(package, failed).
     if pk_state package \<notin> set TERMINAL_BOOK_STATES
     then raise (RuntimeError (''book '' @ book_key @ '' did not reach a terminal state''))
     else thn (case pl_package_callback pl of None \<Rightarrow> ret () | Some f \<Rightarrow> f package) (ret (package, failed)))"

fun audit_books ::
    "env \<Rightarrow> 's pipeline \<Rightarrow> string \<Rightarrow> audit_mode \<Rightarrow> string list \<Rightarrow> (int \<times> pydict) list \<Rightarrow> ('s, (evidence_package_v2 \<times> bool) list) eff" where
  "audit_books en pl run_id mode skipped [] = ret []"
| "audit_books en pl run_id mode skipped ((book_id, raw_book) # books) =
     (if book_key_of pl book_id \<in> set skipped then audit_books en pl run_id mode skipped books
      else bnd (audit_book en pl run_id mode raw_book (book_key_of pl book_id)) (\<lambda>x.
           bnd (audit_books en pl run_id mode skipped books) (\<lambda>xs. ret (x # xs))))"

fun with_ids :: "pydict list \<Rightarrow> (int \<times> pydict) list res" where
  "with_ids [] = Inr []"
| "with_ids (raw # books) =
     (case book_id_of raw of
        Inl e \<Rightarrow> Inl e
      | Inr i \<Rightarrow> (case with_ids books of Inl e \<Rightarrow> Inl e | Inr xs \<Rightarrow> Inr ((i, raw) # xs)))"

text \<open>\<open>sorted(books, key=lambda item: int(item["id"]))\<close>, each book with its id, and \<open>books[:limit]\<close> for a positive limit.\<close>

definition sorted_books :: "pydict list \<Rightarrow> int \<Rightarrow> (int \<times> pydict) list res" where
  "sorted_books books limit =
     (case with_ids books of
        Inl e \<Rightarrow> Inl e
      | Inr xs \<Rightarrow> Inr (if 0 < limit then take (nat limit) (sort_key fst xs) else sort_key fst xs))"

definition run_library ::
    "env \<Rightarrow> 's pipeline \<Rightarrow> audit_mode \<Rightarrow> string \<Rightarrow> int \<Rightarrow> string list \<Rightarrow> ('s, library_result) eff" where
  "run_library en pl mode run_id limit skipped =
     (if mode = tier_a_auto
      then raise (ValueError ''Tier A auto-apply is unavailable until calibration reports are cryptographically authenticated'')
      else
        bnd (pl_list_books pl) (\<lambda>listed.
        bnd (lift_res (sorted_books listed limit)) (\<lambda>books.
        bnd (pl_now pl) (\<lambda>now.
        let book_keys = map (\<lambda>(i, _). book_key_of pl i) books;
            snapshot = \<lparr>ly_run_id = run_id, ly_created_at = now, ly_book_keys = book_keys,
              ly_snapshot_sha256 = canonical_json_hash en (str_list book_keys)\<rparr>
        in bnd (audit_books en pl run_id mode skipped books) (\<lambda>packages.
           ret \<lparr>lr_run_id = run_id,
             lr_status = (if list_ex snd packages then ls_completed_with_errors else ls_completed),
             lr_snapshot = snapshot, lr_packages = map fst packages\<rparr>)))))"

end
