(* ===== verification/OfflineSource.thy ===== *)
theory OfflineSource
  imports Session
begin

text \<open>
  Access to a stopped, read-only Calibre library (src/src/calibre\_ai\_auditor/calibre/offline.py): the checks of the SQLite
  schema, the inventory with its frozen file descriptions, the fingerprint, the reader operations and the export of one
  format. SQLite rows are the records below, a cell of a dynamically typed column is a Python value; the protected file
  functions and the temporary directories are the fields of \<open>fs\<close>, programs over the outside world.
\<close>

section \<open>The library database\<close>

record book_row =
  br_id :: int
  br_title :: pyval
  br_timestamp :: pyval
  br_pubdate :: pyval
  br_series_index :: pyval
  br_author_sort :: pyval
  br_path :: pyval
  br_uuid :: pyval
  br_has_cover :: pyval
  br_last_modified :: pyval

record link_row =
  ln_id :: int
  ln_book :: int
  ln_target :: int
  ln_item_order :: int

record name_row =
  nm_id :: int
  nm_name :: pyval

record data_row =
  da_id :: int
  da_book :: int
  da_format :: pyval
  da_name :: pyval

record identifier_row =
  idr_id :: int
  idr_book :: int
  idr_type :: pyval
  idr_val :: pyval

record comment_row =
  co_id :: int
  co_book :: int
  co_text :: pyval

record calibre_db =
  cb_query_only :: int
  cb_quick_check :: "string option"
  cb_application_id :: int
  cb_user_version :: int
  cb_tables :: "string list dict"
  cb_books :: "book_row list"
  cb_data :: "data_row list"
  cb_identifiers :: "identifier_row list"
  cb_comments :: "comment_row list"
  cb_authors :: "name_row list"
  cb_authors_link :: "link_row list"
  cb_publishers :: "name_row list"
  cb_publishers_link :: "link_row list"
  cb_series :: "name_row list"
  cb_series_link :: "link_row list"
  cb_languages :: "name_row list"
  cb_languages_link :: "link_row list"
  cb_tags :: "name_row list"
  cb_tags_link :: "link_row list"

text \<open>What \<open>os.fstat\<close> gives of an open file.\<close>

record file_stat =
  fst_device :: int
  fst_inode :: int
  fst_size :: int
  fst_mtime_ns :: int
  fst_ctime_ns :: int
  fst_regular :: bool

text \<open>
  The file operations: \<open>fs_read\<close> opens a file beneath a root, and gives its description before and after its bytes were read.
\<close>

record 'w fs =
  fs_ensure_secure_directory :: "string \<Rightarrow> ('w, string) eff"
  fs_exists :: "string \<Rightarrow> ('w, bool) eff"
  fs_mkdtemp :: "string \<Rightarrow> string \<Rightarrow> ('w, string) eff"
  fs_rmtree :: "string \<Rightarrow> ('w, unit) eff"
  fs_copy_file_beneath :: "string \<Rightarrow> string \<Rightarrow> string \<Rightarrow> int \<Rightarrow> string option \<Rightarrow> ('w, string) eff"
  fs_sha256_file_beneath :: "string \<Rightarrow> string \<Rightarrow> int \<Rightarrow> ('w, string) eff"
  fs_read :: "string \<Rightarrow> string \<Rightarrow> int \<Rightarrow> ('w, file_stat \<times> string \<times> file_stat) eff"
  fs_connect :: "string \<Rightarrow> ('w, calibre_db) eff"

section \<open>Limits and markers\<close>

definition CALIBRE_APPLICATION_ID :: int where
  "CALIBRE_APPLICATION_ID = 1667329129"

definition SUPPORTED_SCHEMA_MARKERS :: "(int \<times> int) list" where
  "SUPPORTED_SCHEMA_MARKERS = [(25, 0), (26, 0), (27, CALIBRE_APPLICATION_ID)]"

definition MAX_METADATA_DB_BYTES :: int where
  "MAX_METADATA_DB_BYTES = 4 * 1024 * 1024 * 1024"

definition MAX_EBOOK_BYTES :: int where
  "MAX_EBOOK_BYTES = 2 * 1024 * 1024 * 1024"

definition SIDECARS :: "string list" where
  "SIDECARS = [''metadata.db-wal'', ''metadata.db-shm'', ''metadata.db-journal'']"

definition REQUIRED_COLUMNS :: "string list dict" where
  "REQUIRED_COLUMNS =
     [(''books'', [''id'', ''title'', ''timestamp'', ''pubdate'', ''series_index'', ''author_sort'', ''path'', ''uuid'',
         ''has_cover'', ''last_modified'']),
      (''authors'', [''id'', ''name'']), (''books_authors_link'', [''id'', ''book'', ''author'']),
      (''publishers'', [''id'', ''name'']), (''books_publishers_link'', [''book'', ''publisher'']),
      (''series'', [''id'', ''name'']), (''books_series_link'', [''book'', ''series'']),
      (''tags'', [''id'', ''name'']), (''books_tags_link'', [''id'', ''book'', ''tag'']),
      (''languages'', [''id'', ''lang_code'']), (''books_languages_link'', [''id'', ''book'', ''lang_code'', ''item_order'']),
      (''identifiers'', [''id'', ''book'', ''type'', ''val'']), (''comments'', [''book'', ''text'']),
      (''data'', [''id'', ''book'', ''format'', ''uncompressed_size'', ''name''])]"

text \<open>\<open>_FORMAT_RE\<close>: one to sixteen letters and digits.\<close>

definition is_format_name :: "string \<Rightarrow> bool" where
  "is_format_name s = (1 \<le> length s \<and> length s \<le> 16 \<and> list_all (\<lambda>c. is_upper c \<or> is_digit c) s)"

section \<open>Text and paths\<close>

definition single_text :: "string \<Rightarrow> bool \<Rightarrow> pyval \<Rightarrow> string option res" where
  "single_text field allow_empty value =
     (case value of
        PNone \<Rightarrow> Inr None
      | PStr s \<Rightarrow>
          if list_ex (\<lambda>c. (of_char c :: nat) < 32) s then Inl (OfflineCalibreError (''Calibre '' @ field @ '' contains invalid text''))
          else if s = [] \<and> \<not> allow_empty then Inl (OfflineCalibreError (''Calibre '' @ field @ '' is empty''))
          else Inr (Some s)
      | _ \<Rightarrow> Inl (OfflineCalibreError (''Calibre '' @ field @ '' contains invalid text'')))"

text \<open>\<open>_single_text(...) or ""\<close>\<close>

definition some_text :: "string \<Rightarrow> bool \<Rightarrow> pyval \<Rightarrow> string res" where
  "some_text field allow_empty value = map_sum id (\<lambda>t. case t of Some s \<Rightarrow> s | None \<Rightarrow> []) (single_text field allow_empty value)"

text \<open>\<open>PurePosixPath(text).parts\<close> of a relative path.\<close>

definition posix_parts :: "string \<Rightarrow> string list" where
  "posix_parts text = filter (\<lambda>c. c \<noteq> [] \<and> c \<noteq> ''.'') (py_split (CHR ''/'') text)"

text \<open>A NULL path fails the assertion, which is not caught.\<close>

definition safe_relative_path :: "string \<Rightarrow> pyval \<Rightarrow> string list res" where
  "safe_relative_path field value =
     (case single_text field False value of
        Inl e \<Rightarrow> Inl e
      | Inr None \<Rightarrow> Inl (RuntimeError ''AssertionError'')
      | Inr (Some text) \<Rightarrow>
          if is_absolute text \<or> posix_parts text = [] \<or> ''..'' \<in> set (posix_parts text) \<or> char_of (92 :: nat) \<in> set text
          then Inl (OfflineCalibreError (''Calibre '' @ field @ '' is not a safe relative path''))
          else Inr (posix_parts text))"

text \<open>\<open>root.joinpath(*parts)\<close>\<close>

definition join_path :: "string \<Rightarrow> string list \<Rightarrow> string" where
  "join_path root parts = foldl path_join root parts"

section \<open>Frozen files\<close>

record frozen_file =
  ff_relative_path :: string
  ff_format :: string
  ff_size :: int
  ff_device :: int
  ff_inode :: int
  ff_mtime_ns :: int
  ff_ctime_ns :: int
  ff_sha256 :: string

definition file_manifest :: "frozen_file \<Rightarrow> pyval" where
  "file_manifest f = PDict
     [(''relative_path'', PStr (ff_relative_path f)), (''format'', PStr (ff_format f)), (''size'', PInt (ff_size f)),
      (''device'', PInt (ff_device f)), (''inode'', PInt (ff_inode f)), (''mtime_ns'', PInt (ff_mtime_ns f)),
      (''ctime_ns'', PInt (ff_ctime_ns f)), (''sha256'', PStr (ff_sha256 f))]"

text \<open>\<open>OSError\<close> and \<open>SecurePathError\<close>, the exceptions of the protected file functions; the latter is a RuntimeError.\<close>

definition is_file_error :: "exn \<Rightarrow> bool" where
  "is_file_error e = (case e of OSError _ \<Rightarrow> True | RuntimeError _ \<Rightarrow> True | _ \<Rightarrow> False)"

definition is_offline_error :: "exn \<Rightarrow> bool" where
  "is_offline_error e = (case e of OfflineCalibreError _ \<Rightarrow> True | OfflineLibraryChangedError _ \<Rightarrow> True | _ \<Rightarrow> False)"

text \<open>\<open>except <class> as exc: raise e from exc\<close>\<close>

definition rewrite_error :: "(exn \<Rightarrow> bool) \<Rightarrow> exn \<Rightarrow> ('s, 'a) eff \<Rightarrow> ('s, 'a) eff" where
  "rewrite_error cls e m = try_except cls m (\<lambda>_. raise e)"

definition describe_file :: "env \<Rightarrow> 'w fs \<Rightarrow> string \<Rightarrow> string \<Rightarrow> string \<Rightarrow> ('w, frozen_file) eff" where
  "describe_file en fs root relative_path format_name =
     bnd (rewrite_error is_file_error (OfflineCalibreError ''Calibre format path is unsafe or unreadable'')
           (fs_read fs root (join_path root (posix_parts relative_path)) MAX_EBOOK_BYTES)) (\<lambda>(opened, content, final).
     if opened\<lparr>fst_regular := True\<rparr> \<noteq> final\<lparr>fst_regular := True\<rparr> \<or> \<not> fst_regular opened
     then raise (OfflineCalibreError ''Calibre format changed during inventory'')
     else ret \<lparr>ff_relative_path = relative_path, ff_format = format_name, ff_size = fst_size opened,
       ff_device = fst_device opened, ff_inode = fst_inode opened, ff_mtime_ns = fst_mtime_ns opened,
       ff_ctime_ns = fst_ctime_ns opened, ff_sha256 = env_sha256 en content\<rparr>)"

section \<open>The source\<close>

record offline_source =
  os_library_path :: string
  os_metadata :: "(int \<times> pydict) list"
  os_formats :: "(int \<times> frozen_file list) list"
  os_metadata_sha256 :: string
  os_schema_signature :: string
  os_application_id :: int
  os_schema_version :: int
  os_fingerprint :: string

fun reject_sidecars :: "'w fs \<Rightarrow> string \<Rightarrow> string list \<Rightarrow> ('w, unit) eff" where
  "reject_sidecars fs root [] = ret ()"
| "reject_sidecars fs root (name # names) =
     bnd (fs_exists fs (path_join root name)) (\<lambda>there.
     if there then raise (OfflineCalibreError ''Calibre SQLite sidecar state is present; the library is not offline'')
     else reject_sidecars fs root names)"

definition open_snapshot :: "'w fs \<Rightarrow> string \<Rightarrow> ('w, calibre_db) eff" where
  "open_snapshot fs snapshot =
     bnd (rewrite_error (\<lambda>e. case e of OSError _ \<Rightarrow> True | _ \<Rightarrow> False)
           (OfflineCalibreError ''Calibre metadata snapshot is not a readable SQLite database'') (fs_connect fs snapshot)) (\<lambda>cb.
     if cb_query_only cb \<noteq> 1
     then raise (OfflineCalibreError ''Calibre snapshot could not be forced into query-only mode'')
     else if cb_quick_check cb \<noteq> Some ''ok''
     then raise (OfflineCalibreError ''Calibre metadata snapshot failed SQLite integrity checks'')
     else ret cb)"

text \<open>The schema signature, or what is wrong with the schema.\<close>

fun column_signature :: "string list dict \<Rightarrow> string list dict \<Rightarrow> pydict res" where
  "column_signature tables [] = Inr []"
| "column_signature tables ((table, required) # rest) =
     (let columns = (case dict_get tables table of Some cs \<Rightarrow> cs | None \<Rightarrow> []) in
      if \<not> set required \<subseteq> set columns
      then Inl (OfflineCalibreError (''Calibre metadata table '' @ table @ '' is missing required columns''))
      else (case column_signature tables rest of
          Inl e \<Rightarrow> Inl e
        | Inr signature \<Rightarrow> Inr ((table, str_list (sort (remdups columns))) # signature)))"

definition validate_schema :: "env \<Rightarrow> calibre_db \<Rightarrow> string res" where
  "validate_schema en cb =
     (if cb_user_version cb \<notin> fst ` set SUPPORTED_SCHEMA_MARKERS
      then Inl (OfflineCalibreError (''unsupported Calibre schema version '' @ show_int (cb_user_version cb)
             @ ''; supported versions are 25, 26, 27''))
      else if (cb_user_version cb, cb_application_id cb) \<notin> set SUPPORTED_SCHEMA_MARKERS
      then Inl (OfflineCalibreError (''Calibre schema version '' @ show_int (cb_user_version cb) @ '' has an unexpected application id''))
      else if \<not> list_all (\<lambda>(table, _). dict_has (cb_tables cb) table) REQUIRED_COLUMNS
      then Inl (OfflineCalibreError ''Calibre metadata schema is missing required tables'')
      else map_sum id (\<lambda>signature. canonical_json_hash en (PDict signature)) (column_signature (cb_tables cb) REQUIRED_COLUMNS))"

section \<open>The inventory\<close>

text \<open>The text a query orders by; NULL and numbers come before any text.\<close>

definition order_text :: "(string \<Rightarrow> string) \<Rightarrow> pyval \<Rightarrow> string" where
  "order_text f v = (case v of PStr s \<Rightarrow> f s | _ \<Rightarrow> [])"

text \<open>\<open>SELECT n.name FROM link JOIN names ON n.id = link.target WHERE link.book = ?\<close>, for links in the order of the query.\<close>

definition linked_names :: "name_row list \<Rightarrow> link_row list \<Rightarrow> int \<Rightarrow> pyval list" where
  "linked_names names links book_id =
     concat (map (\<lambda>l. map nm_name (filter (\<lambda>n. nm_id n = ln_target l) names)) (filter (\<lambda>l. ln_book l = book_id) links))"

fun all_texts :: "string \<Rightarrow> pyval list \<Rightarrow> string list res" where
  "all_texts field [] = Inr []"
| "all_texts field (v # vs) =
     (case some_text field False v of
        Inl e \<Rightarrow> Inl e
      | Inr t \<Rightarrow> (case all_texts field vs of Inl e \<Rightarrow> Inl e | Inr ts \<Rightarrow> Inr (t # ts)))"

definition many_names :: "string \<Rightarrow> pyval list \<Rightarrow> pyval res" where
  "many_names field rows = map_sum id str_list (all_texts field rows)"

definition one_name :: "string \<Rightarrow> pyval list \<Rightarrow> pyval res" where
  "one_name field rows =
     (case rows of
        [] \<Rightarrow> Inr PNone
      | [v] \<Rightarrow> map_sum id opt_str (single_text field False v)
      | _ \<Rightarrow> Inl (OfflineCalibreError (''Calibre metadata contains multiple '' @ field @ '' values'')))"

definition safe_file_name :: "string \<Rightarrow> bool" where
  "safe_file_name name = (CHR ''/'' \<notin> set name \<and> char_of (92 :: nat) \<notin> set name \<and> name \<noteq> ''.'' \<and> name \<noteq> ''..'')"

fun load_format_rows ::
    "env \<Rightarrow> 'w fs \<Rightarrow> string \<Rightarrow> string list \<Rightarrow> string list \<Rightarrow> data_row list \<Rightarrow> ('w, frozen_file list) eff" where
  "load_format_rows en fs root book_path seen [] = ret []"
| "load_format_rows en fs root book_path seen (row # rows) =
     bnd (lift_res (some_text ''format'' False (da_format row))) (\<lambda>raw.
     bnd (lift_res (some_text ''format filename'' False (da_name row))) (\<lambda>name.
     let canonical = py_upper raw in
     if \<not> is_format_name canonical \<or> \<not> safe_file_name name
     then raise (OfflineCalibreError ''Calibre metadata contains an unsafe format filename'')
     else if canonical \<in> set seen then raise (OfflineCalibreError ''Calibre metadata contains duplicate book formats'')
     else
       bnd (describe_file en fs root (py_join ''/'' (book_path @ [name @ ''.'' @ py_lower canonical])) canonical) (\<lambda>f.
       bnd (load_format_rows en fs root book_path (canonical # seen) rows) (\<lambda>fs'. ret (f # fs')))))"

definition load_formats :: "env \<Rightarrow> 'w fs \<Rightarrow> string \<Rightarrow> calibre_db \<Rightarrow> int \<Rightarrow> string list \<Rightarrow> ('w, frozen_file list) eff" where
  "load_formats en fs root cb book_id book_path =
     load_format_rows en fs root book_path []
       (sort_key (\<lambda>r. order_text py_upper (da_format r)) (sort_key da_id (filter (\<lambda>r. da_book r = book_id) (cb_data cb))))"

fun load_identifiers :: "string dict \<Rightarrow> identifier_row list \<Rightarrow> string dict res" where
  "load_identifiers found [] = Inr found"
| "load_identifiers found (row # rows) =
     (case some_text ''identifier type'' False (idr_type row) of
        Inl e \<Rightarrow> Inl e
      | Inr raw \<Rightarrow>
          (case some_text ''identifier value'' False (idr_val row) of
             Inl e \<Rightarrow> Inl e
           | Inr val \<Rightarrow>
               if dict_has found (py_lower raw)
               then Inl (OfflineCalibreError ''Calibre metadata contains duplicate identifier types'')
               else load_identifiers (dict_set (py_lower raw) val found) rows))"

definition identifiers_of :: "calibre_db \<Rightarrow> int \<Rightarrow> string dict res" where
  "identifiers_of cb book_id =
     load_identifiers [] (sort_key (\<lambda>r. order_text py_lower (idr_type r))
       (sort_key idr_id (filter (\<lambda>r. idr_book r = book_id) (cb_identifiers cb))))"

text \<open>\<open>float(v)\<close> of a column of REAL affinity, in which text that is a number is stored as a number.\<close>

definition real_cell :: "pyval \<Rightarrow> pyval res" where
  "real_cell v =
     (case v of
        PFloat r \<Rightarrow> Inr (PFloat r)
      | PInt i \<Rightarrow> Inr (PFloat (show_int i @ ''.0''))
      | PStr _ \<Rightarrow> Inl (ValueError ''could not convert string to float'')
      | _ \<Rightarrow> Inl (TypeError ''float() argument must be a string or a real number''))"

text \<open>A dict display, whose values are computed in the order they are written.\<close>

fun eval_fields :: "(string \<times> pyval res) list \<Rightarrow> pydict res" where
  "eval_fields [] = Inr []"
| "eval_fields ((k, v) # kvs) =
     (case v of
        Inl e \<Rightarrow> Inl e
      | Inr x \<Rightarrow> (case eval_fields kvs of Inl e \<Rightarrow> Inl e | Inr d \<Rightarrow> Inr ((k, x) # d)))"

definition book_metadata ::
    "string \<Rightarrow> calibre_db \<Rightarrow> book_row \<Rightarrow> string list \<Rightarrow> frozen_file list \<Rightarrow> string dict \<Rightarrow> pydict res" where
  "book_metadata root cb row book_path frozen identifiers =
     (let i = br_id row;
          text = (\<lambda>field allow_empty v. map_sum id opt_str (single_text field allow_empty v))
      in eval_fields
        [(''id'', Inr (PInt i)), (''title'', text ''title'' False (br_title row)),
         (''authors'', many_names ''author'' (linked_names (cb_authors cb) (sort_key ln_id (cb_authors_link cb)) i)),
         (''author_sort'', text ''author sort'' True (br_author_sort row)),
         (''publisher'', one_name ''publisher'' (linked_names (cb_publishers cb) (sort_key ln_id (cb_publishers_link cb)) i)),
         (''pubdate'', text ''publication date'' True (br_pubdate row)),
         (''series'', one_name ''series'' (linked_names (cb_series cb) (sort_key ln_id (cb_series_link cb)) i)),
         (''series_index'', real_cell (br_series_index row)),
         (''identifiers'', Inr (str_dict_val identifiers)),
         (''languages'', many_names ''language''
            (linked_names (cb_languages cb) (sort_key ln_item_order (sort_key ln_id (cb_languages_link cb))) i)),
         (''tags'', many_names ''tag'' (linked_names (cb_tags cb) (sort_key ln_id (cb_tags_link cb)) i)),
         (''comments'', one_name ''comment'' (map co_text (sort_key co_id (filter (\<lambda>r. co_book r = i) (cb_comments cb))))),
         (''formats'', Inr (str_list (map (\<lambda>f. join_path root (posix_parts (ff_relative_path f))) frozen))),
         (''cover'', Inr (if py_truthy (br_has_cover row) then PStr (join_path root (book_path @ [''cover.jpg''])) else PNone)),
         (''timestamp'', text ''timestamp'' True (br_timestamp row)), (''uuid'', text ''uuid'' True (br_uuid row)),
         (''last_modified'', text ''last modified'' True (br_last_modified row))])"

definition load_book ::
    "env \<Rightarrow> 'w fs \<Rightarrow> string \<Rightarrow> calibre_db \<Rightarrow> book_row \<Rightarrow> ('w, pydict \<times> frozen_file list) eff" where
  "load_book en fs root cb row =
     bnd (lift_res (safe_relative_path ''book path'' (br_path row))) (\<lambda>book_path.
     bnd (load_formats en fs root cb (br_id row) book_path) (\<lambda>frozen.
     bnd (lift_res (identifiers_of cb (br_id row))) (\<lambda>identifiers.
     bnd (lift_res (book_metadata root cb row book_path frozen identifiers)) (\<lambda>metadata.
     ret (metadata, frozen)))))"

text \<open>The books found so far, in id order; an INTEGER PRIMARY KEY holds an integer.\<close>

fun load_books ::
    "env \<Rightarrow> 'w fs \<Rightarrow> string \<Rightarrow> calibre_db \<Rightarrow> (int \<times> pydict \<times> frozen_file list) list \<Rightarrow> book_row list
     \<Rightarrow> ('w, (int \<times> pydict \<times> frozen_file list) list) eff" where
  "load_books en fs root cb found [] = ret found"
| "load_books en fs root cb found (row # rows) =
     (if br_id row \<le> 0 \<or> br_id row \<in> fst ` set found
      then raise (OfflineCalibreError ''Calibre metadata contains an invalid or duplicate book id'')
      else bnd (load_book en fs root cb row) (\<lambda>x. load_books en fs root cb (found @ [(br_id row, x)]) rows))"

definition load_inventory ::
    "env \<Rightarrow> 'w fs \<Rightarrow> string \<Rightarrow> calibre_db \<Rightarrow> ('w, (int \<times> pydict \<times> frozen_file list) list) eff" where
  "load_inventory en fs root cb = load_books en fs root cb [] (sort_key br_id (cb_books cb))"

definition book_manifest :: "(int \<times> frozen_file list) list \<Rightarrow> pyval" where
  "book_manifest formats = PList (map (\<lambda>(i, fs). PDict [(''book_id'', PInt i), (''formats'', PList (map file_manifest fs))])
     (sort_key fst formats))"

definition fingerprint_of :: "env \<Rightarrow> offline_source \<Rightarrow> string" where
  "fingerprint_of en src = canonical_json_hash en (PDict
     [(''kind'', PStr ''offline_calibre_snapshot''), (''library_root_sha256'', PStr (env_sha256 en (os_library_path src))),
      (''metadata_sha256'', PStr (os_metadata_sha256 src)), (''schema_version'', PInt (os_schema_version src)),
      (''schema_signature'', PStr (os_schema_signature src)), (''books'', book_manifest (os_formats src))])"

definition formats_of :: "offline_source \<Rightarrow> int \<Rightarrow> frozen_file list" where
  "formats_of src book_id = (case map_of (os_formats src) book_id of Some fs \<Rightarrow> fs | None \<Rightarrow> [])"

section \<open>The live library against the inventory\<close>

definition changed :: "string \<Rightarrow> exn" where
  "changed m = OfflineLibraryChangedError m"

definition assert_file :: "env \<Rightarrow> 'w fs \<Rightarrow> offline_source \<Rightarrow> frozen_file \<Rightarrow> ('w, unit) eff" where
  "assert_file en fs src frozen =
     bnd (rewrite_error is_offline_error (changed ''Calibre format is no longer safely readable'')
           (describe_file en fs (os_library_path src) (ff_relative_path frozen) (ff_format frozen))) (\<lambda>current.
     if current \<noteq> frozen then raise (changed ''Calibre format changed after inventory'') else ret ())"

definition assert_no_sidecars :: "'w fs \<Rightarrow> offline_source \<Rightarrow> ('w, unit) eff" where
  "assert_no_sidecars fs src =
     rewrite_error is_offline_error (changed ''Calibre SQLite sidecar state appeared after inventory'')
       (reject_sidecars fs (os_library_path src) SIDECARS)"

definition assert_unchanged :: "env \<Rightarrow> 'w fs \<Rightarrow> offline_source \<Rightarrow> int option \<Rightarrow> ('w, unit) eff" where
  "assert_unchanged en fs src book_id =
     thn (assert_no_sidecars fs src)
     (bnd (rewrite_error is_file_error (changed ''Calibre metadata is no longer safely readable'')
            (fs_sha256_file_beneath fs (os_library_path src) (path_join (os_library_path src) ''metadata.db'') MAX_METADATA_DB_BYTES))
       (\<lambda>current_metadata.
      if current_metadata \<noteq> os_metadata_sha256 src then raise (changed ''Calibre metadata changed after inventory'')
      else for_each (assert_file en fs src)
        (case book_id of None \<Rightarrow> concat (map snd (os_formats src)) | Some i \<Rightarrow> formats_of src i)))"

section \<open>Opening and closing\<close>

text \<open>The checks and the inventory once the private copy of the database is there.\<close>

definition inventory_source ::
    "env \<Rightarrow> 'w fs \<Rightarrow> string \<Rightarrow> string \<Rightarrow> string \<Rightarrow> ('w, offline_source) eff" where
  "inventory_source en fs root snapshot metadata_sha256 =
     thn (reject_sidecars fs root SIDECARS)
     (bnd (open_snapshot fs snapshot) (\<lambda>cb.
      bnd (lift_res (validate_schema en cb)) (\<lambda>signature.
      bnd (load_inventory en fs root cb) (\<lambda>books.
      let src = \<lparr>os_library_path = root, os_metadata = map (\<lambda>(i, m, _). (i, m)) books,
            os_formats = map (\<lambda>(i, _, fs). (i, fs)) books, os_metadata_sha256 = metadata_sha256,
            os_schema_signature = signature, os_application_id = cb_application_id cb,
            os_schema_version = cb_user_version cb, os_fingerprint = []\<rparr>;
          src' = src\<lparr>os_fingerprint := fingerprint_of en src\<rparr>
      in thn (assert_unchanged en fs src' None) (ret src')))))"

text \<open>The source and its private directory; on any exception the directory is removed again.\<close>

definition open_source ::
    "env \<Rightarrow> 'w fs \<Rightarrow> string \<Rightarrow> string \<Rightarrow> bool \<Rightarrow> ('w, offline_source \<times> string) eff" where
  "open_source en fs library_path snapshot_root confirm_calibre_stopped =
     (if \<not> confirm_calibre_stopped then raise (OfflineCalibreError ''explicit Calibre-stopped confirmation is required'')
      else
        (let root = canonical_path (env_cwd en) library_path in
         bnd (fs_ensure_secure_directory fs snapshot_root) (\<lambda>parent.
         thn (reject_sidecars fs root SIDECARS)
         (bnd (fs_mkdtemp fs ''bookaudit-offline-'' parent) (\<lambda>temporary.
          let snapshot = path_join temporary ''metadata.snapshot.db'' in
          try_else any_exception
            (bnd (rewrite_error is_file_error (OfflineCalibreError ''offline Calibre source is unsafe or unreadable'')
                   (fs_copy_file_beneath fs root (path_join root ''metadata.db'') snapshot MAX_METADATA_DB_BYTES None))
              (inventory_source en fs root snapshot))
            (\<lambda>e. thn (fs_rmtree fs temporary) (raise e))
            (\<lambda>src. ret (src, temporary)))))))"

definition close_source :: "'w fs \<Rightarrow> string \<Rightarrow> ('w, unit) eff" where
  "close_source fs temporary = fs_rmtree fs temporary"

section \<open>Reading\<close>

definition snapshot_manifest :: "offline_source \<Rightarrow> pydict" where
  "snapshot_manifest src =
     [(''kind'', PStr ''offline_calibre_snapshot''), (''fingerprint'', PStr (os_fingerprint src)),
      (''metadata_sha256'', PStr (os_metadata_sha256 src)), (''application_id'', PInt (os_application_id src)),
      (''schema_version'', PInt (os_schema_version src)), (''schema_signature'', PStr (os_schema_signature src)),
      (''book_count'', PInt (int (length (os_metadata src)))),
      (''format_count'', PInt (int (length (concat (map snd (os_formats src)))))),
      (''books'', book_manifest (os_formats src))]"

definition list_books :: "offline_source \<Rightarrow> pydict list" where
  "list_books src = map snd (sort_key fst (os_metadata src))"

definition show_metadata_of :: "offline_source \<Rightarrow> int \<Rightarrow> pydict res" where
  "show_metadata_of src book_id =
     (case map_of (os_metadata src) book_id of
        None \<Rightarrow> Inl (OfflineCalibreError ''Calibre book is outside the frozen inventory'')
      | Some m \<Rightarrow> Inr m)"

definition format_references :: "offline_source \<Rightarrow> int \<Rightarrow> pyval \<Rightarrow> string list res" where
  "format_references src book_id raw_formats =
     (case show_metadata_of src book_id of
        Inl e \<Rightarrow> Inl e
      | Inr m \<Rightarrow>
          if \<not> py_eq raw_formats (pget m ''formats'')
          then Inl (changed ''Calibre format membership no longer matches the frozen inventory'')
          else Inr (map (\<lambda>f. ''calibre-offline:'' @ os_fingerprint src @ '':'' @ show_int book_id @ '':'' @ ff_format f)
                 (formats_of src book_id)))"

text \<open>\<open>s.partition(":")\<close>: the text before the first colon, and what follows it if there is one.\<close>

fun py_partition :: "char \<Rightarrow> string \<Rightarrow> string \<times> string option" where
  "py_partition c [] = ([], None)"
| "py_partition c (x # xs) = (if x = c then ([], Some xs) else (let (a, b) = py_partition c xs in (x # a, b)))"

definition format_from_reference :: "offline_source \<Rightarrow> string \<Rightarrow> string res" where
  "format_from_reference src reference =
     (let prefix = ''calibre-offline:'' @ os_fingerprint src @ '':'';
          invalid = Inl (ValueError ''offline Calibre format reference is invalid'')
      in if \<not> py_startswith reference prefix then invalid
         else case py_partition (CHR '':'') (py_removeprefix reference prefix) of
           (book_id_text, Some canonical) \<Rightarrow>
             if \<not> py_isdigit book_id_text \<or> \<not> is_format_name canonical then invalid
             else if canonical \<notin> set (map ff_format (formats_of src (int (nat_of_digits book_id_text))))
             then Inl (ValueError ''offline Calibre format reference is outside the frozen inventory'')
             else Inr canonical
         | (_, None) \<Rightarrow> invalid)"

definition frozen_format :: "offline_source \<Rightarrow> int \<Rightarrow> string \<Rightarrow> frozen_file res" where
  "frozen_format src book_id format_name =
     (if book_id \<le> 0 then Inl (ValueError ''book id is invalid'')
      else case row_first (\<lambda>f. ff_format f = py_upper (py_strip format_name)) (formats_of src book_id) of
          Some f \<Rightarrow> Inr f
        | None \<Rightarrow> Inl (ValueError ''format is outside the frozen inventory''))"

text \<open>\<open>export_format\<close>: the exported path, and what leaving the context does after success or an exception.\<close>

definition export_format ::
    "env \<Rightarrow> 'w fs \<Rightarrow> offline_source \<Rightarrow> string \<Rightarrow> int \<Rightarrow> string \<Rightarrow> ('w, string \<times> (bool \<Rightarrow> ('w, unit) eff)) eff" where
  "export_format en fs src scratch_root book_id format_name =
     bnd (lift_res (frozen_format src book_id format_name)) (\<lambda>frozen.
     thn (assert_no_sidecars fs src)
     (thn (assert_file en fs src frozen)
     (bnd (fs_ensure_secure_directory fs scratch_root) (\<lambda>root.
      bnd (fs_mkdtemp fs ''bookaudit-format-'' root) (\<lambda>temporary.
      let exported = path_join temporary (''source.'' @ py_lower (ff_format frozen));
          cleanup = fs_rmtree fs temporary
      in try_else any_exception
           (bnd (rewrite_error is_file_error (changed ''Calibre format changed while it was materialized'')
                  (fs_copy_file_beneath fs (os_library_path src)
                     (join_path (os_library_path src) (posix_parts (ff_relative_path frozen))) exported MAX_EBOOK_BYTES
                     (Some (ff_sha256 frozen))))
             (\<lambda>_. assert_file en fs src frozen))
           (\<lambda>e. thn cleanup (raise e))
           (\<lambda>_. ret (exported, \<lambda>success.
              if success then try_else any_exception (assert_file en fs src frozen) (\<lambda>e. thn cleanup (raise e)) (\<lambda>_. cleanup)
              else cleanup)))))))"

end
