(* ===== verification/Executor.thy ===== *)
theory Executor
  imports Pipeline OfflineSource
begin

text \<open>
  The execution of one claimed Certificate A run (\<open>execute_certificate_a_claim\<close> and one turn of \<open>run_certificate_a_worker\<close> in
  src/src/calibre\_ai\_auditor/verification/certificate\_a\_worker.py): the audit pipeline over the offline source with the fenced
  store as its callbacks. Every store operation is one transaction on the run tables; before the n-th one, \<open>ex_others n\<close> is what
  other processes and the heartbeat thread have committed since the last.
\<close>

section \<open>States\<close>

record 'w exec =
  ex_db :: run_db
  ex_world :: 'w
  ex_others :: "nat \<Rightarrow> run_db \<Rightarrow> run_db"
  ex_clock :: "nat \<Rightarrow> time"
  ex_uuids :: "nat \<Rightarrow> string"
  ex_lost :: "nat \<Rightarrow> bool"
  ex_ticks :: nat

definition on_world :: "('w, 'a) eff \<Rightarrow> ('w exec, 'a) eff" where
  "on_world m = (\<lambda>s. case m (ex_world s) of (r, w) \<Rightarrow> (r, s\<lparr>ex_world := w\<rparr>))"

text \<open>One transaction: it reads the clock twice and takes \<open>k\<close> uuids.\<close>

definition transact ::
    "nat \<Rightarrow> (time \<Rightarrow> time \<Rightarrow> string list \<Rightarrow> run_db \<Rightarrow> 'a res \<times> run_db) \<Rightarrow> ('w exec, 'a) eff" where
  "transact k f = (\<lambda>s.
     let n = ex_ticks s;
         us = map (\<lambda>i. ex_uuids s (Suc n + i)) [0..<k]
     in case f (ex_clock s n) (ex_clock s (Suc n)) us (ex_others s n (ex_db s)) of
          (r, d) \<Rightarrow> (r, s\<lparr>ex_db := d, ex_ticks := Suc (Suc n) + k\<rparr>))"

definition transact_read :: "(time \<Rightarrow> run_db \<Rightarrow> 'a res) \<Rightarrow> ('w exec, 'a) eff" where
  "transact_read f = transact 0 (\<lambda>m _ _ d. (f m d, d))"

definition next_time :: "('w exec, time) eff" where
  "next_time = (\<lambda>s. (Inr (ex_clock s (ex_ticks s)), s\<lparr>ex_ticks := Suc (ex_ticks s)\<rparr>))"

definition next_uuid :: "('w exec, string) eff" where
  "next_uuid = (\<lambda>s. (Inr (ex_uuids s (ex_ticks s)), s\<lparr>ex_ticks := Suc (ex_ticks s)\<rparr>))"

section \<open>The outside world of the verifier\<close>

record 'w enricher =
  eh_collect :: "book_snapshot \<Rightarrow> inspection list \<Rightarrow> ('w, enrichment) eff"
  eh_collect_materialized :: "(book_snapshot \<Rightarrow> inspection \<Rightarrow> ('w, enrichment) eff) option"
  eh_collect_aggregate :: "(book_snapshot \<Rightarrow> inspection list \<Rightarrow> ('w, enrichment) eff) option"

record 'w verifier_io =
  vi_fs :: "'w fs"
  vi_inspect :: "string \<Rightarrow> ('w, inspection) eff"
  vi_build_enricher :: "contract \<Rightarrow> ('w, 'w enricher) eff"
  vi_scratch_dir :: string
  vi_isoformat :: "time \<Rightarrow> string"
  vi_publish_liveness :: "('w, unit) eff"
  vi_join_heartbeat :: "('w, unit) eff"

section \<open>The store as the pipeline sees it\<close>

definition tx_cancellation_requested :: "claim \<Rightarrow> ('w exec, bool) eff" where
  "tx_cancellation_requested c = transact_read (store_cancellation_requested c)"

definition tx_finish :: "claim \<Rightarrow> string \<Rightarrow> string option \<Rightarrow> ('w exec, unit) eff" where
  "tx_finish c status error_code = transact 0 (\<lambda>m1 m2 _. store_finish c status error_code m1 m2)"

definition tx_inventory :: "claim \<Rightarrow> string list \<Rightarrow> pydict \<Rightarrow> ('w exec, unit) eff" where
  "tx_inventory c book_keys source_snapshot =
     transact (length book_keys) (\<lambda>m1 m2 us. store_inventory c book_keys source_snapshot m1 m2 us)"

definition tx_record_state :: "claim \<Rightarrow> string \<Rightarrow> audit_state \<Rightarrow> ('w exec, unit) eff" where
  "tx_record_state c book_key state = transact 0 (\<lambda>m _ _. store_record_state c book_key state m)"

definition tx_record_package :: "env \<Rightarrow> claim \<Rightarrow> evidence_package_v2 \<Rightarrow> ('w exec, unit) eff" where
  "tx_record_package en c p =
     thn (transact 0 (\<lambda>m1 m2 _. store_record_package en c p m1 m2))
       (if pk_state p = bs_source_changed then raise (OfflineLibraryChangedError ''offline source changed during verification'')
        else ret ())"

definition tx_resumable :: "env \<Rightarrow> claim \<Rightarrow> ('w exec, string list) eff" where
  "tx_resumable en c = transact_read (store_resumable_book_keys en c)"

text \<open>The heartbeat thread has set its flag when a heartbeat was refused or raised.\<close>

definition ensure_current :: "('w exec, unit) eff" where
  "ensure_current = (\<lambda>s. if ex_lost s (ex_ticks s)
     then (Inl (LostVerifierLeaseError ''verifier heartbeat lost the active fence''), s) else (Inr (), s))"

definition offline_pipeline ::
    "env \<Rightarrow> 'w verifier_io \<Rightarrow> claim \<Rightarrow> offline_source \<Rightarrow> 'w enricher \<Rightarrow> book_source \<Rightarrow> 'w exec pipeline" where
  "offline_pipeline en vi c src eh descriptor =
     \<lparr>pl_list_books = ret (list_books src),
      pl_show_metadata = (\<lambda>i. lift_res (show_metadata_of src i)),
      pl_format_references = (\<lambda>i raw. lift_res (format_references src i raw)),
      pl_format_from_reference = (\<lambda>r. lift_res (format_from_reference src r)),
      pl_export_format = (\<lambda>i name.
        bnd (on_world (export_format en (vi_fs vi) src (vi_scratch_dir vi) i name)) (\<lambda>(path, leave).
        ret (path, \<lambda>success. on_world (leave success)))),
      pl_assert_unchanged = Some (\<lambda>i. on_world (assert_unchanged en (vi_fs vi) src (Some i))),
      pl_open_file_beneath = (\<lambda>_ _. ret ()),
      pl_source = Some descriptor, pl_library_root = None,
      pl_inspector = (\<lambda>path. on_world (vi_inspect vi path)),
      pl_collect = (\<lambda>b xs. on_world (eh_collect eh b xs)),
      pl_collect_materialized = map_option (\<lambda>f b x. on_world (f b x)) (eh_collect_materialized eh),
      pl_collect_aggregate = map_option (\<lambda>f b xs. on_world (f b xs)) (eh_collect_aggregate eh),
      pl_state_callback = Some (tx_record_state c),
      pl_package_callback = Some (tx_record_package en c),
      pl_now = bnd next_time (\<lambda>t. ret (vi_isoformat vi t)),
      pl_uuid = next_uuid\<rparr>"

section \<open>Executing a claim\<close>

definition status_text :: "library_status \<Rightarrow> string" where
  "status_text st = (case st of ls_running \<Rightarrow> ''running'' | ls_completed \<Rightarrow> ''completed''
     | ls_completed_with_errors \<Rightarrow> ''completed_with_errors'' | ls_blocked_recovery \<Rightarrow> ''blocked_recovery'')"

text \<open>Asks whether to stop; if so the run is finished as cancelled with this code.\<close>

definition unless_cancelled :: "claim \<Rightarrow> string \<Rightarrow> ('w exec, string) eff \<Rightarrow> ('w exec, string) eff" where
  "unless_cancelled c code k =
     bnd (tx_cancellation_requested c) (\<lambda>cancelled.
     if cancelled then thn (tx_finish c ''cancelled'' (Some code)) (ret ''cancelled'') else k)"

text \<open>The part inside the \<open>with source_factory(...) as source\<close> block.\<close>

definition audit_source :: "env \<Rightarrow> 'w verifier_io \<Rightarrow> claim \<Rightarrow> contract \<Rightarrow> offline_source \<Rightarrow> ('w exec, string) eff" where
  "audit_source en vi c contract src =
     (let books = (case ct_book_limit contract of None \<Rightarrow> list_books src | Some n \<Rightarrow> take (nat n) (list_books src)) in
      bnd (lift_res (with_ids books)) (\<lambda>ids.
      let book_keys = map (\<lambda>(i, _). ''calibre-offline:'' @ os_fingerprint src @ '':'' @ show_int i) ids in
      thn (tx_inventory c book_keys (dict_set ''selected_book_keys'' (str_list book_keys) (snapshot_manifest src)))
      (thn ensure_current
      (unless_cancelled c ''cancelled_after_inventory''
        (bnd (on_world (vi_build_enricher vi contract)) (\<lambda>eh.
         bnd (lift_res (init_source en (Some offline_calibre_snapshot) (os_fingerprint src) True None)) (\<lambda>(descriptor, _).
         thn (on_world (bnd (fs_ensure_secure_directory (vi_fs vi) (vi_scratch_dir vi)) (\<lambda>_. ret ())))
         (bnd (tx_resumable en c) (\<lambda>skipped.
          bnd (run_library en (offline_pipeline en vi c src eh (the descriptor)) shadow (cl_run_id c)
                (case ct_book_limit contract of None \<Rightarrow> 0 | Some n \<Rightarrow> n) skipped) (\<lambda>result.
          thn (on_world (assert_unchanged en (vi_fs vi) src None))
          (thn ensure_current
          (unless_cancelled c ''cancelled_after_processing''
            (thn (tx_finish c (status_text (lr_status result)) None) (ret (status_text (lr_status result))))))))))))))))"

definition with_source ::
    "env \<Rightarrow> 'w verifier_io \<Rightarrow> contract \<Rightarrow> (offline_source \<Rightarrow> ('w exec, 'a) eff) \<Rightarrow> ('w exec, 'a) eff" where
  "with_source en vi contract body =
     bnd (on_world (open_source en (vi_fs vi) (ct_source_root contract) (vi_scratch_dir vi) True)) (\<lambda>(src, temporary).
     try_else any_exception (body src)
       (\<lambda>e. thn (on_world (close_source (vi_fs vi) temporary)) (raise e))
       (\<lambda>x. thn (on_world (close_source (vi_fs vi) temporary)) (ret x)))"

definition execute_steps ::
    "(string \<Rightarrow> pyval \<Rightarrow> pyval option) \<Rightarrow> env \<Rightarrow> settings \<Rightarrow> 'w verifier_io \<Rightarrow> claim \<Rightarrow> ('w exec, string) eff" where
  "execute_steps lax en st vi c =
     bnd (transact_read (load_certificate_a_contract lax en st c)) (\<lambda>contract.
     unless_cancelled c ''cancelled_before_inventory''
       (with_source en vi contract (audit_source en vi c contract)))"

text \<open>The status and code an exception ends the run with; a lost lease is not answered.\<close>

definition ending :: "exn \<Rightarrow> (string \<times> string) option" where
  "ending e = (case e of
      VerifierCancellationRequestedError _ \<Rightarrow> Some (''cancelled'', ''cancelled_by_operator'')
    | OfflineLibraryChangedError _ \<Rightarrow> Some (''source_changed'', ''offline_source_changed'')
    | SourceSnapshotMismatchError _ \<Rightarrow> Some (''source_changed'', ''offline_source_changed'')
    | CertificateAContractError _ \<Rightarrow> Some (''blocked_recovery'', ''certificate_a_contract_mismatch'')
    | LostVerifierLeaseError _ \<Rightarrow> None
    | _ \<Rightarrow> Some (''failed'', ''verifier_failed''))"

definition execute_guarded ::
    "(string \<Rightarrow> pyval \<Rightarrow> pyval option) \<Rightarrow> env \<Rightarrow> settings \<Rightarrow> 'w verifier_io \<Rightarrow> claim \<Rightarrow> ('w exec, string) eff" where
  "execute_guarded lax en st vi c =
     try_except any_exception (execute_steps lax en st vi c)
       (\<lambda>e. case ending e of
          None \<Rightarrow> raise e
        | Some (status, code) \<Rightarrow> thn (tx_finish c status (Some code)) (ret status))"

text \<open>The whole call, within the heartbeat guard, whose exit joins the thread.\<close>

definition execute_certificate_a_claim ::
    "(string \<Rightarrow> pyval \<Rightarrow> pyval option) \<Rightarrow> env \<Rightarrow> settings \<Rightarrow> 'w verifier_io \<Rightarrow> claim \<Rightarrow> ('w exec, string) eff" where
  "execute_certificate_a_claim lax en st vi c =
     thn (on_world (vi_publish_liveness vi))
     (try_else any_exception (execute_guarded lax en st vi c)
       (\<lambda>e. thn (on_world (vi_join_heartbeat vi)) (raise e))
       (\<lambda>status. thn (on_world (vi_join_heartbeat vi)) (ret status)))"

text \<open>One turn of the worker loop: whether a run was processed. A lost fence is logged and the loop goes on.\<close>

definition worker_turn ::
    "(string \<Rightarrow> pyval \<Rightarrow> pyval option) \<Rightarrow> env \<Rightarrow> settings \<Rightarrow> 'w verifier_io \<Rightarrow> string \<Rightarrow> ('w exec, bool) eff" where
  "worker_turn lax en st vi owner =
     thn (try_except any_exception (on_world (vi_publish_liveness vi))
           (\<lambda>_. raise (CertificateAContractError ''Certificate A verifier heartbeat is unavailable'')))
     (bnd (transact 0 (\<lambda>m _ _. claim_next_certificate_a_run owner m (st_lease_ttl_seconds st) None)) (\<lambda>claimed.
      case claimed of
        None \<Rightarrow> ret False
      | Some c \<Rightarrow>
          thn (try_except (\<lambda>e. case e of LostVerifierLeaseError _ \<Rightarrow> True | _ \<Rightarrow> False)
                (bnd (execute_certificate_a_claim lax en st vi c) (\<lambda>_. ret ())) (\<lambda>_. ret ()))
          (ret True)))"

end
