(* ===== verification/PipelineLaws.thy ===== *)
theory PipelineLaws
  imports Pipeline
begin

text \<open>
  What the audit pipeline guarantees of any reader, inspector, enricher and callbacks: the packages it makes, and the assertions
  on the state it keeps when the reader and the callbacks keep them.
\<close>

section \<open>Packages\<close>

text \<open>A package of this book and run, sealed, with an id of its own.\<close>

definition sealed_for :: "env \<Rightarrow> 's pipeline \<Rightarrow> string \<Rightarrow> string \<Rightarrow> evidence_package_v2 \<Rightarrow> bool" where
  "sealed_for en pl run_id book_key p =
     (pk_run_id p = run_id \<and> pk_book_key p = book_key \<and> verify_seal en p = Inr True \<and> pk_evidence_id p \<noteq> [])"

lemma sealed_forI:
  assumes "seal en q = Inr p" "pk_run_id q = run_id" "pk_book_key q = book_key" "pk_evidence_id q \<noteq> []"
  shows "sealed_for en pl run_id book_key p \<and> pk_state p = pk_state q"
  using assms by (auto simp: sealed_for_def seal_Inr verify_seal_True)

lemma new_snapshot_simps [simp]:
  "sn_book_key (new_snapshot en pl i m fs r) = book_key_of pl i" "sn_calibre_book_id (new_snapshot en pl i m fs r) = i"
  "sn_files (new_snapshot en pl i m fs r) = fs" "sn_source (new_snapshot en pl i m fs r) = pl_source pl"
  "sn_library_root (new_snapshot en pl i m fs r) = pl_library_root pl"
  "sn_current_metadata (new_snapshot en pl i m fs r) = m" "sn_source_revision_sha256 (new_snapshot en pl i m fs r) = r"
  by (simp_all add: new_snapshot_def Let_def)

lemma take_book_snapshot_results:
  "results (take_book_snapshot en pl raw) (\<lambda>s. \<exists>i. book_id_of raw = Inr i \<and> sn_book_key s = book_key_of pl i)"
  unfolding take_book_snapshot_def
  by (rule results_seq [OF results_lift], rule results_bnd, rule results_bnd) (simp add: results_simps)

lemma undecided_package_results:
  "results (undecided_package en pl run_id state flag snapshot message)
     (\<lambda>p. sealed_for en pl run_id (sn_book_key snapshot) p \<and> pk_state p = state)"
proof -
  have key: "results (lift_res (seal en q)) (\<lambda>p. sealed_for en pl run_id (sn_book_key snapshot) p \<and> pk_state p = state)"
    if "pk_run_id q = run_id" "pk_book_key q = sn_book_key snapshot" "pk_evidence_id q \<noteq> []" "pk_state q = state" for q
    using sealed_forI [OF _ that(1-3), of en] that(4) by (auto simp: results_def lift_res_def)
  show ?thesis unfolding undecided_package_def by (rule results_bnd, rule results_bnd, rule key) simp_all
qed

lemma failed_package_results:
  assumes "book_id_of raw = Inr i"
  shows "results (failed_package en pl run_id raw e) (\<lambda>p. sealed_for en pl run_id (book_key_of pl i) p \<and> pk_state p = bs_failed)"
proof -
  have snapshot: "results (try_except any_exception (take_book_snapshot en pl raw) (\<lambda>_. ret (new_snapshot en pl i m fs r)))
      (\<lambda>s. sn_book_key s = book_key_of pl i)" for m fs r
    using take_book_snapshot_results [of en pl raw] assms
    by (fastforce simp: results_def try_except_def ret_def split: prod.splits sum.splits if_splits)
  have undecided: "results (undecided_package en pl run_id bs_failed flag s m) (\<lambda>p. sealed_for en pl run_id (book_key_of pl i) p \<and> pk_state p = bs_failed)"
    if "sn_book_key s = book_key_of pl i" for flag s m
    using undecided_package_results [of en pl run_id bs_failed flag s m] that by simp
  show ?thesis
    unfolding failed_package_def assms
  proof (rule results_seq [OF results_lift])
    fix x assume "Inr i = (Inr x :: int res)"
    then have x: "x = i" by simp
    show "results (bnd (try_except any_exception (take_book_snapshot en pl raw)
           (\<lambda>_. ret (new_snapshot en pl x (canonical_current raw)
              (if pl_source pl \<noteq> None then [] else format_paths (pget raw ''formats'')) (revision_of en pl raw)))) (\<lambda>snapshot.
     undecided_package en pl run_id bs_failed ''pipeline_error'' snapshot
       (if pl_source pl \<noteq> None then ''Remote content inspection failed''
        else if take 500 (exn_text e) = [] then exn_name e else take 500 (exn_text e))))
       (\<lambda>p. sealed_for en pl run_id (book_key_of pl i) p \<and> pk_state p = bs_failed)"
      unfolding x by (rule results_seq [OF snapshot]) (rule undecided)
  qed
qed

definition same_snapshot :: "book_snapshot \<Rightarrow> book_snapshot + 'a \<Rightarrow> bool" where
  "same_snapshot s x = (case x of Inl c \<Rightarrow> c = s | Inr _ \<Rightarrow> True)"

lemma inspect_book_results: "results (inspect_book en pl snapshot) (same_snapshot snapshot)"
proof -
  have changed_on: "(\<And>x. results (k x) (same_snapshot snapshot)) \<Longrightarrow> results (changed_on snapshot m k) (same_snapshot snapshot)"
    for m :: "('s, 'c) eff" and k :: "'c \<Rightarrow> ('s, book_snapshot + 'd) eff"
    unfolding changed_on_def by (rule results_try_else) (simp_all add: results_simps same_snapshot_def)
  have "results (inspect_remote en pl snapshot) (same_snapshot snapshot)"
    unfolding inspect_remote_def Let_def
    by (rule changed_on, clarify, (rule results_bnd, (clarify)?)+)
      (auto simp: results_simps same_snapshot_def intro!: changed_on split: option.split)
  then show ?thesis
    unfolding inspect_book_def by (auto simp: results_simps same_snapshot_def intro!: results_bnd)
qed

definition decided :: "env \<Rightarrow> 's pipeline \<Rightarrow> string \<Rightarrow> string \<Rightarrow> book_snapshot + evidence_package_v2 \<Rightarrow> bool" where
  "decided en pl run_id book_key x = (case x of
     Inl c \<Rightarrow> sn_book_key c = book_key
   | Inr p \<Rightarrow> sealed_for en pl run_id book_key p \<and> pk_state p \<in> {bs_deferred, bs_review, bs_shadowed})"

lemma process_book_results:
  assumes "book_id_of raw = Inr i"
  shows "results (process_book en pl run_id mode raw) (decided en pl run_id (book_key_of pl i))"
proof -
  have state: "state_for mode tier = Inr st \<Longrightarrow> st \<in> {bs_deferred, bs_review, bs_shadowed}" for mode tier st
    by (auto simp: state_for_def split: identity_tier.splits if_splits)
  have final: "results (bnd (lift_res (seal en q)) (\<lambda>p. thn m (ret p)))
      (\<lambda>p. sealed_for en pl run_id (book_key_of pl i) p \<and> pk_state p \<in> {bs_deferred, bs_review, bs_shadowed})"
    if "pk_run_id q = run_id" "pk_book_key q = book_key_of pl i" "pk_evidence_id q \<noteq> []" "pk_state q \<in> {bs_deferred, bs_review, bs_shadowed}"
    for q and m
    using sealed_forI [OF _ that(1-3), of en] that(4)
    by (intro results_seq [OF results_lift] results_thn) (auto simp: results_simps)
  have decide: "results (decide_book en pl run_id mode (book_key_of pl i) s xs er)
      (\<lambda>p. sealed_for en pl run_id (book_key_of pl i) p \<and> pk_state p \<in> {bs_deferred, bs_review, bs_shadowed})" for s xs er
    unfolding decide_book_def Let_def
    by (rule results_thn, rule results_bnd, rule results_bnd, rule results_thn, rule results_seq [OF results_lift], drule state,
        rule results_bnd, rule final) simp_all
  have snap: "results (take_book_snapshot en pl raw) (\<lambda>s. sn_book_key s = book_key_of pl i)"
    using take_book_snapshot_results [of en pl raw] assms by (auto simp: results_def)
  have outcome: "results (case x of Inl c \<Rightarrow> ret (Inl c)
        | Inr (xs, er) \<Rightarrow> bnd (decide_book en pl run_id mode (book_key_of pl i) s xs er) (\<lambda>p. ret (Inr p)))
      (decided en pl run_id (book_key_of pl i))" if "same_snapshot s x" "sn_book_key s = book_key_of pl i" for s x
    using that by (auto simp: same_snapshot_def results_simps decided_def split: sum.splits intro!: results_seq [OF decide])
  show ?thesis
    unfolding process_book_def assms bnd_lift_Inr Let_def
    by (rule results_thn, rule results_seq [OF snap], rule results_thn, rule results_seq [OF inspect_book_results], rule outcome)
qed

text \<open>What the body of the loop returns for a book, with whether it failed.\<close>

definition audited :: "env \<Rightarrow> 's pipeline \<Rightarrow> string \<Rightarrow> string \<Rightarrow> evidence_package_v2 \<times> bool \<Rightarrow> bool" where
  "audited en pl run_id book_key x = (case x of (p, failed) \<Rightarrow>
     sealed_for en pl run_id book_key p \<and> pk_state p \<in> {bs_deferred, bs_review, bs_shadowed, bs_failed, bs_source_changed}
     \<and> (failed \<longleftrightarrow> pk_state p = bs_failed))"

lemma book_outcome_results:
  assumes "book_id_of raw = Inr i"
  shows "results (book_outcome en pl run_id mode raw (book_key_of pl i)) (audited en pl run_id (book_key_of pl i))"
proof -
  let ?k = "book_key_of pl i"
  have failed: "results (bnd (failed_package en pl run_id raw e) (\<lambda>p. thn m (ret (p, True)))) (audited en pl run_id ?k)" for e m
    by (rule results_seq [OF failed_package_results [OF assms]], rule results_thn) (simp add: results_simps audited_def)
  have changed: "results (bnd (source_changed_package en pl run_id c) (\<lambda>p. thn m (ret (p, False)))) (audited en pl run_id ?k)"
    if "sn_book_key c = ?k" for c m
    unfolding source_changed_package_def
    by (rule results_seq [OF undecided_package_results], rule results_thn) (simp add: results_simps audited_def that)
  show ?thesis
    unfolding book_outcome_def
    by (rule results_try_else_seq [OF process_book_results [OF assms] failed])
      (auto simp: decided_def results_simps audited_def split: sum.splits intro: changed)
qed

section \<open>Assertions the reader keeps\<close>

text \<open>The interface of the pipeline to its reader, inspector and enricher: every one of their operations keeps an assertion.\<close>

locale reader_keeps =
  fixes pl :: "'s pipeline" and I :: "'s \<Rightarrow> bool"
  assumes show_keeps: "preserves I (pl_show_metadata pl i)"
    and references_keep: "preserves I (pl_format_references pl i raw)"
    and format_keeps: "preserves I (pl_format_from_reference pl r)"
    and export_keeps: "I s \<Longrightarrow> wp (pl_export_format pl i f) (\<lambda>(path, leave) s'. I s' \<and> (\<forall>b. preserves I (leave b))) (\<lambda>_. I) s"
    and unchanged_keeps: "pl_assert_unchanged pl = Some g \<Longrightarrow> preserves I (g i)"
    and beneath_keeps: "preserves I (pl_open_file_beneath pl root path)"
    and inspector_keeps: "preserves I (pl_inspector pl path)"
    and collect_keeps: "preserves I (pl_collect pl b xs)"
    and materialized_keeps: "pl_collect_materialized pl = Some g1 \<Longrightarrow> preserves I (g1 b x)"
    and aggregate_keeps: "pl_collect_aggregate pl = Some g2 \<Longrightarrow> preserves I (g2 b xs)"
    and now_keeps: "preserves I (pl_now pl)"
    and uuid_keeps: "preserves I (pl_uuid pl)"
begin

lemma file_references_keeps: "preserves I (file_references pl i raw)"
  unfolding file_references_def by (intro preserved references_keep)

lemma snapshot_keeps: "preserves I (take_book_snapshot en pl raw)"
  unfolding take_book_snapshot_def by (intro preserved show_keeps file_references_keeps)

lemma with_export_keeps:
  assumes "\<And>path. preserves I (body path)"
  shows "preserves I (with_export pl i f body)"
  unfolding preserves_def with_export_def wp_bnd
proof (intro allI impI)
  fix s assume s: "I s"
  have "wp (case x of (path, leave) \<Rightarrow> try_else any_exception (body path) (\<lambda>e. thn (leave False) (raise e)) (\<lambda>x. thn (leave True) (ret x)))
      (\<lambda>_. I) (\<lambda>_. I) s'" if "case x of (path, leave) \<Rightarrow> I s' \<and> (\<forall>b. preserves I (leave b))" for x s'
  proof -
    obtain path leave where x: "x = (path, leave)" by force
    with that have "I s'" "preserves I (leave b)" for b by simp_all
    then have "preserves I (try_else any_exception (body path) (\<lambda>e. thn (leave False) (raise e)) (\<lambda>x. thn (leave True) (ret x)))"
      by (intro preserved assms)
    with \<open>I s'\<close> show ?thesis by (simp add: x preserves_def)
  qed
  then show "wp (pl_export_format pl i f) (\<lambda>x. wp (case x of (path, leave) \<Rightarrow>
      try_else any_exception (body path) (\<lambda>e. thn (leave False) (raise e)) (\<lambda>x. thn (leave True) (ret x))) (\<lambda>_. I) (\<lambda>_. I)) (\<lambda>_. I) s"
    by (rule wp_mono [OF export_keeps [OF s]]) (auto split: prod.splits)
qed

lemma inspect_formats_keeps: "preserves I (inspect_formats en pl snapshot refs m)"
proof (induction refs arbitrary: m)
  case (Cons r refs)
  have each: "preserves I (case pl_collect_materialized pl of None \<Rightarrow> ret m | Some f \<Rightarrow> bnd (f snapshot x) (\<lambda>er. lift_res (merge en m er)))" for x
    by (cases "pl_collect_materialized pl") (simp_all add: preserves_simps preserves_bnd materialized_keeps)
  show ?case unfolding inspect_formats.simps
    by (rule preserves_bnd, rule preserves_bnd, rule format_keeps, rule with_export_keeps, rule preserves_bnd,
        rule inspector_keeps, rule preserves_bnd, rule each) (intro preserved Cons.IH)+
qed (simp add: preserved)

lemma inspect_remote_keeps: "preserves I (inspect_remote en pl snapshot)"
proof -
  have aggregate: "preserves I (case pl_collect_aggregate pl of Some f \<Rightarrow> f snapshot xs | None \<Rightarrow> pl_collect pl snapshot xs)" for xs
    by (cases "pl_collect_aggregate pl") (auto intro: aggregate_keeps collect_keeps)
  have unchanged: "preserves I (case pl_assert_unchanged pl of None \<Rightarrow> ret x | Some f \<Rightarrow> changed_on snapshot (f i) (\<lambda>_. ret x))"
    for x :: "book_snapshot + (inspection list \<times> enrichment)" and i
    by (cases "pl_assert_unchanged pl") (simp_all add: changed_on_def preserves_simps preserves_try_else unchanged_keeps)
  show ?thesis
    unfolding inspect_remote_def changed_on_def [of _ "inspect_formats en pl snapshot (sn_files snapshot) ([], [], [])"] Let_def
    by (intro aggregate unchanged preserved inspect_formats_keeps show_keeps file_references_keeps)
qed

lemma inspect_local_keeps: "preserves I (inspect_local pl paths)"
proof (induction paths)
  case (Cons p paths)
  have "preserves I (validated_file pl p)"
    unfolding validated_file_def by (intro preserved beneath_keeps)
  then show ?case unfolding inspect_local.simps by (intro preserved inspector_keeps Cons.IH)
qed (simp add: preserved)

lemma inspect_book_keeps: "preserves I (inspect_book en pl snapshot)"
  unfolding inspect_book_def by (intro preserved inspect_remote_keeps inspect_local_keeps collect_keeps)

lemma undecided_package_keeps: "preserves I (undecided_package en pl run_id state flag snapshot m)"
  unfolding undecided_package_def by (intro preserved uuid_keeps now_keeps)

lemma book_outcome_keeps:
  assumes "book_id_of raw = Inr i" "\<And>st. preserves I (emit pl (book_key_of pl i) st)"
  shows "preserves I (book_outcome en pl run_id mode raw (book_key_of pl i))"
proof -
  have "preserves I (process_book en pl run_id mode raw)"
    unfolding process_book_def decide_book_def assms(1) bnd_lift_Inr Let_def
    by (intro preserved assms(2) snapshot_keeps inspect_book_keeps uuid_keeps now_keeps)
  then show ?thesis
    unfolding book_outcome_def failed_package_def source_changed_package_def
    by (intro preserved assms(2) snapshot_keeps undecided_package_keeps)
qed

end

end
