(* ===== verification/OfflineLaws.thy ===== *)
theory OfflineLaws
  imports OfflineSource Pipeline
begin

text \<open>
  What an opened offline source guarantees: its inventory is well formed, every path it will read stays inside the library, and
  it is no longer usable once anything changed.
\<close>

section \<open>The inventory\<close>

text \<open>A path of the library: its parts name no parent directory, and none is empty or holds a separator.\<close>

definition safe_parts :: "string list \<Rightarrow> bool" where
  "safe_parts ps = (ps \<noteq> [] \<and> list_all (\<lambda>c. c \<noteq> [] \<and> c \<noteq> ''.'' \<and> c \<noteq> ''..'' \<and> CHR ''/'' \<notin> set c) ps)"

definition frozen_ok :: "frozen_file \<Rightarrow> bool" where
  "frozen_ok f = (safe_parts (posix_parts (ff_relative_path f)) \<and> is_format_name (ff_format f))"

definition book_ok :: "int \<times> pydict \<times> frozen_file list \<Rightarrow> bool" where
  "book_ok b = (case b of (i, m, fs) \<Rightarrow>
     0 < i \<and> dict_get m ''id'' = Some (PInt i) \<and> list_all frozen_ok fs \<and> distinct (map ff_format fs))"

lemma posix_parts_join:
  assumes "safe_parts ps"
  shows "posix_parts (py_join ''/'' ps) = ps"
proof -
  have "py_split (CHR ''/'') (py_join [CHR ''/''] ps) = ps"
    by (rule split_join) (use assms in \<open>auto simp: safe_parts_def list_all_iff\<close>)
  moreover have "filter (\<lambda>c. c \<noteq> [] \<and> c \<noteq> ''.'') ps = ps" using assms by (simp add: safe_parts_def list_all_iff)
  ultimately show ?thesis by (simp only: posix_parts_def)
qed

lemma safe_relative_path_parts:
  assumes "safe_relative_path field v = Inr ps"
  shows "safe_parts ps"
proof -
  from assms obtain raw where t: "ps = posix_parts raw" "ps \<noteq> []" "''..'' \<notin> set ps"
    by (auto simp: safe_relative_path_def split: sum.splits option.splits if_splits)
  moreover have "CHR ''/'' \<notin> set c" if "c \<in> set ps" for c using that split_no_sep by (auto simp: t(1) posix_parts_def)
  ultimately show ?thesis by (auto simp: safe_parts_def list_all_iff t(1) posix_parts_def)
qed

lemma describe_file_results: "results (describe_file en fs root path fmt) (\<lambda>f. ff_relative_path f = path \<and> ff_format f = fmt)"
  unfolding describe_file_def by (rule results_bnd) (auto simp: results_simps split: prod.split)

lemma load_format_rows_results:
  assumes "safe_parts book_path"
  shows "results (load_format_rows en fs root book_path seen rows)
    (\<lambda>fs. list_all frozen_ok fs \<and> distinct (map ff_format fs) \<and> set (map ff_format fs) \<inter> set seen = {})"
proof (induction rows arbitrary: seen)
  case Nil
  then show ?case by (simp add: results_simps)
next
  case (Cons row rows)
  have described: "results (describe_file en fs root (py_join ''/'' (book_path @ [name @ ''.'' @ py_lower fmt])) fmt)
      (\<lambda>f. frozen_ok f \<and> ff_format f = fmt)" if "is_format_name fmt" "safe_file_name name" for name fmt
  proof -
    have no_sep: "CHR ''/'' \<notin> set (py_lower fmt)" "CHR ''.'' \<notin> set (py_lower fmt)"
    proof -
      have "(of_char (lower_char c) :: nat) \<noteq> 47 \<and> (of_char (lower_char c) :: nat) \<noteq> 46" if "c \<in> set fmt" for c
      proof -
        have "is_upper c \<or> is_digit c" using that \<open>is_format_name fmt\<close> by (auto simp: is_format_name_def list_all_iff)
        then show ?thesis by (auto simp: lower_char_def is_upper_def is_digit_def Let_def split: if_splits)
      qed
      then have "lower_char c \<noteq> CHR ''/'' \<and> lower_char c \<noteq> CHR ''.''" if "c \<in> set fmt" for c using that by force
      then show "CHR ''/'' \<notin> set (py_lower fmt)" "CHR ''.'' \<notin> set (py_lower fmt)" by (force simp: py_lower_def)+
    qed
    have ext: "py_lower fmt \<noteq> []" using that(1) by (auto simp: is_format_name_def py_lower_def)
    then have "last (name @ ''.'' @ py_lower fmt) \<in> set (py_lower fmt)" by simp
    with no_sep(2) have "last (name @ ''.'' @ py_lower fmt) \<noteq> CHR ''.''" by metis
    then have name: "name @ ''.'' @ py_lower fmt \<noteq> ''..''" "name @ ''.'' @ py_lower fmt \<noteq> ''.''" by (metis last.simps)+
    have "safe_parts (book_path @ [name @ ''.'' @ py_lower fmt])"
      using assms that(2) no_sep name by (auto simp: safe_parts_def safe_file_name_def)
    then have "posix_parts (py_join ''/'' (book_path @ [name @ ''.'' @ py_lower fmt])) = book_path @ [name @ ''.'' @ py_lower fmt]"
      "safe_parts (book_path @ [name @ ''.'' @ py_lower fmt])" by (simp_all add: posix_parts_join)
    with describe_file_results [of en fs root "py_join ''/'' (book_path @ [name @ ''.'' @ py_lower fmt])" fmt] that(1)
    show ?thesis by (auto simp: results_def frozen_ok_def)
  qed
  have rest: "results (bnd (describe_file en fs root (py_join ''/'' (book_path @ [name @ ''.'' @ py_lower fmt])) fmt) (\<lambda>f.
       bnd (load_format_rows en fs root book_path (fmt # seen) rows) (\<lambda>fs'. ret (f # fs'))))
      (\<lambda>fs. list_all frozen_ok fs \<and> distinct (map ff_format fs) \<and> set (map ff_format fs) \<inter> set seen = {})"
    if "is_format_name fmt" "safe_file_name name" "fmt \<notin> set seen" for name fmt
    using that(3) by (intro results_seq [OF described [OF that(1,2)]] results_seq [OF Cons.IH]) (auto simp: results_simps)
  show ?case
    unfolding load_format_rows.simps Let_def
    by (rule results_bnd, rule results_bnd) (use rest in \<open>auto simp: results_simps(2)\<close>)
qed

lemma load_book_results: "0 < br_id row \<Longrightarrow> results (load_book en fs root cb row) (\<lambda>x. book_ok (br_id row, x))"
proof -
  assume pos: "0 < br_id row"
  have meta: "book_metadata root cb row ps frozen ids = Inr m \<Longrightarrow> dict_get m ''id'' = Some (PInt (br_id row))" for ps frozen ids m
    by (auto simp: book_metadata_def Let_def dict_get_def split: sum.splits)
  show ?thesis
    unfolding load_book_def load_formats_def
    by (rule results_seq [OF results_lift], rule results_seq [OF load_format_rows_results], erule safe_relative_path_parts,
        rule results_bnd, rule results_seq [OF results_lift]) (auto simp: results_simps book_ok_def pos dest: meta)
qed

lemma load_books_results:
  "list_all book_ok found \<Longrightarrow> distinct (map fst found)
    \<Longrightarrow> results (load_books en fs root cb found rows) (\<lambda>bs. list_all book_ok bs \<and> distinct (map fst bs))"
proof (induction rows arbitrary: found)
  case (Cons row rows)
  show ?case
  proof (cases "br_id row \<le> 0 \<or> br_id row \<in> fst ` set found")
    case False
    then have "results (load_book en fs root cb row) (\<lambda>x. book_ok (br_id row, x))" by (intro load_book_results) simp
    with False show ?thesis
      by (auto intro!: results_seq Cons.IH simp: Cons.prems)
  qed (simp add: results_simps)
qed (simp add: results_simps)

text \<open>The source an inventory of these books makes.\<close>

definition source_ok :: "env \<Rightarrow> offline_source \<Rightarrow> bool" where
  "source_ok en src =
     (map fst (os_formats src) = map fst (os_metadata src) \<and> distinct (map fst (os_metadata src))
      \<and> list_all (\<lambda>(i, m). 0 < i \<and> dict_get m ''id'' = Some (PInt i)) (os_metadata src)
      \<and> list_all (\<lambda>(i, fs). list_all frozen_ok fs \<and> distinct (map ff_format fs)) (os_formats src)
      \<and> os_fingerprint src = fingerprint_of en src)"

lemma open_source_results: "results (open_source en fs lib scratch b) (\<lambda>(src, _). source_ok en src)"
proof -
  have source: "source_ok en (src\<lparr>os_fingerprint := fingerprint_of en src\<rparr>)"
    if "list_all book_ok bs \<and> distinct (map fst bs)" "os_metadata src = map (\<lambda>(i, m, _). (i, m)) bs"
      "os_formats src = map (\<lambda>(i, _, fs). (i, fs)) bs" for bs src
    using that by (auto simp: source_ok_def fingerprint_of_def book_ok_def list_all_iff comp_def case_prod_unfold)
  have source': "source_ok en \<lparr>os_library_path = root, os_metadata = map (\<lambda>(i, m, _). (i, m)) bs, os_formats = map (\<lambda>(i, _, fs). (i, fs)) bs,
      os_metadata_sha256 = h, os_schema_signature = g, os_application_id = a, os_schema_version = v,
      os_fingerprint = fingerprint_of en \<lparr>os_library_path = root, os_metadata = map (\<lambda>(i, m, _). (i, m)) bs,
        os_formats = map (\<lambda>(i, _, fs). (i, fs)) bs, os_metadata_sha256 = h, os_schema_signature = g, os_application_id = a,
        os_schema_version = v, os_fingerprint = []\<rparr>\<rparr>" if "list_all book_ok bs" "distinct (map fst bs)" for bs root h g a v
    using source [of bs "\<lparr>os_library_path = root, os_metadata = map (\<lambda>(i, m, _). (i, m)) bs, os_formats = map (\<lambda>(i, _, fs). (i, fs)) bs,
      os_metadata_sha256 = h, os_schema_signature = g, os_application_id = a, os_schema_version = v, os_fingerprint = []\<rparr>"] that by simp
  have inventory: "results (inventory_source en fs root snapshot h) (source_ok en)" for root snapshot h
    unfolding inventory_source_def load_inventory_def Let_def
    by (rule results_thn, rule results_bnd, rule results_bnd, rule results_seq [OF load_books_results])
      (auto intro!: results_thn source' simp: results_simps)
  show ?thesis
    unfolding open_source_def Let_def
    by (auto simp: results_simps intro!: results_bnd results_thn results_try_else_seq [where Q = "source_ok en"] inventory)
qed

section \<open>The books of a source\<close>

lemma with_ids_ok: "list_all (\<lambda>(i, m). book_id_of m = Inr i) ms \<Longrightarrow> with_ids (map snd ms) = Inr ms"
  by (induction ms) auto

lemma source_books:
  assumes "source_ok en src"
  shows "with_ids (list_books src) = Inr (sort_key fst (os_metadata src))"
    "list_all (\<lambda>(i, m). book_id_of m = Inr i) (sort_key fst (os_metadata src))"
    "distinct (map fst (sort_key fst (os_metadata src)))"
proof -
  show ids: "list_all (\<lambda>(i, m). book_id_of m = Inr i) (sort_key fst (os_metadata src))"
    using assms by (auto simp: source_ok_def list_all_iff book_id_of_def py_int_of_def)
  then show "with_ids (list_books src) = Inr (sort_key fst (os_metadata src))"
    by (simp add: list_books_def with_ids_ok)
  show "distinct (map fst (sort_key fst (os_metadata src)))"
    using assms by (simp add: source_ok_def distinct_map inj_on_def)
qed

end
