(* ===== verification/CertLaws.thy ===== *)
theory CertLaws
  imports CertificateA
begin

text \<open>
  The laws of the fenced verification runs, for every interleaving of requests, cancellations, claims, heartbeats and store
  operations of any number of verifiers with any clock readings.
\<close>

section \<open>Rows and what an operation may do to them\<close>

definition certified :: "verification_run \<Rightarrow> bool" where
  "certified r = (vr_contract_version r = Some CERTIFICATE_A_CONTRACT_VERSION)"

text \<open>A run of this contract is open with an active status, or finished with a terminal status and no lease.\<close>

definition lifecycle :: "verification_run \<Rightarrow> bool" where
  "lifecycle r =
     (certified r \<longrightarrow>
       (vr_status r \<in> set ACTIVE_STATUSES \<and> vr_finished_at r = None)
       \<or> (vr_status r \<in> set TERMINAL_STATUSES \<and> vr_finished_at r \<noteq> None \<and> vr_lease_owner r = None \<and> vr_lease_expires_at r = None))"

definition evolves :: "verification_run \<Rightarrow> verification_run \<Rightarrow> bool" where
  "evolves r r' =
     (vr_id r' = vr_id r \<and> vr_run_id r' = vr_run_id r \<and> vr_contract_version r' = vr_contract_version r
      \<and> vr_idempotency_key r' = vr_idempotency_key r \<and> vr_source_root_sha256 r' = vr_source_root_sha256 r
      \<and> vr_fence_token r \<le> vr_fence_token r' \<and> (lifecycle r \<longrightarrow> lifecycle r')
      \<and> (certified r \<and> vr_finished_at r \<noteq> None \<longrightarrow> r' = r) \<and> (active_source r' \<longrightarrow> active_source r))"

text \<open>The counters of a run agree with its sealed results.\<close>

definition counts_exact :: "run_db \<Rightarrow> verification_run \<Rightarrow> bool" where
  "counts_exact d r =
     (let done = filter sealed_result (results_of (vr_run_id r) d) in
      vr_completed r = int (length done)
      \<and> (\<forall>s. (case dict_get (vr_counts r) s of Some n \<Rightarrow> n | None \<Rightarrow> 0) = int (length (filter (\<lambda>x. vx_state x = s) done))))"

definition result_keys_ok :: "verification_result list \<Rightarrow> bool" where
  "result_keys_ok xs = distinct (map (\<lambda>x. (vx_run_id x, vx_book_key x)) xs)"

definition runs_ok :: "run_db \<Rightarrow> bool" where
  "runs_ok d =
     (run_constraints (rd_runs d) \<and> distinct (map vr_id (rd_runs d)) \<and> list_all lifecycle (rd_runs d)
      \<and> result_keys_ok (rd_results d)
      \<and> list_all (\<lambda>r. certified r \<and> vr_finished_at r \<noteq> None \<longrightarrow> counts_exact d r) (rd_runs d))"

text \<open>What any operation does: rows evolve or one fresh row is added; the results of finished runs and every membership stay.\<close>

definition rows_evolve :: "run_db \<Rightarrow> run_db \<Rightarrow> bool" where
  "rows_evolve d d' = (\<exists>p f. rd_runs d' = row_map p f (rd_runs d) \<and> list_all (\<lambda>r. p r \<longrightarrow> evolves r (f r)) (rd_runs d))"

definition finished_run :: "string \<Rightarrow> run_db \<Rightarrow> bool" where
  "finished_run rid d = list_ex (\<lambda>r. vr_run_id r = rid \<and> certified r \<and> vr_finished_at r \<noteq> None) (rd_runs d)"

definition results_keep :: "run_db \<Rightarrow> run_db \<Rightarrow> bool" where
  "results_keep d d' =
     ((\<forall>rid. results_of rid d = [] \<or> map vx_book_key (results_of rid d') = map vx_book_key (results_of rid d))
      \<and> (\<forall>rid. finished_run rid d \<longrightarrow> results_of rid d' = results_of rid d))"

section \<open>Lemmas\<close>

lemma claimable_active: "CLAIMABLE_STATUSES = ACTIVE_STATUSES"
  by (simp add: CLAIMABLE_STATUSES_def ACTIVE_STATUSES_def)

lemma active_not_terminal: "s \<in> set ACTIVE_STATUSES \<Longrightarrow> s \<notin> set TERMINAL_STATUSES"
  by (auto simp: ACTIVE_STATUSES_def TERMINAL_STATUSES_def)

lemma evolves_refl [simp]: "evolves r r"
  by (simp add: evolves_def)

lemma evolves_trans: "evolves a b \<Longrightarrow> evolves b c \<Longrightarrow> evolves a c"
  unfolding evolves_def certified_def by (elim conjE) (intro conjI; simp)

text \<open>The two ways the code checks ownership agree.\<close>

lemma load_owned_run_eq:
  "load_owned_run c m d =
     (case find_run (cl_run_id c) d of
        Some run \<Rightarrow> if heartbeat_matches c m run then Inr run
          else Inl (LostVerifierLeaseError ''verifier lease or fence is no longer current'')
      | None \<Rightarrow> Inl (LostVerifierLeaseError ''verifier lease or fence is no longer current''))"
  by (auto simp: load_owned_run_def Let_def heartbeat_matches_def find_run_def not_le
      split: option.splits dest: row_first_Some)

lemma load_owned_run_Inr:
  "load_owned_run c m d = Inr run \<longleftrightarrow> find_run (cl_run_id c) d = Some run \<and> heartbeat_matches c m run"
  by (auto simp: load_owned_run_eq split: option.splits)

lemma store_run_Inr:
  "store_run c b m d = Inr run \<longleftrightarrow>
     find_run (cl_run_id c) d = Some run \<and> heartbeat_matches c m run
     \<and> (b \<or> vr_status run \<noteq> ''cancelling'' \<and> vr_cancel_requested_at run = None)"
  by (auto simp: store_run_def load_owned_run_eq split: option.splits)

lemma heartbeat_matchesD:
  assumes "heartbeat_matches c m run"
  shows "vr_run_id run = cl_run_id c" "certified run" "vr_fence_token run = cl_fence_token c" "vr_finished_at run = None"
    "vr_status run \<in> set ACTIVE_STATUSES" "vr_lease_owner run = Some (cl_owner c)" "active_source run"
  using assms by (auto simp: heartbeat_matches_def certified_def claimable_active active_source_def)

lemma find_runD: "find_run rid d = Some r \<Longrightarrow> r \<in> set (rd_runs d) \<and> vr_run_id r = rid"
  unfolding find_run_def by (drule row_first_Some) simp

lemma run_unique:
  assumes "runs_ok d" "r \<in> set (rd_runs d)" "s \<in> set (rd_runs d)" "vr_run_id r = vr_run_id s"
  shows "r = s"
  using assms by (auto simp: runs_ok_def run_constraints_def distinct_map inj_on_def)

lemma find_run_in:
  assumes "runs_ok d" "r \<in> set (rd_runs d)"
  shows "find_run (vr_run_id r) d = Some r"
proof (cases "find_run (vr_run_id r) d")
  case None
  then show ?thesis using assms(2) by (auto simp: find_run_def row_first_None)
next
  case (Some s)
  from find_runD [OF Some] run_unique [OF assms, of s] have "r = s" by simp
  with Some show ?thesis by simp
qed

lemma distinct_filter_map:
  assumes "distinct (filter P (map g (filter A xs)))" "list_all (\<lambda>x. g (h x) = g x \<and> (A (h x) \<longrightarrow> A x)) xs"
  shows "distinct (filter P (map g (filter A (map h xs)))) \<and> set (filter P (map g (filter A (map h xs)))) \<subseteq> set (filter P (map g (filter A xs)))"
  using assms
proof (induction xs)
  case (Cons x xs)
  then have "distinct (filter P (map g (filter A (map h xs))))"
    "set (filter P (map g (filter A (map h xs)))) \<subseteq> set (filter P (map g (filter A xs)))"
    by (auto split: if_splits)
  moreover have "g (h x) = g x" "A (h x) \<longrightarrow> A x" using Cons.prems(2) by simp_all
  moreover have "A x \<and> P (g x) \<longrightarrow> g x \<notin> set (filter P (map g (filter A xs)))" using Cons.prems(1) by auto
  ultimately show ?case by (cases "A x"; cases "A (h x)"; cases "P (g x)") (simp_all, blast+)
qed simp

lemma run_constraints_map:
  assumes "run_constraints rs" "list_all (\<lambda>r. evolves r (h r)) rs"
  shows "run_constraints (map h rs)"
proof -
  have "map vr_run_id (map h rs) = map vr_run_id rs" "map vr_idempotency_key (map h rs) = map vr_idempotency_key rs"
    using assms(2) by (auto simp: list_all_iff evolves_def)
  moreover have "list_all (\<lambda>r. 0 \<le> vr_fence_token r) (map h rs)"
    using assms by (fastforce simp: run_constraints_def list_all_iff evolves_def)
  moreover have "distinct (filter (\<lambda>k. k \<noteq> None) (map vr_source_root_sha256 (filter active_source (map h rs))))"
    by (rule distinct_filter_map [THEN conjunct1])
      (use assms in \<open>auto simp: run_constraints_def list_all_iff evolves_def\<close>)
  ultimately show ?thesis using assms(1) by (simp only: run_constraints_def)
qed

lemma rows_evolveE:
  assumes "rows_evolve d d'"
  obtains h where "rd_runs d' = map h (rd_runs d)" "list_all (\<lambda>r. evolves r (h r)) (rd_runs d)"
proof -
  from assms obtain p f where pf: "rd_runs d' = row_map p f (rd_runs d)" "list_all (\<lambda>r. p r \<longrightarrow> evolves r (f r)) (rd_runs d)"
    by (auto simp: rows_evolve_def)
  have "list_all (\<lambda>r. evolves r (if p r then f r else r)) (rd_runs d)" using pf(2) by (auto simp: list_all_iff)
  with pf(1) show ?thesis by (intro that [of "\<lambda>r. if p r then f r else r"]) (simp_all add: row_map_def)
qed

lemma rows_evolve_find:
  assumes "rows_evolve d d'" "find_run rid d = Some r"
  shows "\<exists>r'. find_run rid d' = Some r' \<and> evolves r r'"
proof -
  obtain h where h: "rd_runs d' = map h (rd_runs d)" "list_all (\<lambda>r. evolves r (h r)) (rd_runs d)"
    by (rule rows_evolveE [OF assms(1)])
  have "row_first (\<lambda>r. vr_run_id r = rid) (map h rs) = map_option h (row_first (\<lambda>r. vr_run_id r = rid) rs)"
    if "list_all (\<lambda>r. evolves r (h r)) rs" for rs
    using that by (induction rs) (auto simp: row_first_def evolves_def)
  with h assms(2) find_runD [OF assms(2)] show ?thesis by (auto simp: find_run_def list_all_iff)
qed

lemma results_keep_refl [simp]: "results_keep d d"
  by (simp add: results_keep_def)

lemma rows_evolve_refl [simp]: "rows_evolve d d"
  by (auto simp: rows_evolve_def row_map_def list_all_iff intro!: exI [of _ "\<lambda>_. False"])

lemma rows_evolveI:
  "rd_runs d' = row_map p f (rd_runs d) \<Longrightarrow> (\<And>r. r \<in> set (rd_runs d) \<Longrightarrow> p r \<Longrightarrow> evolves r (f r)) \<Longrightarrow> rows_evolve d d'"
  unfolding rows_evolve_def list_all_iff by blast

lemma results_of_cong: "rd_results d' = rd_results d \<Longrightarrow> results_of rid d' = results_of rid d"
  by (simp add: results_of_def)

lemma results_keep_same: "rd_results d' = rd_results d \<Longrightarrow> results_keep d d'"
  by (simp add: results_keep_def results_of_def)

lemma counts_exact_cong: "results_of (vr_run_id r) d' = results_of (vr_run_id r) d \<Longrightarrow> counts_exact d' r = counts_exact d r"
  by (simp add: counts_exact_def)

text \<open>An operation that changes rows in this way and finishes none keeps the invariant.\<close>

lemma runs_ok_evolve:
  assumes "runs_ok d" "rows_evolve d d'" "results_keep d d'" "result_keys_ok (rd_results d')"
    and "\<And>r'. r' \<in> set (rd_runs d') \<Longrightarrow> certified r' \<Longrightarrow> vr_finished_at r' \<noteq> None
      \<Longrightarrow> finished_run (vr_run_id r') d \<or> counts_exact d' r'"
  shows "runs_ok d'"
proof -
  obtain h where h: "rd_runs d' = map h (rd_runs d)" "list_all (\<lambda>r. evolves r (h r)) (rd_runs d)"
    by (rule rows_evolveE [OF assms(2)])
  have "run_constraints (rd_runs d')" using run_constraints_map [OF _ h(2)] assms(1) by (simp add: runs_ok_def h(1))
  moreover have "distinct (map vr_id (rd_runs d'))"
  proof -
    have "map vr_id (rd_runs d') = map vr_id (rd_runs d)" using h(2) by (auto simp: h(1) list_all_iff evolves_def)
    with assms(1) show ?thesis by (simp only: runs_ok_def)
  qed
  moreover have "list_all lifecycle (rd_runs d')" using h assms(1) by (auto simp: runs_ok_def list_all_iff evolves_def)
  moreover have "counts_exact d' r'" if r': "r' \<in> set (rd_runs d')" "certified r'" "vr_finished_at r' \<noteq> None" for r'
  proof (cases "finished_run (vr_run_id r') d")
    case True
    then obtain s where s: "s \<in> set (rd_runs d)" "vr_run_id s = vr_run_id r'" "certified s" "vr_finished_at s \<noteq> None"
      by (auto simp: finished_run_def list_ex_iff)
    obtain r where r: "r \<in> set (rd_runs d)" "r' = h r" using r'(1) h(1) by auto
    with h(2) have ev: "evolves r r'" by (auto simp: list_all_iff)
    with s(2) have "s = r" using run_unique [OF assms(1) s(1) r(1)] by (simp add: evolves_def)
    with ev s have "r' = s" by (simp add: evolves_def)
    with s assms(1) have "counts_exact d r'" by (simp add: runs_ok_def list_all_iff)
    moreover have "results_of (vr_run_id r') d' = results_of (vr_run_id r') d"
      using assms(3) True by (auto simp: results_keep_def)
    ultimately show ?thesis using counts_exact_cong [of r' d' d] by blast
  next
    case False
    with assms(5) [OF r'] show ?thesis by blast
  qed
  moreover have "list_all (\<lambda>r. certified r \<and> vr_finished_at r \<noteq> None \<longrightarrow> counts_exact d' r) (rd_runs d')"
    unfolding list_all_iff using calculation(4) by simp
  ultimately show ?thesis unfolding runs_ok_def [of d'] using assms(4) by (intro conjI)
qed

section \<open>The operations\<close>

text \<open>Every operation of the store but a successful one leaves the tables alone; a successful one owned the run.\<close>

definition op_sound :: "run_db \<Rightarrow> run_db \<Rightarrow> bool" where
  "op_sound d d' = (runs_ok d' \<and> rows_evolve d d' \<and> results_keep d d')"

lemma op_sound_refl: "runs_ok d \<Longrightarrow> op_sound d d"
  by (simp add: op_sound_def)

lemma evolves_row:
  assumes "certified r" "vr_finished_at r = None" "vr_status r \<in> set ACTIVE_STATUSES"
    "vr_id r' = vr_id r" "vr_run_id r' = vr_run_id r" "vr_contract_version r' = vr_contract_version r"
    "vr_idempotency_key r' = vr_idempotency_key r" "vr_source_root_sha256 r' = vr_source_root_sha256 r"
    "vr_fence_token r \<le> vr_fence_token r'"
    "(vr_status r' \<in> set ACTIVE_STATUSES \<and> vr_finished_at r' = None)
       \<or> (vr_status r' \<in> set TERMINAL_STATUSES \<and> vr_finished_at r' \<noteq> None \<and> vr_lease_owner r' = None \<and> vr_lease_expires_at r' = None)"
  shows "evolves r r'"
  using assms by (auto simp: evolves_def lifecycle_def certified_def active_source_def)

lemma claim_cases:
  assumes "claim_next_certificate_a_run owner m ttl rid d = (res, d')"
  obtains (none) "d' = d" "\<And>c. res \<noteq> Inr (Some c)"
  | (some) run where "claim_candidate m rid d = Some run"
      "res = Inr (Some \<lparr>cl_run_id = vr_run_id run, cl_owner = owner, cl_fence_token = vr_fence_token run + 1\<rparr>)"
      "d' = d\<lparr>rd_runs := row_map (\<lambda>r. vr_id r = vr_id run \<and> claim_predicate m r)
         (claimed_run owner m (m + seconds (max 3 ttl))) (rd_runs d)\<rparr>"
proof (cases "owner = [] \<or> 128 < int (length owner)")
  case True
  with assms show ?thesis by (intro none) (auto simp: claim_next_certificate_a_run_def)
next
  case False
  show ?thesis
  proof (cases "claim_candidate m rid d")
    case None
    with False assms show ?thesis by (intro none) (auto simp: claim_next_certificate_a_run_def Let_def)
  next
    case (Some run)
    with False assms show ?thesis by (intro some [OF Some]) (auto simp: claim_next_certificate_a_run_def Let_def)
  qed
qed

lemma run_claim_sound:
  assumes "runs_ok d" "claim_next_certificate_a_run owner m ttl rid d = (res, d')"
  shows "op_sound d d'"
  using assms(2)
proof (cases rule: claim_cases)
  case none
  with assms(1) show ?thesis by (simp add: op_sound_refl)
next
  case (some run)
  let ?expires = "m + seconds (max 3 ttl)"
  note d' = some(3)
  have "rows_evolve d d'"
    by (rule rows_evolveI [of _ "\<lambda>r. vr_id r = vr_id run \<and> claim_predicate m r" "claimed_run owner m ?expires"])
      (auto simp: d' claim_predicate_def certified_def claimed_run_def claimable_active ACTIVE_STATUSES_def intro!: evolves_row)
  moreover have "results_keep d d'" by (simp add: d' results_keep_same)
  moreover have "runs_ok d'"
  proof (rule runs_ok_evolve [OF assms(1) calculation])
    show "result_keys_ok (rd_results d')" using assms(1) by (simp add: d' runs_ok_def)
    show "finished_run (vr_run_id r') d \<or> counts_exact d' r'"
      if "r' \<in> set (rd_runs d')" "certified r'" "vr_finished_at r' \<noteq> None" for r'
      using that by (auto simp: d' set_row_map finished_run_def list_ex_iff claim_predicate_def claimed_run_def split: if_splits)
  qed
  ultimately show ?thesis by (simp add: op_sound_def)
qed

lemma heartbeat_sound:
  assumes "runs_ok d"
  shows "op_sound d (snd (heartbeat_certificate_a_run c m ttl d))"
proof -
  let ?f = "\<lambda>r. r\<lparr>vr_lease_expires_at := Some (m + seconds (max 3 ttl)), vr_heartbeat_at := Some m\<rparr>"
  let ?d = "d\<lparr>rd_runs := row_map (heartbeat_matches c m) ?f (rd_runs d)\<rparr>"
  have d': "snd (heartbeat_certificate_a_run c m ttl d) = ?d" by (simp add: heartbeat_certificate_a_run_def Let_def)
  have "rows_evolve d ?d"
    by (rule rows_evolveI [of _ "heartbeat_matches c m" ?f]) (auto dest: heartbeat_matchesD intro!: evolves_row)
  moreover have "results_keep d ?d" by (simp add: results_keep_same)
  moreover have "runs_ok ?d"
  proof (rule runs_ok_evolve [OF assms calculation])
    show "result_keys_ok (rd_results ?d)" using assms by (simp add: runs_ok_def)
    show "finished_run (vr_run_id r') d \<or> counts_exact ?d r'"
      if "r' \<in> set (rd_runs ?d)" "certified r'" "vr_finished_at r' \<noteq> None" for r'
      using that by (auto simp: set_row_map finished_run_def list_ex_iff certified_def dest: heartbeat_matchesD split: if_splits)
  qed
  ultimately show ?thesis by (simp add: op_sound_def d')
qed

lemma cancel_sound:
  assumes "runs_ok d"
  shows "op_sound d (snd (cancel_run rid m d))"
proof (cases "length (filter (cancellable rid) (rd_runs d)) = 1")
  case True
  let ?f = "\<lambda>r. r\<lparr>vr_status := ''cancelling'',
     vr_cancel_requested_at := (case vr_cancel_requested_at r of Some t \<Rightarrow> Some t | None \<Rightarrow> Some m)\<rparr>"
  let ?d = "d\<lparr>rd_runs := row_map (cancellable rid) ?f (rd_runs d)\<rparr>"
  have d': "snd (cancel_run rid m d) = ?d" using True by (simp add: cancel_run_def Let_def)
  have "rows_evolve d ?d"
    by (rule rows_evolveI [of _ "cancellable rid" ?f])
      (auto simp: cancellable_def certified_def ACTIVE_STATUSES_def intro!: evolves_row)
  moreover have "results_keep d ?d" by (simp add: results_keep_same)
  moreover have "runs_ok ?d"
  proof (rule runs_ok_evolve [OF assms calculation])
    show "result_keys_ok (rd_results ?d)" using assms by (simp add: runs_ok_def)
    show "finished_run (vr_run_id r') d \<or> counts_exact ?d r'"
      if "r' \<in> set (rd_runs ?d)" "certified r'" "vr_finished_at r' \<noteq> None" for r'
      using that by (auto simp: set_row_map finished_run_def list_ex_iff cancellable_def certified_def split: if_splits)
  qed
  ultimately show ?thesis by (simp add: op_sound_def d')
next
  case False
  then have "snd (cancel_run rid m d) = d" by (auto simp: cancel_run_def split: sum.splits)
  with assms show ?thesis by (simp add: op_sound_refl)
qed

text \<open>Operations of the store work on one open run, which they change with \<open>f\<close>, and on its results.\<close>

lemma open_run_sound:
  assumes "runs_ok d" "find_run rid d = Some run" "vr_finished_at run = None" "certified run"
    and rows: "rd_runs d' = row_map (\<lambda>r. vr_run_id r = rid) f (rd_runs d)" "evolves run (f run)"
    and others: "filter (\<lambda>x. vx_run_id x \<noteq> rid) (rd_results d') = filter (\<lambda>x. vx_run_id x \<noteq> rid) (rd_results d)"
    and keys: "results_of rid d = [] \<or> map vx_book_key (results_of rid d') = map vx_book_key (results_of rid d)"
      "result_keys_ok (rd_results d')"
    and counts: "vr_finished_at (f run) \<noteq> None \<Longrightarrow> counts_exact d' (f run)"
  shows "op_sound d d'"
proof -
  have run: "run \<in> set (rd_runs d)" "vr_run_id run = rid" using find_runD [OF assms(2)] by auto
  have only: "r = run" if "r \<in> set (rd_runs d)" "vr_run_id r = rid" for r
    using run_unique [OF assms(1) that(1) run(1)] that(2) run(2) by simp
  have ev: "rows_evolve d d'" by (rule rows_evolveI [OF rows(1)]) (use only rows(2) in blast)
  have other: "results_of rid' d' = results_of rid' d" if "rid' \<noteq> rid" for rid'
  proof -
    have "results_of rid' t = filter (\<lambda>x. vx_run_id x = rid') (filter (\<lambda>x. vx_run_id x \<noteq> rid) (rd_results t))" for t
      using that by (auto simp: results_of_def intro: filter_cong)
    then show ?thesis by (simp only: others)
  qed
  have "\<not> finished_run rid d" using only assms(3) by (auto simp: finished_run_def list_ex_iff)
  then have keep: "results_keep d d'" using other keys(1) unfolding results_keep_def by (metis (mono_tags, lifting))
  have "runs_ok d'"
  proof (rule runs_ok_evolve [OF assms(1) ev keep keys(2)])
    fix r' assume r': "r' \<in> set (rd_runs d')" "certified r'" "vr_finished_at r' \<noteq> None"
    then obtain r where r: "r \<in> set (rd_runs d)" "r' = (if vr_run_id r = rid then f r else r)" by (auto simp: rows(1) set_row_map)
    show "finished_run (vr_run_id r') d \<or> counts_exact d' r'"
    proof (cases "vr_run_id r = rid")
      case True
      with r only counts r'(3) show ?thesis by auto
    next
      case False
      with r r' show ?thesis by (auto simp: finished_run_def list_ex_iff)
    qed
  qed
  with ev keep show ?thesis by (simp add: op_sound_def)
qed

lemma row_map_id: "row_map p (\<lambda>r. r) xs = xs"
  by (simp add: row_map_def)

lemma filter_row_map_other: "(\<And>x. p x \<Longrightarrow> \<not> q x) \<Longrightarrow> (\<And>x. p x \<Longrightarrow> \<not> q (f x)) \<Longrightarrow> filter q (row_map p f xs) = filter q xs"
  unfolding row_map_def by (induction xs) auto

lemma upd_result_keeps:
  assumes "\<And>x. vx_run_id (f x) = vx_run_id x" "\<And>x. vx_book_key (f x) = vx_book_key x"
  shows "filter (\<lambda>x. vx_run_id x \<noteq> rid) (rd_results (upd_result rid k f d)) = filter (\<lambda>x. vx_run_id x \<noteq> rid) (rd_results d)"
    "map vx_book_key (results_of rid (upd_result rid k f d)) = map vx_book_key (results_of rid d)"
    "result_keys_ok (rd_results (upd_result rid k f d)) = result_keys_ok (rd_results d)"
    "rd_runs (upd_result rid k f d) = rd_runs d"
proof -
  show "filter (\<lambda>x. vx_run_id x \<noteq> rid) (rd_results (upd_result rid k f d)) = filter (\<lambda>x. vx_run_id x \<noteq> rid) (rd_results d)"
    unfolding upd_result_def by (simp, rule filter_row_map_other) (auto simp: assms(1))
  have "map vx_book_key (filter (\<lambda>x. vx_run_id x = rid) (row_map p f xs)) = map vx_book_key (filter (\<lambda>x. vx_run_id x = rid) xs)" for p xs
    using assms unfolding row_map_def by (induction xs) auto
  then show "map vx_book_key (results_of rid (upd_result rid k f d)) = map vx_book_key (results_of rid d)"
    by (simp add: results_of_def upd_result_def)
  have "map (\<lambda>x. (vx_run_id x, vx_book_key x)) (row_map p f xs) = map (\<lambda>x. (vx_run_id x, vx_book_key x)) xs" for p xs
    using assms by (simp add: row_map_def)
  then show "result_keys_ok (rd_results (upd_result rid k f d)) = result_keys_ok (rd_results d)"
    by (simp add: result_keys_ok_def upd_result_def)
qed (simp add: upd_result_def)

lemma pending_results_append:
  "\<exists>ns. pending_results rid now us keys rows = rows @ ns \<and> map vx_book_key ns = keys \<and> list_all (\<lambda>x. vx_run_id x = rid) ns"
proof (induction keys arbitrary: us rows)
  case (Cons k ks)
  let ?n = "\<lparr>vx_id = next_id (map vx_id rows), vx_result_id = (case us of u # _ \<Rightarrow> u | [] \<Rightarrow> []), vx_run_id = rid,
          vx_book_key = k, vx_verdict = [], vx_evidence_id = None, vx_state = ''pending'', vx_created_at = now\<rparr>"
  from Cons.IH [of "tl us" "rows @ [?n]"] obtain ns where
    ns: "pending_results rid now (tl us) ks (rows @ [?n]) = (rows @ [?n]) @ ns" "map vx_book_key ns = ks"
      "list_all (\<lambda>x. vx_run_id x = rid) ns" by blast
  show ?case by (rule exI [of _ "?n # ns"]) (use ns in simp)
qed simp

lemma count_foldl:
  "(case dict_get (foldl (\<lambda>counts x. count_state (vx_state x) counts) c0 xs) s of Some n \<Rightarrow> n | None \<Rightarrow> 0)
     = (case dict_get c0 s of Some n \<Rightarrow> n | None \<Rightarrow> 0) + int (length (filter (\<lambda>x. vx_state x = s) xs))"
  by (induction xs arbitrary: c0) (auto simp: count_state_def dict_get_set split: option.splits)

lemma refreshed_exact:
  assumes "vr_run_id r = rid" "vr_completed r = int (length (filter sealed_result (results_of rid d)))"
    "vr_counts r = foldl (\<lambda>counts x. count_state (vx_state x) counts) [] (filter sealed_result (results_of rid d))"
  shows "counts_exact d r"
  using assms by (simp add: counts_exact_def Let_def count_foldl dict_get_Nil)

lemma upd_run_twice: "(\<And>r. vr_run_id (f r) = vr_run_id r) \<Longrightarrow> upd_run rid g (upd_run rid f d) = upd_run rid (\<lambda>r. g (f r)) d"
  by (simp add: upd_run_def row_map_def)

lemma upd_run_simps [simp]:
  "rd_results (upd_run rid f d) = rd_results d" "results_of k (upd_run rid f d) = results_of k d"
  "rd_runs (upd_run rid f d) = row_map (\<lambda>r. vr_run_id r = rid) f (rd_runs d)"
  by (simp_all add: upd_run_def results_of_def)

lemma inventory_sound:
  assumes "runs_ok d"
  shows "op_sound d (snd (store_inventory c keys snap m1 m2 us d))"
proof (cases "snd (store_inventory c keys snap m1 m2 us d) = d")
  case True
  with assms show ?thesis by (simp add: op_sound_refl)
next
  case False
  let ?rid = "cl_run_id c"
  let ?rows = "if map vx_book_key (results_of ?rid d) = [] then pending_results ?rid m2 us keys (rd_results d) else rd_results d"
  let ?f = "\<lambda>r. r\<lparr>vr_source_snapshot := Some snap, vr_total := int (length keys),
    vr_inventory_finished_at := (case vr_inventory_finished_at r of Some t \<Rightarrow> Some t | None \<Rightarrow> Some m2), vr_status := ''running''\<rparr>"
  let ?d = "upd_run ?rid ?f (d\<lparr>rd_results := ?rows\<rparr>)"
  from False obtain run where run: "store_run c False m1 d = Inr run" and keys: "distinct keys"
    and d': "snd (store_inventory c keys snap m1 m2 us d) = ?d"
    unfolding store_inventory_def Let_def
    by (cases "store_run c False m1 d") (auto split: if_splits option.splits)
  note own = run [unfolded store_run_Inr] and live = heartbeat_matchesD
  have hb: "heartbeat_matches c m1 run" "find_run ?rid d = Some run" using own by auto
  obtain ns where ns: "pending_results ?rid m2 us keys (rd_results d) = rd_results d @ ns" "map vx_book_key ns = keys"
      "list_all (\<lambda>x. vx_run_id x = ?rid) ns" using pending_results_append by blast
  have "op_sound d ?d"
  proof (rule open_run_sound [OF assms hb(2), of _ ?f])
    show "vr_finished_at run = None" "certified run" using live [OF hb(1)] by auto
    show "rd_runs ?d = row_map (\<lambda>r. vr_run_id r = ?rid) ?f (rd_runs d)" by simp
    show "evolves run (?f run)" using live [OF hb(1)] by (intro evolves_row) (auto simp: ACTIVE_STATUSES_def)
    show "filter (\<lambda>x. vx_run_id x \<noteq> ?rid) (rd_results ?d) = filter (\<lambda>x. vx_run_id x \<noteq> ?rid) (rd_results d)"
      using ns by (simp add: list_all_iff)
    show "results_of ?rid d = [] \<or> map vx_book_key (results_of ?rid ?d) = map vx_book_key (results_of ?rid d)"
      by (simp add: results_of_def)
    show "result_keys_ok (rd_results ?d)"
    proof (cases "results_of ?rid d = []")
      case True
      have k: "map (\<lambda>x. (vx_run_id x, vx_book_key x)) ns = map (Pair ?rid) (map vx_book_key ns)"
        using ns(3) by (auto simp: list_all_iff)
      have "distinct (map (\<lambda>x. (vx_run_id x, vx_book_key x)) ns)"
        unfolding k ns(2) using keys by (simp add: distinct_map inj_on_def)
      moreover have "\<forall>x\<in>set (rd_results d). vx_run_id x \<noteq> ?rid" using True by (auto simp: results_of_def filter_empty_conv)
      ultimately show ?thesis using assms ns(1,3) True by (auto simp: result_keys_ok_def runs_ok_def list_all_iff)
    next
      case False
      with assms show ?thesis by (simp add: runs_ok_def)
    qed
    show "counts_exact ?d (?f run)" if "vr_finished_at (?f run) \<noteq> None" using that live(4) [OF hb(1)] by simp
  qed
  then show ?thesis by (simp only: d')
qed

lemma record_state_sound:
  assumes "runs_ok d"
  shows "op_sound d (snd (store_record_state c k s m d))"
proof (cases "snd (store_record_state c k s m d) = d")
  case True
  with assms show ?thesis by (simp add: op_sound_refl)
next
  case False
  let ?rid = "cl_run_id c" and ?g = "\<lambda>x. x\<lparr>vx_state := state_text s\<rparr>"
  let ?d = "upd_result ?rid k ?g d"
  from False obtain run where run: "store_run c False m d = Inr run" and d': "snd (store_record_state c k s m d) = ?d"
    unfolding store_record_state_def by (auto split: sum.splits)
  have hb: "heartbeat_matches c m run" "find_run ?rid d = Some run" using run [unfolded store_run_Inr] by auto
  have "op_sound d ?d"
    by (rule open_run_sound [OF assms hb(2), of _ "\<lambda>r. r"])
      (use heartbeat_matchesD [OF hb(1)] assms in \<open>auto simp: upd_result_keeps row_map_id runs_ok_def\<close>)
  then show ?thesis by (simp only: d')
qed

lemma record_package_sound:
  assumes "runs_ok d"
  shows "op_sound d (snd (store_record_package en c p m1 m2 d))"
proof (cases "snd (store_record_package en c p m1 m2 d) = d")
  case True
  with assms show ?thesis by (simp add: op_sound_refl)
next
  case False
  let ?rid = "cl_run_id c"
  let ?g = "\<lambda>x. x\<lparr>vx_evidence_id := Some (pk_evidence_id p), vx_state := state_text (pk_state p), vx_verdict := package_verdict p\<rparr>"
  from False obtain run main where run: "store_run c True m1 d = Inr run"
    and d': "snd (store_record_package en c p m1 m2 d) = refresh_counts ?rid (upd_result ?rid (pk_book_key p) ?g (d\<lparr>rd_main := main\<rparr>))"
    unfolding store_record_package_def Let_def by (auto split: if_splits sum.splits bool.splits)
  let ?d1 = "upd_result ?rid (pk_book_key p) ?g (d\<lparr>rd_main := main\<rparr>)"
  let ?f = "\<lambda>r. r\<lparr>vr_completed := int (length (filter sealed_result (results_of ?rid ?d1))),
     vr_counts := foldl (\<lambda>counts x. count_state (vx_state x) counts) [] (filter sealed_result (results_of ?rid ?d1))\<rparr>"
  have hb: "heartbeat_matches c m1 run" "find_run ?rid d = Some run" using run [unfolded store_run_Inr] by auto
  have same: "results_of ?rid (d\<lparr>rd_main := main\<rparr>) = results_of ?rid d" by (simp add: results_of_def)
  have "op_sound d (upd_run ?rid ?f ?d1)"
  proof (rule open_run_sound [OF assms hb(2), of _ ?f])
    show "evolves run (?f run)" using heartbeat_matchesD [OF hb(1)] by (intro evolves_row) auto
  qed (use heartbeat_matchesD [OF hb(1)] assms same in \<open>auto simp: upd_result_keeps runs_ok_def\<close>)
  then show ?thesis by (simp only: d' refresh_counts_def Let_def)
qed

lemma finish_sound:
  assumes "runs_ok d"
  shows "op_sound d (snd (store_finish c status err m1 m2 d))"
proof (cases "snd (store_finish c status err m1 m2 d) = d")
  case True
  with assms show ?thesis by (simp add: op_sound_refl)
next
  case False
  let ?rid = "cl_run_id c"
  let ?g = "\<lambda>r. r\<lparr>vr_completed := int (length (filter sealed_result (results_of ?rid d))),
     vr_counts := foldl (\<lambda>counts x. count_state (vx_state x) counts) [] (filter sealed_result (results_of ?rid d))\<rparr>"
  let ?f = "\<lambda>r. (?g r)\<lparr>vr_status := status, vr_error_code := err, vr_finished_at := Some m2, vr_lease_owner := None,
     vr_lease_expires_at := None\<rparr>"
  from False obtain run where run: "store_run c True m1 d = Inr run" and st: "status \<in> set TERMINAL_STATUSES"
    and d': "snd (store_finish c status err m1 m2 d) = upd_run ?rid ?f d"
    unfolding store_finish_def by (auto simp: refresh_counts_def Let_def upd_run_twice split: if_splits sum.splits)
  have hb: "heartbeat_matches c m1 run" "find_run ?rid d = Some run" using run [unfolded store_run_Inr] by auto
  have "op_sound d (upd_run ?rid ?f d)"
  proof (rule open_run_sound [OF assms hb(2), of _ ?f])
    show "evolves run (?f run)" using heartbeat_matchesD [OF hb(1)] st by (intro evolves_row) auto
    show "counts_exact (upd_run ?rid ?f d) (?f run)"
      by (rule refreshed_exact [of _ ?rid]) (simp_all add: heartbeat_matchesD(1) [OF hb(1)])
  qed (use heartbeat_matchesD [OF hb(1)] assms in \<open>auto simp: runs_ok_def\<close>)
  then show ?thesis by (simp only: d')
qed

section \<open>Steps\<close>

definition step_ok :: "run_db \<Rightarrow> run_db \<Rightarrow> bool" where
  "step_ok d d' =
     ((\<forall>rid r. find_run rid d = Some r \<longrightarrow> (\<exists>r'. find_run rid d' = Some r' \<and> evolves r r')) \<and> results_keep d d')"

lemma op_sound_step: "op_sound d d' \<Longrightarrow> runs_ok d' \<and> step_ok d d'"
  by (auto simp: op_sound_def step_ok_def dest: rows_evolve_find)

lemma find_run_append: "find_run rid d = Some r \<Longrightarrow> rd_runs d' = rd_runs d @ rs \<Longrightarrow> find_run rid d' = Some r"
proof -
  have "List.find p (xs @ ys) = Some x" if "List.find p xs = Some x" for p xs ys and x :: verification_run
    using that by (induction xs) auto
  then show "find_run rid d = Some r \<Longrightarrow> rd_runs d' = rd_runs d @ rs \<Longrightarrow> find_run rid d' = Some r"
    by (simp add: find_run_def row_first_def)
qed

lemma add_run_sound:
  assumes "runs_ok d" "add_run r d = Inr d'" "lifecycle r" "vr_finished_at r = None" "vr_id r = next_id (map vr_id (rd_runs d))"
  shows "runs_ok d' \<and> step_ok d d'"
proof -
  have c: "run_constraints (rd_runs d @ [r])" "d' = d\<lparr>rd_runs := rd_runs d @ [r]\<rparr>"
    using assms(2) by (auto simp: add_run_def split: if_splits)
  have res: "results_of k d' = results_of k d" for k by (simp add: c(2) results_of_def)
  have "counts_exact d' x" if "counts_exact d x" for x using that counts_exact_cong [OF res] by simp
  moreover have "vr_id r \<notin> set (map vr_id (rd_runs d))" using next_id_fresh [of "map vr_id (rd_runs d)"] assms(5) by (simp del: set_map)
  ultimately have "runs_ok d'"
    using assms(1,3,4) c unfolding runs_ok_def by (auto simp: list_all_iff)
  moreover have "\<exists>r'. find_run k d' = Some r' \<and> evolves x r'" if "find_run k d = Some x" for k x
    using find_run_append [OF that, of d' "[r]"] by (simp add: c(2))
  moreover have "results_keep d d'" by (simp add: results_keep_def res)
  ultimately show ?thesis by (simp add: step_ok_def)
qed

lemma start_sound:
  assumes "runs_ok d"
  shows "runs_ok (snd (start_verification en st rq key u now seen d)) \<and> step_ok d (snd (start_verification en st rq key u now seen d))"
proof (cases "snd (start_verification en st rq key u now seen d) = d")
  case True
  with assms show ?thesis by (simp add: step_ok_def)
next
  case False
  then obtain source_root d' where d': "snd (start_verification en st rq key u now seen d) = d'"
      "add_run (new_run en st rq (next_id (map vr_id (rd_runs d))) u now key source_root) d = Inr d'"
    unfolding start_verification_def Let_def by (auto split: if_splits option.splits sum.splits)
  show ?thesis unfolding d'(1)
    by (rule add_run_sound [OF assms d'(2)]) (simp_all add: new_run_def lifecycle_def ACTIVE_STATUSES_def)
qed

text \<open>
  A step: any request or store operation by anyone, whatever claim it presents and whatever time its clock shows.
\<close>

inductive cert_step :: "env \<Rightarrow> run_db \<Rightarrow> run_db \<Rightarrow> bool" for en where
  start: "cert_step en d (snd (start_verification en st rq key u now seen d))"
| cancel: "cert_step en d (snd (cancel_run rid m d))"
| claim: "cert_step en d (snd (claim_next_certificate_a_run owner m ttl rid' d))"
| heartbeat: "cert_step en d (snd (heartbeat_certificate_a_run c m ttl d))"
| inventory: "cert_step en d (snd (store_inventory c keys snap m1 m2 us d))"
| record_state: "cert_step en d (snd (store_record_state c k s m d))"
| record_package: "cert_step en d (snd (store_record_package en c p m1 m2 d))"
| finish: "cert_step en d (snd (store_finish c status err m1 m2 d))"

lemma cert_step_sound: "cert_step en d d' \<Longrightarrow> runs_ok d \<Longrightarrow> runs_ok d' \<and> step_ok d d'"
proof (induction rule: cert_step.induct)
  case (claim d owner m ttl rid')
  then show ?case using run_claim_sound [OF _ surjective_pairing] op_sound_step by blast
qed (rule start_sound op_sound_step cancel_sound heartbeat_sound inventory_sound record_state_sound record_package_sound
    finish_sound; assumption?)+

abbreviation fence_of :: "run_db \<Rightarrow> string \<Rightarrow> int option" where
  "fence_of d rid \<equiv> map_option vr_fence_token (find_run rid d)"

interpretation cert: fenced_system "cert_step en" runs_ok fence_of
proof unfold_locales
  fix d d' assume "runs_ok d" "cert_step en d d'"
  then show "runs_ok d'" by (blast dest: cert_step_sound)
next
  fix d d' k n assume "runs_ok d" "cert_step en d d'" "fence_of d k = Some n"
  then show "\<exists>m. fence_of d' k = Some m \<and> n \<le> m"
    by (fastforce dest: cert_step_sound simp: step_ok_def evolves_def)
qed

text \<open>What any number of steps keeps: rows evolve, memberships and finished runs stay.\<close>

lemma finished_run_find:
  assumes "runs_ok d"
  shows "finished_run rid d \<longleftrightarrow> (\<exists>r. find_run rid d = Some r \<and> certified r \<and> vr_finished_at r \<noteq> None)"
  using find_run_in [OF assms] find_runD [of rid d] by (auto simp: finished_run_def list_ex_iff)

definition keeps :: "run_db \<Rightarrow> run_db \<Rightarrow> bool" where
  "keeps d d' =
     (runs_ok d \<longrightarrow> runs_ok d' \<and> step_ok d d')"

lemma step_ok_trans:
  assumes "runs_ok a" "runs_ok b" "step_ok a b" "step_ok b c"
  shows "step_ok a c"
proof -
  have "\<exists>r'. find_run rid c = Some r' \<and> evolves r r'" if r: "find_run rid a = Some r" for rid r
  proof -
    obtain s where s: "find_run rid b = Some s" "evolves r s" using assms(3) r unfolding step_ok_def by blast
    obtain t where "find_run rid c = Some t" "evolves s t" using assms(4) s(1) unfolding step_ok_def by blast
    with s(2) evolves_trans show ?thesis by blast
  qed
  moreover have "results_keep a c"
  proof -
    have fin: "finished_run rid b" if "finished_run rid a" for rid
    proof -
      from that obtain r where r: "find_run rid a = Some r" "certified r" "vr_finished_at r \<noteq> None"
        unfolding finished_run_find [OF assms(1)] by (elim exE conjE) (rule that)
      then obtain s where "find_run rid b = Some s" "evolves r s" using assms(3) unfolding step_ok_def by blast
      with r have "s = r" by (simp add: evolves_def)
      with \<open>find_run rid b = Some s\<close> r show ?thesis unfolding finished_run_find [OF assms(2)] by simp
    qed
    have "results_of rid a = [] \<or> map vx_book_key (results_of rid c) = map vx_book_key (results_of rid a)" for rid
    proof (cases "results_of rid a = []")
      case False
      then have k: "map vx_book_key (results_of rid b) = map vx_book_key (results_of rid a)"
        using assms(3) unfolding step_ok_def results_keep_def by blast
      with False have "results_of rid b \<noteq> []" by auto
      then have "map vx_book_key (results_of rid c) = map vx_book_key (results_of rid b)"
        using assms(4) unfolding step_ok_def results_keep_def by blast
      with k show ?thesis by simp
    qed simp
    moreover have "results_of rid c = results_of rid a" if "finished_run rid a" for rid
    proof -
      have "results_of rid b = results_of rid a" using assms(3) that unfolding step_ok_def results_keep_def by blast
      moreover have "results_of rid c = results_of rid b"
        using assms(4) fin [OF that] unfolding step_ok_def results_keep_def by blast
      ultimately show ?thesis by simp
    qed
    ultimately show ?thesis unfolding results_keep_def by blast
  qed
  ultimately show ?thesis unfolding step_ok_def by blast
qed

lemma step_ok_refl: "step_ok d d"
  by (simp add: step_ok_def)

lemma cert_reach:
  assumes "(cert_step en)\<^sup>*\<^sup>* d d'" "runs_ok d"
  shows "runs_ok d' \<and> step_ok d d'"
proof -
  have "keeps d d'"
  proof (rule cert.reachable_relates [OF assms])
    show "keeps a b" if "runs_ok a" "cert_step en a b" for a b using cert_step_sound [OF that(2,1)] by (simp add: keeps_def)
    show "keeps a a" for a by (simp add: keeps_def step_ok_refl)
    show "keeps a c" if "keeps a b" "keeps b c" for a b c
      using that step_ok_trans [of a b c] by (auto simp: keeps_def)
  qed
  with assms(2) show ?thesis by (simp add: keeps_def)
qed

end
