(* ===== verification/ExecutorLaws.thy ===== *)
theory ExecutorLaws
  imports Executor PipelineLaws OfflineLaws CertLaws
begin

text \<open>
  A run the verifier reports complete is complete: the argument follows the results of the run through every transaction of
  \<open>execute_certificate_a_claim\<close>, with the other processes free to commit anything that their own claims allow in between.
\<close>

section \<open>What a store operation does\<close>

text \<open>A refused operation leaves the tables alone, and a successful one owned the run.\<close>

lemma store_run_fence:
  assumes "store_run c b m d = Inr run"
  shows "find_run (cl_run_id c) d = Some run" "vr_fence_token run = cl_fence_token c" "vr_run_id run = cl_run_id c"
    "vr_finished_at run = None"
  using assms heartbeat_matchesD by (auto simp: store_run_Inr)

lemma record_state_cases:
  assumes "store_record_state c k st m d = (r, d')"
  obtains e where "r = Inl e" "d' = d"
  | run where "r = Inr ()" "store_run c False m d = Inr run" "d' = upd_result (cl_run_id c) k (\<lambda>x. x\<lparr>vx_state := state_text st\<rparr>) d"
proof (cases r)
  case (Inl e)
  with assms show ?thesis by (intro that(1)) (auto simp: store_record_state_def split: sum.splits)
next
  case (Inr x)
  with assms show ?thesis
    by (cases "store_run c False m d") (auto simp: store_record_state_def split: sum.splits intro: that(2))
qed

lemma finish_cases:
  assumes "store_finish c status err m1 m2 d = (r, d')"
  obtains e where "r = Inl e" "d' = d"
  | run where "r = Inr ()" "store_run c True m1 d = Inr run"
      "d' = upd_run (cl_run_id c) (\<lambda>r. r\<lparr>vr_status := status, vr_error_code := err, vr_finished_at := Some m2,
             vr_lease_owner := None, vr_lease_expires_at := None\<rparr>) (refresh_counts (cl_run_id c) d)"
proof (cases r)
  case (Inl e)
  with assms show ?thesis by (intro that(1)) (auto simp: store_finish_def split: sum.splits if_splits)
next
  case (Inr x)
  with assms show ?thesis
    by (cases "store_run c True m1 d") (auto simp: store_finish_def split: if_splits intro: that(2))
qed

lemma record_package_cases:
  assumes "store_record_package en c p m1 m2 d = (r, d')"
  obtains e where "r = Inl e" "d' = d"
  | run main where "r = Inr ()" "store_run c True m1 d = Inr run"
      "d' = refresh_counts (cl_run_id c) (upd_result (cl_run_id c) (pk_book_key p) (\<lambda>x. x\<lparr>vx_evidence_id := Some (pk_evidence_id p),
                                vx_state := state_text (pk_state p), vx_verdict := package_verdict p\<rparr>) (d\<lparr>rd_main := main\<rparr>))"
proof (cases r)
  case (Inl e)
  with assms show ?thesis
    by (intro that(1)) (auto simp: store_record_package_def Let_def split: sum.splits if_splits bool.splits)
next
  case (Inr x)
  with assms obtain run where "store_run c True m1 d = Inr run"
    by (cases "store_run c True m1 d") (auto simp: store_record_package_def Let_def split: if_splits sum.splits bool.splits)
  with assms Inr show ?thesis
    by (auto simp: store_record_package_def Let_def split: sum.splits if_splits bool.splits intro: that(2))
qed

lemma inventory_cases:
  assumes "store_inventory c keys snap m1 m2 us d = (r, d')"
  obtains e where "r = Inl e" "d' = d"
  | run rows where "r = Inr ()" "store_run c False m1 d = Inr run"
      "rows = (if results_of (cl_run_id c) d = [] then pending_results (cl_run_id c) m2 us keys (rd_results d) else rd_results d)"
      "results_of (cl_run_id c) d = [] \<or> set (map vx_book_key (results_of (cl_run_id c) d)) = set keys"
      "d' = upd_run (cl_run_id c) (\<lambda>r. r\<lparr>vr_source_snapshot := Some snap, vr_total := int (length keys),
                        vr_inventory_finished_at := (case vr_inventory_finished_at r of Some t \<Rightarrow> Some t | None \<Rightarrow> Some m2),
                        vr_status := ''running''\<rparr>) (d\<lparr>rd_results := rows\<rparr>)" "distinct keys"
proof (cases r)
  case (Inl e)
  with assms show ?thesis
    by (intro that(1)) (auto simp: store_inventory_def Let_def split: sum.splits if_splits)
next
  case (Inr x)
  with assms obtain run where "store_run c False m1 d = Inr run"
    by (cases "store_run c False m1 d") (auto simp: store_inventory_def Let_def split: if_splits)
  with assms Inr show ?thesis
    by (auto simp: store_inventory_def Let_def split: sum.splits if_splits intro!: that(2))
qed

section \<open>The other processes\<close>

text \<open>What they see of this run: with the fence token unchanged, the results and the inventory of the run are untouched.\<close>

definition run_view :: "string \<Rightarrow> run_db \<Rightarrow> (int \<times> pydict option) option \<times> verification_result list" where
  "run_view rid d = (map_option (\<lambda>r. (vr_total r, vr_source_snapshot r)) (find_run rid d), results_of rid d)"

definition hands_off :: "claim \<Rightarrow> run_db \<Rightarrow> run_db \<Rightarrow> bool" where
  "hands_off c d d' =
     (runs_ok d \<longrightarrow> runs_ok d' \<and> (\<forall>n. fence_of d (cl_run_id c) = Some n \<longrightarrow>
        (\<exists>m. fence_of d' (cl_run_id c) = Some m \<and> n \<le> m \<and> (m = n \<and> n = cl_fence_token c \<longrightarrow> run_view (cl_run_id c) d' = run_view (cl_run_id c) d))))"

text \<open>Any step of the verification system except a store operation under this very claim.\<close>

definition same_claim :: "claim \<Rightarrow> claim \<Rightarrow> bool" where
  "same_claim c c' = (cl_run_id c' = cl_run_id c \<and> cl_fence_token c' = cl_fence_token c)"

inductive other_step :: "env \<Rightarrow> claim \<Rightarrow> run_db \<Rightarrow> run_db \<Rightarrow> bool" for en c where
  start: "other_step en c d (snd (start_verification en st rq key u now seen d))"
| cancel: "other_step en c d (snd (cancel_run rid m d))"
| claim: "other_step en c d (snd (claim_next_certificate_a_run owner m ttl rid' d))"
| heartbeat: "other_step en c d (snd (heartbeat_certificate_a_run c' m ttl d))"
| inventory: "\<not> same_claim c c' \<Longrightarrow> other_step en c d (snd (store_inventory c' keys snap m1 m2 us d))"
| record_state: "\<not> same_claim c c' \<Longrightarrow> other_step en c d (snd (store_record_state c' k s m d))"
| record_package: "\<not> same_claim c c' \<Longrightarrow> other_step en c d (snd (store_record_package en c' p m1 m2 d))"
| finish: "\<not> same_claim c c' \<Longrightarrow> other_step en c d (snd (store_finish c' status err m1 m2 d))"

lemma other_step_cert: "other_step en c d d' \<Longrightarrow> cert_step en d d'"
  by (induction rule: other_step.induct) (rule cert_step.intros)+

lemma other_results: "rid \<noteq> cl_run_id c \<Longrightarrow> (\<And>x. vx_run_id (f x) = vx_run_id x)
    \<Longrightarrow> results_of rid (upd_result (cl_run_id c) k f d) = results_of rid d"
  unfolding results_of_def upd_result_def by (simp, rule filter_row_map_other) auto

lemma other_runs: "rid \<noteq> cl_run_id c \<Longrightarrow> (\<And>r. vr_run_id (f r) = vr_run_id r)
    \<Longrightarrow> find_run rid (upd_run (cl_run_id c) f d) = find_run rid d"
  unfolding find_run_def upd_run_def
  by (cases "row_first (\<lambda>r. vr_run_id r = rid) (rd_runs d)") (auto simp: row_first_row_map dest: row_first_Some)

lemma hands_offI:
  assumes "cert_step en d d'"
    and "runs_ok d \<Longrightarrow> fence_of d (cl_run_id c) = Some (cl_fence_token c) \<Longrightarrow> run_view (cl_run_id c) d' = run_view (cl_run_id c) d"
  shows "hands_off c d d'"
  unfolding hands_off_def
proof (intro impI conjI allI)
  assume ok: "runs_ok d"
  show "runs_ok d'" by (rule cert.step_keeps [OF ok assms(1)])
  fix n assume n: "fence_of d (cl_run_id c) = Some n"
  from cert.token_mono [OF ok assms(1) n] obtain m where "fence_of d' (cl_run_id c) = Some m" "n \<le> m" by blast
  with assms(2) [OF ok] n show "\<exists>m. fence_of d' (cl_run_id c) = Some m \<and> n \<le> m \<and>
      (m = n \<and> n = cl_fence_token c \<longrightarrow> run_view (cl_run_id c) d' = run_view (cl_run_id c) d)" by auto
qed

text \<open>Rows changed in fields other than the inventory, and results untouched.\<close>

lemma view_row_map:
  assumes "rd_results d' = rd_results d" "rd_runs d' = row_map p f (rd_runs d)"
    and "\<And>r. vr_run_id (f r) = vr_run_id r \<and> vr_total (f r) = vr_total r \<and> vr_source_snapshot (f r) = vr_source_snapshot r"
  shows "run_view rid d' = run_view rid d"
proof -
  have "find_run rid d' = map_option (\<lambda>r. if p r then f r else r) (find_run rid d)"
    unfolding find_run_def assms(2) by (rule row_first_row_map) (use assms(3) in simp)
  then show ?thesis using assms(3) by (cases "find_run rid d") (simp_all add: run_view_def results_of_def assms(1))
qed

lemma store_hands_off:
  assumes "\<not> same_claim c c'" "cert_step en d d'"
    and "d' = d \<or> (\<exists>run b m. store_run c' b m d = Inr run \<and> (\<forall>rid. rid \<noteq> cl_run_id c' \<longrightarrow> run_view rid d' = run_view rid d))"
  shows "hands_off c d d'"
proof (rule hands_offI [OF assms(2)])
  assume fence: "fence_of d (cl_run_id c) = Some (cl_fence_token c)"
  from assms(3) show "run_view (cl_run_id c) d' = run_view (cl_run_id c) d"
  proof
    assume "\<exists>run b m. store_run c' b m d = Inr run \<and> (\<forall>rid. rid \<noteq> cl_run_id c' \<longrightarrow> run_view rid d' = run_view rid d)"
    then obtain run b m where run: "store_run c' b m d = Inr run" and view: "\<forall>rid. rid \<noteq> cl_run_id c' \<longrightarrow> run_view rid d' = run_view rid d"
      by blast
    have "cl_run_id c' \<noteq> cl_run_id c" using store_run_fence(1,2) [OF run] fence assms(1) by (auto simp: same_claim_def)
    with view show ?thesis by metis
  qed simp
qed

lemma view_upd_result: "rid \<noteq> cl_run_id c \<Longrightarrow> (\<And>x. vx_run_id (f x) = vx_run_id x)
    \<Longrightarrow> run_view rid (upd_result (cl_run_id c) k f d) = run_view rid d"
  by (simp add: run_view_def other_results) (simp add: find_run_def upd_result_def)

lemma view_upd_run: "rid \<noteq> cl_run_id c \<Longrightarrow> (\<And>r. vr_run_id (f r) = vr_run_id r)
    \<Longrightarrow> run_view rid (upd_run (cl_run_id c) f d) = run_view rid d"
  by (simp add: run_view_def other_runs)

lemma view_main: "run_view rid (d\<lparr>rd_main := x\<rparr>) = run_view rid d"
  by (simp add: run_view_def find_run_def results_of_def)

lemma start_view:
  assumes "fence_of d rid = Some n"
  shows "run_view rid (snd (start_verification en st rq key u now seen d)) = run_view rid d"
proof -
  let ?d = "snd (start_verification en st rq key u now seen d)"
  have new: "(rd_runs ?d = rd_runs d \<or> (\<exists>r. rd_runs ?d = rd_runs d @ [r])) \<and> rd_results ?d = rd_results d"
    unfolding start_verification_def Let_def add_run_def by (auto split: if_splits option.splits sum.splits)
  then obtain rs where rs: "rd_runs ?d = rd_runs d @ rs" "rd_results ?d = rd_results d" by (metis append_Nil2)
  from assms obtain r where r: "find_run rid d = Some r" by auto
  from find_run_append [OF r rs(1)] rs(2) r show ?thesis by (simp add: run_view_def results_of_def)
qed

lemma other_step_hands_off: "other_step en c d d' \<Longrightarrow> hands_off c d d'"
proof (induction rule: other_step.induct)
  case (start d st rq key u now seen)
  show ?case by (rule hands_offI [OF cert_step.start]) (rule start_view)
next
  case (cancel d rid m)
  show ?case
  proof (rule hands_offI [OF cert_step.cancel])
    show "run_view (cl_run_id c) (snd (cancel_run rid m d)) = run_view (cl_run_id c) d"
    proof (cases "length (filter (cancellable rid) (rd_runs d)) = 1")
      case True
      then show ?thesis
        by (intro view_row_map [where p = "cancellable rid" and f = "\<lambda>r. r\<lparr>vr_status := ''cancelling'',
               vr_cancel_requested_at := (case vr_cancel_requested_at r of Some t \<Rightarrow> Some t | None \<Rightarrow> Some m)\<rparr>"])
          (simp_all add: cancel_run_def Let_def)
    next
      case False
      then have "snd (cancel_run rid m d) = d" by (auto simp: cancel_run_def split: sum.splits)
      then show ?thesis by simp
    qed
  qed
next
  case (claim d owner m ttl rid')
  show ?case
  proof (rule hands_offI [OF cert_step.claim])
    show "run_view (cl_run_id c) (snd (claim_next_certificate_a_run owner m ttl rid' d)) = run_view (cl_run_id c) d"
    proof (cases "snd (claim_next_certificate_a_run owner m ttl rid' d) = d")
      case False
      then obtain run where run: "claim_candidate m rid' d = Some run" "owner \<noteq> []" "\<not> 128 < length owner"
        by (auto simp: claim_next_certificate_a_run_def Let_def split: if_splits option.splits)
      show ?thesis
        by (rule view_row_map [where p = "\<lambda>r. vr_id r = vr_id run \<and> claim_predicate m r" and f = "claimed_run owner m (m + seconds (max 3 ttl))"])
          (simp_all add: claim_next_certificate_a_run_def Let_def run claimed_run_def)
    qed simp
  qed
next
  case (heartbeat d c' m ttl)
  show ?case
    by (rule hands_offI [OF cert_step.heartbeat],
        rule view_row_map [where p = "heartbeat_matches c' m" and f = "\<lambda>r. r\<lparr>vr_lease_expires_at := Some (m + seconds (max 3 ttl)), vr_heartbeat_at := Some m\<rparr>"])
      (simp_all add: heartbeat_certificate_a_run_def Let_def)
next
  case (inventory c' d keys snap m1 m2 us)
  obtain r d' where e: "store_inventory c' keys snap m1 m2 us d = (r, d')" by (cases "store_inventory c' keys snap m1 m2 us d")
  have "run_view rid (d\<lparr>rd_results := (if results_of (cl_run_id c') d = [] then pending_results (cl_run_id c') m2 us keys (rd_results d) else rd_results d)\<rparr>)
      = run_view rid d" if "rid \<noteq> cl_run_id c'" for rid
    using pending_results_append [of "cl_run_id c'" m2 us keys "rd_results d"] that
    by (auto simp: run_view_def find_run_def results_of_def list_all_iff filter_empty_conv)
  then show ?case
    by (intro store_hands_off [OF inventory(1) cert_step.inventory], cases rule: inventory_cases [OF e])
      (auto simp: e view_upd_run)
next
  case (record_state c' d k s m)
  obtain r d' where e: "store_record_state c' k s m d = (r, d')" by (cases "store_record_state c' k s m d")
  show ?case
    by (intro store_hands_off [OF record_state(1) cert_step.record_state], cases rule: record_state_cases [OF e])
      (auto simp: e view_upd_result)
next
  case (record_package c' d p m1 m2)
  obtain r d' where e: "store_record_package en c' p m1 m2 d = (r, d')" by (cases "store_record_package en c' p m1 m2 d")
  show ?case
    by (intro store_hands_off [OF record_package(1) cert_step.record_package], cases rule: record_package_cases [OF e])
      (auto simp: e view_upd_result view_upd_run refresh_counts_def Let_def view_main)
next
  case (finish c' d status err m1 m2)
  obtain r d' where e: "store_finish c' status err m1 m2 d = (r, d')" by (cases "store_finish c' status err m1 m2 d")
  show ?case
    by (intro store_hands_off [OF finish(1) cert_step.finish], cases rule: finish_cases [OF e])
      (auto simp: e view_upd_run refresh_counts_def Let_def)
qed

lemma hands_off_refl: "hands_off c d d"
  by (auto simp: hands_off_def)

lemma hands_off_trans: "hands_off c a b \<Longrightarrow> hands_off c b d \<Longrightarrow> hands_off c a d"
  unfolding hands_off_def by (metis dual_order.antisym dual_order.trans)

lemma other_steps_hands_off: "(other_step en c)\<^sup>*\<^sup>* d d' \<Longrightarrow> hands_off c d d'"
  by (induction rule: rtranclp_induct) (auto intro: hands_off_refl hands_off_trans other_step_hands_off)

section \<open>The progress of a run\<close>

text \<open>A result that needs no more work: sealed, the source unchanged and, unless errors are allowed, not failed.\<close>

definition final :: "bool \<Rightarrow> verification_result \<Rightarrow> bool" where
  "final errs x = (sealed_result x \<and> vx_state x \<noteq> ''source_changed'' \<and> (errs \<or> vx_state x \<noteq> ''failed''))"

text \<open>
  While the claim is current, the run has the members \<open>K\<close>, counted in its total, and those of them in \<open>ready\<close> are final. Once
  the claim is superseded nothing is known, and nothing more will be written under it.
\<close>

definition progress :: "claim \<Rightarrow> string set \<Rightarrow> string set \<Rightarrow> bool \<Rightarrow> run_db \<Rightarrow> bool" where
  "progress c K ready errs d =
     (runs_ok d \<and> (\<exists>r. find_run (cl_run_id c) d = Some r \<and> cl_fence_token c \<le> vr_fence_token r
      \<and> (vr_fence_token r = cl_fence_token c \<longrightarrow>
           vr_total r = int (length (results_of (cl_run_id c) d)) \<and> set (map vx_book_key (results_of (cl_run_id c) d)) = K
           \<and> (\<forall>x\<in>set (results_of (cl_run_id c) d). vx_book_key x \<in> ready \<longrightarrow> final errs x))))"

text \<open>Before the inventory only the fence is known.\<close>

definition claimed :: "claim \<Rightarrow> run_db \<Rightarrow> bool" where
  "claimed c d = (runs_ok d \<and> (\<exists>r. find_run (cl_run_id c) d = Some r \<and> cl_fence_token c \<le> vr_fence_token r))"

lemma claimed_stable: "claimed c d \<Longrightarrow> hands_off c d d' \<Longrightarrow> claimed c d'"
  unfolding claimed_def hands_off_def by (fastforce intro: order_trans)

lemma progress_claimed: "progress c K ready errs d \<Longrightarrow> claimed c d"
  by (auto simp: progress_def claimed_def)

lemma progress_stable:
  assumes "progress c K ready errs d" "hands_off c d d'"
  shows "progress c K ready errs d'"
proof -
  let ?rid = "cl_run_id c"
  from assms(1) obtain r where r: "runs_ok d" "find_run ?rid d = Some r" "cl_fence_token c \<le> vr_fence_token r"
    and known: "vr_fence_token r = cl_fence_token c \<longrightarrow> vr_total r = int (length (results_of ?rid d))
      \<and> set (map vx_book_key (results_of ?rid d)) = K \<and> (\<forall>x\<in>set (results_of ?rid d). vx_book_key x \<in> ready \<longrightarrow> final errs x)"
    unfolding progress_def by blast
  from assms(2) r obtain r' where r': "runs_ok d'" "find_run ?rid d' = Some r'" "vr_fence_token r \<le> vr_fence_token r'"
    and view: "vr_fence_token r' = vr_fence_token r \<and> vr_fence_token r = cl_fence_token c \<longrightarrow> run_view ?rid d' = run_view ?rid d"
    unfolding hands_off_def by auto
  have "vr_total r' = int (length (results_of ?rid d')) \<and> set (map vx_book_key (results_of ?rid d')) = K
      \<and> (\<forall>x\<in>set (results_of ?rid d'). vx_book_key x \<in> ready \<longrightarrow> final errs x)"
    if "vr_fence_token r' = cl_fence_token c"
  proof -
    from that r(3) r'(3) have "vr_fence_token r = cl_fence_token c" by simp
    with view known that show ?thesis using r(2) r'(2) by (simp add: run_view_def)
  qed
  with r(3) r' show ?thesis unfolding progress_def by fastforce
qed

section \<open>The transactions of the verifier\<close>

lemma progressI:
  assumes "runs_ok d" "find_run (cl_run_id c) d = Some r" "cl_fence_token c \<le> vr_fence_token r"
    "vr_total r = int (length (results_of (cl_run_id c) d))" "set (map vx_book_key (results_of (cl_run_id c) d)) = K"
    "\<And>x. x \<in> set (results_of (cl_run_id c) d) \<Longrightarrow> vx_book_key x \<in> ready \<Longrightarrow> final errs x"
  shows "progress c K ready errs d"
  using assms by (auto simp: progress_def)

lemma progressD:
  assumes "progress c K ready errs d" "store_run c b m d = Inr run"
  shows "runs_ok d" "find_run (cl_run_id c) d = Some run" "vr_fence_token run = cl_fence_token c"
    "vr_total run = int (length (results_of (cl_run_id c) d))" "set (map vx_book_key (results_of (cl_run_id c) d)) = K"
    "\<And>x. x \<in> set (results_of (cl_run_id c) d) \<Longrightarrow> vx_book_key x \<in> ready \<Longrightarrow> final errs x"
  using assms store_run_fence [OF assms(2)] by (auto simp: progress_def)

lemma results_upd_result:
  assumes "\<And>x. vx_run_id (f x) = vx_run_id x"
  shows "results_of rid (upd_result rid k f d) = row_map (\<lambda>x. vx_book_key x = k) f (results_of rid d)"
proof -
  have "filter (\<lambda>x. vx_run_id x = rid) (row_map (\<lambda>x. vx_run_id x = rid \<and> vx_book_key x = k) f xs)
      = row_map (\<lambda>x. vx_book_key x = k) f (filter (\<lambda>x. vx_run_id x = rid) xs)" for xs
    using assms unfolding row_map_def by (induction xs) auto
  then show ?thesis by (simp add: results_of_def upd_result_def)
qed

lemma find_upd_result: "find_run rid (upd_result rid' k f d) = find_run rid d"
  by (simp add: find_run_def upd_result_def)

lemma find_upd_run: "(\<And>r. vr_run_id (f r) = vr_run_id r) \<Longrightarrow> find_run rid d = Some r \<Longrightarrow> find_run rid (upd_run rid f d) = Some (f r)"
  unfolding find_run_def upd_run_def by (auto simp: row_first_row_map dest: row_first_Some)

lemma record_state_progress:
  assumes "progress c K ready errs d" "k \<notin> ready" "store_record_state c k st m d = (r, d')"
  shows "progress c K ready errs d'"
proof (cases rule: record_state_cases [OF assms(3)])
  case (2 run)
  let ?f = "\<lambda>x. x\<lparr>vx_state := state_text st\<rparr>"
  note known = progressD [OF assms(1) 2(2)]
  have res: "results_of (cl_run_id c) d' = row_map (\<lambda>x. vx_book_key x = k) ?f (results_of (cl_run_id c) d)"
    by (simp add: 2(3) results_upd_result)
  have keys: "map vx_book_key (results_of (cl_run_id c) d') = map vx_book_key (results_of (cl_run_id c) d)"
    by (simp add: res row_map_def)
  show ?thesis
  proof (rule progressI [where r = run])
    show "runs_ok d'" using record_state_sound [OF known(1), of c k st m] assms(3) by (simp add: op_sound_def)
    show "find_run (cl_run_id c) d' = Some run" using known(2) by (simp add: 2(3) find_upd_result)
    show "final errs x" if "x \<in> set (results_of (cl_run_id c) d')" "vx_book_key x \<in> ready" for x
      using that known(6) assms(2) by (auto simp: res set_row_map split: if_splits)
    show "set (map vx_book_key (results_of (cl_run_id c) d')) = K" using known(5) by (simp only: keys)
  qed (use known(3,4) in \<open>simp_all add: res row_map_def\<close>)
qed (use assms(1) in simp)

lemma record_package_progress:
  assumes "progress c K ready errs d" "store_record_package en c p m1 m2 d = (Inr x, d')"
    and p: "pk_state p \<in> set TERMINAL_BOOK_STATES" "pk_state p \<noteq> bs_source_changed" "pk_evidence_id p \<noteq> []"
  shows "progress c K (insert (pk_book_key p) ready) (errs \<or> pk_state p = bs_failed) d'"
proof (cases rule: record_package_cases [OF assms(2)])
  case (2 run main)
  let ?f = "\<lambda>x. x\<lparr>vx_evidence_id := Some (pk_evidence_id p), vx_state := state_text (pk_state p), vx_verdict := package_verdict p\<rparr>"
  let ?d = "upd_result (cl_run_id c) (pk_book_key p) ?f (d\<lparr>rd_main := main\<rparr>)"
  let ?g = "\<lambda>r. r\<lparr>vr_completed := int (length (filter sealed_result (results_of (cl_run_id c) ?d))),
        vr_counts := foldl (\<lambda>counts x. count_state (vx_state x) counts) [] (filter sealed_result (results_of (cl_run_id c) ?d))\<rparr>"
  note known = progressD [OF assms(1) 2(2)]
  have d': "d' = upd_run (cl_run_id c) ?g ?d" by (simp add: 2(3) refresh_counts_def Let_def)
  have res: "results_of (cl_run_id c) d' = row_map (\<lambda>x. vx_book_key x = pk_book_key p) ?f (results_of (cl_run_id c) d)"
    by (simp add: d' results_upd_result) (simp add: results_of_def)
  have keys: "map vx_book_key (results_of (cl_run_id c) d') = map vx_book_key (results_of (cl_run_id c) d)"
    by (simp add: res row_map_def)
  have sealed: "final (errs \<or> pk_state p = bs_failed) (?f x)" for x
    using p by (cases "pk_state p") (auto simp: final_def sealed_result_def state_text_def TERMINAL_BOOK_STATES_def)
  have main: "find_run (cl_run_id c) ?d = Some run" using known(2) by (simp add: find_upd_result) (simp add: find_run_def)
  show ?thesis
  proof (rule progressI [where r = "?g run"])
    show "runs_ok d'" using record_package_sound [OF known(1), of en c p m1 m2] assms(2) by (simp add: op_sound_def)
    show "find_run (cl_run_id c) d' = Some (?g run)" unfolding d' by (rule find_upd_run [OF _ main]) simp
    show "final (errs \<or> pk_state p = bs_failed) x"
      if "x \<in> set (results_of (cl_run_id c) d')" "vx_book_key x \<in> insert (pk_book_key p) ready" for x
    proof -
      from that(1) obtain y where y: "y \<in> set (results_of (cl_run_id c) d)" "x = (if vx_book_key y = pk_book_key p then ?f y else y)"
        by (auto simp: res set_row_map)
      show ?thesis
      proof (cases "vx_book_key y = pk_book_key p")
        case True
        with y(2) sealed show ?thesis by simp
      next
        case False
        with y that(2) known(6) [OF y(1)] show ?thesis by (auto simp: final_def)
      qed
    qed
    show "set (map vx_book_key (results_of (cl_run_id c) d')) = K" using known(5) by (simp only: keys)
  qed (use known(3,4) in \<open>simp_all add: res row_map_def\<close>)
qed simp

lemma result_unique:
  assumes "runs_ok d" "x \<in> set (results_of rid d)" "y \<in> set (results_of rid d)" "vx_book_key x = vx_book_key y"
  shows "x = y"
  using assms by (auto simp: runs_ok_def result_keys_ok_def results_of_def distinct_map inj_on_def)

lemma resumable_keys_final:
  assumes "resumable_keys en rid d xs = Inr ks" "k \<in> set ks"
  shows "\<exists>x\<in>set xs. vx_book_key x = k \<and> final False x"
  using assms
proof (induction xs arbitrary: ks)
  case (Cons x xs)
  then obtain b ks' where b: "result_resumable en rid d x = Inr b" "resumable_keys en rid d xs = Inr ks'"
      "ks = (if b then vx_book_key x # ks' else ks')" by (auto split: sum.splits)
  have "final False x" if b
  proof -
    have e: "vx_evidence_id x \<noteq> None" "vx_evidence_id x \<noteq> Some []" "resumable_state (vx_state x)"
      using b(1) that unfolding result_resumable_def by (auto split: option.splits if_splits)
    from e(3) have "vx_state x \<in> set (map state_text TERMINAL_BOOK_STATES)" "vx_state x \<noteq> ''failed''" "vx_state x \<noteq> ''source_changed''"
      by (auto simp: resumable_state_def TERMINAL_BOOK_STATES_def state_text_def)
    with e show ?thesis by (simp add: final_def sealed_result_def)
  qed
  with Cons.IH [OF b(2)] Cons.prems(2) b(3) show ?case by (auto split: if_splits)
qed simp

lemma resumable_progress:
  assumes "progress c K {} errs d" "store_resumable_book_keys en c m d = Inr ks"
  shows "progress c K (set ks) errs d"
proof -
  from assms(2) obtain run where run: "store_run c False m d = Inr run"
    and ks: "resumable_keys en (cl_run_id c) (rd_main d) (results_of (cl_run_id c) d) = Inr ks"
    by (auto simp: store_resumable_book_keys_def split: sum.splits)
  note known = progressD [OF assms(1) run]
  have "final errs x" if x: "x \<in> set (results_of (cl_run_id c) d)" "vx_book_key x \<in> set ks" for x
    using resumable_keys_final [OF ks x(2)] result_unique [OF known(1) x(1)] by (fastforce simp: final_def)
  then show ?thesis by (intro progressI [OF known(1,2) _ known(4,5)]) (simp_all add: known(3))
qed

lemma inventory_progress:
  assumes "claimed c d" "store_inventory c keys snap m1 m2 us d = (Inr x, d')"
  shows "progress c (set keys) {} errs d'"
proof (cases rule: inventory_cases [OF assms(2)])
  case (2 run rows)
  let ?rid = "cl_run_id c"
  let ?f = "\<lambda>r. r\<lparr>vr_source_snapshot := Some snap, vr_total := int (length keys),
    vr_inventory_finished_at := (case vr_inventory_finished_at r of Some t \<Rightarrow> Some t | None \<Rightarrow> Some m2), vr_status := ''running''\<rparr>"
  from assms(1) have ok: "runs_ok d" by (simp add: claimed_def)
  have run: "find_run ?rid (d\<lparr>rd_results := rows\<rparr>) = Some run" "vr_fence_token run = cl_fence_token c"
    using store_run_fence [OF 2(2)] by (simp_all add: find_run_def)
  have ok': "runs_ok d'" using inventory_sound [OF ok, of c keys snap m1 m2 us] assms(2) by (simp add: op_sound_def)
  have res: "results_of ?rid d' = filter (\<lambda>x. vx_run_id x = ?rid) rows" by (simp add: 2(5)) (simp add: results_of_def)
  have "set (map vx_book_key (results_of ?rid d')) = set keys \<and> length (results_of ?rid d') = length keys"
  proof (cases "results_of ?rid d = []")
    case True
    then obtain ns where ns: "rows = rd_results d @ ns" "map vx_book_key ns = keys" "list_all (\<lambda>x. vx_run_id x = ?rid) ns"
      using pending_results_append [of ?rid m2 us keys "rd_results d"] by (auto simp: 2(3))
    from True have "filter (\<lambda>x. vx_run_id x = ?rid) (rd_results d) = []" by (simp add: results_of_def)
    with ns(1,3) have "results_of ?rid d' = ns" unfolding res by (simp add: list_all_iff)
    with ns(2) show ?thesis by auto
  next
    case False
    then have "rows = rd_results d" by (simp add: 2(3))
    then have same: "results_of ?rid d' = results_of ?rid d" unfolding res by (simp add: results_of_def)
    have "distinct (map vx_book_key (results_of ?rid d))"
      using result_unique [OF ok] ok
      by (auto simp: distinct_map inj_on_def runs_ok_def result_keys_ok_def results_of_def intro: distinct_filter)
    then have "length (results_of ?rid d) = length keys"
      using 2(4,6) False by (metis distinct_card length_map)
    with 2(4) False show ?thesis by (simp add: same)
  qed
  then show ?thesis
    by (intro progressI [where r = "?f run"] ok')
      (use find_upd_run [OF _ run(1), of ?f] run(2) in \<open>simp_all add: 2(5)\<close>)
qed simp

text \<open>What a run finished with this status looks like.\<close>

definition complete_run :: "claim \<Rightarrow> string set \<Rightarrow> string \<Rightarrow> bool \<Rightarrow> run_db \<Rightarrow> bool" where
  "complete_run c K status errs d =
     (\<exists>r. find_run (cl_run_id c) d = Some r \<and> vr_status r = status \<and> vr_finished_at r \<noteq> None \<and> vr_completed r = vr_total r
      \<and> vr_total r = int (length (results_of (cl_run_id c) d)) \<and> set (map vx_book_key (results_of (cl_run_id c) d)) = K
      \<and> (\<forall>x\<in>set (results_of (cl_run_id c) d). final errs x))"

lemma finish_complete:
  assumes "progress c K K errs d" "store_finish c status err m1 m2 d = (Inr x, d')"
  shows "complete_run c K status errs d'"
proof (cases rule: finish_cases [OF assms(2)])
  case (2 run)
  let ?rid = "cl_run_id c"
  let ?f = "\<lambda>r. r\<lparr>vr_completed := int (length (filter sealed_result (results_of ?rid d))),
     vr_counts := foldl (\<lambda>counts x. count_state (vx_state x) counts) [] (filter sealed_result (results_of ?rid d)),
     vr_status := status, vr_error_code := err, vr_finished_at := Some m2, vr_lease_owner := None, vr_lease_expires_at := None\<rparr>"
  note known = progressD [OF assms(1) 2(2)]
  have d': "d' = upd_run ?rid ?f d" by (simp add: 2(3) refresh_counts_def Let_def upd_run_twice)
  have all: "\<forall>x\<in>set (results_of ?rid d). final errs x" using known(5,6) by auto
  then have "filter sealed_result (results_of ?rid d) = results_of ?rid d" by (simp add: final_def)
  with all known(4,5) find_upd_run [OF _ known(2), of ?f] show ?thesis by (simp add: complete_run_def d')
qed simp

section \<open>States of the executor\<close>

text \<open>The other processes keep their hands off, and the tables satisfy \<open>P\<close>.\<close>

definition at :: "claim \<Rightarrow> (run_db \<Rightarrow> bool) \<Rightarrow> 'w exec \<Rightarrow> bool" where
  "at c P s = ((\<forall>n d. hands_off c d (ex_others s n d)) \<and> P (ex_db s))"

definition stable :: "claim \<Rightarrow> (run_db \<Rightarrow> bool) \<Rightarrow> bool" where
  "stable c P = (\<forall>d d'. P d \<longrightarrow> hands_off c d d' \<longrightarrow> P d')"

lemma stable_assertions [simp]: "stable c (claimed c)" "stable c (progress c K ready errs)" "stable c (\<lambda>_. True)"
  by (auto simp: stable_def intro: claimed_stable progress_stable)

lemma at_mono: "at c P s \<Longrightarrow> (\<And>d. P d \<Longrightarrow> Q d) \<Longrightarrow> at c Q s"
  by (simp add: at_def)

lemma wp_transact:
  assumes "at c P s" "stable c P"
    and "\<And>m1 m2 us d x d'. P d \<Longrightarrow> f m1 m2 us d = (Inr x, d') \<Longrightarrow> Q x d'"
    and "\<And>m1 m2 us d e d'. P d \<Longrightarrow> f m1 m2 us d = (Inl e, d') \<Longrightarrow> E d'"
  shows "wp (transact k f) (\<lambda>x. at c (Q x)) (\<lambda>_. at c E) s"
proof -
  let ?d = "ex_others s (ex_ticks s) (ex_db s)"
  have "P ?d" using assms(1,2) unfolding at_def stable_def by blast
  with assms(1,3,4) show ?thesis
    by (cases "f (ex_clock s (ex_ticks s)) (ex_clock s (Suc (ex_ticks s))) (map (\<lambda>i. ex_uuids s (Suc (ex_ticks s) + i)) [0..<k]) ?d"; cases "fst (f (ex_clock s (ex_ticks s)) (ex_clock s (Suc (ex_ticks s))) (map (\<lambda>i. ex_uuids s (Suc (ex_ticks s) + i)) [0..<k]) ?d)")
      (auto simp: wp_def transact_def Let_def at_def)
qed

lemma wp_transact_read:
  assumes "at c P s" "stable c P" "\<And>m d x. P d \<Longrightarrow> f m d = Inr x \<Longrightarrow> Q x d"
  shows "wp (transact_read f) (\<lambda>x. at c (Q x)) (\<lambda>_. at c P) s"
  unfolding transact_read_def by (rule wp_transact [OF assms(1,2)]) (auto intro: assms(3))

lemma at_preserved [preserved]: "preserves (at c P) (on_world m)" "preserves (at c P) next_time" "preserves (at c P) next_uuid"
  "preserves (at c P) ensure_current"
  by (auto simp: preserves_iff on_world_def next_time_def next_uuid_def ensure_current_def at_def split: prod.splits)

interpretation offline: reader_keeps "offline_pipeline en vi c src eh descriptor" "at c' P"
proof (unfold_locales, goal_cases)
  case (4 s i f)
  have "wp (on_world (export_format en (vi_fs vi) src (vi_scratch_dir vi) i f)) (\<lambda>_. at c' P) (\<lambda>_. at c' P) s"
    using 4 by (intro preserves_wp at_preserved)
  then show ?case
    unfolding offline_pipeline_def by (simp add: wp_eqs) (erule wp_mono; auto simp: wp_eqs at_preserved)
qed (auto simp: offline_pipeline_def intro!: preserved)

section \<open>The audit under a claim\<close>

lemma status_preserved:
  fixes vi :: "'w verifier_io"
  assumes "k \<notin> ready"
  shows "preserves (at c (progress c K ready errs)) (emit (offline_pipeline en vi c src eh descriptor) k st)"
proof -
  have "wp (tx_record_state c k st) (\<lambda>_. at c (progress c K ready errs)) (\<lambda>_. at c (progress c K ready errs)) s"
    if "at c (progress c K ready errs) s" for s :: "'w exec"
    unfolding tx_record_state_def
    by (rule wp_transact [OF that, of _ "\<lambda>_. progress c K ready errs" "progress c K ready errs"])
      (auto intro: record_state_progress [OF _ assms])
  then show ?thesis by (simp add: emit_def offline_pipeline_def preserves_def)
qed

lemma audit_book_progress:
  fixes s :: "'w exec"
  assumes "at c (progress c K ready errs) s" "book_id_of raw = Inr i" "k = book_key_of pl i" "k \<notin> ready"
    and pl: "pl = offline_pipeline en vi c src eh descriptor"
  shows "wp (audit_book en pl (cl_run_id c) mode raw k) (\<lambda>x. at c (progress c K (insert k ready) (errs \<or> snd x))) (\<lambda>_ _. True) s"
proof -
  have outcome: "wp (book_outcome en pl (cl_run_id c) mode raw k) (\<lambda>x s'. at c (progress c K ready errs) s' \<and> audited en pl (cl_run_id c) k x)
      (\<lambda>_ _. True) s"
    unfolding assms(3)
    by (rule wp_results [OF book_outcome_results [OF assms(2)]], rule wp_mono [OF preserves_wp])
      (use assms(1-4) in \<open>auto simp: pl intro!: offline.book_outcome_keeps status_preserved\<close>)
  have recorded: "wp (tx_record_package en c p) (\<lambda>_. at c (progress c K (insert k ready) (errs \<or> pk_state p = bs_failed))) (\<lambda>_ _. True) t"
    if "at c (progress c K ready errs) t" "audited en pl (cl_run_id c) k (p, failed)" "pk_state p \<noteq> bs_source_changed" for t :: "'w exec" and p failed
  proof -
    have p: "pk_state p \<in> set TERMINAL_BOOK_STATES" "pk_evidence_id p \<noteq> []" "pk_book_key p = k"
      using that(2) by (auto simp: audited_def sealed_for_def TERMINAL_BOOK_STATES_def)
    have "wp (transact 0 (\<lambda>m1 m2 _. store_record_package en c p m1 m2))
        (\<lambda>_. at c (progress c K (insert k ready) (errs \<or> pk_state p = bs_failed))) (\<lambda>_. at c (\<lambda>_. True)) t"
      by (rule wp_transact [OF that(1), where Q = "\<lambda>_. progress c K (insert k ready) (errs \<or> pk_state p = bs_failed)"])
        (use record_package_progress [OF _ _ p(1) that(3) p(2)] p(3) in auto)
    then show ?thesis by (simp add: tx_record_package_def wp_eqs that(3)) (erule wp_mono; simp add: wp_eqs)
  qed
  have changed: "wp (tx_record_package en c p) Q (\<lambda>_ _. True) t" if "pk_state p = bs_source_changed" for p Q and t :: "'w exec"
    by (simp add: tx_record_package_def that wp_eqs) (simp add: wp_def raise_def split: prod.split sum.split)
  have callback: "pl_package_callback pl = Some (tx_record_package en c)" by (simp add: pl offline_pipeline_def)
  show ?thesis
    unfolding audit_book_def wp_bnd
  proof (rule wp_mono [OF outcome])
    fix x and s' :: "'w exec"
    assume x: "at c (progress c K ready errs) s' \<and> audited en pl (cl_run_id c) k x"
    obtain p failed where p: "x = (p, failed)" by force
    have failed: "failed \<longleftrightarrow> pk_state p = bs_failed" "pk_state p \<in> set TERMINAL_BOOK_STATES"
      using x by (auto simp: p audited_def TERMINAL_BOOK_STATES_def)
    have "wp (tx_record_package en c p) (\<lambda>_. at c (progress c K (insert k ready) (errs \<or> failed))) (\<lambda>_ _. True) s'"
      using recorded [of s' p failed] changed x failed(1) by (cases "pk_state p = bs_source_changed") (auto simp: p)
    then show "wp (case x of (package, failed) \<Rightarrow>
        if pk_state package \<notin> set TERMINAL_BOOK_STATES then raise (RuntimeError (''book '' @ k @ '' did not reach a terminal state''))
        else thn (case pl_package_callback pl of None \<Rightarrow> ret () | Some f \<Rightarrow> f package) (ret (package, failed)))
      (\<lambda>x. at c (progress c K (insert k ready) (errs \<or> snd x))) (\<lambda>_ _. True) s'"
      using failed(2) by (simp add: p callback wp_thn) (erule wp_mono; simp add: wp_eqs)
  qed simp
qed

lemma audit_books_progress:
  fixes s :: "'w exec"
  assumes "at c (progress c K ready errs) s" "list_all (\<lambda>(i, raw). book_id_of raw = Inr i) books"
    "distinct (map (\<lambda>(i, _). book_key_of pl i) books)" "set skipped \<subseteq> ready"
    "list_all (\<lambda>(i, _). book_key_of pl i \<in> ready \<longrightarrow> book_key_of pl i \<in> set skipped) books"
    and pl: "pl = offline_pipeline en vi c src eh descriptor"
  shows "wp (audit_books en pl (cl_run_id c) mode skipped books)
    (\<lambda>xs. at c (progress c K (ready \<union> set (map (\<lambda>(i, _). book_key_of pl i) books)) (errs \<or> list_ex snd xs))) (\<lambda>_ _. True) s"
  using assms(1-5)
proof (induction books arbitrary: ready errs s)
  case Nil
  then show ?case by (simp add: wp_eqs)
next
  case (Cons b books)
  obtain i raw where b: "b = (i, raw)" by force
  let ?k = "book_key_of pl i" and ?ks = "set (map (\<lambda>(i, _). book_key_of pl i) books)"
  show ?case
  proof (cases "?k \<in> set skipped")
    case True
    then have "ready \<union> set (map (\<lambda>(i, _). book_key_of pl i) (b # books)) = ready \<union> ?ks" using Cons.prems(4) by (auto simp: b)
    with Cons.IH [of ready errs s] Cons.prems True show ?thesis by (simp add: b)
  next
    case False
    with Cons.prems(5) have fresh: "?k \<notin> ready" by (auto simp: b)
    have raw: "book_id_of raw = Inr i" using Cons.prems(2) by (simp add: b)
    have rest: "wp (audit_books en pl (cl_run_id c) mode skipped books)
        (\<lambda>xs. at c (progress c K (ready \<union> set (map (\<lambda>(i, _). book_key_of pl i) (b # books))) (errs \<or> list_ex snd (x # xs)))) (\<lambda>_ _. True) t"
      if "at c (progress c K (insert ?k ready) (errs \<or> snd x)) t" for x :: "evidence_package_v2 \<times> bool" and t :: "'w exec"
    proof -
      have "insert ?k ready \<union> ?ks = ready \<union> set (map (\<lambda>(i, _). book_key_of pl i) (b # books))" by (auto simp: b)
      moreover have "list_all (\<lambda>(i, _). book_key_of pl i \<in> insert ?k ready \<longrightarrow> book_key_of pl i \<in> set skipped) books"
        using Cons.prems(3,5) by (fastforce simp: b list_all_iff image_iff)
      ultimately show ?thesis
        using Cons.IH [OF that] Cons.prems(2-4) by (auto simp: b disj_assoc)
    qed
    show ?thesis
      unfolding b audit_books.simps
      by (simp add: False wp_bnd, rule wp_mono [OF audit_book_progress [OF Cons.prems(1) raw refl fresh pl]])
        (auto simp: wp_eqs b intro!: wp_mono [OF rest])
  qed
qed

section \<open>The whole execution\<close>

lemma wp_outcome: "results m P \<Longrightarrow> wp m (\<lambda>x _. P x) (\<lambda>_ _. True) s"
  by (simp add: results_def wp_def split: prod.split sum.split)

lemma hex_strip: "is_sha256_hex s \<Longrightarrow> py_strip s = s"
proof -
  assume "is_sha256_hex s"
  then have no_space: "\<not> is_space c" if "c \<in> set s" for c
    using that by (auto simp: is_sha256_hex_def list_all_iff is_hex_lower_def is_digit_def is_space_def Let_def)
  then have "dropWhile is_space s = s" "dropWhile is_space (rev s) = rev s"
    by (cases s rule: rev_cases; cases s; auto simp: dropWhile_eq_self_iff hd_append)+
  then show ?thesis by (simp add: py_strip_def py_lstrip_def)
qed

text \<open>The claim that a run reported with this status is complete.\<close>

definition honest :: "claim \<Rightarrow> string \<Rightarrow> 'w exec \<Rightarrow> bool" where
  "honest c status s =
     (status \<in> {''completed'', ''completed_with_errors''} \<longrightarrow> (\<exists>K. complete_run c K status (status \<noteq> ''completed'') (ex_db s)))"

lemma unless_cancelled_honest:
  assumes "at c P s" "stable c P" "\<And>s'. at c P s' \<Longrightarrow> wp k (honest c) (\<lambda>_ _. True) s'"
  shows "wp (unless_cancelled c code k) (honest c) (\<lambda>_ _. True) s"
proof -
  have stop: "wp (thn (tx_finish c ''cancelled'' (Some code)) (ret ''cancelled'')) (honest c) (\<lambda>_ _. True) t" for t :: "'a exec"
    by (rule wp_mono [OF wp_outcome [where P = "\<lambda>x. x = ''cancelled''"]]) (auto intro!: results_thn simp: results_simps honest_def)
  show ?thesis
    unfolding unless_cancelled_def tx_cancellation_requested_def wp_bnd
    by (rule wp_mono [OF wp_transact_read [OF assms(1,2), where Q = "\<lambda>_. P"]]) (auto intro: stop assms(3))
qed

lemma progress_mono: "progress c K ready errs d \<Longrightarrow> ready' \<subseteq> ready \<Longrightarrow> progress c K ready' errs d"
  unfolding progress_def by blast

lemma run_library_progress:
  fixes s :: "'w exec"
  assumes "at c (progress c K (set skipped) False) s"
    "list_all (\<lambda>(i, raw). book_id_of raw = Inr i) books" "distinct (map (\<lambda>(i, _). book_key_of pl i) books)"
    "K = set (map (\<lambda>(i, _). book_key_of pl i) books)" "sorted_books (list_books src) limit = Inr books"
    and pl: "pl = offline_pipeline en vi c src eh descriptor"
  shows "wp (run_library en pl shadow (cl_run_id c) limit skipped)
    (\<lambda>r. at c (progress c K K (lr_status r \<noteq> ls_completed)) ) (\<lambda>_ _. True) s"
proof -
  have now: "wp (pl_now pl) (\<lambda>_. at c (progress c K (set skipped) False)) (\<lambda>_. at c (progress c K (set skipped) False)) s"
    unfolding pl by (rule preserves_wp [OF offline.now_keeps assms(1)])
  have audit: "wp (audit_books en pl (cl_run_id c) shadow skipped books)
      (\<lambda>xs. at c (progress c K K (list_ex snd xs))) (\<lambda>_ _. True) t"
    if "at c (progress c K (set skipped) False) t" for t :: "'w exec"
  proof -
    have "wp (audit_books en pl (cl_run_id c) shadow skipped books)
        (\<lambda>xs. at c (progress c K (set skipped \<union> K) (list_ex snd xs))) (\<lambda>_ _. True) t"
      using audit_books_progress [OF that assms(2,3) _ _ pl, of skipped shadow] assms(4) by (simp add: list_all_iff)
    then show ?thesis by (rule wp_mono) (auto intro: at_mono progress_mono)
  qed
  have list: "pl_list_books pl = ret (list_books src)" by (simp add: pl offline_pipeline_def)
  show ?thesis
    unfolding run_library_def Let_def list
    by (simp add: wp_eqs assms(5), rule wp_mono [OF now])
      (auto intro!: wp_mono [OF audit] simp: wp_eqs)
qed

text \<open>The books the run is about, each with its id.\<close>

definition selected :: "contract \<Rightarrow> offline_source \<Rightarrow> (int \<times> pydict) list" where
  "selected contract src =
     (case ct_book_limit contract of None \<Rightarrow> sort_key fst (os_metadata src)
      | Some n \<Rightarrow> take (nat n) (sort_key fst (os_metadata src)))"

lemma list_all_take: "list_all P xs \<Longrightarrow> list_all P (take n xs)"
  by (auto simp: list_all_iff dest: in_set_takeD)

lemma selected_books:
  assumes "source_ok en src" "\<forall>n. ct_book_limit contract = Some n \<longrightarrow> 0 < n"
  shows "with_ids (case ct_book_limit contract of None \<Rightarrow> list_books src | Some n \<Rightarrow> take (nat n) (list_books src)) = Inr (selected contract src)"
    "sorted_books (list_books src) (case ct_book_limit contract of None \<Rightarrow> 0 | Some n \<Rightarrow> n) = Inr (selected contract src)"
    "list_all (\<lambda>(i, m). book_id_of m = Inr i) (selected contract src)" "distinct (map fst (selected contract src))"
proof -
  note books = source_books [OF assms(1)]
  show ids: "list_all (\<lambda>(i, m). book_id_of m = Inr i) (selected contract src)"
    using books(2) by (auto simp: selected_def list_all_take split: option.split)
  have "(case ct_book_limit contract of None \<Rightarrow> list_books src | Some n \<Rightarrow> take (nat n) (list_books src)) = map snd (selected contract src)"
    by (simp add: selected_def list_books_def take_map split: option.split)
  then show "with_ids (case ct_book_limit contract of None \<Rightarrow> list_books src | Some n \<Rightarrow> take (nat n) (list_books src)) = Inr (selected contract src)"
    using with_ids_ok [OF ids] by simp
  have "sort_key fst (sort_key fst (os_metadata src)) = sort_key fst (os_metadata src)"
    by (rule sort_key_id_if_sorted) simp
  then show "sorted_books (list_books src) (case ct_book_limit contract of None \<Rightarrow> 0 | Some n \<Rightarrow> n) = Inr (selected contract src)"
    using books(1) assms(2) by (simp add: sorted_books_def selected_def split: option.split)
  show "distinct (map fst (selected contract src))"
    using books(3) by (simp add: selected_def take_map [symmetric] distinct_take split: option.split)
qed

lemma audit_source_honest:
  fixes s :: "'w exec"
  assumes "at c (claimed c) s" "source_ok en src" "\<forall>x. is_sha256_hex (env_sha256 en x)"
    "\<forall>n. ct_book_limit contract = Some n \<longrightarrow> 0 < n"
  shows "wp (audit_source en vi c contract src) (honest c) (\<lambda>_ _. True) s"
proof -
  let ?books = "selected contract src"
  let ?limit = "case ct_book_limit contract of None \<Rightarrow> 0 | Some n \<Rightarrow> n"
  let ?descriptor = "\<lparr>src_kind = offline_calibre_snapshot, src_fingerprint = os_fingerprint src\<rparr>"
  let ?pl = "\<lambda>eh. offline_pipeline en vi c src eh ?descriptor"
  let ?key = "\<lambda>i. ''calibre-offline:'' @ os_fingerprint src @ '':'' @ show_int i"
  let ?keys = "map (\<lambda>(i, _). ?key i) ?books" and ?K = "set (map (\<lambda>(i, _). ?key i) ?books)"
  note books = selected_books [OF assms(2,4)]
  have hex: "is_sha256_hex (os_fingerprint src)"
    using assms(2,3) by (simp add: source_ok_def fingerprint_of_def canonical_json_hash_def)
  have descriptor: "init_source en (Some offline_calibre_snapshot) (os_fingerprint src) True None = Inr (Some ?descriptor, None)"
    using hex by (simp add: init_source_def validate_fingerprint_def Let_def hex_strip is_sha256_hex_lower)
      (simp add: is_sha256_hex_def)
  have key: "book_key_of (?pl eh) i = ?key i" for eh i by (simp add: book_key_of_def offline_pipeline_def)
  have distinct: "distinct ?keys"
    using books(4) by (auto simp: distinct_map inj_on_def case_prod_unfold)
  have finish: "wp (thn (tx_finish c (status_text (lr_status r)) None) (ret (status_text (lr_status r)))) (honest c) (\<lambda>_ _. True) t"
    if "at c (progress c ?K ?K (lr_status r \<noteq> ls_completed)) t" for r and t :: "'w exec"
  proof -
    let ?st = "status_text (lr_status r)"
    have "(?st \<noteq> ''completed'') = (lr_status r \<noteq> ls_completed)" by (cases "lr_status r") (simp_all add: status_text_def)
    then have "wp (tx_finish c ?st None) (\<lambda>_. at c (complete_run c ?K ?st (?st \<noteq> ''completed''))) (\<lambda>_. at c (\<lambda>_. True)) t"
      unfolding tx_finish_def
      by (intro wp_transact [OF that, where Q = "\<lambda>_. complete_run c ?K ?st (?st \<noteq> ''completed'')"])
        (simp_all add: finish_complete)
    then show ?thesis unfolding wp_thn by (rule wp_mono) (auto simp: wp_eqs honest_def at_def)
  qed
  have current: "wp (thn ensure_current k) (honest c) (\<lambda>_ _. True) t"
    if "at c P t" "\<And>t'. at c P t' \<Longrightarrow> wp k (honest c) (\<lambda>_ _. True) t'" for P k and t :: "'w exec"
    unfolding wp_thn by (rule wp_mono [OF preserves_wp [OF at_preserved(4) that(1)]]) (auto intro: that(2))
  have world: "wp (thn (on_world m) k) (honest c) (\<lambda>_ _. True) t"
    if "at c P t" "\<And>t'. at c P t' \<Longrightarrow> wp k (honest c) (\<lambda>_ _. True) t'" for P k m and t :: "'w exec"
    unfolding wp_thn by (rule wp_mono [OF preserves_wp [OF at_preserved(1) that(1)]]) (auto intro: that(2))
  have run: "wp (bnd (run_library en (?pl eh) shadow (cl_run_id c) ?limit skipped) (\<lambda>result.
          thn (on_world (assert_unchanged en (vi_fs vi) src None))
          (thn ensure_current
          (unless_cancelled c ''cancelled_after_processing''
            (thn (tx_finish c (status_text (lr_status result)) None) (ret (status_text (lr_status result)))))))) (honest c) (\<lambda>_ _. True) t"
    if "at c (progress c ?K (set skipped) False) t" for eh skipped and t :: "'w exec"
    unfolding wp_bnd
    by (rule wp_mono [OF run_library_progress [OF that books(3) _ _ books(2) refl]])
      (use distinct in \<open>auto simp: key intro!: world current unless_cancelled_honest finish\<close>)
  have resume: "wp (bnd (tx_resumable en c) k) (honest c) (\<lambda>_ _. True) t"
    if "at c (progress c ?K {} False) t" "\<And>ks t'. at c (progress c ?K (set ks) False) t' \<Longrightarrow> wp (k ks) (honest c) (\<lambda>_ _. True) t'"
    for k and t :: "'w exec"
    unfolding wp_bnd tx_resumable_def
    by (rule wp_mono [OF wp_transact_read [OF that(1), where Q = "\<lambda>ks. progress c ?K (set ks) False"]])
      (auto intro: resumable_progress that(2))
  have start: "wp (tx_inventory c ?keys snap) (\<lambda>_. at c (progress c ?K {} False)) (\<lambda>_. at c (\<lambda>_. True)) s" for snap
    unfolding tx_inventory_def
    by (rule wp_transact [OF assms(1), where Q = "\<lambda>_. progress c ?K {} False"]) (simp, erule (1) inventory_progress, simp)
  show ?thesis
    unfolding audit_source_def Let_def books(1) bnd_lift_Inr wp_thn [of "tx_inventory c ?keys snap" for snap] descriptor
    apply (rule wp_mono [OF start])
     apply (rule current, assumption)
     apply (rule unless_cancelled_honest, assumption, simp)
     apply (unfold wp_bnd [of "on_world m" for m])
     apply (rule wp_mono [OF preserves_wp [OF at_preserved(1)]], assumption)
      apply (simp only: prod.case option.sel)
      apply (rule world, assumption)
      apply (rule resume, assumption)
      apply (rule run, assumption)
     apply simp_all
    done
qed

end
