(* ===== verification/Fencing.thy ===== *)
theory Fencing
  imports CertLaws
begin

text \<open>
  The theorems about Certificate A runs: stale verifiers are refused, the lease window, finished runs, frozen memberships, the
  request API under races, and the contract a claim executes.
\<close>

section \<open>Claims\<close>

abbreviation lost_lease :: exn where
  "lost_lease \<equiv> LostVerifierLeaseError ''verifier lease or fence is no longer current''"

lemma claim_candidate_Some:
  assumes "claim_candidate m rid d = Some run"
  shows "run \<in> set (rd_runs d)" "claim_predicate m run" "\<And>i. rid = Some i \<Longrightarrow> vr_run_id run = i"
proof -
  let ?xs = "filter (\<lambda>r. claim_predicate m r \<and> (case rid of None \<Rightarrow> True | Some i \<Rightarrow> vr_run_id r = i)) (rd_runs d)"
  obtain rest where "sort_key vr_started_at ?xs = run # rest"
    using assms unfolding claim_candidate_def by (auto split: list.splits)
  then have "run \<in> set (sort_key vr_started_at ?xs)" by simp
  then show "run \<in> set (rd_runs d)" "claim_predicate m run" "\<And>i. rid = Some i \<Longrightarrow> vr_run_id run = i" by auto
qed

lemma claimed_run_simps [simp]:
  "vr_run_id (claimed_run w m x r) = vr_run_id r" "vr_fence_token (claimed_run w m x r) = vr_fence_token r + 1"
  "vr_lease_owner (claimed_run w m x r) = Some w" "vr_lease_expires_at (claimed_run w m x r) = Some x"
  "vr_effective_config (claimed_run w m x r) = vr_effective_config r" "vr_source_root (claimed_run w m x r) = vr_source_root r"
  "vr_source_root_sha256 (claimed_run w m x r) = vr_source_root_sha256 r"
  by (simp_all add: claimed_run_def)

lemma claim_Some:
  assumes "runs_ok d" "claim_next_certificate_a_run owner m ttl rid d = (Inr (Some c), d')"
  obtains run where "find_run (cl_run_id c) d = Some run" "claim_predicate m run" "cl_fence_token c = vr_fence_token run + 1"
    "cl_owner c = owner" "find_run (cl_run_id c) d' = Some (claimed_run owner m (m + seconds (max 3 ttl)) run)"
    "\<And>i. rid = Some i \<Longrightarrow> cl_run_id c = i"
  using assms(2)
proof (cases rule: claim_cases)
  case none
  from none(2) [of c] show ?thesis by simp
next
  case (some run)
  let ?expires = "m + seconds (max 3 ttl)"
  note cand = claim_candidate_Some [OF some(1)]
  have c: "c = \<lparr>cl_run_id = vr_run_id run, cl_owner = owner, cl_fence_token = vr_fence_token run + 1\<rparr>" using some(2) by simp
  have f: "find_run (vr_run_id run) d = Some run" by (rule find_run_in [OF assms(1) cand(1)])
  have ids: "vr_id r = vr_id run \<longleftrightarrow> r = run" if "r \<in> set (rd_runs d)" for r
    using assms(1) that cand(1) by (auto simp: runs_ok_def distinct_map inj_on_def)
  have "find_run (vr_run_id run) d' = Some (claimed_run owner m ?expires run)"
  proof -
    have "row_first (\<lambda>r. vr_run_id r = vr_run_id run) (row_map (\<lambda>r. vr_id r = vr_id run \<and> claim_predicate m r) (claimed_run owner m ?expires) (rd_runs d))
        = map_option (\<lambda>r. if vr_id r = vr_id run \<and> claim_predicate m r then claimed_run owner m ?expires r else r)
            (row_first (\<lambda>r. vr_run_id r = vr_run_id run) (rd_runs d))"
      by (rule row_first_row_map) simp
    with f cand(2) show ?thesis by (simp add: find_run_def some(3))
  qed
  with f cand(2,3) c show ?thesis by (intro that [of run]) auto
qed

lemma claim_candidate_eq:
  assumes "runs_ok d"
  shows "claim_candidate m (Some i) d = (case find_run i d of Some r \<Rightarrow> if claim_predicate m r then Some r else None | None \<Rightarrow> None)"
proof -
  have "filter (\<lambda>r. claim_predicate m r \<and> vr_run_id r = i) rs
      = (case row_first (\<lambda>r. vr_run_id r = i) rs of Some r \<Rightarrow> if claim_predicate m r then [r] else [] | None \<Rightarrow> [])"
    if "distinct (map vr_run_id rs)" for rs
    using that
  proof (induction rs)
    case (Cons r rs)
    show ?case
    proof (cases "vr_run_id r = i")
      case True
      with Cons.prems have "filter (\<lambda>r. claim_predicate m r \<and> vr_run_id r = i) rs = []" by (auto simp: filter_empty_conv image_iff)
      with True show ?thesis by (simp add: row_first_def)
    next
      case False
      with Cons show ?thesis by (simp add: row_first_def)
    qed
  qed (simp add: row_first_def)
  moreover have "distinct (map vr_run_id (rd_runs d))" using assms by (simp add: runs_ok_def run_constraints_def)
  ultimately show ?thesis by (simp add: claim_candidate_def find_run_def split: option.split)
qed

text \<open>Without a matching fence token a claim does nothing.\<close>

lemma superseded_refused:
  assumes "runs_ok d" "fence_of d (cl_run_id c) \<noteq> Some (cl_fence_token c)"
  shows "load_owned_run c m d = Inl lost_lease" "store_run c b m d = Inl lost_lease"
    "heartbeat_certificate_a_run c m ttl d = (False, d)"
proof -
  have no: "\<not> heartbeat_matches c m r" if "r \<in> set (rd_runs d)" for r
  proof
    assume h: "heartbeat_matches c m r"
    from find_run_in [OF assms(1) that] heartbeat_matchesD(1,3) [OF h] assms(2) show False by simp
  qed
  then show l: "load_owned_run c m d = Inl lost_lease"
    using find_runD [of "cl_run_id c" d] by (auto simp: load_owned_run_eq split: option.splits)
  show "store_run c b m d = Inl lost_lease" by (simp add: store_run_def l)
  have "filter (heartbeat_matches c m) (rd_runs d) = []" using no by (simp add: filter_empty_conv)
  moreover have "row_map (heartbeat_matches c m) f (rd_runs d) = rd_runs d" for f
    using no by (simp add: row_map_def map_idI)
  ultimately show "heartbeat_certificate_a_run c m ttl d = (False, d)"
    by (simp add: heartbeat_certificate_a_run_def Let_def)
qed

definition refused :: "'a res \<times> run_db \<Rightarrow> run_db \<Rightarrow> bool" where
  "refused x d = (case x of (Inl e, d') \<Rightarrow> d' = d | _ \<Rightarrow> False)"

lemma superseded_store:
  assumes "store_run c False m d = Inl lost_lease" "store_run c True m d = Inl lost_lease"
  shows "refused (store_inventory c keys snap m m2 us d) d" "refused (store_record_state c k s m d) d"
    "refused (store_record_package en c p m m2 d) d" "refused (store_finish c status err m m2 d) d"
  using assms
  by (auto simp: refused_def store_inventory_def store_record_state_def store_record_package_def Let_def store_finish_def
      split: sum.splits bool.splits)

text \<open>
  Claim C22. Fencing: once a run has been claimed again, whatever happened in between and afterwards (requests, cancellations, heartbeats and
  writes of any verifier with any clock, also by the same owner), the new claim carries a larger fence token and every
  operation presented with the old claim is refused and changes nothing, at any time its clock may show.
\<close>

theorem stale_verifier_is_refused:
  assumes "runs_ok d" "claim_next_certificate_a_run owner m ttl rid d = (Inr (Some c), d1)" "(cert_step en)\<^sup>*\<^sup>* d1 d2"
    and "claim_next_certificate_a_run owner' m' ttl' rid' d2 = (Inr (Some c'), d3)" "cl_run_id c' = cl_run_id c"
    and "(cert_step en)\<^sup>*\<^sup>* d3 d4"
  shows "cl_fence_token c < cl_fence_token c' \<and> load_owned_run c n d4 = Inl lost_lease
    \<and> heartbeat_certificate_a_run c n t d4 = (False, d4) \<and> refused (store_inventory c keys snap n n2 us d4) d4
    \<and> refused (store_record_state c k s n d4) d4 \<and> refused (store_record_package en c p n n2 d4) d4
    \<and> refused (store_finish c status err n n2 d4) d4"
proof -
  have ok1: "runs_ok d1" using run_claim_sound [OF assms(1,2)] by (simp add: op_sound_def)
  have ok2: "runs_ok d2" using cert_reach [OF assms(3) ok1] by blast
  have ok3: "runs_ok d3" using run_claim_sound [OF ok2 assms(4)] by (simp add: op_sound_def)
  have ok4: "runs_ok d4" using cert_reach [OF assms(6) ok3] by blast
  have "fence_of d1 (cl_run_id c) = Some (cl_fence_token c)" by (rule claim_Some [OF assms(1,2)]) simp
  from cert.token_reach [OF assms(3) ok1 this] obtain f where f: "fence_of d2 (cl_run_id c) = Some f" "cl_fence_token c \<le> f"
    by blast
  have new: "cl_fence_token c' = f + 1 \<and> fence_of d3 (cl_run_id c) = Some (f + 1)"
    by (rule claim_Some [OF ok2 assms(4)]) (use f(1) assms(5) in auto)
  then have "fence_of d4 (cl_run_id c) \<noteq> Some (cl_fence_token c)"
    using f(2) by (intro cert.token_superseded [OF assms(6) ok3, where n = "f + 1"]) auto
  note dead = superseded_refused [OF ok4 this]
  show ?thesis using new f(2) dead superseded_store [OF dead(2) dead(2)] by (simp del: split_paired_All)
qed

lemma fresh_claim:
  assumes "runs_ok d" "claim_next_certificate_a_run owner m ttl rid d = (Inr (Some c), d1)"
  obtains run where "cl_fence_token c = vr_fence_token run + 1"
    "find_run (cl_run_id c) d = Some run" "find_run (cl_run_id c) d1 = Some (claimed_run owner m (m + seconds (max 3 ttl)) run)"
    "\<And>n. heartbeat_matches c n (claimed_run owner m (m + seconds (max 3 ttl)) run) \<longleftrightarrow> n < m + seconds (max 3 ttl)"
    "\<And>n. claim_predicate n (claimed_run owner m (m + seconds (max 3 ttl)) run) \<longleftrightarrow> m + seconds (max 3 ttl) \<le> n"
proof -
  let ?x = "m + seconds (max 3 ttl)"
  obtain run where run: "claim_predicate m run" "cl_fence_token c = vr_fence_token run + 1" "cl_owner c = owner"
      "find_run (cl_run_id c) d1 = Some (claimed_run owner m ?x run)" "find_run (cl_run_id c) d = Some run"
    by (rule claim_Some [OF assms]) blast
  have id: "vr_run_id run = cl_run_id c" using find_runD [OF run(4)] by simp
  have st: "vr_status (claimed_run owner m ?x run) \<in> set CLAIMABLE_STATUSES"
    using run(1) by (auto simp: claimed_run_def claim_predicate_def CLAIMABLE_STATUSES_def)
  have "heartbeat_matches c n (claimed_run owner m ?x run) \<longleftrightarrow> n < ?x" for n
    using run(1-3) id st by (auto simp: heartbeat_matches_def) (auto simp: claimed_run_def claim_predicate_def)
  moreover have "claim_predicate n (claimed_run owner m ?x run) \<longleftrightarrow> ?x \<le> n" for n
    using run(1) st by (auto simp: claim_predicate_def) (auto simp: claimed_run_def)
  ultimately show ?thesis using that run by blast
qed

text \<open>
  Claim C23. The lease window is exact: for a fresh claim at time \<open>m\<close> and \<open>ttl\<close> (at least three) seconds, the claim owns the run and nobody can
  take it at any moment before \<open>m + ttl\<close>; from that moment on the claim has lost it and any verifier that asks for the run gets
  it with the next fence token.
\<close>

theorem lease_window_is_exact:
  assumes "runs_ok d" "claim_next_certificate_a_run owner m ttl rid d = (Inr (Some c), d1)"
    and "other \<noteq> []" "int (length other) \<le> 128"
  shows "(n < m + seconds (max 3 ttl) \<longrightarrow> is_ok (load_owned_run c n d1)
      \<and> claim_next_certificate_a_run other n ttl' (Some (cl_run_id c)) d1 = (Inr None, d1))
    \<and> (m + seconds (max 3 ttl) \<le> n \<longrightarrow> load_owned_run c n d1 = Inl lost_lease
      \<and> fst (claim_next_certificate_a_run other n ttl' (Some (cl_run_id c)) d1)
          = Inr (Some \<lparr>cl_run_id = cl_run_id c, cl_owner = other, cl_fence_token = cl_fence_token c + 1\<rparr>))"
proof -
  let ?x = "m + seconds (max 3 ttl)"
  obtain run where run: "cl_fence_token c = vr_fence_token run + 1" "find_run (cl_run_id c) d1 = Some (claimed_run owner m ?x run)"
    and live: "heartbeat_matches c n (claimed_run owner m ?x run) \<longleftrightarrow> n < ?x"
    and free: "claim_predicate n (claimed_run owner m ?x run) \<longleftrightarrow> ?x \<le> n"
    by (rule fresh_claim [OF assms(1,2)]) blast
  have ok: "runs_ok d1" using run_claim_sound [OF assms(1,2)] by (simp add: op_sound_def)
  have id: "vr_run_id run = cl_run_id c" using find_runD [OF run(2)] by simp
  show ?thesis
    using assms(3,4) claim_candidate_eq [OF ok, of n "cl_run_id c"] run(2) live free id
    by (auto simp: load_owned_run_eq claim_next_certificate_a_run_def Let_def run(1))
qed

section \<open>What stays\<close>

text \<open>
  Claim C24. A finished run is final: after a run has finished, no request, claim, heartbeat or store operation in any order changes its row
  or its results, and its counters are exactly the sealed results in terminal states, in total and per state.
\<close>

theorem finished_runs_are_final:
  assumes "runs_ok d" "finished_run rid d" "(cert_step en)\<^sup>*\<^sup>* d d'"
  shows "\<exists>run. find_run rid d = Some run \<and> find_run rid d' = Some run \<and> results_of rid d' = results_of rid d
    \<and> vr_status run \<in> set TERMINAL_STATUSES \<and> vr_lease_owner run = None
    \<and> vr_completed run = int (length (filter sealed_result (results_of rid d')))
    \<and> (\<forall>s. (case dict_get (vr_counts run) s of Some n \<Rightarrow> n | None \<Rightarrow> 0)
          = int (length (filter (\<lambda>x. vx_state x = s) (filter sealed_result (results_of rid d')))))"
proof -
  obtain run where run: "find_run rid d = Some run" "certified run" "vr_finished_at run \<noteq> None"
    using assms(2) unfolding finished_run_find [OF assms(1)] by blast
  have reach: "runs_ok d'" "step_ok d d'" using cert_reach [OF assms(3,1)] by auto
  obtain run' where "find_run rid d' = Some run'" "evolves run run'" using reach(2) run(1) unfolding step_ok_def by blast
  with run have same: "find_run rid d' = Some run" by (simp add: evolves_def)
  have res: "results_of rid d' = results_of rid d" using reach(2) assms(2) unfolding step_ok_def results_keep_def by blast
  have mem: "run \<in> set (rd_runs d')" "vr_run_id run = rid" using find_runD [OF same] by auto
  have "lifecycle run" "counts_exact d' run" using reach(1) mem run(2,3) by (auto simp: runs_ok_def list_all_iff)
  with run mem(2) same res show ?thesis
    by (auto simp: lifecycle_def counts_exact_def Let_def dest: active_not_terminal)
qed

text \<open>
  Claim C25. The membership of a run is frozen by its first inventory: no later step adds or removes a book, every book occurs once, and an
  inventory with other books is refused whoever sends it.
\<close>

theorem membership_is_frozen:
  assumes "runs_ok d" "results_of rid d \<noteq> []" "(cert_step en)\<^sup>*\<^sup>* d d'"
  shows "map vx_book_key (results_of rid d') = map vx_book_key (results_of rid d) \<and> distinct (map vx_book_key (results_of rid d'))
    \<and> (cl_run_id c = rid \<and> set keys \<noteq> set (map vx_book_key (results_of rid d)) \<longrightarrow> refused (store_inventory c keys snap m1 m2 us d') d')"
proof -
  have reach: "runs_ok d'" "step_ok d d'" using cert_reach [OF assms(3,1)] by auto
  have keys: "map vx_book_key (results_of rid d') = map vx_book_key (results_of rid d)"
    using reach(2) assms(2) unfolding step_ok_def results_keep_def by blast
  have "distinct (map (\<lambda>x. (vx_run_id x, vx_book_key x)) (results_of rid d'))"
    using reach(1) by (simp add: runs_ok_def result_keys_ok_def results_of_def distinct_map_filter)
  moreover have "map (\<lambda>x. (vx_run_id x, vx_book_key x)) (results_of rid d') = map (Pair rid) (map vx_book_key (results_of rid d'))"
    by (simp add: results_of_def)
  ultimately have "distinct (map (Pair rid) (map vx_book_key (results_of rid d')))" by simp
  then have dist: "distinct (map vx_book_key (results_of rid d'))" unfolding distinct_map by blast
  have "refused (store_inventory c keys snap m1 m2 us d') d'"
    if "cl_run_id c = rid" "set keys \<noteq> set (map vx_book_key (results_of rid d))"
  proof -
    have "set (map vx_book_key (results_of rid d')) \<noteq> set keys" "map vx_book_key (results_of rid d') \<noteq> []"
      using that(2) assms(2) keys by auto
    with that(1) show ?thesis
      unfolding store_inventory_def Let_def refused_def
      by (cases "store_run c False m1 d'") (auto split: option.splits)
  qed
  with keys dist show ?thesis by blast
qed

section \<open>Requests\<close>

text \<open>
  Claim C26. One active run per library: whatever requests race (each decides on tables it read earlier) and whatever the verifiers do, there is
  never more than one unfinished run of a library root, an idempotency key never names two runs, and a repeated request with
  the same key and content returns the run it already created and adds nothing.
\<close>

theorem one_active_run_per_source:
  assumes "runs_ok d" "(cert_step en)\<^sup>*\<^sup>* d d'"
  shows "length (filter (\<lambda>r. active_source r \<and> vr_source_root_sha256 r = Some h) (rd_runs d')) \<le> 1
    \<and> length (filter (\<lambda>r. vr_idempotency_key r = Some key) (rd_runs d')) \<le> 1
    \<and> (valid_idempotency_key key \<and> configuration_errors st = [] \<and> existing_for_key key d' = Some r
         \<and> vr_request_sha256 r = Some (request_sha256 en rq)
       \<longrightarrow> start_verification en st rq key u now d' d' = (Inr (summary r), d'))"
proof -
  have ok: "run_constraints (rd_runs d')" using cert_reach [OF assms(2,1)] by (simp add: runs_ok_def)
  have one: "length (filter (\<lambda>x. f x = Some k) xs) \<le> 1" if "distinct (filter (\<lambda>k. k \<noteq> None) (map f xs))"
    for f :: "verification_run \<Rightarrow> string option" and k xs
  proof -
    have e: "map f (filter (\<lambda>x. f x = Some k) xs) = filter (\<lambda>y. y = Some k) (filter (\<lambda>k. k \<noteq> None) (map f xs))"
      by (induction xs) auto
    have "distinct (map f (filter (\<lambda>x. f x = Some k) xs))" unfolding e using that by (rule distinct_filter)
    then have "card (set (map f (filter (\<lambda>x. f x = Some k) xs))) = length (filter (\<lambda>x. f x = Some k) xs)"
      by (simp only: distinct_card length_map)
    moreover have "set (map f (filter (\<lambda>x. f x = Some k) xs)) \<subseteq> {Some k}" by auto
    then have "card (set (map f (filter (\<lambda>x. f x = Some k) xs))) \<le> card {Some k}" by (rule card_mono [rotated]) simp
    ultimately show ?thesis by simp
  qed
  have "filter (\<lambda>r. active_source r \<and> vr_source_root_sha256 r = Some h) (rd_runs d')
      = filter (\<lambda>r. vr_source_root_sha256 r = Some h) (filter active_source (rd_runs d'))"
    by (auto intro: filter_cong)
  then show ?thesis
    using one [of vr_source_root_sha256 "filter active_source (rd_runs d')" h] one [of vr_idempotency_key "rd_runs d'" key] ok
    by (auto simp: run_constraints_def start_verification_def Let_def idempotent_or_conflict_def)
qed

text \<open>Normalising a normalised path changes nothing.\<close>

lemma norm_comps_clean:
  assumes "list_all (\<lambda>c. c \<noteq> [] \<and> c \<noteq> ''.'' \<and> c \<noteq> ''..'') cs"
  shows "norm_comps True acc cs = rev acc @ cs"
  using assms by (induction cs arbitrary: acc) auto

lemma norm_comps_empties: "norm_comps True [] (replicate n [] @ cs) = norm_comps True [] cs"
  by (induction n) auto

lemma normpath_idem:
  assumes "is_absolute p"
  shows "normpath (normpath p) = normpath p" "is_absolute (normpath p)"
proof -
  let ?n = "leading_slashes p" and ?cs = "norm_comps True [] (py_split (CHR ''/'') p)"
  have n: "?n \<in> {1, 2}" using assms by (auto simp: is_absolute_slashes leading_slashes_def split: if_splits)
  have np: "p \<noteq> []" using assms by (auto simp: is_absolute_def py_startswith_def)
  let ?body = "py_join ''/'' ?cs"
  have eq: "normpath p = replicate ?n (CHR ''/'') @ ?body"
    using n np by (auto simp: normpath_def Let_def)
  have cs: "list_all (\<lambda>c. c \<noteq> [] \<and> c \<noteq> ''.'' \<and> c \<noteq> ''..'') ?cs"
    using norm_comps_no_dotdot [of True "[]" "py_split (CHR ''/'') p"] by (auto simp: list_all_iff)
  have sep: "\<forall>w\<in>set ?cs. CHR ''/'' \<notin> set w"
    using norm_comps_no_sep [of "[]" "CHR ''/''" "py_split (CHR ''/'') p" _ True] split_no_sep by auto
  have hd: "?body = [] \<or> hd ?body \<noteq> CHR ''/''"
  proof (cases ?cs)
    case (Cons w ws)
    with cs sep have "w \<noteq> []" "CHR ''/'' \<notin> set w" by auto
    then show ?thesis unfolding Cons by (cases w; cases ws) auto
  qed simp
  have lead: "leading_slashes (replicate ?n (CHR ''/'') @ ?body) = ?n"
    using n hd by (cases ?body) (auto simp: leading_slashes_def py_startswith_def numeral_2_eq_2)
  have "norm_comps True [] (py_split (CHR ''/'') (replicate ?n (CHR ''/'') @ ?body)) = ?cs"
  proof (cases "?cs = []")
    case True
    then show ?thesis
      using split_slashes [of "CHR ''/''" ?n "[]"] norm_comps_empties [of ?n "[[]]"] by simp
  next
    case False
    then show ?thesis
      using split_join [OF False sep] norm_comps_clean [OF cs, of "[]"] by (simp add: split_slashes norm_comps_empties)
  qed
  moreover have "replicate ?n (CHR ''/'') @ ?body \<noteq> []" "(0 < ?n) = True" using n by auto
  ultimately have "normpath (replicate ?n (CHR ''/'') @ ?body) = replicate ?n (CHR ''/'') @ ?body"
    unfolding normpath_def [of "replicate ?n (CHR ''/'') @ ?body"] Let_def lead by simp
  then show "normpath (normpath p) = normpath p" by (simp only: eq)
  show "is_absolute (normpath p)" using n lead unfolding eq is_absolute_slashes by auto
qed

lemma canonical_path_idem:
  assumes "is_absolute cwd"
  shows "canonical_path cwd (canonical_path cwd p) = canonical_path cwd p"
proof -
  have "is_absolute (path_join cwd p)"
    using assms by (cases cwd) (auto simp: path_join_def is_absolute_def py_startswith_def)
  from normpath_idem [OF this] show ?thesis by (simp add: canonical_path_def path_join_def)
qed

section \<open>The contract\<close>

text \<open>What pydantic documents of its conversions: a value that already has the type is kept.\<close>

definition lax_ok :: "(string \<Rightarrow> pyval \<Rightarrow> pyval option) \<Rightarrow> bool" where
  "lax_ok lax = ((\<forall>b. lax ''bool'' (PBool b) = Some (PBool b)) \<and> (\<forall>i. lax ''int'' (PInt i) = Some (PInt i))
     \<and> (\<forall>s. lax ''str'' (PStr s) = Some (PStr s)))"

lemma effective_round_trip:
  assumes "lax_ok lax" "settings_ok st" "st_release_digest st = Some digest" "case_option True (\<lambda>n. 1 \<le> n \<and> n \<le> 10000) (rq_limit rq)"
    "is_sha256_hex h"
  shows "effective_validate lax (effective_config en st rq h) = Some
    \<lparr>ef_schema_revision = env_schema_revision en, ef_release_digest = digest, ef_root_sha256 = h, ef_book_limit = rq_limit rq,
     ef_providers = [''google_books_isbn'', ''openlibrary_isbn''], ef_ocr_enabled = rq_use_ocr rq,
     ef_ocr_language = st_ocr_language st, ef_ocr_max_pages = st_ocr_max_pages st,
     ef_ocr_timeout_seconds = st_ocr_timeout_seconds st\<rparr>"
proof -
  have lax: "lax_bool lax (PBool b) = Some b" "lax_int lax lo hi (PInt i) = (if lo \<le> i \<and> i \<le> hi then Some i else None)"
    "lax_text lax P (PStr s) = (if P s then Some s else None)" for b lo hi i P s
    using assms(1) by (simp_all add: lax_ok_def lax_bool_def lax_int_def lax_text_def)
  have "limits_contract lax (PDict [(''book_limit'', case rq_limit rq of None \<Rightarrow> PNone | Some n \<Rightarrow> PInt n)]) = Some (rq_limit rq)"
    using assms(4) by (auto simp: limits_contract_def model_fields_def dict_has_def pget_def dict_get_def lax split: option.splits)
  moreover have "source_contract lax (PDict [(''kind'', PStr ''offline-folder''), (''root_sha256'', PStr h)]) = Some h"
    using assms(5) by (simp add: source_contract_def model_fields_def dict_has_def pget_def dict_get_def lax)
  moreover have "recognition_contract lax (PDict
        [(''ocr_enabled'', PBool (rq_use_ocr rq)), (''ocr_backend'', PStr ''tesseract''),
         (''ocr_language'', PStr (st_ocr_language st)), (''ocr_max_pages'', PInt (st_ocr_max_pages st)),
         (''ocr_timeout_seconds'', PInt (st_ocr_timeout_seconds st)), (''vision_enabled'', PBool False),
         (''llm_enabled'', PBool False)]) = Some (rq_use_ocr rq, st_ocr_language st, st_ocr_max_pages st, st_ocr_timeout_seconds st)"
    using assms(2) by (simp add: recognition_contract_def model_fields_def dict_has_def pget_def dict_get_def lax settings_ok_def)
  moreover have "privacy_contract (PDict [(''remote_text'', PBool False), (''remote_images'', PBool False)])"
    by (simp add: privacy_contract_def model_fields_def dict_has_def pget_def dict_get_def)
  moreover have "is_release_digest digest" using assms(2,3) by (simp add: settings_ok_def)
  ultimately show ?thesis
    by (simp add: effective_validate_def effective_config_def model_fields_def dict_has_def pget_def dict_get_def lax
        provider_names_def CERTIFICATE_A_CONTRACT_VERSION_def assms(3) opt_str_def)
qed

lemma configuration_okD:
  assumes "configuration_errors st = []"
  shows "st_profile st = ''production''" "st_release_digest st \<noteq> None" "st_library_path st \<noteq> None" "st_library_read_only st"
  using assms by (auto simp: configuration_errors_def split: if_splits)

text \<open>The canonical library root of the settings.\<close>

definition the_path :: "env \<Rightarrow> settings \<Rightarrow> string" where
  "the_path en st = (case st_library_path st of None \<Rightarrow> [] | Some p \<Rightarrow> canonical_path (env_cwd en) p)"

text \<open>
  Claim C27. The contract survives the database: a run accepted under valid settings can be claimed at once by any verifier, and under the
  same settings the verifier rebuilds exactly what was requested: the canonical library root, the release digest, the book
  limit, the OCR switch, language, page and time limits, and the two exact-ISBN providers; no valid request ends in
  \<open>blocked_recovery\<close>.
\<close>

theorem contract_round_trip:
  assumes "runs_ok d" "mk_verify_request limit use_ocr confirm = Inr rq"
    and "start_verification en st rq key u now seen d = (Inr sm, d1)" "d1 \<noteq> d"
    and "settings_ok st" "lax_ok lax" "is_absolute (env_cwd en)" "is_sha256_hex (env_sha256 en (the_path en st))"
    and "owner \<noteq> []" "int (length owner) \<le> 128" "n < m + seconds (max 3 ttl)"
  shows "\<exists>c d2 ct. claim_next_certificate_a_run owner m ttl (Some (sm_run_id sm)) d1 = (Inr (Some c), d2)
    \<and> load_certificate_a_contract lax en st c n d2 = Inr ct \<and> ct_run_id ct = sm_run_id sm \<and> ct_book_limit ct = limit
    \<and> ct_use_ocr ct = use_ocr \<and> ct_source_root ct = the_path en st
    \<and> Some (ct_release_digest ct) = st_release_digest st
    \<and> ct_ocr_language ct = st_ocr_language st \<and> ct_ocr_max_pages ct = st_ocr_max_pages st
    \<and> ct_ocr_timeout_seconds ct = st_ocr_timeout_seconds st \<and> ct_providers ct = [''google_books_isbn'', ''openlibrary_isbn'']"
proof -
  from assms(3,4) obtain source_root where st: "configuration_errors st = []" "canonical_root en st = Inr source_root"
      "add_run (new_run en st rq (next_id (map vr_id (rd_runs d))) u now key source_root) d = Inr d1"
      "sm = summary (new_run en st rq (next_id (map vr_id (rd_runs d))) u now key source_root)"
    unfolding start_verification_def Let_def by (auto split: if_splits option.splits sum.splits)
  let ?r = "new_run en st rq (next_id (map vr_id (rd_runs d))) u now key source_root"
  have path: "source_root = the_path en st" using st(2) by (auto simp: canonical_root_def the_path_def split: option.splits)
  have rq: "rq_limit rq = limit" "rq_use_ocr rq = use_ocr" "case_option True (\<lambda>n. 1 \<le> n \<and> n \<le> 10000) (rq_limit rq)"
    using assms(2) by (auto simp: mk_verify_request_def split: if_splits option.splits)
  have ok1: "runs_ok d1"
    using add_run_sound [OF assms(1) st(3)] by (simp add: new_run_def lifecycle_def ACTIVE_STATUSES_def)
  have "?r \<in> set (rd_runs d1)" using st(3) by (auto simp: add_run_def split: if_splits)
  from find_run_in [OF ok1 this] have find: "find_run (sm_run_id sm) d1 = Some ?r" by (simp add: st(4) summary_def)
  moreover have "claim_predicate m ?r" by (simp add: new_run_def claim_predicate_def CLAIMABLE_STATUSES_def)
  ultimately have cand: "claim_candidate m (Some (sm_run_id sm)) d1 = Some ?r" by (simp add: claim_candidate_eq [OF ok1])
  have id: "vr_run_id ?r = sm_run_id sm" using find_runD [OF find] by simp
  obtain c d2 where claim: "claim_next_certificate_a_run owner m ttl (Some (sm_run_id sm)) d1 = (Inr (Some c), d2)" "cl_run_id c = sm_run_id sm"
    using assms(9,10) cand id by (auto simp: claim_next_certificate_a_run_def Let_def)
  have own: "load_owned_run c n d2 = Inr (claimed_run owner m (m + seconds (max 3 ttl)) ?r)"
  proof (rule fresh_claim [OF ok1 claim(1)])
    fix run
    assume "find_run (cl_run_id c) d1 = Some run" "find_run (cl_run_id c) d2 = Some (claimed_run owner m (m + seconds (max 3 ttl)) run)"
      "\<And>n. heartbeat_matches c n (claimed_run owner m (m + seconds (max 3 ttl)) run) \<longleftrightarrow> n < m + seconds (max 3 ttl)"
    with find claim(2) assms(11) show ?thesis unfolding load_owned_run_Inr by simp
  qed
  obtain p where p: "st_library_path st = Some p" "the_path en st = canonical_path (env_cwd en) p"
    using st(1) by (auto dest: configuration_okD simp: the_path_def)
  obtain digest where digest: "st_release_digest st = Some digest" using st(1) by (auto dest: configuration_okD)
  note eff = effective_round_trip [OF assms(6,5) digest rq(3) assms(8), of en]
  have root: "absolute_lexical en (the_path en st) = the_path en st" "absolute_lexical en p = the_path en st"
    using canonical_path_idem [OF assms(7)] p(2) by (simp_all add: absolute_lexical_def)
  have row: "vr_effective_config ?r = effective_config en st rq (env_sha256 en (the_path en st))"
    "vr_source_root ?r = Some (the_path en st)" "vr_source_root_sha256 ?r = Some (env_sha256 en (the_path en st))"
    by (simp_all add: new_run_def sha256_text_def path)
  have "load_certificate_a_contract lax en st c n d2 = Inr \<lparr>ct_run_id = cl_run_id c, ct_source_root = the_path en st,
      ct_source_root_sha256 = env_sha256 en (the_path en st), ct_release_digest = digest, ct_book_limit = limit,
      ct_use_ocr = use_ocr, ct_ocr_backend = ''tesseract'', ct_ocr_language = st_ocr_language st,
      ct_ocr_max_pages = st_ocr_max_pages st, ct_ocr_timeout_seconds = st_ocr_timeout_seconds st,
      ct_providers = [''google_books_isbn'', ''openlibrary_isbn'']\<rparr>"
    using configuration_okD [OF st(1)]
    by (simp add: load_certificate_a_contract_def own check_contract_def Let_def eff row root digest p(1) rq(1,2))
  with claim digest show ?thesis by simp
qed

section \<open>A concrete run\<close>

definition cert_env :: env where
  "cert_env = demo_env\<lparr>env_sha256 := (\<lambda>_. replicate 64 (CHR ''a''))\<rparr>"

definition cert_settings :: settings where
  "cert_settings = \<lparr>st_profile = ''production'', st_database_backend = ''postgres'', st_queue_backend = ''valkey'',
     st_release_digest = Some (''sha256:'' @ replicate 64 (CHR ''b'')), st_library_path = Some ''/lib'', st_library_read_only = True,
     st_allow_remote_file_upload = False, st_allow_remote_text = False, st_allow_remote_images = False, st_calibre_fetch = False,
     st_google_books = True, st_openlibrary = True, st_ocr_backends = [''tesseract''], st_ocr_language = ''en'', st_ocr_max_pages = 6,
     st_ocr_timeout_seconds = 180, st_vision_enabled = False, st_ollama_enabled = False, st_lmstudio_enabled = False,
     st_open_ai_api_key = None, st_auto_apply_enabled = False, st_supervised_pilot_enabled = False, st_paperless_enabled = False,
     st_gotenberg_enabled = False, st_tika_enabled = False, st_vectors_enabled = False, st_manga_enabled = False,
     st_lease_ttl_seconds = 120\<rparr>"

definition cert_request :: verify_request where
  "cert_request = \<lparr>rq_limit = Some 5, rq_use_ocr = True\<rparr>"

definition cert_run :: verification_run where
  "cert_run = new_run cert_env cert_settings cert_request 1 ''u'' 0 ''idempotency-key-1'' ''/lib''"

definition no_runs :: run_db where
  "no_runs = \<lparr>rd_runs = [], rd_results = [], rd_main = empty_db\<rparr>"

definition requested_db :: run_db where
  "requested_db = no_runs\<lparr>rd_runs := [cert_run]\<rparr>"

lemma cert_run_simps [simp]:
  "vr_id cert_run = 1" "vr_run_id cert_run = ''verify_u''" "vr_status cert_run = ''pending''" "vr_started_at cert_run = 0"
  "vr_finished_at cert_run = None" "vr_contract_version cert_run = Some CERTIFICATE_A_CONTRACT_VERSION"
  "vr_pipeline_version cert_run = ''manifestation-v2''" "vr_mode cert_run = ''shadow''" "vr_idempotency_key cert_run = Some ''idempotency-key-1''"
  "vr_lease_owner cert_run = None" "vr_fence_token cert_run = 0" "vr_request_sha256 cert_run = Some (request_sha256 cert_env cert_request)"
  "vr_completed cert_run = 0" "vr_counts cert_run = []" "vr_source_snapshot cert_run = None"
  by (simp_all add: cert_run_def new_run_def)

lemma requested_ok: "runs_ok requested_db" "runs_ok no_runs"
  by (simp_all add: runs_ok_def requested_db_def no_runs_def run_constraints_def lifecycle_def ACTIVE_STATUSES_def result_keys_ok_def
      active_source_def)

lemma cert_ready: "configuration_errors cert_settings = []" "settings_ok cert_settings" "valid_idempotency_key ''idempotency-key-1''"
  "is_sha256_hex (env_sha256 cert_env x)" "is_absolute (env_cwd cert_env)"
  by (simp_all add: configuration_errors_def cert_settings_def settings_ok_def is_release_digest_def py_startswith_def
      py_removeprefix_def is_sha256_hex_def list_all_iff is_hex_lower_def is_language_code_def is_lower_def is_upper_def is_digit_def
      valid_idempotency_key_def cert_env_def demo_env_def is_absolute_def Let_def)

lemma cert_claim:
  "\<exists>c d. claim_next_certificate_a_run ''w1'' 0 3 None requested_db = (Inr (Some c), d) \<and> cl_run_id c = ''verify_u''"
  by (simp add: claim_next_certificate_a_run_def Let_def claim_candidate_def requested_db_def no_runs_def claim_predicate_def CLAIMABLE_STATUSES_def)

theorem lease_window_is_exact_witness:
  "\<exists>c d. claim_next_certificate_a_run ''w1'' 0 3 None requested_db = (Inr (Some c), d) \<and> is_ok (load_owned_run c 2999999 d)
     \<and> load_owned_run c 3000000 d = Inl lost_lease"
proof -
  obtain c d where c: "claim_next_certificate_a_run ''w1'' 0 3 None requested_db = (Inr (Some c), d)" using cert_claim by blast
  from lease_window_is_exact [OF requested_ok(1) c, of "''w2''" 2999999] lease_window_is_exact [OF requested_ok(1) c, of "''w2''" 3000000]
  have "is_ok (load_owned_run c 2999999 d)" "load_owned_run c 3000000 d = Inl lost_lease" by (simp_all add: seconds_def)
  with c show ?thesis by blast
qed

lemma cert_claim_again:
  assumes "claim_next_certificate_a_run ''w1'' 0 3 None requested_db = (Inr (Some c), d)"
  shows "\<exists>c' d'. claim_next_certificate_a_run ''w2'' 3000000 3 (Some (cl_run_id c)) d = (Inr (Some c'), d') \<and> cl_run_id c' = cl_run_id c"
proof (rule fresh_claim [OF requested_ok(1) assms])
  fix run
  let ?r = "claimed_run ''w1'' 0 (0 + seconds (max 3 3)) run"
  assume f: "find_run (cl_run_id c) d = Some ?r" and p: "\<And>n. claim_predicate n ?r \<longleftrightarrow> 0 + seconds (max 3 3) \<le> n"
  have ok: "runs_ok d" using run_claim_sound [OF requested_ok(1) assms] by (simp add: op_sound_def)
  have "claim_candidate 3000000 (Some (cl_run_id c)) d = Some ?r"
    using f p [of 3000000] by (simp add: claim_candidate_eq [OF ok] seconds_def)
  then show ?thesis using find_runD [OF f] by (auto simp: claim_next_certificate_a_run_def Let_def)
qed

theorem stale_verifier_is_refused_witness:
  "\<exists>c c' d1 d3. claim_next_certificate_a_run ''w1'' 0 3 None requested_db = (Inr (Some c), d1)
     \<and> claim_next_certificate_a_run ''w2'' 3000000 3 (Some (cl_run_id c)) d1 = (Inr (Some c'), d3)
     \<and> cl_fence_token c < cl_fence_token c' \<and> refused (store_record_state c ''b'' bs_review 1 d3) d3"
proof -
  obtain c d1 where c: "claim_next_certificate_a_run ''w1'' 0 3 None requested_db = (Inr (Some c), d1)" using cert_claim by blast
  obtain c' d3 where c': "claim_next_certificate_a_run ''w2'' 3000000 3 (Some (cl_run_id c)) d1 = (Inr (Some c'), d3)"
      "cl_run_id c' = cl_run_id c" using cert_claim_again [OF c] by blast
  show ?thesis
    using c c' stale_verifier_is_refused [OF requested_ok(1) c rtranclp.rtrancl_refl c' rtranclp.rtrancl_refl, where en = cert_env] by blast
qed

definition finished_db :: run_db where
  "finished_db = requested_db\<lparr>rd_runs := [cert_run\<lparr>vr_status := ''completed'', vr_finished_at := Some 9, vr_lease_expires_at := None\<rparr>]\<rparr>"

theorem finished_runs_are_final_witness:
  "\<exists>run. find_run ''verify_u'' (snd (cancel_run ''verify_u'' 10 finished_db)) = Some run \<and> vr_status run = ''completed''"
proof -
  have "runs_ok finished_db" "finished_run ''verify_u'' finished_db"
    by (simp_all add: runs_ok_def finished_db_def requested_db_def no_runs_def run_constraints_def lifecycle_def TERMINAL_STATUSES_def
        result_keys_ok_def active_source_def counts_exact_def results_of_def dict_get_Nil ACTIVE_STATUSES_def certified_def finished_run_def)
  moreover have "(cert_step cert_env)\<^sup>*\<^sup>* finished_db (snd (cancel_run ''verify_u'' 10 finished_db))"
    by (rule r_into_rtranclp) (rule cert_step.cancel)
  ultimately have final: "\<exists>run. find_run ''verify_u'' finished_db = Some run
      \<and> find_run ''verify_u'' (snd (cancel_run ''verify_u'' 10 finished_db)) = Some run"
    using finished_runs_are_final by blast
  have "find_run ''verify_u'' finished_db = Some (cert_run\<lparr>vr_status := ''completed'', vr_finished_at := Some 9, vr_lease_expires_at := None\<rparr>)"
    by (simp add: find_run_def finished_db_def row_first_def)
  with final show ?thesis by auto
qed

definition member_db :: run_db where
  "member_db = requested_db\<lparr>rd_results := [\<lparr>vx_id = 1, vx_result_id = ''r1'', vx_run_id = ''verify_u'', vx_book_key = ''calibre-offline:f:1'',
     vx_verdict = [], vx_evidence_id = None, vx_state = ''pending'', vx_created_at = 0\<rparr>]\<rparr>"

theorem membership_is_frozen_witness:
  "\<exists>d. (cert_step cert_env)\<^sup>*\<^sup>* member_db d \<and> map vx_book_key (results_of ''verify_u'' d) = [''calibre-offline:f:1'']
     \<and> refused (store_inventory \<lparr>cl_run_id = ''verify_u'', cl_owner = ''w'', cl_fence_token = 1\<rparr> [''other''] [] 1 1 [] d) d"
proof -
  let ?c = "\<lparr>cl_run_id = ''verify_u'', cl_owner = ''w'', cl_fence_token = 1\<rparr>"
  define d where "d = snd (cancel_run ''verify_u'' 10 member_db)"
  have ok: "runs_ok member_db"
    using requested_ok(1) by (simp add: runs_ok_def member_db_def requested_db_def no_runs_def result_keys_ok_def certified_def)
  have r: "results_of ''verify_u'' member_db \<noteq> []" "map vx_book_key (results_of ''verify_u'' member_db) = [''calibre-offline:f:1'']"
    by (simp_all add: results_of_def member_db_def)
  have s: "(cert_step cert_env)\<^sup>*\<^sup>* member_db d"
    unfolding d_def by (rule r_into_rtranclp) (rule cert_step.cancel)
  have m: "map vx_book_key (results_of ''verify_u'' d) = map vx_book_key (results_of ''verify_u'' member_db) \<and> distinct (map vx_book_key (results_of ''verify_u'' d))
    \<and> (cl_run_id ?c = ''verify_u'' \<and> set [''other''] \<noteq> set (map vx_book_key (results_of ''verify_u'' member_db))
       \<longrightarrow> refused (store_inventory ?c [''other''] [] 1 1 [] d) d)"
    by (rule membership_is_frozen [OF ok r(1) s])
  have "cl_run_id ?c = ''verify_u''" "set [''other''] \<noteq> set (map vx_book_key (results_of ''verify_u'' member_db))"
    unfolding r(2) by simp_all
  with m have no: "refused (store_inventory ?c [''other''] [] 1 1 [] d) d" by blast
  have same: "map vx_book_key (results_of ''verify_u'' d) = [''calibre-offline:f:1'']" using m r(2) by (simp only:)
  show ?thesis by (rule exI [of _ d]) (intro conjI s same no)
qed

theorem one_active_run_per_source_witness:
  "start_verification cert_env cert_settings cert_request ''idempotency-key-1'' ''v'' 9 requested_db requested_db
     = (Inr (summary cert_run), requested_db)"
proof -
  have "existing_for_key ''idempotency-key-1'' requested_db = Some cert_run"
    by (simp add: existing_for_key_def requested_db_def row_first_def)
  with one_active_run_per_source [OF requested_ok(1) rtranclp.rtrancl_refl, where en = cert_env and key = "''idempotency-key-1''" and st = cert_settings
      and r = cert_run and rq = cert_request and u = "''v''" and now = 9] cert_ready show ?thesis by simp
qed

theorem contract_round_trip_witness:
  "\<exists>sm d1 c d2 ct. start_verification cert_env cert_settings cert_request ''idempotency-key-1'' ''u'' 0 no_runs no_runs = (Inr sm, d1)
     \<and> claim_next_certificate_a_run ''w1'' 0 120 (Some (sm_run_id sm)) d1 = (Inr (Some c), d2)
     \<and> load_certificate_a_contract (\<lambda>k v. Some v) cert_env cert_settings c 1 d2 = Inr ct \<and> ct_book_limit ct = Some 5 \<and> ct_use_ocr ct"
proof -
  have "canonical_root cert_env cert_settings = Inr ''/lib''" by code_simp
  moreover have "add_run cert_run no_runs = Inr requested_db"
    by (simp add: add_run_def no_runs_def requested_db_def run_constraints_def active_source_def)
  ultimately have start: "start_verification cert_env cert_settings cert_request ''idempotency-key-1'' ''u'' 0 no_runs no_runs
      = (Inr (summary cert_run), requested_db)"
    using cert_ready
    by (simp add: start_verification_def Let_def existing_for_key_def active_for_source_def cert_run_def no_runs_def row_first_def next_id_def)
  have "mk_verify_request (Some 5) True True = Inr cert_request" by (simp add: mk_verify_request_def cert_request_def)
  note trip = contract_round_trip [OF requested_ok(2) this start _ cert_ready(2) _ cert_ready(5,4), of "\<lambda>k v. Some v" "''w1''" 1 0 120]
  have "requested_db \<noteq> no_runs" by (simp add: requested_db_def no_runs_def)
  with trip start show ?thesis by (auto simp: lax_ok_def seconds_def)
qed

end
