(* ===== verification/Demo.thy ===== *)
theory Demo
  imports Executor Fencing
begin

text \<open>One claim executed on a library of one book without formats, for the witness of the theory Execution.\<close>

definition demo_cb :: calibre_db where
  "demo_cb = \<lparr>cb_query_only = 1, cb_quick_check = Some ''ok'', cb_application_id = CALIBRE_APPLICATION_ID, cb_user_version = 27,
     cb_tables = REQUIRED_COLUMNS,
     cb_books = [\<lparr>br_id = 3, br_title = PStr ''Dune'', br_timestamp = PNone, br_pubdate = PNone, br_series_index = PFloat ''1.0'',
       br_author_sort = PNone, br_path = PStr ''a/b'', br_uuid = PNone, br_has_cover = PInt 0, br_last_modified = PNone\<rparr>],
     cb_data = [], cb_identifiers = [], cb_comments = [], cb_authors = [], cb_authors_link = [], cb_publishers = [],
     cb_publishers_link = [], cb_series = [], cb_series_link = [], cb_languages = [], cb_languages_link = [], cb_tags = [],
     cb_tags_link = []\<rparr>"

definition demo_fs :: "calibre_db \<Rightarrow> unit fs" where
  "demo_fs cb = \<lparr>fs_ensure_secure_directory = ret, fs_exists = (\<lambda>_. ret False), fs_mkdtemp = (\<lambda>_. ret), fs_rmtree = (\<lambda>_. ret ()),
     fs_copy_file_beneath = (\<lambda>_ _ _ _ _. ret ''m''), fs_sha256_file_beneath = (\<lambda>_ _ _. ret ''m''),
     fs_read = (\<lambda>_ _ _. raise (OSError ''missing'')), fs_connect = (\<lambda>_. ret cb)\<rparr>"

definition demo_enricher :: "unit enricher" where
  "demo_enricher = \<lparr>eh_collect = (\<lambda>_ _. ret \<lparr>er_evidence = [], er_privacy_receipts = [], er_warnings = []\<rparr>),
     eh_collect_materialized = None, eh_collect_aggregate = None\<rparr>"

definition demo_verifier :: "unit verifier_io" where
  "demo_verifier = \<lparr>vi_fs = demo_fs demo_cb, vi_inspect = (\<lambda>_. raise (OSError ''missing'')), vi_build_enricher = (\<lambda>_. ret demo_enricher),
     vi_scratch_dir = ''/tmp'', vi_isoformat = show_int, vi_publish_liveness = ret (), vi_join_heartbeat = ret ()\<rparr>"

definition demo_claim :: claim where
  "demo_claim = \<lparr>cl_run_id = ''verify_u'', cl_owner = ''w1'', cl_fence_token = 1\<rparr>"

definition demo_exec :: "unit exec" where
  "demo_exec = \<lparr>ex_db = requested_db\<lparr>rd_runs := [claimed_run ''w1'' 0 3000000 cert_run]\<rparr>, ex_world = (), ex_others = (\<lambda>_ d. d),
     ex_clock = (\<lambda>_. 1), ex_uuids = show_nat, ex_lost = (\<lambda>_. False), ex_ticks = 0\<rparr>"

lemma demo_run:
  "case execute_certificate_a_claim (\<lambda>_ v. Some v) cert_env cert_settings demo_verifier demo_claim demo_exec of
     (r, s') \<Rightarrow> r = Inr ''completed'' \<and> map vx_state (rd_results (ex_db s')) = [''review'']"
  by code_simp

lemma demo_ready:
  "runs_ok (ex_db demo_exec)" "find_run ''verify_u'' (ex_db demo_exec) = Some (claimed_run ''w1'' 0 3000000 cert_run)"
  "vr_fence_token (claimed_run ''w1'' 0 3000000 cert_run) = 1" "ex_others demo_exec = (\<lambda>_ d. d)"
  "cl_run_id demo_claim = ''verify_u''" "cl_fence_token demo_claim = 1"
proof -
  show "runs_ok (ex_db demo_exec)"
    using requested_ok(1)
    by (simp add: runs_ok_def demo_exec_def requested_db_def no_runs_def claimed_run_def run_constraints_def lifecycle_def
        ACTIVE_STATUSES_def TERMINAL_STATUSES_def active_source_def certified_def counts_exact_def)
qed (simp_all add: demo_exec_def requested_db_def no_runs_def find_run_def row_first_def claimed_run_def demo_claim_def)

end
