(* ===== verification/Execution.thy ===== *)
theory Execution
  imports ExecutorLaws Demo
begin

text \<open>The verifier's end-to-end theorem and a library it is run on.\<close>

section \<open>A run reported complete is complete\<close>

lemma contract_limit:
  assumes "load_certificate_a_contract lax en st c m d = Inr contract"
  shows "\<forall>n. ct_book_limit contract = Some n \<longrightarrow> 0 < n"
proof -
  from assms obtain run where "check_contract lax en st c run = Inr contract"
    by (auto simp: load_certificate_a_contract_def split: sum.splits)
  then obtain ef where ef: "effective_validate lax (vr_effective_config run) = Some ef" "ct_book_limit contract = ef_book_limit ef"
    by (auto simp: check_contract_def Let_def split: option.splits if_splits)
  from ef(1) obtain v where "limits_contract lax v = Some (ef_book_limit ef)"
    by (auto simp: effective_validate_def split: option.splits if_splits prod.splits)
  then show ?thesis
    by (auto simp: ef(2) limits_contract_def lax_int_def split: option.splits if_splits pyval.splits)
qed

lemma with_source_honest:
  fixes s :: "'w exec"
  assumes "at c (claimed c) s" "\<forall>x. is_sha256_hex (env_sha256 en x)" "\<forall>n. ct_book_limit contract = Some n \<longrightarrow> 0 < n"
  shows "wp (with_source en vi contract (audit_source en vi c contract)) (honest c) (\<lambda>_ _. True) s"
proof -
  have opened: "wp (on_world (open_source en (vi_fs vi) (ct_source_root contract) (vi_scratch_dir vi) True))
      (\<lambda>x t. at c (claimed c) t \<and> (case x of (src, _) \<Rightarrow> source_ok en src)) (\<lambda>_ _. True) s"
  proof (rule wp_results [OF _ wp_mono [OF preserves_wp [OF at_preserved(1) assms(1)]]])
    show "results (on_world (open_source en (vi_fs vi) (ct_source_root contract) (vi_scratch_dir vi) True)) (\<lambda>(src, _). source_ok en src)"
      using open_source_results [of en "vi_fs vi" "ct_source_root contract" "vi_scratch_dir vi" True]
      by (fastforce simp: results_def on_world_def split: prod.splits)
  qed simp_all
  have close: "wp (thn (on_world m) (ret x)) (honest c) (\<lambda>_ _. True) t" if "honest c x t" for m x and t :: "'w exec"
    using that by (simp add: wp_def thn_def bnd_def on_world_def ret_def honest_def split: prod.split sum.split)
  have failed: "wp (thn (on_world m) (raise e)) (honest c) (\<lambda>_ _. True) t" for m e and t :: "'w exec"
    by (simp add: wp_def thn_def bnd_def on_world_def raise_def split: prod.split sum.split)
  show ?thesis
    unfolding with_source_def wp_bnd
    by (rule wp_mono [OF opened])
      (auto simp: wp_try_else any_exception_def failed
        intro!: wp_mono [OF audit_source_honest [OF _ _ assms(2,3)]] close)
qed

lemma execute_honest:
  fixes s :: "'w exec"
  assumes "at c (claimed c) s" "\<forall>x. is_sha256_hex (env_sha256 en x)"
  shows "wp (execute_certificate_a_claim lax en st vi c) (honest c) (\<lambda>_ _. True) s"
proof -
  have steps: "wp (execute_steps lax en st vi c) (honest c) (\<lambda>_ _. True) t" if "at c (claimed c) t" for t :: "'w exec"
    unfolding execute_steps_def wp_bnd
    by (rule wp_mono [OF wp_transact_read [OF that, where Q = "\<lambda>contract d. claimed c d \<and> (\<forall>n. ct_book_limit contract = Some n \<longrightarrow> 0 < n)"]])
      (use contract_limit in \<open>auto simp: at_def intro!: unless_cancelled_honest [where P = "claimed c"] with_source_honest assms(2)\<close>)
  have ended: "wp (case ending e of None \<Rightarrow> raise e | Some (status, code) \<Rightarrow> thn (tx_finish c status (Some code)) (ret status))
      (honest c) (\<lambda>_ _. True) t" for e and t :: "'w exec"
  proof -
    have "wp (thn (tx_finish c status (Some code)) (ret status)) (honest c) (\<lambda>_ _. True) t"
      if "status \<notin> {''completed'', ''completed_with_errors''}" for status code
      by (rule wp_mono [OF wp_outcome [where P = "\<lambda>x. x = status"]])
        (use that in \<open>auto intro!: results_thn simp: results_simps honest_def\<close>)
    then show ?thesis by (cases e) (simp_all add: ending_def wp_eqs)
  qed
  have guarded: "wp (execute_guarded lax en st vi c) (honest c) (\<lambda>_ _. True) t" if "at c (claimed c) t" for t :: "'w exec"
    unfolding execute_guarded_def wp_try_except any_exception_def by (rule wp_mono [OF steps [OF that]]) (simp_all add: ended)
  have leave: "wp (thn (on_world m) (ret x)) (honest c) (\<lambda>_ _. True) t" if "honest c x t" for m x and t :: "'w exec"
    using that by (simp add: wp_def thn_def bnd_def on_world_def ret_def honest_def split: prod.split sum.split)
  have failed: "wp (thn (on_world m) (raise e)) (honest c) (\<lambda>_ _. True) t" for m e and t :: "'w exec"
    by (simp add: wp_def thn_def bnd_def on_world_def raise_def split: prod.split sum.split)
  show ?thesis
    unfolding execute_certificate_a_claim_def wp_thn [of "on_world (vi_publish_liveness vi)"]
    by (rule wp_mono [OF preserves_wp [OF at_preserved(1) assms(1)]])
      (auto simp: wp_try_else any_exception_def failed intro!: wp_mono [OF guarded] leave)
qed

text \<open>
  Claim C30. A Certificate A run reported complete is complete: when the execution of a claim returns completed or
  completed\_with\_errors, the run is finished with that status, its counter equals the size of its frozen inventory, every book of
  the inventory has a sealed package in a terminal state, none of them was found changed, and without the words "with errors" none
  has failed. Between any two transactions of the executor, other processes may have committed any number of requests,
  cancellations, heartbeats, claims, and store operations under any other claim. The hash gives hexadecimal digests.
\<close>

theorem completed_run_is_complete:
  fixes s :: "'w exec"
  assumes "runs_ok (ex_db s)" "find_run (cl_run_id c) (ex_db s) = Some r" "cl_fence_token c \<le> vr_fence_token r"
    and others: "\<And>n d. (other_step en c)\<^sup>*\<^sup>* d (ex_others s n d)"
    and hex: "\<And>x. is_sha256_hex (env_sha256 en x)"
    and result: "execute_certificate_a_claim lax en st vi c s = (Inr status, s')" "status \<in> {''completed'', ''completed_with_errors''}"
  shows "\<exists>run. find_run (cl_run_id c) (ex_db s') = Some run \<and> vr_status run = status \<and> vr_finished_at run \<noteq> None
    \<and> vr_completed run = vr_total run \<and> vr_total run = int (length (results_of (cl_run_id c) (ex_db s')))
    \<and> (\<forall>x\<in>set (results_of (cl_run_id c) (ex_db s')). sealed_result x \<and> vx_state x \<noteq> ''source_changed''
        \<and> (status = ''completed'' \<longrightarrow> vx_state x \<noteq> ''failed''))"
proof -
  have "at c (claimed c) s" using assms(1-3) other_steps_hands_off [OF others] by (auto simp: at_def claimed_def)
  from wpD [OF execute_honest [OF this] result(1)] hex have "honest c status s'" by blast
  with result(2) show ?thesis by (auto simp: honest_def complete_run_def final_def)
qed

theorem completed_run_is_complete_witness:
  "\<exists>s' run. execute_certificate_a_claim (\<lambda>_ v. Some v) cert_env cert_settings demo_verifier demo_claim demo_exec = (Inr ''completed'', s')
     \<and> find_run ''verify_u'' (ex_db s') = Some run \<and> vr_status run = ''completed'' \<and> vr_completed run = vr_total run
     \<and> map vx_state (rd_results (ex_db s')) = [''review'']"
proof -
  obtain s' where run: "execute_certificate_a_claim (\<lambda>_ v. Some v) cert_env cert_settings demo_verifier demo_claim demo_exec = (Inr ''completed'', s')"
      and one: "map vx_state (rd_results (ex_db s')) = [''review'']"
    using demo_run by (auto split: prod.splits)
  have "\<exists>r. find_run (cl_run_id demo_claim) (ex_db s') = Some r \<and> vr_status r = ''completed'' \<and> vr_finished_at r \<noteq> None
      \<and> vr_completed r = vr_total r \<and> vr_total r = int (length (results_of (cl_run_id demo_claim) (ex_db s')))
      \<and> (\<forall>x\<in>set (results_of (cl_run_id demo_claim) (ex_db s')). sealed_result x \<and> vx_state x \<noteq> ''source_changed''
          \<and> (''completed'' = ''completed'' \<longrightarrow> vx_state x \<noteq> ''failed''))"
    by (rule completed_run_is_complete [OF demo_ready(1) _ _ _ _ run, where r = "claimed_run ''w1'' 0 3000000 cert_run"]) (simp_all add: demo_ready cert_ready)
  with run one demo_ready(5) show ?thesis by auto
qed

end
