(* ===== verification/Writer.thy ===== *)
theory Writer
  imports ApplyEngine "HOL-Library.Multiset"
begin

text \<open>
  The metadata writer (src/src/calibre\_ai\_auditor/apply/writer.py): claiming, processing, undoing and
  failing operations, crash reconciliation, and one iteration of the writer loop of cli/main.py.
\<close>

section \<open>Reading metadata\<close>

text \<open>\<open>str(a or b or "")\<close>\<close>

definition edition_text :: "pydict \<Rightarrow> string" where
  "edition_text observed =
     py_str (py_or (py_or (pget observed ''#edition'') (pget observed ''edition_statement'')) (PStr []))"

fun matches_items :: "'w io \<Rightarrow> pydict \<Rightarrow> pydict \<Rightarrow> 'w \<Rightarrow> bool res" where
  "matches_items io observed [] w = Inr True"
| "matches_items io observed ((field, expected) # items) w =
     (if field \<in> set VOLATILE_METADATA_FIELDS then matches_items io observed items w
      else if field = ''edition_statement'' then
        (if edition_text observed \<noteq> py_str (py_or expected (PStr [])) then Inr False
         else matches_items io observed items w)
      else case (field = ''cover'', expected) of
        (True, PDict cover) \<Rightarrow>
          (case pget observed ''cover'' of
             PStr cover_path \<Rightarrow>
               (if \<not> io_is_file io cover_path w then Inr False
                else case io_sha256_file io cover_path w of
                  Inl e \<Rightarrow> Inl e
                | Inr h \<Rightarrow> if \<not> py_eq (PStr h) (pget cover ''artifact_sha256'') then Inr False
                           else matches_items io observed items w)
           | _ \<Rightarrow> Inr False)
      | _ \<Rightarrow> if \<not> py_eq (pget observed field) expected then Inr False else matches_items io observed items w)"

definition matches_patch :: "'w io \<Rightarrow> pydict \<Rightarrow> pydict \<Rightarrow> ('w, bool) prog" where
  "matches_patch io observed patch = observe (matches_items io observed patch)"

definition lease_active :: "time \<Rightarrow> time \<Rightarrow> bool" where
  "lease_active expires_at now = (expires_at > now)"

definition metadata_file_paths :: "pydict \<Rightarrow> string list" where
  "metadata_file_paths metadata =
     (case pget metadata ''formats'' of
        PStr raw \<Rightarrow> filter (\<lambda>p. p \<noteq> []) (map py_strip (py_split (CHR '','') raw))
      | PList raw \<Rightarrow>
          List.map_filter (\<lambda>item. case item of
              PStr p \<Rightarrow> if py_strip p \<noteq> [] then Some (py_strip p) else None
            | PDict d \<Rightarrow> (case pget d ''path'' of PStr p \<Rightarrow> Some (py_strip p) | _ \<Rightarrow> None)
            | _ \<Rightarrow> None) raw
      | _ \<Rightarrow> [])"

definition secure_library_file_sha256 :: "'w io \<Rightarrow> string \<Rightarrow> string \<Rightarrow> 'w \<Rightarrow> string res" where
  "secure_library_file_sha256 io path library_root w =
     (if \<not> is_absolute path then Inl (ValueError ''ebook path is not absolute'')
      else io_sha256_file_beneath io library_root path None w)"

fun map_res :: "('a \<Rightarrow> 'b res) \<Rightarrow> 'a list \<Rightarrow> 'b list res" where
  "map_res f [] = Inr []"
| "map_res f (x # xs) =
     (case f x of
        Inl e \<Rightarrow> Inl e
      | Inr y \<Rightarrow> (case map_res f xs of Inl e \<Rightarrow> Inl e | Inr ys \<Rightarrow> Inr (y # ys)))"

fun check_hashes :: "'w io \<Rightarrow> string \<Rightarrow> string dict \<Rightarrow> string list \<Rightarrow> 'w \<Rightarrow> unit res" where
  "check_hashes io root expected [] w = Inr ()"
| "check_hashes io root expected (path # paths) w =
     (case secure_library_file_sha256 io path root w of
        Inl e \<Rightarrow> Inl e
      | Inr h \<Rightarrow>
          if Some h \<noteq> dict_get expected path
          then Inl (ValueError (''ebook content hash differs for '' @ path_name path))
          else check_hashes io root expected paths w)"

text \<open>
  The checks of \<open>_verify_v2_live_files\<close> once the package is loaded. Sorting both lists of format and
  hash pairs compares them as multisets.
\<close>

definition check_live_files ::
    "env \<Rightarrow> 'w io \<Rightarrow> evidence_package_v2 \<Rightarrow> pydict \<Rightarrow> bool \<Rightarrow> 'w \<Rightarrow> unit res" where
  "check_live_files en io package live_metadata allow_relocation w =
     (case io_library_path io of
        None \<Rightarrow> Inl (ValueError ''V2 writer requires an explicit configured Calibre library path'')
      | Some library_path \<Rightarrow>
        (let configured_root = canonical_path (env_cwd en) library_path;
             sealed_root = map_option (canonical_path (env_cwd en)) (sn_library_root (pk_snapshot package));
             live_paths = metadata_file_paths live_metadata;
             expected_hashes = dict_update [] (map (\<lambda>f. (fe_path f, fe_sha256 f)) (pk_formats package));
             files = sn_files (pk_snapshot package)
         in if sealed_root \<noteq> Some configured_root
            then Inl (ValueError ''configured Calibre library differs from the sealed snapshot root'')
            else if \<not> distinct live_paths
            then Inl (ValueError ''live Calibre format membership contains duplicate paths'')
            else if map fst expected_hashes \<noteq> files
            then Inl (ValueError ''sealed format evidence is incomplete or reordered'')
            else if \<not> allow_relocation then
              (if live_paths \<noteq> files
               then Inl (ValueError ''live Calibre format membership differs from the sealed snapshot'')
               else check_hashes io configured_root expected_hashes live_paths w)
            else
              (case map_res (\<lambda>path. case secure_library_file_sha256 io path configured_root w of
                    Inl e \<Rightarrow> Inl e
                  | Inr h \<Rightarrow> Inr (py_lower (py_removeprefix (path_suffix path) ''.''), h)) live_paths of
                 Inl e \<Rightarrow> Inl e
               | Inr live_formats \<Rightarrow>
                   if mset live_formats \<noteq> mset (map (\<lambda>f. (py_lower (fe_format f), fe_sha256 f)) (pk_formats package))
                   then Inl (ValueError ''live Calibre formats or content differ from the sealed snapshot'')
                   else Inr ())))"

definition verify_v2_live_files :: "env \<Rightarrow> 'w io \<Rightarrow> string \<Rightarrow> pydict \<Rightarrow> bool \<Rightarrow> ('w, unit) prog" where
  "verify_v2_live_files en io oid live_metadata allow_relocation =
     bnd (get_operation oid) (\<lambda>operation.
     case op_evidence_id operation of
       None \<Rightarrow> raise (ValueError ''V2 operation has no evidence package'')
     | Some eid \<Rightarrow>
         if eid = [] then raise (ValueError ''V2 operation has no evidence package'')
         else
           bnd (query_res (\<lambda>d. load_v2_package en d eid)) (\<lambda>(_, package).
           observe (check_live_files en io package live_metadata allow_relocation)))"

definition align_field :: "pydict \<Rightarrow> string \<Rightarrow> pydict \<Rightarrow> pydict" where
  "align_field observed field target =
     (case dict_get observed field of
        Some v \<Rightarrow> if dict_has target field then dict_set field v target else target
      | None \<Rightarrow> target)"

definition align_verified_calibre_paths :: "string \<Rightarrow> pydict \<Rightarrow> ('w, unit) prog" where
  "align_verified_calibre_paths oid observed =
     bnd (get_operation oid) (\<lambda>operation.
     case op_target_metadata operation of
       None \<Rightarrow> raise (ValueError ''operation target metadata is unavailable'')
     | Some target \<Rightarrow>
         modify_db (upd_operation oid (\<lambda>r. r\<lparr>op_target_metadata :=
           Some (align_field observed ''path'' (align_field observed ''formats'' target))\<rparr>)))"

section \<open>Ledger bookkeeping\<close>

definition finish_outbox :: "string \<Rightarrow> string \<Rightarrow> string option \<Rightarrow> ('w, unit) prog" where
  "finish_outbox oid status error =
     bnd (query_res (\<lambda>d. row_one (\<lambda>e. ob_aggregate_id e = oid) (db_outbox d))) (\<lambda>_.
     thn (modify_db (upd_outbox oid (\<lambda>e. e\<lparr>ob_status := status, ob_last_error := error\<rparr>)))
     (thn (if status = ''published''
           then bnd utc_now (\<lambda>now. modify_db (upd_outbox oid (\<lambda>e. e\<lparr>ob_published_at := Some now\<rparr>)))
           else ret ())
     (bnd (get_operation oid) (\<lambda>operation.
      modify_db (\<lambda>d. d\<lparr>db_locks :=
        filter (\<lambda>l. \<not> (lk_book_key l = op_book_key operation \<and> lk_operation_id l = oid)) (db_locks d)\<rparr>)))))"

definition mark_unknown :: "string \<Rightarrow> string \<Rightarrow> ('w, unit) prog" where
  "mark_unknown oid error =
     bnd (get_operation oid) (\<lambda>operation.
     if op_state operation \<in> {''writing'', ''verifying''} then transition oid ''unknown'' (Some error)
     else if op_state operation = ''restoring'' then transition oid ''restore_failed'' (Some error)
     else ret ())"

text \<open>
  The sequence that ends an operation on most paths: transition, book status, outbox and lock, commit.
\<close>

definition terminalize ::
    "string \<Rightarrow> string \<Rightarrow> string option \<Rightarrow> string \<Rightarrow> string \<Rightarrow> string \<Rightarrow> string option \<Rightarrow> ('w, operation) prog" where
  "terminalize oid state error book_key book_status outbox_status outbox_error =
     thn (transition oid state error)
     (thn (set_status book_key book_status)
     (thn (finish_outbox oid outbox_status outbox_error)
     (thn commit (get_operation oid))))"

section \<open>Claiming\<close>

definition next_pending :: "db \<Rightarrow> outbox_event option" where
  "next_pending d = row_first (\<lambda>e. ob_status e = ''pending'' \<and> ob_event_type e = ''operation.requested'') (db_outbox d)"

definition upd_event :: "nat \<Rightarrow> (outbox_event \<Rightarrow> outbox_event) \<Rightarrow> db \<Rightarrow> db" where
  "upd_event eid f d = d\<lparr>db_outbox := row_map (\<lambda>e. ob_id e = eid) f (db_outbox d)\<rparr>"

text \<open>The event of an operation that is no longer requested.\<close>

definition publish_stale :: "outbox_event \<Rightarrow> 'w session \<Rightarrow> 'w session" where
  "publish_stale event s =
     (let now = s_clock s (s_ticks s);
          d = upd_event (ob_id event) (\<lambda>e. e\<lparr>ob_status := ''published'', ob_published_at := Some now\<rparr>) (s_db s)
      in s\<lparr>s_db := d, s_committed := d, s_ticks := Suc (s_ticks s)\<rparr>)"

definition is_integrity_error :: "exn \<Rightarrow> bool" where
  "is_integrity_error e = (e = IntegrityError)"

definition insert_lock :: "book_write_lock \<Rightarrow> ('w, unit) prog" where
  "insert_lock l =
     bnd (query (\<lambda>d. list_ex (\<lambda>x. lk_book_key x = lk_book_key l \<or> lk_operation_id x = lk_operation_id l) (db_locks d))) (\<lambda>dup.
     if dup then (\<lambda>s. (Inl IntegrityError, s\<lparr>s_broken := True\<rparr>))
     else modify_db (\<lambda>d. d\<lparr>db_locks := db_locks d @ [l]\<rparr>))"

definition claim_operation :: "string option \<Rightarrow> int \<Rightarrow> outbox_event \<Rightarrow> operation \<Rightarrow> ('w, string option) prog" where
  "claim_operation lease_owner lease_seconds event operation =
     (let oid = op_operation_id operation in
      bnd (case lease_owner of Some w \<Rightarrow> if w \<noteq> [] then ret w else new_uuid | None \<Rightarrow> new_uuid) (\<lambda>owner.
      bnd utc_now (\<lambda>now.
      (let expires_at = now + lease_seconds * 1000000 in
       bnd (query (\<lambda>d. row_first (\<lambda>l. lk_book_key l = op_book_key operation) (db_locks d))) (\<lambda>book_lock.
       if book_lock \<noteq> None then thn rollback (ret None)
       else
         thn (transition oid ''claimed'' None)
         (thn (modify_db (upd_operation oid (\<lambda>r. r\<lparr>op_lease_owner := Some owner, op_lease_expires_at := Some expires_at\<rparr>)))
         (thn (modify_db (upd_event (ob_id event) (\<lambda>e. e\<lparr>ob_status := ''processing'', ob_attempts := ob_attempts e + 1\<rparr>)))
         (try_except is_integrity_error
            (thn (insert_lock \<lparr>lk_book_key = op_book_key operation, lk_operation_id = oid, lk_lease_owner = owner,
                               lk_lease_expires_at = expires_at\<rparr>)
            (thn commit (ret (Some oid))))
            (\<lambda>_. thn rollback (ret None))))))))))"

definition pending_count :: "db \<Rightarrow> nat" where
  "pending_count d = length (filter (\<lambda>e. ob_status e = ''pending'' \<and> ob_event_type e = ''operation.requested'') (db_outbox d))"

lemma publish_stale_less:
  assumes "next_pending (s_db s) = Some event"
  shows "pending_count (s_db (publish_stale event s)) < pending_count (s_db s)"
proof -
  let ?P = "\<lambda>e. ob_status e = ''pending'' \<and> ob_event_type e = ''operation.requested''"
  let ?f = "\<lambda>e. e\<lparr>ob_status := ''published'', ob_published_at := Some (s_clock s (s_ticks s))\<rparr>"
  have e: "event \<in> set (db_outbox (s_db s))" "?P event"
    using row_first_Some [OF assms [unfolded next_pending_def]] by simp_all
  have "length (filter ?P (row_map (\<lambda>e. ob_id e = i) ?f xs)) \<le> length (filter ?P xs)" for i xs
    by (induction xs) (auto simp: row_map_def)
  moreover have "event \<in> set xs \<Longrightarrow>
      length (filter ?P (row_map (\<lambda>e. ob_id e = ob_id event) ?f xs)) < length (filter ?P xs)" for xs
    using e(2) calculation [of "ob_id event"] by (induction xs) (auto simp: row_map_def less_Suc_eq_le)
  ultimately show ?thesis using e(1)
    by (simp add: publish_stale_def Let_def upd_event_def pending_count_def)
qed

function claim_next_operation :: "string option \<Rightarrow> int \<Rightarrow> 'w session \<Rightarrow> string option res \<times> 'w session" where
  "claim_next_operation lease_owner lease_seconds s =
     (if s_broken s then (Inl (RuntimeError ''PendingRollbackError''), s)
      else case next_pending (s_db s) of
        None \<Rightarrow> (Inr None, s)
      | Some event \<Rightarrow>
          (case the_operation (ob_aggregate_id event) (s_db s) of
             Inl e \<Rightarrow> (Inl e, s)
           | Inr operation \<Rightarrow>
               if op_state operation \<noteq> ''requested''
               then claim_next_operation lease_owner lease_seconds (publish_stale event s)
               else claim_operation lease_owner lease_seconds event operation s))"
  by pat_completeness auto
termination
  by (relation "measure (\<lambda>(_, _, s). pending_count (s_db s))") (simp_all add: publish_stale_less)

declare claim_next_operation.simps [simp del]

section \<open>Restoring from sealed artifacts\<close>

definition require_artifact :: "'w io \<Rightarrow> string option \<Rightarrow> string \<Rightarrow> string option \<Rightarrow> int \<Rightarrow> ('w, unit) prog" where
  "require_artifact io artifacts_root path expected_sha256 max_bytes =
     (case artifacts_root of
        None \<Rightarrow> raise (RuntimeError ''recovery requires the configured artifact root'')
      | Some root \<Rightarrow> verify_artifact io root path expected_sha256 max_bytes)"

definition restore_change :: "'w io \<Rightarrow> string option \<Rightarrow> int \<Rightarrow> change \<Rightarrow> ('w, unit) prog" where
  "restore_change io artifacts_root book_id c =
     (case artifacts_root of
        None \<Rightarrow> raise (RuntimeError ''recovery requires the configured artifact root'')
      | Some root \<Rightarrow>
          restore_parts io book_id root (ch_backup_opf_path c) (ch_backup_opf_sha256 c)
            (ch_before_custom c) (ch_backup_cover_path c) (ch_backup_cover_sha256 c))"

definition restore_operation_rollback :: "'w io \<Rightarrow> string option \<Rightarrow> int \<Rightarrow> operation \<Rightarrow> ('w, unit) prog" where
  "restore_operation_rollback io artifacts_root book_id operation =
     (case op_rollback_opf_path operation of
        None \<Rightarrow> raise (RuntimeError ''operation rollback OPF is unavailable'')
      | Some opf \<Rightarrow>
        (case artifacts_root of
           None \<Rightarrow> raise (RuntimeError ''recovery requires the configured artifact root'')
         | Some root \<Rightarrow>
             restore_parts io book_id root opf (op_rollback_opf_sha256 operation)
               (op_rollback_custom operation) (op_rollback_cover_path operation) (op_rollback_cover_sha256 operation)))"

text \<open>Restore a change, read the metadata back and require it to match \<open>before\<close>.\<close>

definition restore_and_check :: "'w io \<Rightarrow> string option \<Rightarrow> int \<Rightarrow> change \<Rightarrow> pydict \<Rightarrow> string \<Rightarrow> ('w, unit) prog" where
  "restore_and_check io artifacts_root book_id c before message =
     thn (restore_change io artifacts_root book_id c)
     (bnd (show_metadata io book_id) (\<lambda>restored.
      bnd (matches_patch io restored before) (\<lambda>ok.
      if ok then ret () else raise (RuntimeError message))))"

section \<open>Processing a metadata operation\<close>

text \<open>\<open>target\<close>: the live metadata with the requested patch over it.\<close>

definition target_of :: "pydict \<Rightarrow> pydict \<Rightarrow> pydict" where
  "target_of before patch =
     dict_update
       (if dict_has patch ''edition_statement'' then dict_pop ''edition_statement'' (dict_pop ''#edition'' before) else before)
       patch"

text \<open>The durable intent: before and target metadata and the state \<open>writing\<close>, committed before any write.\<close>

definition begin_writing :: "string \<Rightarrow> pydict \<Rightarrow> pydict \<Rightarrow> ('w, unit) prog" where
  "begin_writing oid before target =
     thn (modify_db (upd_operation oid (\<lambda>r. r\<lparr>op_before_metadata := Some before, op_target_metadata := Some target\<rparr>)))
     (thn (transition oid ''writing'' None) commit)"

definition change_of_operation :: "string \<Rightarrow> db \<Rightarrow> change option" where
  "change_of_operation oid d = row_first (\<lambda>c. ch_operation_id c = Some oid) (db_changes d)"

definition apply_failed :: "string \<Rightarrow> string \<Rightarrow> exn \<Rightarrow> ('w, operation) prog" where
  "apply_failed oid book_key e =
     bnd (query (change_of_operation oid)) (\<lambda>failed_change.
     case map_option ch_status failed_change of
       Some status \<Rightarrow>
         if status = ''failed_rolled_back''
         then thn (transition oid ''restoring'' None)
                (terminalize oid ''restored'' (Some (exn_text e)) book_key ''suggest_fix'' ''failed'' (Some (exn_text e)))
         else if status = ''failed_rollback_failed''
         then thn (transition oid ''restoring'' None)
                (terminalize oid ''restore_failed'' (Some (exn_text e)) book_key ''error'' ''failed'' (Some (exn_text e)))
         else terminalize oid ''unknown'' (Some (exn_text e)) book_key ''error'' ''failed'' (Some (exn_text e))
     | None \<Rightarrow> terminalize oid ''unknown'' (Some (exn_text e)) book_key ''error'' ''failed'' (Some (exn_text e)))"

text \<open>Commit what is pending and return the row.\<close>

definition commit_operation :: "string \<Rightarrow> ('w, operation) prog" where
  "commit_operation oid = thn commit (get_operation oid)"

definition operation_error :: "string \<Rightarrow> ('w, string option) prog" where
  "operation_error oid = bnd (get_operation oid) (\<lambda>r. ret (op_error r))"

definition ebook_changed :: "'w io \<Rightarrow> string \<Rightarrow> string \<Rightarrow> int \<Rightarrow> change \<Rightarrow> pydict \<Rightarrow> exn \<Rightarrow> ('w, operation) prog" where
  "ebook_changed io oid book_key book_id c before e =
     thn (transition oid ''restoring'' None)
     (thn (try_except any_exception
             (thn (restore_and_check io (Some (io_artifacts_dir io)) book_id c before
                     ''restore verification failed after ebook snapshot change'')
              (thn (transition oid ''restored'' (Some (''ebook changed during metadata write: '' @ exn_text e)))
              (set_change_status (ch_id c) ''failed_rolled_back'')))
             (\<lambda>restore_exc.
              thn (transition oid ''restore_failed'' (Some (exn_text restore_exc)))
              (set_change_status (ch_id c) ''failed_rollback_failed'')))
     (thn (set_status book_key ''error'')
     (bnd (operation_error oid) (\<lambda>error.
      thn (finish_outbox oid ''failed'' error) (commit_operation oid)))))"

definition restore_partial_write :: "'w io \<Rightarrow> string \<Rightarrow> string \<Rightarrow> int \<Rightarrow> change \<Rightarrow> pydict \<Rightarrow> ('w, unit) prog" where
  "restore_partial_write io oid book_key book_id c before =
     thn (transition oid ''restoring'' None)
     (try_except any_exception
        (thn (restore_and_check io (Some (io_artifacts_dir io)) book_id c before ''restore verification failed'')
         (thn (transition oid ''restored'' None)
         (thn (set_change_status (ch_id c) ''failed_rolled_back'')
         (thn (set_status book_key ''suggest_fix'')
         (finish_outbox oid ''failed'' (Some ''partial write restored''))))))
        (\<lambda>e.
         thn (transition oid ''restore_failed'' (Some (exn_text e)))
         (thn (set_change_status (ch_id c) ''failed_rollback_failed'')
         (thn (set_status book_key ''error'')
         (finish_outbox oid ''failed'' (Some (exn_text e)))))))"

text \<open>\<open>begin_writing\<close> has set the target metadata of every operation that gets here.\<close>

definition verify_write :: "'w io \<Rightarrow> string \<Rightarrow> string \<Rightarrow> int \<Rightarrow> change \<Rightarrow> pydict \<Rightarrow> ('w, operation) prog" where
  "verify_write io oid book_key book_id c before =
     bnd (show_metadata io book_id) (\<lambda>observed.
     thn (modify_db (upd_operation oid (\<lambda>r. r\<lparr>op_observed_metadata := Some observed\<rparr>)))
     (bnd (get_operation oid) (\<lambda>operation.
      bnd (matches_patch io observed (case op_target_metadata operation of Some t \<Rightarrow> t | None \<Rightarrow> [])) (\<lambda>ok.
      thn (if ok
           then thn (transition oid ''succeeded'' None)
                  (thn (set_status book_key ''applied'') (finish_outbox oid ''published'' None))
           else restore_partial_write io oid book_key book_id c before)
      (commit_operation oid)))))"

definition after_write :: "env \<Rightarrow> 'w io \<Rightarrow> string \<Rightarrow> operation \<Rightarrow> int \<Rightarrow> pydict \<Rightarrow> change \<Rightarrow> ('w, operation) prog" where
  "after_write en io oid operation book_id before c =
     (let book_key = op_book_key operation in
      thn (modify_db (upd_operation oid (\<lambda>r. r\<lparr>op_change_id := Some (ch_id c),
             op_rollback_opf_path := Some (ch_backup_opf_path c), op_rollback_opf_sha256 := ch_backup_opf_sha256 c\<rparr>)))
      (thn (transition oid ''verifying'' None)
      (if op_policy_version operation = ''manifestation-v2''
       then try_else is_os_or_value_error
              (bnd (show_metadata io book_id) (\<lambda>post_write.
               thn (verify_v2_live_files en io oid post_write True) (align_verified_calibre_paths oid post_write)))
              (ebook_changed io oid book_key book_id c before)
              (\<lambda>_. verify_write io oid book_key book_id c before)
       else verify_write io oid book_key book_id c before)))"

definition write_operation ::
    "env \<Rightarrow> 'w io \<Rightarrow> string \<Rightarrow> operation \<Rightarrow> book_record \<Rightarrow> int \<Rightarrow> pydict \<Rightarrow> ('w, operation) prog" where
  "write_operation en io oid operation book book_id before =
     thn (begin_writing oid before (target_of before (op_requested_patch operation)))
     (try_else any_exception
        (apply_patch en io book (op_requested_patch operation) oid before)
        (apply_failed oid (op_book_key operation))
        (after_write en io oid operation book_id before))"

definition check_and_write ::
    "env \<Rightarrow> 'w io \<Rightarrow> string \<Rightarrow> operation \<Rightarrow> book_record \<Rightarrow> int \<Rightarrow> ('w, operation) prog" where
  "check_and_write en io oid operation book book_id =
     (let book_key = op_book_key operation;
          stale = (let m = Some ''live metadata changed after authorization'' in
            terminalize oid ''failed'' m book_key ''suggest_fix'' ''failed'' m);
          compare_and_write = (\<lambda>before.
            case op_expected_before_metadata operation of
              None \<Rightarrow> stale
            | Some expected \<Rightarrow>
                bnd (matches_patch io before expected) (\<lambda>ok.
                if ok then write_operation en io oid operation book book_id before else stale))
      in bnd (show_metadata io book_id) (\<lambda>before.
         if op_policy_version operation = ''manifestation-v2''
         then try_else is_os_or_value_error
                (verify_v2_live_files en io oid before False)
                (\<lambda>e. let m = Some (''live ebook snapshot changed after authorization: '' @ exn_text e) in
                   terminalize oid ''failed'' m book_key ''error'' ''failed'' m)
                (\<lambda>_. compare_and_write before)
         else compare_and_write before))"

definition process_apply :: "env \<Rightarrow> 'w io \<Rightarrow> pilot_guard option \<Rightarrow> string \<Rightarrow> operation \<Rightarrow> ('w, operation) prog" where
  "process_apply en io pilot oid operation =
     bnd (query_res (\<lambda>d. row_one (\<lambda>b. bk_book_key b = op_book_key operation) (db_books d))) (\<lambda>book.
     case bk_calibre_book_id book of
       None \<Rightarrow> raise (ValueError (''Operation '' @ oid @ '' has no Calibre book id''))
     | Some book_id \<Rightarrow>
         if book_id = 0 then raise (ValueError (''Operation '' @ oid @ '' has no Calibre book id''))
         else
           try_else is_value_or_type_error
             (query_res (validate_apply_operation en operation book pilot))
             (\<lambda>e. terminalize oid ''failed'' (Some (exn_text e)) (op_book_key operation) ''error'' ''failed'' (Some (exn_text e)))
             (\<lambda>_. check_and_write en io oid operation book book_id))"

section \<open>Processing an undo\<close>

text \<open>\<open>isinstance(v, int)\<close>; a bool is an int.\<close>

definition as_int :: "pyval \<Rightarrow> int option" where
  "as_int v = (case v of PInt i \<Rightarrow> Some i | PBool b \<Rightarrow> Some (if b then 1 else 0) | _ \<Rightarrow> None)"

definition get_change :: "int \<Rightarrow> db \<Rightarrow> change option" where
  "get_change cid d = row_first (\<lambda>c. int (ch_id c) = cid) (db_changes d)"

text \<open>Export the current state into sealed artifacts, for the case that the undo itself fails.\<close>

definition backup_current :: "'w io \<Rightarrow> string \<Rightarrow> int \<Rightarrow> change \<Rightarrow> pydict \<Rightarrow> ('w, unit) prog" where
  "backup_current io oid book_id c before =
     (let art = io_artifacts_dir io;
          dir = path_join (path_join art ''undo'') oid;
          current_backup = path_join dir ''current.opf'';
          current_cover = path_join dir ''current.cover''
      in thn (effect (io_ensure_secure_directory io dir))
         (bnd (effect (io_export_opf io book_id current_backup)) (\<lambda>exported.
          thn (modify_db (upd_operation oid (\<lambda>r. r\<lparr>op_rollback_opf_path := Some current_backup\<rparr>)))
          (bnd (bind_exported_artifact io art current_backup (Some exported) MAX_OPF_BYTES) (\<lambda>h.
           thn (modify_db (upd_operation oid (\<lambda>r. r\<lparr>op_rollback_opf_sha256 := Some h\<rparr>)))
           (thn (if ch_backup_cover_path c = None \<or> ch_backup_cover_path c = Some [] then ret ()
                 else
                   bnd (effect (io_export_cover io book_id current_cover)) (\<lambda>cover.
                   if cover = None \<or> cover = Some []
                   then raise (RuntimeError ''current cover could not be backed up before undo'')
                   else
                     thn (modify_db (upd_operation oid (\<lambda>r. r\<lparr>op_rollback_cover_path := Some current_cover\<rparr>)))
                     (bnd (bind_exported_artifact io art current_cover cover MAX_COVER_BYTES) (\<lambda>h.
                      modify_db (upd_operation oid (\<lambda>r. r\<lparr>op_rollback_cover_sha256 := Some h\<rparr>))))))
           (if ch_before_custom c = [] then ret ()
            else modify_db (upd_operation oid (\<lambda>r. r\<lparr>op_rollback_custom :=
              map (\<lambda>(column, _). (column, PStr (py_str (py_or (py_or (pget before column)
                    (pget before ''edition_statement'')) (PStr []))))) (ch_before_custom c)\<rparr>)))))))))"

definition restore_pre_undo :: "'w io \<Rightarrow> string \<Rightarrow> string \<Rightarrow> int \<Rightarrow> pydict \<Rightarrow> ('w, unit) prog" where
  "restore_pre_undo io oid book_key book_id before =
     thn (transition oid ''restoring'' None)
     (try_except any_exception
        (bnd (get_operation oid) (\<lambda>operation.
         thn (require_artifact io (Some (io_artifacts_dir io))
                (path_join (path_join (path_join (io_artifacts_dir io) ''undo'') oid) ''current.opf'')
                (op_rollback_opf_sha256 operation) MAX_OPF_BYTES)
         (thn (restore_operation_rollback io (Some (io_artifacts_dir io)) book_id operation)
         (bnd (show_metadata io book_id) (\<lambda>restored.
          bnd (matches_patch io restored before) (\<lambda>ok.
          if \<not> ok then raise (RuntimeError ''undo rollback verification failed'')
          else thn (transition oid ''restored'' None)
                 (thn (set_status book_key ''applied'') (finish_outbox oid ''failed'' (Some ''partial undo restored'')))))))))
        (\<lambda>e.
         thn (transition oid ''restore_failed'' (Some (exn_text e)))
         (thn (set_status book_key ''error'') (finish_outbox oid ''failed'' (Some (exn_text e))))))"

definition write_undo :: "'w io \<Rightarrow> string \<Rightarrow> string \<Rightarrow> int \<Rightarrow> change \<Rightarrow> pydict \<Rightarrow> ('w, operation) prog" where
  "write_undo io oid book_key book_id c before =
     thn (backup_current io oid book_id c before)
     (thn (modify_db (upd_operation oid (\<lambda>r. r\<lparr>op_change_id := Some (ch_id c)\<rparr>)))
     (thn (begin_writing oid before (ch_before_metadata c))
     (thn (restore_change io (Some (io_artifacts_dir io)) book_id c)
     (thn (transition oid ''verifying'' None)
     (bnd (show_metadata io book_id) (\<lambda>observed.
      thn (modify_db (upd_operation oid (\<lambda>r. r\<lparr>op_observed_metadata := Some observed\<rparr>)))
      (bnd (matches_patch io observed (ch_before_metadata c)) (\<lambda>ok.
       thn (if ok
            then thn (transition oid ''succeeded'' None)
                   (thn (set_change_status (ch_id c) ''undone'')
                   (thn (set_status book_key ''suggest_fix'') (finish_outbox oid ''published'' None)))
            else restore_pre_undo io oid book_key book_id before)
       (commit_operation oid)))))))))"

definition process_undo :: "'w io \<Rightarrow> string \<Rightarrow> operation \<Rightarrow> ('w, operation) prog" where
  "process_undo io oid operation =
     (case as_int (pget (op_requested_patch operation) ''change_id'') of
        None \<Rightarrow> raise (ValueError (''Undo operation '' @ oid @ '' has no valid change id''))
      | Some cid \<Rightarrow>
        bnd (query (get_change cid)) (\<lambda>found.
        case found of
          None \<Rightarrow> raise (ValueError (''Change '' @ show_int cid @ '' not found''))
        | Some c \<Rightarrow>
          bnd (query_res (\<lambda>d. row_one (\<lambda>b. bk_book_key b = ch_book_key c) (db_books d))) (\<lambda>book.
          let book_key = bk_book_key book;
              stale = (let m = Some ''undo identity or change status is stale'' in
                terminalize oid ''failed'' m book_key ''error'' ''failed'' m);
              modified = (let m = Some ''live metadata changed after undo was queued'' in
                terminalize oid ''failed'' m book_key ''applied'' ''failed'' m)
          in case bk_calibre_book_id book of
               None \<Rightarrow> stale
             | Some book_id \<Rightarrow>
                 if book_id = 0 \<or> Some book_id \<noteq> op_calibre_book_id operation
                    \<or> Some (bk_run_id book) \<noteq> op_run_id operation \<or> ch_status c \<noteq> ''applied''
                 then stale
                 else
                   thn (require_artifact io (Some (io_artifacts_dir io)) (ch_backup_opf_path c)
                          (ch_backup_opf_sha256 c) MAX_OPF_BYTES)
                   (bnd (show_metadata io book_id) (\<lambda>before.
                    case op_expected_before_metadata operation of
                      None \<Rightarrow> modified
                    | Some expected \<Rightarrow>
                        bnd (matches_patch io before expected) (\<lambda>ok.
                        if ok then write_undo io oid book_key book_id c before else modified))))))"

definition process :: "env \<Rightarrow> 'w io \<Rightarrow> pilot_guard option \<Rightarrow> string \<Rightarrow> ('w, operation) prog" where
  "process en io pilot oid =
     bnd (get_operation oid) (\<lambda>operation.
     if op_state operation \<noteq> ''claimed''
     then raise (ValueError (''Operation '' @ oid @ '' is not claimed''))
     else if op_operation_type operation = ''undo_change'' then process_undo io oid operation
     else process_apply en io pilot oid operation)"

section \<open>Failing an operation\<close>

definition fail_operation :: "string \<Rightarrow> string \<Rightarrow> ('w, unit) prog" where
  "fail_operation oid error =
     bnd (get_operation oid) (\<lambda>operation.
     thn (if op_state operation = ''claimed'' then transition oid ''failed'' (Some error)
          else if op_state operation \<in> {''writing'', ''verifying''} then transition oid ''unknown'' (Some error)
          else if op_state operation = ''restoring'' then transition oid ''restore_failed'' (Some error)
          else ret ())
     (bnd (query (\<lambda>d. row_first (\<lambda>b. bk_book_key b = op_book_key operation) (db_books d))) (\<lambda>book.
      thn (case book of Some b \<Rightarrow> set_status (bk_book_key b) ''error'' | None \<Rightarrow> ret ())
      (thn (finish_outbox oid ''failed'' (Some error)) commit))))"

text \<open>
  One turn of the loop of the writer command (cli/main.py): claim, process, and on any exception roll
  back and fail the operation. The heartbeat, the advisory lock and the sleep are not modelled.
\<close>

definition writer_turn :: "env \<Rightarrow> 'w io \<Rightarrow> pilot_guard option \<Rightarrow> ('w, string option) prog" where
  "writer_turn en io pilot =
     bnd (claim_next_operation None 60) (\<lambda>claimed.
     case claimed of
       None \<Rightarrow> ret None
     | Some oid \<Rightarrow>
         if oid = [] then ret claimed
         else
           thn (try_except any_exception
                  (bnd (process en io pilot oid) (\<lambda>_. ret ()))
                  (\<lambda>e. thn rollback (fail_operation oid (exn_text e))))
           (ret claimed))"

end
