(* ===== verification/Reconcile.thy ===== *)
theory Reconcile
  imports Writer
begin

text \<open>
  Crash reconciliation (\<open>reconcile_incomplete_operations\<close> and \<open>_reconcile_undo\<close> of
  src/src/calibre\_ai\_auditor/apply/writer.py): what the writer does at startup with the operations a
  dead process left claimed, writing, verifying or restoring.
\<close>

text \<open>\<open>if operation.state in {"writing", "verifying"}: transition_operation(operation, "restoring")\<close>\<close>

definition to_restoring :: "string \<Rightarrow> ('w, unit) prog" where
  "to_restoring oid =
     bnd (get_operation oid) (\<lambda>operation.
     if op_state operation \<in> {''writing'', ''verifying''} then transition oid ''restoring'' None else ret ())"

definition set_optional_change_status :: "change option \<Rightarrow> string \<Rightarrow> ('w, unit) prog" where
  "set_optional_change_status c status = (case c of Some r \<Rightarrow> set_change_status (ch_id r) status | None \<Rightarrow> ret ())"

text \<open>\<open>_finish_outbox(session, operation_id, "failed", operation.error)\<close>\<close>

definition finish_failed :: "string \<Rightarrow> ('w, unit) prog" where
  "finish_failed oid = bnd (operation_error oid) (finish_outbox oid ''failed'')"

section \<open>Claimed operations\<close>

definition release_own_lock :: "string \<Rightarrow> operation \<Rightarrow> ('w, unit) prog" where
  "release_own_lock oid operation =
     modify_db (\<lambda>d. d\<lparr>db_locks :=
       filter (\<lambda>l. \<not> (lk_book_key l = op_book_key operation \<and> lk_operation_id l = oid)) (db_locks d)\<rparr>)"

definition lease_is_active :: "operation \<Rightarrow> ('w, bool) prog" where
  "lease_is_active operation =
     (case op_lease_expires_at operation of
        None \<Rightarrow> ret False
      | Some expires_at \<Rightarrow> bnd utc_now (\<lambda>now. ret (lease_active expires_at now)))"

definition reconcile_claimed :: "string \<Rightarrow> operation \<Rightarrow> ('w, bool) prog" where
  "reconcile_claimed oid operation =
     bnd (lease_is_active operation) (\<lambda>active.
     if active then ret False
     else
       thn (transition oid ''requested'' None)
       (bnd (query_res (\<lambda>d. row_one (\<lambda>e. ob_aggregate_id e = oid) (db_outbox d))) (\<lambda>_.
        thn (modify_db (upd_outbox oid (\<lambda>e. e\<lparr>ob_status := ''pending'', ob_last_error := None\<rparr>)))
        (thn (release_own_lock oid operation)
        (thn (modify_db (upd_operation oid (\<lambda>r. r\<lparr>op_lease_owner := None, op_lease_expires_at := None\<rparr>)))
        (thn commit (ret True)))))))"

section \<open>Interrupted undo operations\<close>

definition recorded_change_id :: "operation \<Rightarrow> int option" where
  "recorded_change_id operation =
     (case op_change_id operation of
        Some n \<Rightarrow> if n \<noteq> 0 then Some (int n) else as_int (pget (op_requested_patch operation) ''change_id'')
      | None \<Rightarrow> as_int (pget (op_requested_patch operation) ''change_id''))"

definition settle_undo ::
    "'w io \<Rightarrow> string option \<Rightarrow> string \<Rightarrow> operation \<Rightarrow> string \<Rightarrow> int \<Rightarrow> change \<Rightarrow> pydict \<Rightarrow> pydict \<Rightarrow> ('w, unit) prog" where
  "settle_undo io root oid operation book_key book_id c before target =
     bnd (show_metadata io book_id) (\<lambda>observed.
     thn (modify_db (upd_operation oid (\<lambda>r. r\<lparr>op_observed_metadata := Some observed\<rparr>)))
     (bnd (matches_patch io observed target) (\<lambda>at_target.
      if at_target then
        thn (if op_state operation = ''writing'' then transition oid ''verifying'' None else ret ())
        (if op_state operation \<in> {''writing'', ''verifying''}
         then thn (transition oid ''succeeded'' None)
                (thn (set_change_status (ch_id c) ''undone'')
                (thn (set_status book_key ''suggest_fix'') (finish_outbox oid ''published'' None)))
         else raise (RuntimeError ''undo target observed while restore was in progress''))
      else
        bnd (matches_patch io observed before) (\<lambda>at_before.
        if at_before then
          thn (to_restoring oid)
          (thn (transition oid ''restored'' None)
          (thn (set_status book_key ''applied'') (finish_outbox oid ''failed'' (Some ''pre-undo state preserved''))))
        else
          thn (to_restoring oid)
          (thn (if op_rollback_opf_path operation = None
                then raise (RuntimeError ''undo rollback artifact is unavailable'') else ret ())
          (thn (restore_operation_rollback io root book_id operation)
          (bnd (show_metadata io book_id) (\<lambda>restored.
           bnd (matches_patch io restored before) (\<lambda>ok.
           if \<not> ok then raise (RuntimeError ''undo rollback verification failed'')
           else
             thn (transition oid ''restored'' None)
             (thn (set_status book_key ''applied'')
             (finish_outbox oid ''failed'' (Some ''partial undo restored''))))))))))))"

definition set_optional_status :: "book_record option \<Rightarrow> string \<Rightarrow> ('w, unit) prog" where
  "set_optional_status book status = (case book of Some b \<Rightarrow> set_status (bk_book_key b) status | None \<Rightarrow> ret ())"

definition insufficient_undo :: "string \<Rightarrow> book_record option \<Rightarrow> ('w, unit) prog" where
  "insufficient_undo oid book =
     thn (mark_unknown oid ''insufficient undo recovery evidence'')
     (thn (set_optional_status book ''error'') (finish_failed oid))"

definition reconcile_undo :: "'w io \<Rightarrow> string option \<Rightarrow> string \<Rightarrow> operation \<Rightarrow> ('w, unit) prog" where
  "reconcile_undo io root oid operation =
     bnd (query (\<lambda>d. case recorded_change_id operation of Some cid \<Rightarrow> get_change cid d | None \<Rightarrow> None)) (\<lambda>change.
     bnd (query (\<lambda>d. row_first (\<lambda>b. bk_book_key b = op_book_key operation) (db_books d))) (\<lambda>book.
     case (change, map_option (\<lambda>b. bk_calibre_book_id b) book, op_before_metadata operation, op_target_metadata operation) of
       (Some c, Some (Some book_id), Some before, Some target) \<Rightarrow>
         if book_id = 0 then insufficient_undo oid book
         else
           try_except any_exception
             (settle_undo io root oid operation (op_book_key operation) book_id c before target)
             (\<lambda>e. thn (mark_unknown oid (exn_text e))
                    (thn (set_status (op_book_key operation) ''error'') (finish_outbox oid ''failed'' (Some (exn_text e)))))
     | _ \<Rightarrow> insufficient_undo oid book))"

section \<open>Interrupted metadata writes\<close>

definition snapshot_changed ::
    "'w io \<Rightarrow> string option \<Rightarrow> string \<Rightarrow> string \<Rightarrow> int \<Rightarrow> change option \<Rightarrow> pydict \<Rightarrow> exn \<Rightarrow> ('w, unit) prog" where
  "snapshot_changed io root oid book_key book_id change before e =
     (let message = ''V2 ebook snapshot changed: '' @ exn_text e in
      thn (case change of
             None \<Rightarrow> mark_unknown oid message
           | Some c \<Rightarrow>
               thn (to_restoring oid)
               (thn (restore_and_check io root book_id c before ''restore verification failed after ebook snapshot change'')
               (thn (transition oid ''restored'' (Some message)) (set_change_status (ch_id c) ''failed_rolled_back''))))
      (thn (set_status book_key ''error'') (thn (finish_failed oid) commit)))"

definition settle_partial ::
    "'w io \<Rightarrow> string option \<Rightarrow> string \<Rightarrow> string \<Rightarrow> int \<Rightarrow> change option \<Rightarrow> pydict \<Rightarrow> ('w, unit) prog" where
  "settle_partial io root oid book_key book_id change before =
     (case change of
        None \<Rightarrow>
          thn (mark_unknown oid ''partial state without restore point'')
          (thn (set_status book_key ''error'') (finish_failed oid))
      | Some c \<Rightarrow>
          thn (to_restoring oid)
          (thn (restore_change io root book_id c)
          (bnd (show_metadata io book_id) (\<lambda>restored.
           bnd (matches_patch io restored before) (\<lambda>ok.
           if ok then
             thn (transition oid ''restored'' None)
             (thn (set_change_status (ch_id c) ''failed_rolled_back'')
             (thn (set_status book_key ''suggest_fix'') (finish_outbox oid ''failed'' (Some ''partial state restored''))))
           else
             thn (transition oid ''restore_failed'' (Some ''restore verification failed''))
             (thn (set_change_status (ch_id c) ''failed_rollback_failed'')
             (thn (set_status book_key ''error'')
             (finish_outbox oid ''failed'' (Some ''restore verification failed'')))))))))"

definition settle_write ::
    "'w io \<Rightarrow> string option \<Rightarrow> string \<Rightarrow> string \<Rightarrow> int \<Rightarrow> change option \<Rightarrow> pydict \<Rightarrow> pydict \<Rightarrow> ('w, unit) prog" where
  "settle_write io root oid book_key book_id change before observed =
     bnd (get_operation oid) (\<lambda>operation.
     bnd (matches_patch io observed (case op_target_metadata operation of Some t \<Rightarrow> t | None \<Rightarrow> [])) (\<lambda>at_target.
     if at_target then
       thn (if op_state operation = ''writing'' then transition oid ''verifying'' None else ret ())
       (if op_state operation \<in> {''writing'', ''verifying''}
        then thn (transition oid ''succeeded'' None)
               (thn (set_optional_change_status change ''applied'')
               (thn (set_status book_key ''applied'') (finish_outbox oid ''published'' None)))
        else thn (mark_unknown oid ''target observed during restore'')
               (thn (set_status book_key ''error'') (finish_failed oid)))
     else
       bnd (matches_patch io observed before) (\<lambda>at_before.
       if at_before then
         thn (to_restoring oid)
         (thn (transition oid ''restored'' None)
         (thn (set_optional_change_status change ''failed_rolled_back'')
         (thn (set_status book_key ''suggest_fix'')
         (finish_outbox oid ''failed'' (Some ''previous state already restored'')))))
       else settle_partial io root oid book_key book_id change before)))"

definition settle_apply ::
    "env \<Rightarrow> 'w io \<Rightarrow> string option \<Rightarrow> string \<Rightarrow> operation \<Rightarrow> int \<Rightarrow> change option \<Rightarrow> pydict \<Rightarrow> ('w, unit) prog" where
  "settle_apply en io root oid operation book_id change before =
     (let book_key = op_book_key operation in
      bnd (show_metadata io book_id) (\<lambda>observed.
      thn (modify_db (upd_operation oid (\<lambda>r. r\<lparr>op_observed_metadata := Some observed\<rparr>)))
      (if op_policy_version operation = ''manifestation-v2''
       then try_else is_os_or_value_error
              (thn (verify_v2_live_files en io oid observed True) (align_verified_calibre_paths oid observed))
              (snapshot_changed io root oid book_key book_id change before)
              (\<lambda>_. settle_write io root oid book_key book_id change before observed)
       else settle_write io root oid book_key book_id change before observed)))"

definition insufficient_apply :: "string \<Rightarrow> book_record option \<Rightarrow> ('w, unit) prog" where
  "insufficient_apply oid book =
     thn (mark_unknown oid ''insufficient recovery evidence'')
     (thn (finish_failed oid) (set_optional_status book ''error''))"

definition reconcile_apply :: "env \<Rightarrow> 'w io \<Rightarrow> string option \<Rightarrow> string \<Rightarrow> operation \<Rightarrow> ('w, unit) prog" where
  "reconcile_apply en io root oid operation =
     bnd (query (\<lambda>d. row_first (\<lambda>b. bk_book_key b = op_book_key operation) (db_books d))) (\<lambda>book.
     bnd (query (change_of_operation oid)) (\<lambda>change.
     case (map_option (\<lambda>b. bk_calibre_book_id b) book, op_before_metadata operation, op_target_metadata operation) of
       (Some (Some book_id), Some before, Some target) \<Rightarrow>
         if book_id = 0 then insufficient_apply oid book
         else
           try_except any_exception
             (settle_apply en io root oid operation book_id change before)
             (\<lambda>e. thn (mark_unknown oid (exn_text e))
                    (thn (set_status (op_book_key operation) ''error'')
                    (thn (set_optional_change_status change ''failed_rollback_failed'')
                    (finish_outbox oid ''failed'' (Some (exn_text e))))))
     | _ \<Rightarrow> insufficient_apply oid book))"

section \<open>The loop\<close>

text \<open>True when the operation is appended to the list of reconciled operations.\<close>

definition reconcile_operation :: "env \<Rightarrow> 'w io \<Rightarrow> string option \<Rightarrow> string \<Rightarrow> ('w, bool) prog" where
  "reconcile_operation en io root oid =
     bnd (get_operation oid) (\<lambda>operation.
     if op_state operation = ''claimed'' then reconcile_claimed oid operation
     else
       thn (if op_operation_type operation = ''undo_change''
            then reconcile_undo io root oid operation
            else reconcile_apply en io root oid operation)
       (thn commit (ret True)))"

fun reconcile_each :: "env \<Rightarrow> 'w io \<Rightarrow> string option \<Rightarrow> string list \<Rightarrow> ('w, string list) prog" where
  "reconcile_each en io root [] = ret []"
| "reconcile_each en io root (oid # oids) =
     bnd (reconcile_operation en io root oid) (\<lambda>done.
     bnd (reconcile_each en io root oids) (\<lambda>reconciled.
     ret (if done then oid # reconciled else reconciled)))"

definition interrupted :: "db \<Rightarrow> string list" where
  "interrupted d = map op_operation_id
     (filter (\<lambda>r. op_state r \<in> {''claimed'', ''writing'', ''verifying'', ''restoring''}) (db_operations d))"

definition reconcile_incomplete_operations :: "env \<Rightarrow> 'w io \<Rightarrow> string option \<Rightarrow> ('w, string list) prog" where
  "reconcile_incomplete_operations en io root = bnd (query interrupted) (reconcile_each en io root)"

end
