(* ===== verification/WriterLogic.thy ===== *)
theory WriterLogic
  imports Reconcile
begin

text \<open>
  The logic the writer's theorems use: the invariant of the committed tables (ledger, outbox and book locks), and
  the assertion \<open>inv_at\<close> with one rule per primitive operation.
\<close>

section \<open>Rows with a unique key\<close>

lemma row_one_split:
  assumes "row_one p xs = Inr r"
  obtains as bs where "xs = as @ r # bs" "list_all (\<lambda>x. \<not> p x) as" "list_all (\<lambda>x. \<not> p x) bs" "p r"
proof -
  from assms have f: "filter p xs = [r]" by (simp add: row_one_Inr)
  then obtain as bs where "xs = as @ r # bs" "\<forall>x\<in>set as. \<not> p x" "p r" "filter p bs = []"
    by (auto simp: filter_eq_Cons_iff)
  with that show ?thesis by (simp add: list_all_iff filter_empty_conv)
qed

lemma row_map_split:
  "list_all (\<lambda>x. \<not> p x) as \<Longrightarrow> list_all (\<lambda>x. \<not> p x) bs \<Longrightarrow> p r \<Longrightarrow> row_map p f (as @ r # bs) = as @ f r # bs"
  by (auto simp: row_map_def list_all_iff intro!: map_idI)

lemma row_one_upd:
  assumes "row_one p xs = Inr r" "p (f r)"
  shows "row_one p (row_map p f xs) = Inr (f r)"
proof -
  obtain as bs where s: "xs = as @ r # bs" "list_all (\<lambda>x. \<not> p x) as" "list_all (\<lambda>x. \<not> p x) bs" "p r"
    using row_one_split [OF assms(1)] .
  from s(2,3) have "filter p as = []" "filter p bs = []" by (auto simp: list_all_iff filter_empty_conv)
  with s assms(2) show ?thesis by (simp add: row_map_split row_one_Inr)
qed

lemma map_row_upd:
  assumes "row_one p xs = Inr r" "k (f r) = k r"
  shows "map k (row_map p f xs) = map k xs"
proof -
  obtain as bs where s: "xs = as @ r # bs" "list_all (\<lambda>x. \<not> p x) as" "list_all (\<lambda>x. \<not> p x) bs" "p r"
    using row_one_split [OF assms(1)] .
  with assms(2) show ?thesis by (simp add: row_map_split)
qed

lemma set_row_upd:
  assumes "row_one p xs = Inr r" "y \<in> set (row_map p f xs)"
  shows "y = f r \<or> (y \<in> set xs \<and> \<not> p y)"
proof -
  obtain as bs where s: "xs = as @ r # bs" "list_all (\<lambda>x. \<not> p x) as" "list_all (\<lambda>x. \<not> p x) bs" "p r"
    using row_one_split [OF assms(1)] .
  with assms(2) show ?thesis by (auto simp: row_map_split list_all_iff)
qed

lemma map_row_map_keeps: "(\<And>x. k (f x) = k x) \<Longrightarrow> map k (row_map p f xs) = map k xs"
  by (simp add: row_map_def)

lemma row_map_row_map: "(\<And>x. p (f x) = p x) \<Longrightarrow> row_map p g (row_map p f xs) = row_map p (\<lambda>x. g (f x)) xs"
  by (simp add: row_map_def)

section \<open>The tables the writer keeps consistent\<close>

definition active_state :: "string \<Rightarrow> bool" where
  "active_state s = (s \<in> {''claimed'', ''writing'', ''verifying'', ''restoring''})"

text \<open>
  Book locks: one per book, each held by an operation on that book, which is still active unless it is in
  \<open>X\<close> (the operation being finished by the open transaction); every active operation holds its book's lock.
\<close>

definition locks_ok :: "string set \<Rightarrow> db \<Rightarrow> bool" where
  "locks_ok X d =
     (distinct (map lk_book_key (db_locks d))
      \<and> list_all (\<lambda>l. list_ex (\<lambda>r. op_operation_id r = lk_operation_id l \<and> op_book_key r = lk_book_key l
             \<and> (lk_operation_id l \<in> X \<or> active_state (op_state r))) (db_operations d)) (db_locks d)
      \<and> list_all (\<lambda>r. active_state (op_state r) \<longrightarrow>
             list_ex (\<lambda>l. lk_book_key l = op_book_key r \<and> lk_operation_id l = op_operation_id r) (db_locks d)) (db_operations d))"

definition writer_ok :: "string set \<Rightarrow> db \<Rightarrow> bool" where
  "writer_ok X d = (ledger_ok d \<and> locks_ok X d \<and> distinct (map ob_id (db_outbox d)))"

text \<open>The columns of a request, which nothing changes once it is queued, and the tables the writer never writes.\<close>

definition request_of where
  "request_of r = (op_operation_id r, op_idempotency_key r, op_operation_type r, op_book_key r, op_run_id r,
     op_calibre_book_id r, op_requested_patch r, op_expected_before_metadata r, op_authorization_id r,
     op_verdict_hash r, op_patch_hash r, op_policy_version r, op_evidence_id r, op_pilot_id r)"

definition same_requests :: "db \<Rightarrow> db \<Rightarrow> bool" where
  "same_requests d0 d =
     (map request_of (db_operations d) = map request_of (db_operations d0)
      \<and> db_evidence d = db_evidence d0 \<and> db_pilots d = db_pilots d0 \<and> db_acks d = db_acks d0 \<and> db_auths d = db_auths d0
      \<and> map (\<lambda>b. b\<lparr>bk_status := []\<rparr>) (db_books d) = map (\<lambda>b. b\<lparr>bk_status := []\<rparr>) (db_books d0))"

text \<open>Only the rows of the operations in \<open>X\<close> differ.\<close>

definition only_rows :: "string set \<Rightarrow> db \<Rightarrow> db \<Rightarrow> bool" where
  "only_rows X d0 d =
     (same_requests d0 d
      \<and> filter (\<lambda>r. op_operation_id r \<notin> X) (db_operations d) = filter (\<lambda>r. op_operation_id r \<notin> X) (db_operations d0))"

definition op_at :: "string \<Rightarrow> string set \<Rightarrow> (operation \<Rightarrow> bool) \<Rightarrow> db \<Rightarrow> bool" where
  "op_at oid S R d = (case the_operation oid d of Inr r \<Rightarrow> op_state r \<in> S \<and> R r | Inl _ \<Rightarrow> False)"

text \<open>The operation holds no lock and its event is closed.\<close>

definition closed :: "string \<Rightarrow> db \<Rightarrow> bool" where
  "closed oid d =
     (list_all (\<lambda>l. lk_operation_id l \<noteq> oid) (db_locks d)
      \<and> (case row_one (\<lambda>e. ob_aggregate_id e = oid) (db_outbox d) of
           Inr e \<Rightarrow> ob_status e \<in> {''published'', ''failed''} | Inl _ \<Rightarrow> False))"

lemma same_requests_refl [simp]: "same_requests d d"
  by (simp add: same_requests_def)

lemma same_requests_trans: "same_requests a b \<Longrightarrow> same_requests b c \<Longrightarrow> same_requests a c"
  by (simp add: same_requests_def)

lemma only_rows_refl [simp]: "only_rows X d d"
  by (simp add: only_rows_def)

lemma only_rows_mono: "only_rows X a b \<Longrightarrow> X \<subseteq> Y \<Longrightarrow> only_rows Y a b"
proof -
  assume a: "only_rows X a b" "X \<subseteq> Y"
  have "filter (\<lambda>r. op_operation_id r \<notin> Y) xs = filter (\<lambda>r. op_operation_id r \<notin> Y) (filter (\<lambda>r. op_operation_id r \<notin> X) xs)" for xs
    using a(2) by (induction xs) auto
  with a(1) show ?thesis unfolding only_rows_def by metis
qed

lemma only_rows_trans: "only_rows X a b \<Longrightarrow> only_rows X b c \<Longrightarrow> only_rows X a c"
  using same_requests_trans by (auto simp: only_rows_def)

lemma only_rows_ops:
  "db_operations d' = db_operations d \<Longrightarrow> same_requests d d' \<Longrightarrow> only_rows X d d'"
  by (simp add: only_rows_def)

lemma only_rows_requests: "only_rows X a b \<Longrightarrow> same_requests a b"
  by (simp add: only_rows_def)

lemma only_rows_other:
  assumes "only_rows X a b" "oid \<notin> X"
  shows "the_operation oid b = the_operation oid a"
proof -
  have "filter (is_op oid) xs = filter (is_op oid) (filter (\<lambda>r. op_operation_id r \<notin> X) xs)" for xs
    using assms(2) by (induction xs) auto
  then have "filter (is_op oid) (db_operations b) = filter (is_op oid) (db_operations a)"
    using assms(1) unfolding only_rows_def by metis
  then show ?thesis by (simp add: the_operation_def row_one_def)
qed

lemma op_atE:
  assumes "op_at oid S R d"
  obtains r where "the_operation oid d = Inr r" "op_state r \<in> S" "R r"
  using assms by (auto simp: op_at_def split: sum.splits)

lemma op_at_mono: "op_at oid S R d \<Longrightarrow> S \<subseteq> S' \<Longrightarrow> (\<And>r. R r \<Longrightarrow> R' r) \<Longrightarrow> op_at oid S' R' d"
  by (auto simp: op_at_def split: sum.splits)

lemma the_operation_id: "the_operation oid d = Inr r \<Longrightarrow> op_operation_id r = oid \<and> r \<in> set (db_operations d)"
  by (auto simp: the_operation_def dest: row_one_in)

lemma the_operation_upd:
  "the_operation oid d = Inr r \<Longrightarrow> op_operation_id (f r) = oid \<Longrightarrow> the_operation oid (upd_operation oid f d) = Inr (f r)"
  by (simp add: the_operation_def upd_operation_def row_one_upd)

lemma request_ofD:
  assumes "request_of a = request_of b"
  shows "op_operation_id a = op_operation_id b" "op_book_key a = op_book_key b"
    "op_idempotency_key a = op_idempotency_key b" "op_pilot_id a = op_pilot_id b"
  using assms by (simp_all add: request_of_def)

lemma request_of_moved [simp]: "request_of (moved n e now r) = request_of r"
  by (simp add: request_of_def moved_def Let_def)

lemma only_rows_upd:
  assumes "the_operation oid d = Inr r" "request_of (f r) = request_of r"
  shows "only_rows {oid} d (upd_operation oid f d)"
proof -
  note one = assms(1) [unfolded the_operation_def]
  have "same_requests d (upd_operation oid f d)"
    using map_row_upd [OF one, of request_of f] assms(2) by (simp add: same_requests_def upd_operation_def)
  moreover obtain as bs where s: "db_operations d = as @ r # bs" "list_all (\<lambda>x. \<not> is_op oid x) as"
      "list_all (\<lambda>x. \<not> is_op oid x) bs" "op_operation_id r = oid"
    using row_one_split [OF one] by blast
  moreover have "db_operations (upd_operation oid f d) = as @ f r # bs"
    using row_map_split [OF s(2,3,4)] by (simp add: upd_operation_def s(1))
  ultimately show ?thesis using request_ofD(1) [OF assms(2)] by (simp add: only_rows_def)
qed

lemma locks_okI:
  assumes "distinct (map lk_book_key (db_locks d))"
    and "\<And>l. l \<in> set (db_locks d) \<Longrightarrow> \<exists>r\<in>set (db_operations d). op_operation_id r = lk_operation_id l
       \<and> op_book_key r = lk_book_key l \<and> (lk_operation_id l \<in> X \<or> active_state (op_state r))"
    and "\<And>r. r \<in> set (db_operations d) \<Longrightarrow> active_state (op_state r) \<Longrightarrow>
       \<exists>l\<in>set (db_locks d). lk_book_key l = op_book_key r \<and> lk_operation_id l = op_operation_id r"
  shows "locks_ok X d"
  using assms unfolding locks_ok_def list_all_iff list_ex_iff by blast

lemma locks_okD:
  assumes "locks_ok X d"
  shows "distinct (map lk_book_key (db_locks d))"
    and "l \<in> set (db_locks d) \<Longrightarrow> \<exists>r\<in>set (db_operations d). op_operation_id r = lk_operation_id l
       \<and> op_book_key r = lk_book_key l \<and> (lk_operation_id l \<in> X \<or> active_state (op_state r))"
    and "r \<in> set (db_operations d) \<Longrightarrow> active_state (op_state r) \<Longrightarrow>
       \<exists>l\<in>set (db_locks d). lk_book_key l = op_book_key r \<and> lk_operation_id l = op_operation_id r"
  using assms unfolding locks_ok_def list_all_iff list_ex_iff by blast+

text \<open>The lock invariant only looks at identifiers, books and activity of the rows.\<close>

lemma locks_ok_transfer:
  assumes "locks_ok X d" "db_locks d' = db_locks d"
    and "\<And>r. r \<in> set (db_operations d) \<Longrightarrow> \<exists>r'\<in>set (db_operations d'). op_operation_id r' = op_operation_id r
       \<and> op_book_key r' = op_book_key r \<and> (op_operation_id r \<in> X \<or> (active_state (op_state r) \<longrightarrow> active_state (op_state r')))"
    and "\<And>r'. r' \<in> set (db_operations d') \<Longrightarrow> active_state (op_state r') \<Longrightarrow> \<exists>r\<in>set (db_operations d).
       op_operation_id r = op_operation_id r' \<and> op_book_key r = op_book_key r' \<and> active_state (op_state r)"
  shows "locks_ok X d'"
proof (rule locks_okI, goal_cases)
  case 1 show ?case using locks_okD(1) [OF assms(1)] assms(2) by simp
next
  case (2 l)
  then obtain r where "r \<in> set (db_operations d)" "op_operation_id r = lk_operation_id l" "op_book_key r = lk_book_key l"
      "lk_operation_id l \<in> X \<or> active_state (op_state r)"
    using locks_okD(2) [OF assms(1)] assms(2) by metis
  with assms(3) [of r] show ?case by metis
next
  case (3 r')
  then show ?case using locks_okD(3) [OF assms(1)] assms(2,4) by metis
qed

text \<open>One lemma for every update of a row: what the new row must satisfy for the tables to stay consistent.\<close>

lemma upd_operation_ok:
  assumes "writer_ok X d" "the_operation oid d = Inr r" "request_of (f r) = request_of r" "op_wf (f r)"
    and up: "active_state (op_state (f r)) \<Longrightarrow> active_state (op_state r)"
    and down: "oid \<in> X \<or> (active_state (op_state r) \<longrightarrow> active_state (op_state (f r)))"
  shows "writer_ok X (upd_operation oid f d)"
proof -
  note one = assms(2) [unfolded the_operation_def]
  note keys = request_ofD [OF assms(3)]
  obtain as bs where s: "db_operations d = as @ r # bs" "list_all (\<lambda>x. \<not> is_op oid x) as"
      "list_all (\<lambda>x. \<not> is_op oid x) bs" "op_operation_id r = oid"
    using row_one_split [OF one] by blast
  have ops: "db_operations (upd_operation oid f d) = as @ f r # bs"
    using row_map_split [OF s(2,3,4)] by (simp add: upd_operation_def s(1))
  have rest: "db_outbox (upd_operation oid f d) = db_outbox d" "db_locks (upd_operation oid f d) = db_locks d"
    by (simp_all add: upd_operation_def)
  have "ledger_ok (upd_operation oid f d)"
    using assms(1,4) by (simp add: writer_ok_def ledger_ok_def ops rest s(1) keys)
  moreover have "locks_ok X (upd_operation oid f d)"
  proof (rule locks_ok_transfer [of X d])
    show "locks_ok X d" using assms(1) by (simp add: writer_ok_def)
    show "db_locks (upd_operation oid f d) = db_locks d" by (rule rest)
  next
    fix x assume x: "x \<in> set (db_operations d)"
    show "\<exists>y\<in>set (db_operations (upd_operation oid f d)). op_operation_id y = op_operation_id x \<and> op_book_key y = op_book_key x
        \<and> (op_operation_id x \<in> X \<or> (active_state (op_state x) \<longrightarrow> active_state (op_state y)))"
    proof (cases "x = r")
      case True
      then show ?thesis unfolding ops by (intro bexI [of _ "f r"] conjI) (use keys s(4) down in auto)
    next
      case False
      then show ?thesis unfolding ops by (intro bexI [of _ x]) (use x s(1) in auto)
    qed
  next
    fix y assume y: "y \<in> set (db_operations (upd_operation oid f d))" "active_state (op_state y)"
    show "\<exists>x\<in>set (db_operations d). op_operation_id x = op_operation_id y \<and> op_book_key x = op_book_key y \<and> active_state (op_state x)"
    proof (cases "y = f r")
      case True
      then show ?thesis unfolding s(1) by (intro bexI [of _ r] conjI) (use keys up y(2) in auto)
    next
      case False
      then show ?thesis unfolding s(1) by (intro bexI [of _ y]) (use y ops in auto)
    qed
  qed
  ultimately show ?thesis using assms(1) by (simp add: writer_ok_def rest)
qed

lemma writer_ok_cong:
  "db_operations d' = db_operations d \<Longrightarrow> db_locks d' = db_locks d \<Longrightarrow> map ob_event_id (db_outbox d') = map ob_event_id (db_outbox d) \<Longrightarrow>
     map ob_aggregate_id (db_outbox d') = map ob_aggregate_id (db_outbox d) \<Longrightarrow> map ob_id (db_outbox d') = map ob_id (db_outbox d) \<Longrightarrow>
     writer_ok X d' = writer_ok X d"
  by (simp add: writer_ok_def ledger_ok_def locks_ok_def)

lemma release_ok:
  assumes "writer_ok {oid} d" "the_operation oid d = Inr r" "\<not> active_state (op_state r)"
  shows "writer_ok {} (d\<lparr>db_locks := filter (\<lambda>l. \<not> (lk_book_key l = op_book_key r \<and> lk_operation_id l = oid)) (db_locks d)\<rparr>)
    \<and> list_all (\<lambda>l. lk_operation_id l \<noteq> oid) (filter (\<lambda>l. \<not> (lk_book_key l = op_book_key r \<and> lk_operation_id l = oid)) (db_locks d))"
proof -
  let ?L = "filter (\<lambda>l. \<not> (lk_book_key l = op_book_key r \<and> lk_operation_id l = oid)) (db_locks d)"
  note r = the_operation_id [OF assms(2)]
  have uniq: "x \<in> set (db_operations d) \<Longrightarrow> op_operation_id x = oid \<Longrightarrow> x = r" for x
    using row_one_eq [OF assms(2) [unfolded the_operation_def]] by simp
  have own: "lk_book_key l = op_book_key r" if "l \<in> set (db_locks d)" "lk_operation_id l = oid" for l
    using assms(1) that uniq locks_okD(2) [of "{oid}" d l] by (auto simp: writer_ok_def)
  then have gone: "list_all (\<lambda>l. lk_operation_id l \<noteq> oid) ?L" by (auto simp: list_all_iff)
  have lk: "locks_ok {oid} d" using assms(1) by (simp add: writer_ok_def)
  have "locks_ok {} (d\<lparr>db_locks := ?L\<rparr>)"
  proof (rule locks_okI, goal_cases)
    case 1 show ?case using locks_okD(1) [OF lk] by (simp add: distinct_map_filter)
  next
    case (2 l)
    then have "l \<in> set (db_locks d)" "lk_operation_id l \<noteq> oid" using own by auto
    then show ?case using locks_okD(2) [OF lk, of l] by auto
  next
    case (3 x)
    then have "op_operation_id x \<noteq> oid" using uniq assms(3) by auto
    with 3 show ?case using locks_okD(3) [OF lk, of x] by auto
  qed
  then show ?thesis using assms(1) gone by (simp add: writer_ok_def ledger_ok_def)
qed

lemma writer_ok_weaken:
  assumes "writer_ok {} d"
  shows "writer_ok X d"
proof -
  have lk: "locks_ok {} d" using assms by (simp add: writer_ok_def)
  have "locks_ok X d"
    by (rule locks_okI) (use locks_okD(1) [OF lk] locks_okD(2) [OF lk] locks_okD(3) [OF lk] in fastforce)+
  then show ?thesis using assms by (simp add: writer_ok_def)
qed

lemma writer_ok_strict:
  assumes "writer_ok {oid} d" "op_at oid S R d" "(\<forall>s\<in>S. active_state s) \<or> closed oid d"
  shows "writer_ok {} d"
proof -
  obtain r where r: "the_operation oid d = Inr r" "op_state r \<in> S" using op_atE [OF assms(2)] by blast
  have uniq: "x \<in> set (db_operations d) \<Longrightarrow> op_operation_id x = oid \<Longrightarrow> x = r" for x
    using row_one_eq [OF r(1) [unfolded the_operation_def]] by simp
  have lk: "locks_ok {oid} d" using assms(1) by (simp add: writer_ok_def)
  have "locks_ok {} d"
  proof (rule locks_okI, goal_cases)
    case (2 l)
    then obtain x where x: "x \<in> set (db_operations d)" "op_operation_id x = lk_operation_id l"
        "op_book_key x = lk_book_key l" "lk_operation_id l = oid \<or> active_state (op_state x)"
      using locks_okD(2) [OF lk, of l] by auto
    moreover have "active_state (op_state x)" if "lk_operation_id l = oid"
      using assms(3) 2 that uniq [OF x(1)] x(2) r(2) by (auto simp: closed_def list_all_iff)
    ultimately show ?case by auto
  qed (use locks_okD(1,3) [OF lk] in auto)
  then show ?thesis using assms(1) by (simp add: writer_ok_def)
qed

section \<open>Programs that leave the tables alone\<close>

text \<open>
  A quiet program touches neither the database nor the library; an external one may also write to the
  library, which the log records with the database committed at that moment.
\<close>

definition same_tables :: "'w session \<Rightarrow> 'w session \<Rightarrow> bool" where
  "same_tables s s' = (s_db s' = s_db s \<and> s_committed s' = s_committed s \<and> s_broken s' = s_broken s)"

definition external :: "('w, 'a) prog \<Rightarrow> bool" where
  "external m = (\<forall>s. same_tables s (snd (m s))
     \<and> (\<exists>ws. s_log (snd (m s)) = s_log s @ ws \<and> list_all (\<lambda>w. ew_db w = s_committed s) ws))"

definition quiet :: "('w, 'a) prog \<Rightarrow> bool" where
  "quiet m = (\<forall>s. same_tables s (snd (m s)) \<and> s_log (snd (m s)) = s_log s)"

named_theorems quiet_intros \<open>quiet programs\<close>
named_theorems external_intros \<open>programs that only write to the library\<close>

lemma same_tables_refl [simp]: "same_tables s s"
  by (simp add: same_tables_def)

lemma same_tables_trans: "same_tables a b \<Longrightarrow> same_tables b c \<Longrightarrow> same_tables a c"
  by (simp add: same_tables_def)

lemma quiet_bnd [quiet_intros]:
  assumes "quiet m" "\<And>x. quiet (f x)"
  shows "quiet (bnd m f)"
  using assms unfolding quiet_def bnd_def by (auto split: prod.splits sum.splits) (metis same_tables_trans snd_conv)+

lemma external_bnd [external_intros]:
  assumes "external m" "\<And>x. external (f x)"
  shows "external (bnd m f)"
  unfolding external_def
proof
  fix s
  obtain r s1 where m: "m s = (r, s1)" by fastforce
  with assms(1) obtain ws where 1: "same_tables s s1" "s_log s1 = s_log s @ ws" "list_all (\<lambda>w. ew_db w = s_committed s) ws"
    unfolding external_def by (metis snd_conv)
  show "same_tables s (snd (bnd m f s)) \<and> (\<exists>ws. s_log (snd (bnd m f s)) = s_log s @ ws \<and> list_all (\<lambda>w. ew_db w = s_committed s) ws)"
  proof (cases r)
    case (Inl e)
    with m 1 show ?thesis by (auto simp: bnd_def)
  next
    case (Inr x)
    from assms(2) [of x] obtain vs where "same_tables s1 (snd (f x s1))" "s_log (snd (f x s1)) = s_log s1 @ vs"
        "list_all (\<lambda>w. ew_db w = s_committed s1) vs"
      unfolding external_def by metis
    moreover have "bnd m f s = f x s1" using m Inr by (simp add: bnd_def)
    ultimately show ?thesis using 1 by (auto intro: same_tables_trans simp: same_tables_def)
  qed
qed

lemma quiet_external: "quiet m \<Longrightarrow> external m"
  by (simp add: quiet_def external_def)

lemma quiet_thn [quiet_intros]: "quiet m \<Longrightarrow> quiet n \<Longrightarrow> quiet (thn m n)"
  by (simp add: thn_def quiet_bnd)

lemma external_thn [external_intros]: "external m \<Longrightarrow> external n \<Longrightarrow> external (thn m n)"
  by (simp add: thn_def external_bnd)

lemma quiet_prims [quiet_intros]:
  "quiet (ret x)" "quiet (raise e)" "quiet (lift_res r)" "quiet (query f)" "quiet utc_now" "quiet new_uuid"
  "quiet (observe g)" "quiet (effect h)"
  by (simp_all add: quiet_def ret_def raise_def lift_res_def query_def utc_now_def new_uuid_def observe_def effect_def
      same_tables_def Let_def split: prod.split)

lemma quiet_query_res [quiet_intros]: "quiet (query_res f)"
  by (simp add: query_res_def quiet_intros)

lemma quiet_if [quiet_intros]: "(b \<Longrightarrow> quiet m) \<Longrightarrow> (\<not> b \<Longrightarrow> quiet n) \<Longrightarrow> quiet (if b then m else n)"
  by simp

lemma quiet_option [quiet_intros]: "quiet n \<Longrightarrow> (\<And>x. quiet (m x)) \<Longrightarrow> quiet (case v of None \<Rightarrow> n | Some x \<Rightarrow> m x)"
  by (cases v) simp_all

lemma quiet_prod [quiet_intros]: "(\<And>a b. quiet (m a b)) \<Longrightarrow> quiet (case v of (a, b) \<Rightarrow> m a b)"
  by (cases v) simp

lemma quiet_Let [quiet_intros]: "(\<And>x. quiet (m x)) \<Longrightarrow> quiet (let x = v in m x)"
  by (simp add: Let_def)

lemma external_library_write [external_intros]: "external (library_write kind book f)"
  by (auto simp: external_def library_write_def same_tables_def Let_def split: prod.split)

lemma external_for_each [external_intros]: "(\<And>x. external (f x)) \<Longrightarrow> external (for_each f xs)"
  by (induction xs) (auto intro: external_intros quiet_external quiet_intros)

lemma external_option [external_intros]: "external n \<Longrightarrow> (\<And>x. external (m x)) \<Longrightarrow> external (case v of None \<Rightarrow> n | Some x \<Rightarrow> m x)"
  by (cases v) simp_all

section \<open>Assertions\<close>

text \<open>
  The context of a run: the operation, the database and log it started from, what must be committed before
  the library is written, and what a succeeded row must satisfy.
\<close>

record wctx =
  wx_oid :: string
  wx_db :: db
  wx_log :: "ext_write list"
  wx_intent :: "db \<Rightarrow> bool"
  wx_verified :: "operation \<Rightarrow> bool"

text \<open>
  What was committed when the library was written, which is what a crash at that moment leaves behind: tables that
  satisfy \<open>P\<close>, are consistent, and differ from \<open>d0\<close> only in the rows of \<open>X\<close>.
\<close>

definition written_with :: "(db \<Rightarrow> bool) \<Rightarrow> string set \<Rightarrow> db \<Rightarrow> ext_write list \<Rightarrow> bool" where
  "written_with P X d0 ws = list_all (\<lambda>w. P (ew_db w) \<and> writer_ok {} (ew_db w) \<and> only_rows X d0 (ew_db w)) ws"

definition kept_log :: "wctx \<Rightarrow> 'w session \<Rightarrow> bool" where
  "kept_log x s = (\<exists>ws. s_log s = wx_log x @ ws \<and> written_with (wx_intent x) {wx_oid x} (wx_db x) ws)"

lemma written_with_Nil [simp]: "written_with P X d0 []"
  by (simp add: written_with_def)

lemma written_with_append [simp]: "written_with P X d0 (vs @ ws) = (written_with P X d0 vs \<and> written_with P X d0 ws)"
  by (simp add: written_with_def)

lemma written_with_mono:
  "written_with P X d0 ws \<Longrightarrow> (\<And>d. P d \<Longrightarrow> P' d) \<Longrightarrow> X \<subseteq> Y \<Longrightarrow> only_rows Y d d0 \<Longrightarrow> written_with P' Y d ws"
  unfolding written_with_def list_all_iff by (meson only_rows_mono only_rows_trans)

definition row_ok :: "wctx \<Rightarrow> (operation \<Rightarrow> bool) \<Rightarrow> operation \<Rightarrow> bool" where
  "row_ok x R r = (R r \<and> (op_state r = ''succeeded'' \<longrightarrow> wx_verified x r))"

definition committed_ok :: "wctx \<Rightarrow> 'w session \<Rightarrow> bool" where
  "committed_ok x s = (writer_ok {} (s_committed s) \<and> only_rows {wx_oid x} (wx_db x) (s_committed s) \<and> kept_log x s)"

text \<open>
  \<open>inv_at x S R D C s\<close>: the operation is in a state of \<open>S\<close> and satisfies \<open>R\<close>, the open transaction satisfies \<open>D\<close>,
  the committed database \<open>C\<close>, and all tables are consistent.
\<close>

definition inv_at ::
    "wctx \<Rightarrow> string set \<Rightarrow> (operation \<Rightarrow> bool) \<Rightarrow> (db \<Rightarrow> bool) \<Rightarrow> (db \<Rightarrow> bool) \<Rightarrow> 'w session \<Rightarrow> bool" where
  "inv_at x S R D C s =
     (\<not> s_broken s \<and> writer_ok {wx_oid x} (s_db s) \<and> only_rows {wx_oid x} (wx_db x) (s_db s)
      \<and> op_at (wx_oid x) S (row_ok x R) (s_db s) \<and> D (s_db s) \<and> committed_ok x s \<and> C (s_committed s))"

text \<open>Row conditions that transitions keep, and table conditions that do not look at operations or at statuses.\<close>

definition row_stable :: "(operation \<Rightarrow> bool) \<Rightarrow> bool" where
  "row_stable R = (\<forall>r n e t. R r \<longrightarrow> R (moved n e t r))"

definition tab_stable :: "(db \<Rightarrow> bool) \<Rightarrow> bool" where
  "tab_stable D = (\<forall>d d'. db_locks d' = db_locks d \<longrightarrow> db_outbox d' = db_outbox d \<longrightarrow>
     map (\<lambda>c. c\<lparr>ch_status := []\<rparr>) (db_changes d') = map (\<lambda>c. c\<lparr>ch_status := []\<rparr>) (db_changes d) \<longrightarrow> D d \<longrightarrow> D d')"

lemma inv_atE:
  assumes "inv_at x S R D C s"
  obtains r where "the_operation (wx_oid x) (s_db s) = Inr r" "op_state r \<in> S" "R r"
    "op_state r = ''succeeded'' \<Longrightarrow> wx_verified x r" "\<not> s_broken s" "writer_ok {wx_oid x} (s_db s)"
    "op_operation_id r = wx_oid x" "op_wf r"
proof -
  from assms obtain r where r: "the_operation (wx_oid x) (s_db s) = Inr r" "op_state r \<in> S" "row_ok x R r"
    by (auto simp: inv_at_def elim: op_atE)
  have ok: "writer_ok {wx_oid x} (s_db s)" using assms by (simp add: inv_at_def)
  with the_operation_id [OF r(1)] have "op_wf r" by (auto simp: writer_ok_def ledger_ok_def list_all_iff)
  with that r ok the_operation_id [OF r(1)] assms show ?thesis by (auto simp: row_ok_def inv_at_def)
qed

lemma inv_at_mono:
  assumes "inv_at x S R D C s" "S \<subseteq> S'" "\<And>r. R r \<Longrightarrow> R' r" "\<And>d. D d \<Longrightarrow> D' d" "\<And>d. C d \<Longrightarrow> C' d"
  shows "inv_at x S' R' D' C' s"
proof -
  have "op_at (wx_oid x) S (row_ok x R) (s_db s)" using assms(1) by (simp add: inv_at_def)
  then have "op_at (wx_oid x) S' (row_ok x R') (s_db s)"
    by (rule op_at_mono [OF _ assms(2)]) (simp add: row_ok_def assms(3))
  with assms show ?thesis by (simp add: inv_at_def)
qed

lemma inv_at_same_tables:
  "inv_at x S R D C s \<Longrightarrow> same_tables s s' \<Longrightarrow> kept_log x s' \<Longrightarrow> inv_at x S R D C s'"
  by (simp add: inv_at_def same_tables_def committed_ok_def)

lemma wp_quiet:
  assumes "quiet m" "inv_at x S R D C s"
    and "\<And>v s'. inv_at x S R D C s' \<Longrightarrow> Q v s'" "\<And>e s'. inv_at x S R D C s' \<Longrightarrow> E e s'"
  shows "wp m Q E s"
proof -
  obtain r s' where m: "m s = (r, s')" by fastforce
  with assms(1) have t: "same_tables s s'" "s_log s' = s_log s" unfolding quiet_def by (metis snd_conv)+
  have "kept_log x s'" using assms(2) t(2) by (simp add: kept_log_def inv_at_def committed_ok_def)
  with assms(2) t(1) have "inv_at x S R D C s'" by (rule inv_at_same_tables)
  with assms(3,4) m show ?thesis by (auto simp: wp_def split: sum.split)
qed

lemma wp_external:
  assumes "external m" "inv_at x S R D C s" "\<And>d. C d \<Longrightarrow> wx_intent x d"
    and "\<And>v s'. inv_at x S R D C s' \<Longrightarrow> Q v s'" "\<And>e s'. inv_at x S R D C s' \<Longrightarrow> E e s'"
  shows "wp m Q E s"
proof -
  obtain r s' where m: "m s = (r, s')" by fastforce
  with assms(1) obtain ws where w: "same_tables s s'" "s_log s' = s_log s @ ws" "list_all (\<lambda>w. ew_db w = s_committed s) ws"
    unfolding external_def by (metis snd_conv)
  have "wx_intent x (s_committed s)" "writer_ok {} (s_committed s)" "only_rows {wx_oid x} (wx_db x) (s_committed s)" "kept_log x s"
    using assms(2,3) by (auto simp: inv_at_def committed_ok_def)
  with w(2,3) have "kept_log x s'" by (auto simp: kept_log_def written_with_def list_all_iff)
  with assms(2) w(1) have "inv_at x S R D C s'" by (rule inv_at_same_tables)
  with assms(4,5) m show ?thesis by (auto simp: wp_def split: sum.split)
qed

section \<open>Rules for the primitive operations\<close>

lemma inv_at_db:
  assumes "inv_at x S R D C s" "writer_ok {wx_oid x} d'" "only_rows {wx_oid x} (s_db s) d'"
    "op_at (wx_oid x) S' (row_ok x R') d'" "D' d'"
  shows "inv_at x S' R' D' C (s\<lparr>s_db := d'\<rparr>)"
  using assms only_rows_trans [of "{wx_oid x}" "wx_db x" "s_db s" d'] by (simp add: inv_at_def committed_ok_def kept_log_def)

lemma inv_at_ticks [simp]: "inv_at x S R D C (s\<lparr>s_ticks := n\<rparr>) = inv_at x S R D C s"
  by (simp add: inv_at_def committed_ok_def kept_log_def)

lemma tab_stableD:
  "tab_stable D \<Longrightarrow> D d \<Longrightarrow> db_locks d' = db_locks d \<Longrightarrow> db_outbox d' = db_outbox d \<Longrightarrow>
    map (\<lambda>c. c\<lparr>ch_status := []\<rparr>) (db_changes d') = map (\<lambda>c. c\<lparr>ch_status := []\<rparr>) (db_changes d) \<Longrightarrow> D d'"
  unfolding tab_stable_def by blast

lemma tab_stable_upd_operation: "tab_stable D \<Longrightarrow> D d \<Longrightarrow> D (upd_operation oid f d)"
  by (rule tab_stableD) (simp_all add: upd_operation_def)

lemma wp_utc_now [wp_eqs]: "wp utc_now Q E s = Q (s_clock s (s_ticks s)) (s\<lparr>s_ticks := Suc (s_ticks s)\<rparr>)"
  by (simp add: wp_def utc_now_def)

lemma wp_get_operation:
  assumes "inv_at x S R D C s" "oid = wx_oid x"
    and "\<And>r. the_operation oid (s_db s) = Inr r \<Longrightarrow> op_state r \<in> S \<Longrightarrow> R r \<Longrightarrow>
          (op_state r = ''succeeded'' \<Longrightarrow> wx_verified x r) \<Longrightarrow> Q r s"
  shows "wp (get_operation oid) Q E s"
  using assms(1) by (rule inv_atE) (simp add: get_operation_def wp_eqs assms(2,3))

lemma inv_at_upd:
  assumes "inv_at x S R D C s" "oid = wx_oid x" "the_operation oid (s_db s) = Inr r"
    and "request_of (f r) = request_of r" "op_wf (f r)" "op_state (f r) \<in> S'" "row_ok x R' (f r)"
    and "active_state (op_state (f r)) \<Longrightarrow> active_state (op_state r)" "tab_stable D"
  shows "inv_at x S' R' D C (s\<lparr>s_db := upd_operation oid f (s_db s)\<rparr>)"
proof -
  have ok: "writer_ok {oid} (s_db s)" using assms(1,2) by (simp add: inv_at_def)
  have oid: "op_operation_id (f r) = oid" using request_ofD(1) [OF assms(4)] the_operation_id [OF assms(3)] by simp
  show ?thesis
  proof (rule inv_at_db [OF assms(1)])
    show "writer_ok {wx_oid x} (upd_operation oid f (s_db s))"
      using upd_operation_ok [of "{oid}" "s_db s" oid r f, OF ok assms(3-5,8)] assms(2) by simp
    show "only_rows {wx_oid x} (s_db s) (upd_operation oid f (s_db s))"
      using only_rows_upd [of oid "s_db s" r f, OF assms(3,4)] assms(2) by simp
    show "op_at (wx_oid x) S' (row_ok x R') (upd_operation oid f (s_db s))"
      using the_operation_upd [of oid "s_db s" r f, OF assms(3) oid] assms(2,6,7) by (simp add: op_at_def)
    show "D (upd_operation oid f (s_db s))"
      using assms(1) by (intro tab_stable_upd_operation [OF assms(9)]) (simp add: inv_at_def)
  qed
qed

lemma can_move_active: "can_move a n \<Longrightarrow> n \<noteq> ''claimed'' \<Longrightarrow> active_state n \<Longrightarrow> active_state a"
  unfolding can_move_cases active_state_def by auto

lemma moved_wf: "op_wf r \<Longrightarrow> can_move (op_state r) n \<Longrightarrow> op_wf (moved n e now r)"
  by (rule op_step_wf [OF op_step.intros [of n e now]]) (simp_all add: transition_operation_eq)

lemma wp_transition:
  assumes "inv_at x S R D C s" "oid = wx_oid x" "\<And>a. a \<in> S \<Longrightarrow> can_move a n" "n \<noteq> ''claimed''"
    and "row_stable R" "tab_stable D" "n = ''succeeded'' \<Longrightarrow> (\<And>r. R r \<Longrightarrow> wx_verified x r)"
    and "\<And>s'. inv_at x {n} R D C s' \<Longrightarrow> Q () s'"
  shows "wp (transition oid n e) Q E s"
  using assms(1)
proof (rule inv_atE, goal_cases)
  case (1 r)
  let ?now = "s_clock s (s_ticks s)"
  let ?s = "s\<lparr>s_ticks := Suc (s_ticks s)\<rparr>"
  have mv: "can_move (op_state r) n" using 1 assms(3) by blast
  have R: "R (moved n e ?now r)" using 1 assms(5) by (simp add: row_stable_def)
  have "inv_at x {n} R D C (?s\<lparr>s_db := upd_operation oid (\<lambda>_. moved n e ?now r) (s_db ?s)\<rparr>)"
  proof (rule inv_at_upd)
    show "inv_at x S R D C ?s" using assms(1) by simp
    show "the_operation oid (s_db ?s) = Inr r" using 1 assms(2) by simp
    show "op_wf (moved n e ?now r)" using moved_wf mv 1 by blast
    show "active_state (op_state (moved n e ?now r)) \<Longrightarrow> active_state (op_state r)"
      using can_move_active [OF mv assms(4)] by simp
    show "row_ok x R (moved n e ?now r)" using R assms(7) [OF _ R] by (simp add: row_ok_def)
  qed (use assms in simp_all)
  then have "Q () (?s\<lparr>s_db := upd_operation oid (\<lambda>_. moved n e ?now r) (s_db ?s)\<rparr>)" by (rule assms(8))
  then show ?case
    using 1 assms(2) mv
    by (simp add: transition_def get_operation_def wp_eqs transition_operation_eq)
qed

text \<open>Recording facts about the operation in its row.\<close>

lemma wp_upd_operation:
  assumes "inv_at x S R D C s" "oid = wx_oid x" "tab_stable D" "''succeeded'' \<notin> S"
    and "\<And>r. request_of (f r) = request_of r \<and> op_state (f r) = op_state r \<and> op_completed_at (f r) = op_completed_at r"
    and "\<And>r. R r \<Longrightarrow> R' (f r)"
    and "\<And>s'. inv_at x S R' D C s' \<Longrightarrow> Q () s'"
  shows "wp (modify_db (upd_operation oid f)) Q E s"
  using assms(1)
proof (rule inv_atE, goal_cases)
  case (1 r)
  have "inv_at x S R' D C (s\<lparr>s_db := upd_operation oid f (s_db s)\<rparr>)"
    by (rule inv_at_upd [OF assms(1,2)]) (use 1 assms(2-6) in \<open>auto simp: row_ok_def op_wf_def\<close>)
  then show ?case by (simp add: wp_eqs assms(7))
qed

lemma wp_other_tables:
  assumes "inv_at x S R D C s" "tab_stable D"
    and "db_operations (f (s_db s)) = db_operations (s_db s)" "db_locks (f (s_db s)) = db_locks (s_db s)"
      "db_outbox (f (s_db s)) = db_outbox (s_db s)" "same_requests (s_db s) (f (s_db s))"
      "map (\<lambda>c. c\<lparr>ch_status := []\<rparr>) (db_changes (f (s_db s))) = map (\<lambda>c. c\<lparr>ch_status := []\<rparr>) (db_changes (s_db s))"
    and "\<And>s'. inv_at x S R D C s' \<Longrightarrow> Q () s'"
  shows "wp (modify_db f) Q E s"
proof -
  have "inv_at x S R D C (s\<lparr>s_db := f (s_db s)\<rparr>)"
  proof (rule inv_at_db [OF assms(1)])
    have "writer_ok {wx_oid x} (s_db s)" using assms(1) by (simp add: inv_at_def)
    then show "writer_ok {wx_oid x} (f (s_db s))"
      by (rule iffD2 [OF writer_ok_cong, rotated -1]) (simp_all only: assms(3-5))
    show "op_at (wx_oid x) S (row_ok x R) (f (s_db s))"
      using assms(1,3) by (simp add: inv_at_def op_at_def the_operation_def)
    have "D (s_db s)" using assms(1) by (simp add: inv_at_def)
    then show "D (f (s_db s))" by (rule tab_stableD [OF assms(2) _ assms(4,5,7)])
  qed (rule only_rows_ops [OF assms(3,6)])
  then show ?thesis by (simp add: wp_eqs assms(8))
qed

lemma wp_set_status:
  assumes "inv_at x S R D C s" "tab_stable D" "\<And>s'. inv_at x S R D C s' \<Longrightarrow> Q () s'"
  shows "wp (set_status k v) Q E s"
  unfolding set_status_def
proof (rule wp_other_tables [OF assms(1,2)])
  have "map (\<lambda>b. b\<lparr>bk_status := []\<rparr>) (db_books (set_book_status k v (s_db s))) = map (\<lambda>b. b\<lparr>bk_status := []\<rparr>) (db_books (s_db s))"
    by (simp add: set_book_status_def map_row_map_keeps)
  then show "same_requests (s_db s) (set_book_status k v (s_db s))" by (simp add: same_requests_def)
qed (simp_all add: assms(3))

lemma wp_set_change_status:
  assumes "inv_at x S R D C s" "tab_stable D" "\<And>s'. inv_at x S R D C s' \<Longrightarrow> Q () s'"
  shows "wp (set_change_status cid v) Q E s"
  unfolding set_change_status_def
  by (rule wp_other_tables [OF assms(1,2)])
    (simp_all add: upd_change_def same_requests_def map_row_map_keeps assms(3))

lemma wp_commit:
  assumes "inv_at x S R D C s" "(\<forall>a\<in>S. active_state a) \<or> (\<forall>d. D d \<longrightarrow> closed (wx_oid x) d)"
    and "\<And>s'. inv_at x S R D (\<lambda>d. op_at (wx_oid x) S (row_ok x R) d \<and> D d) s' \<Longrightarrow> s_committed s' = s_db s' \<Longrightarrow> Q () s'"
  shows "wp commit Q E s"
proof -
  have "writer_ok {} (s_db s)"
    using assms(1,2) by (auto simp: inv_at_def intro: writer_ok_strict [of "wx_oid x"])
  then have "inv_at x S R D (\<lambda>d. op_at (wx_oid x) S (row_ok x R) d \<and> D d) (s\<lparr>s_committed := s_db s\<rparr>)"
    using assms(1) by (simp add: inv_at_def committed_ok_def kept_log_def)
  moreover have "\<not> s_broken s" using assms(1) by (simp add: inv_at_def)
  ultimately show ?thesis using assms(3) by (simp add: wp_def commit_def)
qed

lemma wp_finish_outbox:
  assumes "inv_at x S R D C s" "oid = wx_oid x" "\<And>a. a \<in> S \<Longrightarrow> \<not> active_state a" "status \<in> {''published'', ''failed''}"
    and "\<And>s'. inv_at x S R (closed oid) C s' \<Longrightarrow> Q () s'"
  shows "wp (finish_outbox oid status error) Q E s"
  using assms(1)
proof (rule inv_atE, goal_cases)
  case (1 r)
  let ?is = "\<lambda>e. ob_aggregate_id e = oid"
  let ?L = "filter (\<lambda>l. \<not> (lk_book_key l = op_book_key r \<and> lk_operation_id l = oid)) (db_locks (s_db s))"
  have op: "the_operation oid (s_db s) = Inr r" using 1 assms(2) by simp
  have led: "ledger_ok (s_db s)" using 1 by (simp add: writer_ok_def)
  obtain ev where ev: "row_one ?is (db_outbox (s_db s)) = Inr ev"
    using ledger_ok_event [OF led, of r] the_operation_id [OF op] by auto
  have rel: "writer_ok {} (s_db s\<lparr>db_locks := ?L\<rparr>)" "list_all (\<lambda>l. lk_operation_id l \<noteq> oid) ?L"
    using release_ok [OF _ op] 1 assms(2,3) by auto
  have step: "inv_at x S R (closed oid) C (t\<lparr>s_db := d'\<rparr>)"
    if t: "inv_at x S R D C t" "s_db t = s_db s"
      and d': "d' = s_db s\<lparr>db_outbox := row_map ?is f (db_outbox (s_db s)), db_locks := ?L\<rparr>"
      and f: "\<And>e. ob_aggregate_id (f e) = ob_aggregate_id e" "\<And>e. ob_event_id (f e) = ob_event_id e"
        "\<And>e. ob_status (f e) = status" "\<And>e. ob_id (f e) = ob_id e" for t d' f
  proof (rule inv_at_db [OF t(1)])
    have "writer_ok {} d'" using rel(1)
      by (rule iffD2 [OF writer_ok_cong, rotated -1]) (simp_all add: d' map_row_map_keeps f)
    then show "writer_ok {wx_oid x} d'" by (rule writer_ok_weaken)
    show "only_rows {wx_oid x} (s_db t) d'" by (simp add: d' t(2) same_requests_def only_rows_def)
    show "op_at (wx_oid x) S (row_ok x R) d'" using assms(1) by (simp add: d' inv_at_def op_at_def the_operation_def)
    show "closed oid d'" using rel(2) row_one_upd [OF ev, of f] row_one_in [OF ev] assms(4)
      by (simp add: closed_def d' f)
  qed
  show ?case
  proof (cases "status = ''published''")
    case True
    let ?t = "s\<lparr>s_ticks := Suc (s_ticks s)\<rparr>"
    let ?f = "\<lambda>e. e\<lparr>ob_status := status, ob_last_error := error, ob_published_at := Some (s_clock s (s_ticks s))\<rparr>"
    show ?thesis
      using 1 ev op True assms(5) [OF step [of ?t _ ?f]] assms(1)
      by (simp add: finish_outbox_def wp_eqs row_map_row_map upd_outbox_def get_operation_def the_operation_def)
  next
    case False
    show ?thesis
      using 1 ev op False assms(5) [OF step [of s _ "\<lambda>e. e\<lparr>ob_status := status, ob_last_error := error\<rparr>"]] assms(1)
      by (simp add: finish_outbox_def wp_eqs upd_outbox_def get_operation_def the_operation_def)
  qed
qed

end
