(* ===== verification/WriterLaws.thy ===== *)
theory WriterLaws
  imports WriterLogic
begin

text \<open>
  What processing one claimed operation guarantees, by symbolic execution with the rules of WriterLogic:
  the write-ahead discipline, termination of the operation in the ledger on every path, verified success,
  and the frame of the tables the writer may change.
\<close>

section \<open>Conditions\<close>

definition any_tab :: "db \<Rightarrow> bool" where
  "any_tab d = True"

definition begun :: "string \<Rightarrow> db \<Rightarrow> bool" where
  "begun oid d = op_at oid {''claimed'', ''writing'', ''verifying'', ''restoring''} (\<lambda>_. True) d"

definition planned :: "operation \<Rightarrow> bool" where
  "planned r = (op_before_metadata r \<noteq> None \<and> op_target_metadata r \<noteq> None)"

definition is_undo :: "operation \<Rightarrow> bool" where
  "is_undo r = (op_operation_type r = ''undo_change'')"

definition has_backup :: "string \<Rightarrow> db \<Rightarrow> bool" where
  "has_backup oid d = (case change_of_operation oid d of Some c \<Rightarrow> ch_backup_opf_sha256 c \<noteq> None | None \<Rightarrow> False)"

text \<open>
  What must be durable before the library is written: the operation in state \<open>writing\<close> with the metadata
  before and after, and a sealed backup to go back to (the change row, or for an undo the rollback OPF).
\<close>

definition durable_intent :: "string \<Rightarrow> db \<Rightarrow> bool" where
  "durable_intent oid d =
     (case the_operation oid d of
        Inr r \<Rightarrow> op_state r = ''writing'' \<and> planned r
          \<and> (if is_undo r then op_rollback_opf_sha256 r \<noteq> None else has_backup oid d)
      | Inl _ \<Rightarrow> False)"

text \<open>A read-back of the library matched the target recorded in the row.\<close>

definition verified :: "'w io \<Rightarrow> operation \<Rightarrow> bool" where
  "verified io r = (\<exists>observed target w. op_observed_metadata r = Some observed \<and> op_target_metadata r = Some target
     \<and> matches_items io observed target w = Inr True)"

definition recoverable :: "wctx \<Rightarrow> 'w session \<Rightarrow> bool" where
  "recoverable x s = (committed_ok x s \<and> begun (wx_oid x) (s_committed s))"

definition finished :: "wctx \<Rightarrow> operation \<Rightarrow> 'w session \<Rightarrow> bool" where
  "finished x r s =
     (committed_ok x s \<and> s_db s = s_committed s \<and> \<not> s_broken s \<and> the_operation (wx_oid x) (s_committed s) = Inr r
      \<and> terminal_state (op_state r) \<and> closed (wx_oid x) (s_committed s)
      \<and> (op_state r = ''succeeded'' \<longrightarrow> wx_verified x r))"

named_theorems stable \<open>conditions kept by bookkeeping\<close>

lemma tab_stables [stable]: "tab_stable any_tab" "tab_stable (closed oid)" "tab_stable (\<lambda>_. True)"
  by (simp_all add: tab_stable_def any_tab_def closed_def)

lemma has_backup_stable [stable]: "tab_stable (has_backup oid)"
proof -
  have "(case row_first (\<lambda>c. ch_operation_id c = Some oid) xs of Some c \<Rightarrow> ch_backup_opf_sha256 c \<noteq> None | None \<Rightarrow> False)
      = (case row_first (\<lambda>c. ch_operation_id c = Some oid) (map (\<lambda>c. c\<lparr>ch_status := []\<rparr>) xs) of
           Some c \<Rightarrow> ch_backup_opf_sha256 c \<noteq> None | None \<Rightarrow> False)" for xs
    unfolding row_first_def by (induction xs) simp_all
  then have "has_backup oid d' = has_backup oid d"
    if "map (\<lambda>c. c\<lparr>ch_status := []\<rparr>) (db_changes d') = map (\<lambda>c. c\<lparr>ch_status := []\<rparr>) (db_changes d)" for d d'
    using that unfolding has_backup_def change_of_operation_def by metis
  then show ?thesis unfolding tab_stable_def by blast
qed

lemma row_stables [stable]:
  "row_stable (\<lambda>_. True)" "row_stable planned" "row_stable is_undo" "row_stable (\<lambda>r. \<not> is_undo r)" "row_stable (verified io)"
  "row_stable (\<lambda>r. op_rollback_opf_sha256 r \<noteq> None)"
  by (simp_all add: row_stable_def planned_def is_undo_def verified_def moved_def Let_def)

lemma row_stable_conj [stable]: "row_stable P \<Longrightarrow> row_stable Q \<Longrightarrow> row_stable (\<lambda>r. P r \<and> Q r)"
  by (simp add: row_stable_def)

lemma inv_recoverable:
  "inv_at x S R D C s \<Longrightarrow> (\<And>d. C d \<Longrightarrow> begun (wx_oid x) d) \<Longrightarrow> recoverable x s"
  by (auto simp: inv_at_def recoverable_def)

lemma op_at_begun: "op_at oid S R d \<Longrightarrow> S \<subseteq> {''claimed'', ''writing'', ''verifying'', ''restoring''} \<Longrightarrow> begun oid d"
  unfolding begun_def by (erule op_at_mono) auto

lemma inv_at_know:
  assumes "inv_at x S R D C s" "the_operation (wx_oid x) (s_db s) = Inr r" "P r"
  shows "inv_at x S (\<lambda>r. R r \<and> P r) D C s"
  using assms by (auto simp: inv_at_def op_at_def row_ok_def)

section \<open>Ending an operation\<close>

lemma wp_commit_operation:
  fixes s :: "'w session"
  assumes "inv_at x S R D C s" "oid = wx_oid x" "\<And>a. a \<in> S \<Longrightarrow> terminal_state a" "\<And>d. D d \<Longrightarrow> closed oid d"
    and "\<And>r s'. finished x r s' \<Longrightarrow> Q r s'"
  shows "wp (commit_operation oid) Q E s"
  unfolding commit_operation_def wp_thn
proof (rule wp_commit [OF assms(1)])
  show "(\<forall>a\<in>S. active_state a) \<or> (\<forall>d. D d \<longrightarrow> closed (wx_oid x) d)" using assms(4) unfolding assms(2) by blast
  fix s' :: "'w session"
  assume i: "inv_at x S R D (\<lambda>d. op_at (wx_oid x) S (row_ok x R) d \<and> D d) s'" and c: "s_committed s' = s_db s'"
  have k: "committed_ok x s'" "\<not> s_broken s'" "closed oid (s_db s')" using i unfolding inv_at_def by (blast intro: assms(4))+
  show "wp (get_operation oid) Q E s'"
  proof (rule wp_get_operation [OF i assms(2)])
    fix r assume "the_operation oid (s_db s') = Inr r" "op_state r \<in> S" "op_state r = ''succeeded'' \<Longrightarrow> wx_verified x r"
    then have "finished x r s'"
      using k c assms(3) unfolding finished_def assms(2) by simp
    then show "Q r s'" by (rule assms(5))
  qed
qed

lemma wp_terminalize:
  fixes s :: "'w session"
  assumes "inv_at x S R D C s" "oid = wx_oid x" "\<And>a. a \<in> S \<Longrightarrow> can_move a n" "terminal_state n" "n \<noteq> ''succeeded''"
    and "row_stable R" "tab_stable D" "status \<in> {''published'', ''failed''}"
    and "\<And>r s'. finished x r s' \<Longrightarrow> Q r s'"
  shows "wp (terminalize oid n e k v status e') Q E s"
  unfolding terminalize_def commit_operation_def [symmetric] wp_thn
proof (rule wp_transition [OF assms(1-3) _ assms(6,7)], goal_cases)
  case (4 s1)
  show ?case
  proof (rule wp_set_status [OF 4 assms(7)])
    fix s2 :: "'w session" assume 5: "inv_at x {n} R D C s2"
    show "wp (finish_outbox oid status e') (\<lambda>_. wp (commit_operation oid) Q E) E s2"
    proof (rule wp_finish_outbox [OF 5 assms(2) _ assms(8)])
      show "a \<in> {n} \<Longrightarrow> \<not> active_state a" for a
        using assms(4) by (auto simp: terminal_cases active_state_def)
      fix s3 :: "'w session" assume 6: "inv_at x {n} R (closed oid) C s3"
      show "wp (commit_operation oid) Q E s3"
        by (rule wp_commit_operation [OF 6 assms(2)]) (use assms(4,9) in auto)
    qed
  qed
qed (use assms(4,5) in \<open>auto simp: terminal_cases\<close>)

lemmas state_simps = can_move_cases terminal_cases active_state_def

lemma inv_not_broken: "inv_at x S R D C s \<Longrightarrow> \<not> s_broken s"
  by (simp add: inv_at_def)

lemma wp_apply_failed:
  fixes s :: "'w session"
  assumes "inv_at x {''writing''} R D C s" "row_stable R" "tab_stable D" "\<And>r s'. finished x r s' \<Longrightarrow> Q r s'"
  shows "wp (apply_failed (wx_oid x) k e) Q E s"
proof -
  have end_at: "wp (terminalize (wx_oid x) n e1 k v ''failed'' e2) Q E s'"
    if "inv_at x {a} R D C s'" "can_move a n" "terminal_state n" "n \<noteq> ''succeeded''" for s' :: "'w session" and a n e1 e2 v
    by (rule wp_terminalize [OF that(1) refl _ that(3,4) assms(2,3)]) (use that(2) in simp, simp, rule assms(4))
  have restore: "wp (thn (transition (wx_oid x) ''restoring'' None) (terminalize (wx_oid x) n e1 k v ''failed'' e2)) Q E s"
    if "n \<in> {''restored'', ''restore_failed''}" for n e1 e2 v
    unfolding wp_thn
    by (rule wp_transition [OF assms(1) refl _ _ assms(2,3)], simp_all add: state_simps)
      (rule end_at, assumption, use that in \<open>auto simp: state_simps\<close>)
  show ?thesis
    using inv_not_broken [OF assms(1)] restore [of "''restored''"] restore [of "''restore_failed''"]
      end_at [OF assms(1), of "''unknown''"]
    by (simp add: apply_failed_def wp_query wp_bnd wp_if state_simps split: option.split)
qed

section \<open>Which parts touch what\<close>

lemma quiet_parts [quiet_intros]:
  "quiet (show_metadata io b)" "quiet (matches_patch io o' p)" "quiet (get_operation oid)"
  "quiet (bind_exported_artifact io root path h n)" "quiet (verify_artifact io root path h n)"
  by (auto simp: show_metadata_def matches_patch_def get_operation_def bind_exported_artifact_def verify_artifact_def
      intro!: quiet_intros)

lemma quiet_require_artifact [quiet_intros]: "quiet (require_artifact io root path h n)"
  by (auto simp: require_artifact_def intro!: quiet_intros)

lemma quiet_backup_cover [quiet_intros]: "quiet (backup_cover io b c p)"
  unfolding backup_cover_def by (intro quiet_intros)

lemma quiet_stage_cover [quiet_intros]: "quiet (stage_cover_patch io raw m ids dir)"
  unfolding stage_cover_patch_def Let_def by (auto intro!: quiet_intros split: pyval.split)

lemma quiet_prepare_change [quiet_intros]: "quiet (prepare_change io book b p oid m)"
  unfolding prepare_change_def Let_def by (intro quiet_intros)

lemma quiet_build_target [quiet_intros]: "quiet (build_target_opf en io a b p h)"
  unfolding build_target_opf_def Let_def by (intro quiet_intros)

lemma quiet_verify_live [quiet_intros]: "quiet (verify_v2_live_files en io oid m b)"
  unfolding verify_v2_live_files_def by (intro quiet_intros)

lemma external_set_metadata [external_intros]: "external (set_metadata_from_artifact io b root path h)"
  unfolding set_metadata_from_artifact_def by (intro external_intros quiet_external [OF quiet_prims(2)] quiet_external [OF quiet_prims(7)])

lemma external_set_cover [external_intros]: "external (set_cover_from_artifact io b root path h)"
  unfolding set_cover_from_artifact_def by (intro external_intros quiet_external [OF quiet_prims(2)] quiet_external [OF quiet_prims(7)])

lemma external_set_custom [external_intros]: "external (set_custom io b c v)"
  unfolding set_custom_def by (rule external_intros)

lemmas external_prims = quiet_prims [THEN quiet_external]

lemma external_if: "external m \<Longrightarrow> external n \<Longrightarrow> external (if b then m else n)"
  by simp

lemma external_restore_parts [external_intros]: "external (restore_parts io b root p h c p' h')"
  unfolding restore_parts_def by (auto intro!: external_intros external_prims external_if split: prod.split)

lemma external_set_fields [external_intros]: "external (set_fields io b p t h c)"
  unfolding set_fields_def by (auto intro!: external_intros external_prims)

lemma external_restores [external_intros]:
  "external (restore_components io b c)" "external (restore_change io root b c)"
  "external (restore_operation_rollback io root b r)"
  by (auto simp: restore_components_def restore_change_def restore_operation_rollback_def
      intro!: external_intros external_prims)

lemma external_restore_and_check [external_intros]: "external (restore_and_check io root b c before msg)"
  unfolding restore_and_check_def
  by (intro external_intros external_if external_prims quiet_external [OF quiet_parts(1)] quiet_external [OF quiet_parts(2)])

lemma wp_matches:
  assumes "inv_at x S R D C s"
    and "\<And>b s'. inv_at x S R D C s' \<Longrightarrow> (b \<Longrightarrow> \<exists>w. matches_items io o' p w = Inr True) \<Longrightarrow> Q b s'"
    and "\<And>e s'. inv_at x S R D C s' \<Longrightarrow> E e s'"
  shows "wp (matches_patch io o' p) Q E s"
proof (cases "matches_items io o' p (s_world s)")
  case (Inl e)
  then show ?thesis using assms(3) [OF assms(1)] by (simp add: wp_def matches_patch_def observe_def)
next
  case (Inr b)
  then have "b \<Longrightarrow> \<exists>w. matches_items io o' p w = Inr True" by auto
  with Inr assms(2) [OF assms(1)] show ?thesis by (simp add: wp_def matches_patch_def observe_def)
qed

section \<open>The result of the backup phase\<close>

lemma prepare_change_results:
  "results (prepare_change io book b p oid m) (\<lambda>(c, _, _). ch_operation_id c = Some oid \<and> ch_backup_opf_sha256 c \<noteq> None)"
  unfolding prepare_change_def thn_def Let_def by (simp add: results_bnd results_simps)

section \<open>Applying the patch\<close>

lemma wp_insert_change:
  assumes "inv_at x S R any_tab C s" "ch_operation_id c = Some (wx_oid x)" "ch_backup_opf_sha256 c \<noteq> None"
    and "\<And>cid s'. inv_at x S R (has_backup (wx_oid x)) C s' \<Longrightarrow> Q cid s'"
    and "\<And>s'. committed_ok x s' \<Longrightarrow> C (s_committed s') \<Longrightarrow> s_broken s' \<Longrightarrow> E IntegrityError s'"
  shows "wp (insert_change c) Q E s"
proof (cases "list_ex (\<lambda>r. ch_operation_id r = ch_operation_id c \<and> ch_operation_id c \<noteq> None) (db_changes (s_db s))")
  case True
  have "committed_ok x (s\<lparr>s_broken := True\<rparr>)" "C (s_committed s)"
    using assms(1) by (simp_all add: inv_at_def committed_ok_def kept_log_def)
  with assms(5) have "E IntegrityError (s\<lparr>s_broken := True\<rparr>)" by simp
  with True inv_not_broken [OF assms(1)] show ?thesis
    by (simp add: insert_change_def query_def bnd_def wp_def)
next
  case False
  let ?cid = "next_id (map ch_id (db_changes (s_db s)))"
  let ?d = "s_db s\<lparr>db_changes := db_changes (s_db s) @ [c\<lparr>ch_id := ?cid\<rparr>]\<rparr>"
  have none: "row_first (\<lambda>r. ch_operation_id r = Some (wx_oid x)) (db_changes (s_db s)) = None"
    using False assms(2) by (auto simp: row_first_None list_ex_iff)
  have "inv_at x S R (has_backup (wx_oid x)) C (s\<lparr>s_db := ?d\<rparr>)"
  proof (rule inv_at_db [OF assms(1)])
    have "writer_ok {wx_oid x} (s_db s)" using assms(1) by (simp add: inv_at_def)
    then show "writer_ok {wx_oid x} ?d" by (rule iffD2 [OF writer_ok_cong, rotated -1]) simp_all
    show "only_rows {wx_oid x} (s_db s) ?d" by (simp add: same_requests_def only_rows_def)
    show "op_at (wx_oid x) S (row_ok x R) ?d" using assms(1) by (simp add: inv_at_def op_at_def the_operation_def)
    show "has_backup (wx_oid x) ?d"
      using row_first_append_None [OF none, of "c\<lparr>ch_id := ?cid\<rparr>"] assms(2,3)
      by (simp add: has_backup_def change_of_operation_def)
  qed
  from assms(4) [OF this] False inv_not_broken [OF assms(1)] show ?thesis
    by (simp add: insert_change_def query_def modify_db_def thn_def ret_def bnd_def wp_def)
qed

definition written_ahead :: "wctx \<Rightarrow> (operation \<Rightarrow> bool) \<Rightarrow> db \<Rightarrow> bool" where
  "written_ahead x R d = (op_at (wx_oid x) {''writing''} (row_ok x R) d \<and> has_backup (wx_oid x) d)"

lemma written_ahead_begun: "written_ahead x R d \<Longrightarrow> begun (wx_oid x) d"
  unfolding written_ahead_def by (auto intro: op_at_begun [where S = "{''writing''}"])

text \<open>A commit while the backed-up operation is still writing.\<close>

lemma wp_commit_writing:
  fixes s :: "'w session"
  assumes "inv_at x {''writing''} R (has_backup (wx_oid x)) C s"
    and "\<And>s'. inv_at x {''writing''} R (has_backup (wx_oid x)) (written_ahead x R) s' \<Longrightarrow> Q () s'"
  shows "wp commit Q E s"
proof (rule wp_commit [OF assms(1)])
  fix s' :: "'w session"
  assume "inv_at x {''writing''} R (has_backup (wx_oid x))
      (\<lambda>d. op_at (wx_oid x) {''writing''} (row_ok x R) d \<and> has_backup (wx_oid x) d) s'"
  then have "inv_at x {''writing''} R (has_backup (wx_oid x)) (written_ahead x R) s'"
    by (rule inv_at_mono) (simp_all add: written_ahead_def)
  then show "Q () s'" by (rule assms(2))
qed (simp add: active_state_def)

lemma wp_roll_back_apply:
  fixes s :: "'w session"
  assumes "inv_at x {''writing''} R (has_backup (wx_oid x)) (written_ahead x R) s" "\<And>d. written_ahead x R d \<Longrightarrow> wx_intent x d"
    and "\<And>s'. inv_at x {''writing''} R (has_backup (wx_oid x)) (written_ahead x R) s' \<Longrightarrow> E e s'"
  shows "wp (roll_back_apply io b c m e) Q E s"
proof -
  let ?I = "inv_at x {''writing''} R (has_backup (wx_oid x)) (written_ahead x R) :: 'w session \<Rightarrow> bool"
  have commit: "wp commit (\<lambda>_. wp (raise e) Q E) E s'" if "?I s'" for s'
    by (rule wp_commit_writing [OF that]) (simp add: wp_raise assms(3))
  have status: "wp (set_change_status (ch_id c) v) (\<lambda>_. wp commit (\<lambda>_. wp (raise e) Q E) E) E' s'" if "?I s'" for v s' E'
    by (rule wp_set_change_status [OF that has_backup_stable commit])
  show ?thesis
    unfolding roll_back_apply_def wp_thn wp_try_except wp_bnd any_exception_def if_True
    by (rule wp_external [OF external_restores(1) assms(1,2)], assumption)
      (rule wp_quiet [OF quiet_parts(1)] wp_quiet [OF quiet_prims(7)] status | assumption)+
qed

lemma wp_apply_patch:
  fixes s :: "'w session"
  assumes "inv_at x {''writing''} R any_tab C s" "row_stable R" "\<And>d. C d \<Longrightarrow> begun (wx_oid x) d"
    and ahead: "\<And>d. written_ahead x R d \<Longrightarrow> wx_intent x d"
    and norm: "\<And>c s'. inv_at x {''writing''} R (has_backup (wx_oid x)) (written_ahead x R) s' \<Longrightarrow> Q c s'"
    and exc: "\<And>e s' C'. inv_at x {''writing''} R any_tab C' s' \<Longrightarrow> (\<And>d. C' d \<Longrightarrow> begun (wx_oid x) d) \<Longrightarrow> E e s'"
    and broken: "\<And>e s'. recoverable x s' \<Longrightarrow> s_broken s' \<Longrightarrow> E e s'"
  shows "wp (apply_patch en io book p (wx_oid x) m) Q E s"
proof -
  let ?I = "inv_at x {''writing''} R (has_backup (wx_oid x)) (written_ahead x R) :: 'w session \<Rightarrow> bool"
  have E1: "E e s'" if "inv_at x {''writing''} R any_tab C s'" for e s' by (rule exc [OF that assms(3)])
  have E2: "E e s'" if "?I s'" for e s'
    by (rule exc [OF inv_at_mono [OF that, where D' = any_tab and C' = "written_ahead x R"]])
      (simp_all add: any_tab_def written_ahead_begun)
  have tail: "wp (thn (try_except any_exception (set_fields io b p' t h cover) (roll_back_apply io b r m))
        (thn (set_change_status cid ''applied'') (thn commit (ret v)))) Q E s'"
    if "?I s'" for b p' t h cover r cid v and s' :: "'w session"
  proof -
    have fin: "wp (set_change_status cid ''applied'') (\<lambda>_. wp commit (\<lambda>_. wp (ret v) Q E) E) E s1" if "?I s1" for s1
      by (rule wp_set_change_status [OF that has_backup_stable], rule wp_commit_writing, assumption)
        (simp add: wp_ret norm)
    show ?thesis
      unfolding wp_thn wp_try_except any_exception_def if_True
      by (rule wp_external [OF external_set_fields that ahead fin])
        (simp_all add: wp_roll_back_apply ahead E2)
  qed
  have body: "wp (bnd (insert_change r) (\<lambda>cid. thn commit (bnd (build_target_opf en io a t p' h) (\<lambda>g.
        thn (try_except any_exception (set_fields io b p' t g cover) (roll_back_apply io b (r\<lparr>ch_id := cid\<rparr>) m))
        (thn (set_change_status cid ''applied'') (thn commit (ret (k cid)))))))) Q E s'"
    if "inv_at x {''writing''} R any_tab C s'" "ch_operation_id r = Some (wx_oid x) \<and> ch_backup_opf_sha256 r \<noteq> None"
    for r a t p' h b cover k and s' :: "'w session"
    unfolding wp_bnd [of "insert_change r"]
  proof (rule wp_insert_change [OF that(1)])
    fix cid and s1 :: "'w session"
    assume 1: "inv_at x {''writing''} R (has_backup (wx_oid x)) C s1"
    show "wp (thn commit (bnd (build_target_opf en io a t p' h) (\<lambda>g.
        thn (try_except any_exception (set_fields io b p' t g cover) (roll_back_apply io b (r\<lparr>ch_id := cid\<rparr>) m))
        (thn (set_change_status cid ''applied'') (thn commit (ret (k cid))))))) Q E s1"
      unfolding wp_thn [of commit] wp_bnd [of "build_target_opf en io a t p' h"]
      by (rule wp_commit_writing [OF 1], rule wp_quiet [OF quiet_build_target], assumption) (simp_all add: tail E2)
  next
    fix s1 :: "'w session"
    assume "committed_ok x s1" "C (s_committed s1)" "s_broken s1"
    then show "E IntegrityError s1" by (intro broken) (simp_all add: recoverable_def assms(3))
  qed (use that(2) in simp_all)
  have prep: "wp (prepare_change io book b p' (wx_oid x) m)
      (\<lambda>v s'. inv_at x {''writing''} R any_tab C s' \<and> (case v of (c, _, _) \<Rightarrow> ch_operation_id c = Some (wx_oid x) \<and> ch_backup_opf_sha256 c \<noteq> None))
      E s" for b p'
    by (rule wp_results [OF prepare_change_results], rule wp_quiet [OF quiet_prepare_change assms(1)]) (simp_all add: E1)
  have prepared: "wp (bnd (prepare_change io book b p' (wx_oid x) m) (\<lambda>(row, target_opf, cover_path).
      bnd (insert_change row) (\<lambda>cid. thn commit
        (bnd (build_target_opf en io (ch_backup_opf_path row) target_opf p' (ch_backup_opf_sha256 row)) (\<lambda>g.
         thn (try_except any_exception (set_fields io b p' target_opf g cover_path) (roll_back_apply io b (row\<lparr>ch_id := cid\<rparr>) m))
         (thn (set_change_status cid ''applied'') (thn commit (ret (row\<lparr>ch_id := cid, ch_status := ''applied''\<rparr>))))))))) Q E s" for b p'
    unfolding wp_bnd [of "prepare_change io book b p' (wx_oid x) m"]
    by (rule wp_mono [OF prep]) (auto simp: body)
  show ?thesis
    using prepared E1 [OF assms(1)]
    by (auto simp: apply_patch_def wp_raise wp_bnd [of "lift_res r" for r] wp_lift_res split: option.split sum.split)
qed

section \<open>Verifying and restoring\<close>

lemma wp_close:
  fixes s :: "'w session"
  assumes "inv_at x S R D C s" "tab_stable D" "\<And>a. a \<in> S \<Longrightarrow> \<not> active_state a" "status \<in> {''published'', ''failed''}"
    and "\<And>s'. inv_at x S R (closed (wx_oid x)) C s' \<Longrightarrow> Q () s'"
  shows "wp (set_status k v) (\<lambda>_. wp (finish_outbox (wx_oid x) status e) Q E) E' s"
  by (rule wp_set_status [OF assms(1,2)], erule wp_finish_outbox [OF _ refl assms(3,4)], assumption, erule assms(5))

abbreviation "restore_ends \<equiv> {''restored'', ''restore_failed''}"

lemma wp_end_restore:
  fixes s :: "'w session"
  assumes "inv_at x {''restoring''} R D C s" "row_stable R" "tab_stable D" "n \<in> restore_ends"
    and "\<And>s'. inv_at x restore_ends R (closed (wx_oid x)) C s' \<Longrightarrow> Q () s'"
  shows "wp (transition (wx_oid x) n e) (\<lambda>_. wp (set_change_status cid v)
    (\<lambda>_. wp (set_status k v') (\<lambda>_. wp (finish_outbox (wx_oid x) ''failed'' e') Q E1) E2) E3) E4 s"
proof (rule wp_transition [OF assms(1) refl _ _ assms(2,3)])
  fix s' :: "'w session" assume "inv_at x {n} R D C s'"
  then have i: "inv_at x restore_ends R D C s'" by (rule inv_at_mono) (use assms(4) in auto)
  show "wp (set_change_status cid v) (\<lambda>_. wp (set_status k v') (\<lambda>_. wp (finish_outbox (wx_oid x) ''failed'' e') Q E1) E2) E3 s'"
    by (rule wp_set_change_status [OF i assms(3)], erule wp_close [OF _ assms(3)])
      (auto simp: state_simps assms(5))
qed (use assms(4) in \<open>auto simp: state_simps\<close>)

lemma wp_restore_partial_write:
  fixes s :: "'w session"
  assumes "inv_at x {''verifying''} R D C s" "row_stable R" "tab_stable D" "\<And>d. C d \<Longrightarrow> wx_intent x d"
    and "\<And>s'. inv_at x restore_ends R (closed (wx_oid x)) C s' \<Longrightarrow> Q () s'"
  shows "wp (restore_partial_write io (wx_oid x) k b c before) Q E s"
  unfolding restore_partial_write_def wp_thn wp_try_except any_exception_def if_True
proof (rule wp_transition [OF assms(1) refl _ _ assms(2,3)], goal_cases)
  case (4 s')
  show ?case
    by (rule wp_external [OF external_restore_and_check 4 assms(4)], assumption)
      (erule wp_end_restore [OF _ assms(2,3)], simp, erule assms(5))+
qed (auto simp: state_simps)

text \<open>The row of a metadata operation whose intent is recorded.\<close>

definition apply_row :: "operation \<Rightarrow> bool" where
  "apply_row r = (\<not> is_undo r \<and> planned r)"

lemma apply_row_stable [stable]: "row_stable apply_row"
  using row_stable_conj [OF row_stables(4) row_stables(2)] by (simp add: apply_row_def [abs_def])

lemma wp_verify_write:
  fixes s :: "'w session"
  assumes "inv_at x {''verifying''} apply_row D C s" "tab_stable D" "\<And>d. C d \<Longrightarrow> wx_intent x d"
    and "\<And>d. C d \<Longrightarrow> begun (wx_oid x) d" "\<And>r. verified io r \<Longrightarrow> wx_verified x r"
    and "\<And>r s'. finished x r s' \<Longrightarrow> Q r s'" "\<And>e s'. recoverable x s' \<Longrightarrow> E e s'"
  shows "wp (verify_write io (wx_oid x) k b c before) Q E s"
proof -
  have E: "E e s'" if "inv_at x {''verifying''} R D C s'" for e R and s' :: "'w session"
    by (rule assms(7), rule inv_recoverable [OF that assms(4)])
  have fin: "wp (commit_operation (wx_oid x)) Q E s'" if "inv_at x S R (closed (wx_oid x)) C s'" "\<And>a. a \<in> S \<Longrightarrow> terminal_state a"
    for S R and s' :: "'w session"
    by (rule wp_commit_operation [OF that(1) refl that(2)]) (simp_all add: assms(6))
  have settle: "wp (if ok then thn (transition (wx_oid x) ''succeeded'' None)
                      (thn (set_status k ''applied'') (finish_outbox (wx_oid x) ''published'' None))
                    else restore_partial_write io (wx_oid x) k b c before) (\<lambda>_. wp (commit_operation (wx_oid x)) Q E) E s'"
    if i: "inv_at x {''verifying''} (\<lambda>r. op_observed_metadata r = Some seen \<and> op_target_metadata r = Some target) D C s'"
      and m: "ok \<Longrightarrow> \<exists>w. matches_items io seen target w = Inr True" for ok seen target and s' :: "'w session"
  proof (cases ok)
    case True
    have v: "inv_at x {''verifying''} (verified io) D C s'"
      by (rule inv_at_mono [OF i]) (use m [OF True] in \<open>auto simp: verified_def\<close>)
    show ?thesis unfolding wp_if if_P [OF True] wp_thn
      by (rule wp_transition [OF v refl _ _ row_stables(5) assms(2)])
        (auto simp: state_simps assms(5) intro!: wp_close [OF _ assms(2)] fin)
  next
    case False
    have "row_stable (\<lambda>r. op_observed_metadata r = Some seen \<and> op_target_metadata r = Some target)"
      by (simp add: row_stable_def)
    then show ?thesis unfolding wp_if if_not_P [OF False]
      by (rule wp_restore_partial_write [OF i _ assms(2,3)]) (auto intro!: fin simp: state_simps)
  qed
  show ?thesis
    unfolding verify_write_def wp_bnd wp_thn
  proof (rule wp_quiet [OF quiet_parts(1) assms(1)], goal_cases)
    case (1 seen s1)
    then show ?case
    proof (rule wp_upd_operation [OF _ refl assms(2), where R' = "\<lambda>r. apply_row r \<and> op_observed_metadata r = Some seen"], goal_cases)
      case (4 s2)
      then show ?case
      proof (rule wp_get_operation [OF _ refl], goal_cases)
        case (1 r)
        then obtain t where t: "op_target_metadata r = Some t" by (auto simp: apply_row_def planned_def)
        have "inv_at x {''verifying''} (\<lambda>r. op_observed_metadata r = Some seen \<and> op_target_metadata r = Some t) D C s2"
          by (rule inv_at_mono [OF inv_at_know [OF 4 1(1), of "\<lambda>r. op_target_metadata r = Some t", OF t]]) auto
        then show ?case
          unfolding t option.case by (rule wp_matches) (rule settle, assumption, blast, rule E)
      qed
    qed (auto simp: request_of_def apply_row_def is_undo_def planned_def)
  qed (rule E)
qed

lemma wp_ebook_changed:
  fixes s :: "'w session"
  assumes "inv_at x {''verifying''} R D C s" "row_stable R" "tab_stable D" "\<And>d. C d \<Longrightarrow> wx_intent x d"
    and "\<And>r s'. finished x r s' \<Longrightarrow> Q r s'"
  shows "wp (ebook_changed io (wx_oid x) k b c before e) Q E s"
proof -
  have close: "wp (set_status k ''error'') (\<lambda>_. wp (bnd (operation_error (wx_oid x)) (\<lambda>error.
      thn (finish_outbox (wx_oid x) ''failed'' error) (commit_operation (wx_oid x)))) Q E) E s'"
    if "inv_at x restore_ends R D C s'" for s' :: "'w session"
  proof (rule wp_set_status [OF that assms(3)], unfold operation_error_def wp_bnd, goal_cases)
    case (1 s1)
    show ?case
      by (rule wp_get_operation [OF 1 refl], unfold wp_ret wp_thn, rule wp_finish_outbox [OF 1 refl])
        (auto simp: state_simps intro!: wp_commit_operation [OF _ refl] assms(5))
  qed
  have ended: "wp (transition (wx_oid x) n e1) (\<lambda>_. wp (set_change_status cid v) (\<lambda>_. wp (set_status k ''error'')
      (\<lambda>_. wp (bnd (operation_error (wx_oid x)) (\<lambda>error.
        thn (finish_outbox (wx_oid x) ''failed'' error) (commit_operation (wx_oid x)))) Q E) E) E1) E2 s'"
    if "inv_at x {''restoring''} R D C s'" "n \<in> restore_ends" for n e1 cid v E1 E2 and s' :: "'w session"
  proof (rule wp_transition [OF that(1) refl _ _ assms(2,3)], goal_cases)
    case (4 s1)
    then have "inv_at x restore_ends R D C s1" by (rule inv_at_mono) (use that(2) in auto)
    then show ?case by (rule wp_set_change_status [OF _ assms(3) close])
  qed (use that(2) in \<open>auto simp: state_simps\<close>)
  show ?thesis
    unfolding ebook_changed_def wp_thn wp_try_except any_exception_def if_True
  proof (rule wp_transition [OF assms(1) refl _ _ assms(2,3)], goal_cases)
    case (4 s')
    show ?case
      by (rule wp_external [OF external_restore_and_check 4 assms(4)], assumption)
        (erule ended, simp)+
  qed (auto simp: state_simps)
qed

section \<open>A metadata operation\<close>

lemma wp_align:
  fixes s :: "'w session"
  assumes "inv_at x S R D C s" "tab_stable D" "''succeeded'' \<notin> S"
    and "\<And>r. R r \<Longrightarrow> op_target_metadata r \<noteq> None" "\<And>r t. R r \<Longrightarrow> R (r\<lparr>op_target_metadata := Some t\<rparr>)"
    and "\<And>s'. inv_at x S R D C s' \<Longrightarrow> Q () s'"
  shows "wp (align_verified_calibre_paths (wx_oid x) seen) Q E s"
  unfolding align_verified_calibre_paths_def wp_bnd
proof (rule wp_get_operation [OF assms(1) refl], goal_cases)
  case (1 r)
  then obtain t where t: "op_target_metadata r = Some t" using assms(4) by blast
  show ?case unfolding t option.case
    by (rule wp_upd_operation [OF assms(1) refl assms(2,3), where R' = R]) (auto simp: request_of_def assms(5,6))
qed

lemma wp_begin_writing:
  fixes s :: "'w session"
  assumes "inv_at x {''claimed''} R any_tab C s" "row_stable R'"
    and "\<And>r. R r \<Longrightarrow> R' (r\<lparr>op_before_metadata := Some before, op_target_metadata := Some target\<rparr>)"
    and "\<And>s'. inv_at x {''writing''} R' any_tab (op_at (wx_oid x) {''writing''} (row_ok x R')) s' \<Longrightarrow> Q () s'"
  shows "wp (begin_writing (wx_oid x) before target) Q E s"
  unfolding begin_writing_def wp_thn
proof (rule wp_upd_operation [OF assms(1) refl tab_stables(1), where R' = R'], goal_cases)
  case (4 s1)
  then show ?case
  proof (rule wp_transition [OF _ refl _ _ assms(2) tab_stables(1)], goal_cases)
    case (4 s2)
    then show ?case
      by (rule wp_commit) (auto simp: active_state_def any_tab_def intro!: assms(4))
  qed (auto simp: state_simps)
qed (auto simp: request_of_def assms(3))

lemma wp_after_write:
  fixes s :: "'w session"
  assumes "inv_at x {''writing''} apply_row (has_backup (wx_oid x)) (written_ahead x apply_row) s"
    and "\<And>d. written_ahead x apply_row d \<Longrightarrow> wx_intent x d" "\<And>r. verified io r \<Longrightarrow> wx_verified x r"
    and "\<And>r s'. finished x r s' \<Longrightarrow> Q r s'" "\<And>e s'. recoverable x s' \<Longrightarrow> E e s'"
  shows "wp (after_write en io (wx_oid x) operation b before c) Q E s"
proof -
  let ?I = "inv_at x {''verifying''} apply_row (has_backup (wx_oid x)) (written_ahead x apply_row) :: 'w session \<Rightarrow> bool"
  have verify: "wp (verify_write io (wx_oid x) k b c before) Q E s'" if "?I s'" for k s'
    by (rule wp_verify_write [OF that has_backup_stable assms(2) written_ahead_begun assms(3)]) (simp_all add: assms(4,5))
  have changed: "if is_os_or_value_error e then wp (ebook_changed io (wx_oid x) k b c before e) Q E s' else E e s'"
    if "?I s'" for e k s'
    using wp_ebook_changed [OF that apply_row_stable has_backup_stable assms(2), where Q = Q] assms(4)
      assms(5) inv_recoverable [OF that written_ahead_begun] by simp
  have align: "wp (align_verified_calibre_paths (wx_oid x) seen) (\<lambda>_. wp (verify_write io (wx_oid x) k b c before) Q E) E' s'"
    if "?I s'" for seen k E' s'
    by (rule wp_align [OF that has_backup_stable]) (auto simp: apply_row_def planned_def is_undo_def intro!: verify)
  have live: "wp (if v2 then try_else is_os_or_value_error
              (bnd (show_metadata io b) (\<lambda>post_write.
               thn (verify_v2_live_files en io (wx_oid x) post_write True) (align_verified_calibre_paths (wx_oid x) post_write)))
              (ebook_changed io (wx_oid x) k b c before)
              (\<lambda>_. verify_write io (wx_oid x) k b c before)
       else verify_write io (wx_oid x) k b c before) Q E s'" if "?I s'" for v2 k s'
  proof (cases v2)
    case True
    show ?thesis unfolding if_P [OF True] wp_try_else wp_bnd wp_thn
      by (rule wp_quiet [OF quiet_parts(1) that], erule wp_quiet [OF quiet_verify_live], erule align) (erule changed)+
  qed (simp add: verify [OF that])
  show ?thesis
    unfolding after_write_def Let_def wp_thn
  proof (rule wp_upd_operation [OF assms(1) refl has_backup_stable, where R' = apply_row], goal_cases)
    case (4 s1)
    then show ?case
    proof (rule wp_transition [OF _ refl _ _ apply_row_stable has_backup_stable], goal_cases)
      case (4 s2)
      then show ?case by (rule live)
    qed (auto simp: state_simps)
  qed (auto simp: request_of_def apply_row_def planned_def is_undo_def)
qed

lemma wp_write_operation:
  fixes s :: "'w session"
  assumes "inv_at x {''claimed''} (\<lambda>r. \<not> is_undo r) any_tab C s"
    and "\<And>d. written_ahead x apply_row d \<Longrightarrow> wx_intent x d" "\<And>r. verified io r \<Longrightarrow> wx_verified x r"
    and "\<And>r s'. finished x r s' \<Longrightarrow> Q r s'" "\<And>e s'. recoverable x s' \<Longrightarrow> E e s'"
  shows "wp (write_operation en io (wx_oid x) operation book b before) Q E s"
  unfolding write_operation_def wp_thn wp_try_else any_exception_def if_True
proof (rule wp_begin_writing [OF assms(1) apply_row_stable], goal_cases)
  case (2 s1)
  show ?case
  proof (rule wp_apply_patch [OF 2 apply_row_stable _ assms(2)], goal_cases)
    case (3 c s2)
    then show ?case by (rule wp_after_write [OF _ assms(2,3)]) (simp_all add: assms(4,5))
  next
    case (4 e s2 C')
    show ?case by (rule wp_apply_failed [OF 4(1) apply_row_stable tab_stables(1)]) (rule assms(4))
  next
    case (5 e s2)
    then show ?case by (simp add: apply_failed_def wp_bnd wp_query assms(5))
  qed (auto intro: op_at_begun)
qed (simp add: apply_row_def is_undo_def planned_def)

text \<open>The row of an undo whose intent is recorded.\<close>

definition undo_row :: "operation \<Rightarrow> bool" where
  "undo_row r = (is_undo r \<and> planned r \<and> op_rollback_opf_sha256 r \<noteq> None)"

text \<open>What a processing step needs to know of its context, and what it guarantees in return.\<close>

definition ctx_ok :: "wctx \<Rightarrow> 'w io \<Rightarrow> bool" where
  "ctx_ok x io =
     ((\<forall>d. written_ahead x apply_row d \<longrightarrow> wx_intent x d) \<and> (\<forall>d. op_at (wx_oid x) {''writing''} undo_row d \<longrightarrow> wx_intent x d)
      \<and> (\<forall>r. verified io r \<longrightarrow> wx_verified x r))"

definition processes :: "wctx \<Rightarrow> 'w io \<Rightarrow> (operation \<Rightarrow> bool) \<Rightarrow> ('w, operation) prog \<Rightarrow> bool" where
  "processes x io R m =
     (ctx_ok x io \<longrightarrow>
      (\<forall>s C. inv_at x {''claimed''} R any_tab C s \<longrightarrow> (\<forall>d. C d \<longrightarrow> begun (wx_oid x) d) \<longrightarrow>
         wp m (finished x) (\<lambda>_. recoverable x) s))"

lemma processesI:
  assumes "\<And>s C. ctx_ok x io \<Longrightarrow> inv_at x {''claimed''} R any_tab C s \<Longrightarrow> (\<And>d. C d \<Longrightarrow> begun (wx_oid x) d) \<Longrightarrow>
     wp m (finished x) (\<lambda>_. recoverable x) s"
  shows "processes x io R m"
  using assms unfolding processes_def by blast

lemma processes_raise: "processes x io R (raise e)"
  by (rule processesI) (simp add: wp_raise inv_recoverable)

lemma processes_quiet:
  fixes m :: "('w, 'a) prog"
  assumes "quiet m" "\<And>v. processes x io R (f v)"
  shows "processes x io R (bnd m f)"
proof (rule processesI, unfold wp_bnd)
  fix s :: "'w session" and C assume a: "ctx_ok x io"
    "inv_at x {''claimed''} R any_tab C s" "\<And>d. C d \<Longrightarrow> begun (wx_oid x) d"
  show "wp m (\<lambda>v. wp (f v) (finished x) (\<lambda>_. recoverable x)) (\<lambda>_. recoverable x) s"
    by (rule wp_quiet [OF assms(1) a(2)]) (use assms(2) a in \<open>auto simp: processes_def intro: inv_recoverable\<close>)
qed

lemma processes_try_else:
  fixes m :: "('w, 'a) prog"
  assumes "quiet m" "\<And>e. processes x io R (h e)" "\<And>v. processes x io R (f v)"
  shows "processes x io R (try_else cls m h f)"
proof (rule processesI, unfold wp_try_else)
  fix s :: "'w session" and C assume a: "ctx_ok x io"
    "inv_at x {''claimed''} R any_tab C s" "\<And>d. C d \<Longrightarrow> begun (wx_oid x) d"
  show "wp m (\<lambda>v. wp (f v) (finished x) (\<lambda>_. recoverable x))
      (\<lambda>e s'. if cls e then wp (h e) (finished x) (\<lambda>_. recoverable x) s' else recoverable x s') s"
    by (rule wp_quiet [OF assms(1) a(2)]) (use assms(2,3) a in \<open>auto simp: processes_def intro: inv_recoverable\<close>)
qed

lemma processes_terminalize:
  "row_stable R \<Longrightarrow> processes x io R (terminalize (wx_oid x) ''failed'' e k v ''failed'' e')"
  by (rule processesI, erule wp_terminalize [OF _ refl]) (auto simp: state_simps tab_stables)

lemma processes_write: "processes x io (\<lambda>r. \<not> is_undo r) (write_operation en io (wx_oid x) operation book b before)"
  by (rule processesI, erule wp_write_operation) (simp_all add: ctx_ok_def)

lemma processes_check_and_write:
  "processes x io (\<lambda>r. \<not> is_undo r) (check_and_write en io (wx_oid x) operation book b)"
proof -
  have stale: "processes x io (\<lambda>r. \<not> is_undo r) (terminalize (wx_oid x) ''failed'' m k v ''failed'' m)" for m k v
    by (rule processes_terminalize [OF row_stables(4)])
  have compare: "processes x io (\<lambda>r. \<not> is_undo r)
      (case op_expected_before_metadata operation of
         None \<Rightarrow> terminalize (wx_oid x) ''failed'' m k v ''failed'' m
       | Some expected \<Rightarrow> bnd (matches_patch io before expected) (\<lambda>ok.
           if ok then write_operation en io (wx_oid x) operation book b before
           else terminalize (wx_oid x) ''failed'' m k v ''failed'' m))" for m k v before
    by (auto split: option.split intro!: processes_quiet [OF quiet_parts(2)] stale processes_write)
  show ?thesis
    unfolding check_and_write_def Let_def
    by (auto intro!: processes_quiet [OF quiet_parts(1)] processes_try_else [OF quiet_verify_live] stale compare)
qed

lemma processes_apply:
  "processes x io (\<lambda>r. \<not> is_undo r) (process_apply en io pilot (wx_oid x) operation)"
  unfolding process_apply_def
  by (auto intro!: processes_quiet [OF quiet_query_res] processes_try_else [OF quiet_query_res] processes_raise
      processes_terminalize [OF row_stables(4)] processes_check_and_write split: option.split)

section \<open>An undo\<close>

lemma wp_record:
  fixes s :: "'w session"
  assumes "inv_at x {''claimed''} R any_tab C s"
    and "\<And>r. request_of (f r) = request_of r \<and> op_state (f r) = op_state r \<and> op_completed_at (f r) = op_completed_at r"
    and "\<And>r. R r \<Longrightarrow> R' (f r)" "\<And>s'. inv_at x {''claimed''} R' any_tab C s' \<Longrightarrow> Q () s'"
  shows "wp (modify_db (upd_operation (wx_oid x) f)) Q E s"
  by (rule wp_upd_operation [OF assms(1) refl tab_stables(1) _ assms(2), where R' = R']) (simp_all add: assms(3,4))

definition sealed_undo :: "operation \<Rightarrow> bool" where
  "sealed_undo r = (is_undo r \<and> op_rollback_opf_sha256 r \<noteq> None)"

lemma wp_backup_current:
  fixes s :: "'w session"
  assumes "inv_at x {''claimed''} is_undo any_tab C s"
    and "\<And>s'. inv_at x {''claimed''} sealed_undo any_tab C s' \<Longrightarrow> Q () s'"
    and "\<And>e s' R. inv_at x {''claimed''} R any_tab C s' \<Longrightarrow> E e s'"
  shows "wp (backup_current io (wx_oid x) b c before) Q E s"
proof -
  let ?J = "inv_at x {''claimed''} sealed_undo any_tab C :: 'w session \<Rightarrow> bool"
  have keep: "wp (modify_db (upd_operation (wx_oid x) f)) Q' E' s'"
    if "?J s'" "\<And>r. request_of (f r) = request_of r \<and> op_state (f r) = op_state r \<and> op_completed_at (f r) = op_completed_at r"
      "\<And>r. sealed_undo r \<Longrightarrow> sealed_undo (f r)" "\<And>s'. ?J s' \<Longrightarrow> Q' () s'" for f Q' E' s'
    by (rule wp_record [OF that(1,2), where R' = sealed_undo]) (simp_all add: that(3,4))
  note J = sealed_undo_def is_undo_def request_of_def
  have custom: "wp (if b' then ret () else modify_db (upd_operation (wx_oid x) (\<lambda>r. r\<lparr>op_rollback_custom := v\<rparr>))) Q E s'"
    if "?J s'" for b' v s'
    by (cases b') (auto simp: wp_ret J intro!: assms(2) keep that)
  have cover: "wp (if b' then ret () else bnd (effect f) (\<lambda>cover.
       if cover = None \<or> cover = Some [] then raise e
       else thn (modify_db (upd_operation (wx_oid x) (\<lambda>r. r\<lparr>op_rollback_cover_path := Some p\<rparr>)))
         (bnd (bind_exported_artifact io art p cover n) (\<lambda>h.
          modify_db (upd_operation (wx_oid x) (\<lambda>r. r\<lparr>op_rollback_cover_sha256 := Some h\<rparr>))))))
      (\<lambda>_. wp (if b2 then ret () else modify_db (upd_operation (wx_oid x) (\<lambda>r. r\<lparr>op_rollback_custom := v\<rparr>))) Q E) E s'"
    if "?J s'" for b' f e p art n b2 v s'
  proof (cases b')
    case True
    show ?thesis unfolding if_P [OF True] wp_ret by (rule custom [OF that])
  next
    case False
    show ?thesis unfolding if_not_P [OF False] wp_bnd [of "effect f"]
    proof (rule wp_quiet [OF quiet_prims(8) that], goal_cases)
      case (1 cover s1)
      show ?case
      proof (cases "cover = None \<or> cover = Some []")
        case True
        show ?thesis unfolding if_P [OF True] wp_raise by (rule assms(3) [OF 1])
      next
        case False
        show ?thesis unfolding if_not_P [OF False] wp_thn wp_bnd
          by (rule keep [OF 1], simp add: request_of_def, simp add: J, erule wp_quiet [OF quiet_parts(4)],
              erule keep, simp add: request_of_def, simp add: J, erule custom, erule assms(3))
      qed
    qed (rule assms(3))
  qed
  show ?thesis
    unfolding backup_current_def Let_def wp_thn wp_bnd
    by (rule wp_quiet [OF quiet_prims(8) assms(1)], erule wp_quiet [OF quiet_prims(8)],
        erule wp_record [where R' = is_undo], simp add: request_of_def, simp add: is_undo_def,
        erule wp_quiet [OF quiet_parts(4)],
        erule wp_record [where R' = sealed_undo], simp add: request_of_def, simp add: J,
        erule cover, (erule assms(3))+)
qed

lemma wp_thn_fun: "wp (thn m n) Q E = wp m (\<lambda>_. wp n Q E) E"
  by (rule ext) (rule wp_thn)

lemma wp_restore_pre_undo:
  fixes s :: "'w session"
  assumes "inv_at x {''verifying''} R D C s" "row_stable R" "tab_stable D" "\<And>d. C d \<Longrightarrow> wx_intent x d"
    and "\<And>s'. inv_at x restore_ends R (closed (wx_oid x)) C s' \<Longrightarrow> Q () s'"
  shows "wp (restore_pre_undo io (wx_oid x) k b before) Q E s"
proof -
  have ended: "wp (transition (wx_oid x) n e) (\<lambda>_. wp (set_status k v)
      (\<lambda>_. wp (finish_outbox (wx_oid x) ''failed'' e') Q E1) E2) E3 s'"
    if "inv_at x {''restoring''} R D C s'" "n \<in> restore_ends" for n e v e' E1 E2 E3 and s' :: "'w session"
  proof (rule wp_transition [OF that(1) refl _ _ assms(2,3)], goal_cases)
    case (4 s1)
    then have "inv_at x restore_ends R D C s1" by (rule inv_at_mono) (use that(2) in auto)
    then show ?case by (rule wp_close [OF _ assms(3)]) (auto simp: state_simps assms(5))
  qed (use that(2) in \<open>auto simp: state_simps\<close>)
  show ?thesis
    unfolding restore_pre_undo_def wp_thn wp_try_except any_exception_def if_True
  proof (rule wp_transition [OF assms(1) refl _ _ assms(2,3)], goal_cases)
    case (4 s1)
    show ?case unfolding wp_bnd [of "get_operation (wx_oid x)"]
    proof (rule wp_quiet [OF quiet_parts(3) 4], goal_cases)
      case (1 r s2)
      show ?case unfolding wp_thn wp_bnd
        by (rule wp_quiet [OF quiet_require_artifact 1], erule wp_external [OF external_restores(3) _ assms(4)], assumption,
            erule wp_quiet [OF quiet_parts(1)], erule wp_quiet [OF quiet_parts(2)])
          (auto simp: wp_raise wp_thn_fun intro!: ended)
    qed (rule ended, simp_all)
  qed (auto simp: state_simps)
qed

lemma undo_row_stable [stable]: "row_stable (\<lambda>r. undo_row r \<and> op_target_metadata r = Some t)"
  by (simp add: row_stable_def undo_row_def planned_def is_undo_def moved_def Let_def)

lemma processes_write_undo: "processes x io is_undo (write_undo io (wx_oid x) k b c before)"
proof (rule processesI, goal_cases)
  case (1 s C)
  let ?t = "ch_before_metadata c"
  let ?R = "\<lambda>r. undo_row r \<and> op_target_metadata r = Some ?t"
  let ?C = "op_at (wx_oid x) {''writing''} (row_ok x ?R)"
  have C1: "wx_intent x d" if "?C d" for d
    using 1(1) op_at_mono [OF that subset_refl, of undo_row] unfolding ctx_ok_def row_ok_def by blast
  have C2: "begun (wx_oid x) d" if "?C d" for d by (rule op_at_begun [OF that]) simp
  have fin: "wp (commit_operation (wx_oid x)) (finished x) (\<lambda>_. recoverable x) s'"
    if "inv_at x S R (closed (wx_oid x)) ?C s'" "\<And>a. a \<in> S \<Longrightarrow> terminal_state a" for S R s'
    by (rule wp_commit_operation [OF that(1) refl that(2)]) simp_all
  have settle: "wp (if ok
            then thn (transition (wx_oid x) ''succeeded'' None)
                   (thn (set_change_status (ch_id c) ''undone'')
                   (thn (set_status k ''suggest_fix'') (finish_outbox (wx_oid x) ''published'' None)))
            else restore_pre_undo io (wx_oid x) k b before) (\<lambda>_. wp (commit_operation (wx_oid x)) (finished x) (\<lambda>_. recoverable x))
            (\<lambda>_. recoverable x) s'"
    if i: "inv_at x {''verifying''} (\<lambda>r. ?R r \<and> op_observed_metadata r = Some seen) any_tab ?C s'"
      and m: "ok \<Longrightarrow> \<exists>w. matches_items io seen ?t w = Inr True" for ok seen s'
  proof (cases ok)
    case True
    have v: "inv_at x {''verifying''} (verified io) any_tab ?C s'"
      by (rule inv_at_mono [OF i]) (use m [OF True] in \<open>auto simp: verified_def\<close>)
    show ?thesis unfolding if_P [OF True] wp_thn
    proof (rule wp_transition [OF v refl _ _ row_stables(5) tab_stables(1)], goal_cases)
      case (4 s1)
      then show ?case
        by (rule wp_set_change_status [OF _ tab_stables(1)], intro wp_close [OF _ tab_stables(1)])
          (auto simp: state_simps intro!: fin)
    qed (use 1(1) in \<open>auto simp: state_simps ctx_ok_def\<close>)
  next
    case False
    have "row_stable (\<lambda>r. ?R r \<and> op_observed_metadata r = Some seen)"
      using undo_row_stable [of ?t] by (simp add: row_stable_def)
    then show ?thesis unfolding if_not_P [OF False]
      by (rule wp_restore_pre_undo [OF i _ tab_stables(1) C1]) (auto intro!: fin simp: state_simps)
  qed
  have after: "wp (restore_change io root b c) (\<lambda>_. wp (transition (wx_oid x) ''verifying'' None) (\<lambda>_. wp (show_metadata io b)
     (\<lambda>observed. wp (modify_db (upd_operation (wx_oid x) (\<lambda>r. r\<lparr>op_observed_metadata := Some observed\<rparr>)))
       (\<lambda>_. wp (matches_patch io observed ?t) (\<lambda>ok. wp (if ok
            then thn (transition (wx_oid x) ''succeeded'' None)
                   (thn (set_change_status (ch_id c) ''undone'')
                   (thn (set_status k ''suggest_fix'') (finish_outbox (wx_oid x) ''published'' None)))
            else restore_pre_undo io (wx_oid x) k b before) (\<lambda>_. wp (commit_operation (wx_oid x)) (finished x) (\<lambda>_. recoverable x))
            (\<lambda>_. recoverable x)) (\<lambda>_. recoverable x)) (\<lambda>_. recoverable x)) (\<lambda>_. recoverable x)) (\<lambda>_. recoverable x))
      (\<lambda>_. recoverable x) s'" if "inv_at x {''writing''} ?R any_tab ?C s'" for root s'
  proof (rule wp_external [OF external_restores(2) that C1], assumption, goal_cases)
    case (1 v s1)
    then show ?case
    proof (rule wp_transition [OF _ refl _ _ undo_row_stable tab_stables(1)], goal_cases)
      case (4 s2)
      then show ?case
      proof (rule wp_quiet [OF quiet_parts(1)], goal_cases)
        case (1 seen s3)
        show ?case
          by (rule wp_upd_operation [OF 1 refl tab_stables(1), where R' = "\<lambda>r. ?R r \<and> op_observed_metadata r = Some seen"],
              simp, simp add: request_of_def, simp add: undo_row_def is_undo_def planned_def,
              erule wp_matches, rule settle, assumption, blast, erule inv_recoverable [OF _ C2])
      qed (erule inv_recoverable [OF _ C2])
    qed (auto simp: state_simps)
  qed (erule inv_recoverable [OF _ C2])
  show ?case
    unfolding write_undo_def wp_thn wp_bnd
  proof (rule wp_backup_current [OF 1(2)], goal_cases)
    case (1 s1)
    then show ?case
    proof (rule wp_record [where R' = sealed_undo], goal_cases)
      case (3 s2)
      then show ?case by (rule wp_begin_writing [OF _ undo_row_stable [of ?t]])
        (simp_all add: sealed_undo_def undo_row_def is_undo_def planned_def after)
    qed (simp_all add: sealed_undo_def is_undo_def request_of_def)
  qed (erule inv_recoverable, erule 1(3))
qed

lemma processes_undo: "processes x io is_undo (process_undo io (wx_oid x) operation)"
  unfolding process_undo_def Let_def thn_def
  by (auto intro!: processes_quiet [OF quiet_prims(4)] processes_quiet [OF quiet_query_res] processes_raise
      processes_terminalize [OF row_stables(3)] processes_quiet [OF quiet_require_artifact]
      processes_quiet [OF quiet_parts(1)] processes_quiet [OF quiet_parts(2)] processes_write_undo split: option.split)

section \<open>Processing and failing\<close>

lemma wp_process:
  fixes s :: "'w session"
  assumes "ctx_ok x io" "inv_at x {''claimed''} (\<lambda>_. True) any_tab C s" "\<And>d. C d \<Longrightarrow> begun (wx_oid x) d"
  shows "wp (process en io pilot (wx_oid x)) (finished x) (\<lambda>_. recoverable x) s"
  unfolding process_def wp_bnd
proof (rule wp_get_operation [OF assms(2) refl], goal_cases)
  case (1 r)
  have k: "inv_at x {''claimed''} is_undo any_tab C s" if "is_undo r"
    by (rule inv_at_mono [OF inv_at_know [OF assms(2) 1(1), of is_undo, OF that]]) simp_all
  have n: "inv_at x {''claimed''} (\<lambda>r. \<not> is_undo r) any_tab C s" if "\<not> is_undo r"
    by (rule inv_at_mono [OF inv_at_know [OF assms(2) 1(1), of "\<lambda>r. \<not> is_undo r", OF that]]) simp_all
  show ?case
    using 1(2) processes_undo [of x io r] processes_apply [of x io en pilot r] k n assms(1,3)
    by (auto simp: processes_def is_undo_def)
qed

lemma wp_fail_operation:
  fixes s :: "'w session"
  assumes "inv_at x {a} (\<lambda>_. True) any_tab C s" "active_state a"
    and "\<And>r s'. finished x r s' \<Longrightarrow> Q () s'"
  shows "wp (fail_operation (wx_oid x) e) Q E s"
proof -
  have close: "wp (finish_outbox (wx_oid x) ''failed'' (Some e)) (\<lambda>_. wp commit Q E) E s'"
    if "inv_at x {n} (\<lambda>_. True) any_tab C s'" "terminal_state n" for n and s' :: "'w session"
  proof (rule wp_finish_outbox [OF that(1) refl], goal_cases)
    case (3 s1)
    then have "wp (commit_operation (wx_oid x)) (finished x) (\<lambda>_ _. False) s1"
      by (rule wp_commit_operation [OF _ refl]) (use that(2) in auto)
    then show ?case
      unfolding commit_operation_def wp_thn
      by (rule wp_mono) (auto dest!: wp_no_raise simp: get_operation_def query_res_def query_def bnd_def lift_res_def
          intro: assms(3) split: if_splits)
  qed (use that(2) in \<open>auto simp: state_simps\<close>)
  have mark: "wp (thn (case book of Some b \<Rightarrow> set_status (bk_book_key b) ''error'' | None \<Rightarrow> ret ())
      (thn (finish_outbox (wx_oid x) ''failed'' (Some e)) commit)) Q E s'"
    if "inv_at x {n} (\<lambda>_. True) any_tab C s'" "terminal_state n" for n book and s' :: "'w session"
    by (cases book) (auto simp: wp_thn_fun wp_ret close [OF that] intro!: wp_set_status [OF that(1) tab_stables(1)] close that(2))
  have step: "wp (transition (wx_oid x) n (Some e)) (\<lambda>_. wp (bnd (query f)
      (\<lambda>book. thn (case book of Some b \<Rightarrow> set_status (bk_book_key b) ''error'' | None \<Rightarrow> ret ())
        (thn (finish_outbox (wx_oid x) ''failed'' (Some e)) commit))) Q E) E s"
    if "can_move a n" "terminal_state n" "n \<noteq> ''succeeded''" for n f
  proof (rule wp_transition [OF assms(1) refl _ _ row_stables(1) tab_stables(1)], goal_cases)
    case (4 s1)
    then show ?case unfolding wp_bnd wp_query by (simp add: inv_not_broken mark [OF 4 that(2)])
  qed (use that in \<open>auto simp: terminal_cases\<close>)
  show ?thesis
    unfolding fail_operation_def wp_bnd [of "get_operation (wx_oid x)"]
  proof (rule wp_get_operation [OF assms(1) refl], goal_cases)
    case (1 r)
    consider "a = ''claimed''" | "a \<in> {''writing'', ''verifying''}" | "a = ''restoring''"
      using assms(2) by (auto simp: active_state_def)
    then show ?case unfolding wp_thn [of "if _ then _ else _"]
      by cases (use 1(2) step [of "''failed''"] step [of "''unknown''"] step [of "''restore_failed''"] in
        \<open>auto simp: state_simps\<close>)
  qed
qed

end
