(* ===== verification/WriterFrame.thy ===== *)
theory WriterFrame
  imports WriterLaws
begin

text \<open>
  What processing an operation may change in the tables besides its own row: its outbox event, its lock, the status of its book, its
  change and the status of the change it undoes. Every part of the writer keeps any condition on the tables that these updates keep;
  the conditions are stated as locales and interpreted for the three uses: the frame of an operation, the changes as they were, and
  an operation that has not succeeded.
\<close>

section \<open>Conditions on both databases of a session\<close>

definition both :: "(db \<Rightarrow> bool) \<Rightarrow> 'w session \<Rightarrow> bool" where
  "both P s = (P (s_db s) \<and> P (s_committed s))"

lemma both_simps [simp]:
  "both P (s\<lparr>s_ticks := n\<rparr>) = both P s" "both P (s\<lparr>s_world := w\<rparr>) = both P s" "both P (s\<lparr>s_log := l\<rparr>) = both P s"
  "both P (s\<lparr>s_broken := b\<rparr>) = both P s"
  by (simp_all add: both_def)

lemma preserves_external: "external m \<Longrightarrow> preserves (both P) m"
  unfolding preserves_iff external_def same_tables_def both_def by metis

lemma preserves_quiet: "quiet m \<Longrightarrow> preserves (both P) m"
  by (rule preserves_external) (rule quiet_external)

lemma preserves_modify: "(\<And>d. P d \<Longrightarrow> P (f d)) \<Longrightarrow> preserves (both P) (modify_db f)"
  by (simp add: preserves_iff modify_db_def both_def)

lemma preserves_commit [preserved]: "preserves (both P) commit"
  by (simp add: preserves_iff commit_def both_def)

lemma preserves_rollback [preserved]: "preserves (both P) rollback"
  by (simp add: preserves_iff rollback_def both_def)

lemma preserves_query: "(\<And>d. P d \<Longrightarrow> preserves (both P) (k (f d))) \<Longrightarrow> preserves (both P) (bnd (query f) k)"
  unfolding preserves_iff by (auto simp: bnd_def query_def both_def)

lemma preserves_query_res:
  fixes k :: "'a \<Rightarrow> ('w, 'b) prog"
  assumes "\<And>d x. P d \<Longrightarrow> f d = Inr x \<Longrightarrow> preserves (both P) (k x)"
  shows "preserves (both P) (bnd (query_res f) k)"
  unfolding preserves_iff
proof (intro allI impI)
  fix s :: "'w session" assume s: "both P s"
  show "both P (snd (bnd (query_res f) k s))"
  proof (cases "s_broken s \<or> (\<exists>e. f (s_db s) = Inl e)")
    case True
    with s show ?thesis by (auto simp: bnd_def query_res_def query_def lift_res_def)
  next
    case False
    then obtain x where x: "f (s_db s) = Inr x" "\<not> s_broken s" by (cases "f (s_db s)") auto
    have "P (s_db s)" using s by (simp add: both_def)
    from assms [OF this x(1)] s have "both P (snd (k x s))" by (simp add: preserves_iff)
    with x show ?thesis by (simp add: bnd_def query_res_def query_def lift_res_def)
  qed
qed

text \<open>The quiet parts, with any continuation.\<close>

lemmas preserves_parts =
  quiet_parts [THEN preserves_quiet] quiet_require_artifact [THEN preserves_quiet] quiet_backup_cover [THEN preserves_quiet]
  quiet_stage_cover [THEN preserves_quiet] quiet_prepare_change [THEN preserves_quiet] quiet_build_target [THEN preserves_quiet]
  quiet_verify_live [THEN preserves_quiet] quiet_query_res [THEN preserves_quiet] quiet_prims [THEN preserves_quiet]
  external_set_fields [THEN preserves_external] external_restores [THEN preserves_external]
  external_restore_and_check [THEN preserves_external]

section \<open>What the parts keep\<close>

text \<open>A step of the operation's row that does not make it succeed, and the columns of an event that never change.\<close>

definition row_step :: "operation \<Rightarrow> operation \<Rightarrow> bool" where
  "row_step r r' = (request_of r' = request_of r \<and> (op_state r' = ''succeeded'' \<longrightarrow> op_state r = ''succeeded''))"

definition event_core :: "outbox_event \<Rightarrow> outbox_event" where
  "event_core e = e\<lparr>ob_status := [], ob_last_error := None, ob_published_at := None\<rparr>"

lemma preserves_transition:
  assumes "\<And>d r t. P d \<Longrightarrow> the_operation oid d = Inr r \<Longrightarrow> P (upd_operation oid (\<lambda>_. moved n e t r) d)"
  shows "preserves (both P) (transition oid n e :: ('w, unit) prog)"
  unfolding preserves_def
proof (intro allI impI)
  fix s :: "'w session" assume s: "both P s"
  show "wp (transition oid n e) (\<lambda>_. both P) (\<lambda>_. both P) s"
  proof (cases "the_operation oid (s_db s)")
    case (Inl x)
    with s show ?thesis by (simp add: transition_def get_operation_def wp_eqs)
  next
    case (Inr r)
    have "P (upd_operation oid (\<lambda>_. moved n e t r) (s_db s))" for t
      using s Inr by (intro assms) (simp_all add: both_def)
    with s Inr show ?thesis
      by (simp add: transition_def get_operation_def wp_eqs transition_operation_eq both_def)
  qed
qed

locale table_frame =
  fixes P :: "db \<Rightarrow> bool" and oid :: string and B :: "string set" and U :: "nat set"
  assumes operation: "P d \<Longrightarrow> (\<And>r. r \<in> set (db_operations d) \<Longrightarrow> op_operation_id r = oid \<Longrightarrow> row_step r (f r)) \<Longrightarrow> P (upd_operation oid f d)"
    and book: "P d \<Longrightarrow> k \<in> B \<Longrightarrow> P (set_book_status k v d)"
    and event: "P d \<Longrightarrow> (\<And>e. event_core (f' e) = event_core e) \<Longrightarrow> P (upd_outbox oid f' d)"
    and lock: "P d \<Longrightarrow> P (d\<lparr>db_locks := filter (\<lambda>l. \<not> (lk_book_key l = k \<and> lk_operation_id l = oid)) (db_locks d)\<rparr>)"
    and change: "P d \<Longrightarrow> c \<in> U \<Longrightarrow> P (upd_change c (\<lambda>x. x\<lparr>ch_status := v\<rparr>) d)"
begin

lemma transition_kept: "n \<noteq> ''succeeded'' \<Longrightarrow> preserves (both P) (transition oid n e)"
  by (rule preserves_transition) (auto intro!: operation simp: row_step_def the_operation_def dest: row_one_eq)

lemma column_kept: "(\<And>r. row_step r (f r)) \<Longrightarrow> preserves (both P) (modify_db (upd_operation oid f))"
  by (rule preserves_modify) (rule operation)

lemma set_status_kept: "k \<in> B \<Longrightarrow> preserves (both P) (set_status k v)"
  unfolding set_status_def by (rule preserves_modify) (rule book)

lemma set_change_status_kept: "c \<in> U \<Longrightarrow> preserves (both P) (set_change_status c v)"
  unfolding set_change_status_def by (rule preserves_modify) (rule change)

lemma finish_outbox_kept: "preserves (both P) (finish_outbox oid st e)"
  unfolding finish_outbox_def
  by (intro preserved preserves_parts preserves_modify event lock) (simp_all add: event_core_def)

lemma terminalize_kept: "n \<noteq> ''succeeded'' \<Longrightarrow> k \<in> B \<Longrightarrow> preserves (both P) (terminalize oid n e k v st e')"
  unfolding terminalize_def by (intro preserved transition_kept set_status_kept finish_outbox_kept preserves_parts)

lemmas parts_kept = preserved preserves_parts transition_kept column_kept set_status_kept set_change_status_kept finish_outbox_kept
  terminalize_kept

lemma fail_operation_kept:
  assumes "\<And>d r. P d \<Longrightarrow> the_operation oid d = Inr r \<Longrightarrow> op_book_key r \<in> B"
  shows "preserves (both P) (fail_operation oid e)"
  unfolding fail_operation_def get_operation_def
proof (rule preserves_query_res, rule preserves_thn, goal_cases)
  case (2 d r)
  then have k: "op_book_key r \<in> B" by (rule assms)
  show ?case
  proof (rule preserves_query, goal_cases)
    case (1 d')
    have "bk_book_key b \<in> B" if "row_first (\<lambda>b. bk_book_key b = op_book_key r) (db_books d') = Some b" for b
      using row_first_Some [OF that] k by simp
    then show ?case
      by (cases "row_first (\<lambda>b. bk_book_key b = op_book_key r) (db_books d')") (auto intro!: parts_kept)
  qed
qed (auto intro!: parts_kept)

lemma begin_writing_kept: "preserves (both P) (begin_writing oid before target)"
  unfolding begin_writing_def by (intro parts_kept) (simp_all add: row_step_def request_of_def)

lemma backup_current_kept: "preserves (both P) (backup_current io oid b c before)"
  unfolding backup_current_def Let_def by (intro parts_kept) (simp_all add: row_step_def request_of_def)

lemma restore_pre_undo_kept: "k \<in> B \<Longrightarrow> preserves (both P) (restore_pre_undo io oid k b before)"
  unfolding restore_pre_undo_def by (intro parts_kept) simp_all

lemma restore_partial_write_kept: "k \<in> B \<Longrightarrow> ch_id c \<in> U \<Longrightarrow> preserves (both P) (restore_partial_write io oid k b c before)"
  unfolding restore_partial_write_def by (intro parts_kept) simp_all

lemma apply_failed_kept: "k \<in> B \<Longrightarrow> preserves (both P) (apply_failed oid k e)"
  unfolding apply_failed_def by (intro parts_kept) simp_all

lemma ebook_changed_kept: "k \<in> B \<Longrightarrow> ch_id c \<in> U \<Longrightarrow> preserves (both P) (ebook_changed io oid k b c before e)"
  unfolding ebook_changed_def operation_error_def commit_operation_def by (intro parts_kept) simp_all

lemma roll_back_apply_kept: "ch_id c \<in> U \<Longrightarrow> preserves (both P) (roll_back_apply io b c x e)"
  unfolding roll_back_apply_def by (intro parts_kept)

lemma align_kept: "preserves (both P) (align_verified_calibre_paths oid m)"
  unfolding align_verified_calibre_paths_def by (intro parts_kept) (simp_all add: row_step_def request_of_def)

end

section \<open>Whole runs\<close>

text \<open>The change an undo is for, and the key and the Calibre id of the book an operation writes.\<close>

definition undone_change :: "operation \<Rightarrow> db \<Rightarrow> change option" where
  "undone_change r d =
     (case as_int (pget (op_requested_patch r) ''change_id'') of None \<Rightarrow> None | Some cid \<Rightarrow> get_change cid d)"

definition written_key :: "string \<Rightarrow> db \<Rightarrow> string option" where
  "written_key oid d =
     (case the_operation oid d of
        Inl _ \<Rightarrow> None
      | Inr r \<Rightarrow> if is_undo r then map_option ch_book_key (undone_change r d) else Some (op_book_key r))"

definition written_book :: "string \<Rightarrow> db \<Rightarrow> int option" where
  "written_book oid d =
     (case written_key oid d of
        None \<Rightarrow> None
      | Some k \<Rightarrow> (case row_one (\<lambda>b. bk_book_key b = k) (db_books d) of Inl _ \<Rightarrow> None | Inr b \<Rightarrow> bk_calibre_book_id b))"

text \<open>A program that keeps an assertion and returns values that satisfy \<open>R\<close>; and a Hoare triple whose precondition is kept on the way.\<close>

definition yields :: "('s \<Rightarrow> bool) \<Rightarrow> ('s, 'a) eff \<Rightarrow> ('a \<Rightarrow> bool) \<Rightarrow> bool" where
  "yields I m R = (\<forall>s. I s \<longrightarrow> wp m (\<lambda>x s'. R x \<and> I s') (\<lambda>_. I) s)"

definition settles :: "('s \<Rightarrow> bool) \<Rightarrow> ('s, 'a) eff \<Rightarrow> ('a \<Rightarrow> 's \<Rightarrow> bool) \<Rightarrow> (exn \<Rightarrow> 's \<Rightarrow> bool) \<Rightarrow> bool" where
  "settles I m Q E = (\<forall>s. I s \<longrightarrow> wp m Q E s)"

lemma yields_results: "preserves I m \<Longrightarrow> results m R \<Longrightarrow> yields I m R"
  unfolding preserves_def yields_def by (auto dest: wp_results elim!: wp_mono)

lemma yields_preserves: "yields I m R \<Longrightarrow> preserves I m"
  unfolding preserves_def yields_def by (auto elim!: wp_mono)

lemma yields_bnd: "yields I m R \<Longrightarrow> (\<And>x. R x \<Longrightarrow> yields I (f x) R') \<Longrightarrow> yields I (bnd m f) R'"
  unfolding yields_def wp_bnd by (auto elim!: wp_mono)

lemma yields_any: "preserves I m \<Longrightarrow> (\<And>x. yields I (f x) R') \<Longrightarrow> yields I (bnd m f) R'"
  by (rule yields_bnd [where R = "\<lambda>_. True"]) (simp_all add: yields_results results_any)

lemma yields_thn: "preserves I m \<Longrightarrow> yields I n R \<Longrightarrow> yields I (thn m n) R"
  unfolding thn_def by (rule yields_any)

lemma yields_simps: "yields I (raise e) R" "R x \<Longrightarrow> yields I (ret x) R"
  by (simp_all add: yields_def wp_eqs)

lemma settles_yields:
  "yields I m R \<Longrightarrow> (\<And>x. R x \<Longrightarrow> settles I (f x) Q E) \<Longrightarrow> (\<And>e s. I s \<Longrightarrow> E e s) \<Longrightarrow> settles I (bnd m f) Q E"
  unfolding yields_def settles_def wp_bnd by (auto elim!: wp_mono)

lemma settles_bnd:
  "preserves I m \<Longrightarrow> (\<And>x. settles I (f x) Q E) \<Longrightarrow> (\<And>e s. I s \<Longrightarrow> E e s) \<Longrightarrow> settles I (bnd m f) Q E"
  by (rule settles_yields [where R = "\<lambda>_. True"]) (simp_all add: yields_results results_any)

lemma settles_thn: "preserves I m \<Longrightarrow> settles I n Q E \<Longrightarrow> (\<And>e s. I s \<Longrightarrow> E e s) \<Longrightarrow> settles I (thn m n) Q E"
  unfolding thn_def by (rule settles_bnd)

lemma settles_try_else:
  assumes "yields I m R" "\<And>e. settles I (h e) Q E" "\<And>x. R x \<Longrightarrow> settles I (k x) Q E" "\<And>e s. I s \<Longrightarrow> E e s"
  shows "settles I (try_else cls m h k) Q E"
  using assms unfolding yields_def settles_def wp_try_else by (auto elim!: wp_mono)

lemma settles_if: "(b \<Longrightarrow> settles I m Q E) \<Longrightarrow> (\<not> b \<Longrightarrow> settles I n Q E) \<Longrightarrow> settles I (if b then m else n) Q E"
  by simp

lemma settles_raise: "(\<And>s. I s \<Longrightarrow> E e s) \<Longrightarrow> settles I (raise e) Q E"
  by (simp add: settles_def wp_eqs)

lemma settles_wp: "settles I m Q E \<Longrightarrow> I s \<Longrightarrow> wp m Q E s"
  by (simp add: settles_def)

lemma settles_preserves: "preserves I m \<Longrightarrow> settles I m (\<lambda>_. I) (\<lambda>_. I)"
  by (simp add: settles_def preserves_def)

lemma settles_option: "settles I n Q E \<Longrightarrow> (\<And>x. settles I (m x) Q E) \<Longrightarrow> settles I (case v of None \<Rightarrow> n | Some x \<Rightarrow> m x) Q E"
  by (cases v) simp_all

text \<open>The last part of an undo: the read-back and what follows it.\<close>

definition verify_undo :: "'w io \<Rightarrow> string \<Rightarrow> string \<Rightarrow> int \<Rightarrow> change \<Rightarrow> pydict \<Rightarrow> ('w, operation) prog" where
  "verify_undo io oid book_key book_id c before =
     bnd (show_metadata io book_id) (\<lambda>observed.
      thn (modify_db (upd_operation oid (\<lambda>r. r\<lparr>op_observed_metadata := Some observed\<rparr>)))
      (bnd (matches_patch io observed (ch_before_metadata c)) (\<lambda>ok.
       thn (if ok
            then thn (transition oid ''succeeded'' None)
                   (thn (set_change_status (ch_id c) ''undone'')
                   (thn (set_status book_key ''suggest_fix'') (finish_outbox oid ''published'' None)))
            else restore_pre_undo io oid book_key book_id before)
       (commit_operation oid))))"

lemma write_undo_verify:
  "write_undo io oid book_key book_id c before =
     thn (backup_current io oid book_id c before)
     (thn (modify_db (upd_operation oid (\<lambda>r. r\<lparr>op_change_id := Some (ch_id c)\<rparr>)))
     (thn (begin_writing oid before (ch_before_metadata c))
     (thn (restore_change io (Some (io_artifacts_dir io)) book_id c)
     (thn (transition oid ''verifying'' None) (verify_undo io oid book_key book_id c before)))))"
  by (simp add: write_undo_def verify_undo_def)

lemma wp_process_cases:
  assumes "\<not> s_broken s" "the_operation oid (s_db s) = Inr r" "\<And>e. E e s"
    and "is_undo r \<Longrightarrow> wp (process_undo io oid r) Q E s" "\<not> is_undo r \<Longrightarrow> wp (process_apply en io pilot oid r) Q E s"
  shows "wp (process en io pilot oid) Q E s"
  using assms by (simp add: process_def wp_bnd get_operation_def wp_query_res wp_raise is_undo_def)

lemma no_change_wp:
  assumes "\<And>e. E e s" "undone_change r (s_db s) = None"
  shows "wp (process_undo io oid r) Q E s"
  using assms by (auto simp: undone_change_def process_undo_def wp_raise wp_bnd wp_query split: option.split)

context table_frame
begin

lemma ended_get:
  "(\<And>r s. both P s \<Longrightarrow> the_operation oid (s_db s) = Inr r \<Longrightarrow> Q r s) \<Longrightarrow> (\<And>e s. both P s \<Longrightarrow> E e s) \<Longrightarrow>
     settles (both P) (get_operation oid) Q E"
  by (simp add: settles_def get_operation_def wp_query_res split: sum.split)

lemma ended_terminalize:
  assumes "\<And>r s. both P s \<Longrightarrow> the_operation oid (s_db s) = Inr r \<Longrightarrow> Q r s" "\<And>e s. both P s \<Longrightarrow> E e s" "n \<noteq> ''succeeded''" "k \<in> B"
  shows "settles (both P) (terminalize oid n e k v st e') Q E"
  unfolding terminalize_def
  by (intro settles_thn ended_get assms(1,2) transition_kept set_status_kept finish_outbox_kept preserves_commit assms(3,4))

lemma write_undo_settles:
  assumes "settles (both P) (verify_undo io oid k b c before) Q E" "\<And>e s. both P s \<Longrightarrow> E e s"
  shows "settles (both P) (write_undo io oid k b c before) Q E"
  unfolding write_undo_verify
  by (intro settles_thn assms backup_current_kept begin_writing_kept transition_kept column_kept preserves_parts)
    (simp_all add: row_step_def request_of_def)

lemma apply_failed_settles:
  assumes "k \<in> B" "\<And>e s. both P s \<Longrightarrow> E e s" "\<And>r s. both P s \<Longrightarrow> the_operation oid (s_db s) = Inr r \<Longrightarrow> Q r s"
  shows "settles (both P) (apply_failed oid k e) Q E"
  unfolding apply_failed_def
  by (intro settles_bnd settles_thn settles_option settles_if ended_terminalize transition_kept preserves_parts) (simp_all add: assms)

lemma ebook_changed_settles:
  assumes "k \<in> B" "ch_id c \<in> U" "\<And>e s. both P s \<Longrightarrow> E e s" "\<And>r s. both P s \<Longrightarrow> the_operation oid (s_db s) = Inr r \<Longrightarrow> Q r s"
  shows "settles (both P) (ebook_changed io oid k b c before e) Q E"
  unfolding ebook_changed_def operation_error_def commit_operation_def
  by (intro settles_bnd settles_thn ended_get parts_kept) (simp_all add: assms)

lemma process_undo_wp:
  assumes "both P s" "undone_change operation (s_db s) = Some c" "ch_book_key c \<in> B"
    and verify: "\<And>bk b before. row_one (\<lambda>b. bk_book_key b = ch_book_key c) (db_books (s_db s)) = Inr bk \<Longrightarrow> bk_calibre_book_id bk = Some b \<Longrightarrow>
      settles (both P) (write_undo io oid (ch_book_key c) b c before) Q E"
    and raises: "\<And>e s. both P s \<Longrightarrow> E e s"
    and ended: "\<And>r s. both P s \<Longrightarrow> the_operation oid (s_db s) = Inr r \<Longrightarrow> Q r s"
  shows "wp (process_undo io oid operation) Q E s"
proof -
  obtain cid where cid: "as_int (pget (op_requested_patch operation) ''change_id'') = Some cid" "get_change cid (s_db s) = Some c"
    using assms(2) by (auto simp: undone_change_def split: option.splits)
  have end_at: "settles (both P) (terminalize oid ''failed'' m (ch_book_key c) v ''failed'' m) Q E" for m v
    by (rule ended_terminalize) (simp_all add: assms(3) raises ended)
  show ?thesis
  proof (cases "row_one (\<lambda>b. bk_book_key b = ch_book_key c) (db_books (s_db s))")
    case (Inl e)
    then show ?thesis using raises [OF assms(1)] by (simp add: process_undo_def cid wp_bnd wp_query wp_query_res Let_def)
  next
    case (Inr bk)
    have key: "bk_book_key bk = ch_book_key c" using row_one_in [OF Inr] by simp
    show ?thesis
    proof (cases "bk_calibre_book_id bk")
      case None
      then show ?thesis using settles_wp [OF end_at assms(1)] raises [OF assms(1)]
        by (simp add: process_undo_def cid wp_bnd wp_query wp_query_res Let_def Inr key)
    next
      case (Some b)
      have rest: "settles (both P)
          (thn (require_artifact io (Some (io_artifacts_dir io)) (ch_backup_opf_path c) (ch_backup_opf_sha256 c) MAX_OPF_BYTES)
            (bnd (show_metadata io b) (\<lambda>before.
              case op_expected_before_metadata operation of
                None \<Rightarrow> terminalize oid ''failed'' (Some ''live metadata changed after undo was queued'') (ch_book_key c) ''applied'' ''failed''
                    (Some ''live metadata changed after undo was queued'')
              | Some expected \<Rightarrow>
                  bnd (matches_patch io before expected) (\<lambda>ok.
                  if ok then write_undo io oid (ch_book_key c) b c before
                  else terminalize oid ''failed'' (Some ''live metadata changed after undo was queued'') (ch_book_key c) ''applied'' ''failed''
                    (Some ''live metadata changed after undo was queued''))))) Q E"
        by (intro settles_thn settles_bnd settles_option settles_if end_at verify [OF Inr Some] preserves_parts raises)
      show ?thesis using settles_wp [OF end_at assms(1), folded key] raises [OF assms(1)] settles_wp [OF rest assms(1), folded key]
        by (simp add: process_undo_def cid wp_bnd [of "query _"] wp_bnd [of "query_res _"] wp_query wp_query_res Let_def Inr Some)
    qed
  qed
qed

end

locale insert_frame = table_frame +
  assumes insert: "P d \<Longrightarrow> ch_operation_id x = Some oid \<Longrightarrow>
      P (d\<lparr>db_changes := db_changes d @ [x\<lparr>ch_id := next_id (map ch_id (db_changes d))\<rparr>]\<rparr>) \<and> next_id (map ch_id (db_changes d)) \<in> U"
begin

lemma insert_change_yields:
  assumes "ch_operation_id x = Some oid"
  shows "yields (both P) (insert_change x) (\<lambda>cid. cid \<in> U)"
  unfolding yields_def
proof (intro allI impI)
  fix s :: "'w session" assume "both P s"
  then show "wp (insert_change x) (\<lambda>cid s'. cid \<in> U \<and> both P s') (\<lambda>_. both P) s"
    using insert [OF _ assms, of "s_db s"]
    by (simp add: insert_change_def wp_bnd wp_query wp_thn wp_modify_db wp_ret) (simp add: wp_def both_def)
qed

lemma prepare_change_yields: "yields (both P) (prepare_change io bk b p oid m) (\<lambda>(x, _, _). ch_operation_id x = Some oid)"
  by (rule yields_results) (auto intro!: preserves_parts simp: results_def dest: prepare_change_results [unfolded results_def, rule_format])

lemma apply_patch_yields: "yields (both P) (apply_patch en io b raw oid live) (\<lambda>x. ch_id x \<in> U)"
proof (cases "bk_calibre_book_id b")
  case (Some i)
  have rest: "yields (both P) (bnd (insert_change row) (\<lambda>cid. thn commit
      (bnd (build_target_opf en io (ch_backup_opf_path row) target patch (ch_backup_opf_sha256 row)) (\<lambda>h.
        thn (try_except any_exception (set_fields io i patch target h cover) (roll_back_apply io i (row\<lparr>ch_id := cid\<rparr>) live))
        (thn (set_change_status cid ''applied'') (thn commit (ret (row\<lparr>ch_id := cid, ch_status := ''applied''\<rparr>)))))))) (\<lambda>x. ch_id x \<in> U)"
    if "ch_operation_id row = Some oid" for row target patch cover
    by (rule yields_bnd [OF insert_change_yields [OF that]], intro yields_thn yields_any)
      (auto intro!: parts_kept roll_back_apply_kept yields_simps)
  show ?thesis
    unfolding apply_patch_def Some option.case
    by (auto intro!: yields_simps yields_any yields_bnd [OF prepare_change_yields] parts_kept rest split: prod.split)
qed (simp add: apply_patch_def yields_simps)

lemma after_write_settles:
  assumes "op_book_key operation \<in> B" "ch_id c \<in> U"
    and verify: "settles (both P) (verify_write io oid (op_book_key operation) b c before) Q E"
    and raises: "\<And>e s. both P s \<Longrightarrow> E e s"
    and ended: "\<And>r s. both P s \<Longrightarrow> the_operation oid (s_db s) = Inr r \<Longrightarrow> Q r s"
  shows "settles (both P) (after_write en io oid operation b before c) Q E"
proof -
  have check: "yields (both P) (bnd (show_metadata io b) (\<lambda>post. thn (verify_v2_live_files en io oid post True) (align_verified_calibre_paths oid post)))
      (\<lambda>_. True)"
    by (rule yields_results) (intro parts_kept align_kept, rule results_any)
  show ?thesis
    unfolding after_write_def Let_def
    by (intro settles_thn settles_if settles_try_else [OF check] ebook_changed_settles column_kept transition_kept)
      (simp_all add: assms row_step_def request_of_def)
qed

lemma write_operation_settles:
  assumes "op_book_key operation \<in> B"
    and verify: "\<And>c. ch_id c \<in> U \<Longrightarrow> settles (both P) (verify_write io oid (op_book_key operation) b c before) Q E"
    and raises: "\<And>e s. both P s \<Longrightarrow> E e s"
    and ended: "\<And>r s. both P s \<Longrightarrow> the_operation oid (s_db s) = Inr r \<Longrightarrow> Q r s"
  shows "settles (both P) (write_operation en io oid operation bk b before) Q E"
  unfolding write_operation_def
  by (intro settles_thn settles_try_else [OF apply_patch_yields] apply_failed_settles after_write_settles begin_writing_kept)
    (simp_all add: assms)

lemma check_and_write_settles:
  assumes "op_book_key operation \<in> B"
    and verify: "\<And>c before. ch_id c \<in> U \<Longrightarrow> settles (both P) (verify_write io oid (op_book_key operation) b c before) Q E"
    and raises: "\<And>e s. both P s \<Longrightarrow> E e s"
    and ended: "\<And>r s. both P s \<Longrightarrow> the_operation oid (s_db s) = Inr r \<Longrightarrow> Q r s"
  shows "settles (both P) (check_and_write en io oid operation bk b) Q E"
proof -
  have check: "yields (both P) (verify_v2_live_files en io oid before False) (\<lambda>_. True)" for before
    by (rule yields_results) (intro preserves_parts, rule results_any)
  show ?thesis
    unfolding check_and_write_def Let_def
    by (intro settles_bnd settles_if settles_option settles_try_else [OF check] ended_terminalize write_operation_settles preserves_parts)
      (simp_all add: assms)
qed

lemma process_apply_wp:
  assumes "both P s" "op_book_key operation \<in> B"
    and verify: "\<And>bk b c before. row_one (\<lambda>b. bk_book_key b = op_book_key operation) (db_books (s_db s)) = Inr bk \<Longrightarrow>
      bk_calibre_book_id bk = Some b \<Longrightarrow> ch_id c \<in> U \<Longrightarrow> settles (both P) (verify_write io oid (op_book_key operation) b c before) Q E"
    and raises: "\<And>e s. both P s \<Longrightarrow> E e s"
    and ended: "\<And>r s. both P s \<Longrightarrow> the_operation oid (s_db s) = Inr r \<Longrightarrow> Q r s"
  shows "wp (process_apply en io pilot oid operation) Q E s"
proof (cases "row_one (\<lambda>b. bk_book_key b = op_book_key operation) (db_books (s_db s))")
  case (Inl e)
  then show ?thesis using raises [OF assms(1)] by (simp add: process_apply_def wp_bnd wp_query_res)
next
  case (Inr bk)
  show ?thesis
  proof (cases "bk_calibre_book_id bk")
    case None
    then show ?thesis using raises [OF assms(1)] by (simp add: process_apply_def wp_bnd wp_query_res Inr wp_raise)
  next
    case (Some b)
    have check: "yields (both P) (query_res (validate_apply_operation en operation bk pilot)) (\<lambda>_. True)"
      by (rule yields_results) (intro preserves_parts, rule results_any)
    have "settles (both P) (try_else is_value_or_type_error (query_res (validate_apply_operation en operation bk pilot))
        (\<lambda>e. terminalize oid ''failed'' (Some (exn_text e)) (op_book_key operation) ''error'' ''failed'' (Some (exn_text e)))
        (\<lambda>_. check_and_write en io oid operation bk b)) Q E"
      by (intro settles_try_else [OF check] ended_terminalize check_and_write_settles verify [OF Inr Some]) (simp_all add: assms(2) raises ended)
    from settles_wp [OF this assms(1)] raises [OF assms(1)] show ?thesis
      by (simp add: process_apply_def wp_bnd wp_query_res Inr Some wp_raise)
  qed
qed

end

text \<open>A condition that also success keeps is kept by the whole processing of an operation.\<close>

locale write_frame = insert_frame +
  assumes any_operation: "P d \<Longrightarrow> (\<And>r. r \<in> set (db_operations d) \<Longrightarrow> op_operation_id r = oid \<Longrightarrow> request_of (f r) = request_of r) \<Longrightarrow>
      P (upd_operation oid f d)"
begin

lemma any_transition_kept: "preserves (both P) (transition oid n e)"
  by (rule preserves_transition) (auto intro!: any_operation simp: the_operation_def dest: row_one_eq)

lemma verify_undo_kept: "k \<in> B \<Longrightarrow> ch_id c \<in> U \<Longrightarrow> preserves (both P) (verify_undo io oid k b c before)"
  unfolding verify_undo_def commit_operation_def
  by (intro parts_kept any_transition_kept restore_pre_undo_kept) (simp_all add: row_step_def request_of_def)

lemma verify_write_kept: "k \<in> B \<Longrightarrow> ch_id c \<in> U \<Longrightarrow> preserves (both P) (verify_write io oid k b c before)"
  unfolding verify_write_def commit_operation_def
  by (intro parts_kept any_transition_kept restore_partial_write_kept) (simp_all add: row_step_def request_of_def)

lemma process_kept:
  assumes "both P s" "\<not> s_broken s" "the_operation oid (s_db s) = Inr operation"
    and undo: "\<And>c. is_undo operation \<Longrightarrow> undone_change operation (s_db s) = Some c \<Longrightarrow> ch_book_key c \<in> B \<and> ch_id c \<in> U"
    and apply_key: "\<not> is_undo operation \<Longrightarrow> op_book_key operation \<in> B"
  shows "wp (process en io pilot oid) (\<lambda>_. both P) (\<lambda>_. both P) s"
proof -
  have u: "wp (process_undo io oid operation) (\<lambda>_. both P) (\<lambda>_. both P) s" if "is_undo operation"
  proof (cases "undone_change operation (s_db s)")
    case None
    then show ?thesis by (rule no_change_wp [rotated]) (rule assms(1))
  next
    case (Some c)
    show ?thesis
    proof (rule process_undo_wp [OF assms(1) Some], goal_cases)
      case (2 bk b before)
      show ?case by (intro write_undo_settles settles_preserves verify_undo_kept) (simp_all add: undo [OF that Some])
    qed (simp_all add: undo [OF that Some])
  qed
  have a: "wp (process_apply en io pilot oid operation) (\<lambda>_. both P) (\<lambda>_. both P) s" if "\<not> is_undo operation"
    by (rule process_apply_wp [OF assms(1) apply_key [OF that]]) (auto intro!: settles_preserves verify_write_kept apply_key [OF that])
  show ?thesis using u a assms(1-3) by (intro wp_process_cases) (simp_all add: wp_raise)
qed

end

section \<open>The frame of an operation\<close>

definition undone_ids :: "string \<Rightarrow> db \<Rightarrow> nat set" where
  "undone_ids oid d =
     (case the_operation oid d of
        Inl _ \<Rightarrow> {}
      | Inr r \<Rightarrow> if is_undo r then set_option (map_option ch_id (undone_change r d)) else {})"

definition change_core :: "change \<Rightarrow> change" where
  "change_core c = c\<lparr>ch_status := []\<rparr>"

text \<open>
  \<open>d\<close> differs from \<open>d0\<close> at most in what belongs to the operation, beside its row: the status of its own outbox event, its own locks
  (released, never taken), the status of the books \<open>B\<close>, the statuses of the changes \<open>U\<close>, and changes of its own, which are new.
\<close>

definition differs_in :: "string \<Rightarrow> string set \<Rightarrow> nat set \<Rightarrow> db \<Rightarrow> db \<Rightarrow> bool" where
  "differs_in oid B U d0 d =
     (filter (\<lambda>e. ob_aggregate_id e \<noteq> oid) (db_outbox d) = filter (\<lambda>e. ob_aggregate_id e \<noteq> oid) (db_outbox d0)
      \<and> map event_core (db_outbox d) = map event_core (db_outbox d0)
      \<and> filter (\<lambda>l. lk_operation_id l \<noteq> oid) (db_locks d) = filter (\<lambda>l. lk_operation_id l \<noteq> oid) (db_locks d0)
      \<and> set (db_locks d) \<subseteq> set (db_locks d0)
      \<and> filter (\<lambda>b. bk_book_key b \<notin> B) (db_books d) = filter (\<lambda>b. bk_book_key b \<notin> B) (db_books d0)
      \<and> (\<exists>new. map change_core (db_changes d) = map change_core (db_changes d0) @ new
           \<and> list_all (\<lambda>c. ch_operation_id c = Some oid \<and> ch_id c \<notin> set (map ch_id (db_changes d0))) new)
      \<and> filter (\<lambda>c. ch_id c \<in> set (map ch_id (db_changes d0)) \<and> ch_id c \<notin> U) (db_changes d) = filter (\<lambda>c. ch_id c \<notin> U) (db_changes d0))"

lemma filter_row_map: "(\<And>x. p x \<Longrightarrow> \<not> q x \<and> \<not> q (f x)) \<Longrightarrow> filter q (row_map p f xs) = filter q xs"
  by (induction xs) (simp_all add: row_map_def)

lemma differs_in_refl [simp]: "differs_in oid B U d d"
proof -
  have "filter (\<lambda>c. ch_id c \<in> set (map ch_id (db_changes d)) \<and> ch_id c \<notin> U) (db_changes d) = filter (\<lambda>c. ch_id c \<notin> U) (db_changes d)"
    by (rule filter_cong) auto
  then show ?thesis by (simp add: differs_in_def)
qed

lemma same_core: "map change_core xs = map change_core ys @ new \<Longrightarrow> set (map ch_id ys) \<subseteq> set (map ch_id xs)"
proof -
  assume "map change_core xs = map change_core ys @ new"
  then have "map (ch_id \<circ> change_core) xs = map (ch_id \<circ> change_core) ys @ map ch_id new" by (metis list.map_comp map_append)
  moreover have "ch_id \<circ> change_core = ch_id" by (simp add: fun_eq_iff change_core_def)
  ultimately show ?thesis by (metis Un_upper1 set_append)
qed

interpretation own: write_frame "differs_in oid B U d0" oid B "U \<union> - set (map ch_id (db_changes d0))" for oid B U d0
proof (unfold_locales, goal_cases)
  case (1 d f)
  then show ?case by (simp add: differs_in_def upd_operation_def)
next
  case (2 d k v)
  have "filter (\<lambda>b. bk_book_key b \<notin> B) (db_books (set_book_status k v d)) = filter (\<lambda>b. bk_book_key b \<notin> B) (db_books d)"
    using 2(2) by (auto simp: set_book_status_def intro!: filter_row_map)
  with 2(1) show ?case by (simp add: differs_in_def)
next
  case (3 d f')
  have f: "ob_aggregate_id (f' e) = ob_aggregate_id e" for e
    using arg_cong [OF 3(2) [of e], of ob_aggregate_id] by (simp add: event_core_def)
  have "filter (\<lambda>e. ob_aggregate_id e \<noteq> oid) (row_map (\<lambda>e. ob_aggregate_id e = oid) f' xs) = filter (\<lambda>e. ob_aggregate_id e \<noteq> oid) xs" for xs
    by (rule filter_row_map) (simp add: f)
  with 3 show ?case by (simp add: differs_in_def upd_outbox_def map_row_map_keeps)
next
  case (4 d k)
  have "filter (\<lambda>l. lk_operation_id l \<noteq> oid) (filter (\<lambda>l. \<not> (lk_book_key l = k \<and> lk_operation_id l = oid)) xs) = filter (\<lambda>l. lk_operation_id l \<noteq> oid) xs"
    for xs :: "book_write_lock list"
    unfolding filter_filter by (rule filter_cong) auto
  with 4 show ?case by (auto simp: differs_in_def simp del: filter_filter)
next
  case (5 d c v)
  let ?p = "\<lambda>x. ch_id x \<in> set (map ch_id (db_changes d0)) \<and> ch_id x \<notin> U"
  have "filter ?p (row_map (\<lambda>x. ch_id x = c) (\<lambda>x. x\<lparr>ch_status := v\<rparr>) xs) = filter ?p xs" for xs :: "change list"
    by (rule filter_row_map) (use 5(2) in auto)
  moreover have "map change_core (row_map (\<lambda>x. ch_id x = c) (\<lambda>x. x\<lparr>ch_status := v\<rparr>) xs) = map change_core xs" for xs
    by (rule map_row_map_keeps) (simp add: change_core_def)
  ultimately show ?case using 5(1) by (simp add: differs_in_def upd_change_def)
next
  case (6 d x)
  let ?i = "next_id (map ch_id (db_changes d))"
  obtain new where new: "map change_core (db_changes d) = map change_core (db_changes d0) @ new"
      "list_all (\<lambda>c. ch_operation_id c = Some oid \<and> ch_id c \<notin> set (map ch_id (db_changes d0))) new"
    using 6(1) by (auto simp: differs_in_def)
  have fresh: "?i \<notin> set (map ch_id (db_changes d0))" using same_core [OF new(1)] next_id_fresh by blast
  have "\<exists>new. map change_core (db_changes d @ [x\<lparr>ch_id := ?i\<rparr>]) = map change_core (db_changes d0) @ new
      \<and> list_all (\<lambda>c. ch_operation_id c = Some oid \<and> ch_id c \<notin> set (map ch_id (db_changes d0))) new"
    using new 6(2) fresh by (intro exI [of _ "new @ [change_core (x\<lparr>ch_id := ?i\<rparr>)]"]) (simp add: change_core_def)
  with 6(1) fresh show ?case by (simp add: differs_in_def)
next
  case (7 d f)
  then show ?case by (simp add: differs_in_def upd_operation_def)
qed

section \<open>Changes as they were\<close>

interpretation same_changes: table_frame "\<lambda>d. db_changes d = C0" oid B "{}" for C0 oid B
  by unfold_locales (simp_all add: upd_operation_def set_book_status_def upd_outbox_def upd_change_def)

section \<open>An operation that has not succeeded\<close>

definition not_succeeded :: "string \<Rightarrow> db \<Rightarrow> bool" where
  "not_succeeded oid d = list_all (\<lambda>r. op_operation_id r = oid \<longrightarrow> op_state r \<noteq> ''succeeded'') (db_operations d)"

interpretation not_succeeded: insert_frame "not_succeeded oid" oid B UNIV for oid B
proof (unfold_locales, goal_cases)
  case (1 d f)
  have "op_state y \<noteq> ''succeeded''" if "y \<in> set (db_operations (upd_operation oid f d))" "op_operation_id y = oid" for y
  proof -
    from that(1) obtain r where r: "r \<in> set (db_operations d)" "y = (if op_operation_id r = oid then f r else r)"
      by (auto simp: upd_operation_def row_map_def)
    show ?thesis
    proof (cases "op_operation_id r = oid")
      case True
      then show ?thesis using 1 r by (auto simp: row_step_def not_succeeded_def list_all_iff)
    qed (use r that(2) in simp)
  qed
  then show ?case by (simp add: not_succeeded_def list_all_iff)
qed (simp_all add: not_succeeded_def set_book_status_def upd_outbox_def upd_change_def)

section \<open>Ending well\<close>

text \<open>The steps from a successful read-back to the commit: the world, the committed tables and the row stay.\<close>

definition ending :: "(db \<Rightarrow> bool) \<Rightarrow> 'w \<Rightarrow> string \<Rightarrow> (operation \<Rightarrow> bool) \<Rightarrow> 'w session \<Rightarrow> bool" where
  "ending C w oid R s = (C (s_committed s) \<and> s_world s = w \<and> op_at oid {''succeeded''} R (s_db s))"

lemma wp_reaches:
  assumes "row_stable R" "\<And>r. the_operation oid (s_db s) = Inr r \<Longrightarrow> R r" "C (s_committed s)"
  shows "wp (transition oid ''succeeded'' e) (\<lambda>_. ending C (s_world s) oid R) (\<lambda>_ s'. C (s_committed s')) s"
proof (cases "the_operation oid (s_db s)")
  case (Inl x)
  with assms(3) show ?thesis by (simp add: transition_def get_operation_def wp_eqs)
next
  case (Inr r)
  have "op_at oid {''succeeded''} R (upd_operation oid (\<lambda>_. moved ''succeeded'' e t r) (s_db s))" for t
    using the_operation_upd [OF Inr, of "\<lambda>_. moved ''succeeded'' e t r"] the_operation_id [OF Inr] assms(1) assms(2) [OF Inr]
    by (simp add: op_at_def row_stable_def)
  with Inr assms(3) show ?thesis
    by (simp add: transition_def get_operation_def wp_eqs transition_operation_eq ending_def)
qed

lemma ending_ticks [simp]: "ending C w oid R (s\<lparr>s_ticks := n\<rparr>) = ending C w oid R s"
  by (simp add: ending_def)

lemma ending_modify: "(\<And>d. db_operations (f d) = db_operations d) \<Longrightarrow> preserves (ending C w oid R) (modify_db f)"
  by (simp add: preserves_iff modify_db_def ending_def op_at_def the_operation_def)

lemma ending_reads: "preserves (ending C w oid R) (query_res f)" "preserves (ending C w oid R) utc_now" "preserves (ending C w oid R) (get_operation oid')"
  by (simp_all add: preserves_iff query_res_def query_def bnd_def lift_res_def utc_now_def get_operation_def)

lemma ending_set_status: "preserves (ending C w oid R) (set_status k v)"
  unfolding set_status_def by (rule ending_modify) (simp add: set_book_status_def)

lemma ending_set_change_status: "preserves (ending C w oid R) (set_change_status c v)"
  unfolding set_change_status_def by (rule ending_modify) (simp add: upd_change_def)

lemma ending_finish_outbox: "preserves (ending C w oid R) (finish_outbox oid' st e)"
  unfolding finish_outbox_def
  by (intro preserved ending_reads ending_modify) (simp_all add: upd_outbox_def)

lemmas ending_tail = ending_set_status ending_set_change_status ending_finish_outbox

lemma ending_commit:
  assumes "ending C w oid R s" "\<And>r s'. op_state r = ''succeeded'' \<Longrightarrow> R r \<Longrightarrow> s_world s' = w \<Longrightarrow> Q r s'"
    and "\<And>e s'. C (s_committed s') \<Longrightarrow> E e s'"
  shows "wp (commit_operation oid) Q E s"
proof (cases "s_broken s")
  case True
  then show ?thesis using assms by (simp add: commit_operation_def wp_thn) (simp add: wp_def commit_def ending_def)
next
  case False
  obtain r where "the_operation oid (s_db s) = Inr r" "op_state r = ''succeeded''" "R r"
    using assms(1) by (auto simp: ending_def elim: op_atE)
  with False assms show ?thesis
    by (simp add: commit_operation_def thn_def bnd_def commit_def get_operation_def query_res_def query_def lift_res_def wp_def ending_def)
qed

text \<open>The end of a verification: success and its bookkeeping, or the restore, and the commit.\<close>

lemma wp_verdict:
  assumes "both P s" "\<And>d. P d \<Longrightarrow> C d" "preserves (both P) restore" "\<And>w. preserves (ending C w oid R) tail" "row_stable R"
    and row: "\<And>r. the_operation oid (s_db s) = Inr r \<Longrightarrow> R r"
    and kept: "\<And>r s'. both P s' \<Longrightarrow> the_operation oid (s_db s') = Inr r \<Longrightarrow> Q r s'"
    and good: "\<And>r s'. ok \<Longrightarrow> op_state r = ''succeeded'' \<Longrightarrow> R r \<Longrightarrow> s_world s' = s_world s \<Longrightarrow> Q r s'"
    and raises: "\<And>e s'. C (s_committed s') \<Longrightarrow> E e s'"
  shows "wp (thn (if ok then thn (transition oid ''succeeded'' None) tail else restore) (commit_operation oid)) Q E s"
proof (cases ok)
  case True
  have C: "C (s_committed s)" using assms(1,2) by (simp add: both_def)
  have "wp tail (\<lambda>_. wp (commit_operation oid) Q E) E s'" if "ending C (s_world s) oid R s'" for s'
  proof (rule wp_mono)
    show "wp tail (\<lambda>_. ending C (s_world s) oid R) (\<lambda>_. ending C (s_world s) oid R) s'" using assms(4) that by (simp add: preserves_def)
  next
    fix x t assume "ending C (s_world s) oid R t"
    then show "wp (commit_operation oid) Q E t" by (rule ending_commit) (auto intro: good [OF True] raises)
  next
    fix e t assume "ending C (s_world s) oid R t"
    then show "E e t" by (auto simp: ending_def intro: raises)
  qed
  then have "wp (transition oid ''succeeded'' None) (\<lambda>_. wp tail (\<lambda>_. wp (commit_operation oid) Q E) E) E s"
    using wp_reaches [of R oid s C None, OF assms(5) row C] raises by (auto elim!: wp_mono)
  with True show ?thesis by (simp add: wp_thn)
next
  case False
  have "settles (both P) (thn restore (commit_operation oid)) Q E"
    unfolding commit_operation_def
    by (intro settles_thn assms(3) preserves_commit)
      (auto simp: settles_def get_operation_def wp_query_res both_def split: sum.split intro: kept raises assms(2))
  with False show ?thesis using settles_wp assms(1) by fastforce
qed

section \<open>What the theorems on a run use\<close>

lemma process_frame:
  fixes s :: "'w session" and r0 :: operation
  assumes "\<not> s_broken s" "s_db s = s_committed s" "the_operation oid (s_committed s) = Inr r0"
  shows "wp (process en io pilot oid) (\<lambda>_. both (differs_in oid (set_option (written_key oid (s_committed s))) (undone_ids oid (s_committed s)) (s_committed s)))
    (\<lambda>_. both (differs_in oid (set_option (written_key oid (s_committed s))) (undone_ids oid (s_committed s)) (s_committed s))) s"
proof (rule own.process_kept [where operation = r0], goal_cases)
  case 1
  show ?case using assms(2) by (simp add: both_def)
next
  case 3
  show ?case using assms(2,3) by simp
next
  case (4 c)
  with assms show ?case by (simp add: written_key_def undone_ids_def)
next
  case 5
  with assms show ?case by (simp add: written_key_def)
qed (rule assms(1))

text \<open>The last effect of a run that succeeds is the read-back: \<open>show_metadata\<close> left the world as it is at the end.\<close>

definition read_back :: "'w io \<Rightarrow> int \<Rightarrow> operation \<Rightarrow> 'w session \<Rightarrow> bool" where
  "read_back io book_id r s =
     (\<exists>observed target w. op_observed_metadata r = Some observed \<and> op_target_metadata r = Some target
        \<and> io_show_metadata io book_id w = (Inr observed, s_world s) \<and> matches_items io observed target (s_world s) = Inr True)"

definition aims :: "string \<Rightarrow> pydict \<Rightarrow> db \<Rightarrow> bool" where
  "aims oid t d = (case the_operation oid d of Inr r \<Rightarrow> op_target_metadata r = Some t | Inl _ \<Rightarrow> True)"

lemma the_operation_column:
  assumes "the_operation oid (upd_operation oid f d) = Inr r" "\<And>r. op_operation_id (f r) = op_operation_id r"
  shows "\<exists>r0. the_operation oid d = Inr r0 \<and> r = f r0"
proof -
  have "filter (is_op oid) (row_map (is_op oid) f xs) = map f (filter (is_op oid) xs)" for xs
    by (induction xs) (simp_all add: row_map_def assms(2))
  with assms(1) show ?thesis by (auto simp: the_operation_def upd_operation_def row_one_Inr map_eq_Cons_conv)
qed

lemma wp_matches_patch:
  "wp (matches_patch io a b) Q E s = (case matches_items io a b (s_world s) of Inl e \<Rightarrow> E e s | Inr x \<Rightarrow> Q x s)"
  by (simp add: wp_def matches_patch_def observe_def)

lemma wp_show_metadata:
  "wp (show_metadata io b) Q E s =
     (case io_show_metadata io b (s_world s) of (Inl e, w) \<Rightarrow> E e (s\<lparr>s_world := w\<rparr>) | (Inr x, w) \<Rightarrow> Q x (s\<lparr>s_world := w\<rparr>))"
  by (simp add: wp_def show_metadata_def effect_def split: prod.split sum.split)

lemma settles_observed:
  fixes io :: "'w io"
  assumes "\<And>seen w s. io_show_metadata io b w = (Inr seen, s_world s) \<Longrightarrow> both P s \<Longrightarrow>
      (\<And>r. the_operation oid (s_db s) = Inr r \<Longrightarrow> op_observed_metadata r = Some seen) \<Longrightarrow> wp (n seen) Q E s"
    and column: "\<And>d seen. P d \<Longrightarrow> P (upd_operation oid (\<lambda>r. r\<lparr>op_observed_metadata := Some seen\<rparr>) d)"
    and raises: "\<And>e s. both P s \<Longrightarrow> E e s"
  shows "settles (both P) (bnd (show_metadata io b) (\<lambda>seen.
    thn (modify_db (upd_operation oid (\<lambda>r. r\<lparr>op_observed_metadata := Some seen\<rparr>))) (n seen))) Q E"
  unfolding settles_def
proof (intro allI impI)
  fix s :: "'w session" assume s: "both P s"
  obtain res w where w: "io_show_metadata io b (s_world s) = (res, w)" by fastforce
  show "wp (bnd (show_metadata io b) (\<lambda>seen. thn (modify_db (upd_operation oid (\<lambda>r. r\<lparr>op_observed_metadata := Some seen\<rparr>))) (n seen))) Q E s"
  proof (cases res)
    case (Inl e)
    with s w show ?thesis by (simp add: wp_bnd wp_show_metadata raises)
  next
    case (Inr seen)
    let ?t = "s\<lparr>s_world := w, s_db := upd_operation oid (\<lambda>r. r\<lparr>op_observed_metadata := Some seen\<rparr>) (s_db s)\<rparr>"
    have "wp (n seen) Q E ?t"
    proof (rule assms(1) [where w = "s_world s"])
      show "both P ?t" using s column by (simp add: both_def)
    qed (use w Inr in \<open>auto dest!: the_operation_column\<close>)
    with w Inr show ?thesis by (simp add: wp_bnd wp_thn wp_modify_db wp_show_metadata)
  qed
qed

lemma verify_write_read_back:
  "settles (both (not_succeeded oid)) (verify_write io oid k b c before)
     (\<lambda>r s. op_state r = ''succeeded'' \<longrightarrow> op_target_metadata r \<noteq> None \<longrightarrow> read_back io b r s) (\<lambda>_ _. True)"
  unfolding verify_write_def
proof (rule settles_observed, goal_cases)
  case (1 seen w s)
  show ?case
  proof (cases "s_broken s \<or> (\<exists>e. the_operation oid (s_db s) = Inl e)")
    case True
    then show ?thesis by (auto simp: wp_bnd get_operation_def wp_query_res)
  next
    case False
    then obtain r where r: "the_operation oid (s_db s) = Inr r" "\<not> s_broken s" by (cases "the_operation oid (s_db s)") auto
    let ?t = "case op_target_metadata r of Some t \<Rightarrow> t | None \<Rightarrow> []"
    let ?R = "\<lambda>x. op_observed_metadata x = Some seen \<and> op_target_metadata x = op_target_metadata r"
    have "wp (thn (if ok then thn (transition oid ''succeeded'' None) (thn (set_status k ''applied'') (finish_outbox oid ''published'' None))
        else restore_partial_write io oid k b c before) (commit_operation oid))
      (\<lambda>r s. op_state r = ''succeeded'' \<longrightarrow> op_target_metadata r \<noteq> None \<longrightarrow> read_back io b r s) (\<lambda>_ _. True) s"
      if "matches_items io seen ?t (s_world s) = Inr ok" for ok
    proof (rule wp_verdict [where P = "not_succeeded oid" and C = "\<lambda>_. True" and R = ?R], goal_cases)
      case 3
      show ?case by (rule not_succeeded.restore_partial_write_kept [where B = UNIV]) simp_all
    next
      case 4
      show ?case by (intro preserved ending_tail)
    next
      case (7 x t)
      then show ?case using the_operation_id [of oid "s_db t" x] by (simp add: both_def not_succeeded_def list_all_iff)
    next
      case (8 x t)
      with that 1(1) show ?case by (auto simp: read_back_def)
    qed (use 1 r in \<open>simp_all add: row_stable_def moved_def Let_def\<close>)
    then show ?thesis using r
      by (cases "matches_items io seen ?t (s_world s)")
        (simp_all add: wp_bnd get_operation_def wp_query_res wp_matches_patch)
  qed
next
  case (2 d seen)
  then show ?case by (rule not_succeeded.operation) (simp add: row_step_def request_of_def)
qed simp

lemma verify_undo_read_back:
  "settles (both (\<lambda>d. not_succeeded oid d \<and> aims oid (ch_before_metadata c) d)) (verify_undo io oid k b c before)
     (\<lambda>r s. op_state r = ''succeeded'' \<longrightarrow> read_back io b r s) (\<lambda>_ _. True)"
  unfolding verify_undo_def
proof (rule settles_observed, goal_cases)
  case (1 seen w s)
  let ?R = "\<lambda>x. op_observed_metadata x = Some seen \<and> op_target_metadata x = Some (ch_before_metadata c)"
  have "wp (thn (if ok then thn (transition oid ''succeeded'' None) (thn (set_change_status (ch_id c) ''undone'')
        (thn (set_status k ''suggest_fix'') (finish_outbox oid ''published'' None))) else restore_pre_undo io oid k b before) (commit_operation oid))
      (\<lambda>r s. op_state r = ''succeeded'' \<longrightarrow> read_back io b r s) (\<lambda>_ _. True) s"
    if "matches_items io seen (ch_before_metadata c) (s_world s) = Inr ok" for ok
  proof (rule wp_verdict [where P = "not_succeeded oid" and C = "\<lambda>_. True" and R = ?R], goal_cases)
    case 3
    show ?case by (rule not_succeeded.restore_pre_undo_kept [where B = UNIV]) simp
  next
    case 4
    show ?case by (intro preserved ending_tail)
  next
    case (6 r)
    then show ?case using 1 by (simp add: both_def aims_def)
  next
    case (7 x t)
    then show ?case using the_operation_id [of oid "s_db t" x] by (simp add: both_def not_succeeded_def list_all_iff)
  next
    case (8 x t)
    with that 1(1) show ?case by (auto simp: read_back_def)
  qed (use 1 in \<open>simp_all add: both_def row_stable_def moved_def Let_def\<close>)
  then show ?case
    by (cases "matches_items io seen (ch_before_metadata c) (s_world s)") (simp_all add: wp_bnd wp_matches_patch)
next
  case (2 d seen)
  have "not_succeeded oid (upd_operation oid (\<lambda>r. r\<lparr>op_observed_metadata := Some seen\<rparr>) d)"
    by (rule not_succeeded.operation) (use 2 in \<open>simp_all add: row_step_def request_of_def\<close>)
  moreover have "aims oid (ch_before_metadata c) (upd_operation oid (\<lambda>r. r\<lparr>op_observed_metadata := Some seen\<rparr>) d)"
    using 2 by (auto simp: aims_def split: sum.splits dest!: the_operation_column)
  ultimately show ?case by blast
qed simp

lemma wp_commit_always: "\<not> s_broken s \<Longrightarrow> wp commit Q E s = Q () (s\<lparr>s_committed := s_db s\<rparr>)"
  by (simp add: wp_def commit_def)

lemma begin_writing_aims:
  "wp (begin_writing oid before t) (\<lambda>_. both (aims oid t)) (\<lambda>_ _. True) s"
proof -
  let ?f = "\<lambda>r. r\<lparr>op_before_metadata := Some before, op_target_metadata := Some t\<rparr>"
  have a: "aims oid t (upd_operation oid (\<lambda>_. moved n e now r) (upd_operation oid ?f (s_db s)))"
    if "the_operation oid (upd_operation oid ?f (s_db s)) = Inr r" for n e now r
  proof -
    from the_operation_column [OF that] obtain r0 where "the_operation oid (s_db s) = Inr r0" "r = ?f r0" by auto
    moreover have "the_operation oid (upd_operation oid (\<lambda>_. moved n e now r) (upd_operation oid ?f (s_db s))) = Inr (moved n e now r)"
      by (rule the_operation_upd [OF that]) (use the_operation_id [OF that] in simp)
    ultimately show ?thesis by (simp add: aims_def moved_def Let_def)
  qed
  show ?thesis
    unfolding begin_writing_def
    by (cases "the_operation oid (upd_operation oid ?f (s_db s))")
      (simp_all add: wp_thn wp_modify_db transition_def get_operation_def wp_bnd wp_query_res transition_operation_eq wp_eqs
        wp_commit_always both_def a)
qed

lemma wp_and: "wp m Q E s \<Longrightarrow> wp m Q' E' s \<Longrightarrow> wp m (\<lambda>x s. Q x s \<and> Q' x s) (\<lambda>e s. E e s \<and> E' e s) s"
  by (auto simp: wp_def split: prod.splits sum.splits)

lemma write_undo_read_back:
  fixes io :: "'w io"
  shows "settles (both (not_succeeded oid)) (write_undo io oid k b c before)
     (\<lambda>r s. op_state r = ''succeeded'' \<longrightarrow> read_back io b r s) (\<lambda>_ _. True)"
proof -
  let ?I = "both (not_succeeded oid)" and ?J = "both (\<lambda>d. not_succeeded oid d \<and> aims oid (ch_before_metadata c) d)"
  have col: "not_succeeded oid (upd_operation oid f d)" if "not_succeeded oid d" "\<And>r. row_step r (f r)" for f d
    by (rule not_succeeded.operation) (use that in auto)
  have rest: "settles ?J (thn (restore_change io (Some (io_artifacts_dir io)) b c) (thn (transition oid ''verifying'' None)
      (verify_undo io oid k b c before))) (\<lambda>r s. op_state r = ''succeeded'' \<longrightarrow> read_back io b r s) (\<lambda>_ _. True)"
  proof (intro settles_thn verify_undo_read_back preserves_transition, goal_cases)
    case 1
    show ?case by (rule preserves_parts)
  next
    case (2 d r t)
    have "not_succeeded oid (upd_operation oid (\<lambda>_. moved ''verifying'' None t r) d)"
      by (rule not_succeeded.operation) (use 2 in \<open>auto simp: row_step_def the_operation_def dest: row_one_eq\<close>)
    moreover have "the_operation oid (upd_operation oid (\<lambda>_. moved ''verifying'' None t r) d) = Inr (moved ''verifying'' None t r)"
      by (rule the_operation_upd [OF 2(2)]) (use the_operation_id [OF 2(2)] in simp)
    ultimately show ?case using 2 by (simp add: aims_def moved_def Let_def)
  qed simp_all
  have started: "settles ?I (thn (begin_writing oid before (ch_before_metadata c)) (thn (restore_change io (Some (io_artifacts_dir io)) b c)
      (thn (transition oid ''verifying'' None) (verify_undo io oid k b c before))))
      (\<lambda>r s. op_state r = ''succeeded'' \<longrightarrow> read_back io b r s) (\<lambda>_ _. True)"
    unfolding settles_def
  proof (intro allI impI)
    fix s :: "'w session" assume "?I s"
    then have "wp (begin_writing oid before (ch_before_metadata c)) (\<lambda>_. ?I) (\<lambda>_. ?I) s"
      using settles_wp [OF settles_preserves [OF not_succeeded.begin_writing_kept]] by blast
    from wp_and [OF this begin_writing_aims [where t = "ch_before_metadata c"]]
    have "wp (begin_writing oid before (ch_before_metadata c)) (\<lambda>_. ?J) (\<lambda>_ _. True) s"
      by (rule wp_mono) (auto simp: both_def)
    then show "wp (thn (begin_writing oid before (ch_before_metadata c)) (thn (restore_change io (Some (io_artifacts_dir io)) b c)
      (thn (transition oid ''verifying'' None) (verify_undo io oid k b c before))))
      (\<lambda>r s. op_state r = ''succeeded'' \<longrightarrow> read_back io b r s) (\<lambda>_ _. True) s"
      unfolding wp_thn [of "begin_writing _ _ _"] by (rule wp_mono) (rule settles_wp [OF rest])
  qed
  show ?thesis
    unfolding write_undo_verify
    by (intro settles_thn started not_succeeded.backup_current_kept not_succeeded.column_kept) (simp_all add: row_step_def request_of_def)
qed

lemma settles_mono: "settles I m Q E \<Longrightarrow> (\<And>x s. Q x s \<Longrightarrow> Q' x s) \<Longrightarrow> settles I m Q' E"
  unfolding settles_def by (auto elim!: wp_mono)

lemma process_read_back:
  fixes io :: "'w io" and s :: "'w session"
  assumes "\<not> s_broken s" "s_db s = s_committed s" "the_operation oid (s_committed s) = Inr r0" "op_state r0 \<noteq> ''succeeded''"
  shows "wp (process en io pilot oid) (\<lambda>r s'. op_state r = ''succeeded'' \<longrightarrow> op_target_metadata r \<noteq> None \<longrightarrow>
    (\<exists>b. written_book oid (s_committed s) = Some b \<and> read_back io b r s')) (\<lambda>_ _. True) s"
    (is "wp _ ?Q ?E s")
proof -
  have "r = r0" if "r \<in> set (db_operations (s_committed s))" "op_operation_id r = oid" for r
    using row_one_eq [OF assms(3) [unfolded the_operation_def]] that by auto
  then have s: "both (not_succeeded oid) s" using assms(2,4) by (auto simp: both_def not_succeeded_def list_all_iff)
  have ended: "op_state r \<noteq> ''succeeded''" if "both (not_succeeded oid) t" "the_operation oid (s_db t) = Inr r" for r t
    using that the_operation_id [OF that(2)] by (simp add: both_def not_succeeded_def list_all_iff)
  have book: "written_book oid (s_committed s) = Some b"
    if "written_key oid (s_committed s) = Some k" "row_one (\<lambda>b. bk_book_key b = k) (db_books (s_db s)) = Inr bk"
      "bk_calibre_book_id bk = Some b" for k bk b
    using that assms(2) by (simp add: written_book_def)
  show ?thesis
  proof (rule wp_process_cases [OF assms(1), where r = r0], goal_cases)
    case 1
    show ?case using assms(2,3) by simp
  next
    case 3
    show ?case
    proof (cases "undone_change r0 (s_db s)")
      case None
      then show ?thesis by (rule no_change_wp [rotated]) simp
    next
      case (Some c)
      then have k: "written_key oid (s_committed s) = Some (ch_book_key c)" using 3 assms(2,3) by (simp add: written_key_def)
      show ?thesis
      proof (rule not_succeeded.process_undo_wp [OF s Some, where B = UNIV], goal_cases)
        case (2 bk b before)
        from book [OF k 2] show ?case by (intro settles_mono [OF write_undo_read_back]) blast
      qed (auto dest: ended)
    qed
  next
    case 4
    then have k: "written_key oid (s_committed s) = Some (op_book_key r0)" using assms(3) by (simp add: written_key_def)
    show ?case
    proof (rule not_succeeded.process_apply_wp [OF s, where B = UNIV], goal_cases)
      case (2 bk b c before)
      from book [OF k 2(1,2)] show ?case by (intro settles_mono [OF verify_write_read_back]) blast
    qed (auto dest: ended)
  qed simp
qed

lemma verify_undo_changes:
  "settles (both (\<lambda>d. db_changes d = C0)) (verify_undo io oid k b c before)
     (\<lambda>r s. db_changes (s_committed s) = C0 \<or> op_state r = ''succeeded'') (\<lambda>_ s. db_changes (s_committed s) = C0)"
  unfolding verify_undo_def
proof (rule settles_observed, goal_cases)
  case (1 seen w s)
  have "wp (thn (if ok then thn (transition oid ''succeeded'' None) (thn (set_change_status (ch_id c) ''undone'')
        (thn (set_status k ''suggest_fix'') (finish_outbox oid ''published'' None))) else restore_pre_undo io oid k b before) (commit_operation oid))
      (\<lambda>r s. db_changes (s_committed s) = C0 \<or> op_state r = ''succeeded'') (\<lambda>_ s. db_changes (s_committed s) = C0) s" for ok
  proof (rule wp_verdict [where P = "\<lambda>d. db_changes d = C0" and C = "\<lambda>d. db_changes d = C0" and R = "\<lambda>_. True"], goal_cases)
    case 3
    show ?case by (rule same_changes.restore_pre_undo_kept [where B = UNIV]) simp
  next
    case 4
    show ?case by (intro preserved ending_tail)
  qed (use 1 in \<open>simp_all add: both_def row_stable_def\<close>)
  then show ?case using 1
    by (cases "matches_items io seen (ch_before_metadata c) (s_world s)") (simp_all add: wp_bnd wp_matches_patch both_def)
qed (simp_all add: both_def upd_operation_def)

text \<open>A run of an undo that does not succeed leaves every change as it was.\<close>

lemma process_undo_changes:
  fixes s :: "'w session"
  assumes "\<not> s_broken s" "s_db s = s_committed s" "the_operation oid (s_committed s) = Inr r0" "is_undo r0"
  shows "wp (process en io pilot oid) (\<lambda>r s'. db_changes (s_committed s') = db_changes (s_committed s) \<or> op_state r = ''succeeded'')
    (\<lambda>_ s'. db_changes (s_committed s') = db_changes (s_committed s)) s"
proof -
  have s: "both (\<lambda>d. db_changes d = db_changes (s_committed s)) s" using assms(2) by (simp add: both_def)
  show ?thesis
  proof (rule wp_process_cases [OF assms(1), where r = r0], goal_cases)
    case 1
    show ?case using assms(2,3) by simp
  next
    case 2
    show ?case by (rule refl)
  next
    case 3
    show ?case
    proof (cases "undone_change r0 (s_db s)")
      case None
      then show ?thesis by (rule no_change_wp [rotated]) simp
    next
      case (Some c)
      show ?thesis
        by (rule same_changes.process_undo_wp [OF s Some, where B = UNIV])
          (auto intro!: same_changes.write_undo_settles verify_undo_changes simp: both_def)
    qed
  qed (use assms(4) in simp)
qed

end
