(* ===== verification/WriterTurn.thy ===== *)
theory WriterTurn
  imports WriterFrame
begin

text \<open>
  The theorems about processing one operation, with a concrete library and an undo on it.
\<close>

section \<open>Processing one operation\<close>

text \<open>A session between two turns: no open transaction, and consistent committed tables.\<close>

definition clean :: "'w session \<Rightarrow> bool" where
  "clean s = (\<not> s_broken s \<and> s_db s = s_committed s \<and> writer_ok {} (s_committed s))"

definition run_ctx :: "'w io \<Rightarrow> string \<Rightarrow> 'w session \<Rightarrow> wctx" where
  "run_ctx io oid s = \<lparr>wx_oid = oid, wx_db = s_committed s, wx_log = s_log s, wx_intent = durable_intent oid,
     wx_verified = verified io\<rparr>"

lemma run_ctx_simps [simp]:
  "wx_oid (run_ctx io oid s) = oid" "wx_db (run_ctx io oid s) = s_committed s" "wx_log (run_ctx io oid s) = s_log s"
  "wx_intent (run_ctx io oid s) = durable_intent oid" "wx_verified (run_ctx io oid s) = verified io"
  by (simp_all add: run_ctx_def)

lemma ctx_ok_run: "ctx_ok (run_ctx io oid s) io"
  by (auto simp: ctx_ok_def written_ahead_def durable_intent_def op_at_def row_ok_def apply_row_def undo_row_def
      split: sum.splits)

lemma clean_inv:
  assumes "clean s" "op_at oid {a} (\<lambda>_. True) (s_committed s)" "a \<noteq> ''succeeded''"
  shows "inv_at (run_ctx io oid s) {a} (\<lambda>_. True) any_tab (op_at oid {a} (\<lambda>_. True)) s"
proof -
  have "op_at oid {a} (row_ok (run_ctx io oid s) (\<lambda>_. True)) (s_committed s)"
    using assms(2,3) by (auto simp: op_at_def row_ok_def split: sum.splits)
  then show ?thesis
    using assms(1,2) writer_ok_weaken [of "s_committed s"]
    by (simp add: inv_at_def clean_def committed_ok_def kept_log_def any_tab_def)
qed

lemma process_wp:
  assumes "clean s" "op_at oid {''claimed''} (\<lambda>_. True) (s_committed s)"
  shows "wp (process en io pilot oid) (finished (run_ctx io oid s)) (\<lambda>_. recoverable (run_ctx io oid s)) s"
proof -
  have "wp (process en io pilot (wx_oid (run_ctx io oid s))) (finished (run_ctx io oid s)) (\<lambda>_. recoverable (run_ctx io oid s)) s"
    by (rule wp_process [OF ctx_ok_run clean_inv [OF assms]]) (auto intro: op_at_begun)
  then show ?thesis by simp
qed

lemma process_committed:
  assumes "clean s" "op_at oid {''claimed''} (\<lambda>_. True) (s_committed s)" "process en io pilot oid s = (res, s')"
  shows "committed_ok (run_ctx io oid s) s'"
proof (cases res)
  case (Inl e)
  with assms(3) wpE [OF process_wp [OF assms(1,2)]] show ?thesis by (auto simp: recoverable_def)
next
  case (Inr r)
  with assms(3) wpD [OF process_wp [OF assms(1,2)]] show ?thesis by (auto simp: finished_def)
qed

text \<open>
  Claim C16. Write-ahead discipline and frame: whatever processing a claimed operation does, and whether it returns or
  raises, every write to the Calibre library happens when the committed ledger already holds the operation in state
  \<open>writing\<close> with its metadata before and after, and a sealed backup to restore from; the tables are consistent
  at every such moment and at the end. The rows of all other operations, the request columns of this one, the evidence, authorizations,
  acknowledgements and pilots are untouched; and so is everything else that is not the operation's: the events and the locks of all other
  operations (no lock is taken), the status of every book but the one the operation writes, and every change row, except for the status
  of the change an undo is for and for new changes that carry the operation's id.
\<close>

theorem process_write_ahead:
  assumes "clean s" "op_at oid {''claimed''} (\<lambda>_. True) (s_committed s)" "process en io pilot oid s = (res, s')"
  shows "(\<exists>ws. s_log s' = s_log s @ ws \<and> written_with (durable_intent oid) {oid} (s_committed s) ws)
    \<and> only_rows {oid} (s_committed s) (s_committed s') \<and> writer_ok {} (s_committed s')
    \<and> differs_in oid (set_option (written_key oid (s_committed s))) (undone_ids oid (s_committed s)) (s_committed s) (s_committed s')"
proof -
  obtain r0 where r0: "the_operation oid (s_committed s) = Inr r0" using assms(2) by (auto elim: op_atE)
  have "\<not> s_broken s" "s_db s = s_committed s" using assms(1) by (simp_all add: clean_def)
  note frame = process_frame [OF this r0, of en io pilot]
  have "differs_in oid (set_option (written_key oid (s_committed s))) (undone_ids oid (s_committed s)) (s_committed s) (s_committed s')"
    using assms(3) wpD [OF frame] wpE [OF frame] by (cases res) (auto simp: both_def)
  then show ?thesis using process_committed [OF assms] by (auto simp: committed_ok_def kept_log_def)
qed

text \<open>
  Claim C17. When processing returns, the operation is over and the success is real: the committed row is the returned one and is in
  a terminal state, its outbox event is closed and its book lock released, no transaction is left open, and the state
  \<open>succeeded\<close> is only reached when the last thing the run did to the outside world was to read back the metadata of the book it wrote
  (the call that left the world as it is now): the observed metadata are what that read returned, and they match the recorded target.
\<close>

theorem process_ends_operation:
  assumes "clean s" "op_at oid {''claimed''} (\<lambda>_. True) (s_committed s)" "process en io pilot oid s = (Inr r, s')"
  shows "clean s' \<and> the_operation oid (s_committed s') = Inr r \<and> terminal_state (op_state r) \<and> closed oid (s_committed s')
    \<and> (op_state r = ''succeeded'' \<longrightarrow>
        (\<exists>b observed target w. written_book oid (s_committed s) = Some b
           \<and> op_observed_metadata r = Some observed \<and> op_target_metadata r = Some target
           \<and> io_show_metadata io b w = (Inr observed, s_world s') \<and> matches_items io observed target (s_world s') = Inr True))"
proof -
  obtain r0 where r0: "the_operation oid (s_committed s) = Inr r0" "op_state r0 = ''claimed''" using assms(2) by (auto elim: op_atE)
  have "\<not> s_broken s" "s_db s = s_committed s" using assms(1) by (simp_all add: clean_def)
  note read = wpD [OF process_read_back [OF this r0(1), of en io pilot] assms(3)]
  note ended = wpD [OF process_wp [OF assms(1,2)] assms(3)]
  have "\<exists>b. written_book oid (s_committed s) = Some b \<and> read_back io b r s'" if "op_state r = ''succeeded''"
    using read r0(2) that ended by (auto simp: finished_def verified_def)
  with ended show ?thesis by (auto simp: finished_def clean_def committed_ok_def read_back_def)
qed

section \<open>A concrete library\<close>

text \<open>
  A library of one book whose world is its metadata; writing an OPF sets the title to the content of the artifact. The demo
  session holds a claimed undo of a change that set the title to \<open>New\<close>.
\<close>

definition demo_io :: "pydict io" where
  "demo_io = \<lparr>io_library_path = Some ''/lib'', io_artifacts_dir = ''/a'',
     io_show_metadata = (\<lambda>b w. (Inr w, w)), io_export_opf = (\<lambda>b p w. (Inr ''h'', w)),
     io_export_cover = (\<lambda>b p w. (Inr None, w)),
     io_set_metadata_from_fd = (\<lambda>b c w. (Inr (), dict_set ''title'' (PStr c) w)),
     io_set_custom = (\<lambda>b c v w. (Inr (), w)), io_set_cover_from_fd = (\<lambda>b c w. (Inr (), w)),
     io_sha256_file_beneath = (\<lambda>root p n w. Inr ''h''), io_sealed_file_beneath = (\<lambda>root p h n w. Inr ''Old''),
     io_read_file_beneath = (\<lambda>root p n h w. Inr []), io_write_bytes_beneath = (\<lambda>root p c w. (Inr (), w)),
     io_copy_file_beneath = (\<lambda>root a b n h w. (Inr (), w)), io_ensure_secure_directory = (\<lambda>p w. (Inr (), w)),
     io_is_file = (\<lambda>p w. False), io_sha256_file = (\<lambda>p w. Inr ''h''), io_image_size = (\<lambda>c. Inr (1, 1)),
     io_image_verify = (\<lambda>c. Inr ()), io_create_restore_point = (\<lambda>b p o' w. (Inr ''/art/rp'', w)),
     io_parse_opf = (\<lambda>c. Inr \<lparr>opf_metadata = Some [], opf_rest = []\<rparr>), io_render_opf = (\<lambda>d. []), io_strftime = (\<lambda>t. ''t'')\<rparr>"

definition undo_operation :: operation where
  "undo_operation = (new_operation 1 ''op1'' 5 ''k'' ''undo_change'' ''b7'' [(''change_id'', PInt 3)])
     \<lparr>op_state := ''claimed'', op_run_id := Some ''r1'', op_calibre_book_id := Some 7,
      op_expected_before_metadata := Some [(''title'', PStr ''New'')]\<rparr>"

definition undo_db :: db where
  "undo_db = empty_db\<lparr>
     db_books := [\<lparr>bk_id = 1, bk_book_key = ''b7'', bk_run_id = ''r1'', bk_calibre_book_id = Some 7,
       bk_paperless_document_id = None, bk_source = ''calibre'', bk_discovered_at = 0, bk_files = [], bk_current_metadata = [],
       bk_field_locks = [], bk_status = ''undo_queued''\<rparr>],
     db_changes := [\<lparr>ch_id = 3, ch_operation_id = Some ''op0'', ch_book_key = ''b7'', ch_run_id = ''r1'', ch_applied_at = 0,
       ch_before_metadata = [(''title'', PStr ''Old'')], ch_after_metadata = [(''title'', PStr ''New'')],
       ch_backup_opf_path = ''/b'', ch_backup_opf_sha256 = Some ''h'', ch_backup_cover_path = None,
       ch_backup_cover_sha256 = None, ch_before_custom = [], ch_status = ''applied''\<rparr>],
     db_operations := [undo_operation],
     db_outbox := [(new_outbox_event 1 ''ev1'' 5 ''op1'' ''undo_change'' ''b7'')\<lparr>ob_status := ''processing''\<rparr>],
     db_locks := [\<lparr>lk_book_key = ''b7'', lk_operation_id = ''op1'', lk_lease_owner = ''w'', lk_lease_expires_at = 60\<rparr>]\<rparr>"

definition demo_session :: "db \<Rightarrow> pydict session" where
  "demo_session d = \<lparr>s_db = d, s_committed = d, s_broken = False, s_world = [(''title'', PStr ''New'')],
     s_clock = (\<lambda>n. 10 + int n), s_uuids = (\<lambda>n. ''u''), s_ticks = 0, s_log = []\<rparr>"

lemma undo_operation_simps [simp]:
  "op_operation_id undo_operation = ''op1''" "op_idempotency_key undo_operation = ''k''"
  "op_book_key undo_operation = ''b7''" "op_state undo_operation = ''claimed''" "op_completed_at undo_operation = None"
  by (simp_all add: undo_operation_def new_operation_def)

lemma undo_db_simps [simp]:
  "db_operations undo_db = [undo_operation]"
  "map ob_event_id (db_outbox undo_db) = [''ev1'']" "map ob_aggregate_id (db_outbox undo_db) = [''op1'']"
  "map lk_book_key (db_locks undo_db) = [''b7'']" "map lk_operation_id (db_locks undo_db) = [''op1'']"
  by (simp_all add: undo_db_def new_outbox_event_def)

lemma undo_ledger_ok: "ledger_ok undo_db"
  by (simp add: ledger_ok_def op_wf_def STATES_set terminal_cases)

lemma undo_outbox_ok: "distinct (map ob_id (db_outbox undo_db))"
  by (simp add: undo_db_def)

lemma undo_locks_ok: "locks_ok {} undo_db"
  by (simp add: locks_ok_def undo_db_def active_state_def)

lemma undo_ready: "clean (demo_session undo_db)" "op_at ''op1'' {''claimed''} (\<lambda>_. True) (s_committed (demo_session undo_db))"
  by (simp_all add: clean_def demo_session_def writer_ok_def undo_ledger_ok undo_locks_ok undo_outbox_ok op_at_def the_operation_def row_one_def)

definition undo_run :: "operation res \<times> pydict session" where
  "undo_run = process demo_env demo_io None ''op1'' (demo_session undo_db)"

lemma undo_run_value:
  "(case undo_run of (Inr r, s) \<Rightarrow> Some (op_state r, map ew_kind (s_log s)) | _ \<Rightarrow> None) = Some (''succeeded'', [''set_metadata''])"
  by code_simp

lemma undo_run_obtain:
  obtains r s' where "process demo_env demo_io None ''op1'' (demo_session undo_db) = (Inr r, s')"
    "op_state r = ''succeeded''" "map ew_kind (s_log s') = [''set_metadata'']"
  using undo_run_value by (auto simp: undo_run_def split: prod.splits sum.splits)

lemma undo_change_values:
  "written_key ''op1'' undo_db = Some ''b7''" "undone_ids ''op1'' undo_db = {3}" "written_book ''op1'' undo_db = Some 7"
proof -
  have row: "the_operation ''op1'' undo_db = Inr undo_operation" by (simp add: the_operation_def row_one_def)
  have "is_undo undo_operation" "as_int (pget (op_requested_patch undo_operation) ''change_id'') = Some 3"
    by (simp_all add: is_undo_def undo_operation_def new_operation_def as_int_def pget_def dict_get_def)
  moreover have "\<exists>c. get_change 3 undo_db = Some c \<and> ch_id c = 3 \<and> ch_book_key c = ''b7''"
    by (simp add: get_change_def undo_db_def row_first_def)
  ultimately show k: "written_key ''op1'' undo_db = Some ''b7''" "undone_ids ''op1'' undo_db = {3}"
    by (auto simp: written_key_def undone_ids_def row undone_change_def)
  show "written_book ''op1'' undo_db = Some 7" by (simp add: written_book_def k) (simp add: undo_db_def row_one_def)
qed

theorem process_write_ahead_witness:
  "\<exists>r s' w. process demo_env demo_io None ''op1'' (demo_session undo_db) = (Inr r, s')
     \<and> s_log s' = [w] \<and> ew_kind w = ''set_metadata'' \<and> durable_intent ''op1'' (ew_db w)
     \<and> differs_in ''op1'' {''b7''} {3} undo_db (s_committed s')"
proof -
  obtain r s' where r: "process demo_env demo_io None ''op1'' (demo_session undo_db) = (Inr r, s')"
      "map ew_kind (s_log s') = [''set_metadata'']"
    using undo_run_obtain by metis
  then obtain w where w: "s_log s' = [w]" "ew_kind w = ''set_metadata''" by auto
  have "s_log (demo_session undo_db) = []" "s_committed (demo_session undo_db) = undo_db" by (simp_all add: demo_session_def)
  moreover have "written_key ''op1'' undo_db = Some ''b7''" "undone_ids ''op1'' undo_db = {3}" by (simp_all add: undo_change_values)
  ultimately show ?thesis using process_write_ahead [OF undo_ready r(1)] w r(1) by (auto simp: written_with_def)
qed

theorem process_ends_operation_witness:
  "\<exists>r s' w observed. process demo_env demo_io None ''op1'' (demo_session undo_db) = (Inr r, s') \<and> op_state r = ''succeeded''
     \<and> closed ''op1'' (s_committed s') \<and> op_observed_metadata r = Some observed \<and> io_show_metadata demo_io 7 w = (Inr observed, s_world s')"
proof -
  obtain r s' where r: "process demo_env demo_io None ''op1'' (demo_session undo_db) = (Inr r, s')" "op_state r = ''succeeded''"
    using undo_run_obtain by metis
  have "s_committed (demo_session undo_db) = undo_db" by (simp add: demo_session_def)
  with process_ends_operation [OF undo_ready r(1)] r show ?thesis by (auto simp: undo_change_values)
qed

end
