(* ===== verification/Claiming.thy ===== *)
theory Claiming
  imports WriterTurn
begin

text \<open>
  Claiming operations, whole turns of the writer, and the interleaving of writer and coordinator.
\<close>

section \<open>Claiming\<close>

definition claimable :: "db \<Rightarrow> outbox_event \<Rightarrow> bool" where
  "claimable d e =
     (ob_status e = ''pending'' \<and> ob_event_type e = ''operation.requested''
      \<and> (case the_operation (ob_aggregate_id e) d of Inr r \<Rightarrow> op_state r = ''requested'' | Inl _ \<Rightarrow> False))"

text \<open>What a claim returns: the first claimable operation in queue order, unless its book is locked.\<close>

definition claim_spec :: "db \<Rightarrow> string option" where
  "claim_spec d =
     (case row_first (claimable d) (db_outbox d) of
        None \<Rightarrow> None
      | Some e \<Rightarrow>
          (case the_operation (ob_aggregate_id e) d of
             Inl _ \<Rightarrow> None
           | Inr r \<Rightarrow> if list_ex (\<lambda>l. lk_book_key l = op_book_key r) (db_locks d) then None else Some (ob_aggregate_id e)))"

lemma publish_stale_clean:
  assumes "clean s"
  shows "clean (publish_stale event s)" "only_rows {} (s_committed s) (s_committed (publish_stale event s))"
    "s_log (publish_stale event s) = s_log s" "s_world (publish_stale event s) = s_world s"
    "db_operations (s_committed (publish_stale event s)) = db_operations (s_committed s)"
    "db_locks (s_committed (publish_stale event s)) = db_locks (s_committed s)"
    "db_changes (s_committed (publish_stale event s)) = db_changes (s_committed s)"
proof -
  let ?d = "upd_event (ob_id event) (\<lambda>e. e\<lparr>ob_status := ''published'', ob_published_at := Some (s_clock s (s_ticks s))\<rparr>) (s_committed s)"
  have "writer_ok {} ?d = writer_ok {} (s_committed s)"
    by (rule writer_ok_cong) (simp_all add: upd_event_def map_row_map_keeps)
  with assms show "clean (publish_stale event s)" by (simp add: clean_def publish_stale_def Let_def)
  show "only_rows {} (s_committed s) (s_committed (publish_stale event s))"
    "s_log (publish_stale event s) = s_log s" "s_world (publish_stale event s) = s_world s"
    "db_operations (s_committed (publish_stale event s)) = db_operations (s_committed s)"
    "db_locks (s_committed (publish_stale event s)) = db_locks (s_committed s)"
    "db_changes (s_committed (publish_stale event s)) = db_changes (s_committed s)"
    using assms by (simp_all add: clean_def publish_stale_def Let_def upd_event_def same_requests_def only_rows_def)
qed

lemma publish_stale_claimable:
  assumes "clean s" "next_pending (s_db s) = Some event" "the_operation (ob_aggregate_id event) (s_db s) = Inr r"
    "op_state r \<noteq> ''requested''"
  shows "claim_spec (s_committed (publish_stale event s)) = claim_spec (s_committed s)"
proof -
  let ?d = "s_committed s" and ?d' = "s_committed (publish_stale event s)"
  let ?f = "\<lambda>e. e\<lparr>ob_status := ''published'', ob_published_at := Some (s_clock s (s_ticks s))\<rparr>"
  have db: "s_db s = ?d" using assms(1) by (simp add: clean_def)
  have ops: "the_operation oid ?d' = the_operation oid ?d" for oid
    using publish_stale_clean(5) [OF assms(1)] by (simp add: the_operation_def)
  have cl: "claimable ?d' = claimable ?d" by (rule ext) (simp add: claimable_def ops)
  have ob: "db_outbox ?d' = row_map (\<lambda>e. ob_id e = ob_id event) ?f (db_outbox ?d)"
    by (simp add: publish_stale_def Let_def upd_event_def db)
  have ev: "event \<in> set (db_outbox ?d)" using row_first_Some [OF assms(2) [unfolded next_pending_def]] by (simp add: db)
  have ids: "distinct (map ob_id (db_outbox ?d))" using assms(1) by (simp add: clean_def writer_ok_def)
  have first: "row_first (claimable ?d) (row_map (\<lambda>e. ob_id e = ob_id event) ?f xs) = row_first (claimable ?d) xs"
    if "set xs \<subseteq> set (db_outbox ?d)" for xs
    using that
  proof (induction xs)
    case (Cons y ys)
    show ?case
    proof (cases "ob_id y = ob_id event")
      case True
      then have "y = event" using Cons.prems ev ids by (auto simp: distinct_map inj_on_def)
      then have "\<not> claimable ?d y" using assms(3,4) by (simp add: claimable_def db)
      moreover have "\<not> claimable ?d (?f y)" by (simp add: claimable_def)
      ultimately show ?thesis using Cons True by (simp add: row_first_def row_map_def)
    qed (use Cons in \<open>simp add: row_first_def row_map_def\<close>)
  qed (simp add: row_map_def)
  show ?thesis
    unfolding claim_spec_def ob cl ops publish_stale_clean(6) [OF assms(1)] first [OF subset_refl] ..
qed

definition claimed_row :: "operation \<Rightarrow> time \<Rightarrow> string \<Rightarrow> time \<Rightarrow> operation" where
  "claimed_row r now owner expires =
     (moved ''claimed'' None now r)\<lparr>op_lease_owner := Some owner, op_lease_expires_at := Some expires\<rparr>"

definition claimed_db :: "db \<Rightarrow> outbox_event \<Rightarrow> operation \<Rightarrow> time \<Rightarrow> string \<Rightarrow> time \<Rightarrow> db" where
  "claimed_db d event r now owner expires =
     d\<lparr>db_operations := row_map (is_op (op_operation_id r)) (\<lambda>_. claimed_row r now owner expires) (db_operations d),
       db_outbox := row_map (\<lambda>e. ob_id e = ob_id event) (\<lambda>e. e\<lparr>ob_status := ''processing'', ob_attempts := ob_attempts e + 1\<rparr>)
         (db_outbox d),
       db_locks := db_locks d @ [\<lparr>lk_book_key = op_book_key r, lk_operation_id = op_operation_id r,
         lk_lease_owner = owner, lk_lease_expires_at = expires\<rparr>]\<rparr>"

lemma claimed_db_changes [simp]: "db_changes (claimed_db d event r now owner expires) = db_changes d"
  by (simp add: claimed_db_def)

lemma row_map_const: "p c \<Longrightarrow> row_map p g (row_map p (\<lambda>_. c) xs) = row_map p (\<lambda>_. g c) xs"
  by (simp add: row_map_def)

lemma claim_owner:
  "\<exists>owner k. (case ow of Some w \<Rightarrow> if w \<noteq> [] then ret w else new_uuid | None \<Rightarrow> new_uuid) s = (Inr owner, s\<lparr>s_ticks := k\<rparr>)"
  by (auto simp: ret_def new_uuid_def split: option.split intro!: exI [of "\<lambda>k. s = s\<lparr>s_ticks := k\<rparr>" "s_ticks s"])

lemma claim_operation_cases:
  assumes "clean s" "the_operation (op_operation_id r) (s_db s) = Inr r" "op_state r = ''requested''"
  shows "\<exists>n now owner expires. claim_operation ow secs event r s =
     (if list_ex (\<lambda>l. lk_book_key l = op_book_key r) (db_locks (s_db s)) then (Inr None, s\<lparr>s_ticks := n\<rparr>)
      else (Inr (Some (op_operation_id r)),
        s\<lparr>s_db := claimed_db (s_db s) event r now owner expires, s_committed := claimed_db (s_db s) event r now owner expires, s_ticks := n\<rparr>))"
proof -
  obtain owner k where ow: "(case ow of Some w \<Rightarrow> if w \<noteq> [] then ret w else new_uuid | None \<Rightarrow> new_uuid) s = (Inr owner, s\<lparr>s_ticks := k\<rparr>)"
    using claim_owner by blast
  let ?expires = "s_clock s k + secs * 1000000"
  have un: "\<not> s_broken s" "s_db s = s_committed s" using assms(1) by (simp_all add: clean_def)
  have fst: "(row_first (\<lambda>l. lk_book_key l = op_book_key r) (db_locks (s_committed s)) = None)
      \<longleftrightarrow> \<not> list_ex (\<lambda>l. lk_book_key l = op_book_key r) (db_locks (s_committed s))"
    by (auto simp: row_first_None list_ex_iff)
  show ?thesis
  proof (cases "list_ex (\<lambda>l. lk_book_key l = op_book_key r) (db_locks (s_db s))")
    case True
    then have "claim_operation ow secs event r s = (Inr None, s\<lparr>s_ticks := Suc k\<rparr>)"
      using un fst by (simp add: claim_operation_def Let_def bnd_def [of "case ow of None \<Rightarrow> _ | Some x \<Rightarrow> _ x"] ow)
        (simp add: bnd_def thn_def ret_def query_def utc_now_def rollback_def)
    with True show ?thesis by auto
  next
    case False
    let ?now = "s_clock s (Suc k)"
    have mv: "transition_operation ''claimed'' None ?now r = Inr (moved ''claimed'' None ?now r)"
      using assms(3) by (simp add: transition_operation_eq can_move_cases)
    have no: "\<not> list_ex (\<lambda>l. lk_operation_id l = op_operation_id r) (db_locks (s_committed s))"
    proof
      assume "list_ex (\<lambda>l. lk_operation_id l = op_operation_id r) (db_locks (s_committed s))"
      then obtain l where l: "l \<in> set (db_locks (s_committed s))" "lk_operation_id l = op_operation_id r" by (auto simp: list_ex_iff)
      have "locks_ok {} (s_committed s)" using assms(1) by (simp add: clean_def writer_ok_def)
      then obtain x where "x \<in> set (db_operations (s_committed s))" "op_operation_id x = op_operation_id r" "active_state (op_state x)"
        using locks_okD(2) l by fastforce
      moreover from this(1,2) have "x = r"
        using row_one_eq assms(2) un(2) unfolding the_operation_def by fastforce
      ultimately show False using assms(3) by (simp add: active_state_def)
    qed
    have "claim_operation ow secs event r s = (Inr (Some (op_operation_id r)),
        s\<lparr>s_db := claimed_db (s_db s) event r ?now owner ?expires, s_committed := claimed_db (s_db s) event r ?now owner ?expires,
          s_ticks := Suc (Suc k)\<rparr>)"
      using un fst False no assms(2) mv
      by (simp add: claim_operation_def Let_def bnd_def [of "case ow of None \<Rightarrow> _ | Some x \<Rightarrow> _ x"] ow)
        (simp add: bnd_def thn_def ret_def query_def utc_now_def transition_def get_operation_def query_res_def lift_res_def
          modify_db_def try_except_def insert_lock_def commit_def claimed_db_def claimed_row_def upd_operation_def upd_event_def
          list_ex_iff row_map_const)
    with False show ?thesis by auto
  qed
qed

lemma claimed_row_simps [simp]:
  "request_of (claimed_row r now owner expires) = request_of r" "op_state (claimed_row r now owner expires) = ''claimed''"
  "op_operation_id (claimed_row r now owner expires) = op_operation_id r" "op_book_key (claimed_row r now owner expires) = op_book_key r"
  "op_idempotency_key (claimed_row r now owner expires) = op_idempotency_key r"
  by (simp_all add: claimed_row_def request_of_def moved_def Let_def)

lemma claimed_db_ok:
  assumes "writer_ok {} d" "the_operation (op_operation_id r) d = Inr r" "op_state r = ''requested''"
    and free: "\<not> list_ex (\<lambda>l. lk_book_key l = op_book_key r) (db_locks d)"
  shows "writer_ok {} (claimed_db d event r now owner expires)" "only_rows {op_operation_id r} d (claimed_db d event r now owner expires)"
    "op_at (op_operation_id r) {''claimed''} (\<lambda>_. True) (claimed_db d event r now owner expires)"
proof -
  let ?d = "claimed_db d event r now owner expires" and ?c = "claimed_row r now owner expires"
  note one = assms(2) [unfolded the_operation_def]
  obtain as bs where s: "db_operations d = as @ r # bs" "list_all (\<lambda>y. \<not> is_op (op_operation_id r) y) as"
      "list_all (\<lambda>y. \<not> is_op (op_operation_id r) y) bs"
    using row_one_split [OF one] by blast
  have ops: "db_operations ?d = as @ ?c # bs"
    using row_map_split [OF s(2,3), of r "\<lambda>_. ?c"] by (simp add: claimed_db_def s(1))
  have lks: "db_locks ?d = db_locks d @ [\<lparr>lk_book_key = op_book_key r, lk_operation_id = op_operation_id r,
      lk_lease_owner = owner, lk_lease_expires_at = expires\<rparr>]" by (simp add: claimed_db_def)
  have led: "ledger_ok d" and lk: "locks_ok {} d" using assms(1) by (simp_all add: writer_ok_def)
  have wf: "op_wf r" using led by (simp add: ledger_ok_def s(1))
  then have "op_wf ?c" using assms(3) by (simp add: op_wf_def claimed_row_def moved_def STATES_set terminal_cases Let_def)
  then have "ledger_ok ?d" using led by (simp add: ledger_ok_def ops s(1)) (simp add: claimed_db_def map_row_map_keeps)
  moreover have "locks_ok {} ?d"
  proof (rule locks_okI, goal_cases)
    case 1
    show ?case using locks_okD(1) [OF lk] free by (auto simp: lks list_ex_iff)
  next
    case (2 l)
    show ?case
    proof (cases "l \<in> set (db_locks d)")
      case True
      then obtain x where "x \<in> set (db_operations d)" "op_operation_id x = lk_operation_id l" "op_book_key x = lk_book_key l"
          "active_state (op_state x)" using locks_okD(2) [OF lk, of l] by auto
      moreover from this(4) assms(3) have "x \<noteq> r" by (auto simp: active_state_def)
      ultimately show ?thesis by (intro bexI [of _ x]) (auto simp: ops s(1))
    next
      case False
      with 2 show ?thesis by (auto simp: lks ops active_state_def)
    qed
  next
    case (3 x)
    then show ?case using locks_okD(3) [OF lk, of x] by (auto simp: lks ops s(1))
  qed
  moreover have "distinct (map ob_id (db_outbox ?d))"
    using assms(1) by (simp add: writer_ok_def claimed_db_def map_row_map_keeps)
  ultimately show "writer_ok {} ?d" by (simp add: writer_ok_def)
  have "same_requests d ?d" by (simp add: same_requests_def ops s(1)) (simp add: claimed_db_def)
  then show "only_rows {op_operation_id r} d ?d" by (simp add: only_rows_def ops s(1))
  have "the_operation (op_operation_id r) ?d = Inr ?c"
    using row_one_upd [OF one, of "\<lambda>_. ?c"] by (simp add: the_operation_def claimed_db_def)
  then show "op_at (op_operation_id r) {''claimed''} (\<lambda>_. True) ?d" by (simp add: op_at_def)
qed

definition claim_post :: "'w session \<Rightarrow> string option \<Rightarrow> 'w session \<Rightarrow> bool" where
  "claim_post s r s' =
     (clean s' \<and> only_rows (set_option r) (s_committed s) (s_committed s') \<and> s_log s' = s_log s \<and> s_world s' = s_world s
      \<and> db_changes (s_committed s') = db_changes (s_committed s) \<and> r = claim_spec (s_committed s)
      \<and> (case r of Some oid \<Rightarrow> op_at oid {''claimed''} (\<lambda>_. True) (s_committed s') | None \<Rightarrow> True))"

lemma row_first_refine: "row_first p xs = Some e \<Longrightarrow> q e \<Longrightarrow> (\<And>x. q x \<Longrightarrow> p x) \<Longrightarrow> row_first q xs = Some e"
  unfolding row_first_def by (induction xs) (auto split: if_splits)

lemma next_pending_claimable:
  assumes "next_pending d = Some e" "the_operation (ob_aggregate_id e) d = Inr r" "op_state r = ''requested''"
  shows "row_first (claimable d) (db_outbox d) = Some e"
proof -
  have "claimable d e" using row_first_Some [OF assms(1) [unfolded next_pending_def]] assms(2,3) by (simp add: claimable_def)
  moreover have "\<And>x. claimable d x \<Longrightarrow> ob_status x = ''pending'' \<and> ob_event_type x = ''operation.requested''"
    by (simp add: claimable_def)
  ultimately show ?thesis using assms(1) unfolding next_pending_def by (rule row_first_refine [rotated])
qed

lemma claim_next_post:
  "clean s \<Longrightarrow> \<exists>r s'. claim_next_operation ow secs s = (Inr r, s') \<and> claim_post s r s'"
proof (induction ow secs s rule: claim_next_operation.induct)
  case (1 ow secs s)
  have un: "\<not> s_broken s" "s_db s = s_committed s" "writer_ok {} (s_committed s)" using "1.prems" by (simp_all add: clean_def)
  show ?case
  proof (cases "next_pending (s_db s)")
    case None
    then have "row_first (claimable (s_committed s)) (db_outbox (s_committed s)) = None"
      using un(2) by (auto simp: next_pending_def row_first_None claimable_def)
    then have "claim_post s None s" using "1.prems" by (simp add: claim_post_def claim_spec_def)
    moreover have "claim_next_operation ow secs s = (Inr None, s)"
      using None un(1) by (simp add: claim_next_operation.simps [of ow secs s])
    ultimately show ?thesis by blast
  next
    case (Some event)
    have ev: "event \<in> set (db_outbox (s_db s))" using row_first_Some [OF Some [unfolded next_pending_def]] by simp
    have "ledger_ok (s_db s)" using un(2,3) by (simp add: writer_ok_def)
    from ledger_ok_operation [OF this ev] obtain r where r: "the_operation (ob_aggregate_id event) (s_db s) = Inr r"
      by (auto simp: the_operation_def)
    then have id: "op_operation_id r = ob_aggregate_id event" using the_operation_id by blast
    show ?thesis
    proof (cases "op_state r = ''requested''")
      case False
      note pub = publish_stale_clean [OF "1.prems", of event]
      have run: "claim_next_operation ow secs s = claim_next_operation ow secs (publish_stale event s)"
        using un(1) Some r False by (simp add: claim_next_operation.simps [of ow secs s])
      obtain x s' where x: "claim_next_operation ow secs (publish_stale event s) = (Inr x, s')" "claim_post (publish_stale event s) x s'"
        using "1.IH" [OF un(1) Some r False pub(1)] by blast
      have "claim_post s x s'"
        using x(2) pub(2-4,7) publish_stale_claimable [OF "1.prems" Some r False]
        by (auto simp: claim_post_def intro: only_rows_trans only_rows_mono)
      with x(1) run show ?thesis by auto
    next
      case True
      have run: "claim_next_operation ow secs s = claim_operation ow secs event r s"
        using un(1) Some r True by (simp add: claim_next_operation.simps [of ow secs s])
      have first: "row_first (claimable (s_committed s)) (db_outbox (s_committed s)) = Some event"
        using next_pending_claimable Some r True un(2) by simp
      obtain n now owner expires where c: "claim_operation ow secs event r s =
         (if list_ex (\<lambda>l. lk_book_key l = op_book_key r) (db_locks (s_db s)) then (Inr None, s\<lparr>s_ticks := n\<rparr>)
          else (Inr (Some (op_operation_id r)), s\<lparr>s_db := claimed_db (s_db s) event r now owner expires,
            s_committed := claimed_db (s_db s) event r now owner expires, s_ticks := n\<rparr>))"
        using claim_operation_cases [OF "1.prems" _ True, of ow secs event] r id by auto
      show ?thesis
      proof (cases "list_ex (\<lambda>l. lk_book_key l = op_book_key r) (db_locks (s_db s))")
        case locked: True
        have "claim_post s None (s\<lparr>s_ticks := n\<rparr>)"
          using "1.prems" locked first r un(2) by (simp add: claim_post_def claim_spec_def clean_def)
        with run c locked show ?thesis by auto
      next
        case free: False
        have "the_operation (op_operation_id r) (s_committed s) = Inr r" using r id un(2) by simp
        note ok = claimed_db_ok [OF un(3) this True, of event now owner expires]
        have "claim_post s (Some (op_operation_id r)) (s\<lparr>s_db := claimed_db (s_db s) event r now owner expires,
            s_committed := claimed_db (s_db s) event r now owner expires, s_ticks := n\<rparr>)"
          using ok free first r id un by (simp add: claim_post_def claim_spec_def clean_def)
        with run c free show ?thesis by auto
      qed
    qed
  qed
qed

lemma lock_holder:
  assumes "writer_ok {} d" "the_operation oid d = Inr r" "active_state (op_state r)"
  shows "\<exists>l. filter (\<lambda>l. lk_book_key l = op_book_key r) (db_locks d) = [l] \<and> lk_operation_id l = oid"
proof -
  have lk: "locks_ok {} d" using assms(1) by (simp add: writer_ok_def)
  note r = the_operation_id [OF assms(2)]
  obtain l where l: "l \<in> set (db_locks d)" "lk_book_key l = op_book_key r" "lk_operation_id l = oid"
    using locks_okD(3) [OF lk _ assms(3)] r by blast
  with filter_unique [OF locks_okD(1) [OF lk] l(1)] show ?thesis by auto
qed

text \<open>
  Claim C18. Claiming terminates and picks exactly the head of the queue: from consistent tables \<open>claim_next_operation\<close> always returns;
  the result is the first pending event whose operation is still requested, or nothing when there is none or
  when that operation's book is locked (also if other books wait behind it); the library and the requests are untouched, the tables stay
  consistent, and a returned operation is committed as claimed and holds the only lock of its book.
\<close>

theorem claim_takes_queue_head:
  assumes "clean s"
  shows "\<exists>r s'. claim_next_operation ow secs s = (Inr r, s') \<and> r = claim_spec (s_committed s)
    \<and> clean s' \<and> only_rows (set_option r) (s_committed s) (s_committed s') \<and> s_log s' = s_log s \<and> s_world s' = s_world s
    \<and> (\<forall>oid. r = Some oid \<longrightarrow> (\<exists>row l. the_operation oid (s_committed s') = Inr row \<and> op_state row = ''claimed''
           \<and> filter (\<lambda>l. lk_book_key l = op_book_key row) (db_locks (s_committed s')) = [l] \<and> lk_operation_id l = oid))"
proof -
  obtain r s' where c: "claim_next_operation ow secs s = (Inr r, s')" "claim_post s r s'" using claim_next_post [OF assms] by blast
  have "\<exists>row l. the_operation oid (s_committed s') = Inr row \<and> op_state row = ''claimed''
      \<and> filter (\<lambda>l. lk_book_key l = op_book_key row) (db_locks (s_committed s')) = [l] \<and> lk_operation_id l = oid" if "r = Some oid" for oid
  proof -
    from c(2) that obtain row where row: "the_operation oid (s_committed s') = Inr row" "op_state row = ''claimed''"
      by (auto simp: claim_post_def elim: op_atE)
    then show ?thesis using lock_holder [OF _ row(1)] c(2) by (simp add: claim_post_def clean_def active_state_def)
  qed
  with c(1) c(2) [unfolded claim_post_def] show ?thesis by (intro exI [of _ r] exI [of _ s']) blast
qed

definition queued_db :: db where
  "queued_db = undo_db\<lparr>db_operations := [undo_operation\<lparr>op_state := ''requested''\<rparr>],
     db_outbox := [new_outbox_event 1 ''ev1'' 5 ''op1'' ''undo_change'' ''b7''], db_locks := []\<rparr>"

lemma queued_ready: "clean (demo_session queued_db)"
  by (simp add: clean_def demo_session_def writer_ok_def ledger_ok_def locks_ok_def queued_db_def op_wf_def STATES_set terminal_cases
      new_outbox_event_def active_state_def)

lemma queued_claim_spec: "claim_spec (s_committed (demo_session queued_db)) = Some ''op1''"
  by (simp add: claim_spec_def demo_session_def queued_db_def row_first_def claimable_def new_outbox_event_def the_operation_def
      row_one_def)

theorem claim_takes_queue_head_witness:
  "\<exists>s'. claim_next_operation None 60 (demo_session queued_db) = (Inr (Some ''op1''), s') \<and> clean s'
     \<and> map lk_operation_id (filter (\<lambda>l. lk_operation_id l = ''op1'') (db_locks (s_committed s'))) \<noteq> []"
proof -
  obtain r s' where c: "claim_next_operation None 60 (demo_session queued_db) = (Inr r, s')" "r = claim_spec (s_committed (demo_session queued_db))"
      "clean s'" "\<forall>oid. r = Some oid \<longrightarrow> (\<exists>row l. the_operation oid (s_committed s') = Inr row \<and> op_state row = ''claimed''
           \<and> filter (\<lambda>l. lk_book_key l = op_book_key row) (db_locks (s_committed s')) = [l] \<and> lk_operation_id l = oid)"
    using claim_takes_queue_head [OF queued_ready, of None 60] by blast
  have r: "r = Some ''op1''" using c(2) queued_claim_spec by simp
  then obtain k l where "filter (\<lambda>l. lk_book_key l = k) (db_locks (s_committed s')) = [l]" "lk_operation_id l = ''op1''" using c(4) by blast
  then have "l \<in> set (filter (\<lambda>l. lk_book_key l = k) (db_locks (s_committed s')))" by simp
  then have "l \<in> set (db_locks (s_committed s'))" by simp
  with \<open>lk_operation_id l = ''op1''\<close> have "filter (\<lambda>l. lk_operation_id l = ''op1'') (db_locks (s_committed s')) \<noteq> []"
    by (auto simp: filter_empty_conv)
  with c(1,3) r show ?thesis by simp
qed

section \<open>Turns of the writer\<close>

lemma fail_after_rollback:
  fixes s' :: "'w session"
  assumes "recoverable x s'"
  shows "\<exists>t r. thn rollback (fail_operation (wx_oid x) e) s' = (Inr (), t) \<and> finished x r t"
proof -
  let ?t = "s'\<lparr>s_db := s_committed s', s_broken := False\<rparr>"
  from assms obtain row where row: "the_operation (wx_oid x) (s_committed s') = Inr row"
      "op_state row \<in> {''claimed'', ''writing'', ''verifying'', ''restoring''}"
    by (auto simp: recoverable_def begun_def elim: op_atE)
  have inv: "inv_at x {op_state row} (\<lambda>_. True) any_tab any_tab ?t"
    using assms row writer_ok_weaken [of "s_committed s'"]
    by (auto simp: inv_at_def recoverable_def committed_ok_def kept_log_def any_tab_def op_at_def row_ok_def)
  have "wp (fail_operation (wx_oid x) e) (\<lambda>_ t. \<exists>r. finished x r t) (\<lambda>_ _. False) ?t"
    by (rule wp_fail_operation [OF inv]) (use row(2) in \<open>auto simp: active_state_def\<close>)
  from wp_no_raise [OF this] obtain t r where "fail_operation (wx_oid x) e ?t = (Inr (), t)" "finished x r t" by auto
  then show ?thesis by (auto simp: thn_def bnd_def rollback_def)
qed

definition turn_post :: "'w io \<Rightarrow> 'w session \<Rightarrow> string option \<Rightarrow> 'w session \<Rightarrow> bool" where
  "turn_post io s r s' =
     (clean s' \<and> only_rows (set_option r) (s_committed s) (s_committed s') \<and> r = claim_spec (s_committed s)
      \<and> (\<exists>ws. s_log s' = s_log s @ ws
           \<and> written_with (\<lambda>d. case r of Some oid \<Rightarrow> durable_intent oid d | None \<Rightarrow> False) (set_option r) (s_committed s) ws)
      \<and> (\<forall>oid. r = Some oid \<and> oid \<noteq> [] \<longrightarrow>
           (\<exists>row. the_operation oid (s_committed s') = Inr row \<and> terminal_state (op_state row) \<and> closed oid (s_committed s')
              \<and> (op_state row = ''succeeded'' \<longrightarrow> verified io row))))"

lemma writer_turn_post:
  assumes "clean s"
  shows "\<exists>r s'. writer_turn en io pilot s = (Inr r, s') \<and> turn_post io s r s'"
proof -
  obtain r s1 where c: "claim_next_operation None 60 s = (Inr r, s1)" "claim_post s r s1"
    using claim_next_post [OF assms] by blast
  show ?thesis
  proof (cases "r = None \<or> r = Some []")
    case True
    then have "writer_turn en io pilot s = (Inr r, s1)" using c(1) by (auto simp: writer_turn_def bnd_def ret_def)
    moreover have "turn_post io s r s1" using c(2) True by (auto simp: turn_post_def claim_post_def)
    ultimately show ?thesis by blast
  next
    case False
    then obtain oid where oid: "r = Some oid" "oid \<noteq> []" by (cases r) auto
    let ?x = "run_ctx io oid s1"
    have s1: "clean s1" "op_at oid {''claimed''} (\<lambda>_. True) (s_committed s1)" "only_rows {oid} (s_committed s) (s_committed s1)"
        "s_log s1 = s_log s" "r = claim_spec (s_committed s)"
      using c(2) oid(1) by (auto simp: claim_post_def)
    have "\<exists>s' row. try_except any_exception (bnd (process en io pilot oid) (\<lambda>_. ret ()))
        (\<lambda>e. thn rollback (fail_operation oid (exn_text e))) s1 = (Inr (), s') \<and> finished ?x row s'"
    proof (cases "process en io pilot oid s1")
      case (Pair res s2)
      show ?thesis
      proof (cases res)
        case (Inl e)
        then have "recoverable ?x s2" using wpE [OF process_wp [OF s1(1,2)]] Pair by blast
        from fail_after_rollback [OF this] Pair Inl show ?thesis
          by (auto simp: try_except_def bnd_def any_exception_def)
      next
        case (Inr row)
        then have "finished ?x row s2" using wpD [OF process_wp [OF s1(1,2)]] Pair by blast
        with Pair Inr show ?thesis by (auto simp: try_except_def bnd_def ret_def)
      qed
    qed
    then obtain s' row where p: "try_except any_exception (bnd (process en io pilot oid) (\<lambda>_. ret ()))
        (\<lambda>e. thn rollback (fail_operation oid (exn_text e))) s1 = (Inr (), s')" "finished ?x row s'" by blast
    have "writer_turn en io pilot s = (Inr r, s')"
      using c(1) oid p(1) by (simp add: writer_turn_def bnd_def [of "claim_next_operation None 60"]) (simp add: thn_def bnd_def ret_def)
    moreover have "turn_post io s r s'"
    proof -
      obtain ws where ws: "s_log s' = s_log s @ ws" "written_with (durable_intent oid) {oid} (s_committed s1) ws"
        using p(2) s1(4) by (auto simp: finished_def committed_ok_def kept_log_def)
      then have "written_with (durable_intent oid) {oid} (s_committed s) ws"
        by (intro written_with_mono [OF ws(2)]) (simp_all add: s1(3))
      then show ?thesis
        using p(2) s1(1-4) s1(5) [symmetric] oid ws(1) only_rows_trans [OF s1(3)]
        by (auto simp: turn_post_def finished_def clean_def committed_ok_def)
    qed
    ultimately show ?thesis by blast
  qed
qed

text \<open>
  Claim C19. A turn of the writer never dies and never leaves a mess: from consistent tables it always returns, whatever the command line,
  the files and the evidence do; the operation it took (every exception of processing included) is then terminal
  with its event closed and its lock released, it is reported succeeded only when the read-back matched its target, every library
  write of the turn was preceded by the durable intent of that operation, and the committed tables are consistent again.
\<close>

theorem writer_turn_total:
  assumes "clean s"
  shows "\<exists>r s'. writer_turn en io pilot s = (Inr r, s') \<and> clean s' \<and> only_rows (set_option r) (s_committed s) (s_committed s')
    \<and> r = claim_spec (s_committed s)
    \<and> (\<exists>ws. s_log s' = s_log s @ ws
         \<and> written_with (\<lambda>d. case r of Some oid \<Rightarrow> durable_intent oid d | None \<Rightarrow> False) (set_option r) (s_committed s) ws)
    \<and> (\<forall>oid. r = Some oid \<and> oid \<noteq> [] \<longrightarrow>
         (\<exists>row. the_operation oid (s_committed s') = Inr row \<and> terminal_state (op_state row) \<and> closed oid (s_committed s')
            \<and> (op_state row = ''succeeded'' \<longrightarrow> verified io row)))"
  using writer_turn_post [OF assms] unfolding turn_post_def by blast

theorem writer_turn_total_witness:
  "\<exists>s' row. writer_turn demo_env demo_io None (demo_session queued_db) = (Inr (Some ''op1''), s')
     \<and> the_operation ''op1'' (s_committed s') = Inr row \<and> terminal_state (op_state row)"
proof -
  obtain r s' where "writer_turn demo_env demo_io None (demo_session queued_db) = (Inr r, s')"
      "r = claim_spec (s_committed (demo_session queued_db))"
      "\<forall>oid. r = Some oid \<and> oid \<noteq> [] \<longrightarrow> (\<exists>row. the_operation oid (s_committed s') = Inr row \<and> terminal_state (op_state row))"
    using writer_turn_total [OF queued_ready, of demo_env demo_io None] by blast
  then show ?thesis using queued_claim_spec by auto
qed

end
