(* ===== verification/ReconcileLaws.thy ===== *)
theory ReconcileLaws
  imports Claiming
begin

text \<open>
  What crash reconciliation guarantees: it always returns, whatever the library answers, and every operation a dead
  writer left in flight ends in a terminal state with its event closed and its lock released.
\<close>

section \<open>Steps on an operation in flight\<close>

abbreviation "flight_states \<equiv> {''writing'', ''verifying'', ''restoring''}"
abbreviation "ended_states \<equiv> {''succeeded'', ''restored'', ''restore_failed'', ''unknown''}"

definition ended :: "wctx \<Rightarrow> 'w session \<Rightarrow> bool" where
  "ended x s = (\<exists>C. inv_at x ended_states (\<lambda>_. True) (closed (wx_oid x)) C s)"

lemma endedI:
  "inv_at x S R (closed (wx_oid x)) C s \<Longrightarrow> S \<subseteq> ended_states \<Longrightarrow> ended x s"
  unfolding ended_def by (blast intro: inv_at_mono [where R' = "\<lambda>_. True"])

lemma inv_at_state:
  assumes "inv_at x S R D C s" "the_operation (wx_oid x) (s_db s) = Inr r"
  shows "inv_at x {op_state r} R D C s"
  using assms by (auto simp: inv_at_def op_at_def)

lemma wp_to_restoring:
  fixes s :: "'w session"
  assumes "inv_at x flight_states R D C s" "row_stable R" "tab_stable D"
    and "\<And>s'. inv_at x {''restoring''} R D C s' \<Longrightarrow> Q () s'"
  shows "wp (to_restoring (wx_oid x)) Q E s"
  unfolding to_restoring_def wp_bnd
proof (rule wp_get_operation [OF assms(1) refl], goal_cases)
  case (1 r)
  note i = inv_at_state [OF assms(1) 1(1)]
  show ?case
  proof (cases "op_state r \<in> {''writing'', ''verifying''}")
    case True
    show ?thesis unfolding wp_if if_P [OF True]
      by (rule wp_transition [OF i refl _ _ assms(2,3)]) (use True in \<open>auto simp: state_simps intro: assms(4)\<close>)
  next
    case False
    with 1(2) have "op_state r = ''restoring''" by auto
    with i False show ?thesis by (simp add: wp_ret assms(4))
  qed
qed

lemma wp_mark_unknown:
  fixes s :: "'w session"
  assumes "inv_at x flight_states R D C s" "row_stable R" "tab_stable D"
    and "\<And>s'. inv_at x {''unknown'', ''restore_failed''} R D C s' \<Longrightarrow> Q () s'"
  shows "wp (mark_unknown (wx_oid x) e) Q E s"
  unfolding mark_unknown_def wp_bnd
proof (rule wp_get_operation [OF assms(1) refl], goal_cases)
  case (1 r)
  note i = inv_at_state [OF assms(1) 1(1)]
  have Q: "Q () s'" if "inv_at x {n} R D C s'" "n \<in> {''unknown'', ''restore_failed''}" for n and s' :: "'w session"
    by (rule assms(4), rule inv_at_mono [OF that(1)]) (use that(2) in auto)
  show ?case
  proof (cases "op_state r \<in> {''writing'', ''verifying''}")
    case True
    show ?thesis unfolding wp_if if_P [OF True]
      by (rule wp_transition [OF i refl _ _ assms(2,3)]) (use True in \<open>auto simp: state_simps intro: Q\<close>)
  next
    case False
    with 1(2) have r: "op_state r = ''restoring''" by auto
    show ?thesis unfolding wp_if if_not_P [OF False] if_P [OF r]
      by (rule wp_transition [OF i refl _ _ assms(2,3)]) (use r in \<open>auto simp: state_simps intro: Q\<close>)
  qed
qed

lemma wp_optional_change_status:
  fixes s :: "'w session"
  assumes "inv_at x S R D C s" "tab_stable D" "\<And>s'. inv_at x S R D C s' \<Longrightarrow> Q () s'"
  shows "wp (set_optional_change_status c v) Q E s"
  by (cases c) (simp_all add: set_optional_change_status_def wp_ret assms(3) assms(1) wp_set_change_status [OF assms(1,2)])

lemma wp_optional_status:
  fixes s :: "'w session"
  assumes "inv_at x S R D C s" "tab_stable D" "\<And>s'. inv_at x S R D C s' \<Longrightarrow> Q () s'"
  shows "wp (set_optional_status b v) Q E s"
  by (cases b) (simp_all add: set_optional_status_def wp_ret assms(3) assms(1) wp_set_status [OF assms(1,2)])

lemma wp_finish_failed:
  fixes s :: "'w session"
  assumes "inv_at x S R D C s" "\<And>a. a \<in> S \<Longrightarrow> \<not> active_state a"
    and "\<And>s'. inv_at x S R (closed (wx_oid x)) C s' \<Longrightarrow> Q () s'"
  shows "wp (finish_failed (wx_oid x)) Q E s"
  unfolding finish_failed_def operation_error_def wp_bnd
  by (rule wp_get_operation [OF assms(1) refl], unfold wp_ret, rule wp_finish_outbox [OF assms(1) refl assms(2)])
    (simp_all add: assms(3))

text \<open>Giving up on an operation in flight: mark it, flag the book, close the event.\<close>

lemma wp_give_up:
  fixes s :: "'w session"
  assumes "inv_at x flight_states R any_tab C s" "row_stable R" "\<And>s'. ended x s' \<Longrightarrow> Q () s'"
  shows "wp (mark_unknown (wx_oid x) e) (\<lambda>_. wp (set_status k v) (\<lambda>_. wp (finish_failed (wx_oid x)) Q E1) E2) E3 s"
    "wp (mark_unknown (wx_oid x) e) (\<lambda>_. wp (set_status k v) (\<lambda>_. wp (finish_outbox (wx_oid x) ''failed'' e') Q E1) E2) E3 s"
    "wp (mark_unknown (wx_oid x) e) (\<lambda>_. wp (set_status k v) (\<lambda>_. wp (set_optional_change_status c v')
       (\<lambda>_. wp (finish_outbox (wx_oid x) ''failed'' e') Q E1) E2) E3) E4 s"
proof -
  have Q: "Q () s'" if "inv_at x {''unknown'', ''restore_failed''} R (closed (wx_oid x)) C s'" for s' :: "'w session"
    by (rule assms(3), rule endedI [OF that]) simp
  note start = wp_mark_unknown [OF assms(1,2) tab_stables(1)] and mark = wp_set_status [OF _ tab_stables(1)]
  show "wp (mark_unknown (wx_oid x) e) (\<lambda>_. wp (set_status k v) (\<lambda>_. wp (finish_failed (wx_oid x)) Q E1) E2) E3 s"
    by (rule start, erule mark, erule wp_finish_failed) (auto simp: state_simps intro: Q)
  show "wp (mark_unknown (wx_oid x) e) (\<lambda>_. wp (set_status k v) (\<lambda>_. wp (finish_outbox (wx_oid x) ''failed'' e') Q E1) E2) E3 s"
    by (rule start, erule mark, erule wp_finish_outbox [OF _ refl]) (auto simp: state_simps intro: Q)
  show "wp (mark_unknown (wx_oid x) e) (\<lambda>_. wp (set_status k v) (\<lambda>_. wp (set_optional_change_status c v')
       (\<lambda>_. wp (finish_outbox (wx_oid x) ''failed'' e') Q E1) E2) E3) E4 s"
    by (rule start, erule mark, erule wp_optional_change_status [OF _ tab_stables(1)], erule wp_finish_outbox [OF _ refl])
      (auto simp: state_simps intro: Q)
qed

section \<open>Interrupted metadata writes\<close>

lemma inv_flight: "inv_at x {a} R D C s \<Longrightarrow> a \<in> flight_states \<Longrightarrow> inv_at x flight_states R D C s"
  by (erule inv_at_mono) auto

lemma wp_settle_partial:
  fixes s :: "'w session"
  assumes "inv_at x flight_states R any_tab C s" "row_stable R" "\<And>d. C d \<Longrightarrow> wx_intent x d"
    and "\<And>s'. ended x s' \<Longrightarrow> Q () s'" "\<And>e s'. inv_at x flight_states R any_tab C s' \<Longrightarrow> E e s'"
  shows "wp (settle_partial io root (wx_oid x) k b change before) Q E s"
proof (cases change)
  case None
  show ?thesis unfolding settle_partial_def None option.case wp_thn
    by (rule wp_give_up(1) [OF assms(1,2)]) (rule assms(4))
next
  case (Some c)
  have E: "E e s'" if "inv_at x {''restoring''} R any_tab C s'" for e s'
    by (rule assms(5), rule inv_flight [OF that]) simp
  have Q: "Q () s'" if "inv_at x restore_ends R (closed (wx_oid x)) C s'" for s' :: "'w session"
    by (rule assms(4), rule endedI [OF that]) simp
  show ?thesis unfolding settle_partial_def Some option.case wp_thn wp_bnd
  proof (rule wp_to_restoring [OF assms(1,2) tab_stables(1)], erule wp_external [OF external_restores(2) _ assms(3)], assumption,
      erule wp_quiet [OF quiet_parts(1)], erule wp_quiet [OF quiet_parts(2)], goal_cases)
    case (1 s1 s2 s3 s4 ok s5)
    then show ?case
      by (cases ok) (simp_all add: wp_thn_fun wp_end_restore [OF 1 assms(2) tab_stables(1)] Q)
  qed (rule E, assumption)+
qed

lemma wp_settle_write:
  fixes s :: "'w session"
  assumes "inv_at x flight_states (\<lambda>r. planned r \<and> op_observed_metadata r = Some seen) any_tab C s" "\<And>d. C d \<Longrightarrow> wx_intent x d"
    and "\<And>r. verified io r \<Longrightarrow> wx_verified x r"
    and "\<And>s'. ended x s' \<Longrightarrow> Q () s'" "\<And>e s'. inv_at x flight_states (\<lambda>_. True) any_tab C s' \<Longrightarrow> E e s'"
  shows "wp (settle_write io root (wx_oid x) k b change before seen) Q E s"
  unfolding settle_write_def wp_bnd
proof (rule wp_get_operation [OF assms(1) refl], goal_cases)
  case (1 r)
  then obtain t where t: "op_target_metadata r = Some t" by (auto simp: planned_def)
  let ?R = "\<lambda>r. op_observed_metadata r = Some seen \<and> op_target_metadata r = Some t"
  have st: "row_stable ?R" by (simp add: row_stable_def)
  have a: "op_state r \<in> flight_states" using 1(2) .
  have i: "inv_at x {op_state r} ?R any_tab C s"
    by (rule inv_at_mono [OF inv_at_know [OF inv_at_state [OF assms(1) 1(1)] 1(1), of "\<lambda>r. op_target_metadata r = Some t", OF t]]) auto
  have E: "E e s'" if "inv_at x S ?R any_tab C s'" "S \<subseteq> flight_states" for e S s'
    by (rule assms(5), rule inv_at_mono [OF that(1) that(2)]) simp_all
  have Q: "Q () s'" if "inv_at x S R (closed (wx_oid x)) C s'" "S \<subseteq> ended_states" for S R and s' :: "'w session"
    by (rule assms(4), rule endedI [OF that])
  have succeed: "wp (transition (wx_oid x) ''succeeded'' None) (\<lambda>_. wp (set_optional_change_status change ''applied'')
      (\<lambda>_. wp (set_status k ''applied'') (\<lambda>_. wp (finish_outbox (wx_oid x) ''published'' None) Q E1) E2) E3) E4 s'"
    if "inv_at x {''verifying''} (verified io) any_tab C s'" for E1 E2 E3 E4 and s' :: "'w session"
    by (rule wp_transition [OF that refl _ _ row_stables(5) tab_stables(1)])
      (auto simp: state_simps assms(3) intro!: wp_optional_change_status [OF _ tab_stables(1)] wp_close [OF _ tab_stables(1)] Q)
  have at_target: "wp (if op_state r = ''writing'' then transition (wx_oid x) ''verifying'' None else ret ())
     (\<lambda>_. wp (if op_state r \<in> {''writing'', ''verifying''}
        then thn (transition (wx_oid x) ''succeeded'' None)
               (thn (set_optional_change_status change ''applied'')
               (thn (set_status k ''applied'') (finish_outbox (wx_oid x) ''published'' None)))
        else thn (mark_unknown (wx_oid x) ''target observed during restore'')
               (thn (set_status k ''error'') (finish_failed (wx_oid x)))) Q E) E s'"
    if "inv_at x {op_state r} ?R any_tab C s'" "matches_items io seen t w = Inr True" for w and s' :: "'w session"
  proof -
    have v: "inv_at x {op_state r} (verified io) any_tab C s'"
      by (rule inv_at_mono [OF that(1)]) (use that(2) in \<open>auto simp: verified_def\<close>)
    consider "op_state r = ''writing''" | "op_state r = ''verifying''" | "op_state r = ''restoring''" using a by auto
    then show ?thesis
    proof cases
      case 1
      have "inv_at x {''writing''} (verified io) any_tab C s'" using v 1 by simp
      then show ?thesis unfolding if_P [OF 1]
        by (rule wp_transition [OF _ refl _ _ row_stables(5) tab_stables(1)]) (auto simp: 1 state_simps wp_thn_fun intro: succeed)
    next
      case 2
      then show ?thesis using succeed v by (simp add: wp_ret wp_thn_fun)
    next
      case 3
      then show ?thesis using wp_give_up(1) [where Q = Q, OF inv_flight [OF that(1) a] st] assms(4) by (simp add: wp_ret wp_thn_fun)
    qed
  qed
  have at_before: "wp (to_restoring (wx_oid x)) (\<lambda>_. wp (transition (wx_oid x) ''restored'' None)
      (\<lambda>_. wp (set_optional_change_status change v) (\<lambda>_. wp (set_status k v') (\<lambda>_. wp (finish_outbox (wx_oid x) ''failed'' e') Q E1) E2) E3) E4) E5 s'"
    if "inv_at x {op_state r} ?R any_tab C s'" for v v' e' E1 E2 E3 E4 E5 and s' :: "'w session"
    by (rule wp_to_restoring [OF inv_flight [OF that a] st tab_stables(1)],
        erule wp_transition [OF _ refl _ _ st tab_stables(1)])
      (auto simp: state_simps intro!: wp_optional_change_status [OF _ tab_stables(1)] wp_close [OF _ tab_stables(1)] Q)
  have partial: "wp (settle_partial io root (wx_oid x) k b change before) Q E s'" if "inv_at x {op_state r} ?R any_tab C s'" for s'
    by (rule wp_settle_partial [OF inv_flight [OF that a] st assms(2)]) (auto intro: assms(4) E)
  show ?case unfolding t option.case
  proof (rule wp_matches [OF i], goal_cases)
    case (1 at_t s1)
    show ?case
    proof (cases at_t)
      case True
      then show ?thesis using at_target 1 by (auto simp: wp_thn_fun)
    next
      case False
      show ?thesis unfolding if_not_P [OF False] wp_bnd
      proof (rule wp_quiet [OF quiet_parts(2) 1(1)], goal_cases)
        case (1 at_b s2)
        then show ?case using at_before [OF 1] partial [OF 1] by (simp add: wp_thn_fun)
      qed (rule E, assumption, use a in auto)
    qed
  qed (rule E, assumption, use a in auto)
qed

lemma wp_snapshot_changed:
  fixes s :: "'w session"
  assumes "inv_at x flight_states R any_tab C s" "row_stable R" "\<And>d. C d \<Longrightarrow> wx_intent x d"
    and "\<And>s'. ended x s' \<Longrightarrow> Q () s'" "\<And>e s'. inv_at x flight_states R any_tab C s' \<Longrightarrow> E e s'"
  shows "wp (snapshot_changed io root (wx_oid x) k b change before e) Q E s"
proof -
  have close: "wp (set_status k ''error'') (\<lambda>_. wp (finish_failed (wx_oid x)) (\<lambda>_. wp commit Q E) E) E s'"
    if "inv_at x S R any_tab C s'" "S \<subseteq> ended_states" for S and s' :: "'w session"
    by (rule wp_set_status [OF that(1) tab_stables(1)], erule wp_finish_failed)
      (use that(2) in \<open>auto simp: state_simps intro!: wp_commit assms(4) elim!: endedI\<close>)
  have E: "E e s'" if "inv_at x {''restoring''} R any_tab C s'" for e s'
    by (rule assms(5), rule inv_flight [OF that]) simp
  show ?thesis
  proof (cases change)
    case None
    show ?thesis unfolding snapshot_changed_def Let_def None option.case wp_thn
      by (rule wp_mark_unknown [OF assms(1,2) tab_stables(1)], erule close, simp)
  next
    case (Some c)
    have ended: "wp (transition (wx_oid x) ''restored'' m) (\<lambda>_. wp (set_change_status (ch_id c) v)
        (\<lambda>_. wp (set_status k ''error'') (\<lambda>_. wp (finish_failed (wx_oid x)) (\<lambda>_. wp commit Q E) E) E) E) E s'"
      if "inv_at x {''restoring''} R any_tab C s'" for m v and s' :: "'w session"
      by (rule wp_transition [OF that refl _ _ assms(2) tab_stables(1)])
        (auto simp: state_simps intro!: wp_set_change_status [OF _ tab_stables(1)] close)
    show ?thesis unfolding snapshot_changed_def Let_def Some option.case wp_thn
      by (rule wp_to_restoring [OF assms(1,2) tab_stables(1)], erule wp_external [OF external_restore_and_check _ assms(3)], assumption)
        (erule ended, erule E)
  qed
qed

lemma wp_settle_apply:
  fixes s :: "'w session"
  assumes "inv_at x flight_states planned any_tab C s" "\<And>d. C d \<Longrightarrow> wx_intent x d"
    and "\<And>r. verified io r \<Longrightarrow> wx_verified x r"
    and "\<And>s'. ended x s' \<Longrightarrow> Q () s'" "\<And>e s'. inv_at x flight_states (\<lambda>_. True) any_tab C s' \<Longrightarrow> E e s'"
  shows "wp (settle_apply en io root (wx_oid x) operation b change before) Q E s"
  unfolding settle_apply_def Let_def wp_bnd wp_thn
proof (rule wp_quiet [OF quiet_parts(1) assms(1)], goal_cases)
  case (1 seen s1)
  let ?R = "\<lambda>r. planned r \<and> op_observed_metadata r = Some seen"
  have st: "row_stable ?R" by (simp add: row_stable_def planned_def)
  have E: "E e s'" if "inv_at x flight_states ?R any_tab C s'" for e s'
    by (rule assms(5), rule inv_at_mono [OF that]) simp_all
  have settle: "wp (settle_write io root (wx_oid x) k b change before seen) Q E s'" if "inv_at x flight_states ?R any_tab C s'" for k s'
    by (rule wp_settle_write [OF that assms(2,3)]) (auto intro: assms(4,5))
  have changed: "if is_os_or_value_error e then wp (snapshot_changed io root (wx_oid x) k b change before e) Q E s' else E e s'"
    if "inv_at x flight_states ?R any_tab C s'" for e k s'
    using wp_snapshot_changed [OF that st assms(2), where Q = Q and E = E] assms(4) E E [OF that] by simp
  have align: "wp (align_verified_calibre_paths (wx_oid x) seen) (\<lambda>_. wp (settle_write io root (wx_oid x) k b change before seen) Q E) E' s'"
    if "inv_at x flight_states ?R any_tab C s'" for k E' s'
    by (rule wp_align [OF that tab_stables(1)]) (auto simp: planned_def intro!: settle)
  show ?case
  proof (rule wp_upd_operation [OF 1 refl tab_stables(1), where R' = ?R], goal_cases)
    case (4 s2)
    show ?case
    proof (cases "op_policy_version operation = ''manifestation-v2''")
      case True
      show ?thesis unfolding if_P [OF True] wp_try_else wp_thn
        by (rule wp_quiet [OF quiet_verify_live 4], erule align, erule changed)
    qed (simp add: settle [OF 4])
  qed (auto simp: request_of_def planned_def)
next
  case (2 e s1)
  then show ?case by (intro assms(5)) (erule inv_at_mono [OF _ subset_refl], simp_all)
qed

definition rec_ctx :: "'w io \<Rightarrow> string \<Rightarrow> 'w session \<Rightarrow> wctx" where
  "rec_ctx io oid s = (run_ctx io oid s)\<lparr>wx_intent := op_at oid flight_states planned\<rparr>"

lemma rec_ctx_simps [simp]:
  "wx_oid (rec_ctx io oid s) = oid" "wx_db (rec_ctx io oid s) = s_committed s" "wx_log (rec_ctx io oid s) = s_log s"
  "wx_intent (rec_ctx io oid s) = op_at oid flight_states planned" "wx_verified (rec_ctx io oid s) = verified io"
  by (simp_all add: rec_ctx_def)

text \<open>The session in which the reconciliation of one operation starts.\<close>

definition starts_at :: "wctx \<Rightarrow> operation \<Rightarrow> 'w session \<Rightarrow> bool" where
  "starts_at x operation s =
     (inv_at x flight_states (\<lambda>r. r = operation) any_tab (\<lambda>d. the_operation (wx_oid x) d = Inr operation) s
      \<and> op_state operation \<in> flight_states \<and> wx_intent x = op_at (wx_oid x) flight_states planned)"

lemma starts_atD:
  assumes "starts_at x operation s"
  shows "inv_at x flight_states (\<lambda>_. True) any_tab (\<lambda>d. the_operation (wx_oid x) d = Inr operation) s"
    and "planned operation \<Longrightarrow> inv_at x flight_states planned any_tab (\<lambda>d. the_operation (wx_oid x) d = Inr operation) s"
    and "planned operation \<Longrightarrow> the_operation (wx_oid x) d = Inr operation \<Longrightarrow> wx_intent x d"
  using assms inv_at_mono [of x flight_states "\<lambda>r. r = operation" any_tab _ s flight_states "\<lambda>_. True" any_tab]
    inv_at_mono [of x flight_states "\<lambda>r. r = operation" any_tab _ s flight_states planned any_tab]
  by (auto simp: starts_at_def op_at_def)

lemma wp_insufficient:
  fixes s :: "'w session"
  assumes "inv_at x flight_states (\<lambda>_. True) any_tab C s"
  shows "wp (insufficient_apply (wx_oid x) book) (\<lambda>_. ended x) E s" "wp (insufficient_undo (wx_oid x) book) (\<lambda>_. ended x) E s"
proof -
  note start = wp_mark_unknown [OF assms row_stables(1) tab_stables(1)]
  show "wp (insufficient_apply (wx_oid x) book) (\<lambda>_. ended x) E s"
    unfolding insufficient_apply_def wp_thn
    by (rule start, erule wp_finish_failed, simp add: state_simps, erule disjE, simp_all,
        erule wp_optional_status [OF _ tab_stables(2)], erule endedI, simp)
  show "wp (insufficient_undo (wx_oid x) book) (\<lambda>_. ended x) E s"
    unfolding insufficient_undo_def wp_thn
    by (rule start, erule wp_optional_status [OF _ tab_stables(1)], erule wp_finish_failed, simp add: state_simps, erule disjE, simp_all,
        erule endedI, simp)
qed

lemma wp_reconcile_apply:
  fixes s :: "'w session"
  assumes "starts_at x operation s" "\<And>r. verified io r \<Longrightarrow> wx_verified x r"
  shows "wp (reconcile_apply en io root (wx_oid x) operation) (\<lambda>_. ended x) E s"
proof -
  note st = starts_atD [OF assms(1)]
  have un: "\<not> s_broken s" using inv_not_broken [OF st(1)] .
  have attempt: "wp (try_except any_exception (settle_apply en io root (wx_oid x) operation b change before)
             (\<lambda>e. thn (mark_unknown (wx_oid x) (exn_text e))
                    (thn (set_status (op_book_key operation) ''error'')
                    (thn (set_optional_change_status change ''failed_rollback_failed'')
                    (finish_outbox (wx_oid x) ''failed'' (Some (exn_text e))))))) (\<lambda>_. ended x) E s" if "planned operation" for b change before
    unfolding wp_try_except any_exception_def if_True wp_thn
    by (rule wp_settle_apply [OF st(2) [OF that] st(3) [OF that] assms(2)], assumption+)
      (erule wp_give_up(3) [OF _ row_stables(1)], assumption)
  show ?thesis
    unfolding reconcile_apply_def wp_bnd wp_query if_not_P [OF un]
    by (auto simp: planned_def wp_insufficient [OF st(1)] intro!: attempt split: option.split)
qed

section \<open>Interrupted undo operations\<close>

lemma wp_bnd_fun: "wp (bnd m f) Q E = wp m (\<lambda>v. wp (f v) Q E) E"
  by (rule ext) (rule wp_bnd)

lemma wp_settle_undo:
  fixes s :: "'w session"
  assumes "inv_at x flight_states (\<lambda>r. r = operation) any_tab C s" "op_target_metadata operation = Some target"
    and "op_state operation \<in> flight_states" "\<And>d. C d \<Longrightarrow> wx_intent x d" "\<And>r. verified io r \<Longrightarrow> wx_verified x r"
    and "\<And>s'. ended x s' \<Longrightarrow> Q () s'" "\<And>e s'. inv_at x flight_states (\<lambda>_. True) any_tab C s' \<Longrightarrow> E e s'"
  shows "wp (settle_undo io root (wx_oid x) operation k b c before target) Q E s"
proof -
  let ?a = "op_state operation"
  have i: "inv_at x {?a} (\<lambda>r. r = operation) any_tab C s"
    using assms(1) by (auto simp: inv_at_def op_at_def row_ok_def split: sum.splits)
  have E: "E e s'" if "inv_at x S R any_tab C s'" "S \<subseteq> flight_states" for e S R s'
    by (rule assms(7), rule inv_at_mono [OF that(1,2)]) simp_all
  have Q: "Q () s'" if "inv_at x S R (closed (wx_oid x)) C s'" "S \<subseteq> ended_states" for S R and s' :: "'w session"
    by (rule assms(6), rule endedI [OF that])
  have ended: "wp (transition (wx_oid x) ''restored'' None) (\<lambda>_. wp (set_status k v) (\<lambda>_. wp (finish_outbox (wx_oid x) ''failed'' e') Q E1) E2) E3 s'"
    if "inv_at x {''restoring''} R any_tab C s'" "row_stable R" for v e' E1 E2 E3 R and s' :: "'w session"
    by (rule wp_transition [OF that(1) refl _ _ that(2) tab_stables(1)])
      (auto simp: state_simps intro!: wp_close [OF _ tab_stables(1)] Q)
  have succeed: "wp (transition (wx_oid x) ''succeeded'' None) (\<lambda>_. wp (set_change_status cid v)
      (\<lambda>_. wp (set_status k v') (\<lambda>_. wp (finish_outbox (wx_oid x) ''published'' None) Q E1) E2) E3) E4 s'"
    if "inv_at x {''verifying''} (verified io) any_tab C s'" for cid v v' E1 E2 E3 E4 and s' :: "'w session"
    by (rule wp_transition [OF that refl _ _ row_stables(5) tab_stables(1)])
      (auto simp: state_simps assms(5) intro!: wp_set_change_status [OF _ tab_stables(1)] wp_close [OF _ tab_stables(1)] Q)
  show ?thesis
    unfolding settle_undo_def wp_bnd wp_thn
  proof (rule wp_quiet [OF quiet_parts(1) i], goal_cases)
    case (1 seen s1)
    let ?R = "\<lambda>r. op_observed_metadata r = Some seen \<and> op_target_metadata r = Some target"
    have st: "row_stable ?R" by (simp add: row_stable_def)
    have at_target: "wp (if ?a = ''writing'' then transition (wx_oid x) ''verifying'' None else ret ())
        (\<lambda>_. wp (if ?a \<in> {''writing'', ''verifying''}
         then thn (transition (wx_oid x) ''succeeded'' None)
                (thn (set_change_status (ch_id c) ''undone'')
                (thn (set_status k ''suggest_fix'') (finish_outbox (wx_oid x) ''published'' None)))
         else raise (RuntimeError ''undo target observed while restore was in progress'')) Q E) E s'"
      if "inv_at x {?a} ?R any_tab C s'" "matches_items io seen target w = Inr True" for w and s' :: "'w session"
    proof -
      have v: "inv_at x {?a} (verified io) any_tab C s'"
        by (rule inv_at_mono [OF that(1)]) (use that(2) in \<open>auto simp: verified_def\<close>)
      consider "?a = ''writing''" | "?a = ''verifying''" | "?a = ''restoring''" using assms(3) by auto
      then show ?thesis
      proof cases
        case 1
        have "inv_at x {''writing''} (verified io) any_tab C s'" using v 1 by simp
        then show ?thesis unfolding if_P [OF 1]
          by (rule wp_transition [OF _ refl _ _ row_stables(5) tab_stables(1)]) (auto simp: 1 state_simps wp_thn_fun intro: succeed)
      next
        case 2
        then show ?thesis using succeed v by (simp add: wp_ret wp_thn_fun)
      next
        case 3
        then show ?thesis using E [OF v] by (simp add: wp_ret wp_raise)
      qed
    qed
    have undoing: "wp (to_restoring (wx_oid x)) (\<lambda>_. wp (if op_rollback_opf_path operation = None
                then raise (RuntimeError ''undo rollback artifact is unavailable'') else ret ())
        (\<lambda>_. wp (restore_operation_rollback io root b operation) (\<lambda>_. wp (show_metadata io b) (\<lambda>restored.
          wp (matches_patch io restored before) (\<lambda>ok. wp (if \<not> ok then raise (RuntimeError ''undo rollback verification failed'')
           else thn (transition (wx_oid x) ''restored'' None)
             (thn (set_status k ''applied'') (finish_outbox (wx_oid x) ''failed'' (Some ''partial undo restored'')))) Q E) E) E) E) E) E s'"
      if "inv_at x {?a} ?R any_tab C s'" for s' :: "'w session"
    proof (rule wp_to_restoring [OF inv_flight [OF that assms(3)] st tab_stables(1)], goal_cases)
      case (1 s2)
      have "wp (restore_operation_rollback io root b operation) (\<lambda>_. wp (show_metadata io b) (\<lambda>restored.
          wp (matches_patch io restored before) (\<lambda>ok. wp (if \<not> ok then raise (RuntimeError ''undo rollback verification failed'')
           else thn (transition (wx_oid x) ''restored'' None)
             (thn (set_status k ''applied'') (finish_outbox (wx_oid x) ''failed'' (Some ''partial undo restored'')))) Q E) E) E) E s2"
        by (rule wp_external [OF external_restores(3) 1 assms(4)], assumption, erule wp_quiet [OF quiet_parts(1)],
            erule wp_quiet [OF quiet_parts(2)]) (auto simp: wp_raise wp_thn_fun intro: E ended [OF _ st])
      then show ?case using E [OF 1] by (simp add: wp_raise wp_ret)
    qed
    show ?case
    proof (rule wp_upd_operation [OF 1 refl tab_stables(1), where R' = ?R], goal_cases)
      case (4 s2)
      then show ?case
      proof (rule wp_matches, goal_cases)
        case (1 at_t s3)
        show ?case
        proof (cases at_t)
          case True
          then show ?thesis using at_target 1 by (auto simp: wp_thn_fun)
        next
          case False
          show ?thesis unfolding if_not_P [OF False] wp_bnd
          proof (rule wp_quiet [OF quiet_parts(2) 1(1)], goal_cases)
            case (1 at_b s4)
            have "wp (to_restoring (wx_oid x)) (\<lambda>_. wp (transition (wx_oid x) ''restored'' None)
                (\<lambda>_. wp (set_status k v) (\<lambda>_. wp (finish_outbox (wx_oid x) ''failed'' e') Q E) E) E) E s4" for v e'
              by (rule wp_to_restoring [OF inv_flight [OF 1 assms(3)] st tab_stables(1)], erule ended [OF _ st])
            then show ?case using undoing [OF 1] by (simp add: wp_thn_fun wp_bnd_fun)
          qed (rule E, assumption, use assms(3) in auto)
        qed
      qed (rule E, assumption, use assms(3) in auto)
    qed (use assms(2,3) in \<open>auto simp: request_of_def\<close>)
  qed (rule E, assumption, use assms(3) in auto)
qed

lemma wp_reconcile_undo:
  fixes s :: "'w session"
  assumes "starts_at x operation s" "\<And>r. verified io r \<Longrightarrow> wx_verified x r"
  shows "wp (reconcile_undo io root (wx_oid x) operation) (\<lambda>_. ended x) E s"
proof -
  note st = starts_atD [OF assms(1)]
  have un: "\<not> s_broken s" using inv_not_broken [OF st(1)] .
  have at: "inv_at x flight_states (\<lambda>r. r = operation) any_tab (\<lambda>d. the_operation (wx_oid x) d = Inr operation) s"
      "op_state operation \<in> flight_states" using assms(1) by (simp_all add: starts_at_def)
  have attempt: "wp (try_except any_exception (settle_undo io root (wx_oid x) operation (op_book_key operation) b c before target)
             (\<lambda>e. thn (mark_unknown (wx_oid x) (exn_text e))
                    (thn (set_status (op_book_key operation) ''error'') (finish_outbox (wx_oid x) ''failed'' (Some (exn_text e))))))
      (\<lambda>_. ended x) E s" if "planned operation" "op_target_metadata operation = Some target" for b c before target
    unfolding wp_try_except any_exception_def if_True wp_thn
    by (rule wp_settle_undo [OF at(1) that(2) at(2) st(3) [OF that(1)] assms(2)], assumption+)
      (erule wp_give_up(2) [OF _ row_stables(1)], assumption)
  show ?thesis
    unfolding reconcile_undo_def wp_bnd wp_query if_not_P [OF un]
    by (auto simp: planned_def wp_insufficient [OF st(1)] intro!: attempt split: option.split)
qed

section \<open>One operation\<close>

text \<open>What reconciling one operation leaves behind.\<close>

definition reconciled :: "'w io \<Rightarrow> string \<Rightarrow> 'w session \<Rightarrow> bool \<Rightarrow> 'w session \<Rightarrow> bool" where
  "reconciled io oid s b s' =
     (clean s' \<and> only_rows {oid} (s_committed s) (s_committed s')
      \<and> (\<exists>ws. s_log s' = s_log s @ ws \<and> written_with (op_at oid flight_states planned) {oid} (s_committed s) ws)
      \<and> op_at oid (if b then ended_states \<union> {''requested''} else {''claimed''}) (\<lambda>r. op_state r = ''succeeded'' \<longrightarrow> verified io r) (s_committed s'))"

lemma reconcile_flight:
  assumes "clean s" "the_operation oid (s_committed s) = Inr r" "op_state r \<in> flight_states"
  shows "\<exists>s'. reconcile_operation en io root oid s = (Inr True, s') \<and> reconciled io oid s True s'"
proof -
  let ?x = "rec_ctx io oid s"
  have un: "\<not> s_broken s" "s_db s = s_committed s" using assms(1) by (simp_all add: clean_def)
  have st: "starts_at ?x r s"
    using assms writer_ok_weaken [of "s_committed s"]
    by (auto simp: starts_at_def inv_at_def clean_def committed_ok_def kept_log_def any_tab_def op_at_def row_ok_def)
  have rec: "reconciled io oid s True s'"
    if i: "inv_at ?x ended_states (\<lambda>_. True) (closed oid) C s'" and c: "s_committed s' = s_db s'" for C s'
  proof -
    have "writer_ok {} (s_committed s')" "only_rows {oid} (s_committed s) (s_committed s')" "kept_log ?x s'"
      using i by (simp_all add: inv_at_def committed_ok_def)
    moreover obtain row where "the_operation oid (s_db s') = Inr row" "op_state row \<in> ended_states"
        "op_state row = ''succeeded'' \<Longrightarrow> verified io row"
      by (rule inv_atE [OF i]) auto
    ultimately show ?thesis
      using c inv_not_broken [OF i] by (simp add: reconciled_def clean_def kept_log_def op_at_def)
  qed
  let ?Q = "\<lambda>b s'. b \<and> reconciled io oid s True s'" and ?E = "\<lambda>_ _. False"
  have fin: "wp (thn commit (ret True)) ?Q ?E s'" if "ended ?x s'" for s'
  proof -
    from that obtain C where "inv_at ?x ended_states (\<lambda>_. True) (closed oid) C s'" by (auto simp: ended_def)
    then show ?thesis unfolding wp_thn by (rule wp_commit) (auto simp: wp_ret intro: rec)
  qed
  have "wp (reconcile_undo io root oid r) (\<lambda>_. ended ?x) ?E s" "wp (reconcile_apply en io root oid r) (\<lambda>_. ended ?x) ?E s"
    using wp_reconcile_undo [OF st, of io root ?E] wp_reconcile_apply [OF st, of io en root ?E] by simp_all
  then have "wp (thn (if op_operation_type r = ''undo_change'' then reconcile_undo io root oid r
       else reconcile_apply en io root oid r) (thn commit (ret True))) ?Q ?E s"
    unfolding wp_thn [of "if _ then _ else _"] by (auto intro: wp_mono [OF _ fin])
  moreover have "op_state r \<noteq> ''claimed''" using assms(3) by auto
  ultimately have "wp (reconcile_operation en io root oid) ?Q ?E s"
    using un assms(2) by (simp add: reconcile_operation_def get_operation_def wp_bnd wp_query_res)
  from wp_no_raise [OF this] show ?thesis by auto
qed

lemma same_data_reconciled:
  assumes "clean s" "op_at oid {''claimed''} (\<lambda>_. True) (s_committed s)"
  shows "reconciled io oid s False (s\<lparr>s_ticks := n\<rparr>)"
  using assms by (auto simp: reconciled_def clean_def op_at_def split: sum.splits)

lemma wp_commit_eq: "\<not> s_broken s \<Longrightarrow> wp commit Q E s = Q () (s\<lparr>s_committed := s_db s\<rparr>)"
  by (simp add: wp_def commit_def)

text \<open>Back to the queue: event pending again, lock and lease released, committed.\<close>

lemma wp_requeue:
  fixes s :: "'w session"
  assumes "inv_at x {''requested''} (\<lambda>r'. op_book_key r' = op_book_key r) any_tab C s"
    and f: "\<And>e. ob_aggregate_id (f e) = ob_aggregate_id e" "\<And>e. ob_event_id (f e) = ob_event_id e" "\<And>e. ob_id (f e) = ob_id e"
    and Q: "\<And>s'. clean s' \<Longrightarrow> committed_ok x s' \<Longrightarrow> op_at (wx_oid x) {''requested''} (\<lambda>_. True) (s_committed s') \<Longrightarrow> Q True s'"
  shows "wp (modify_db (upd_outbox (wx_oid x) f)) (\<lambda>_. wp (release_own_lock (wx_oid x) r)
     (\<lambda>_. wp (modify_db (upd_operation (wx_oid x) (\<lambda>r. r\<lparr>op_lease_owner := None, op_lease_expires_at := None\<rparr>)))
     (\<lambda>_. wp commit (\<lambda>_. wp (ret True) Q E) E) E) E) E s"
proof -
  let ?oid = "wx_oid x" and ?lease = "\<lambda>r. r\<lparr>op_lease_owner := None, op_lease_expires_at := None\<rparr>"
  obtain row where row: "the_operation ?oid (s_db s) = Inr row" "op_state row = ''requested''" "op_book_key row = op_book_key r"
      "writer_ok {?oid} (s_db s)" "op_wf row"
    by (rule inv_atE [OF assms(1)]) auto
  let ?d1 = "upd_outbox ?oid f (s_db s)"
  let ?d2 = "?d1\<lparr>db_locks := filter (\<lambda>l. \<not> (lk_book_key l = op_book_key r \<and> lk_operation_id l = ?oid)) (db_locks ?d1)\<rparr>"
  let ?d3 = "upd_operation ?oid ?lease ?d2"
  have ok1: "writer_ok {?oid} ?d1"
    by (rule iffD2 [OF writer_ok_cong row(4)]) (simp_all add: upd_outbox_def map_row_map_keeps f)
  have r1: "the_operation ?oid ?d1 = Inr row" using row(1) by (simp add: upd_outbox_def the_operation_def)
  have ok2: "writer_ok {} ?d2"
    using release_ok [OF ok1 r1] row(2,3) by (simp add: active_state_def)
  have r2: "the_operation ?oid ?d2 = Inr row" using r1 by (simp add: the_operation_def)
  have rq: "request_of (?lease row) = request_of row" "op_wf (?lease row)"
    using row(5) by (simp_all add: request_of_def op_wf_def)
  have ok3: "writer_ok {} ?d3"
    by (rule upd_operation_ok [of "{}" ?d2 ?oid row ?lease, OF ok2 r2 rq]) simp_all
  have r3: "the_operation ?oid ?d3 = Inr (?lease row)"
    by (rule the_operation_upd [OF r2]) (use the_operation_id [OF row(1)] in simp)
  have "only_rows {?oid} (s_db s) ?d2" by (simp add: only_rows_def same_requests_def upd_outbox_def)
  then have "only_rows {?oid} (s_db s) ?d3" using only_rows_upd [of ?oid ?d2 row ?lease, OF r2 rq(1)] by (rule only_rows_trans)
  then have o3: "only_rows {?oid} (wx_db x) ?d3" using assms(1) only_rows_trans unfolding inv_at_def by blast
  have "Q True (s\<lparr>s_db := ?d3, s_committed := ?d3\<rparr>)"
  proof (rule Q)
    show "clean (s\<lparr>s_db := ?d3, s_committed := ?d3\<rparr>)" using ok3 inv_not_broken [OF assms(1)] by (simp add: clean_def)
    show "committed_ok x (s\<lparr>s_db := ?d3, s_committed := ?d3\<rparr>)"
      using ok3 o3 assms(1) by (simp add: committed_ok_def inv_at_def kept_log_def)
    show "op_at ?oid {''requested''} (\<lambda>_. True) (s_committed (s\<lparr>s_db := ?d3, s_committed := ?d3\<rparr>))"
      using r3 row(2) by (simp add: op_at_def)
  qed
  then show ?thesis
    using inv_not_broken [OF assms(1)]
    by (simp add: wp_eqs release_own_lock_def wp_commit_eq)
qed

lemma reconcile_claim:
  assumes "clean s" "the_operation oid (s_committed s) = Inr r" "op_state r = ''claimed''"
  shows "\<exists>b s'. reconcile_operation en io root oid s = (Inr b, s') \<and> reconciled io oid s b s'"
proof -
  let ?x = "rec_ctx io oid s" and ?Q = "\<lambda>b s'. reconciled io oid s b s'" and ?E = "\<lambda>_ _. False"
  have un: "\<not> s_broken s" "s_db s = s_committed s" using assms(1) by (simp_all add: clean_def)
  have at: "op_at oid {''claimed''} (\<lambda>_. True) (s_committed s)" using assms(2,3) by (simp add: op_at_def)
  have i: "inv_at ?x {''claimed''} (\<lambda>r'. op_book_key r' = op_book_key r) any_tab any_tab s"
    using assms writer_ok_weaken [of "s_committed s"]
    by (auto simp: inv_at_def clean_def committed_ok_def kept_log_def any_tab_def op_at_def row_ok_def)
  have st: "row_stable (\<lambda>r'. op_book_key r' = op_book_key r)" by (simp add: row_stable_def)
  have requeue: "wp (thn (transition oid ''requested'' None)
       (bnd (query_res (\<lambda>d. row_one (\<lambda>e. ob_aggregate_id e = oid) (db_outbox d))) (\<lambda>_.
        thn (modify_db (upd_outbox oid (\<lambda>e. e\<lparr>ob_status := ''pending'', ob_last_error := None\<rparr>)))
        (thn (release_own_lock oid r)
        (thn (modify_db (upd_operation oid (\<lambda>r. r\<lparr>op_lease_owner := None, op_lease_expires_at := None\<rparr>)))
        (thn commit (ret True))))))) ?Q ?E t"
    if t: "inv_at ?x {''claimed''} (\<lambda>r'. op_book_key r' = op_book_key r) any_tab any_tab t" for t
    unfolding wp_thn
  proof (rule wp_transition [OF t _ _ _ st tab_stables(1)], goal_cases)
    case (5 s1)
    obtain ev where ev: "row_one (\<lambda>e. ob_aggregate_id e = oid) (db_outbox (s_db s1)) = Inr ev"
    proof (rule inv_atE [OF 5], goal_cases)
      case (1 row)
      then have "ledger_ok (s_db s1)" "row \<in> set (db_operations (s_db s1))" "op_operation_id row = oid"
        using the_operation_id [of oid "s_db s1" row] by (simp_all add: writer_ok_def)
      with ledger_ok_event [of "s_db s1" row] 1(1) show ?case by auto
    qed
    have "wp (modify_db (upd_outbox (wx_oid ?x) (\<lambda>e. e\<lparr>ob_status := ''pending'', ob_last_error := None\<rparr>))) (\<lambda>_. wp (release_own_lock (wx_oid ?x) r)
     (\<lambda>_. wp (modify_db (upd_operation (wx_oid ?x) (\<lambda>r. r\<lparr>op_lease_owner := None, op_lease_expires_at := None\<rparr>)))
     (\<lambda>_. wp commit (\<lambda>_. wp (ret True) ?Q ?E) ?E) ?E) ?E) ?E s1"
      by (rule wp_requeue [OF 5]) (auto simp: reconciled_def committed_ok_def kept_log_def op_at_def split: sum.splits)
    then show ?case using inv_not_broken [OF 5] ev by (simp add: wp_bnd_fun wp_query_res wp_thn_fun)
  qed (auto simp: state_simps)
  have "wp (reconcile_operation en io root oid) ?Q ?E s"
    using un assms(2,3)
    by (auto simp: reconcile_operation_def reconcile_claimed_def get_operation_def wp_bnd wp_query_res lease_is_active_def wp_ret wp_utc_now
        lease_active_def wp_if intro!: requeue i same_data_reconciled [OF assms(1) at] split: option.split)
  from wp_no_raise [OF this] show ?thesis by blast
qed

section \<open>The loop\<close>

text \<open>The loop over the interrupted operations.\<close>

lemma reconcile_one:
  assumes "clean s" "op_at oid {''claimed'', ''writing'', ''verifying'', ''restoring''} (\<lambda>_. True) (s_committed s)"
  shows "\<exists>b s'. reconcile_operation en io root oid s = (Inr b, s') \<and> reconciled io oid s b s'"
proof -
  from assms(2) obtain r where r: "the_operation oid (s_committed s) = Inr r" "op_state r \<in> {''claimed'', ''writing'', ''verifying'', ''restoring''}"
    by (auto elim: op_atE)
  then show ?thesis using reconcile_claim [OF assms(1) r(1)] reconcile_flight [OF assms(1) r(1)] by blast
qed

abbreviation "live_states \<equiv> {''claimed'', ''writing'', ''verifying'', ''restoring''}"

text \<open>The states an operation can be left in: ended, back in the queue, or still claimed under a live lease.\<close>

definition settled :: "'w io \<Rightarrow> string list \<Rightarrow> string \<Rightarrow> db \<Rightarrow> bool" where
  "settled io reconciled_ids oid d =
     op_at oid (if oid \<in> set reconciled_ids then ended_states \<union> {''requested''} else {''claimed''})
       (\<lambda>r. op_state r = ''succeeded'' \<longrightarrow> verified io r) d"

lemma op_at_other: "only_rows X a b \<Longrightarrow> oid \<notin> X \<Longrightarrow> op_at oid S R b = op_at oid S R a"
  by (simp add: op_at_def only_rows_other)

lemma reconcile_each_total:
  "clean s \<Longrightarrow> distinct oids \<Longrightarrow> list_all (\<lambda>oid. op_at oid live_states (\<lambda>_. True) (s_committed s)) oids \<Longrightarrow>
   \<exists>ids s'. reconcile_each en io root oids s = (Inr ids, s') \<and> clean s' \<and> only_rows (set oids) (s_committed s) (s_committed s')
     \<and> (\<exists>ws. s_log s' = s_log s @ ws \<and> written_with (\<lambda>d. list_ex (\<lambda>oid. op_at oid flight_states planned d) oids) (set oids) (s_committed s) ws)
     \<and> set ids \<subseteq> set oids \<and> list_all (\<lambda>oid. settled io ids oid (s_committed s')) oids"
proof (induction oids arbitrary: s)
  case Nil
  then show ?case by (simp add: ret_def)
next
  case (Cons oid oids)
  obtain b s1 where one: "reconcile_operation en io root oid s = (Inr b, s1)" "reconciled io oid s b s1"
    using reconcile_one [OF Cons.prems(1), of oid en io root] Cons.prems(3) by auto
  then have rows: "only_rows {oid} (s_committed s) (s_committed s1)" "clean s1"
    and here: "op_at oid (if b then ended_states \<union> {''requested''} else {''claimed''}) (\<lambda>r. op_state r = ''succeeded'' \<longrightarrow> verified io r) (s_committed s1)"
    by (simp_all add: reconciled_def)
  obtain vs where vs: "s_log s1 = s_log s @ vs" "written_with (op_at oid flight_states planned) {oid} (s_committed s) vs"
    using one(2) by (auto simp: reconciled_def)
  have notin: "oid \<notin> set oids" using Cons.prems(2) by simp
  have "list_all (\<lambda>o'. op_at o' live_states (\<lambda>_. True) (s_committed s1)) oids"
    unfolding list_all_iff
  proof (rule ballI)
    fix o' assume o: "o' \<in> set oids"
    with notin have "o' \<notin> {oid}" by auto
    with o Cons.prems(3) show "op_at o' live_states (\<lambda>_. True) (s_committed s1)"
      by (simp add: op_at_other [OF rows(1)] list_all_iff)
  qed
  then obtain ids s' where rest: "reconcile_each en io root oids s1 = (Inr ids, s')" "clean s'"
      "only_rows (set oids) (s_committed s1) (s_committed s')" "set ids \<subseteq> set oids"
      "list_all (\<lambda>o'. settled io ids o' (s_committed s')) oids"
      "\<exists>ws. s_log s' = s_log s1 @ ws \<and> written_with (\<lambda>d. list_ex (\<lambda>oid. op_at oid flight_states planned d) oids) (set oids) (s_committed s1) ws"
    using Cons.IH [OF rows(2)] Cons.prems(2) by fastforce
  from rest(6) obtain ws where ws: "s_log s' = s_log s1 @ ws"
      "written_with (\<lambda>d. list_ex (\<lambda>oid. op_at oid flight_states planned d) oids) (set oids) (s_committed s1) ws" by blast
  let ?ids = "if b then oid # ids else ids"
  have "reconcile_each en io root (oid # oids) s = (Inr ?ids, s')"
    using one(1) rest(1) by (simp add: bnd_def ret_def)
  moreover have "only_rows (set (oid # oids)) (s_committed s) (s_committed s')"
    by (rule only_rows_trans [OF only_rows_mono [OF rows(1)] only_rows_mono [OF rest(3)]]) auto
  moreover have "settled io ?ids oid (s_committed s')"
    using here op_at_other [OF rest(3) notin] rest(4) notin by (auto simp: settled_def)
  moreover have "list_all (\<lambda>o'. settled io ?ids o' (s_committed s')) oids"
    using rest(5) notin by (auto simp: settled_def list_all_iff)
  moreover have "written_with (\<lambda>d. list_ex (\<lambda>oid. op_at oid flight_states planned d) (oid # oids)) (set (oid # oids)) (s_committed s) vs"
    by (rule written_with_mono [OF vs(2)]) auto
  moreover have "written_with (\<lambda>d. list_ex (\<lambda>oid. op_at oid flight_states planned d) (oid # oids)) (set (oid # oids)) (s_committed s) ws"
    by (rule written_with_mono [OF ws(2) _ _ only_rows_mono [OF rows(1)]]) auto
  ultimately show ?case using rest(2,4) vs(1) ws(1) by auto
qed

lemma interrupted_live:
  assumes "clean s"
  shows "distinct (interrupted (s_committed s))"
    "list_all (\<lambda>oid. op_at oid live_states (\<lambda>_. True) (s_committed s)) (interrupted (s_committed s))"
proof -
  have d: "distinct (map op_operation_id (db_operations (s_committed s)))"
    using assms by (simp add: clean_def writer_ok_def ledger_ok_def)
  then show "distinct (interrupted (s_committed s))" by (simp add: interrupted_def distinct_map_filter)
  show "list_all (\<lambda>oid. op_at oid live_states (\<lambda>_. True) (s_committed s)) (interrupted (s_committed s))"
    using filter_unique [OF d] by (auto simp: interrupted_def list_all_iff op_at_def the_operation_def row_one_def)
qed


definition crashed_db :: db where
  "crashed_db = undo_db\<lparr>db_operations := [undo_operation\<lparr>op_state := ''writing''\<rparr>]\<rparr>"

lemma crashed_ready: "clean (demo_session crashed_db)"
  by (simp add: clean_def demo_session_def writer_ok_def ledger_ok_def locks_ok_def crashed_db_def undo_db_def op_wf_def STATES_set terminal_cases
      new_outbox_event_def active_state_def)


end
