(* ===== verification/System.thy ===== *)
theory System
  imports ReconcileLaws
begin

text \<open>
  The coordinator and the writer over one database: any interleaving of committed requests, writer turns and restarts.
\<close>

section \<open>What the coordinator adds\<close>

text \<open>A request only appends requested operations with fresh events, and leaves the locks alone.\<close>

definition grows :: "db \<Rightarrow> db \<Rightarrow> bool" where
  "grows d d' =
     ((\<exists>rs. db_operations d' = db_operations d @ rs \<and> list_all (\<lambda>r. op_state r = ''requested'') rs)
      \<and> db_locks d' = db_locks d \<and> (distinct (map ob_id (db_outbox d)) \<longrightarrow> distinct (map ob_id (db_outbox d'))))"

lemma grows_same:
  "db_operations d' = db_operations d \<Longrightarrow> db_locks d' = db_locks d \<Longrightarrow> db_outbox d' = db_outbox d \<Longrightarrow> grows d d'"
  by (simp add: grows_def)

lemma grows_trans: "grows a b \<Longrightarrow> grows b c \<Longrightarrow> grows a c"
  by (auto simp: grows_def)

lemma create_grows:
  assumes "create_operation u1 u2 now k ty bkey patch opts d = Inr (r, d')" "keeps_keys opts"
  shows "grows d d'"
  using assms(1)
proof (cases rule: create_operation_cases)
  case existing
  then show ?thesis by (simp add: grows_same)
next
  case (created e)
  have "op_state r = ''requested''" using created(4) assms(2) by (simp add: keeps_keys_def new_operation_def)
  moreover have "ob_id e \<notin> set (map ob_id (db_outbox d))"
    using created(5) next_id_fresh by (simp add: new_outbox_event_def del: set_map)
  ultimately show ?thesis using created(6) by (simp add: grows_def)
qed

lemma queue_undo_grows:
  assumes "queue_undo_operation u1 u2 now c d = Inr (oid, d')"
  shows "grows d d'"
proof -
  let ?book = "row_first (\<lambda>b. bk_book_key b = ch_book_key c) (db_books d)"
  from assms obtain r d1 where
    cr: "create_operation u1 u2 now (''undo:'' @ show_nat (ch_id c) @ '':'' @ ch_status c) ''undo_change''
             (ch_book_key c) [(''change_id'', PInt (int (ch_id c)))]
             (\<lambda>r. r\<lparr>op_run_id := Some (ch_run_id c),
                    op_calibre_book_id := (case ?book of Some b \<Rightarrow> bk_calibre_book_id b | None \<Rightarrow> None),
                    op_expected_before_metadata := Some (ch_after_metadata c)\<rparr>) d = Inr (r, d1)"
    and d': "d' = (case ?book of Some b \<Rightarrow> set_book_status (bk_book_key b) ''undo_queued'' d1 | None \<Rightarrow> d1)"
    by (auto simp: queue_undo_operation_def Let_def split: sum.splits)
  have "grows d d1" by (rule create_grows [OF cr]) (simp add: keeps_keys_def)
  moreover have "grows d1 d'" by (rule grows_same) (simp_all add: d' split: option.split)
  ultimately show ?thesis by (rule grows_trans)
qed

lemma queue_approved_book_grows:
  assumes "queue_approved_book en u1 u2 now aids book d = Inr (x, d')"
  shows "grows d d'"
proof (cases "d' = d")
  case False
  with assms obtain k p r d1 aid cid vh ph fl ex where
    cr: "create_operation u1 u2 now k ''apply_metadata'' (bk_book_key book) p
          (\<lambda>r. r\<lparr>op_run_id := Some (bk_run_id book), op_authorization_id := aid, op_calibre_book_id := cid,
                 op_verdict_hash := vh, op_patch_hash := ph, op_field_locks_hash := fl,
                 op_expected_before_metadata := ex\<rparr>) d = Inr (r, d1)"
    and d': "d' = set_book_status (bk_book_key book) ''apply_queued'' d1 \<or> d' = d1"
    unfolding queue_approved_book_def Let_def
    by (simp split: option.splits sum.splits if_splits prod.splits)
  have "grows d d1" by (rule create_grows [OF cr]) (simp add: keeps_keys_def)
  moreover have "grows d1 d'" by (rule grows_same) (use d' in auto)
  ultimately show ?thesis by (rule grows_trans)
qed (simp add: grows_same)

lemma queue_approved_books_grows:
  "queue_approved_books en uuids now aids books d = Inr (qs, ss, d') \<Longrightarrow> grows d d'"
proof (induction en uuids now aids books d arbitrary: qs ss d' rule: queue_approved_books.induct)
  case (2 en uuids now aids book books d)
  obtain u1 u2 where u: "(case uuids of u # _ \<Rightarrow> u | [] \<Rightarrow> ([], [])) = (u1, u2)" by fastforce
  from "2.prems"(1) obtain x d1 qs' ss' where
    b: "queue_approved_book en u1 u2 now aids book d = Inr (x, d1)"
    and rest: "queue_approved_books en (tl uuids) now aids books d1 = Inr (qs', ss', d')"
    by (auto simp: u split: sum.splits option.splits)
  from "2.IH" [OF u [symmetric] refl b refl rest] queue_approved_book_grows [OF b] show ?case by (blast intro: grows_trans)
qed (simp add: grows_same)

lemma reserve_grows:
  assumes "reserve_v2_operation en u1 u2 now book package patch aid stored d = Inr (oid, d')"
  shows "grows d d'"
proof -
  let ?k = "''apply-v2:'' @ ps_pilot_id stored @ '':'' @ pk_evidence_id package @ '':'' @ hash_json en (PDict patch)"
  let ?o = "\<lambda>r. r\<lparr>op_run_id := Some (bk_run_id book), op_authorization_id := aid,
                    op_calibre_book_id := bk_calibre_book_id book, op_verdict_hash := pk_package_sha256 package,
                    op_patch_hash := Some (hash_json en (PDict patch)),
                    op_field_locks_hash := Some (hash_json en (PDict (bk_field_locks book))),
                    op_expected_before_metadata :=
                      Some (map (\<lambda>(f, _). (f, current_value_for_patch book f)) patch),
                    op_policy_version := ''manifestation-v2'', op_evidence_id := Some (pk_evidence_id package),
                    op_pilot_id := Some (ps_pilot_id stored)\<rparr>"
  from assms obtain op d1 where c: "create_operation u1 u2 now ?k ''apply_metadata'' (bk_book_key book) patch ?o d = Inr (op, d1)"
    and d': "db_operations d' = db_operations d1" "db_locks d' = db_locks d1" "db_outbox d' = db_outbox d1"
    by (auto simp: reserve_v2_operation_def Let_def split: if_splits sum.splits)
  have "grows d d1" by (rule create_grows [OF c]) (simp add: keeps_keys_def)
  then show ?thesis using grows_same [OF d'] by (rule grows_trans)
qed

lemma queue_v2_grows:
  assumes "queue_v2_operation en pg u1 u2 now eid aid pilot d = Inr (oid, d')"
  shows "grows d d'"
  using assms
proof (rule queue_v2_Inr, goal_cases)
  case (1 row package book patch root stored d1)
  have "grows d d1" by (rule grows_same) (use lock_or_create_db [OF 1(10)] in simp_all)
  then show ?case using reserve_grows [OF 1(11)] by (rule grows_trans)
qed

lemma coord_step_grows: "coord_step en d d' \<Longrightarrow> grows d d'"
proof (induction rule: coord_step.induct)
  case (queue_v2 pg u1 u2 now eid aid pilot d oid d')
  then show ?case by (rule queue_v2_grows)
next
  case (queue_undo u1 u2 now c d oid d')
  then show ?case by (rule queue_undo_grows)
next
  case (queue_approved uuids now keys aids d qs ss d')
  then show ?case by (auto simp: queue_approved_operations_def intro: queue_approved_books_grows)
qed (auto dest!: acknowledge_db create_authorization_db intro!: grows_same)

lemma grows_locks_ok:
  assumes "locks_ok X d" "grows d d'"
  shows "locks_ok X d'"
proof -
  from assms(2) obtain rs where rs: "db_operations d' = db_operations d @ rs" "list_all (\<lambda>r. op_state r = ''requested'') rs"
      "db_locks d' = db_locks d" by (auto simp: grows_def)
  show ?thesis
  proof (rule locks_okI, goal_cases)
    case 1 show ?case using locks_okD(1) [OF assms(1)] rs(3) by simp
  next
    case (2 l)
    then show ?case using locks_okD(2) [OF assms(1), of l] rs(1,3) by auto
  next
    case (3 r)
    with rs(1,2) have "r \<in> set (db_operations d)" by (auto simp: list_all_iff active_state_def)
    then show ?case using locks_okD(3) [OF assms(1), of r] 3(2) rs(3) by simp
  qed
qed

section \<open>The whole system\<close>

text \<open>
  One step: a committed request of the coordinator, a turn of the writer, a restart with its reconciliation, or one of these
  dying: right after the claim, or during any write to the library, when the database is what was committed at that moment. Each
  turn and each restart begins with a fresh session over the committed tables; the rest of the session (the state of the library,
  the clock, the uuids, the log) is arbitrary.
\<close>

definition writes_since :: "'w session \<Rightarrow> 'w session \<Rightarrow> ext_write list" where
  "writes_since s s' = drop (length (s_log s)) (s_log s')"

inductive system_step :: "env \<Rightarrow> 'w io \<Rightarrow> pilot_guard option \<Rightarrow> db \<Rightarrow> db \<Rightarrow> bool" for en io pilot where
  request: "coord_step en d d' \<Longrightarrow> system_step en io pilot d d'"
| turn: "\<not> s_broken s \<Longrightarrow> s_db s = s_committed s \<Longrightarrow> writer_turn en io pilot s = (res, s') \<Longrightarrow>
     system_step en io pilot (s_committed s) (s_committed s')"
| restart: "\<not> s_broken s \<Longrightarrow> s_db s = s_committed s \<Longrightarrow> reconcile_incomplete_operations en io root s = (res, s') \<Longrightarrow>
     system_step en io pilot (s_committed s) (s_committed s')"
| crash_claimed: "\<not> s_broken s \<Longrightarrow> s_db s = s_committed s \<Longrightarrow> claim_next_operation None 60 (s :: 'w session) = (res, s') \<Longrightarrow>
     system_step en io pilot (s_committed s) (s_committed s')"
| crash_writing: "\<not> s_broken s \<Longrightarrow> s_db s = s_committed s \<Longrightarrow> writer_turn en io pilot s = (res, s') \<Longrightarrow>
     w \<in> set (writes_since s s') \<Longrightarrow> system_step en io pilot (s_committed s) (ew_db w)"
| crash_restarting: "\<not> s_broken s \<Longrightarrow> s_db s = s_committed s \<Longrightarrow> reconcile_incomplete_operations en io root s = (ids, s') \<Longrightarrow>
     w \<in> set (writes_since s s') \<Longrightarrow> system_step en io pilot (s_committed s) (ew_db w)"

inductive_cases system_stepE: "system_step en io pilot d d'"

definition system_ok :: "db \<Rightarrow> bool" where
  "system_ok d = (writer_ok {} d \<and> pilots_ok d)"

lemma pilots_ok_requests:
  assumes "same_requests d d'" "pilots_ok d"
  shows "pilots_ok d'"
proof -
  have "map op_pilot_id ops = map (\<lambda>(_, _, _, _, _, _, _, _, _, _, _, _, _, p). p) (map request_of ops)" for ops
    by (simp add: request_of_def)
  then have ids: "map op_pilot_id (db_operations d') = map op_pilot_id (db_operations d)"
    using assms(1) unfolding same_requests_def by metis
  have len: "length (filter (\<lambda>r. op_pilot_id r = x) ops) = length (filter (\<lambda>p. p = x) (map op_pilot_id ops))" for x ops
    by (induction ops) simp_all
  have "pilot_operation_count d' pid = pilot_operation_count d pid" for pid
    unfolding pilot_operation_count_def len ids ..
  then have "pilot_operation_count d' = pilot_operation_count d" by (rule ext)
  moreover have bound: "list_all (\<lambda>r. P (op_pilot_id r)) (db_operations d') = list_all (\<lambda>r. P (op_pilot_id r)) (db_operations d)" for P
    using ids by (metis (no_types, lifting) list.pred_map comp_def list.pred_cong)
  moreover have "db_pilots d' = db_pilots d" using assms(1) by (simp add: same_requests_def)
  ultimately show ?thesis
    using assms(2) bound [of "\<lambda>p. p = None \<or> p \<in> (\<lambda>p. Some (ps_pilot_id p)) ` set (db_pilots d)"] by (simp add: pilots_ok_def)
qed

lemma turn_sound:
  assumes "system_ok (s_committed s)" "\<not> s_broken s" "s_db s = s_committed s" "writer_turn en io pilot s = (res, s')"
  shows "system_ok (s_committed s') \<and> (\<forall>w\<in>set (writes_since s s'). system_ok (ew_db w))"
proof -
  have c: "clean s" using assms(1-3) by (simp add: clean_def system_ok_def)
  have "turn_post io s (case res of Inr r \<Rightarrow> r | Inl _ \<Rightarrow> None) s'" using writer_turn_post [OF c, of en io pilot] assms(4) by auto
  then obtain X P ws where t: "clean s'" "only_rows X (s_committed s) (s_committed s')" "s_log s' = s_log s @ ws"
      "written_with P X (s_committed s) ws" by (auto simp: turn_post_def)
  have "system_ok (s_committed s')"
    using t(1) pilots_ok_requests [OF only_rows_requests [OF t(2)]] assms(1) by (simp add: system_ok_def clean_def)
  moreover have "system_ok (ew_db w)" if "w \<in> set (writes_since s s')" for w
  proof -
    have "writer_ok {} (ew_db w)" "only_rows X (s_committed s) (ew_db w)"
      using that t(3,4) by (auto simp: writes_since_def written_with_def list_all_iff)
    then show ?thesis using pilots_ok_requests [OF only_rows_requests] assms(1) by (auto simp: system_ok_def)
  qed
  ultimately show ?thesis by blast
qed

lemma restart_sound:
  assumes "system_ok (s_committed s)" "\<not> s_broken s" "s_db s = s_committed s" "reconcile_incomplete_operations en io root s = (res, s')"
  shows "system_ok (s_committed s') \<and> (\<forall>w\<in>set (writes_since s s'). system_ok (ew_db w))"
proof -
  have c: "clean s" using assms(1-3) by (simp add: clean_def system_ok_def)
  have "reconcile_each en io root (interrupted (s_committed s)) s = (res, s')"
    using assms(2-4) by (simp add: reconcile_incomplete_operations_def query_def bnd_def)
  then obtain X P ws where t: "clean s'" "only_rows X (s_committed s) (s_committed s')" "s_log s' = s_log s @ ws"
      "written_with P X (s_committed s) ws"
    using reconcile_each_total [OF c interrupted_live [OF c], of en io root] by auto
  have "system_ok (s_committed s')"
    using t(1) pilots_ok_requests [OF only_rows_requests [OF t(2)]] assms(1) by (simp add: system_ok_def clean_def)
  moreover have "system_ok (ew_db w)" if "w \<in> set (writes_since s s')" for w
  proof -
    have "writer_ok {} (ew_db w)" "only_rows X (s_committed s) (ew_db w)"
      using that t(3,4) by (auto simp: writes_since_def written_with_def list_all_iff)
    then show ?thesis using pilots_ok_requests [OF only_rows_requests] assms(1) by (auto simp: system_ok_def)
  qed
  ultimately show ?thesis by blast
qed

lemma request_sound:
  assumes "system_ok d" "coord_step en d d'"
  shows "system_ok d'"
proof -
  have "coord_inv d'" using coord_step_inv [OF _ assms(2)] assms(1) by (simp add: coord_inv_def system_ok_def writer_ok_def)
  moreover have "locks_ok {} d'" "distinct (map ob_id (db_outbox d'))"
    using grows_locks_ok [OF _ coord_step_grows [OF assms(2)]] coord_step_grows [OF assms(2)] assms(1)
    by (auto simp: system_ok_def writer_ok_def grows_def)
  ultimately show ?thesis by (simp add: system_ok_def coord_inv_def writer_ok_def)
qed

lemma claim_sound:
  assumes "system_ok (s_committed s)" "\<not> s_broken s" "s_db s = s_committed s" "claim_next_operation None 60 s = (res, s')"
  shows "system_ok (s_committed s')"
proof -
  have "clean s" using assms(1-3) by (simp add: clean_def system_ok_def)
  from claim_next_post [OF this, of None 60] assms(4) obtain X where "clean s'" "only_rows X (s_committed s) (s_committed s')"
    by (auto simp: claim_post_def)
  then show ?thesis using pilots_ok_requests [OF only_rows_requests] assms(1) by (auto simp: system_ok_def clean_def)
qed

lemma system_step_ok: "system_ok d \<Longrightarrow> system_step en io pilot d d' \<Longrightarrow> system_ok d'"
  by (erule system_stepE) (use request_sound turn_sound restart_sound claim_sound in blast)+

interpretation system: transition_system "system_step en io pilot" system_ok
  by unfold_locales (rule system_step_ok)

lemma at_most_one_active:
  assumes "writer_ok {} d"
  shows "length (filter (\<lambda>r. op_book_key r = k \<and> active_state (op_state r)) (db_operations d)) \<le> 1"
proof (rule ccontr)
  let ?A = "filter (\<lambda>r. op_book_key r = k \<and> active_state (op_state r)) (db_operations d)"
  have lk: "locks_ok {} d" and ids: "distinct (map op_operation_id (db_operations d))"
    using assms by (simp_all add: writer_ok_def ledger_ok_def)
  assume "\<not> length ?A \<le> 1"
  then obtain a b rest where A: "?A = a # b # rest" by (cases ?A; cases "tl ?A") auto
  have "distinct (map op_operation_id ?A)" using ids by (rule distinct_map_filter)
  with A have ne: "op_operation_id a \<noteq> op_operation_id b" by simp
  have "a \<in> set ?A" "b \<in> set ?A" using A by simp_all
  then have ab: "a \<in> set (db_operations d)" "b \<in> set (db_operations d)" "op_book_key a = k" "op_book_key b = k"
      "active_state (op_state a)" "active_state (op_state b)" by simp_all
  obtain l where l: "l \<in> set (db_locks d)" "lk_book_key l = k" "lk_operation_id l = op_operation_id a"
    using locks_okD(3) [OF lk ab(1,5)] ab(3) by auto
  obtain m where m: "m \<in> set (db_locks d)" "lk_book_key m = k" "lk_operation_id m = op_operation_id b"
    using locks_okD(3) [OF lk ab(2,6)] ab(4) by auto
  have "l = m" using locks_okD(1) [OF lk] l(1,2) m(1,2) by (auto simp: distinct_map dest: inj_onD)
  with l(3) m(3) ne show False by simp
qed

text \<open>
  Claim C21. One writer per book, in every reachable state: from consistent tables (an empty database, for one), however requests, writer
  turns, crashes and restarts are interleaved, and whatever the library answers, no book ever has two operations claimed,
  writing, verifying or restoring, every lock is held by an operation on its book that is still active (no lock leaks), and no pilot
  ever has more than five operations.
\<close>

theorem one_active_operation_per_book:
  assumes "(system_step en io pilot)\<^sup>*\<^sup>* d d'" "system_ok d"
  shows "length (filter (\<lambda>r. op_book_key r = k \<and> active_state (op_state r)) (db_operations d')) \<le> 1
    \<and> list_all (\<lambda>l. list_ex (\<lambda>r. op_operation_id r = lk_operation_id l \<and> op_book_key r = lk_book_key l \<and> active_state (op_state r))
         (db_operations d')) (db_locks d')
    \<and> pilot_operation_count d' pid \<le> 5"
proof -
  have ok: "writer_ok {} d'" "pilots_ok d'" using system.reachable_keeps [OF assms] by (simp_all add: system_ok_def)
  then have "locks_ok {} d'" by (simp add: writer_ok_def)
  then show ?thesis using at_most_one_active [OF ok(1)] pilots_ok_budget [OF ok(2)] by (simp add: locks_ok_def)
qed

lemma queued_system_ok: "system_ok queued_db"
proof -
  have "writer_ok {} queued_db" using queued_ready by (simp add: clean_def demo_session_def)
  moreover have "pilots_ok queued_db"
    by (simp add: pilots_ok_def queued_db_def undo_db_def empty_db_def undo_operation_def new_operation_def)
  ultimately show ?thesis by (simp add: system_ok_def)
qed

theorem one_active_operation_per_book_witness:
  "\<exists>d'. (system_step demo_env demo_io None)\<^sup>*\<^sup>* queued_db d' \<and> db_locks d' \<noteq> []
     \<and> length (filter (\<lambda>r. op_book_key r = ''b7'' \<and> active_state (op_state r)) (db_operations d')) \<le> 1"
proof -
  obtain r s' where c: "claim_next_operation None 60 (demo_session queued_db) = (Inr r, s')" "claim_post (demo_session queued_db) r s'"
    using claim_next_post [OF queued_ready, of None 60] by blast
  have "system_step demo_env demo_io None (s_committed (demo_session queued_db)) (s_committed s')"
    by (rule system_step.crash_claimed [OF _ _ c(1)]) (simp_all add: demo_session_def)
  then have step: "(system_step demo_env demo_io None)\<^sup>*\<^sup>* queued_db (s_committed s')" by (auto simp: demo_session_def)
  have "r = Some ''op1''" using c(2) queued_claim_spec by (simp add: claim_post_def)
  with c(2) obtain row where row: "the_operation ''op1'' (s_committed s') = Inr row" "op_state row = ''claimed''"
    by (auto simp: claim_post_def elim: op_atE)
  then have "db_locks (s_committed s') \<noteq> []"
    using lock_holder [OF _ row(1)] c(2) by (auto simp: claim_post_def clean_def active_state_def)
  with step one_active_operation_per_book [OF step queued_system_ok] show ?thesis by blast
qed

end
