(* ===== verification/WriterFindings.thy ===== *)
theory WriterFindings
  imports System
begin

text \<open>
  Two behaviours of the writer that its code does not mean to have: an undo that failed cannot be requested again, and a refused path
  after a write skips the restore.
\<close>

section \<open>An undo that failed\<close>

text \<open>The operation that \<open>queue_undo_operation\<close> creates for a change.\<close>

definition undo_of :: "change \<Rightarrow> operation \<Rightarrow> bool" where
  "undo_of c r =
     (op_operation_type r = ''undo_change'' \<and> op_idempotency_key r = ''undo:'' @ show_nat (ch_id c) @ '':'' @ ch_status c
      \<and> op_requested_patch r = [(''change_id'', PInt (int (ch_id c)))])"

lemma queue_undo_creates:
  assumes "row_first (\<lambda>r. op_idempotency_key r = ''undo:'' @ show_nat (ch_id c) @ '':'' @ ch_status c) (db_operations d) = None"
    and "queue_undo_operation u1 u2 now c d = Inr (oid, d')"
  shows "\<exists>r. db_operations d' = db_operations d @ [r] \<and> op_operation_id r = oid \<and> undo_of c r"
  using assms by (auto simp: queue_undo_operation_def create_operation_def undo_of_def new_operation_def set_book_status_def Let_def
      split: option.splits if_splits)

lemma queue_undo_again:
  assumes "ledger_ok d" "the_operation oid d = Inr r" "op_idempotency_key r = ''undo:'' @ show_nat (ch_id c) @ '':'' @ ch_status c"
  shows "\<exists>d'. queue_undo_operation u1 u2 now c d = Inr (oid, d') \<and> db_operations d' = db_operations d \<and> db_outbox d' = db_outbox d
    \<and> db_changes d' = db_changes d
    \<and> row_first (\<lambda>b. bk_book_key b = ch_book_key c) (db_books d')
      = map_option (\<lambda>b. b\<lparr>bk_status := ''undo_queued''\<rparr>) (row_first (\<lambda>b. bk_book_key b = ch_book_key c) (db_books d))"
proof -
  have r: "op_operation_id r = oid" "r \<in> set (db_operations d)" using the_operation_id [OF assms(2)] by simp_all
  let ?key = "\<lambda>x. op_idempotency_key x = ''undo:'' @ show_nat (ch_id c) @ '':'' @ ch_status c"
  have dist: "distinct (map op_idempotency_key (db_operations d))" using assms(1) by (simp add: ledger_ok_def)
  have "row_first ?key (db_operations d) \<noteq> None" unfolding row_first_None using r(2) assms(3) by blast
  then obtain x where x: "row_first ?key (db_operations d) = Some x" by blast
  then have "x \<in> set (db_operations d)" "op_idempotency_key x = op_idempotency_key r"
    using row_first_Some [OF x] unfolding assms(3) by blast+
  then have "x = r" using dist r(2) by (auto simp: distinct_map inj_on_def)
  with x have key: "row_first ?key (db_operations d) = Some r" by (simp only:)
  have create: "create_operation u1 u2 now (''undo:'' @ show_nat (ch_id c) @ '':'' @ ch_status c) ty k p opts d = Inr (r, d)" for ty k p opts
    unfolding create_operation_def key option.case ..
  have q: "queue_undo_operation u1 u2 now c d = Inr (oid, case row_first (\<lambda>b. bk_book_key b = ch_book_key c) (db_books d) of
      Some b \<Rightarrow> set_book_status (bk_book_key b) ''undo_queued'' d | None \<Rightarrow> d)"
    by (simp only: queue_undo_operation_def Let_def create sum.case prod.case r(1))
  show ?thesis
  proof (cases "row_first (\<lambda>b. bk_book_key b = ch_book_key c) (db_books d)")
    case None
    then show ?thesis unfolding q by simp
  next
    case (Some b)
    then have k: "bk_book_key b = ch_book_key c" using row_first_Some by fastforce
    show ?thesis unfolding q Some option.case by (simp add: set_book_status_def row_first_row_map Some k)
  qed
qed

lemma same_request_row:
  assumes "same_requests d d'" "the_operation oid d = Inr r" "the_operation oid d' = Inr r'"
  shows "request_of r' = request_of r"
proof -
  let ?p = "\<lambda>t. fst t = oid"
  have f: "filter ?p (map request_of xs) = map request_of (filter (is_op oid) xs)" for xs
    by (induction xs) (simp_all add: request_of_def)
  have "filter ?p (map request_of (db_operations d)) = [request_of r]" "filter ?p (map request_of (db_operations d')) = [request_of r']"
    using assms(2,3) by (simp_all add: f the_operation_def row_one_Inr)
  with assms(1) show ?thesis by (simp add: same_requests_def)
qed

text \<open>The turn of an undo that does not succeed leaves every change row as it was, also when processing raises.\<close>

lemma failed_undo_keeps_changes:
  fixes s :: "'w session"
  assumes "clean s" "the_operation oid (s_committed s) = Inr r0" "is_undo r0" "oid \<noteq> []"
    and turn: "writer_turn en io pilot s = (Inr (Some oid), s')"
    and last: "the_operation oid (s_committed s') = Inr r" "op_state r \<noteq> ''succeeded''"
  shows "db_changes (s_committed s') = db_changes (s_committed s)"
proof -
  let ?C = "db_changes (s_committed s)"
  obtain q s1 where c: "claim_next_operation None 60 s = (Inr q, s1)" "claim_post s q s1"
    using claim_next_post [OF assms(1)] by blast
  have q: "q = Some oid"
    using turn c(1) by (auto simp: writer_turn_def bnd_def thn_def ret_def split: option.splits if_splits prod.splits sum.splits)
  have s1: "clean s1" "db_changes (s_committed s1) = ?C" "only_rows {oid} (s_committed s) (s_committed s1)"
      "op_at oid {''claimed''} (\<lambda>_. True) (s_committed s1)"
    using c(2) q by (simp_all add: claim_post_def)
  then obtain r1 where r1: "the_operation oid (s_committed s1) = Inr r1" by (auto elim: op_atE)
  have "request_of r1 = request_of r0" by (rule same_request_row [OF only_rows_requests [OF s1(3)] assms(2) r1])
  then have "is_undo r1" using assms(3) by (simp add: is_undo_def request_of_def)
  note run = process_undo_changes [OF _ _ r1 this, of en io pilot, unfolded s1(2)]
  have s1': "\<not> s_broken s1" "s_db s1 = s_committed s1" using s1(1) by (simp_all add: clean_def)
  have rest: "try_except any_exception (bnd (process en io pilot oid) (\<lambda>_. ret ()))
      (\<lambda>e. thn rollback (fail_operation oid (exn_text e))) s1 = (Inr (), s')"
    using turn c(1) q assms(4) by (auto simp: writer_turn_def bnd_def [of "claim_next_operation _ _"] thn_def bnd_def [of "try_except _ _ _"]
        ret_def split: prod.splits sum.splits)
  show ?thesis
  proof (cases "process en io pilot oid s1")
    case (Pair res s2)
    show ?thesis
    proof (cases res)
      case (Inr row)
      have "s' = s2" using rest Pair Inr by (simp add: try_except_def bnd_def ret_def)
      moreover have "the_operation oid (s_committed s2) = Inr row"
        using wpD [OF process_wp [OF s1(1,4)], of en io pilot] Pair Inr by (auto simp: finished_def)
      moreover have "db_changes (s_committed s2) = ?C \<or> op_state row = ''succeeded''" using wpD [OF run [OF s1']] Pair Inr by auto
      ultimately show ?thesis using last by auto
    next
      case (Inl e)
      let ?t = "s2\<lparr>s_db := s_committed s2, s_broken := False\<rparr>"
      have "db_changes (s_committed s2) = ?C" using wpE [OF run [OF s1']] Pair Inl by auto
      then have "both (\<lambda>d. db_changes d = ?C) ?t" by (simp add: both_def)
      then have w: "wp (fail_operation oid (exn_text e)) (\<lambda>_. both (\<lambda>d. db_changes d = ?C)) (\<lambda>_. both (\<lambda>d. db_changes d = ?C)) ?t"
        by (rule settles_wp [OF settles_preserves [OF same_changes.fail_operation_kept [where B = UNIV]], rotated]) simp
      have "fail_operation oid (exn_text e) ?t = (Inr (), s')"
        using rest Pair Inl by (simp add: try_except_def bnd_def any_exception_def thn_def rollback_def)
      from wpD [OF w this] show ?thesis by (simp add: both_def)
    qed
  qed
qed


text \<open>A queued undo of change 3, whose book has been edited in the library since: the writer refuses it.\<close>

definition edited_undo :: operation where
  "edited_undo = undo_operation\<lparr>op_state := ''requested'', op_idempotency_key := ''undo:3:applied''\<rparr>"

definition edited_session :: "pydict session" where
  "edited_session = (demo_session (undo_db\<lparr>db_operations := [edited_undo],
     db_outbox := [new_outbox_event 1 ''ev1'' 5 ''op1'' ''undo_change'' ''b7''], db_locks := []\<rparr>))\<lparr>s_world := [(''title'', PStr ''Edited'')]\<rparr>"

lemma edited_turn_value:
  "(case writer_turn demo_env demo_io None edited_session of
      (Inr (Some oid), s) \<Rightarrow> Some (oid, map op_state (db_operations (s_committed s))) | _ \<Rightarrow> None) = Some (''op1'', [''failed''])"
  by code_simp

lemma edited_ready: "clean edited_session"
  by (simp add: clean_def edited_session_def demo_session_def writer_ok_def ledger_ok_def locks_ok_def edited_undo_def op_wf_def STATES_set
      terminal_cases new_outbox_event_def active_state_def)


section \<open>A refused path after a write\<close>

lemma refused_check:
  assumes "\<not> s_broken s" "the_operation oid (s_db s) = Inr r" "op_evidence_id r = Some eid" "eid \<noteq> []"
    "load_v2_package en (s_db s) eid = Inr (row, package)" "check_live_files en io package post b w = Inl e"
    "io_show_metadata io book_id (s_world s) = (Inr post, w)"
  shows "bnd (show_metadata io book_id) (\<lambda>post_write.
      thn (verify_v2_live_files en io oid post_write b) (k post_write)) s = (Inl e, s\<lparr>s_world := w\<rparr>)"
  using assms by (simp add: bnd_def thn_def show_metadata_def effect_def verify_v2_live_files_def get_operation_def query_res_def
      query_def lift_res_def observe_def)

text \<open>
  Claim C29. A refused path skips the restore: \<open>SecurePathError\<close> is a RuntimeError, so when the protected file functions refuse an ebook
  path right after the library was written (a format replaced by a symbolic link, for one), the check of the files is not answered by the
  restore meant for a changed ebook: the exception leaves \<open>process\<close>, nothing is restored and nothing is committed.
\<close>

theorem refused_path_skips_restore:
  assumes "\<not> s_broken s" "the_operation oid (s_db s) = Inr r" "op_state r = ''writing''"
    "op_policy_version operation = ''manifestation-v2''"
    "op_evidence_id r = Some eid" "eid \<noteq> []" "load_v2_package en (s_db s) eid = Inr (row, package)"
    "io_show_metadata io book_id (s_world s) = (Inr post, w)"
    "check_live_files en io package post True w = Inl (RuntimeError m)"
  shows "\<exists>s'. after_write en io oid operation book_id before c s = (Inl (RuntimeError m), s') \<and> s_log s' = s_log s
    \<and> s_committed s' = s_committed s \<and> s_world s' = w"
proof -
  let ?f = "\<lambda>r. r\<lparr>op_change_id := Some (ch_id c), op_rollback_opf_path := Some (ch_backup_opf_path c), op_rollback_opf_sha256 := ch_backup_opf_sha256 c\<rparr>"
  let ?r = "moved ''verifying'' None (s_clock s (s_ticks s)) (?f r)"
  let ?d1 = "upd_operation oid ?f (s_db s)"
  let ?d2 = "upd_operation oid (\<lambda>_. ?r) ?d1"
  have id: "op_operation_id r = oid" using the_operation_id [OF assms(2)] by simp
  have one: "the_operation oid ?d1 = Inr (?f r)" by (rule the_operation_upd [OF assms(2)]) (simp add: id)
  have two: "the_operation oid ?d2 = Inr ?r" by (rule the_operation_upd [OF one]) (simp add: id)
  have mv: "transition_operation ''verifying'' None now (?f r) = Inr (moved ''verifying'' None now (?f r))" for now
    using assms(3) by (simp add: transition_operation_eq can_move_cases)
  have eid: "op_evidence_id ?r = Some eid" using assms(5) by (simp add: moved_def Let_def)
  have load: "load_v2_package en ?d2 eid = Inr (row, package)"
    using assms(7) load_v2_package_cong [of ?d2 "s_db s" en eid] by (simp add: upd_operation_def)
  let ?s = "s\<lparr>s_ticks := Suc (s_ticks s), s_db := ?d2\<rparr>"
  have start: "thn (modify_db (upd_operation oid ?f)) (thn (transition oid ''verifying'' None) k) s = k ?s" for k :: "('a, operation) prog"
    using assms(1) by (simp add: thn_def bnd_def modify_db_def transition_def get_operation_def query_res_def query_def lift_res_def
        utc_now_def one mv)
  have check: "bnd (show_metadata io book_id) (\<lambda>post_write.
      thn (verify_v2_live_files en io oid post_write True) (align_verified_calibre_paths oid post_write)) ?s
      = (Inl (RuntimeError m), ?s\<lparr>s_world := w\<rparr>)"
    by (rule refused_check [where s = ?s, OF _ _ eid assms(6) _ assms(9)]) (simp_all add: assms(1,8) two load)
  have "after_write en io oid operation book_id before c s = (Inl (RuntimeError m), ?s\<lparr>s_world := w\<rparr>)"
    using assms(4) by (simp add: after_write_def Let_def start) (simp add: try_else_def check is_os_or_value_error_def)
  then show ?thesis by simp
qed

text \<open>A format that has become a symbolic link: the protected hash function refuses its path.\<close>

definition link_io :: "pydict io" where
  "link_io = demo_io\<lparr>io_sha256_file_beneath := (\<lambda>root p n w. Inl (RuntimeError ''symbolic link''))\<rparr>"

definition written_operation :: operation where
  "written_operation = (new_operation 1 ''op9'' 5 ''k'' ''apply_metadata'' ''calibre:7'' [])
     \<lparr>op_state := ''writing'', op_policy_version := ''manifestation-v2'', op_evidence_id := Some ''e1''\<rparr>"

definition written_session :: "pydict session" where
  "written_session = (demo_session (demo_db\<lparr>db_operations := [written_operation]\<rparr>))
     \<lparr>s_world := [(''formats'', PList [PStr ''/lib/a.epub''])]\<rparr>"

theorem refused_path_skips_restore_witness:
  "\<forall>c. \<exists>s'. after_write demo_cenv link_io ''op9'' written_operation 7 [] c written_session = (Inl (RuntimeError ''symbolic link''), s')
     \<and> s_log s' = []"
proof
  fix c
  let ?post = "[(''formats'', PList [PStr ''/lib/a.epub''])]"
  have "load_v2_package demo_cenv (s_db written_session) ''e1'' = Inr (demo_row, demo_sealed)"
    using demo_load load_v2_package_cong [of "s_db written_session" demo_db] by (simp add: written_session_def demo_session_def)
  moreover have "check_live_files demo_cenv link_io demo_sealed ?post True ?post = Inl (RuntimeError ''symbolic link'')"
  proof -
    have "canonical_path ''/srv'' ''/lib'' = ''/lib''" "metadata_file_paths ?post = [''/lib/a.epub'']" "is_absolute ''/lib/a.epub''"
      by code_simp+
    moreover have "pk_formats demo_sealed = [demo_format]" by (simp add: demo_sealed_def demo_package_simps)
    ultimately show ?thesis
      by (simp add: check_live_files_def Let_def demo_sealed_simps demo_snapshot_ok demo_package_simps link_io_def demo_io_def
          demo_cenv_def demo_env_def dict_set_def secure_library_file_sha256_def)
  qed
  moreover have "the_operation ''op9'' (s_db written_session) = Inr written_operation"
    by (simp add: the_operation_def row_one_def written_session_def demo_session_def written_operation_def new_operation_def)
  ultimately have "\<exists>s'. after_write demo_cenv link_io ''op9'' written_operation 7 [] c written_session = (Inl (RuntimeError ''symbolic link''), s')
      \<and> s_log s' = s_log written_session \<and> s_committed s' = s_committed written_session \<and> s_world s' = ?post"
    by (intro refused_path_skips_restore [where r = written_operation and eid = "''e1''" and row = demo_row and package = demo_sealed and post = ?post])
      (simp_all add: written_session_def demo_session_def written_operation_def link_io_def demo_io_def)
  then show "\<exists>s'. after_write demo_cenv link_io ''op9'' written_operation 7 [] c written_session = (Inl (RuntimeError ''symbolic link''), s')
     \<and> s_log s' = []" by (auto simp: written_session_def demo_session_def)
qed

end
