(* ===== verification/Durable.thy ===== *)
theory Durable
  imports Executor
begin

text \<open>
  The verification runs of the self-hosted web application: the store without a fence (SQLAuditStore in
  src/src/calibre\_ai\_auditor/verification/persistence\_v2.py), its leases and crash recovery (durable\_v2.py), and the
  persisted audit (\<open>run_persisted_library_audit\<close> in service\_v2.py). The tables, the pipeline and the transactions are those
  of the Certificate A verifier.
\<close>

section \<open>The plain store\<close>

definition sql_run :: "string \<Rightarrow> run_db \<Rightarrow> verification_run res" where
  "sql_run rid d = (case find_run rid d of
      None \<Rightarrow> Inl (ValueError (''verification run '' @ rid @ '' has not been started'')) | Some r \<Rightarrow> Inr r)"

definition sql_result :: "string \<Rightarrow> string \<Rightarrow> run_db \<Rightarrow> verification_result res" where
  "sql_result rid book_key d =
     (case row_first (\<lambda>x. vx_run_id x = rid \<and> vx_book_key x = book_key) (rd_results d) of
        None \<Rightarrow> Inl (ValueError (''book '' @ book_key @ '' is not part of run '' @ rid)) | Some x \<Rightarrow> Inr x)"

definition plain_run :: "nat \<Rightarrow> string \<Rightarrow> time \<Rightarrow> int \<Rightarrow> bool \<Rightarrow> string \<Rightarrow> verification_run" where
  "plain_run pk rid now n use_llm mode =
     \<lparr>vr_id = pk, vr_run_id = rid, vr_status = ''running'', vr_started_at = now, vr_finished_at = None,
      vr_total = n, vr_completed = 0, vr_counts = [], vr_use_llm = use_llm, vr_pipeline_version = ''manifestation-v2'',
      vr_mode = mode, vr_contract_version = None, vr_idempotency_key = None, vr_request_sha256 = None, vr_source_root = None,
      vr_source_root_sha256 = None, vr_effective_config = [], vr_source_snapshot = None, vr_lease_owner = None,
      vr_lease_expires_at = None, vr_fence_token = 0, vr_claimed_at = None, vr_heartbeat_at = None,
      vr_inventory_finished_at = None, vr_cancel_requested_at = None, vr_error_code = None\<rparr>"

definition sql_start ::
    "string \<Rightarrow> string list \<Rightarrow> string \<Rightarrow> bool \<Rightarrow> time \<Rightarrow> time \<Rightarrow> string list \<Rightarrow> run_db \<Rightarrow> unit res \<times> run_db" where
  "sql_start rid book_keys mode use_llm m1 m2 us d =
     (case (case find_run rid d of
              None \<Rightarrow> add_run (plain_run (next_id (map vr_id (rd_runs d))) rid m1 (int (length book_keys)) use_llm mode) d
            | Some run \<Rightarrow>
                if vr_pipeline_version run \<noteq> ''manifestation-v2'' \<or> vr_mode run \<noteq> mode
                then Inl (ValueError ''run_id already belongs to a different verification contract'') else Inr d) of
        Inl e \<Rightarrow> (Inl e, d)
      | Inr d1 \<Rightarrow>
          (let existing = map vx_book_key (results_of rid d) in
           if existing \<noteq> [] \<and> set existing \<noteq> set book_keys
           then (Inl (ValueError ''run_id library membership differs from the frozen V2 snapshot''), d)
           else
             (let rows = (if existing = [] then pending_results rid m2 us book_keys (rd_results d) else rd_results d) in
              if \<not> distinct (map vx_result_id rows) \<or> \<not> distinct (map (\<lambda>x. (vx_run_id x, vx_book_key x)) rows)
              then (Inl IntegrityError, d) else (Inr (), d1\<lparr>rd_results := rows\<rparr>))))"

definition sql_record_state :: "string \<Rightarrow> string \<Rightarrow> audit_state \<Rightarrow> run_db \<Rightarrow> unit res \<times> run_db" where
  "sql_record_state rid book_key state d =
     (case sql_result rid book_key d of
        Inl e \<Rightarrow> (Inl e, d)
      | Inr _ \<Rightarrow> (Inr (), upd_result rid book_key (\<lambda>x. x\<lparr>vx_state := state_text state\<rparr>) d))"

text \<open>The row of the book: its source, its files with the format of each, and every other column the package names.\<close>

definition sql_source :: "evidence_package_v2 \<Rightarrow> string" where
  "sql_source p =
     (case sn_source (pk_snapshot p) of
        None \<Rightarrow> ''calibre''
      | Some source \<Rightarrow> (if src_kind source = calibre_content_server then ''calibre_content_server'' else ''offline_calibre_snapshot''))"

definition rsplit_last :: "char \<Rightarrow> string \<Rightarrow> string" where
  "rsplit_last c path = rev (takeWhile (\<lambda>x. x \<noteq> c) (rev path))"

fun sql_files :: "evidence_package_v2 \<Rightarrow> string list \<Rightarrow> pyval list" where
  "sql_files p [] = []"
| "sql_files p (path # paths) =
     (let named = map_of (rev (map (\<lambda>item. (fe_path item, py_upper (fe_format item))) (pk_formats p))) path;
          format_name = (case named of
              None \<Rightarrow> if sn_source (pk_snapshot p) \<noteq> None then Some (rsplit_last (CHR '':'') path) else None
            | Some name \<Rightarrow> Some name);
          format_name = (case format_name of
              None \<Rightarrow> if CHR ''.'' \<in> set path then py_upper (rsplit_last (CHR ''.'') path) else ''UNKNOWN''
            | Some name \<Rightarrow> name)
      in PDict [(''path'', PStr path), (''format'', PStr format_name)] # sql_files p paths)"

definition sql_record_book :: "evidence_package_v2 \<Rightarrow> time \<Rightarrow> db \<Rightarrow> db" where
  "sql_record_book p now d =
     (let files = sql_files p (sn_files (pk_snapshot p)) in
      case row_first (\<lambda>b. bk_book_key b = pk_book_key p) (db_books d) of
        None \<Rightarrow>
          d\<lparr>db_books := db_books d @ [\<lparr>bk_id = next_id (map bk_id (db_books d)), bk_book_key = pk_book_key p,
              bk_run_id = pk_run_id p, bk_calibre_book_id = Some (sn_calibre_book_id (pk_snapshot p)),
              bk_paperless_document_id = None, bk_source = sql_source p, bk_discovered_at = now, bk_files = files,
              bk_current_metadata = sn_current_metadata (pk_snapshot p), bk_field_locks = [],
              bk_status = state_text (pk_state p)\<rparr>]\<rparr>
      | Some _ \<Rightarrow>
          d\<lparr>db_books := row_map (\<lambda>b. bk_book_key b = pk_book_key p)
              (\<lambda>b. b\<lparr>bk_run_id := pk_run_id p, bk_calibre_book_id := Some (sn_calibre_book_id (pk_snapshot p)),
                 bk_source := sql_source p, bk_files := files, bk_current_metadata := sn_current_metadata (pk_snapshot p),
                 bk_status := state_text (pk_state p)\<rparr>) (db_books d)\<rparr>)"

definition sql_record_evidence :: "evidence_package_v2 \<Rightarrow> time \<Rightarrow> db \<Rightarrow> db res" where
  "sql_record_evidence p now d =
     (case row_first (\<lambda>e. ep_evidence_id e = pk_evidence_id p) (db_evidence d) of
        None \<Rightarrow>
          Inr (d\<lparr>db_evidence := db_evidence d @ [\<lparr>ep_id = next_id (map ep_id (db_evidence d)), ep_evidence_id = pk_evidence_id p,
              ep_book_key = pk_book_key p, ep_run_id = pk_run_id p, ep_created_at = now, ep_schema_version = 2,
              ep_current = sn_current_metadata (pk_snapshot p), ep_extracted = dump_identity (pk_identity p), ep_candidates = [],
              ep_snippets = [], ep_cover = None, ep_risk_flags = mr_risk_flags (pk_identity p), ep_decision = None,
              ep_observations = Some (dump_package p)\<rparr>]\<rparr>)
      | Some stored \<Rightarrow>
          if map_option (\<lambda>o'. dict_eq o' (dump_package p)) (ep_observations stored) \<noteq> Some True
          then Inl (ValueError ''evidence_id already exists with a different sealed payload'') else Inr d)"

definition sql_verdict :: "evidence_package_v2 \<Rightarrow> pydict" where
  "sql_verdict p =
     [(''schema_version'', PInt 2), (''evidence_id'', PStr (pk_evidence_id p)), (''book_key'', PStr (pk_book_key p)),
      (''state'', PStr (state_text (pk_state p))), (''identity'', PDict (dump_identity (pk_identity p))),
      (''warnings'', str_list (pk_warnings p))]"

text \<open>The loop of \<open>_refresh_counts\<close> over the rows of the run.\<close>

fun sql_count_rows :: "verification_result list \<Rightarrow> int \<Rightarrow> int dict \<Rightarrow> int \<times> int dict" where
  "sql_count_rows [] completed counts = (completed, counts)"
| "sql_count_rows (row # rows) completed counts =
     (if vx_state row \<in> set (map state_text TERMINAL_BOOK_STATES) \<and> vx_evidence_id row \<notin> {None, Some []}
      then sql_count_rows rows (completed + 1)
             (dict_set (vx_state row) ((case dict_get counts (vx_state row) of None \<Rightarrow> 0 | Some n \<Rightarrow> n) + 1) counts)
      else sql_count_rows rows completed counts)"

definition sql_refresh_counts :: "string \<Rightarrow> run_db \<Rightarrow> run_db" where
  "sql_refresh_counts rid d =
     (case sql_count_rows (results_of rid d) 0 [] of
        (completed, counts) \<Rightarrow> upd_run rid (\<lambda>r. r\<lparr>vr_completed := completed, vr_counts := counts\<rparr>) d)"

definition sql_record_package :: "env \<Rightarrow> string \<Rightarrow> evidence_package_v2 \<Rightarrow> time \<Rightarrow> run_db \<Rightarrow> unit res \<times> run_db" where
  "sql_record_package en rid p now d =
     (let invalid = (Inl (ValueError ''evidence package identity or seal is invalid''), d) in
      if pk_run_id p \<noteq> rid then invalid
      else case verify_seal en p of
        Inl e \<Rightarrow> (Inl e, d)
      | Inr False \<Rightarrow> invalid
      | Inr True \<Rightarrow>
          (case sql_record_evidence p now (sql_record_book p now (rd_main d)) of
             Inl e \<Rightarrow> (Inl e, d)
           | Inr main \<Rightarrow>
               (case sql_result rid (pk_book_key p) d of
                  Inl e \<Rightarrow> (Inl e, d)
                | Inr _ \<Rightarrow>
                    (let d1 = upd_result rid (pk_book_key p) (\<lambda>x. x\<lparr>vx_evidence_id := Some (pk_evidence_id p),
                           vx_state := state_text (pk_state p), vx_verdict := sql_verdict p\<rparr>) (d\<lparr>rd_main := main\<rparr>)
                     in case sql_run rid d1 of
                          Inl e \<Rightarrow> (Inl e, d)
                        | Inr _ \<Rightarrow> (Inr (), sql_refresh_counts rid d1)))))"

definition sql_finish :: "string \<Rightarrow> string \<Rightarrow> time \<Rightarrow> run_db \<Rightarrow> unit res \<times> run_db" where
  "sql_finish rid status now d =
     (case sql_run rid d of
        Inl e \<Rightarrow> (Inl e, d)
      | Inr _ \<Rightarrow> (Inr (), upd_run rid (\<lambda>r. r\<lparr>vr_status := status, vr_finished_at := Some now\<rparr>) (sql_refresh_counts rid d)))"

text \<open>A row whose book a restart skips: \<open>verify_seal\<close> may raise, and the columns beside the sealed payload must agree with it.\<close>

definition sql_retryable :: "audit_state list" where
  "sql_retryable = [bs_failed, bs_source_changed]"

definition sql_row_resumable :: "env \<Rightarrow> string \<Rightarrow> db \<Rightarrow> verification_result \<Rightarrow> bool res" where
  "sql_row_resumable en rid d row =
     (if vx_evidence_id row \<in> {None, Some []}
         \<or> vx_state row \<notin> set (map state_text (filter (\<lambda>state. state \<notin> set sql_retryable) TERMINAL_BOOK_STATES))
      then Inr False
      else case row_first (\<lambda>e. Some (ep_evidence_id e) = vx_evidence_id row) (db_evidence d) of
        None \<Rightarrow> Inr False
      | Some stored \<Rightarrow>
          if ep_schema_version stored \<noteq> 2 \<or> ep_observations stored \<in> {None, Some []} then Inr False
          else (case env_parse_package en (the (ep_observations stored)) of
              None \<Rightarrow> Inr False
            | Some p \<Rightarrow>
                (case verify_seal en p of
                   Inl exn \<Rightarrow> Inl exn
                 | Inr sealed \<Rightarrow> Inr (sealed \<and> Some (pk_evidence_id p) = vx_evidence_id row \<and> pk_run_id p = rid
                     \<and> pk_book_key p = vx_book_key row \<and> ep_book_key stored = pk_book_key p \<and> ep_run_id stored = pk_run_id p
                     \<and> dict_eq (ep_current stored) (sn_current_metadata (pk_snapshot p))
                     \<and> dict_eq (ep_extracted stored) (dump_identity (pk_identity p))))))"

fun sql_resumable_keys :: "env \<Rightarrow> string \<Rightarrow> db \<Rightarrow> verification_result list \<Rightarrow> string list res" where
  "sql_resumable_keys en rid d [] = Inr []"
| "sql_resumable_keys en rid d (row # rows) =
     (case sql_row_resumable en rid d row of
        Inl e \<Rightarrow> Inl e
      | Inr b \<Rightarrow>
          (case sql_resumable_keys en rid d rows of
             Inl e \<Rightarrow> Inl e
           | Inr keys \<Rightarrow> Inr (if b then vx_book_key row # keys else keys)))"

definition sql_resumable_book_keys :: "env \<Rightarrow> string \<Rightarrow> run_db \<Rightarrow> string list res" where
  "sql_resumable_book_keys en rid d = sql_resumable_keys en rid (rd_main d) (results_of rid d)"

section \<open>Leases\<close>

definition ACTIVE_RUN_STATUSES :: "string list" where
  "ACTIVE_RUN_STATUSES = [''running'', ''pending'']"

definition TERMINAL_RUN_STATUSES :: "string list" where
  "TERMINAL_RUN_STATUSES = [''completed'', ''completed_with_errors'', ''failed'', ''blocked_recovery'']"

definition DEFAULT_LEASE_TTL_SECONDS :: int where
  "DEFAULT_LEASE_TTL_SECONDS = 120"

text \<open>A lease with an owner that has not expired.\<close>

definition leased :: "time \<Rightarrow> verification_run \<Rightarrow> bool" where
  "leased moment run =
     (vr_lease_owner run \<noteq> None \<and> vr_lease_owner run \<noteq> Some []
      \<and> (case vr_lease_expires_at run of None \<Rightarrow> False | Some t \<Rightarrow> moment < t))"

text \<open>
  Each operation reads the run in one statement, without locking it, and commits an update of the columns it has changed: \<open>seen\<close>
  is what the read saw, \<open>d\<close> the tables the update is committed on, which others may have changed since.
\<close>

definition column_update :: "'a \<Rightarrow> 'a \<Rightarrow> 'a \<Rightarrow> 'a" where
  "column_update loaded assigned current = (if assigned = loaded then current else assigned)"

definition claim_verification_run :: "string \<Rightarrow> string \<Rightarrow> time \<Rightarrow> int \<Rightarrow> run_db \<Rightarrow> run_db \<Rightarrow> bool res \<times> run_db" where
  "claim_verification_run rid owner moment ttl_seconds seen d =
     (if owner = [] then (Inl (ValueError ''lease owner must be non-empty''), d)
      else case find_run rid seen of
        None \<Rightarrow> (Inr False, d)
      | Some run \<Rightarrow>
          if vr_status run \<in> set TERMINAL_RUN_STATUSES \<or> vr_finished_at run \<noteq> None then (Inr False, d)
          else if leased moment run \<and> vr_lease_owner run \<noteq> Some owner then (Inr False, d)
          else (Inr True, upd_run rid (\<lambda>r. r\<lparr>
                  vr_lease_owner := column_update (vr_lease_owner run) (Some owner) (vr_lease_owner r),
                  vr_lease_expires_at := column_update (vr_lease_expires_at run) (Some (moment + seconds (max 1 ttl_seconds))) (vr_lease_expires_at r),
                  vr_status := (if vr_status run \<notin> set ACTIVE_RUN_STATUSES then ''running'' else vr_status r)\<rparr>) d))"

definition heartbeat_verification_run :: "string \<Rightarrow> string \<Rightarrow> time \<Rightarrow> int \<Rightarrow> run_db \<Rightarrow> run_db \<Rightarrow> bool \<times> run_db" where
  "heartbeat_verification_run rid owner moment ttl_seconds seen d =
     (case find_run rid seen of
        None \<Rightarrow> (False, d)
      | Some run \<Rightarrow>
          if vr_lease_owner run \<noteq> Some owner \<or> vr_status run \<in> set TERMINAL_RUN_STATUSES then (False, d)
          else (True, upd_run rid (\<lambda>r. r\<lparr>
                  vr_lease_expires_at := column_update (vr_lease_expires_at run) (Some (moment + seconds (max 1 ttl_seconds))) (vr_lease_expires_at r)\<rparr>) d))"

definition release_verification_run :: "string \<Rightarrow> string \<Rightarrow> run_db \<Rightarrow> run_db \<Rightarrow> run_db" where
  "release_verification_run rid owner seen d =
     (case find_run rid seen of
        None \<Rightarrow> d
      | Some run \<Rightarrow>
          if vr_lease_owner run \<noteq> Some owner then d
          else upd_run rid (\<lambda>r. r\<lparr>vr_lease_owner := None,
                 vr_lease_expires_at := column_update (vr_lease_expires_at run) None (vr_lease_expires_at r)\<rparr>) d)"

text \<open>The three as parts of a program: the read, whatever others commit, then the update.\<close>

definition read_then_commit :: "(time \<Rightarrow> run_db \<Rightarrow> run_db \<Rightarrow> 'a res \<times> run_db) \<Rightarrow> ('w exec, 'a) eff" where
  "read_then_commit f =
     bnd (transact_read (\<lambda>m seen. Inr (m, seen))) (\<lambda>(m, seen). transact 0 (\<lambda>_ _ _ d. f m seen d))"

definition tx_claim :: "string \<Rightarrow> string \<Rightarrow> int \<Rightarrow> ('w exec, bool) eff" where
  "tx_claim rid owner ttl = read_then_commit (\<lambda>m. claim_verification_run rid owner m ttl)"

definition tx_heartbeat :: "string \<Rightarrow> string \<Rightarrow> int \<Rightarrow> ('w exec, bool) eff" where
  "tx_heartbeat rid owner ttl =
     read_then_commit (\<lambda>m seen d. case heartbeat_verification_run rid owner m ttl seen d of (b, d') \<Rightarrow> (Inr b, d'))"

definition tx_release :: "string \<Rightarrow> string \<Rightarrow> ('w exec, unit) eff" where
  "tx_release rid owner = read_then_commit (\<lambda>_ seen d. (Inr (), release_verification_run rid owner seen d))"

section \<open>Recovery\<close>

definition list_recoverable_v2_run_ids :: "time \<Rightarrow> run_db \<Rightarrow> string list" where
  "list_recoverable_v2_run_ids moment d =
     map vr_run_id (filter (\<lambda>r. vr_status r \<notin> set TERMINAL_RUN_STATUSES \<and> \<not> leased moment r)
       (sort_key vr_started_at (filter (\<lambda>r. vr_pipeline_version r = ''manifestation-v2'' \<and> vr_finished_at r = None) (rd_runs d))))"

text \<open>Two sessions: the sealed books, then the rows.\<close>

definition incomplete_book_keys :: "env \<Rightarrow> string \<Rightarrow> ('w exec, string list) eff" where
  "incomplete_book_keys en rid =
     bnd (transact_read (\<lambda>_. sql_resumable_book_keys en rid)) (\<lambda>sealed.
     transact_read (\<lambda>_ d. Inr (filter (\<lambda>k. k \<notin> set sealed) (map vx_book_key (results_of rid d)))))"

definition IN_FLIGHT_BOOK_STATES :: "audit_state list" where
  "IN_FLIGHT_BOOK_STATES = [bs_snapshotting, bs_extracting, bs_resolving, bs_decided, bs_applying]"

definition stale_result :: "verification_result \<Rightarrow> bool" where
  "stale_result x =
     (\<not> sealed_result x
      \<and> (vx_state x \<in> set (map state_text IN_FLIGHT_BOOK_STATES)
         \<or> vx_state x \<notin> set (map state_text TERMINAL_BOOK_STATES) \<and> vx_state x \<noteq> ''pending''))"

definition reset_stale_in_flight_states :: "string \<Rightarrow> run_db \<Rightarrow> nat \<times> run_db" where
  "reset_stale_in_flight_states rid d =
     (length (filter stale_result (results_of rid d)),
      d\<lparr>rd_results := row_map (\<lambda>x. vx_run_id x = rid \<and> stale_result x) (\<lambda>x. x\<lparr>vx_state := ''pending''\<rparr>) (rd_results d)\<rparr>)"

section \<open>The persisted audit\<close>

definition tx_sql_start :: "string \<Rightarrow> string list \<Rightarrow> string \<Rightarrow> bool \<Rightarrow> ('w exec, unit) eff" where
  "tx_sql_start rid book_keys mode use_llm =
     transact (length book_keys) (\<lambda>m1 m2 us. sql_start rid book_keys mode use_llm m1 m2 us)"

definition tx_sql_finish :: "string \<Rightarrow> string \<Rightarrow> ('w exec, unit) eff" where
  "tx_sql_finish rid status = transact 0 (\<lambda>m _ _. sql_finish rid status m)"

definition mode_text :: "audit_mode \<Rightarrow> string" where
  "mode_text mode = (case mode of shadow \<Rightarrow> ''shadow'' | tier_a_auto \<Rightarrow> ''tier_a_auto'')"

text \<open>
  The program \<open>cli\<close> is a pipeline over the unfrozen reader: it gives the reader's methods, the inspector and the enricher. The
  frozen reader lists the given books and passes every other method on, except \<open>assert_unchanged\<close>, which it does not have.
\<close>

definition frozen_pipeline ::
    "env \<Rightarrow> 'w exec pipeline \<Rightarrow> pydict list \<Rightarrow> book_source option \<Rightarrow> string option \<Rightarrow> string \<Rightarrow> 'w exec pipeline" where
  "frozen_pipeline en cli books src root rid =
     cli\<lparr>pl_list_books := ret books, pl_assert_unchanged := None, pl_source := src, pl_library_root := root,
       pl_state_callback := Some (\<lambda>key state. transact 0 (\<lambda>_ _ _. sql_record_state rid key state)),
       pl_package_callback := Some (\<lambda>p. transact 0 (\<lambda>m _ _. sql_record_package en rid p m))\<rparr>"

text \<open>The reader's source kind, fingerprint and library path; \<open>scratch\<close> makes the scratch directory when one is given.\<close>

record 'w cli_source =
  cs_kind :: "source_kind_desc option"
  cs_fingerprint :: string
  cs_library_path :: "string option"
  cs_scratch :: "('w exec, unit) eff option"

definition persisted_book_keys :: "'w cli_source \<Rightarrow> (int \<times> pydict) list \<Rightarrow> string list" where
  "persisted_book_keys cs books =
     map (\<lambda>(i, _). (case cs_kind cs of
         None \<Rightarrow> ''calibre:''
       | Some k \<Rightarrow> (case k of calibre_content_server \<Rightarrow> ''calibre-server'' | offline_calibre_snapshot \<Rightarrow> ''calibre-offline'')
           @ '':'' @ cs_fingerprint cs @ '':'') @ show_int i) books"

definition run_persisted_library_audit ::
    "env \<Rightarrow> 'w exec pipeline \<Rightarrow> 'w cli_source \<Rightarrow> string \<Rightarrow> int \<Rightarrow> audit_mode \<Rightarrow> bool \<Rightarrow> pydict list option \<Rightarrow> ('w exec, library_result) eff" where
  "run_persisted_library_audit en cli cs rid limit mode use_llm books =
     (if mode = tier_a_auto
      then raise (ValueError ''Tier A auto-apply is unavailable until calibration reports are cryptographically authenticated'')
      else
        bnd (case books of None \<Rightarrow> pl_list_books cli | Some bs \<Rightarrow> ret bs) (\<lambda>listed.
        bnd (lift_res (sorted_books listed limit)) (\<lambda>chosen.
        thn (tx_sql_start rid (persisted_book_keys cs chosen) (mode_text mode) use_llm)
        (bnd (lift_res (init_source en (cs_kind cs) (cs_fingerprint cs) (cs_scratch cs \<noteq> None) (cs_library_path cs))) (\<lambda>(src, root).
         thn (case cs_scratch cs of Some m \<Rightarrow> if cs_kind cs \<noteq> None then m else ret () | None \<Rightarrow> ret ())
         (bnd (try_except any_exception
                (bnd (transact_read (\<lambda>_. sql_resumable_book_keys en rid)) (\<lambda>skipped.
                 run_library en (frozen_pipeline en cli (map snd chosen) src root rid) mode rid 0 skipped))
                (\<lambda>e. thn (tx_sql_finish rid ''failed'') (raise e))) (\<lambda>result.
          thn (tx_sql_finish rid (status_text (lr_status result))) (ret result))))))))"

text \<open>\<open>build\<close> makes the enricher of the run, here with the pipeline it is part of.\<close>

definition execute_claimed_v2_library_audit ::
    "env \<Rightarrow> ('w exec, 'w exec pipeline) eff \<Rightarrow> 'w cli_source \<Rightarrow> string \<Rightarrow> string \<Rightarrow> bool \<Rightarrow> pydict list option \<Rightarrow> int \<Rightarrow> ('w exec, library_result) eff" where
  "execute_claimed_v2_library_audit en build cs rid owner use_llm books ttl =
     bnd (tx_claim rid owner ttl) (\<lambda>claimed.
     if \<not> claimed then raise (RuntimeError (''could not claim verification run '' @ rid))
     else
       bnd (transact 0 (\<lambda>_ _ _ d. case reset_stale_in_flight_states rid d of (n, d') \<Rightarrow> (Inr n, d'))) (\<lambda>_.
       let release = tx_release rid owner in
        try_else any_exception
          (try_except any_exception
            (bnd (tx_heartbeat rid owner ttl) (\<lambda>fresh.
             if \<not> fresh then raise (RuntimeError (''lost lease for verification run '' @ rid @ '' before start''))
             else bnd build (\<lambda>cli. run_persisted_library_audit en cli cs rid 0 shadow use_llm books)))
            (\<lambda>e. thn (tx_sql_finish rid ''failed'') (raise e)))
          (\<lambda>e. thn release (raise e))
          (\<lambda>result. thn release (ret result))))"

text \<open>
  The loop over the recoverable runs, with the library path of the settings. The tasks it schedules run after it as
  \<open>resume_task\<close>, each with the run, its worker and its \<open>use_llm\<close>.
\<close>

fun recover_runs :: "env \<Rightarrow> string option \<Rightarrow> string list \<Rightarrow> ('w exec, (string \<times> string \<times> bool) list) eff" where
  "recover_runs en lib_path [] = ret []"
| "recover_runs en lib_path (rid # rids) =
     bnd (incomplete_book_keys en rid) (\<lambda>incomplete.
     if incomplete = []
     then thn (try_except (\<lambda>e. case e of ValueError _ \<Rightarrow> True | _ \<Rightarrow> False) (tx_sql_finish rid ''completed'') (\<lambda>_. ret ()))
            (recover_runs en lib_path rids)
     else
       bnd next_uuid (\<lambda>u.
       let owner = ''recover-'' @ take 12 u in
       bnd (tx_claim rid owner DEFAULT_LEASE_TTL_SECONDS) (\<lambda>claimed.
       if \<not> claimed then recover_runs en lib_path rids
       else
         bnd (transact_read (\<lambda>_ d. case find_run rid d of None \<Rightarrow> Inl NoResultFound | Some r \<Rightarrow> Inr (vr_use_llm r))) (\<lambda>use_llm.
         if lib_path = None
         then thn (tx_sql_finish rid ''failed'')
              (thn (tx_release rid owner) (recover_runs en lib_path rids))
         else bnd (recover_runs en lib_path rids) (\<lambda>scheduled. ret ((rid, owner, use_llm) # scheduled))))))"

definition recover_orphaned_v2_runs :: "env \<Rightarrow> string option \<Rightarrow> ('w exec, (string \<times> string \<times> bool) list) eff" where
  "recover_orphaned_v2_runs en lib_path =
     bnd (transact_read (\<lambda>m d. Inr (list_recoverable_v2_run_ids m d))) (recover_runs en lib_path)"

definition resume_task ::
    "env \<Rightarrow> ('w exec, 'w exec pipeline) eff \<Rightarrow> 'w cli_source \<Rightarrow> string \<times> string \<times> bool \<Rightarrow> ('w exec, unit) eff" where
  "resume_task en build cs task =
     (case task of (rid, owner, use_llm) \<Rightarrow>
      try_except any_exception
        (bnd (execute_claimed_v2_library_audit en build cs rid owner use_llm None DEFAULT_LEASE_TTL_SECONDS) (\<lambda>_. ret ()))
        (\<lambda>_. ret ()))"

end
