(* ===== verification/DurableLaws.thy ===== *)
theory DurableLaws
  imports Durable Fencing
begin

text \<open>
  What the plain store and its leases guarantee: the fenced store refines it, recovery resets exactly the books in flight, a live
  lease excludes the claims that read it; and what they do not: the claim reads the run without locking it, so two workers whose
  reads come before either commit both hold the run.
\<close>

section \<open>The two stores write the same rows\<close>

lemma map_of_snoc_dict: "dict_get (dict_update d kvs) k = (case map_of (rev kvs) k of None \<Rightarrow> dict_get d k | Some v \<Rightarrow> Some v)"
  by (induction d kvs rule: dict_update.induct) (auto simp: dict_get_set map_add_def split: option.split)

lemma rsplit_last_Cons: "rsplit_last c (x # s) = (if c \<in> set s then rsplit_last c s else if x = c then s else x # s)"
proof (cases "c \<in> set s")
  case True
  then show ?thesis by (simp add: rsplit_last_def takeWhile_append1)
next
  case False
  then have "takeWhile (\<lambda>y. y \<noteq> c) (rev s @ [x]) = rev s @ takeWhile (\<lambda>y. y \<noteq> c) [x]" by (intro takeWhile_append2) auto
  with False show ?thesis by (simp add: rsplit_last_def)
qed

lemma split_single: "c \<notin> set s \<Longrightarrow> py_split c s = [s]"
  by (induction s) auto

lemma split_some: "py_split c s \<noteq> []"
  by (cases s) (auto split: list.split)

lemma split_many: "c \<in> set s \<Longrightarrow> tl (py_split c s) \<noteq> []"
  by (induction s) (auto simp: split_some split: list.split)

lemma last_split: "last (py_split c s) = rsplit_last c s"
proof (induction s)
  case (Cons x s)
  show ?case
  proof (cases "c \<in> set s")
    case True
    from split_many [OF True] obtain w ws where "py_split c s = w # ws" "ws \<noteq> []" by (cases "py_split c s") auto
    with Cons True show ?thesis by (simp add: rsplit_last_Cons)
  qed (simp add: rsplit_last_Cons split_single)
qed (simp add: rsplit_last_def)

lemma files_agree: "package_files p = sql_files p (sn_files (pk_snapshot p))"
proof -
  have "sql_files p paths = map (\<lambda>path.
      let format_name = (case dict_get (dict_update [] (map (\<lambda>f. (fe_path f, py_upper (fe_format f))) (pk_formats p))) path of
              Some name \<Rightarrow> name
            | None \<Rightarrow>
                if sn_source (pk_snapshot p) \<noteq> None then after_last (CHR '':'') path
                else if CHR ''.'' \<in> set path then py_upper (after_last (CHR ''.'') path) else ''UNKNOWN'')
      in PDict [(''path'', PStr path), (''format'', PStr format_name)]) paths" for paths
    by (induction paths) (auto simp: map_of_snoc_dict dict_get_Nil after_last_def last_split Let_def split: option.split)
  then show ?thesis by (simp add: package_files_def Let_def)
qed

lemma source_agrees: "source_text p = sql_source p"
  by (simp add: source_text_def sql_source_def split: option.split source_kind_desc.split)

lemma book_agrees: "record_book p now d = sql_record_book p now d"
  by (simp add: record_book_def sql_record_book_def Let_def files_agree source_agrees split: option.split)

lemma evidence_agrees:
  "(case record_evidence p now d of Inl _ \<Rightarrow> None | Inr d' \<Rightarrow> Some d') = (case sql_record_evidence p now d of Inl _ \<Rightarrow> None | Inr d' \<Rightarrow> Some d')"
  by (auto simp: record_evidence_def sql_record_evidence_def Let_def simp del: py_eq.simps split: option.split)

lemma evidence_accepted: "record_evidence p now d = Inr d' \<longleftrightarrow> sql_record_evidence p now d = Inr d'"
  using evidence_agrees [of p now d] by (auto split: sum.splits)

lemma verdict_agrees: "package_verdict p = sql_verdict p"
  by (simp add: package_verdict_def sql_verdict_def)

lemma counted: "sql_count_rows xs n counts =
    (n + int (length (filter sealed_result xs)), foldl (\<lambda>counts x. count_state (vx_state x) counts) counts (filter sealed_result xs))"
proof (induction xs arbitrary: n counts)
  case (Cons x xs)
  show ?case
  proof (cases "sealed_result x")
    case True
    then show ?thesis by (simp add: Cons sealed_result_def count_state_def option.case_eq_if)
  next
    case False
    then show ?thesis by (simp add: Cons) (auto simp: sealed_result_def)
  qed
qed simp

lemma counts_agree: "refresh_counts rid d = sql_refresh_counts rid d"
  by (simp add: refresh_counts_def sql_refresh_counts_def counted Let_def)

section \<open>Simulation of the fenced store\<close>

definition unleased :: "verification_run \<Rightarrow> verification_run" where
  "unleased r = r\<lparr>vr_lease_owner := None, vr_lease_expires_at := None, vr_error_code := None\<rparr>"

text \<open>The tables as the plain store sees them: without leases and error codes, which only the fenced store writes.\<close>

definition plain :: "run_db \<Rightarrow> run_db" where
  "plain d = d\<lparr>rd_runs := map unleased (rd_runs d)\<rparr>"

lemma plain_simps [simp]:
  "rd_results (plain d) = rd_results d" "rd_main (plain d) = rd_main d" "results_of rid (plain d) = results_of rid d"
  "plain (d\<lparr>rd_results := xs\<rparr>) = (plain d)\<lparr>rd_results := xs\<rparr>" "plain (d\<lparr>rd_main := m\<rparr>) = (plain d)\<lparr>rd_main := m\<rparr>"
  "plain (upd_result rid k g d) = upd_result rid k g (plain d)" "vr_run_id (unleased r) = vr_run_id r"
  by (simp_all add: plain_def results_of_def upd_result_def unleased_def)

lemma find_run_plain [simp]: "find_run rid (plain d) = map_option unleased (find_run rid d)"
proof -
  have "row_first (\<lambda>r. vr_run_id r = rid) (map unleased xs) = map_option unleased (row_first (\<lambda>r. vr_run_id r = rid) xs)" for xs
    unfolding row_first_def by (induction xs) simp_all
  then show ?thesis by (simp add: find_run_def plain_def)
qed

lemma plain_upd_run:
  assumes "\<And>r. unleased (f r) = g (unleased r)"
  shows "plain (upd_run rid f d) = upd_run rid g (plain d)"
  using assms by (simp add: plain_def upd_run_def row_map_def)

lemma plain_refresh [simp]: "plain (sql_refresh_counts rid d) = sql_refresh_counts rid (plain d)"
  unfolding sql_refresh_counts_def by (simp split: prod.split, intro allI impI, subst plain_upd_run) (simp_all add: unleased_def)

lemma store_run_found:
  assumes "store_run c b m d = Inr r"
  shows "find_run (cl_run_id c) d = Some r"
  using assms by (auto simp: store_run_def load_owned_run_def Let_def split: sum.splits option.splits if_splits)

lemma store_result_sql: "store_result rid k d = Inr x \<Longrightarrow> sql_result rid k d = Inr x"
  by (auto simp: store_result_def sql_result_def split: option.splits)

lemma sql_result_plain [simp]: "sql_result rid k (plain d) = sql_result rid k d"
  by (simp add: sql_result_def)

lemma record_state_simulated:
  assumes "store_record_state c k st m d = (Inr (), d')"
  shows "sql_record_state (cl_run_id c) k st (plain d) = (Inr (), plain d')"
  using assms by (auto simp: store_record_state_def sql_record_state_def store_result_sql split: sum.splits)

lemma find_run_upd_result [simp]: "find_run rid (upd_result rid' k g d) = find_run rid d"
  by (simp add: find_run_def upd_result_def)

lemma find_run_main [simp]: "find_run rid (d\<lparr>rd_main := m\<rparr>) = find_run rid d"
  by (simp add: find_run_def)

lemma sql_run_found: "find_run rid d = Some r \<Longrightarrow> sql_run rid (plain d) = Inr (unleased r)"
  by (simp add: sql_run_def)

lemma record_package_simulated:
  assumes "store_record_package en c p m1 m2 d = (Inr (), d')"
  shows "sql_record_package en (cl_run_id c) p m1 (plain d) = (Inr (), plain d')"
  using assms
  by (auto simp: store_record_package_def sql_record_package_def Let_def sql_run_def store_result_sql book_agrees evidence_accepted
      verdict_agrees counts_agree split: sum.splits if_splits bool.splits dest!: store_run_found)

lemma finish_simulated:
  assumes "store_finish c status code m1 m2 d = (Inr (), d')"
  shows "sql_finish (cl_run_id c) status m2 (plain d) = (Inr (), plain d')"
proof -
  let ?f = "\<lambda>r. r\<lparr>vr_status := status, vr_error_code := code, vr_finished_at := Some m2, vr_lease_owner := None, vr_lease_expires_at := None\<rparr>"
  from assms obtain r where r: "store_run c True m1 d = Inr r" and d': "d' = upd_run (cl_run_id c) ?f (sql_refresh_counts (cl_run_id c) d)"
    by (auto simp: store_finish_def counts_agree split: sum.splits if_splits)
  have "plain d' = upd_run (cl_run_id c) (\<lambda>r. r\<lparr>vr_status := status, vr_finished_at := Some m2\<rparr>) (sql_refresh_counts (cl_run_id c) (plain d))"
    unfolding d' by (subst plain_upd_run [where g = "\<lambda>r. r\<lparr>vr_status := status, vr_finished_at := Some m2\<rparr>"]) (simp_all add: unleased_def)
  then show ?thesis using store_run_found [OF r] by (simp add: sql_finish_def sql_run_def)
qed

lemma sql_row_resumable:
  "sql_row_resumable en rid d x = Inr True \<Longrightarrow> result_resumable en rid d x = Inr True"
  "result_resumable en rid d x = Inl e \<Longrightarrow> sql_row_resumable en rid d x = Inl e"
  by (auto simp: sql_row_resumable_def result_resumable_def resumable_state_def sql_retryable_def simp del: py_eq.simps
      split: option.splits if_splits sum.splits)

lemma sql_resumable_subset:
  assumes "sql_resumable_keys en rid d xs = Inr ks"
  shows "\<exists>ks'. resumable_keys en rid d xs = Inr ks' \<and> set ks \<subseteq> set ks'"
  using assms
proof (induction xs arbitrary: ks)
  case (Cons x xs)
  then obtain b ls where x: "sql_row_resumable en rid d x = Inr b" "sql_resumable_keys en rid d xs = Inr ls"
      "ks = (if b then vx_book_key x # ls else ls)"
    by (auto split: sum.splits)
  from Cons.IH [OF x(2)] obtain ls' where ls': "resumable_keys en rid d xs = Inr ls'" "set ls \<subseteq> set ls'" by blast
  show ?case
  proof (cases "result_resumable en rid d x")
    case (Inl e)
    with sql_row_resumable(2) x(1) show ?thesis by fastforce
  next
    case (Inr b')
    moreover have "b \<Longrightarrow> b'" using sql_row_resumable(1) [of en rid d x] x(1) Inr by simp
    ultimately show ?thesis using ls' x(3) by auto
  qed
qed simp

datatype store_write = Record_state string audit_state | Record_package evidence_package_v2 | Finish string "string option"

fun fenced_write :: "env \<Rightarrow> claim \<Rightarrow> store_write \<times> time \<times> time \<Rightarrow> run_db \<Rightarrow> unit res \<times> run_db" where
  "fenced_write en c (Record_state k st, m1, m2) d = store_record_state c k st m1 d"
| "fenced_write en c (Record_package p, m1, m2) d = store_record_package en c p m1 m2 d"
| "fenced_write en c (Finish status code, m1, m2) d = store_finish c status code m1 m2 d"

fun plain_write :: "env \<Rightarrow> string \<Rightarrow> store_write \<times> time \<times> time \<Rightarrow> run_db \<Rightarrow> unit res \<times> run_db" where
  "plain_write en rid (Record_state k st, m1, m2) d = sql_record_state rid k st d"
| "plain_write en rid (Record_package p, m1, m2) d = sql_record_package en rid p m1 d"
| "plain_write en rid (Finish status code, m1, m2) d = sql_finish rid status m2 d"

text \<open>
  When a claim may write at the times \<open>m1\<close> and \<open>m2\<close>: the run is a Certificate A run that is not finished, leased to its owner under
  its fence until after the write; a cancelled run takes no new states; and the end is one of the terminal statuses.
\<close>

definition may_write :: "claim \<Rightarrow> store_write \<times> time \<times> time \<Rightarrow> run_db \<Rightarrow> bool" where
  "may_write c w d =
     (case w of (op, m1, m2) \<Rightarrow>
       (case find_run (cl_run_id c) d of
          None \<Rightarrow> False
        | Some r \<Rightarrow>
            vr_contract_version r = Some CERTIFICATE_A_CONTRACT_VERSION \<and> vr_finished_at r = None
            \<and> vr_status r \<in> {''pending'', ''inventorying'', ''running'', ''cancelling''}
            \<and> vr_lease_owner r = Some (cl_owner c) \<and> vr_fence_token r = cl_fence_token c
            \<and> (case vr_lease_expires_at r of None \<Rightarrow> False | Some expires \<Rightarrow>
                 m1 < expires \<and> (case op of Record_package p \<Rightarrow> m2 < expires | _ \<Rightarrow> True))
            \<and> (case op of
                 Record_state k st \<Rightarrow> vr_status r \<noteq> ''cancelling'' \<and> vr_cancel_requested_at r = None
               | Finish status code \<Rightarrow> status \<in> set TERMINAL_STATUSES
               | Record_package p \<Rightarrow> True)))"

lemma store_run_iff:
  "store_run c b m d = Inr r \<longleftrightarrow>
     find_run (cl_run_id c) d = Some r \<and> vr_contract_version r = Some CERTIFICATE_A_CONTRACT_VERSION \<and> vr_finished_at r = None
     \<and> vr_status r \<in> {''pending'', ''inventorying'', ''running'', ''cancelling''}
     \<and> vr_lease_owner r = Some (cl_owner c) \<and> vr_fence_token r = cl_fence_token c
     \<and> (\<exists>expires. vr_lease_expires_at r = Some expires \<and> m < expires)
     \<and> (b \<or> vr_status r \<noteq> ''cancelling'' \<and> vr_cancel_requested_at r = None)"
  by (auto simp: store_run_def load_owned_run_def Let_def CLAIMABLE_STATUSES_def split: option.splits if_splits)

lemma store_result_iff: "store_result rid k d = Inr x \<longleftrightarrow> sql_result rid k d = Inr x"
  by (auto simp: store_result_def sql_result_def split: option.splits)

lemma fst_Inr_unit: "fst p = Inr () \<longleftrightarrow> (\<exists>d. p = (Inr (), d))"
  by (cases p) auto

lemma fenced_write_needs_claim:
  assumes "fst (fenced_write en c w d) = Inr ()" shows "may_write c w d"
  using assms
  by (cases "(en, c, w, d)" rule: fenced_write.cases)
    (auto simp: store_record_state_def store_record_package_def store_finish_def Let_def may_write_def store_run_iff
      split: sum.splits if_splits bool.splits)

lemma store_run_cong: "find_run (cl_run_id c) d' = find_run (cl_run_id c) d \<Longrightarrow> store_run c b m d' = store_run c b m d"
  by (simp add: store_run_def load_owned_run_def)

lemma fenced_write_accepts:
  assumes "may_write c w d" "fst (plain_write en (cl_run_id c) w (plain d)) = Inr ()"
  shows "fst (fenced_write en c w d) = Inr ()"
proof (cases "(en, c, w, d)" rule: fenced_write.cases)
  case (1 en c k st m1 m2 d)
  obtain r where "store_run c False m1 d = Inr r" using assms(1) 1 unfolding store_run_iff by (auto simp: may_write_def split: option.splits)
  then show ?thesis using assms(2) 1
    by (auto simp: store_record_state_def sql_record_state_def store_result_iff split: sum.splits dest: sym)
      (metis store_result_iff sum.distinct(1) obj_sumE)
next
  case (2 en c p m1 m2 d)
  obtain r where r: "store_run c True m1 d = Inr r" "store_run c True m2 d = Inr r"
    using assms(1) 2 unfolding store_run_iff by (auto simp: may_write_def split: option.splits)
  from assms(2) 2 obtain main x where ok: "pk_run_id p = cl_run_id c" "verify_seal en p = Inr True"
      "sql_record_evidence p m1 (sql_record_book p m1 (rd_main d)) = Inr main" "sql_result (cl_run_id c) (pk_book_key p) d = Inr x"
    by (auto simp: sql_record_package_def Let_def split: if_splits sum.splits bool.splits)
  have again: "store_run c True m2 (upd_result rid k g (d\<lparr>rd_main := main\<rparr>)) = Inr r" for rid k g
    using r(2) by (simp add: store_run_cong [of c "upd_result rid k g (d\<lparr>rd_main := main\<rparr>)" d])
  have "fst (store_record_package en c p m1 m2 d) = Inr ()"
    using ok(1,2) r(1) ok(3) [folded evidence_accepted] ok(4) [folded store_result_iff] again
    by (simp add: store_record_package_def Let_def book_agrees)
  with 2 show ?thesis by simp
next
  case (3 en c status code m1 m2 d)
  obtain r where "store_run c True m1 d = Inr r" using assms(1) 3 unfolding store_run_iff by (auto simp: may_write_def split: option.splits)
  then show ?thesis using assms(1) 3 by (auto simp: store_finish_def may_write_def split: option.splits)
qed

text \<open>A sequence of writes under one claim: the writes the fenced store accepts and the final tables.\<close>

fun fenced_run :: "env \<Rightarrow> claim \<Rightarrow> (store_write \<times> time \<times> time) list \<Rightarrow> run_db \<Rightarrow> (store_write \<times> time \<times> time) list \<times> run_db" where
  "fenced_run en c [] d = ([], d)"
| "fenced_run en c (w # ws) d =
     (case fenced_write en c w d of
        (Inr _, d') \<Rightarrow> (case fenced_run en c ws d' of (acc, d'') \<Rightarrow> (w # acc, d''))
      | (Inl _, d') \<Rightarrow> fenced_run en c ws d')"

fun plain_runs :: "env \<Rightarrow> string \<Rightarrow> (store_write \<times> time \<times> time) list \<Rightarrow> run_db \<Rightarrow> run_db option" where
  "plain_runs en rid [] d = Some d"
| "plain_runs en rid (w # ws) d = (case plain_write en rid w d of (Inr _, d') \<Rightarrow> plain_runs en rid ws d' | (Inl _, _) \<Rightarrow> None)"

lemma fenced_write_refused: "fenced_write en c w d = (Inl e, d') \<Longrightarrow> d' = d"
  by (cases "(en, c, w, d)" rule: fenced_write.cases)
    (auto simp: store_record_state_def store_record_package_def store_finish_def Let_def split: sum.splits if_splits bool.splits)

lemma fenced_write_simulated:
  "fenced_write en c w d = (Inr (), d') \<Longrightarrow> plain_write en (cl_run_id c) w (plain d) = (Inr (), plain d')"
  by (cases "(en, c, w, d)" rule: fenced_write.cases) (auto simp: record_state_simulated record_package_simulated finish_simulated)

text \<open>
  Claim C31. The fenced store refines the plain one. A write is accepted exactly when the claim may make it and the plain store
  would accept it; the writes accepted in any sequence (states, sealed packages, the end of the run) have the effect the plain
  store's own code gives them on the same tables without leases (the book and evidence rows, the verdict, the counts), the others
  change nothing; and what the fenced store skips on a restart includes all that the plain store skips.
\<close>

theorem fenced_store_refines_plain_store:
  "(fst (fenced_write en c w d) = Inr () \<longleftrightarrow> may_write c w d \<and> fst (plain_write en (cl_run_id c) w (plain d)) = Inr ())
   \<and> plain_runs en (cl_run_id c) (fst (fenced_run en c ws d)) (plain d) = Some (plain (snd (fenced_run en c ws d)))
   \<and> (case sql_resumable_book_keys en rid d of
        Inl _ \<Rightarrow> True
      | Inr ks \<Rightarrow> (case resumable_keys en rid (rd_main d) (results_of rid d) of Inl _ \<Rightarrow> False | Inr ks' \<Rightarrow> set ks \<subseteq> set ks'))"
proof (intro conjI)
  show "fst (fenced_write en c w d) = Inr () \<longleftrightarrow> may_write c w d \<and> fst (plain_write en (cl_run_id c) w (plain d)) = Inr ()"
    using fenced_write_needs_claim [of en c w d] fenced_write_accepts [of c w d en] fenced_write_simulated [of en c w d]
    by (auto simp: fst_Inr_unit)
  show "plain_runs en (cl_run_id c) (fst (fenced_run en c ws d)) (plain d) = Some (plain (snd (fenced_run en c ws d)))"
  proof (induction ws arbitrary: d)
    case (Cons w ws)
    show ?case
    proof (cases "fst (fenced_write en c w d)")
      case (Inl e)
      then obtain d' where w: "fenced_write en c w d = (Inl e, d')" by (cases "fenced_write en c w d") auto
      with fenced_write_refused [OF w] Cons.IH show ?thesis by simp
    next
      case (Inr u)
      then obtain d' where w: "fenced_write en c w d = (Inr (), d')" by (cases "fenced_write en c w d") auto
      with fenced_write_simulated [OF w] Cons.IH [of d'] show ?thesis by (cases "fenced_run en c ws d'") simp
    qed
  qed simp
qed (use sql_resumable_subset [of en rid "rd_main d" "results_of rid d"] in \<open>force simp: sql_resumable_book_keys_def split: sum.split\<close>)

section \<open>Leases\<close>

lemma find_run_upd:
  assumes "\<And>r. vr_run_id (f r) = vr_run_id r"
  shows "find_run rid (upd_run rid' f d) = map_option (\<lambda>r. if vr_run_id r = rid' then f r else r) (find_run rid d)"
  unfolding find_run_def upd_run_simps by (rule row_first_row_map) (simp add: assms)

lemma find_run_results [simp]: "find_run rid (d\<lparr>rd_results := xs\<rparr>) = find_run rid d"
  by (simp add: find_run_def)

definition lease :: "verification_run \<Rightarrow> string option \<times> time option" where
  "lease r = (vr_lease_owner r, vr_lease_expires_at r)"

definition lease_of :: "string \<Rightarrow> run_db \<Rightarrow> (string option \<times> time option) option" where
  "lease_of rid d = map_option lease (find_run rid d)"

definition held :: "string \<Rightarrow> string \<Rightarrow> time \<Rightarrow> run_db \<Rightarrow> bool" where
  "held rid owner expires d = (lease_of rid d = Some (Some owner, Some expires))"

text \<open>
  What others may do while a lease that ends at \<open>expires\<close> runs. The state is the list of the tables committed since the claim, the
  newest first. A claim (made before that moment), a heartbeat or a release under another name, for any run, commits on the newest
  tables what it decided on any of these tables; a reset or a write of the plain store, which asks for no lease, may come between.
\<close>

inductive lease_step :: "env \<Rightarrow> string \<Rightarrow> time \<Rightarrow> run_db list \<Rightarrow> run_db list \<Rightarrow> bool" for en owner expires where
  claim: "o' \<noteq> owner \<Longrightarrow> m < expires \<Longrightarrow> seen \<in> set h \<Longrightarrow>
    lease_step en owner expires h (snd (claim_verification_run rid o' m ttl seen (hd h)) # h)"
| heartbeat: "o' \<noteq> owner \<Longrightarrow> seen \<in> set h \<Longrightarrow>
    lease_step en owner expires h (snd (heartbeat_verification_run rid o' m ttl seen (hd h)) # h)"
| release: "o' \<noteq> owner \<Longrightarrow> seen \<in> set h \<Longrightarrow> lease_step en owner expires h (release_verification_run rid o' seen (hd h) # h)"
| reset: "lease_step en owner expires h (snd (reset_stale_in_flight_states rid (hd h)) # h)"
| store: "lease_step en owner expires h (snd (plain_write en rid w (hd h)) # h)"

lemma lease_of_upd:
  assumes "\<And>r. vr_run_id (f r) = vr_run_id r" "\<And>r. lease (f r) = lease r"
  shows "lease_of k (upd_run rid f d) = lease_of k d"
  by (cases "find_run k d") (simp_all add: lease_of_def find_run_upd assms)

lemma lease_of_other:
  assumes "\<And>r. vr_run_id (f r) = vr_run_id r" "k \<noteq> rid"
  shows "lease_of k (upd_run rid f d) = lease_of k d"
  using assms(2) by (cases "find_run k d") (auto simp: lease_of_def find_run_upd assms(1) dest: find_runD)

lemma lease_of_simps [simp]:
  "lease_of k (upd_result rid b g d) = lease_of k d" "lease_of k (d\<lparr>rd_main := m\<rparr>) = lease_of k d"
  "lease_of k (d\<lparr>rd_results := xs\<rparr>) = lease_of k d" "lease_of k (sql_refresh_counts rid d) = lease_of k d"
  by (simp_all add: lease_of_def sql_refresh_counts_def split_beta lease_of_upd [unfolded lease_of_def] lease_def)

lemma plain_write_lease: "lease_of k (snd (plain_write en rid w d)) = lease_of k d"
  by (cases "(en, rid, w, d)" rule: plain_write.cases)
    (auto simp: sql_record_state_def sql_record_package_def sql_finish_def Let_def lease_of_upd lease_def split: sum.split bool.split)

lemma held_refuses:
  assumes "held k owner expires seen" "o' \<noteq> owner" "owner \<noteq> []"
  shows "m < expires \<Longrightarrow> snd (claim_verification_run k o' m ttl seen d) = d" "heartbeat_verification_run k o' m ttl seen d = (False, d)"
    "release_verification_run k o' seen d = d"
  using assms
  by (auto simp: claim_verification_run_def heartbeat_verification_run_def release_verification_run_def held_def lease_of_def lease_def leased_def
      split: option.splits)

lemma other_runs_kept:
  assumes "k \<noteq> rid"
  shows "lease_of k (snd (claim_verification_run rid o' m ttl seen d)) = lease_of k d"
    "lease_of k (snd (heartbeat_verification_run rid o' m ttl seen d)) = lease_of k d"
    "lease_of k (release_verification_run rid o' seen d) = lease_of k d"
  using assms
  by (simp_all add: claim_verification_run_def heartbeat_verification_run_def release_verification_run_def lease_of_other split: option.split)

definition all_held :: "string \<Rightarrow> string \<Rightarrow> time \<Rightarrow> run_db list \<Rightarrow> bool" where
  "all_held k owner expires h = (h \<noteq> [] \<and> (\<forall>d \<in> set h. held k owner expires d))"

lemma held_step:
  assumes "lease_step en owner expires h h'" "all_held k owner expires h" "owner \<noteq> []"
  shows "all_held k owner expires h'"
proof -
  have seen: "held k owner expires d" if "d \<in> set h" for d using assms(2) that by (simp add: all_held_def)
  have top: "hd h \<in> set h" using assms(2) by (simp add: all_held_def)
  from assms(1) have "\<exists>d'. h' = d' # h \<and> held k owner expires d'"
  proof cases
    case (claim o' m s rid ttl)
    then show ?thesis using held_refuses [OF seen [OF claim(4)] claim(2) assms(3)] other_runs_kept [of k rid] seen [OF top]
      by (cases "rid = k") (auto simp: held_def)
  next
    case (heartbeat o' s rid m ttl)
    then show ?thesis using held_refuses [OF seen [OF heartbeat(3)] heartbeat(2) assms(3)] other_runs_kept [of k rid] seen [OF top]
      by (cases "rid = k") (auto simp: held_def)
  next
    case (release o' s rid)
    then show ?thesis using held_refuses [OF seen [OF release(3)] release(2) assms(3)] other_runs_kept [of k rid] seen [OF top]
      by (cases "rid = k") (auto simp: held_def)
  qed (use seen [OF top] in \<open>simp_all add: held_def plain_write_lease reset_stale_in_flight_states_def\<close>)
  with assms(2) show ?thesis by (auto simp: all_held_def)
qed

lemma claim_holds:
  assumes "claim_verification_run rid owner m ttl seen d = (Inr True, d')" "lease_of rid seen = lease_of rid d"
  shows "held rid owner (m + seconds (max 1 ttl)) d' \<and> owner \<noteq> []"
proof -
  from assms(1) obtain run where seen: "find_run rid seen = Some run" and owner: "owner \<noteq> []"
    by (auto simp: claim_verification_run_def split: option.splits if_splits)
  with assms(2) obtain cur where cur: "find_run rid d = Some cur" "lease cur = lease run" by (cases "find_run rid d") (auto simp: lease_of_def)
  have "find_run rid d' = Some (cur\<lparr>
      vr_lease_owner := column_update (vr_lease_owner run) (Some owner) (vr_lease_owner cur),
      vr_lease_expires_at := column_update (vr_lease_expires_at run) (Some (m + seconds (max 1 ttl))) (vr_lease_expires_at cur),
      vr_status := (if vr_status run \<notin> set ACTIVE_RUN_STATUSES then ''running'' else vr_status cur)\<rparr>)"
    using assms(1) seen cur(1) owner find_runD [OF cur(1)]
    by (auto simp: claim_verification_run_def find_run_upd split: if_splits)
  with cur(2) owner show ?thesis by (auto simp: held_def lease_of_def lease_def column_update_def)
qed

text \<open>
  Claim C32. A live lease excludes the owners that read it, exactly until it ends: after a claim has committed on the lease it
  read, whatever others commit before the lease expires from reads made since, the run stays leased to its owner until that moment;
  a claim under another name that reads any of these tables before that moment is refused, as is every heartbeat and release, and
  leaves the tables it would commit on as they are; from that moment on such a claim succeeds if the run it read is unfinished.
\<close>

theorem live_lease_excludes_others:
  assumes claim: "claim_verification_run rid owner t0 ttl seen0 d = (Inr True, d1)" "lease_of rid seen0 = lease_of rid d"
    and steps: "(lease_step en owner (t0 + seconds (max 1 ttl)))\<^sup>*\<^sup>* [d1] h"
    and other: "owner' \<noteq> owner" "owner' \<noteq> []" and read: "seen \<in> set h"
  shows "held rid owner (t0 + seconds (max 1 ttl)) (hd h)
    \<and> (m < t0 + seconds (max 1 ttl) \<longrightarrow> claim_verification_run rid owner' m ttl' seen d2 = (Inr False, d2))
    \<and> heartbeat_verification_run rid owner' m ttl' seen d2 = (False, d2) \<and> release_verification_run rid owner' seen d2 = d2
    \<and> (t0 + seconds (max 1 ttl) \<le> m \<longrightarrow>
        (fst (claim_verification_run rid owner' m ttl' seen d2) = Inr True) = (\<exists>r. find_run rid seen = Some r \<and> vr_finished_at r = None
            \<and> vr_status r \<notin> set TERMINAL_RUN_STATUSES))"
proof -
  note held = claim_holds [OF claim]
  from steps have "all_held rid owner (t0 + seconds (max 1 ttl)) h"
  proof (induction rule: rtranclp_induct)
    case base
    with held show ?case by (simp add: all_held_def)
  next
    case (step y z)
    from held_step [OF step(2,3)] held show ?case by blast
  qed
  then have top: "held rid owner (t0 + seconds (max 1 ttl)) (hd h)" and s: "held rid owner (t0 + seconds (max 1 ttl)) seen"
    using read by (auto simp: all_held_def)
  from s obtain r where "find_run rid seen = Some r" "vr_lease_owner r = Some owner" "vr_lease_expires_at r = Some (t0 + seconds (max 1 ttl))"
    by (auto simp: held_def lease_of_def lease_def)
  with top held other show ?thesis
    by (auto simp: claim_verification_run_def heartbeat_verification_run_def release_verification_run_def leased_def)
qed

section \<open>Recovery\<close>

lemma stale_not_resumable: "stale_result x \<Longrightarrow> sql_row_resumable en rid d x = Inr False"
  by (auto simp: sql_row_resumable_def sql_retryable_def stale_result_def sealed_result_def TERMINAL_BOOK_STATES_def IN_FLIGHT_BOOK_STATES_def
      state_text_def)

lemma results_of_row_map:
  assumes "\<And>x. vx_run_id (f x) = vx_run_id x"
  shows "filter (\<lambda>x. vx_run_id x = rid) (row_map (\<lambda>x. vx_run_id x = k \<and> p x) f xs)
    = (if rid = k then row_map p f (filter (\<lambda>x. vx_run_id x = rid) xs) else filter (\<lambda>x. vx_run_id x = rid) xs)"
  unfolding row_map_def by (induction xs) (auto simp: assms)

lemma results_of_reset:
  "results_of k (snd (reset_stale_in_flight_states rid d))
     = (if k = rid then map (\<lambda>x. if stale_result x then x\<lparr>vx_state := ''pending''\<rparr> else x) (results_of rid d) else results_of k d)"
  by (simp add: reset_stale_in_flight_states_def results_of_def results_of_row_map) (simp add: row_map_def)

lemma pending_not_stale [simp]: "\<not> stale_result (x\<lparr>vx_state := ''pending''\<rparr>)"
  by (simp add: stale_result_def IN_FLIGHT_BOOK_STATES_def state_text_def)

lemma pending_not_resumable: "sql_row_resumable en rid d (x\<lparr>vx_state := ''pending''\<rparr>) = Inr False"
  by (simp add: sql_row_resumable_def TERMINAL_BOOK_STATES_def state_text_def)

lemma sql_resumable_keys_reset:
  "sql_resumable_keys en rid d (map (\<lambda>x. if stale_result x then x\<lparr>vx_state := ''pending''\<rparr> else x) xs) = sql_resumable_keys en rid d xs"
  by (induction xs) (simp_all add: stale_not_resumable pending_not_resumable split: sum.split)

text \<open>
  Recovery resets exactly the books in flight: the rows of the run whose work was interrupted become pending, their
  number is returned, every other row and every other table stays, no row is stale afterwards, a second reset changes nothing,
  and the books that a restart skips are the same before and after.
\<close>

theorem reset_is_exact:
  "let d' = snd (reset_stale_in_flight_states rid d) in
     results_of rid d' = map (\<lambda>x. if stale_result x then x\<lparr>vx_state := ''pending''\<rparr> else x) (results_of rid d)
     \<and> fst (reset_stale_in_flight_states rid d) = length (filter stale_result (results_of rid d))
     \<and> results_of k d' = (if k = rid then results_of rid d' else results_of k d) \<and> rd_runs d' = rd_runs d \<and> rd_main d' = rd_main d
     \<and> reset_stale_in_flight_states rid d' = (0, d') \<and> sql_resumable_book_keys en rid d' = sql_resumable_book_keys en rid d"
proof -
  define d' where "d' = snd (reset_stale_in_flight_states rid d)"
  have rows: "results_of rid d' = map (\<lambda>x. if stale_result x then x\<lparr>vx_state := ''pending''\<rparr> else x) (results_of rid d)"
    by (simp add: d'_def results_of_reset)
  have none: "filter stale_result (results_of rid d') = []" unfolding rows by (auto simp: filter_empty_conv)
  have "row_map (\<lambda>x. vx_run_id x = rid \<and> stale_result x) f (rd_results d') = rd_results d'" for f
    unfolding row_map_def by (rule map_idI) (use none in \<open>auto simp: results_of_def filter_empty_conv\<close>)
  then have again: "reset_stale_in_flight_states rid d' = (0, d')" using none by (simp add: reset_stale_in_flight_states_def)
  have same: "sql_resumable_book_keys en rid d' = sql_resumable_book_keys en rid d"
    using rows by (simp add: sql_resumable_book_keys_def sql_resumable_keys_reset) (simp add: d'_def reset_stale_in_flight_states_def)
  have "results_of k d' = (if k = rid then results_of rid d' else results_of k d)" by (simp add: d'_def results_of_reset)
  then show ?thesis
    using rows again same unfolding d'_def [symmetric] Let_def
    by (intro conjI) (simp_all add: d'_def reset_stale_in_flight_states_def)
qed

section \<open>Two claims that race\<close>

lemma sql_result_iff: "sql_result rid k d = Inr x \<longleftrightarrow> row_first (\<lambda>x. vx_run_id x = rid \<and> vx_book_key x = k) (rd_results d) = Some x"
  by (simp add: sql_result_def split: option.split)

lemma upd_run_result [simp]: "sql_result rid k (upd_run rid' f d) = sql_result rid k d"
  by (simp add: sql_result_def upd_run_def)

lemma lease_ops_result [simp]:
  "sql_result rid k (snd (claim_verification_run rid' o' m ttl seen d)) = sql_result rid k d"
  "sql_result rid k (snd (heartbeat_verification_run rid' o' m ttl seen d)) = sql_result rid k d"
  by (auto simp: claim_verification_run_def heartbeat_verification_run_def split: option.split)

lemma reset_result:
  assumes "sql_result rid k d = Inr x"
  shows "sql_result rid k (snd (reset_stale_in_flight_states rid d)) = Inr (if stale_result x then x\<lparr>vx_state := ''pending''\<rparr> else x)"
proof -
  have "row_first (\<lambda>x. vx_run_id x = rid \<and> vx_book_key x = k) (row_map (\<lambda>x. vx_run_id x = rid \<and> stale_result x) (\<lambda>x. x\<lparr>vx_state := ''pending''\<rparr>) (rd_results d))
      = map_option (\<lambda>x. if vx_run_id x = rid \<and> stale_result x then x\<lparr>vx_state := ''pending''\<rparr> else x)
          (row_first (\<lambda>x. vx_run_id x = rid \<and> vx_book_key x = k) (rd_results d))"
    by (rule row_first_row_map) simp
  moreover have "vx_run_id x = rid" using assms unfolding sql_result_iff by (auto dest: row_first_Some)
  ultimately show ?thesis using assms by (simp add: sql_result_iff reset_stale_in_flight_states_def)
qed

lemma record_state_result:
  assumes "sql_result rid k d = Inr x"
  shows "\<exists>d'. sql_record_state rid k st d = (Inr (), d') \<and> sql_result rid k d' = Inr (x\<lparr>vx_state := state_text st\<rparr>) \<and> find_run rid d' = find_run rid d"
proof -
  have "row_first (\<lambda>x. vx_run_id x = rid \<and> vx_book_key x = k) (row_map (\<lambda>x. vx_run_id x = rid \<and> vx_book_key x = k) f (rd_results d))
      = map_option (\<lambda>x. if vx_run_id x = rid \<and> vx_book_key x = k then f x else x)
          (row_first (\<lambda>x. vx_run_id x = rid \<and> vx_book_key x = k) (rd_results d))"
    if "\<And>x. vx_run_id (f x) = vx_run_id x" "\<And>x. vx_book_key (f x) = vx_book_key x" for f
    by (rule row_first_row_map) (simp add: that)
  from this [of "\<lambda>x. x\<lparr>vx_state := state_text st\<rparr>"] assms
  have "sql_result rid k (upd_result rid k (\<lambda>x. x\<lparr>vx_state := state_text st\<rparr>) d) = Inr (x\<lparr>vx_state := state_text st\<rparr>)"
    by (auto simp: sql_result_iff upd_result_def dest: row_first_Some)
  with assms show ?thesis by (simp add: sql_record_state_def)
qed

lemma extracting_stale: "stale_result (x\<lparr>vx_state := state_text bs_extracting\<rparr>)"
  by (simp add: stale_result_def sealed_result_def TERMINAL_BOOK_STATES_def IN_FLIGHT_BOOK_STATES_def state_text_def)

text \<open>
  Claim C28. A claim is not atomic: when two workers read an unfinished run that nobody has leased before either commits, both
  claims succeed. The first worker's claim, reset and heartbeat pass and it begins a book; a second worker who reads the run then is
  refused, but one who had read it before still commits its claim, puts the first worker's book back to pending and passes its
  own heartbeat, so that both audit the run.
\<close>

theorem racing_claims_both_hold:
  assumes run: "find_run rid d = Some r" "vr_finished_at r = None" "vr_status r \<notin> set TERMINAL_RUN_STATUSES" "vr_lease_owner r = None"
    and book: "sql_result rid k d = Inr x" and owners: "owner1 \<noteq> []" "owner2 \<noteq> []" "owner1 \<noteq> owner2"
    and live: "m2 < t1 + seconds (max 1 ttl)"
  shows "\<exists>d1 d2 d3 d4 d5 d6 x'. claim_verification_run rid owner1 m1 ttl d d = (Inr True, d1)
    \<and> d2 = snd (reset_stale_in_flight_states rid d1) \<and> heartbeat_verification_run rid owner1 t1 ttl d2 d2 = (True, d3)
    \<and> sql_record_state rid k bs_extracting d3 = (Inr (), d4)
    \<and> claim_verification_run rid owner2 m2 ttl d4 d4 = (Inr False, d4)
    \<and> claim_verification_run rid owner2 m2 ttl d d4 = (Inr True, d5)
    \<and> d6 = snd (reset_stale_in_flight_states rid d5) \<and> fst (heartbeat_verification_run rid owner2 t2 ttl d6 d6)
    \<and> sql_result rid k d6 = Inr x' \<and> vx_state x' = ''pending''"
proof -
  have id: "vr_run_id r = rid" using find_runD [OF run(1)] by simp
  have free: "\<not> leased m r" for m using run(4) by (simp add: leased_def)
  define r1 where "r1 = r\<lparr>vr_lease_owner := Some owner1, vr_lease_expires_at := Some (m1 + seconds (max 1 ttl)),
    vr_status := (if vr_status r \<notin> set ACTIVE_RUN_STATUSES then ''running'' else vr_status r)\<rparr>"
  have r1: "vr_run_id r1 = rid" "vr_lease_owner r1 = Some owner1" "vr_finished_at r1 = None" "vr_status r1 \<notin> set TERMINAL_RUN_STATUSES"
    using id run(2,3) by (simp_all add: r1_def TERMINAL_RUN_STATUSES_def)
  obtain d1 where c1: "claim_verification_run rid owner1 m1 ttl d d = (Inr True, d1)" and f1: "find_run rid d1 = Some r1"
    using run owners free id by (auto simp: claim_verification_run_def find_run_upd column_update_def r1_def)
  define d2 where "d2 = snd (reset_stale_in_flight_states rid d1)"
  have f2: "find_run rid d2 = Some r1" by (simp add: d2_def reset_stale_in_flight_states_def f1)
  define r3 where "r3 = r1\<lparr>vr_lease_expires_at := Some (t1 + seconds (max 1 ttl))\<rparr>"
  obtain d3 where c3: "heartbeat_verification_run rid owner1 t1 ttl d2 d2 = (True, d3)" and f3: "find_run rid d3 = Some r3"
    using f2 r1 by (auto simp: heartbeat_verification_run_def find_run_upd column_update_def r3_def)
  have "sql_result rid k d1 = Inr x" using lease_ops_result(1) [of rid k rid owner1 m1 ttl d d] book by (simp add: c1)
  from reset_result [OF this] obtain x2 where "sql_result rid k d2 = Inr x2" by (simp add: d2_def)
  with lease_ops_result(2) [of rid k rid owner1 t1 ttl d2 d2] have "sql_result rid k d3 = Inr x2" by (simp add: c3)
  from record_state_result [OF this, of bs_extracting] obtain d4 where c4: "sql_record_state rid k bs_extracting d3 = (Inr (), d4)"
      and x4: "sql_result rid k d4 = Inr (x2\<lparr>vx_state := state_text bs_extracting\<rparr>)" and f4: "find_run rid d4 = Some r3"
    using f3 by auto
  have late: "claim_verification_run rid owner2 m2 ttl d4 d4 = (Inr False, d4)"
    using f4 r1 owners live by (simp add: claim_verification_run_def r3_def leased_def)
  obtain d5 r5 where c5: "claim_verification_run rid owner2 m2 ttl d d4 = (Inr True, d5)" and f5: "find_run rid d5 = Some r5"
      "vr_lease_owner r5 = Some owner2" "vr_status r5 \<notin> set TERMINAL_RUN_STATUSES"
    using run owners free f4 r1 by (auto simp: claim_verification_run_def find_run_upd column_update_def r3_def TERMINAL_RUN_STATUSES_def)
  have "sql_result rid k d5 = Inr (x2\<lparr>vx_state := state_text bs_extracting\<rparr>)"
    using lease_ops_result(1) [of rid k rid owner2 m2 ttl d d4] x4 by (simp add: c5)
  from reset_result [OF this] extracting_stale
  have x6: "sql_result rid k (snd (reset_stale_in_flight_states rid d5)) = Inr (x2\<lparr>vx_state := ''pending''\<rparr>)" by simp
  have "fst (heartbeat_verification_run rid owner2 t2 ttl (snd (reset_stale_in_flight_states rid d5)) (snd (reset_stale_in_flight_states rid d5)))"
    using f5 by (simp add: heartbeat_verification_run_def reset_stale_in_flight_states_def)
  with c1 c3 c4 late c5 x6 show ?thesis unfolding d2_def by (intro exI conjI) (assumption | rule refl | simp)+
qed

section \<open>A concrete run\<close>

definition durable_db :: run_db where
  "durable_db = \<lparr>rd_runs = [plain_run 1 ''v'' 0 1 False ''shadow''],
     rd_results = [\<lparr>vx_id = 1, vx_result_id = ''r'', vx_run_id = ''v'', vx_book_key = ''calibre:3'', vx_verdict = [],
       vx_evidence_id = None, vx_state = ''extracting'', vx_created_at = 0\<rparr>], rd_main = empty_db\<rparr>"

lemma durable_run: "find_run ''v'' durable_db = Some (plain_run 1 ''v'' 0 1 False ''shadow'')"
  by (simp add: find_run_def row_first_def durable_db_def plain_run_def)

lemma durable_claim: "fst (claim_verification_run ''v'' ''w1'' 0 120 durable_db durable_db) = Inr True"
  by (simp add: claim_verification_run_def durable_run plain_run_def TERMINAL_RUN_STATUSES_def leased_def)

theorem live_lease_excludes_others_witness:
  "\<exists>d. claim_verification_run ''v'' ''w1'' 0 120 durable_db durable_db = (Inr True, d)
     \<and> claim_verification_run ''v'' ''w2'' 119999999 120 d d = (Inr False, d)
     \<and> fst (claim_verification_run ''v'' ''w2'' 120000000 120 d d) = Inr True"
proof -
  obtain d where d: "claim_verification_run ''v'' ''w1'' 0 120 durable_db durable_db = (Inr True, d)" using durable_claim by (metis prod.collapse)
  then have run: "\<exists>r. find_run ''v'' d = Some r \<and> vr_finished_at r = None \<and> vr_status r \<notin> set TERMINAL_RUN_STATUSES"
    by (auto simp: claim_verification_run_def durable_run plain_run_def find_run_upd leased_def TERMINAL_RUN_STATUSES_def)
  note law = live_lease_excludes_others [OF d refl rtranclp.rtrancl_refl, of "''w2''" d _ 120 d]
  from law [of 119999999] have "claim_verification_run ''v'' ''w2'' 119999999 120 d d = (Inr False, d)" by (simp add: seconds_def)
  moreover from law [of 120000000] run have "fst (claim_verification_run ''v'' ''w2'' 120000000 120 d d) = Inr True" by (simp add: seconds_def)
  ultimately show ?thesis using d by blast
qed

theorem racing_claims_both_hold_witness:
  "\<exists>d1 d2 d3 d4 d5. claim_verification_run ''v'' ''w1'' 0 120 durable_db durable_db = (Inr True, d1)
     \<and> heartbeat_verification_run ''v'' ''w1'' 1 120 d2 d2 = (True, d3)
     \<and> claim_verification_run ''v'' ''w2'' 2 120 d4 d4 = (Inr False, d4)
     \<and> claim_verification_run ''v'' ''w2'' 2 120 durable_db d4 = (Inr True, d5)"
proof -
  have "\<exists>x. sql_result ''v'' ''calibre:3'' durable_db = Inr x" by (simp add: sql_result_def durable_db_def row_first_def)
  then obtain x where x: "sql_result ''v'' ''calibre:3'' durable_db = Inr x" by blast
  show ?thesis
    using racing_claims_both_hold [OF durable_run _ _ _ x, of "''w1''" "''w2''" 2 1 120 0 3]
    by (auto simp: plain_run_def TERMINAL_RUN_STATUSES_def seconds_def)
qed

end
