(* ===== verification/DurableRuns.thy ===== *)
theory DurableRuns
  imports DurableLaws
begin

text \<open>Whole runs of the plain store: who may end them, and which runs recovery cannot resume.\<close>

section \<open>Evaluation\<close>

definition alone :: "'w exec \<Rightarrow> bool" where
  "alone s = (ex_others s = (\<lambda>_ d. d))"

lemma transact_alone:
  assumes "alone s"
  shows "transact 0 f s = (case f (ex_clock s (ex_ticks s)) (ex_clock s (Suc (ex_ticks s))) [] (ex_db s) of
    (r, d) \<Rightarrow> (r, s\<lparr>ex_db := d, ex_ticks := Suc (Suc (ex_ticks s))\<rparr>))"
  using assms by (simp add: transact_def alone_def Let_def)

lemma alone_simps [simp]: "alone (s\<lparr>ex_db := d\<rparr>) = alone s" "alone (s\<lparr>ex_ticks := n\<rparr>) = alone s" "alone (s\<lparr>ex_world := w\<rparr>) = alone s"
  by (simp_all add: alone_def)

text \<open>
  The end of a run is not fenced: while the lease of a run is held by a second worker, the first worker can still
  end the run under any status; the lease stays with the second worker, whose next heartbeat is refused when the status is a
  terminal one, and who can no longer claim the run.
\<close>

theorem finish_needs_no_lease:
  assumes "held rid owner expires d" "status \<in> set TERMINAL_RUN_STATUSES"
  shows "\<exists>d'. sql_finish rid status now d = (Inr (), d') \<and> held rid owner expires d'
    \<and> heartbeat_verification_run rid owner m ttl d' d' = (False, d')
    \<and> (owner \<noteq> [] \<longrightarrow> claim_verification_run rid owner m ttl d' d' = (Inr False, d'))"
proof -
  obtain r where r: "find_run rid d = Some r" using assms(1) by (auto simp: held_def lease_of_def)
  let ?d = "upd_run rid (\<lambda>r. r\<lparr>vr_status := status, vr_finished_at := Some now\<rparr>) (sql_refresh_counts rid d)"
  have "\<exists>r'. find_run rid ?d = Some r' \<and> vr_status r' = status \<and> vr_finished_at r' = Some now"
    using find_runD [OF r] by (simp add: find_run_upd sql_refresh_counts_def split_beta r)
  moreover have "held rid owner expires ?d" using assms(1) by (simp add: held_def lease_of_upd lease_def)
  ultimately show ?thesis using assms(2) r
    by (auto simp: sql_finish_def sql_run_def heartbeat_verification_run_def claim_verification_run_def)
qed

section \<open>Runs over a part of the library\<close>

lemma persisted_refused:
  fixes s :: "'w exec"
  assumes "alone s" and run: "find_run rid (ex_db s) = Some r" "vr_pipeline_version r = ''manifestation-v2''" "vr_mode r = ''shadow''"
    and books: "pl_list_books cli s = (Inr listed, s)" "sorted_books listed 0 = Inr chosen"
    and other: "results_of rid (ex_db s) \<noteq> []" "set (map vx_book_key (results_of rid (ex_db s))) \<noteq> set (persisted_book_keys cs chosen)"
  shows "\<exists>n. run_persisted_library_audit en cli cs rid 0 shadow use_llm None s
    = (Inl (ValueError ''run_id library membership differs from the frozen V2 snapshot''), s\<lparr>ex_ticks := n\<rparr>)"
proof -
  have "sql_start rid (persisted_book_keys cs chosen) ''shadow'' use_llm m1 m2 us (ex_db s)
      = (Inl (ValueError ''run_id library membership differs from the frozen V2 snapshot''), ex_db s)" for m1 m2 us
    using run other by (simp add: sql_start_def Let_def)
  then show ?thesis
    using assms(1) by (simp add: run_persisted_library_audit_def bnd_def thn_def lift_res_def books mode_text_def tx_sql_start_def
        transact_def Let_def alone_def) (rule exI, rule refl)
qed

lemma reset_keys: "map vx_book_key (results_of k (snd (reset_stale_in_flight_states rid d))) = map vx_book_key (results_of k d)"
  by (simp add: results_of_reset comp_def if_distrib [of vx_book_key] cong: if_cong)

lemma find_run_reset [simp]: "find_run k (snd (reset_stale_in_flight_states rid d)) = find_run k d"
  by (simp add: reset_stale_in_flight_states_def)

text \<open>
  Claim C33. Recovery cannot resume a run over a part of the library: it runs a resumed audit over the whole library, so when the
  books of the run, frozen at its start, are not those of the library (a limit was given, or the library has changed since), the
  resumed run ends as failed without looking at a book, and its results stay as they were.
\<close>

theorem partial_run_is_not_resumed:
  fixes s :: "'w exec"
  assumes "alone s" "owner \<noteq> []"
    and run: "find_run rid (ex_db s) = Some r" "vr_pipeline_version r = ''manifestation-v2''" "vr_mode r = ''shadow''"
      "vr_finished_at r = None" "vr_status r \<notin> set TERMINAL_RUN_STATUSES" "\<not> leased (ex_clock s (ex_ticks s)) r"
    and library: "\<And>t. pl_list_books cli t = (Inr listed, t)" "sorted_books listed 0 = Inr chosen"
    and partial: "results_of rid (ex_db s) \<noteq> []" "set (map vx_book_key (results_of rid (ex_db s))) \<noteq> set (persisted_book_keys cs chosen)"
  shows "\<exists>e s' r'. execute_claimed_v2_library_audit en (ret cli) cs rid owner use_llm None ttl s = (Inl e, s')
    \<and> find_run rid (ex_db s') = Some r' \<and> vr_status r' = ''failed'' \<and> vr_finished_at r' \<noteq> None
    \<and> map vx_evidence_id (results_of rid (ex_db s')) = map vx_evidence_id (results_of rid (ex_db s))"
proof -
  have id: "vr_run_id r = rid" using find_runD [OF run(1)] by simp
  define expires where "expires = ex_clock s (ex_ticks s) + seconds (max 1 ttl)"
  define r1 where "r1 = r\<lparr>vr_lease_owner := Some owner, vr_lease_expires_at := Some expires,
    vr_status := (if vr_status r \<notin> set ACTIVE_RUN_STATUSES then ''running'' else vr_status r)\<rparr>"
  obtain d1 where claim: "claim_verification_run rid owner (ex_clock s (ex_ticks s)) ttl (ex_db s) (ex_db s) = (Inr True, d1)"
      and d1: "find_run rid d1 = Some r1" "rd_results d1 = rd_results (ex_db s)" "rd_main d1 = rd_main (ex_db s)"
    using run assms(2) id
    by (simp add: claim_verification_run_def find_run_upd r1_def expires_def column_update_def) (simp add: upd_run_def)
  define d2 where "d2 = snd (reset_stale_in_flight_states rid d1)"
  obtain n where reset: "reset_stale_in_flight_states rid d1 = (n, d2)" by (metis d2_def prod.collapse)
  define t where "t = ex_ticks s"
  define f :: "verification_run \<Rightarrow> verification_run" where "f = (\<lambda>x. x\<lparr>vr_lease_expires_at := column_update (vr_lease_expires_at r1)
    (Some (ex_clock s (Suc (Suc (Suc (Suc (Suc (Suc t)))))) + seconds (max 1 ttl))) (vr_lease_expires_at x)\<rparr>)"
  define d3 where "d3 = upd_run rid f d2"
  have d2: "find_run rid d2 = Some r1" by (simp add: d2_def d1(1))
  have active: "vr_lease_owner r1 = Some owner" "vr_status r1 \<notin> set TERMINAL_RUN_STATUSES" "vr_run_id r1 = rid"
    using run(5) id by (simp_all add: r1_def TERMINAL_RUN_STATUSES_def)
  have beat: "heartbeat_verification_run rid owner (ex_clock s (Suc (Suc (Suc (Suc (Suc (Suc t))))))) ttl d2 d2 = (True, d3)"
    using d2 active by (simp add: heartbeat_verification_run_def d3_def f_def)
  define s3 where "s3 = s\<lparr>ex_db := d3, ex_ticks := Suc (Suc (Suc (Suc (Suc (Suc (Suc (Suc (Suc (Suc t)))))))))\<rparr>"
  have d3: "find_run rid d3 = Some (f r1)" "results_of rid d3 = results_of rid d2"
    using d2 active(3) by (simp_all add: d3_def find_run_upd f_def)
  have keys: "map vx_book_key (results_of rid d3) = map vx_book_key (results_of rid (ex_db s))"
    by (simp add: d3(2) d2_def reset_keys) (simp add: results_of_def d1(2))
  have pre: "alone s3" "find_run rid (ex_db s3) = Some (f r1)" "vr_pipeline_version (f r1) = ''manifestation-v2''"
      "vr_mode (f r1) = ''shadow''" "results_of rid (ex_db s3) \<noteq> []"
      "set (map vx_book_key (results_of rid (ex_db s3))) \<noteq> set (persisted_book_keys cs chosen)"
  proof -
    show "results_of rid (ex_db s3) \<noteq> []" using keys partial(1) by (auto simp: s3_def)
    show "set (map vx_book_key (results_of rid (ex_db s3))) \<noteq> set (persisted_book_keys cs chosen)"
      using partial(2) by (simp add: s3_def keys del: set_map)
  qed (use assms(1) d3(1) run(2,3) in \<open>simp_all add: s3_def f_def r1_def\<close>)
  obtain k where refused: "run_persisted_library_audit en cli cs rid 0 shadow use_llm None s3
      = (Inl (ValueError ''run_id library membership differs from the frozen V2 snapshot''), s3\<lparr>ex_ticks := k\<rparr>)"
    using persisted_refused [OF pre(1-4) library pre(5,6), of en use_llm] by (auto simp: s3_def)
  have ids: "map vx_evidence_id (results_of rid d3) = map vx_evidence_id (results_of rid (ex_db s))"
    by (simp add: d3(2) d2_def results_of_reset comp_def if_distrib [of vx_evidence_id] cong: if_cong) (simp add: results_of_def d1(2))
  show ?thesis
    using assms(1) d3 active ids
    by (simp add: execute_claimed_v2_library_audit_def bnd_def thn_def try_else_def try_except_def any_exception_def ret_def raise_def
        tx_claim_def tx_heartbeat_def tx_release_def read_then_commit_def transact_read_def transact_alone claim reset beat [unfolded t_def] refused [unfolded s3_def t_def] tx_sql_finish_def Let_def
        sql_finish_def sql_run_def sql_refresh_counts_def split_beta release_verification_run_def find_run_upd s3_def f_def r1_def id t_def)
qed

section \<open>Requests of the other kind\<close>

text \<open>
  Claim C34. Crash recovery of the web application takes every unfinished manifestation-v2 run for its own: a Certificate A
  request that waits for its verifier has no books yet, so recovery finds no book incomplete and closes the request as
  completed, with nothing audited, and no verifier can claim it any more.
\<close>

theorem recovery_closes_waiting_requests:
  fixes s :: "'w exec"
  assumes "alone s" "rd_runs (ex_db s) = [r]" "rd_results (ex_db s) = []"
    and waiting: "vr_status r = ''pending''" "vr_finished_at r = None" "vr_lease_owner r = None"
      "vr_pipeline_version r = ''manifestation-v2''" "vr_contract_version r = Some CERTIFICATE_A_CONTRACT_VERSION"
  shows "\<exists>s' r'. recover_orphaned_v2_runs en lib_path s = (Inr [], s') \<and> rd_runs (ex_db s') = [r'] \<and> vr_run_id r' = vr_run_id r
    \<and> vr_status r' = ''completed'' \<and> vr_finished_at r' \<noteq> None \<and> vr_completed r' = 0 \<and> rd_results (ex_db s') = []
    \<and> (owner \<noteq> [] \<and> length owner \<le> 128 \<longrightarrow> claim_next_certificate_a_run owner m ttl None (ex_db s') = (Inr None, ex_db s'))"
proof -
  have found: "find_run (vr_run_id r) (ex_db s) = Some r" by (simp add: find_run_def row_first_def assms(2))
  have listed: "list_recoverable_v2_run_ids m (ex_db s) = [vr_run_id r]" for m
    using waiting by (simp add: list_recoverable_v2_run_ids_def assms(2) TERMINAL_RUN_STATUSES_def leased_def)
  have none: "results_of rid (ex_db s) = []" for rid by (simp add: results_of_def assms(3))
  show ?thesis
    using assms(1) waiting
    by (simp add: recover_orphaned_v2_runs_def bnd_def thn_def try_except_def ret_def transact_read_def transact_alone listed
        incomplete_book_keys_def sql_resumable_book_keys_def none tx_sql_finish_def sql_finish_def sql_run_def found sql_refresh_counts_def split_beta Let_def)
      (simp add: claim_next_certificate_a_run_def claim_candidate_def claim_predicate_def assms(2,3) row_map_def Let_def)
qed

section \<open>Concrete runs\<close>

definition durable_cli :: "unit exec pipeline" where
  "durable_cli = \<lparr>pl_list_books = ret [[(''id'', PInt 3)], [(''id'', PInt 4)]], pl_show_metadata = (\<lambda>_. ret []),
     pl_format_references = (\<lambda>_ _. ret []), pl_format_from_reference = ret, pl_export_format = (\<lambda>_ _. raise (OSError ''missing'')),
     pl_assert_unchanged = None, pl_open_file_beneath = (\<lambda>_ _. ret ()), pl_source = None, pl_library_root = Some ''/lib'',
     pl_inspector = (\<lambda>_. raise (OSError ''missing'')),
     pl_collect = (\<lambda>_ _. ret \<lparr>er_evidence = [], er_privacy_receipts = [], er_warnings = []\<rparr>),
     pl_collect_materialized = None, pl_collect_aggregate = None, pl_state_callback = None, pl_package_callback = None,
     pl_now = ret ''now'', pl_uuid = ret ''u''\<rparr>"

definition durable_source :: "unit cli_source" where
  "durable_source = \<lparr>cs_kind = None, cs_fingerprint = [], cs_library_path = Some ''/lib'', cs_scratch = None\<rparr>"

definition durable_exec :: "run_db \<Rightarrow> unit exec" where
  "durable_exec d = \<lparr>ex_db = d, ex_world = (), ex_others = (\<lambda>_ d. d), ex_clock = (\<lambda>_. 1), ex_uuids = show_nat,
     ex_lost = (\<lambda>_. False), ex_ticks = 0\<rparr>"

theorem finish_needs_no_lease_witness:
  "\<exists>d d'. claim_verification_run ''v'' ''w2'' 0 120 durable_db durable_db = (Inr True, d) \<and> sql_finish ''v'' ''failed'' 1 d = (Inr (), d')
     \<and> heartbeat_verification_run ''v'' ''w2'' 1 120 d' d' = (False, d')"
proof -
  have "fst (claim_verification_run ''v'' ''w2'' 0 120 durable_db durable_db) = Inr True"
    by (simp add: claim_verification_run_def durable_run plain_run_def TERMINAL_RUN_STATUSES_def leased_def)
  then obtain d where d: "claim_verification_run ''v'' ''w2'' 0 120 durable_db durable_db = (Inr True, d)" by (metis prod.collapse)
  from finish_needs_no_lease [OF conjunct1 [OF claim_holds [OF d refl]], of "''failed''" 1 1 120] d show ?thesis
    by (auto simp: TERMINAL_RUN_STATUSES_def)
qed

theorem partial_run_is_not_resumed_witness:
  "\<exists>e s' r'. execute_claimed_v2_library_audit cert_env (ret durable_cli) durable_source ''v'' ''recover-1'' False None 120 (durable_exec durable_db)
     = (Inl e, s') \<and> find_run ''v'' (ex_db s') = Some r' \<and> vr_status r' = ''failed''"
proof -
  have books: "sorted_books [[(''id'', PInt 3)], [(''id'', PInt 4)]] 0 = Inr [(3, [(''id'', PInt 3)]), (4, [(''id'', PInt 4)])]" by code_simp
  have keys: "persisted_book_keys durable_source [(3, [(''id'', PInt 3)]), (4, [(''id'', PInt 4)])] = [''calibre:3'', ''calibre:4'']" by code_simp
  have lib: "pl_list_books durable_cli t = (Inr [[(''id'', PInt 3)], [(''id'', PInt 4)]], t)" for t by (simp add: durable_cli_def ret_def)
  have rows: "results_of ''v'' (ex_db (durable_exec durable_db)) \<noteq> []"
      "map vx_book_key (results_of ''v'' (ex_db (durable_exec durable_db))) = [''calibre:3'']"
    by (simp_all add: durable_exec_def results_of_def durable_db_def)
  have "\<exists>e s' r'. execute_claimed_v2_library_audit cert_env (ret durable_cli) durable_source ''v'' ''recover-1'' False None 120 (durable_exec durable_db) = (Inl e, s')
      \<and> find_run ''v'' (ex_db s') = Some r' \<and> vr_status r' = ''failed'' \<and> vr_finished_at r' \<noteq> None
      \<and> map vx_evidence_id (results_of ''v'' (ex_db s')) = map vx_evidence_id (results_of ''v'' (ex_db (durable_exec durable_db)))"
    by (rule partial_run_is_not_resumed [OF _ _ _ _ _ _ _ _ lib books rows(1), where r = "plain_run 1 ''v'' 0 1 False ''shadow''"])
      (simp_all add: alone_def rows(2) keys del: set_map, simp_all add: durable_exec_def durable_run plain_run_def TERMINAL_RUN_STATUSES_def leased_def)
  then show ?thesis by blast
qed

theorem recovery_closes_waiting_requests_witness:
  "\<exists>s' r'. recover_orphaned_v2_runs cert_env (Some ''/lib'') (durable_exec requested_db) = (Inr [], s') \<and> rd_runs (ex_db s') = [r']
     \<and> vr_run_id r' = ''verify_u'' \<and> vr_status r' = ''completed''"
  using recovery_closes_waiting_requests [of "durable_exec requested_db" cert_run cert_env "Some ''/lib''" "''w''" 0 120]
  by (auto simp: alone_def durable_exec_def requested_db_def no_runs_def)

end
