(* ===== verification/OfflineFacts.thy ===== *)
theory OfflineFacts
  imports OfflineLaws
begin

text \<open>What holds of every offline source that was opened, and which libraries cannot be opened.\<close>

section \<open>References\<close>

lemma py_partition_append: "c \<notin> set a \<Longrightarrow> py_partition c (a @ c # b) = (a, Some b)"
  by (induction a) auto

lemma show_int_digits: "0 < i \<Longrightarrow> py_isdigit (show_int i) \<and> int (nat_of_digits (show_int i)) = i"
  by (simp add: show_int_def py_isdigit_def show_nat_digits)

lemma no_colon: "0 < i \<Longrightarrow> CHR '':'' \<notin> set (show_int i)"
  using show_int_digits [of i] by (auto simp: py_isdigit_def list_all_iff is_digit_def)

lemma formats_ok:
  assumes "source_ok en src"
  shows "list_all frozen_ok (formats_of src i)" "distinct (map ff_format (formats_of src i))"
  using assms map_of_SomeD [of "os_formats src" i]
  by (force simp: source_ok_def formats_of_def list_all_iff split: option.split)+

lemma format_name_canonical: "is_format_name s \<Longrightarrow> py_upper (py_strip s) = s"
proof -
  assume s: "is_format_name s"
  then have chars: "\<not> is_space c \<and> upper_char c = c" if "c \<in> set s" for c
    using that by (auto simp: is_format_name_def list_all_iff upper_char_def is_space_def is_upper_def is_lower_def is_digit_def Let_def)
  have keep: "dropWhile is_space xs = xs" if "set xs \<subseteq> set s" for xs using that chars by (cases xs) auto
  have "py_strip s = s" by (simp add: py_strip_def py_lstrip_def keep)
  then show ?thesis using chars by (simp add: py_upper_def map_idI)
qed

text \<open>
  Claim C35. An opened offline library is read only through its frozen inventory: the references of a book name its frozen files
  one to one, each reference is parsed back to exactly its format and file, and the path of every such file has no parent
  directory, no empty part and no separator inside a part, so it stays beneath the library root.
\<close>

theorem offline_references_round_trip:
  assumes "open_source en fs lib scratch confirmed w = (Inr (src, temporary), w')" "format_references src i raw = Inr refs"
  shows "list_all2 (\<lambda>ref f. format_from_reference src ref = Inr (ff_format f) \<and> frozen_format src i (ff_format f) = Inr f
      \<and> safe_parts (posix_parts (ff_relative_path f))) refs (formats_of src i) \<and> distinct refs"
proof -
  have ok: "source_ok en src" using open_source_results [of en fs lib scratch confirmed] assms(1) by (force simp: results_def)
  obtain m where "map_of (os_metadata src) i = Some m"
      and refs: "refs = map (\<lambda>f. ''calibre-offline:'' @ os_fingerprint src @ '':'' @ show_int i @ '':'' @ ff_format f) (formats_of src i)"
    using assms(2) by (auto simp: format_references_def show_metadata_of_def split: option.splits if_splits)
  then have pos: "0 < i" using ok by (auto simp: source_ok_def list_all_iff dest!: map_of_SomeD)
  have "format_from_reference src (''calibre-offline:'' @ os_fingerprint src @ '':'' @ show_int i @ '':'' @ ff_format f) = Inr (ff_format f)
      \<and> frozen_format src i (ff_format f) = Inr f \<and> safe_parts (posix_parts (ff_relative_path f))" if "f \<in> set (formats_of src i)" for f
  proof -
    have f: "frozen_ok f" using that formats_ok(1) [OF ok] by (simp add: list_all_iff)
    have "row_first (\<lambda>g. ff_format g = ff_format f) fs = Some f" if "f \<in> set fs" "distinct (map ff_format fs)" for fs
      using that unfolding row_first_def by (induction fs) auto
    then have "frozen_format src i (ff_format f) = Inr f"
      using f pos that formats_ok(2) [OF ok] by (simp add: frozen_format_def format_name_canonical frozen_ok_def)
    moreover have "format_from_reference src (''calibre-offline:'' @ os_fingerprint src @ '':'' @ show_int i @ '':'' @ ff_format f) = Inr (ff_format f)"
      using f that show_int_digits [OF pos] py_partition_append [OF no_colon [OF pos], of "ff_format f"]
      by (simp add: format_from_reference_def Let_def py_startswith_def py_removeprefix_def frozen_ok_def)
    ultimately show ?thesis using f by (simp add: frozen_ok_def)
  qed
  moreover have "distinct refs" using formats_ok(2) [OF ok, of i] by (simp add: refs distinct_map inj_on_def)
  ultimately show ?thesis by (simp add: refs list_all2_map1 list_all2_same)
qed

section \<open>Libraries that are refused\<close>

text \<open>
  A comment of several lines closes the whole library to the audit: comments are read with the check for one line of
  text, which refuses every control character, so when a listed book has a comment with a line break the inventory of the
  library always raises, whatever the file system does and however many other books there are.
\<close>

theorem multiline_comment_refuses_library:
  assumes "row \<in> set (cb_books cb)" "filter (\<lambda>r. co_book r = br_id row) (cb_comments cb) = [comment]"
    "co_text comment = PStr body" "CHR 0x0A \<in> set body"
  shows "\<exists>e w'. load_inventory en fs root cb w = (Inl e, w')"
proof -
  have refused: "single_text ''comment'' False (PStr body) = Inl (OfflineCalibreError ''Calibre comment contains invalid text'')"
  proof -
    have "list_ex (\<lambda>c. (of_char c :: nat) < 32) body" using assms(4) by (force simp: list_ex_iff)
    then show ?thesis by (simp add: single_text_def)
  qed
  have bad: "book_metadata root cb row ps frozen ids \<noteq> Inr m" for ps frozen ids m
    using assms(2,3) refused by (auto simp: book_metadata_def Let_def one_name_def split: sum.splits)
  have "results (load_book en fs root cb row) (\<lambda>_. False)"
    unfolding load_book_def load_formats_def
    by (rule results_bnd, rule results_bnd, rule results_bnd, rule results_seq [OF results_lift]) (use bad in auto)
  then have "row \<in> set rows \<Longrightarrow> results (load_books en fs root cb found rows) (\<lambda>_. False)" for found rows
  proof (induction rows arbitrary: found)
    case (Cons r rows)
    show ?case
    proof (cases "r = row")
      case True
      then show ?thesis using Cons.prems(2) by (auto simp: results_simps intro: results_seq [where Q = "\<lambda>_. False"])
    next
      case False
      then show ?thesis using Cons by (auto simp: results_simps intro!: results_bnd)
    qed
  qed simp
  from this [of "sort_key br_id (cb_books cb)" "[]"] assms(1) show ?thesis
    by (cases "load_inventory en fs root cb w"; cases "fst (load_inventory en fs root cb w)") (auto simp: load_inventory_def results_def)
qed

section \<open>A shelf with one book\<close>

definition shelf :: "string \<Rightarrow> calibre_db" where
  "shelf comment = \<lparr>cb_query_only = 1, cb_quick_check = Some ''ok'', cb_application_id = CALIBRE_APPLICATION_ID, cb_user_version = 27,
     cb_tables = REQUIRED_COLUMNS,
     cb_books = [\<lparr>br_id = 3, br_title = PStr ''Dune'', br_timestamp = PNone, br_pubdate = PNone, br_series_index = PFloat ''1.0'',
       br_author_sort = PNone, br_path = PStr ''a/b'', br_uuid = PNone, br_has_cover = PInt 0, br_last_modified = PNone\<rparr>],
     cb_data = [\<lparr>da_id = 1, da_book = 3, da_format = PStr ''epub'', da_name = PStr ''Dune''\<rparr>], cb_identifiers = [],
     cb_comments = [\<lparr>co_id = 1, co_book = 3, co_text = PStr comment\<rparr>], cb_authors = [], cb_authors_link = [], cb_publishers = [],
     cb_publishers_link = [], cb_series = [], cb_series_link = [], cb_languages = [], cb_languages_link = [], cb_tags = [],
     cb_tags_link = []\<rparr>"

definition shelf_fs :: "calibre_db \<Rightarrow> unit fs" where
  "shelf_fs cb =
     (let st = \<lparr>fst_device = 1, fst_inode = 2, fst_size = 3, fst_mtime_ns = 4, fst_ctime_ns = 5, fst_regular = True\<rparr> in
      \<lparr>fs_ensure_secure_directory = ret, fs_exists = (\<lambda>_. ret False), fs_mkdtemp = (\<lambda>_. ret), fs_rmtree = (\<lambda>_. ret ()),
       fs_copy_file_beneath = (\<lambda>_ _ _ _ _. ret ''m''), fs_sha256_file_beneath = (\<lambda>_ _ _. ret ''m''),
       fs_read = (\<lambda>_ _ _. ret (st, ''x'', st)), fs_connect = (\<lambda>_. ret cb)\<rparr>)"

lemma shelf_opens:
  "case open_source demo_env (shelf_fs (shelf ''A desert planet.'')) ''/lib'' ''/tmp'' True () of
     (Inr (src, temporary), w) \<Rightarrow> map ff_relative_path (formats_of src 3) = [''a/b/Dune.epub'']
       \<and> format_references src 3 (str_list [''/lib/a/b/Dune.epub'']) = Inr [''calibre-offline:h:3:EPUB'']
   | _ \<Rightarrow> False"
  by code_simp

theorem offline_references_round_trip_witness:
  "\<exists>src temporary w f. open_source demo_env (shelf_fs (shelf ''A desert planet.'')) ''/lib'' ''/tmp'' True () = (Inr (src, temporary), w)
     \<and> format_from_reference src ''calibre-offline:h:3:EPUB'' = Inr (ff_format f) \<and> frozen_format src 3 (ff_format f) = Inr f
     \<and> ff_relative_path f = ''a/b/Dune.epub''"
proof -
  obtain src temporary w where o: "open_source demo_env (shelf_fs (shelf ''A desert planet.'')) ''/lib'' ''/tmp'' True () = (Inr (src, temporary), w)"
      and f: "map ff_relative_path (formats_of src 3) = [''a/b/Dune.epub'']"
      and refs: "format_references src 3 (str_list [''/lib/a/b/Dune.epub'']) = Inr [''calibre-offline:h:3:EPUB'']"
    using shelf_opens by (auto split: prod.splits sum.splits)
  from offline_references_round_trip [OF o refs] f o show ?thesis by (auto simp: list_all2_Cons1)
qed

theorem multiline_comment_refuses_library_witness:
  "\<exists>e w. load_inventory demo_env (shelf_fs (shelf [CHR ''A'', CHR 0x0A, CHR ''B''])) ''/lib'' (shelf [CHR ''A'', CHR 0x0A, CHR ''B'']) () = (Inl e, w)"
  by (rule multiline_comment_refuses_library [where row = "hd (cb_books (shelf []))"
      and comment = "hd (cb_comments (shelf [CHR ''A'', CHR 0x0A, CHR ''B'']))" and body = "[CHR ''A'', CHR 0x0A, CHR ''B'']"])
    (simp_all add: shelf_def)

end
