(* ===== verification/Rules.thy ===== *)
theory Rules
  imports Isbn PyVal BwPrelude
begin

text \<open>
  The deterministic verification rules of a field (src/src/calibre\_ai\_auditor/verification/rules.py): ISBN, publication date,
  language, and the numeric rules of series index, volume, chapter and series position. A rule compares what Calibre declares
  with what the book shows. The arithmetic of doubles is the parameter \<open>floats\<close>. The rules for title, authors, publisher and
  series rest on \<open>difflib\<close> and Unicode normalisation and are not modelled here.
\<close>

section \<open>Verdicts of a field\<close>

datatype verdict_kind = vk_confirmed | vk_mismatch | vk_missing | vk_ambiguous

record evidence_span =
  sp_source :: string
  sp_text :: string
  sp_page_range :: "string option"
  sp_confidence :: int

text \<open>No rule sets the log of LLM calls or the remaining defaulted fields.\<close>

record field_verdict =
  fv_field :: string
  fv_declared :: pyval
  fv_observed :: pyval
  fv_verdict :: verdict_kind
  fv_confidence :: int
  fv_evidence :: "evidence_span list"
  fv_requires_review :: bool
  fv_risk_flags :: "string list"
  fv_reason :: string

definition plain_verdict :: "string \<Rightarrow> pyval \<Rightarrow> pyval \<Rightarrow> verdict_kind \<Rightarrow> int \<Rightarrow> string \<Rightarrow> field_verdict" where
  "plain_verdict name declared observed kind confidence reason =
     \<lparr>fv_field = name, fv_declared = declared, fv_observed = observed, fv_verdict = kind, fv_confidence = confidence,
      fv_evidence = [], fv_requires_review = False, fv_risk_flags = [], fv_reason = reason\<rparr>"

definition spanned :: "string \<Rightarrow> string \<Rightarrow> string option \<Rightarrow> int \<Rightarrow> evidence_span list" where
  "spanned source quoted page_range confidence =
     [\<lparr>sp_source = source, sp_text = quoted, sp_page_range = page_range, sp_confidence = confidence\<rparr>]"

section \<open>ISBN\<close>

text \<open>\<open>re.sub(r"[\s-]", "", s)\<close>\<close>

definition strip_isbn :: "string \<Rightarrow> string" where
  "strip_isbn s = filter (\<lambda>c. \<not> is_space c \<and> c \<noteq> CHR ''-'') s"

definition isbn_is_valid :: "string \<Rightarrow> bool" where
  "isbn_is_valid value =
     (let s = strip_isbn value in
      if length s = 13 then isbn13_checksum_valid s else if length s = 10 then isbn10_checksum_valid s else False)"

text \<open>\<open>int(c)\<close> of a character that is no digit raises.\<close>

definition isbn13_from_isbn10 :: "string \<Rightarrow> string res" where
  "isbn13_from_isbn10 s =
     (let body = ''978'' @ take 9 s in
      if \<not> list_all is_digit body then Inl (ValueError ''invalid literal for int() with base 10'')
      else Inr (body @ show_nat ((10 - wsum w13 body mod 10) mod 10)))"

definition is_isbn10 :: "string \<Rightarrow> bool" where
  "is_isbn10 s = (length (strip_isbn s) = 10)"

text \<open>The cleaned text of a value; none when the value is falsy, and an empty text counts as none.\<close>

definition cleaned :: "pyval \<Rightarrow> string" where
  "cleaned v = (if py_truthy v then strip_isbn (py_str v) else [])"

definition isbn_verdict :: "string \<Rightarrow> string \<Rightarrow> verdict_kind \<Rightarrow> int \<Rightarrow> string \<Rightarrow> field_verdict" where
  "isbn_verdict declared observed kind confidence reason =
     plain_verdict ''isbn'' (if declared = [] then PNone else PStr declared) (if observed = [] then PNone else PStr observed)
       kind confidence reason"

definition isbn_conflict :: "string \<Rightarrow> string \<Rightarrow> int \<Rightarrow> string \<Rightarrow> field_verdict" where
  "isbn_conflict declared observed confidence reason =
     (isbn_verdict declared observed vk_mismatch confidence reason)\<lparr>fv_risk_flags := [''isbn_conflict''], fv_requires_review := True\<rparr>"

text \<open>The comparison when both are present; the last return of the function is not reached.\<close>

definition compare_isbns :: "string \<Rightarrow> string \<Rightarrow> string option \<Rightarrow> field_verdict res" where
  "compare_isbns d ob page_range =
     (let decl_valid = isbn_is_valid d;
          obs_valid = isbn_is_valid ob;
          rest = (if decl_valid \<and> obs_valid
            then (isbn_conflict d ob 98 (''ISBN conflict: declared '' @ d @ '' but book has '' @ ob @ ''.''))
                   \<lparr>fv_evidence := spanned ''isbn_block'' ob page_range 98\<rparr>
            else if obs_valid then isbn_conflict d ob 92 (''Declared ISBN has invalid checksum; book has valid '' @ ob @ ''.'')
            else isbn_conflict d ob 88 (''Observed ISBN '' @ ob @ '' has invalid checksum.''));
          second = (if is_isbn10 ob \<and> length d = 13 \<and> decl_valid
            then (case isbn13_from_isbn10 ob of
                Inl e \<Rightarrow> Inl e
              | Inr converted \<Rightarrow>
                  if converted = d then Inr (isbn_verdict d ob vk_confirmed 90 ''Observed ISBN-10 converts to declared ISBN-13.'')
                  else Inr rest)
            else Inr rest)
      in if \<not> decl_valid \<and> \<not> obs_valid then Inr (isbn_verdict d ob vk_ambiguous 30 ''Both ISBNs have invalid checksums.'')
         else if d = ob then Inr (isbn_verdict d ob vk_confirmed 99 ''ISBNs match exactly.'')
         else if is_isbn10 d \<and> length ob = 13 \<and> obs_valid
         then (case isbn13_from_isbn10 d of
             Inl e \<Rightarrow> Inl e
           | Inr converted \<Rightarrow>
               if converted = ob then Inr (isbn_verdict d ob vk_confirmed 90 ''Declared ISBN-10 converts to observed ISBN-13.'')
               else second)
         else second)"

definition verify_isbn :: "pyval \<Rightarrow> pyval \<Rightarrow> string option \<Rightarrow> field_verdict res" where
  "verify_isbn declared observed page_range =
     (let d = cleaned declared; ob = cleaned observed in
      if d = [] \<and> ob = [] then Inr (isbn_verdict d ob vk_ambiguous 0 ''No ISBN declared and none observed.'')
      else if d = [] then
        (if isbn_is_valid ob
         then Inr ((isbn_verdict d ob vk_missing 95 (''Found valid ISBN '' @ ob @ '' on copyright page; not declared in Calibre.''))
                     \<lparr>fv_evidence := spanned ''isbn_block'' ob page_range 95\<rparr>)
         else Inr (isbn_verdict d ob vk_ambiguous 40 (''Found ISBN-shaped string '' @ py_repr (PStr ob) @ '' but checksum invalid.'')))
      else if ob = [] then Inr (isbn_verdict d ob vk_ambiguous 50 ''ISBN declared but no ISBN found on extracted copyright page.'')
      else compare_isbns d ob page_range)"

section \<open>Publication date and language\<close>

text \<open>Group 1 of \<open>^(\d{4})(?:-(\d{2})(?:-(\d{2}))?)?\<close>: the other groups are optional.\<close>

definition date_year :: "pyval \<Rightarrow> string option" where
  "date_year v =
     (let s = py_strip (py_str v) in if length (take 4 s) = 4 \<and> list_all is_digit (take 4 s) then Some (take 4 s) else None)"

definition verify_published_date :: "pyval \<Rightarrow> pyval \<Rightarrow> string option \<Rightarrow> field_verdict" where
  "verify_published_date declared observed page_range =
     (let verdict = plain_verdict ''published_date'' in
      if declared = PNone \<and> observed = PNone then verdict PNone PNone vk_ambiguous 0 ''No date declared and none observed.''
      else if declared = PNone \<and> py_truthy observed
      then (verdict PNone observed vk_missing 85 (''Date found on copyright page: '' @ py_repr observed @ ''.''))
             \<lparr>fv_evidence := spanned ''copyright_page'' (py_str observed) page_range 85\<rparr>
      else if py_truthy declared \<and> observed = PNone then verdict declared PNone vk_ambiguous 50 ''Date declared but extraction found none.''
      else case (date_year declared, date_year observed) of
          (Some dy, Some oy) \<Rightarrow>
            if dy = oy then verdict declared observed vk_confirmed 90 ''Year matches.''
            else if \<bar>int (nat_of_digits dy) - int (nat_of_digits oy)\<bar> = 1
            then verdict declared observed vk_confirmed 80 ''Years off by one; acceptable.''
            else (verdict declared observed vk_mismatch 90 (''Year mismatch: declared '' @ dy @ '', observed '' @ oy @ ''.''))
                   \<lparr>fv_requires_review := True\<rparr>
        | _ \<Rightarrow> verdict declared observed vk_ambiguous 40 ''Date parse failed.'')"

definition verify_language :: "pyval \<Rightarrow> pyval \<Rightarrow> string option \<Rightarrow> field_verdict" where
  "verify_language declared observed page_range =
     (let verdict = plain_verdict ''language''; d = py_lower (py_strip (py_str declared)); ob = py_lower (py_strip (py_str observed)) in
      if declared = PNone \<and> observed = PNone then verdict PNone PNone vk_ambiguous 0 ''No language declared and none observed.''
      else if declared = PNone \<and> py_truthy observed
      then (verdict PNone observed vk_missing 90 (''Language detected: '' @ py_repr observed @ ''.''))
             \<lparr>fv_evidence := spanned ''body_sample'' (py_str observed) page_range 90\<rparr>
      else if py_truthy declared \<and> observed = PNone then verdict declared PNone vk_ambiguous 50 ''Language declared but body sample too small.''
      else if d = ob then verdict declared observed vk_confirmed 99 ''Language matches.''
      else verdict declared observed vk_mismatch 90 (''Language mismatch: declared '' @ d @ '', detected '' @ ob @ ''.''))"

section \<open>Numbers\<close>

text \<open>
  Doubles: \<open>float(v)\<close> of a value, which raises for what is no number, \<open>abs(a - b) < 0.01\<close>, \<open>int(round(a))\<close>, which raises for
  infinities and NaN, and \<open>str(a)\<close>.
\<close>

record 'f floats =
  fl_of :: "pyval \<Rightarrow> 'f option"
  fl_close :: "'f \<Rightarrow> 'f \<Rightarrow> bool"
  fl_round :: "'f \<Rightarrow> int res"
  fl_str :: "'f \<Rightarrow> string"

text \<open>A text that is empty after stripping is no number; every other value is given to \<open>float\<close>, stripped when it is no number.\<close>

definition coerce_number :: "'f floats \<Rightarrow> pyval \<Rightarrow> 'f option" where
  "coerce_number fl v =
     (case v of
        PNone \<Rightarrow> None
      | PInt i \<Rightarrow> fl_of fl v
      | PFloat r \<Rightarrow> fl_of fl v
      | PBool b \<Rightarrow> fl_of fl v
      | _ \<Rightarrow> (let s = py_strip (py_str v) in if s = [] then None else fl_of fl (PStr s)))"

definition verify_series_index :: "'f floats \<Rightarrow> pyval \<Rightarrow> pyval \<Rightarrow> string option \<Rightarrow> field_verdict" where
  "verify_series_index fl declared observed page_range =
     (let verdict = plain_verdict ''series_index'' in
      if declared = PNone \<and> observed = PNone then verdict PNone PNone vk_confirmed 90 ''No series_index declared and none observed.''
      else if declared = PNone
      then (verdict PNone observed vk_missing 85 (''Series index found in header: '' @ py_repr observed @ ''.''))
             \<lparr>fv_evidence := spanned ''header'' (py_str observed) page_range 85\<rparr>
      else if observed = PNone then verdict declared PNone vk_ambiguous 50 ''Series_index declared but not found in header sample.''
      else case (fl_of fl declared, fl_of fl observed) of
          (Some d, Some ob) \<Rightarrow>
            if fl_close fl d ob then verdict declared observed vk_confirmed 95 ''Series index matches.''
            else verdict declared observed vk_mismatch 90
              (''Series index mismatch: declared '' @ fl_str fl d @ '', observed '' @ fl_str fl ob @ ''.'')
        | _ \<Rightarrow> verdict declared observed vk_ambiguous 40 ''Series index parse failed.'')"

text \<open>The three rules of comics share their first branches; \<open>both\<close> compares two numbers.\<close>

definition verify_number ::
    "'f floats \<Rightarrow> string \<Rightarrow> string \<Rightarrow> string \<Rightarrow> (pyval \<Rightarrow> pyval \<Rightarrow> 'f \<Rightarrow> 'f \<Rightarrow> field_verdict res) \<Rightarrow> pyval \<Rightarrow> pyval \<Rightarrow> string option
     \<Rightarrow> field_verdict res" where
  "verify_number fl name none found both declared observed page_range =
     (case (coerce_number fl declared, coerce_number fl observed) of
        (None, None) \<Rightarrow> Inr (plain_verdict name declared observed vk_confirmed 90 none)
      | (None, Some _) \<Rightarrow>
          Inr ((plain_verdict name PNone observed vk_missing 85 (found @ '' found: '' @ py_repr observed @ ''.''))
                 \<lparr>fv_evidence := spanned ''header'' (py_str observed) page_range 85\<rparr>)
      | (Some _, None) \<Rightarrow> Inr (plain_verdict name declared PNone vk_ambiguous 50 (found @ '' declared but not found in content sample.''))
      | (Some d, Some ob) \<Rightarrow> both declared observed d ob)"

definition decimal_match :: "'f floats \<Rightarrow> string \<Rightarrow> string \<Rightarrow> string \<Rightarrow> pyval \<Rightarrow> pyval \<Rightarrow> 'f \<Rightarrow> 'f \<Rightarrow> field_verdict res" where
  "decimal_match fl name matches differs declared observed d ob =
     (if fl_close fl d ob then Inr (plain_verdict name declared observed vk_confirmed 95 matches)
      else Inr (plain_verdict name declared observed vk_mismatch 90
        (differs @ '' mismatch: declared '' @ fl_str fl d @ '', observed '' @ fl_str fl ob @ ''.'')))"

definition verify_volume :: "'f floats \<Rightarrow> pyval \<Rightarrow> pyval \<Rightarrow> string option \<Rightarrow> field_verdict res" where
  "verify_volume fl =
     verify_number fl ''volume'' ''No volume declared and none observed.'' ''Volume'' (\<lambda>declared observed d ob.
       case (fl_round fl d, fl_round fl ob) of
         (Inl e, _) \<Rightarrow> Inl e
       | (_, Inl e) \<Rightarrow> Inl e
       | (Inr i, Inr j) \<Rightarrow>
           if i = j then Inr (plain_verdict ''volume'' declared observed vk_confirmed 95 ''Volume matches.'')
           else Inr (plain_verdict ''volume'' declared observed vk_mismatch 90
             (''Volume mismatch: declared '' @ show_int i @ '', observed '' @ show_int j @ ''.'')))"

definition verify_chapter :: "'f floats \<Rightarrow> pyval \<Rightarrow> pyval \<Rightarrow> string option \<Rightarrow> field_verdict res" where
  "verify_chapter fl =
     verify_number fl ''chapter'' ''No chapter declared and none observed.'' ''Chapter''
       (decimal_match fl ''chapter'' ''Chapter matches (decimal).'' ''Chapter'')"

definition verify_series_position :: "'f floats \<Rightarrow> pyval \<Rightarrow> pyval \<Rightarrow> string option \<Rightarrow> field_verdict res" where
  "verify_series_position fl =
     verify_number fl ''series_position'' ''No series_position declared and none observed.'' ''Series position''
       (decimal_match fl ''series_position'' ''Series position matches.'' ''Series position'')"

end
