(* ===== verification/VerdictEngine.thy ===== *)
theory VerdictEngine
  imports Rules Verdict
begin

text \<open>
  The engine that runs every rule on a book and aggregates the verdicts (class ContentVerificationEngine of
  src/src/calibre\_ai\_auditor/verification/engine.py): risk flags, overall confidence, action, proposed patch and whether it may
  be applied without a person. The rules for title, authors, publisher and series are parameters.
\<close>

section \<open>What is compared\<close>

record declared_metadata =
  dc_title :: pyval
  dc_authors :: pyval
  dc_publisher :: pyval
  dc_published_date :: pyval
  dc_language :: pyval
  dc_series :: pyval
  dc_series_index :: pyval
  dc_volume :: pyval
  dc_chapter :: pyval
  dc_series_position :: pyval
  dc_isbn :: pyval

text \<open>The observations the engine reads; the page ranges are texts.\<close>

record observation_set =
  ob_header_running_text :: "string option"
  ob_isbn_extracted :: pyval
  ob_publisher_extracted :: pyval
  ob_date_extracted :: pyval
  ob_language_detected :: pyval
  ob_title_extracted :: pyval
  ob_authors_extracted :: pyval
  ob_series_extracted :: pyval
  ob_series_index_extracted :: pyval
  ob_volume_extracted :: pyval
  ob_chapter_extracted :: pyval
  ob_series_position_extracted :: pyval
  ob_page_range_title :: "string option"
  ob_page_range_copyright :: "string option"
  ob_page_range_header :: "string option"
  ob_page_range_isbn :: "string option"
  ob_evidence_quality :: string

record 'f rule_set =
  ru_floats :: "'f floats"
  ru_title :: "pyval \<Rightarrow> pyval \<Rightarrow> string option \<Rightarrow> string \<Rightarrow> field_verdict res"
  ru_authors :: "pyval \<Rightarrow> pyval \<Rightarrow> string option \<Rightarrow> string \<Rightarrow> field_verdict res"
  ru_publisher :: "pyval \<Rightarrow> pyval \<Rightarrow> string option \<Rightarrow> field_verdict res"
  ru_series :: "pyval \<Rightarrow> pyval \<Rightarrow> string option \<Rightarrow> bool \<Rightarrow> field_verdict res"

text \<open>Each field with its rule applied, in the order of the bindings.\<close>

definition field_bindings :: "'f rule_set \<Rightarrow> declared_metadata \<Rightarrow> observation_set \<Rightarrow> (string \<times> field_verdict res) list" where
  "field_bindings ru dc ob =
     (let fl = ru_floats ru; title = ob_page_range_title ob; copyright = ob_page_range_copyright ob; header = ob_page_range_header ob in
      [(''isbn'', verify_isbn (dc_isbn dc) (ob_isbn_extracted ob) (ob_page_range_isbn ob)),
       (''title'', ru_title ru (dc_title dc) (ob_title_extracted ob) title (ob_evidence_quality ob)),
       (''authors'', ru_authors ru (dc_authors dc) (ob_authors_extracted ob) title (ob_evidence_quality ob)),
       (''publisher'', ru_publisher ru (dc_publisher dc) (ob_publisher_extracted ob) copyright),
       (''published_date'', Inr (verify_published_date (dc_published_date dc) (ob_date_extracted ob) copyright)),
       (''language'', Inr (verify_language (dc_language dc) (ob_language_detected ob) header)),
       (''series'', ru_series ru (dc_series dc) (ob_series_extracted ob) header (ob_header_running_text ob \<noteq> None)),
       (''series_index'', Inr (verify_series_index fl (dc_series_index dc) (ob_series_index_extracted ob) header)),
       (''volume'', verify_volume fl (dc_volume dc) (ob_volume_extracted ob) header),
       (''chapter'', verify_chapter fl (dc_chapter dc) (ob_chapter_extracted ob) header),
       (''series_position'', verify_series_position fl (dc_series_position dc) (ob_series_position_extracted ob) header)])"

text \<open>The first rule that raises ends the verification of the book.\<close>

fun run_rules :: "(string \<times> field_verdict res) list \<Rightarrow> (string \<times> field_verdict) list res" where
  "run_rules [] = Inr []"
| "run_rules ((name, r) # rest) =
     (case r of
        Inl e \<Rightarrow> Inl e
      | Inr fv \<Rightarrow> (case run_rules rest of Inl e \<Rightarrow> Inl e | Inr fvs \<Rightarrow> Inr ((name, fv\<lparr>fv_field := name\<rparr>) # fvs)))"

section \<open>Aggregation\<close>

definition empty_value :: "pyval \<Rightarrow> bool" where
  "empty_value v = (v = PNone \<or> v = PList [] \<or> v = PStr [])"

text \<open>An ambiguous field with nothing declared and nothing observed is skipped.\<close>

definition no_signal :: "field_verdict \<Rightarrow> bool" where
  "no_signal fv = (fv_verdict fv = vk_ambiguous \<and> empty_value (fv_declared fv) \<and> empty_value (fv_observed fv))"

definition undecided_field :: "field_verdict \<Rightarrow> bool" where
  "undecided_field fv = (fv_verdict fv = vk_ambiguous \<and> \<not> no_signal fv)"

definition patched_field :: "field_verdict \<Rightarrow> bool" where
  "patched_field fv = (fv_verdict fv = vk_mismatch \<or> fv_verdict fv = vk_missing)"

text \<open>\<open>int(sum(xs) / len(xs))\<close> of at most eleven numbers of at most 100, whose quotient no rounding carries over an integer.\<close>

definition mean :: "int list \<Rightarrow> int" where
  "mean xs = (if xs = [] then 0 else sum_list xs div int (length xs))"

definition decide_action :: "field_verdict list \<Rightarrow> string list \<Rightarrow> int \<Rightarrow> bool \<Rightarrow> verdict_action" where
  "decide_action fvs risk_flags overall_confidence any_ambiguous =
     (if list_ex (\<lambda>f. f \<in> set HIGH_RISK_FLAGS) risk_flags then needs_review
      else if any_ambiguous then needs_review
      else
        (let decided = filter (\<lambda>fv. fv_verdict fv \<noteq> vk_ambiguous) fvs in
         if decided = [] then no_change
         else if list_all (\<lambda>fv. fv_verdict fv = vk_confirmed) decided then no_change
         else if 85 \<le> overall_confidence then suggest_fix
         else if 70 \<le> overall_confidence then needs_review
         else defer_action))"

definition is_auto_apply_eligible ::
    "int \<Rightarrow> int \<Rightarrow> verdict_action \<Rightarrow> field_verdict list \<Rightarrow> string list \<Rightarrow> bool \<Rightarrow> bool" where
  "is_auto_apply_eligible min_overall min_field action fvs risk_flags any_ambiguous =
     (if action \<noteq> suggest_fix then False
      else if any_ambiguous then False
      else if list_ex (\<lambda>f. f \<in> set HIGH_RISK_FLAGS) risk_flags then False
      else
        (let patched = filter patched_field fvs in
         if patched = [] then False
         else if mean (map fv_confidence patched) < min_overall then False
         else list_all (\<lambda>fv. min_field \<le> fv_confidence fv \<and> \<not> fv_requires_review fv) patched))"

definition AUTO_APPLY_MIN_CONFIDENCE :: int where
  "AUTO_APPLY_MIN_CONFIDENCE = 80"

definition AUTO_APPLY_MIN_FIELD_CONFIDENCE :: int where
  "AUTO_APPLY_MIN_FIELD_CONFIDENCE = 75"

text \<open>\<open>dump\<close> gives the JSON value of a field's verdict, in which form a book's verdict holds it here.\<close>

definition aggregate :: "(field_verdict \<Rightarrow> pyval) \<Rightarrow> int \<Rightarrow> int \<Rightarrow> string \<Rightarrow> string \<Rightarrow> (string \<times> field_verdict) list \<Rightarrow> book_verdict" where
  "aggregate dump min_overall min_field book_key run_id named =
     (let fvs = map snd named;
          risk_flags = sort (remdups (concat (map fv_risk_flags fvs)));
          any_ambiguous = list_ex undecided_field fvs;
          overall = mean (map fv_confidence (filter (\<lambda>fv. fv_verdict fv \<noteq> vk_ambiguous) fvs));
          action = decide_action fvs risk_flags overall any_ambiguous
      in \<lparr>vd_book_key = book_key, vd_run_id = run_id, vd_field_verdicts = map (\<lambda>(name, fv). (name, dump fv)) named,
          vd_overall_confidence = overall, vd_risk_flags = risk_flags, vd_action = action,
          vd_auto_apply_eligible = is_auto_apply_eligible min_overall min_field action fvs risk_flags any_ambiguous,
          vd_proposed_patch = map (\<lambda>(name, fv). (name, fv_observed fv)) (filter (\<lambda>(_, fv). patched_field fv) named),
          vd_reasons = map (\<lambda>(name, fv). ''['' @ name @ ''] '' @ fv_reason fv)
            (filter (\<lambda>(_, fv). \<not> no_signal fv \<and> fv_reason fv \<noteq> []) named)\<rparr>)"

definition verify_book ::
    "(field_verdict \<Rightarrow> pyval) \<Rightarrow> 'f rule_set \<Rightarrow> int \<Rightarrow> int \<Rightarrow> string \<Rightarrow> string \<Rightarrow> declared_metadata \<Rightarrow> observation_set \<Rightarrow> book_verdict res" where
  "verify_book dump ru min_overall min_field book_key run_id dc ob =
     map_sum id (aggregate dump min_overall min_field book_key run_id) (run_rules (field_bindings ru dc ob))"

end
