(* ===== verification/RulesLaws.thy ===== *)
theory RulesLaws
  imports VerdictEngine
begin

text \<open>
  When the ISBN rule agrees with the canonical ISBN-13 and when it does not, and what a book's verdict must satisfy before the
  engine lets it be applied without a person.
\<close>

section \<open>Valid texts\<close>

lemma filter_all: "length (filter P xs) = length xs \<Longrightarrow> filter P xs = xs"
  by (metis filter_id_conv length_filter_less less_irrefl)

lemma valid13_digits:
  assumes "isbn13_checksum_valid s" "length s = 13"
  shows "list_all is_digit s" "canonical_isbn13 s = Some s"
proof -
  have "isbn_clean s = s" using isbn13_valid_clean [OF assms(1)] assms(2) unfolding isbn_clean_def by (intro filter_all) simp
  with isbn13_valid_clean [OF assms(1)] show "list_all is_digit s" by simp
  with assms(1) show "canonical_isbn13 s = Some s" by (intro canonical_of_valid13)
qed

lemma valid10_upper [simp]: "isbn10_checksum_valid (py_upper (isbn_clean v)) = isbn10_checksum_valid v"
  by (simp add: isbn10_checksum_valid_def)

lemma length_py_upper [simp]: "length (py_upper s) = length s"
  by (simp add: py_upper_def)

lemma valid10_clean:
  assumes "isbn10_checksum_valid s" "length s = 10"
  shows "isbn_clean s = s" "list_all is_digit (take 9 s)" "isbn10_shape (py_upper s)"
proof -
  have l: "length (isbn_clean s) = 10" "py_isdigit (take 9 (py_upper (isbn_clean s)))"
      "is_digit (py_upper (isbn_clean s) ! 9) \<or> py_upper (isbn_clean s) ! 9 = CHR ''X''"
    using assms(1) by (auto simp: isbn10_checksum_valid_def Let_def py_upper_def split: if_splits)
  with assms(2) show clean: "isbn_clean s = s" unfolding isbn_clean_def by (intro filter_all) simp
  have "is_digit c" if "c \<in> set (take 9 s)" for c
  proof -
    have "is_digit (upper_char c)" using that l(2) clean by (auto simp: py_isdigit_def py_upper_def list_all_iff take_map)
    moreover have "is_isbn_char c" using in_set_takeD [OF that] by (subst (asm) clean [symmetric]) (simp add: isbn_clean_def)
    ultimately show ?thesis by (auto simp: is_isbn_char_def)
  qed
  then show "list_all is_digit (take 9 s)" by (simp add: list_all_iff)
  show "isbn10_shape (py_upper s)" using l clean assms(2) by (simp add: isbn10_shape_def py_isdigit_def)
qed

lemma canonical10:
  assumes "isbn10_checksum_valid s" "length s = 10"
  shows "isbn13_from_isbn10 s = Inr (the (canonical_isbn13 s))" "canonical_isbn13 s \<noteq> None"
    "take 9 (drop 3 (the (canonical_isbn13 s))) = take 9 s"
proof -
  have "take 9 (py_upper s) = take 9 s" using valid10_clean(2) [OF assms] by (auto simp: py_upper_def take_map upper_char_digit list_all_iff intro!: map_idI)
  then have "canonical_isbn13 s = Some (''978'' @ take 9 s @ show_nat ((10 - wsum w13 (''978'' @ take 9 s) mod 10) mod 10))"
    using assms valid10_upper [of s] valid10_clean(1) [OF assms] by (simp add: canonical_isbn13_def Let_def)
  then show "isbn13_from_isbn10 s = Inr (the (canonical_isbn13 s))" "canonical_isbn13 s \<noteq> None"
    "take 9 (drop 3 (the (canonical_isbn13 s))) = take 9 s"
    using valid10_clean(2) [OF assms] assms(2) by (simp_all add: isbn13_from_isbn10_def Let_def is_digit_def)
qed

lemma valid10_determined:
  assumes "isbn10_checksum_valid s" "length s = 10" "isbn10_checksum_valid t" "length t = 10" "take 9 s = take 9 t"
  shows "py_upper s = py_upper t"
proof -
  have shape: "isbn10_shape (py_upper s)" "isbn10_shape (py_upper t)" using valid10_clean(3) assms by blast+
  have first: "take 9 (py_upper s) = take 9 (py_upper t)" using assms(5) by (simp add: py_upper_def take_map)
  have "isbn10_checksum_valid (py_upper s)" "isbn10_checksum_valid (py_upper t)"
    using assms(1,3) valid10_upper [of s] valid10_upper [of t] by (simp_all add: valid10_clean(1) assms(1-4))
  then have "(wsum w10 (take 9 (py_upper s)) + isbn10_last (py_upper s)) mod 11 = 0"
      "(wsum w10 (take 9 (py_upper s)) + isbn10_last (py_upper t)) mod 11 = 0"
    using isbn10_valid_shape [OF shape(1)] isbn10_valid_shape [OF shape(2)] first by simp_all
  then have "isbn10_last (py_upper s) mod 11 = isbn10_last (py_upper t) mod 11" by (metis add.commute mod_cancel_right)
  moreover have "isbn10_last u < 11" if "isbn10_shape u" for u using that by (auto simp: isbn10_shape_def isbn10_last_def digit_val_def is_digit_def Let_def)
  ultimately have "isbn10_last (py_upper s) = isbn10_last (py_upper t)" using shape by (metis mod_less)
  then have "py_upper s ! 9 = py_upper t ! 9"
    using shape digit_val_inject by (auto simp: isbn10_shape_def isbn10_last_def digit_val_def is_digit_def Let_def split: if_splits)
  then show ?thesis using first isbn10_shape_split [OF shape(1)] isbn10_shape_split [OF shape(2)] by metis
qed

lemma no_x_upper:
  assumes "isbn10_checksum_valid s" "length s = 10" "CHR ''x'' \<notin> set s"
  shows "py_upper s = s"
proof -
  have "upper_char c = c" if "c \<in> set s" for c
  proof -
    have "is_isbn_char c" using that by (subst (asm) valid10_clean(1) [OF assms(1,2), symmetric]) (simp add: isbn_clean_def)
    with that assms(3) show ?thesis by (auto simp: is_isbn_char_def upper_char_digit)
  qed
  then show ?thesis by (simp add: py_upper_def map_idI)
qed

section \<open>The ISBN rule\<close>

lemma strip_isbn_idem [simp]: "strip_isbn (strip_isbn s) = strip_isbn s"
  by (simp add: strip_isbn_def)

lemma canonical_strip [simp]: "canonical_isbn13 (strip_isbn s) = canonical_isbn13 s"
proof -
  have "isbn_clean (strip_isbn s) = isbn_clean s"
    unfolding isbn_clean_def strip_isbn_def filter_filter
    by (rule filter_cong) (auto simp: is_isbn_char_def is_digit_def is_space_def Let_def)
  then show ?thesis by (simp add: canonical_isbn13_def)
qed

lemma isbn_is_valid_strip [simp]: "isbn_is_valid (strip_isbn s) = isbn_is_valid s"
  by (simp add: isbn_is_valid_def)

lemma valid_cases:
  assumes "isbn_is_valid s"
  shows "length (strip_isbn s) = 13 \<and> isbn13_checksum_valid (strip_isbn s) \<or> length (strip_isbn s) = 10 \<and> isbn10_checksum_valid (strip_isbn s)"
  using assms by (auto simp: isbn_is_valid_def Let_def split: if_splits)

lemma same_canonical:
  assumes "isbn_is_valid a" "isbn_is_valid b" "strip_isbn a = a" "strip_isbn b = b" "length a = length b"
  shows "canonical_isbn13 a = canonical_isbn13 b \<and> (py_upper a = py_upper b \<longrightarrow> a = b) \<longleftrightarrow> a = b"
proof (cases "length a = 13")
  case True
  then show ?thesis using valid_cases [OF assms(1)] valid_cases [OF assms(2)] assms(3-5) valid13_digits(2) by auto
next
  case False
  then have t: "isbn10_checksum_valid a" "length a = 10" "isbn10_checksum_valid b" "length b = 10"
    using valid_cases [OF assms(1)] valid_cases [OF assms(2)] assms(3-5) by auto
  have "py_upper a = py_upper b" if "canonical_isbn13 a = canonical_isbn13 b"
    using that canonical10(3) [OF t(1,2)] canonical10(3) [OF t(3,4)] by (intro valid10_determined [OF t]) simp
  then show ?thesis by auto
qed

lemma compare_valid:
  assumes "isbn_is_valid a" "isbn_is_valid b" "strip_isbn a = a" "strip_isbn b = b"
  shows "\<exists>fv. compare_isbns a b pr = Inr fv
    \<and> fv_verdict fv = (if canonical_isbn13 a = canonical_isbn13 b \<and> (py_upper a = py_upper b \<longrightarrow> a = b) then vk_confirmed else vk_mismatch)
    \<and> (fv_verdict fv = vk_mismatch \<longrightarrow> fv_requires_review fv \<and> fv_risk_flags fv = [''isbn_conflict''])"
proof -
  note defs = compare_isbns_def Let_def isbn_verdict_def isbn_conflict_def plain_verdict_def is_isbn10_def
  consider "length a = length b" | "length a = 10" "length b = 13" | "length a = 13" "length b = 10"
    using valid_cases [OF assms(1)] valid_cases [OF assms(2)] assms(3,4) by fastforce
  then show ?thesis
  proof cases
    case 1
    then have "\<not> (is_isbn10 a \<and> length b = 13)" "\<not> (is_isbn10 b \<and> length a = 13)" using assms(3,4) by (auto simp: is_isbn10_def)
    then show ?thesis using assms(1,2) unfolding same_canonical [OF assms 1]
      unfolding compare_isbns_def Let_def by (cases "a = b"; cases "is_isbn10 a"; cases "is_isbn10 b") (simp_all add: isbn_verdict_def isbn_conflict_def plain_verdict_def)
  next
    case 2
    then have v: "isbn10_checksum_valid a" "isbn13_checksum_valid b" using valid_cases assms by (metis numeral_eq_iff semiring_norm(88,87,89,90))+
    have "py_upper a \<noteq> py_upper b" using 2 by (metis length_map numeral_eq_iff py_upper_def semiring_norm(88,87,89,90))
    then show ?thesis using assms 2 canonical10(1,2) [OF v(1) 2(1)] valid13_digits(2) [OF v(2) 2(2)] by (auto simp: defs)
  next
    case 3
    then have v: "isbn13_checksum_valid a" "isbn10_checksum_valid b" using valid_cases assms by (metis numeral_eq_iff semiring_norm(88,87,89,90))+
    have "py_upper a \<noteq> py_upper b" using 3 by (metis length_map numeral_eq_iff py_upper_def semiring_norm(88,87,89,90))
    then show ?thesis using assms 3 canonical10(1,2) [OF v(2) 3(2)] valid13_digits(2) [OF v(1) 3(1)] by (auto simp: defs)
  qed
qed

lemma same_upper:
  assumes "isbn_is_valid a" "isbn_is_valid b" "CHR ''x'' \<notin> set a" "CHR ''x'' \<notin> set b" "py_upper (strip_isbn a) = py_upper (strip_isbn b)"
  shows "strip_isbn a = strip_isbn b"
proof -
  have l: "length (strip_isbn a) = length (strip_isbn b)" using arg_cong [OF assms(5), of length] by (simp add: py_upper_def)
  have x: "CHR ''x'' \<notin> set (strip_isbn a)" "CHR ''x'' \<notin> set (strip_isbn b)" using assms(3,4) by (simp_all add: strip_isbn_def)
  show ?thesis
  proof (cases "length (strip_isbn a) = 10")
    case True
    with l assms(1,2) valid_cases [of a] valid_cases [of b]
    have "isbn10_checksum_valid (strip_isbn a)" "isbn10_checksum_valid (strip_isbn b)" "length (strip_isbn b) = 10" by auto
    with True x assms(5) show ?thesis using no_x_upper by metis
  next
    case False
    with l assms(1,2) valid_cases [of a] valid_cases [of b]
    have "isbn13_checksum_valid (strip_isbn a)" "length (strip_isbn a) = 13" "isbn13_checksum_valid (strip_isbn b)" "length (strip_isbn b) = 13"
      by auto
    with assms(5) show ?thesis using valid13_digits(1) py_upper_digits by metis
  qed
qed

text \<open>
  Claim C37. On valid ISBNs the rule is equality of canonical forms, except for the case of a check digit: when the declared and
  the observed text are both valid ISBN-10 or ISBN-13 (with any blanks and hyphens), the rule returns and says confirmed exactly
  if both have the same canonical ISBN-13 and they do not differ only in writing a check digit as x and as X; otherwise it reports
  a mismatch that needs review and carries the high-risk flag. Where neither text has a small x, confirmed is canonical equality.
\<close>

theorem isbn_rule_is_canonical_equality:
  assumes "isbn_is_valid d" "isbn_is_valid ob"
  shows "\<exists>fv. verify_isbn (PStr d) (PStr ob) page_range = Inr fv
    \<and> fv_verdict fv = (if canonical_isbn13 d = canonical_isbn13 ob
          \<and> \<not> (strip_isbn d \<noteq> strip_isbn ob \<and> py_upper (strip_isbn d) = py_upper (strip_isbn ob)) then vk_confirmed else vk_mismatch)
    \<and> (fv_verdict fv = vk_mismatch \<longrightarrow> fv_requires_review fv \<and> fv_risk_flags fv = [''isbn_conflict''] \<and> ''isbn_conflict'' \<in> set HIGH_RISK_FLAGS)
    \<and> (CHR ''x'' \<notin> set d \<union> set ob \<longrightarrow> (fv_verdict fv = vk_confirmed \<longleftrightarrow> canonical_isbn13 d = canonical_isbn13 ob))"
proof -
  have nonempty: "strip_isbn d \<noteq> []" "strip_isbn ob \<noteq> []" using valid_cases [OF assms(1)] valid_cases [OF assms(2)] by auto
  then have "cleaned (PStr d) = strip_isbn d" "cleaned (PStr ob) = strip_isbn ob" by (auto simp: cleaned_def strip_isbn_def)
  then have v: "verify_isbn (PStr d) (PStr ob) page_range = compare_isbns (strip_isbn d) (strip_isbn ob) page_range"
    using nonempty by (simp add: verify_isbn_def Let_def)
  have "strip_isbn d = strip_isbn ob" if "CHR ''x'' \<notin> set d \<union> set ob" "py_upper (strip_isbn d) = py_upper (strip_isbn ob)"
    using same_upper [OF assms] that by simp
  with compare_valid [of "strip_isbn d" "strip_isbn ob" page_range] assms show ?thesis
    by (auto simp: v HIGH_RISK_FLAGS_def)
qed

lemma cleaned_text: "strip_isbn s \<noteq> [] \<Longrightarrow> cleaned (PStr s) = strip_isbn s"
  by (auto simp: cleaned_def strip_isbn_def)

text \<open>
  A text of ten characters that is no ISBN stops the verification of a book: when one side is a valid ISBN-13 and the
  other, without blanks and hyphens, has ten characters with a non-digit among the first nine, the rule raises, because it converts
  the text before it has checked it, and with it the verification of all fields of the book, whatever the other rules say.
\<close>

theorem ten_characters_stop_verification:
  assumes "isbn_is_valid d" "length (strip_isbn d) = 13" "length (strip_isbn t) = 10" "\<not> list_all is_digit (take 9 (strip_isbn t))"
  shows "\<exists>e. verify_isbn (PStr d) (PStr t) page_range = Inl e \<and> verify_isbn (PStr t) (PStr d) page_range = Inl e
    \<and> verify_book dump ru min_overall min_field book_key run_id (dc\<lparr>dc_isbn := PStr d\<rparr>) (ob\<lparr>ob_isbn_extracted := PStr t\<rparr>) = Inl e"
proof -
  let ?d = "strip_isbn d" and ?t = "strip_isbn t"
  have invalid: "\<not> isbn_is_valid ?t"
  proof
    assume "isbn_is_valid ?t"
    then have "isbn10_checksum_valid ?t" using assms(3) by (simp add: isbn_is_valid_def)
    from valid10_clean(2) [OF this assms(3)] assms(4) show False by simp
  qed
  have lengths: "is_isbn10 ?t" "\<not> is_isbn10 ?d" "?d \<noteq> ?t" "?t \<noteq> ?d" "length ?t \<noteq> 13" "isbn_is_valid ?d"
    using assms by (auto simp: is_isbn10_def)
  have raises: "isbn13_from_isbn10 ?t = Inl (ValueError ''invalid literal for int() with base 10'')"
    using assms(4) by (simp add: isbn13_from_isbn10_def)
  have one: "verify_isbn (PStr d) (PStr t) p = Inl (ValueError ''invalid literal for int() with base 10'')"
    and two: "verify_isbn (PStr t) (PStr d) p = Inl (ValueError ''invalid literal for int() with base 10'')" for p
  proof -
    have "?d \<noteq> []" "?t \<noteq> []" using assms(2,3) by auto
    then show "verify_isbn (PStr d) (PStr t) p = Inl (ValueError ''invalid literal for int() with base 10'')"
        "verify_isbn (PStr t) (PStr d) p = Inl (ValueError ''invalid literal for int() with base 10'')"
      using lengths assms(2) invalid raises by (simp_all add: verify_isbn_def Let_def cleaned_text compare_isbns_def)
  qed
  then show ?thesis by (simp add: verify_book_def field_bindings_def Let_def)
qed

theorem ten_characters_stop_verification_witness:
  "\<exists>e. verify_isbn (PStr ''978-0-306-40615-7'') (PStr ''ABCDEFGHIJ'') None = Inl e"
proof -
  have "isbn_is_valid ''978-0-306-40615-7''" "length (strip_isbn ''978-0-306-40615-7'') = 13" "length (strip_isbn ''ABCDEFGHIJ'') = 10"
    "\<not> list_all is_digit (take 9 (strip_isbn ''ABCDEFGHIJ''))" by code_simp+
  from ten_characters_stop_verification [OF this] show ?thesis by blast
qed

text \<open>
  Two more verdicts that differ from equality of canonical forms: a text of ten characters with a wrong check character is
  confirmed by the ISBN-13 of its first nine digits, and the same ISBN-10 with x and X is a high-risk conflict.
\<close>

lemma isbn_rule_confirms_bad_check_digit:
  "map_sum id fv_verdict (verify_isbn (PStr ''0306406150'') (PStr ''9780306406157'') None) = Inr vk_confirmed
   \<and> \<not> isbn_is_valid ''0306406150''"
  by code_simp

lemma isbn_rule_case_conflict:
  "map_sum id fv_verdict (verify_isbn (PStr ''080442957x'') (PStr ''080442957X'') None) = Inr vk_mismatch
   \<and> canonical_isbn13 ''080442957x'' = canonical_isbn13 ''080442957X''"
  by code_simp

text \<open>Dates a year and more apart are confirmed, and a declared list of languages is never confirmed by its own language.\<close>

lemma date_rule_ignores_days:
  "fv_verdict (verify_published_date (PStr ''1999-01-01'') (PStr ''2000-12-31'') None) = vk_confirmed"
  by code_simp

lemma language_list_is_mismatch:
  "fv_verdict (verify_language (PList [PStr ''eng'']) (PStr ''eng'') None) = vk_mismatch"
  by code_simp

theorem isbn_rule_is_canonical_equality_witness:
  "\<exists>fv fv'. verify_isbn (PStr ''0-306-40615-2'') (PStr ''9780306406157'') None = Inr fv \<and> fv_verdict fv = vk_confirmed
     \<and> verify_isbn (PStr ''080442957x'') (PStr ''080442957X'') None = Inr fv' \<and> fv_verdict fv' = vk_mismatch"
proof -
  have valid: "isbn_is_valid ''0-306-40615-2''" "isbn_is_valid ''9780306406157''" "isbn_is_valid ''080442957x''" "isbn_is_valid ''080442957X''"
      "canonical_isbn13 ''0-306-40615-2'' = canonical_isbn13 ''9780306406157''" "py_upper (strip_isbn ''0-306-40615-2'') \<noteq> py_upper (strip_isbn ''9780306406157'')"
      "strip_isbn ''080442957x'' \<noteq> strip_isbn ''080442957X''" "py_upper (strip_isbn ''080442957x'') = py_upper (strip_isbn ''080442957X'')"
    by code_simp+
  from isbn_rule_is_canonical_equality [OF valid(1,2), of None] valid(5,6)
  obtain fv where "verify_isbn (PStr ''0-306-40615-2'') (PStr ''9780306406157'') None = Inr fv" "fv_verdict fv = vk_confirmed" by metis
  moreover from isbn_rule_is_canonical_equality [OF valid(3,4), of None] valid(7,8)
  obtain fv' where "verify_isbn (PStr ''080442957x'') (PStr ''080442957X'') None = Inr fv'" "fv_verdict fv' = vk_mismatch" by metis
  ultimately show ?thesis by blast
qed

section \<open>Applying a verdict without a person\<close>

lemma run_rules_in:
  "run_rules xs = Inr named \<Longrightarrow> (name, fv) \<in> set named \<Longrightarrow> \<exists>fv0. (name, Inr fv0) \<in> set xs \<and> fv = fv0\<lparr>fv_field := name\<rparr>"
  by (induction xs arbitrary: named) (auto split: sum.splits, blast+)

lemma isbn_patched:
  assumes "verify_isbn a b pr = Inr fv" "patched_field fv"
  shows "fv_requires_review fv \<or> cleaned a = [] \<and> isbn_is_valid (cleaned b) \<and> fv_observed fv = PStr (cleaned b)"
proof -
  have "patched_field fv \<longrightarrow> fv_requires_review fv" if "compare_isbns x y pr = Inr fv" for x y
    using that by (auto simp: compare_isbns_def Let_def isbn_verdict_def isbn_conflict_def plain_verdict_def patched_field_def
        split: if_splits sum.splits)
  then show ?thesis
    using assms by (auto simp: verify_isbn_def Let_def isbn_verdict_def plain_verdict_def patched_field_def split: if_splits)
qed

lemma no_high_risk: "\<not> list_ex (\<lambda>f. f \<in> set HIGH_RISK_FLAGS) (sort (remdups (concat (map fv_risk_flags (map snd named)))))
    \<longleftrightarrow> (\<forall>(name, fv)\<in>set named. set (fv_risk_flags fv) \<inter> set HIGH_RISK_FLAGS = {})"
  by (fastforce simp: list_ex_iff)

text \<open>
  Claim C36. The engine lets a verdict be applied without a person only if it is safe: then the auto-apply gate admits it, no field
  was left undecided with data at hand, no field carries a high-risk flag, every field of the patch has confidence of at least the
  threshold and needs no review, the patch is exactly the observed values of the mismatching and missing fields, and an ISBN is
  patched only when Calibre declares none and the observed one is valid.
\<close>

theorem auto_apply_is_safe:
  assumes "run_rules (field_bindings ru dc ob) = Inr named"
    and "verify_book dump ru AUTO_APPLY_MIN_CONFIDENCE AUTO_APPLY_MIN_FIELD_CONFIDENCE book_key run_id dc ob = Inr v"
    and "vd_auto_apply_eligible v"
  shows "fst (gate_is_eligible False v) \<and> 85 \<le> vd_overall_confidence v \<and> vd_action v = suggest_fix
    \<and> vd_proposed_patch v = map (\<lambda>(name, fv). (name, fv_observed fv)) (filter (\<lambda>(_, fv). patched_field fv) named)
    \<and> (\<forall>(name, fv)\<in>set named. \<not> undecided_field fv \<and> set (fv_risk_flags fv) \<inter> set HIGH_RISK_FLAGS = {}
        \<and> (patched_field fv \<longrightarrow> AUTO_APPLY_MIN_FIELD_CONFIDENCE \<le> fv_confidence fv \<and> \<not> fv_requires_review fv))
    \<and> (\<forall>x. (''isbn'', x) \<in> set (vd_proposed_patch v) \<longrightarrow>
        cleaned (dc_isbn dc) = [] \<and> x = PStr (cleaned (ob_isbn_extracted ob)) \<and> isbn_is_valid (cleaned (ob_isbn_extracted ob)))"
proof -
  have v: "v = aggregate dump AUTO_APPLY_MIN_CONFIDENCE AUTO_APPLY_MIN_FIELD_CONFIDENCE book_key run_id named"
    using assms(1,2) by (simp add: verify_book_def)
  define flags where "flags = sort (remdups (concat (map fv_risk_flags (map snd named))))"
  have e: "vd_action v = suggest_fix" "\<not> list_ex undecided_field (map snd named)" "\<not> list_ex (\<lambda>f. f \<in> set HIGH_RISK_FLAGS) flags"
      "filter patched_field (map snd named) \<noteq> []"
      "list_all (\<lambda>fv. AUTO_APPLY_MIN_FIELD_CONFIDENCE \<le> fv_confidence fv \<and> \<not> fv_requires_review fv) (filter patched_field (map snd named))"
    using assms(3) by (auto simp: v aggregate_def is_auto_apply_eligible_def flags_def Let_def split: if_splits)
  have overall: "85 \<le> vd_overall_confidence v"
    using e(1) by (auto simp: v aggregate_def decide_action_def Let_def split: if_splits)
  have patch: "vd_proposed_patch v = map (\<lambda>(name, fv). (name, fv_observed fv)) (filter (\<lambda>(_, fv). patched_field fv) named)"
    by (simp add: v aggregate_def Let_def)
  have nonempty: "vd_proposed_patch v \<noteq> []" using e(4) by (auto simp: patch filter_empty_conv)
  have "vd_risk_flags v = flags" by (simp add: v aggregate_def Let_def flags_def)
  then have gate: "fst (gate_is_eligible False v)" using assms(3) overall nonempty e(3) by (simp add: gate_is_eligible_def)
  have all: "\<forall>(name, fv)\<in>set named. \<not> undecided_field fv \<and> set (fv_risk_flags fv) \<inter> set HIGH_RISK_FLAGS = {}
      \<and> (patched_field fv \<longrightarrow> AUTO_APPLY_MIN_FIELD_CONFIDENCE \<le> fv_confidence fv \<and> \<not> fv_requires_review fv)"
    using e(2,3,5) unfolding flags_def no_high_risk by (fastforce simp: list_ex_iff list_all_iff)
  have "cleaned (dc_isbn dc) = [] \<and> x = PStr (cleaned (ob_isbn_extracted ob)) \<and> isbn_is_valid (cleaned (ob_isbn_extracted ob))"
    if "(''isbn'', x) \<in> set (vd_proposed_patch v)" for x
  proof -
    from that obtain fv where fv: "(''isbn'', fv) \<in> set named" "patched_field fv" "x = fv_observed fv" by (auto simp: patch)
    from run_rules_in [OF assms(1) fv(1)] obtain fv0 where fv0: "(''isbn'', Inr fv0) \<in> set (field_bindings ru dc ob)" "fv = fv0\<lparr>fv_field := ''isbn''\<rparr>"
      by blast
    then have "verify_isbn (dc_isbn dc) (ob_isbn_extracted ob) (ob_page_range_isbn ob) = Inr fv0" by (auto simp: field_bindings_def Let_def)
    moreover have "patched_field fv0" "\<not> fv_requires_review fv0" using fv fv0(2) all by (auto simp: patched_field_def)
    ultimately show ?thesis using isbn_patched fv(3) fv0(2) by fastforce
  qed
  then show ?thesis using gate overall e(1) patch all by blast
qed

definition bare_rules :: "unit rule_set" where
  "bare_rules =
     (let agree = (\<lambda>name d ob. Inr (plain_verdict name d ob vk_confirmed 95 ''ok'')) in
      \<lparr>ru_floats = \<lparr>fl_of = (\<lambda>_. None), fl_close = (\<lambda>_ _. True), fl_round = (\<lambda>_. Inr 0), fl_str = (\<lambda>_. [])\<rparr>,
       ru_title = (\<lambda>d ob _ _. agree ''title'' d ob), ru_authors = (\<lambda>d ob _ _. agree ''authors'' d ob),
       ru_publisher = (\<lambda>d ob _. agree ''publisher'' d ob), ru_series = (\<lambda>d ob _ _. agree ''series'' d ob)\<rparr>)"

definition bare_declared :: declared_metadata where
  "bare_declared = \<lparr>dc_title = PStr ''Dune'', dc_authors = PList [PStr ''Frank Herbert''], dc_publisher = PNone, dc_published_date = PStr ''1965'',
     dc_language = PStr ''eng'', dc_series = PNone, dc_series_index = PNone, dc_volume = PNone, dc_chapter = PNone,
     dc_series_position = PNone, dc_isbn = PNone\<rparr>"

definition bare_observed :: observation_set where
  "bare_observed = \<lparr>ob_header_running_text = None, ob_isbn_extracted = PStr ''978-0-306-40615-7'', ob_publisher_extracted = PNone,
     ob_date_extracted = PStr ''1965'', ob_language_detected = PStr ''eng'', ob_title_extracted = PStr ''Dune'',
     ob_authors_extracted = PList [PStr ''Frank Herbert''], ob_series_extracted = PNone, ob_series_index_extracted = PNone,
     ob_volume_extracted = PNone, ob_chapter_extracted = PNone, ob_series_position_extracted = PNone, ob_page_range_title = None,
     ob_page_range_copyright = None, ob_page_range_header = None, ob_page_range_isbn = Some ''2-5'', ob_evidence_quality = ''high''\<rparr>"

lemma bare_eligible:
  "case verify_book (\<lambda>_. PNone) bare_rules AUTO_APPLY_MIN_CONFIDENCE AUTO_APPLY_MIN_FIELD_CONFIDENCE ''b'' ''r'' bare_declared bare_observed of
     Inl _ \<Rightarrow> False | Inr v \<Rightarrow> vd_auto_apply_eligible v \<and> vd_proposed_patch v = [(''isbn'', PStr ''9780306406157'')]"
  by code_simp

theorem auto_apply_is_safe_witness:
  "\<exists>v. verify_book (\<lambda>_. PNone) bare_rules AUTO_APPLY_MIN_CONFIDENCE AUTO_APPLY_MIN_FIELD_CONFIDENCE ''b'' ''r'' bare_declared bare_observed = Inr v
     \<and> fst (gate_is_eligible False v) \<and> vd_proposed_patch v = [(''isbn'', PStr ''9780306406157'')]"
proof -
  obtain v where v: "verify_book (\<lambda>_. PNone) bare_rules AUTO_APPLY_MIN_CONFIDENCE AUTO_APPLY_MIN_FIELD_CONFIDENCE ''b'' ''r'' bare_declared bare_observed = Inr v"
      "vd_auto_apply_eligible v" "vd_proposed_patch v = [(''isbn'', PStr ''9780306406157'')]"
    using bare_eligible by (auto split: sum.splits)
  then obtain named where "run_rules (field_bindings bare_rules bare_declared bare_observed) = Inr named"
    by (cases "run_rules (field_bindings bare_rules bare_declared bare_observed)") (simp_all add: verify_book_def)
  from auto_apply_is_safe [OF this v(1,2)] v show ?thesis by blast
qed

end
