(* ===== verification/Retention.thy ===== *)
theory Retention
  imports Session
begin

text \<open>
  The retention of restore points (class RestorePointStore of src/src/calibre\_ai\_auditor/verification/restore.py): the manifest of
  expired restore points, and the journaled transaction that quarantines and deletes them, with its recovery after a crash. The
  directory of the restore points is a table of paths; every system call that changes it appends the new table to a history, so
  that a crash between two calls leaves one of the tables of the history. The calls of \<open>os.fsync\<close> order what survives the loss of
  power as the calls themselves are ordered, and change nothing else. SHA-256, the texts of \<open>json.dump\<close> and of dates are the
  fields of \<open>retention_env\<close>: a date is its microseconds, as if in UTC when the text has no offset, and whether it has one. The
  protected file functions that make restore points are the fields of \<open>protected_files\<close>.
\<close>

section \<open>The file system\<close>

text \<open>
  A path is its components below the directory of the restore points. A file is its bytes with what \<open>json.loads\<close> reads from them
  (None when it raises), a symbolic link what it leads to: whether that is a directory, whether it is a file. Directories carry
  the device and inode numbers \<open>os.lstat\<close> gives. A path below a link to a directory is what reading through the link finds;
  nothing is written through a link.
\<close>

type_synonym rpath = "string list"

datatype node =
    Directory int int
  | Document string "pyval option"
  | Symlink bool bool

type_synonym tree = "(rpath \<times> node) list"

record disk =
  dk_tree :: tree
  dk_history :: "tree list"
  dk_device :: int
  dk_inodes :: "nat \<Rightarrow> int"
  dk_uuids :: "nat \<Rightarrow> string"
  dk_clock :: "nat \<Rightarrow> int"
  dk_ticks :: nat

record retention_env =
  rv_sha256 :: "string \<Rightarrow> string"
  rv_dump :: "pyval \<Rightarrow> string"
  rv_isoformat :: "int \<Rightarrow> string"
  rv_fromisoformat :: "string \<Rightarrow> (int \<times> bool) option"
  rv_float_seconds :: "string \<Rightarrow> int option"
  rv_default_ttl :: int

definition node_at :: "tree \<Rightarrow> rpath \<Rightarrow> node option" where
  "node_at t p = map_of t p"

definition path_is_symlink :: "tree \<Rightarrow> rpath \<Rightarrow> bool" where
  "path_is_symlink t p = (case node_at t p of Some (Symlink d f) \<Rightarrow> True | _ \<Rightarrow> False)"

definition path_is_dir :: "tree \<Rightarrow> rpath \<Rightarrow> bool" where
  "path_is_dir t p = (case node_at t p of Some (Directory d i) \<Rightarrow> True | Some (Symlink d f) \<Rightarrow> d | _ \<Rightarrow> False)"

definition path_is_file :: "tree \<Rightarrow> rpath \<Rightarrow> bool" where
  "path_is_file t p = (case node_at t p of Some (Document b v) \<Rightarrow> True | Some (Symlink d f) \<Rightarrow> f | _ \<Rightarrow> False)"

definition path_exists :: "tree \<Rightarrow> rpath \<Rightarrow> bool" where
  "path_exists t p = (path_is_dir t p \<or> path_is_file t p)"

text \<open>The names \<open>iterdir\<close> lists.\<close>

definition child_names :: "tree \<Rightarrow> rpath \<Rightarrow> string list" where
  "child_names t p = map last (filter (\<lambda>q. q \<noteq> [] \<and> butlast q = p) (map fst t))"

definition sorted_names :: "tree \<Rightarrow> rpath \<Rightarrow> string list" where
  "sorted_names t p = sort_key (\<lambda>x. x) (child_names t p)"

section \<open>System calls\<close>

definition look :: "(tree \<Rightarrow> 'a res) \<Rightarrow> (disk, 'a) eff" where
  "look f = (\<lambda>s. (f (dk_tree s), s))"

definition put_tree :: "tree \<Rightarrow> (disk, unit) eff" where
  "put_tree t = (\<lambda>s. (Inr (), s\<lparr>dk_tree := t, dk_history := t # dk_history s\<rparr>))"

definition fresh_uuid :: "(disk, string) eff" where
  "fresh_uuid = (\<lambda>s. (Inr (dk_uuids s (dk_ticks s)), s\<lparr>dk_ticks := Suc (dk_ticks s)\<rparr>))"

definition current_time :: "(disk, int) eff" where
  "current_time = (\<lambda>s. (Inr (dk_clock s (dk_ticks s)), s\<lparr>dk_ticks := Suc (dk_ticks s)\<rparr>))"

definition with_node :: "rpath \<Rightarrow> node \<Rightarrow> tree \<Rightarrow> tree" where
  "with_node p n t = (p, n) # filter (\<lambda>(q, m). q \<noteq> p) t"

definition without_node :: "rpath \<Rightarrow> tree \<Rightarrow> tree" where
  "without_node p t = filter (\<lambda>(q, m). q \<noteq> p) t"

text \<open>\<open>Path.mkdir()\<close>.\<close>

definition make_directory :: "rpath \<Rightarrow> (disk, unit) eff" where
  "make_directory p = (\<lambda>s.
     if node_at (dk_tree s) p \<noteq> None then (Inl (OSError ''File exists''), s)
     else if \<not> path_is_dir (dk_tree s) (butlast p) then (Inl (OSError ''No such file or directory''), s)
     else put_tree (with_node p (Directory (dk_device s) (dk_inodes s (dk_ticks s))) (dk_tree s)) (s\<lparr>dk_ticks := Suc (dk_ticks s)\<rparr>))"

text \<open>\<open>os.rename\<close> and \<open>os.replace\<close>: the whole of what is below the source moves with it.\<close>

definition moved_tree :: "rpath \<Rightarrow> rpath \<Rightarrow> tree \<Rightarrow> tree" where
  "moved_tree p d t =
     map (\<lambda>(q, m). (d @ drop (length p) q, m)) (filter (\<lambda>(q, m). take (length p) q = p) t)
       @ filter (\<lambda>(q, m). take (length p) q \<noteq> p \<and> take (length d) q \<noteq> d) t"

definition can_replace :: "tree \<Rightarrow> node \<Rightarrow> rpath \<Rightarrow> bool" where
  "can_replace t n d =
     (case node_at t d of
        None \<Rightarrow> True
      | Some (Directory v i) \<Rightarrow> (case n of Directory v' i' \<Rightarrow> child_names t d = [] | _ \<Rightarrow> False)
      | Some _ \<Rightarrow> (case n of Directory v' i' \<Rightarrow> False | _ \<Rightarrow> True))"

definition rename_path :: "rpath \<Rightarrow> rpath \<Rightarrow> (disk, unit) eff" where
  "rename_path p d = (\<lambda>s.
     case node_at (dk_tree s) p of
       None \<Rightarrow> (Inl (OSError ''No such file or directory''), s)
     | Some n \<Rightarrow>
         if \<not> path_is_dir (dk_tree s) (butlast d) then (Inl (OSError ''No such file or directory''), s)
         else if p = d then (Inr (), s)
         else if take (length p) d = p then (Inl (OSError ''Invalid argument''), s)
         else if take (length d) p = d then (Inl (OSError ''Directory not empty''), s)
         else if \<not> can_replace (dk_tree s) n d then (Inl (OSError ''Directory not empty''), s)
         else put_tree (moved_tree p d (dk_tree s)) s)"

text \<open>\<open>open("w")\<close> empties the file or makes it, then the bytes are written.\<close>

definition write_document :: "rpath \<Rightarrow> string \<Rightarrow> pyval option \<Rightarrow> (disk, unit) eff" where
  "write_document p b v = (\<lambda>s.
     if \<not> path_is_dir (dk_tree s) (butlast p) then (Inl (OSError ''No such file or directory''), s)
     else case node_at (dk_tree s) p of
       Some (Directory d i) \<Rightarrow> (Inl (OSError ''Is a directory''), s)
     | Some (Symlink d f) \<Rightarrow> (Inl (OSError ''Too many levels of symbolic links''), s)
     | _ \<Rightarrow> thn (put_tree (with_node p (Document [] None) (dk_tree s)))
              (put_tree (with_node p (Document b v) (dk_tree s))) s)"

text \<open>\<open>unlink\<close> and \<open>rmdir\<close>.\<close>

definition unlink_path :: "rpath \<Rightarrow> (disk, unit) eff" where
  "unlink_path p = (\<lambda>s.
     case node_at (dk_tree s) p of
       None \<Rightarrow> (Inl (OSError ''No such file or directory''), s)
     | Some (Directory d i) \<Rightarrow> (Inl (OSError ''Is a directory''), s)
     | Some n \<Rightarrow> put_tree (without_node p (dk_tree s)) s)"

definition remove_directory :: "rpath \<Rightarrow> (disk, unit) eff" where
  "remove_directory p = (\<lambda>s.
     case node_at (dk_tree s) p of
       Some (Directory d i) \<Rightarrow>
         if child_names (dk_tree s) p \<noteq> [] then (Inl (OSError ''Directory not empty''), s)
         else put_tree (without_node p (dk_tree s)) s
     | None \<Rightarrow> (Inl (OSError ''No such file or directory''), s)
     | Some n \<Rightarrow> (Inl (OSError ''Not a directory''), s))"

text \<open>\<open>shutil.rmtree\<close>: the entries below go one by one, the deepest first, the directory itself last. That is one of the
  orders in which an entry goes after all that is below it; the order among siblings, which \<open>rmtree\<close> takes from the directory, is fixed here.\<close>

fun remove_entries :: "rpath list \<Rightarrow> (disk, unit) eff" where
  "remove_entries [] = ret ()"
| "remove_entries (p # ps) = thn (\<lambda>s. put_tree (without_node p (dk_tree s)) s) (remove_entries ps)"

definition paths_below :: "tree \<Rightarrow> rpath \<Rightarrow> rpath list" where
  "paths_below t p = filter (\<lambda>q. take (length p) q = p) (map fst t)"

definition remove_tree :: "rpath \<Rightarrow> (disk, unit) eff" where
  "remove_tree p = (\<lambda>s.
     case node_at (dk_tree s) p of
       Some (Directory d i) \<Rightarrow> remove_entries (rev (sort_key length (paths_below (dk_tree s) p))) s
     | None \<Rightarrow> (Inl (OSError ''No such file or directory''), s)
     | Some n \<Rightarrow> (Inl (OSError ''Not a directory''), s))"

section \<open>The journal\<close>

definition QUARANTINE_ROOT_NAME :: string where
  "QUARANTINE_ROOT_NAME = ''.retention-quarantine''"

definition QUARANTINE_JOURNAL_NAME :: string where
  "QUARANTINE_JOURNAL_NAME = ''transaction.json''"

definition QUARANTINE_PAYLOAD_NAME :: string where
  "QUARANTINE_PAYLOAD_NAME = ''payload''"

definition QUARANTINE_STAGING_PREFIX :: string where
  "QUARANTINE_STAGING_PREFIX = ''.staging-''"

datatype quarantine_state = Prepared | Quarantining | Quarantined | Deleting | Deleted

fun quarantine_state_name :: "quarantine_state \<Rightarrow> string" where
  "quarantine_state_name Prepared = ''prepared''"
| "quarantine_state_name Quarantining = ''quarantining''"
| "quarantine_state_name Quarantined = ''quarantined''"
| "quarantine_state_name Deleting = ''deleting''"
| "quarantine_state_name Deleted = ''deleted''"

definition QUARANTINE_STATES :: "quarantine_state list" where
  "QUARANTINE_STATES = [Prepared, Quarantining, Quarantined, Deleting, Deleted]"

record deletion_candidate =
  dc_path :: rpath
  dc_manifest_sha256 :: string
  dc_device :: int
  dc_inode :: int

record journal_item =
  ji_relative_path :: string
  ji_manifest_sha256 :: string
  ji_device :: int
  ji_inode :: int

record journal =
  jn_transaction_id :: string
  jn_created_at :: string
  jn_updated_at :: string
  jn_state :: quarantine_state
  jn_transaction_device :: int
  jn_transaction_inode :: int
  jn_payload_device :: int
  jn_payload_inode :: int
  jn_backup_manifest_sha256 :: string
  jn_moved :: "string list"
  jn_candidates :: "journal_item list"

definition candidate_to_journal :: "deletion_candidate \<Rightarrow> journal_item" where
  "candidate_to_journal c =
     \<lparr>ji_relative_path = py_join ''/'' (dc_path c), ji_manifest_sha256 = dc_manifest_sha256 c,
      ji_device = dc_device c, ji_inode = dc_inode c\<rparr>"

text \<open>\<open>Path(text)\<close> of a relative path.\<close>

definition relative_parts :: "string \<Rightarrow> rpath" where
  "relative_parts p = filter (\<lambda>x. x \<noteq> [] \<and> x \<noteq> ''.'') (py_split (CHR ''/'') p)"

definition item_json :: "journal_item \<Rightarrow> pyval" where
  "item_json c =
     PDict [(''relative_path'', PStr (ji_relative_path c)), (''manifest_sha256'', PStr (ji_manifest_sha256 c)),
       (''device'', PInt (ji_device c)), (''inode'', PInt (ji_inode c))]"

definition journal_json :: "journal \<Rightarrow> pyval" where
  "journal_json j =
     PDict [(''version'', PInt 1), (''transaction_id'', PStr (jn_transaction_id j)), (''created_at'', PStr (jn_created_at j)),
       (''state'', PStr (quarantine_state_name (jn_state j))),
       (''transaction_device'', PInt (jn_transaction_device j)), (''transaction_inode'', PInt (jn_transaction_inode j)),
       (''payload_device'', PInt (jn_payload_device j)), (''payload_inode'', PInt (jn_payload_inode j)),
       (''backup_manifest_sha256'', PStr (jn_backup_manifest_sha256 j)), (''moved'', PList (map PStr (jn_moved j))),
       (''candidates'', PList (map item_json (jn_candidates j))), (''updated_at'', PStr (jn_updated_at j))]"

text \<open>Reading the fields of a decoded JSON document; None is a KeyError, TypeError or ValueError.\<close>

definition json_field :: "pyval \<Rightarrow> string \<Rightarrow> pyval option" where
  "json_field v k = (case v of PDict d \<Rightarrow> dict_get d k | _ \<Rightarrow> None)"

definition json_text :: "pyval \<Rightarrow> string option" where
  "json_text v = (case v of PStr s \<Rightarrow> Some s | _ \<Rightarrow> None)"

definition json_int :: "pyval \<Rightarrow> int option" where
  "json_int v = (case v of PInt i \<Rightarrow> Some i | PBool b \<Rightarrow> Some (if b then 1 else 0) | _ \<Rightarrow> None)"

definition json_list :: "pyval \<Rightarrow> pyval list option" where
  "json_list v = (case v of PList xs \<Rightarrow> Some xs | _ \<Rightarrow> None)"

definition text_field :: "pyval \<Rightarrow> string \<Rightarrow> string option" where
  "text_field v k = Option.bind (json_field v k) json_text"

definition int_field :: "pyval \<Rightarrow> string \<Rightarrow> int option" where
  "int_field v k = Option.bind (json_field v k) json_int"

definition list_field :: "pyval \<Rightarrow> string \<Rightarrow> pyval list option" where
  "list_field v k = Option.bind (json_field v k) json_list"

definition guard :: "bool \<Rightarrow> unit option" where
  "guard b = (if b then Some () else None)"

fun all_some :: "'a option list \<Rightarrow> 'a list option" where
  "all_some [] = Some []"
| "all_some (x # xs) = Option.bind x (\<lambda>y. map_option ((#) y) (all_some xs))"

definition unsafe_part :: "string \<Rightarrow> bool" where
  "unsafe_part part = (part = [] \<or> part = ''.'' \<or> part = ''..'' \<or> py_startswith part ''.'')"

definition safe_relative_text :: "string \<Rightarrow> bool" where
  "safe_relative_text p =
     (\<not> is_absolute p \<and> length (relative_parts p) = 2 \<and> \<not> list_ex unsafe_part (relative_parts p) \<and>
      py_join ''/'' (relative_parts p) = p)"

definition read_item :: "pyval \<Rightarrow> journal_item option" where
  "read_item item =
     Option.bind (text_field item ''relative_path'') (\<lambda>relative.
     Option.bind (guard (safe_relative_text relative)) (\<lambda>_.
     Option.bind (int_field item ''device'') (\<lambda>device.
     Option.bind (int_field item ''inode'') (\<lambda>inode.
     Option.bind (text_field item ''manifest_sha256'') (\<lambda>digest.
     Option.bind (guard (length digest = 64)) (\<lambda>_.
     Some \<lparr>ji_relative_path = relative, ji_manifest_sha256 = digest, ji_device = device, ji_inode = inode\<rparr>))))))"

definition read_state :: "string \<Rightarrow> quarantine_state option" where
  "read_state name = List.find (\<lambda>st. quarantine_state_name st = name) QUARANTINE_STATES"

text \<open>The checks of \<open>_read_quarantine_journal\<close> on a decoded document.\<close>

definition journal_of_json :: "retention_env \<Rightarrow> string \<Rightarrow> pyval \<Rightarrow> journal option" where
  "journal_of_json en name v =
     Option.bind (json_field v ''version'') (\<lambda>version.
     Option.bind (guard (py_eq version (PInt 1))) (\<lambda>_.
     Option.bind (text_field v ''transaction_id'') (\<lambda>tid.
     Option.bind (guard (tid = name)) (\<lambda>_.
     Option.bind (Option.bind (text_field v ''state'') read_state) (\<lambda>state.
     Option.bind (list_field v ''moved'') (\<lambda>raw_moved.
     Option.bind (list_field v ''candidates'') (\<lambda>raw_candidates.
     Option.bind (guard (raw_candidates \<noteq> [])) (\<lambda>_.
     Option.bind (text_field v ''updated_at'') (\<lambda>updated.
     Option.bind (int_field v ''transaction_device'') (\<lambda>td.
     Option.bind (int_field v ''transaction_inode'') (\<lambda>ti.
     Option.bind (int_field v ''payload_device'') (\<lambda>pd.
     Option.bind (int_field v ''payload_inode'') (\<lambda>pi.
     Option.bind (text_field v ''backup_manifest_sha256'') (\<lambda>digest.
     Option.bind (guard (length digest = 64)) (\<lambda>_.
     Option.bind (text_field v ''created_at'') (\<lambda>created.
     Option.bind (rv_fromisoformat en created) (\<lambda>_.
     Option.bind (rv_fromisoformat en updated) (\<lambda>_.
     Option.bind (all_some (map read_item raw_candidates)) (\<lambda>candidates.
     Option.bind (guard (distinct (map ji_relative_path candidates))) (\<lambda>_.
     Option.bind (all_some (map json_text raw_moved)) (\<lambda>moved.
     Option.bind (guard (distinct moved)) (\<lambda>_.
     Option.bind (guard (set moved \<subseteq> set (map ji_relative_path candidates))) (\<lambda>_.
     Some \<lparr>jn_transaction_id = tid, jn_created_at = created, jn_updated_at = updated, jn_state = state,
       jn_transaction_device = td, jn_transaction_inode = ti, jn_payload_device = pd, jn_payload_inode = pi,
       jn_backup_manifest_sha256 = digest, jn_moved = moved, jn_candidates = candidates\<rparr>)))))))))))))))))))))))"

section \<open>Checks\<close>

text \<open>A check raises or passes; the checks of a sequence run until one raises.\<close>

definition require :: "bool \<Rightarrow> string \<Rightarrow> unit res" where
  "require b message = (if b then Inr () else Inl (RuntimeError message))"

definition and_check :: "unit res \<Rightarrow> 'a res \<Rightarrow> 'a res" where
  "and_check a b = (case a of Inl e \<Rightarrow> Inl e | Inr _ \<Rightarrow> b)"

definition then_check :: "'a res \<Rightarrow> ('a \<Rightarrow> 'b res) \<Rightarrow> 'b res" where
  "then_check a f = (case a of Inl e \<Rightarrow> Inl e | Inr x \<Rightarrow> f x)"

fun check_each :: "('a \<Rightarrow> unit res) \<Rightarrow> 'a list \<Rightarrow> unit res" where
  "check_each f [] = Inr ()"
| "check_each f (x # xs) = and_check (f x) (check_each f xs)"

text \<open>\<open>UUID(t).hex == t\<close>: thirty-two lower-case hexadecimal digits.\<close>

definition is_transaction_id :: "string \<Rightarrow> bool" where
  "is_transaction_id t = (length t = 32 \<and> list_all is_hex_lower t)"

definition validate_transaction_id :: "string \<Rightarrow> unit res" where
  "validate_transaction_id t = require (is_transaction_id t) ''Invalid retention quarantine transaction id''"

text \<open>\<open>_validate_regular_directory\<close> returns the device and inode.\<close>

definition validate_regular_directory :: "tree \<Rightarrow> rpath \<Rightarrow> string \<Rightarrow> (int \<times> int) res" where
  "validate_regular_directory t p label =
     (case node_at t p of Some (Directory d i) \<Rightarrow> Inr (d, i) | _ \<Rightarrow> Inl (RuntimeError (''Unsafe '' @ label)))"

definition validate_payload_root :: "tree \<Rightarrow> rpath \<Rightarrow> journal \<Rightarrow> unit res" where
  "validate_payload_root t payload_root j =
     then_check (validate_regular_directory t payload_root ''retention quarantine payload'') (\<lambda>(d, i).
     require (d = jn_payload_device j \<and> i = jn_payload_inode j) ''Unsafe retention quarantine payload'')"

definition safe_candidate_exists :: "tree \<Rightarrow> rpath \<Rightarrow> rpath \<Rightarrow> bool res" where
  "safe_candidate_exists t p trusted_root =
     and_check
       (if path_exists t (butlast p) then then_check (validate_regular_directory t (butlast p) ''retention candidate parent'') (\<lambda>_. Inr ())
        else require (\<not> path_is_symlink t (butlast p)) ''Unsafe retention candidate parent'')
     (and_check (require (\<not> path_is_symlink t p) ''Unsafe retention candidate path'')
       (if \<not> path_exists t p then Inr False
        else if take (length trusted_root) p \<noteq> trusted_root then Inl (RuntimeError ''Unsafe retention candidate path'')
        else Inr True))"

definition validate_candidate_identity :: "retention_env \<Rightarrow> tree \<Rightarrow> rpath \<Rightarrow> string \<Rightarrow> int \<Rightarrow> int \<Rightarrow> unit res" where
  "validate_candidate_identity en t p digest device inode =
     (case node_at t p of
        Some (Directory d i) \<Rightarrow>
          require (d = device \<and> i = inode \<and>
              (case node_at t (p @ [''restore.json'']) of Some (Document b v) \<Rightarrow> rv_sha256 en b = digest | _ \<Rightarrow> False))
            ''Restore point changed after preview''
      | _ \<Rightarrow> Inl (RuntimeError ''Restore point changed after preview''))"

definition validate_candidate :: "retention_env \<Rightarrow> tree \<Rightarrow> deletion_candidate \<Rightarrow> unit res" where
  "validate_candidate en t c =
     validate_candidate_identity en t (dc_path c) (dc_manifest_sha256 c) (dc_device c) (dc_inode c)"

definition validate_journal_candidate :: "retention_env \<Rightarrow> tree \<Rightarrow> rpath \<Rightarrow> journal_item \<Rightarrow> unit res" where
  "validate_journal_candidate en t p item =
     validate_candidate_identity en t p (ji_manifest_sha256 item) (ji_device item) (ji_inode item)"

definition quarantine_root :: rpath where
  "quarantine_root = [QUARANTINE_ROOT_NAME]"

definition transaction_path :: "string \<Rightarrow> rpath" where
  "transaction_path tid = quarantine_root @ [tid]"

definition staging_path :: "string \<Rightarrow> rpath" where
  "staging_path tid = quarantine_root @ [QUARANTINE_STAGING_PREFIX @ tid]"

definition journal_path :: "rpath \<Rightarrow> rpath" where
  "journal_path transaction = transaction @ [QUARANTINE_JOURNAL_NAME]"

definition payload_path :: "rpath \<Rightarrow> rpath" where
  "payload_path transaction = transaction @ [QUARANTINE_PAYLOAD_NAME]"

definition read_quarantine_journal :: "retention_env \<Rightarrow> tree \<Rightarrow> rpath \<Rightarrow> journal res" where
  "read_quarantine_journal en t transaction =
     and_check (validate_transaction_id (last transaction))
     (then_check (validate_regular_directory t transaction ''retention quarantine transaction'') (\<lambda>_.
      case node_at t (journal_path transaction) of
        Some (Document b (Some v)) \<Rightarrow>
          (case journal_of_json en (last transaction) v of
             Some j \<Rightarrow> Inr j
           | None \<Rightarrow> Inl (RuntimeError ''Invalid retention quarantine journal''))
      | Some (Document b None) \<Rightarrow> Inl (RuntimeError ''Invalid retention quarantine journal'')
      | _ \<Rightarrow> Inl (RuntimeError ''Missing or unsafe quarantine journal'')))"

text \<open>One candidate of the loop of \<open>_preflight_quarantine\<close>.\<close>

definition preflight_item :: "retention_env \<Rightarrow> tree \<Rightarrow> rpath \<Rightarrow> journal \<Rightarrow> journal_item \<Rightarrow> unit res" where
  "preflight_item en t payload_root j item =
     (let relative = relative_parts (ji_relative_path item);
          relative_text = py_join ''/'' relative;
          source = relative;
          target = payload_root @ relative;
          moved = relative_text \<in> set (jn_moved j)
      in then_check (safe_candidate_exists t source []) (\<lambda>source_exists.
         if jn_state j \<in> {Deleting, Deleted}
         then require (\<not> source_exists) ''Original restore point reappeared during deletion''
         else then_check (safe_candidate_exists t target payload_root) (\<lambda>target_exists.
           and_check (require (source_exists \<noteq> target_exists) ''Ambiguous or missing quarantine recovery path'')
          (and_check (validate_journal_candidate en t (if target_exists then target else source) item)
          (and_check (require (\<not> (jn_state j = Prepared \<and> (target_exists \<or> moved))) ''Invalid prepared quarantine state'')
          (and_check (require (\<not> (moved \<and> \<not> target_exists)) ''Invalid moved quarantine state'')
           (require (\<not> (jn_state j = Quarantined \<and> (\<not> target_exists \<or> \<not> moved))) ''Invalid quarantined state'')))))))"

definition preflight_quarantine :: "retention_env \<Rightarrow> tree \<Rightarrow> rpath \<Rightarrow> journal \<Rightarrow> unit res" where
  "preflight_quarantine en t transaction j =
     (let payload_root = payload_path transaction;
          present = path_exists t payload_root \<or> path_is_symlink t payload_root
      in then_check (validate_regular_directory t transaction ''retention quarantine transaction'') (\<lambda>(d, i).
         and_check (require (d = jn_transaction_device j \<and> i = jn_transaction_inode j) ''Unsafe retention quarantine transaction'')
        (and_check
           (if jn_state j = Deleted then require (\<not> present) ''Invalid deleted quarantine payload''
            else if jn_state j = Deleting then (if present then validate_payload_root t payload_root j else Inr ())
            else validate_payload_root t payload_root j)
         (check_each (preflight_item en t payload_root j) (jn_candidates j)))))"

section \<open>The transaction\<close>

text \<open>\<open>_write_json_atomically\<close> and \<open>_write_quarantine_journal\<close>, which returns the journal it stamped.\<close>

definition write_json_atomically :: "retention_env \<Rightarrow> rpath \<Rightarrow> pyval \<Rightarrow> (disk, unit) eff" where
  "write_json_atomically en p v =
     bnd fresh_uuid (\<lambda>u.
     let temporary = butlast p @ [''.'' @ last p @ ''.tmp-'' @ u]
     in thn (write_document temporary (rv_dump en v) (Some v)) (rename_path temporary p))"

definition write_quarantine_journal :: "retention_env \<Rightarrow> rpath \<Rightarrow> journal \<Rightarrow> (disk, journal) eff" where
  "write_quarantine_journal en transaction j =
     bnd current_time (\<lambda>now.
     let j' = j\<lparr>jn_updated_at := rv_isoformat en now\<rparr>
     in thn (write_json_atomically en (journal_path transaction) (journal_json j')) (ret j'))"

definition finish_quarantine_delete :: "retention_env \<Rightarrow> rpath \<Rightarrow> journal \<Rightarrow> (disk, unit) eff" where
  "finish_quarantine_delete en transaction j =
     (let payload_root = payload_path transaction
      in bnd (look (\<lambda>t. Inr (path_exists t payload_root))) (\<lambda>present.
         thn (if present
              then thn (look (\<lambda>t. validate_payload_root t payload_root j)) (remove_tree payload_root)
              else ret ())
         (bnd (write_quarantine_journal en transaction (j\<lparr>jn_state := Deleted\<rparr>)) (\<lambda>_. ret ()))))"

text \<open>The directory that takes a candidate, made when it is not there.\<close>

definition ensure_payload_parent :: "rpath \<Rightarrow> (disk, unit) eff" where
  "ensure_payload_parent p =
     bnd (look (\<lambda>t. Inr (path_exists t p))) (\<lambda>present.
     thn (if present then ret () else make_directory p)
         (look (\<lambda>t. then_check (validate_regular_directory t p ''quarantine payload parent'') (\<lambda>_. Inr ()))))"

fun quarantine_candidates ::
    "retention_env \<Rightarrow> rpath \<Rightarrow> deletion_candidate list \<Rightarrow> journal \<Rightarrow> (disk, journal) eff" where
  "quarantine_candidates en transaction [] j = ret j"
| "quarantine_candidates en transaction (c # cs) j =
     (let target = payload_path transaction @ dc_path c
      in thn (look (\<lambda>t. validate_candidate en t c))
        (thn (ensure_payload_parent (butlast target))
        (thn (rename_path (dc_path c) target)
        (bnd (write_quarantine_journal en transaction (j\<lparr>jn_moved := jn_moved j @ [py_join ''/'' (dc_path c)]\<rparr>)) (\<lambda>j'.
         quarantine_candidates en transaction cs j')))))"

text \<open>\<open>quarantine_and_delete\<close> from the transaction's id on, then the whole.\<close>

definition run_transaction :: "retention_env \<Rightarrow> deletion_candidate list \<Rightarrow> string \<Rightarrow> string \<Rightarrow> (disk, nat) eff" where
  "run_transaction en candidates backup_manifest_sha256 tid =
     (let staging = staging_path tid; transaction = transaction_path tid
      in thn (make_directory staging)
        (thn (make_directory (payload_path staging))
        (bnd (look (\<lambda>t. validate_regular_directory t staging ''retention quarantine staging'')) (\<lambda>(td, ti).
         bnd (look (\<lambda>t. validate_regular_directory t (payload_path staging) ''retention quarantine payload'')) (\<lambda>(pd, pi).
         bnd current_time (\<lambda>now.
         bnd (write_quarantine_journal en staging
               \<lparr>jn_transaction_id = tid, jn_created_at = rv_isoformat en now, jn_updated_at = [], jn_state = Prepared,
                jn_transaction_device = td, jn_transaction_inode = ti, jn_payload_device = pd, jn_payload_inode = pi,
                jn_backup_manifest_sha256 = backup_manifest_sha256, jn_moved = [],
                jn_candidates = map candidate_to_journal candidates\<rparr>) (\<lambda>j0.
         thn (rename_path staging transaction)
        (bnd (write_quarantine_journal en transaction (j0\<lparr>jn_state := Quarantining\<rparr>)) (\<lambda>j1.
         bnd (quarantine_candidates en transaction candidates j1) (\<lambda>j2.
         bnd (write_quarantine_journal en transaction (j2\<lparr>jn_state := Quarantined\<rparr>)) (\<lambda>j3.
         bnd (write_quarantine_journal en transaction (j3\<lparr>jn_state := Deleting\<rparr>)) (\<lambda>j4.
         thn (finish_quarantine_delete en transaction j4)
             (ret (length candidates))))))))))))))"

definition quarantine_and_delete :: "retention_env \<Rightarrow> deletion_candidate list \<Rightarrow> string \<Rightarrow> (disk, nat) eff" where
  "quarantine_and_delete en candidates backup_manifest_sha256 =
     thn (look (\<lambda>t. require (length backup_manifest_sha256 = 64) ''A verified backup manifest digest is required for retention''))
    (thn (look (\<lambda>t. check_each (validate_candidate en t) candidates))
    (if candidates = [] then ret 0
     else
       thn (bnd (look (\<lambda>t. Inr (path_exists t quarantine_root))) (\<lambda>present.
            if present
            then look (\<lambda>t. then_check (validate_regular_directory t quarantine_root ''retention quarantine'') (\<lambda>_. Inr ()))
            else make_directory quarantine_root))
      (bnd fresh_uuid (run_transaction en candidates backup_manifest_sha256))))"

section \<open>Recovery\<close>

fun recover_candidates :: "retention_env \<Rightarrow> rpath \<Rightarrow> journal_item list \<Rightarrow> journal \<Rightarrow> (disk, journal) eff" where
  "recover_candidates en transaction [] j = ret j"
| "recover_candidates en transaction (item # items) j =
     (let relative = relative_parts (ji_relative_path item);
          relative_text = py_join ''/'' relative;
          payload_root = payload_path transaction;
          target = payload_root @ relative
      in bnd (look (\<lambda>t. safe_candidate_exists t relative [])) (\<lambda>source_exists.
         bnd (look (\<lambda>t. safe_candidate_exists t target payload_root)) (\<lambda>target_exists.
         thn (if target_exists then look (\<lambda>t. validate_journal_candidate en t target item)
              else if source_exists then
                thn (look (\<lambda>t. validate_journal_candidate en t relative item))
               (thn (ensure_payload_parent (butlast target))
                    (rename_path relative target))
              else raise (RuntimeError ''Missing quarantine recovery path''))
        (bnd (if relative_text \<notin> set (jn_moved j)
              then write_quarantine_journal en transaction (j\<lparr>jn_moved := jn_moved j @ [relative_text]\<rparr>)
              else ret j) (\<lambda>j'.
         recover_candidates en transaction items j')))))"

definition recover_quarantine :: "retention_env \<Rightarrow> string \<Rightarrow> string \<Rightarrow> (disk, nat) eff" where
  "recover_quarantine en tid backup_manifest_sha256 =
     (let transaction = transaction_path tid
      in thn (look (\<lambda>t. validate_transaction_id tid))
        (thn (look (\<lambda>t. then_check (validate_regular_directory t quarantine_root ''retention quarantine'') (\<lambda>_. Inr ())))
        (bnd (look (\<lambda>t. read_quarantine_journal en t transaction)) (\<lambda>j.
         thn (look (\<lambda>t. preflight_quarantine en t transaction j))
        (thn (look (\<lambda>t. require (jn_backup_manifest_sha256 j = backup_manifest_sha256)
                ''Backup manifest does not match the transaction''))
        (if jn_state j = Deleted then ret 0
         else
           bnd (if jn_state j = Deleting then ret j
                else
                  thn (look (\<lambda>t. validate_payload_root t (payload_path transaction) j))
                 (bnd (recover_candidates en transaction (jn_candidates j) j) (\<lambda>j1.
                  bnd (write_quarantine_journal en transaction (j1\<lparr>jn_state := Quarantined\<rparr>)) (\<lambda>j2.
                  write_quarantine_journal en transaction (j2\<lparr>jn_state := Deleting\<rparr>)))))
             (\<lambda>j3. thn (finish_quarantine_delete en transaction j3) (ret (length (jn_candidates j))))))))))"

text \<open>\<open>_discard_abandoned_staging\<close>: every entry is looked at before any is removed.\<close>

definition staging_entry_ok :: "tree \<Rightarrow> rpath \<Rightarrow> string \<Rightarrow> unit res" where
  "staging_entry_ok t staging name =
     (if name = QUARANTINE_PAYLOAD_NAME
      then then_check (validate_regular_directory t (staging @ [name]) ''retention quarantine staging payload'') (\<lambda>_.
           require (child_names t (staging @ [name]) = []) ''Unsafe retention quarantine staging payload'')
      else if name = QUARANTINE_JOURNAL_NAME \<or> py_startswith name (''.'' @ QUARANTINE_JOURNAL_NAME @ ''.tmp-'')
      then (case node_at t (staging @ [name]) of Some (Document b v) \<Rightarrow> Inr ()
            | _ \<Rightarrow> Inl (RuntimeError ''Unsafe retention quarantine staging file''))
      else Inl (RuntimeError ''Unsafe retention quarantine staging entry''))"

definition discard_abandoned_staging :: "string \<Rightarrow> (disk, unit) eff" where
  "discard_abandoned_staging name =
     (let staging = quarantine_root @ [name]
      in thn (look (\<lambda>t. validate_transaction_id (py_removeprefix name QUARANTINE_STAGING_PREFIX)))
        (thn (look (\<lambda>t. then_check (validate_regular_directory t staging ''retention quarantine staging'') (\<lambda>_. Inr ())))
        (thn (look (\<lambda>t. check_each (staging_entry_ok t staging) (child_names t staging)))
        (bnd (look (\<lambda>t. Inr (child_names t staging))) (\<lambda>names.
         thn (for_each (\<lambda>n. if n = QUARANTINE_PAYLOAD_NAME then remove_directory (staging @ [n]) else unlink_path (staging @ [n])) names)
             (remove_directory staging))))))"

fun pending_transactions :: "retention_env \<Rightarrow> string list \<Rightarrow> (disk, string list) eff" where
  "pending_transactions en [] = ret []"
| "pending_transactions en (name # names) =
     (if py_startswith name QUARANTINE_STAGING_PREFIX
      then thn (discard_abandoned_staging name) (pending_transactions en names)
      else bnd (look (\<lambda>t. read_quarantine_journal en t (transaction_path name))) (\<lambda>j.
           thn (look (\<lambda>t. preflight_quarantine en t (transaction_path name) j))
          (bnd (pending_transactions en names) (\<lambda>rest.
           ret (if jn_state j \<noteq> Deleted then name # rest else rest)))))"

definition list_pending_quarantines :: "retention_env \<Rightarrow> (disk, string list) eff" where
  "list_pending_quarantines en =
     bnd (look (\<lambda>t. Inr (path_exists t quarantine_root))) (\<lambda>present.
     if \<not> present then ret []
     else thn (look (\<lambda>t. then_check (validate_regular_directory t quarantine_root ''retention quarantine'') (\<lambda>_. Inr ())))
         (bnd (look (\<lambda>t. Inr (sorted_names t quarantine_root))) (pending_transactions en)))"

section \<open>Where a restore point is\<close>

text \<open>\<open>re.sub(r"[^A-Za-z0-9._-]", "_", key)\<close>, and \<open>path_for\<close>.\<close>

definition safe_component :: "string \<Rightarrow> string" where
  "safe_component key =
     map (\<lambda>c. if is_digit c \<or> is_upper c \<or> is_lower c \<or> c = CHR ''.'' \<or> c = CHR ''_'' \<or> c = CHR ''-'' then c else CHR ''_'') key"

definition path_for :: "string \<Rightarrow> string \<Rightarrow> rpath res" where
  "path_for run_id book_key =
     (if safe_component book_key \<in> {[], ''.'', ''..''} \<or> safe_component run_id \<in> {[], ''.'', ''..''}
      then Inl (ValueError ''restore point identifiers do not produce a safe path'')
      else Inr [safe_component run_id, safe_component book_key])"

section \<open>The manifest of expired restore points\<close>

text \<open>\<open>timedelta(seconds=v)\<close> in microseconds.\<close>

definition timedelta_seconds :: "retention_env \<Rightarrow> pyval \<Rightarrow> int option" where
  "timedelta_seconds en v =
     (case v of PInt i \<Rightarrow> Some (1000000 * i) | PBool b \<Rightarrow> Some (if b then 1000000 else 0)
      | PFloat r \<Rightarrow> rv_float_seconds en r | _ \<Rightarrow> None)"

text \<open>When a restore point was applied, and how long it is kept.\<close>

definition restore_point_age :: "retention_env \<Rightarrow> pyval option \<Rightarrow> (int \<times> int) option" where
  "restore_point_age en doc =
     Option.bind doc (\<lambda>v.
     Option.bind (Option.bind (text_field v ''applied_at'') (rv_fromisoformat en)) (\<lambda>(applied_at, aware).
     Option.bind (timedelta_seconds en (case json_field v ''ttl_seconds'' of Some x \<Rightarrow> x
         | None \<Rightarrow> PInt (rv_default_ttl en div 1000000))) (\<lambda>ttl.
     Some (applied_at, ttl))))"

definition manifest_entry :: "retention_env \<Rightarrow> int \<Rightarrow> tree \<Rightarrow> rpath \<Rightarrow> deletion_candidate option res" where
  "manifest_entry en now t book_dir =
     (case node_at t book_dir of
        Some (Directory d i) \<Rightarrow>
          (case node_at t (book_dir @ [''restore.json'']) of
             Some (Document b doc) \<Rightarrow>
               (case restore_point_age en doc of
                  None \<Rightarrow> Inl (RuntimeError ''Invalid restore manifest'')
                | Some (applied_at, ttl) \<Rightarrow>
                    Inr (if now - applied_at \<le> ttl then None
                         else Some \<lparr>dc_path = book_dir, dc_manifest_sha256 = rv_sha256 en b, dc_device = d, dc_inode = i\<rparr>))
           | _ \<Rightarrow> Inl (RuntimeError ''Missing or unsafe restore manifest''))
      | _ \<Rightarrow> Inl (RuntimeError ''Unmanaged restore entry''))"

fun manifest_entries :: "retention_env \<Rightarrow> int \<Rightarrow> tree \<Rightarrow> rpath \<Rightarrow> string list \<Rightarrow> deletion_candidate list res" where
  "manifest_entries en now t run_dir [] = Inr []"
| "manifest_entries en now t run_dir (name # names) =
     then_check (manifest_entry en now t (run_dir @ [name])) (\<lambda>entry.
     then_check (manifest_entries en now t run_dir names) (\<lambda>rest.
     Inr (case entry of None \<Rightarrow> rest | Some c \<Rightarrow> c # rest)))"

fun manifest_runs :: "retention_env \<Rightarrow> int \<Rightarrow> string list \<Rightarrow> (disk, deletion_candidate list) eff" where
  "manifest_runs en now [] = ret []"
| "manifest_runs en now (name # names) =
     (if name = QUARANTINE_ROOT_NAME
      then bnd (list_pending_quarantines en) (\<lambda>pending.
           if pending \<noteq> [] then raise (RuntimeError ''Pending retention quarantine requires explicit recovery'')
           else manifest_runs en now names)
      else if py_startswith name ''.'' then raise (RuntimeError ''Unmanaged restore entry'')
      else bnd (look (\<lambda>t. case node_at t [name] of
               Some (Directory d i) \<Rightarrow> Inr (sorted_names t [name])
             | _ \<Rightarrow> Inl (RuntimeError ''Unmanaged restore entry''))) (\<lambda>books.
           bnd (look (\<lambda>t. manifest_entries en now t [name] books)) (\<lambda>found.
           bnd (manifest_runs en now names) (\<lambda>rest.
           ret (found @ rest)))))"

definition build_deletion_manifest :: "retention_env \<Rightarrow> int option \<Rightarrow> (disk, deletion_candidate list) eff" where
  "build_deletion_manifest en at_time =
     bnd (case at_time of Some n \<Rightarrow> ret n | None \<Rightarrow> current_time) (\<lambda>now.
     bnd (look (\<lambda>t. Inr (path_exists t []))) (\<lambda>present.
     if \<not> present then ret []
     else bnd (look (\<lambda>t. Inr (sorted_names t []))) (manifest_runs en now)))"


section \<open>Restore points\<close>

record restore_point =
  rp_path :: rpath
  rp_run_id :: pyval
  rp_book_key :: pyval
  rp_calibre_book_id :: pyval
  rp_applied_at :: "int \<times> bool"
  rp_fields_changed :: pyval
  rp_restore_point_ttl :: int

text \<open>\<open>now\<close> has an offset; the difference with a date without one is a TypeError.\<close>

definition is_expired :: "restore_point \<Rightarrow> int \<Rightarrow> bool res" where
  "is_expired rp now =
     (if snd (rp_applied_at rp) then Inr (rp_restore_point_ttl rp < now - fst (rp_applied_at rp))
      else Inl (TypeError ''can't subtract offset-naive and offset-aware datetimes''))"

record protected_files =
  pf_ensure_secure_directory :: "rpath \<Rightarrow> (disk, unit) eff"
  pf_copy_file_replacing_beneath :: "string \<Rightarrow> rpath \<Rightarrow> int option \<Rightarrow> (disk, unit) eff"
  pf_replace_bytes_beneath :: "rpath \<Rightarrow> string \<Rightarrow> pyval \<Rightarrow> (disk, unit) eff"

definition is_os_error :: "exn \<Rightarrow> bool" where
  "is_os_error e = (case e of OSError _ \<Rightarrow> True | _ \<Rightarrow> False)"

text \<open>A copy that fails with an OSError is logged; the restore point is made without it.\<close>

definition copy_original :: "protected_files \<Rightarrow> string option \<Rightarrow> (string \<Rightarrow> rpath) \<Rightarrow> int option \<Rightarrow> (disk, unit) eff" where
  "copy_original pf original target max_bytes =
     (case original of
        None \<Rightarrow> ret ()
      | Some p \<Rightarrow> try_except is_os_error (pf_copy_file_replacing_beneath pf p (target p) max_bytes) (\<lambda>_. ret ()))"

definition create_restore_point ::
    "retention_env \<Rightarrow> protected_files \<Rightarrow> string \<Rightarrow> string \<Rightarrow> int option \<Rightarrow> pyval \<Rightarrow> pyval \<Rightarrow> string list \<Rightarrow>
     string option \<Rightarrow> string option \<Rightarrow> string option \<Rightarrow> (disk, restore_point) eff" where
  "create_restore_point en pf run_id book_key calibre_book_id before_metadata after_metadata fields_changed
      original_file original_cover original_opf =
     bnd (lift_res (path_for run_id book_key)) (\<lambda>rp_dir.
     let book_id = (case calibre_book_id of None \<Rightarrow> PNone | Some i \<Rightarrow> PInt i);
         ttl_seconds = rv_default_ttl en div 1000000;
         put = (\<lambda>name v. pf_replace_bytes_beneath pf (rp_dir @ [name]) (rv_dump en v) v)
     in thn (pf_ensure_secure_directory pf rp_dir)
       (thn (copy_original pf original_opf (\<lambda>_. rp_dir @ [''original.opf'']) (Some (32 * 1024 * 1024)))
       (thn (copy_original pf original_file (\<lambda>p. rp_dir @ [''original'' @ path_suffix p]) None)
       (thn (copy_original pf original_cover (\<lambda>p. rp_dir @ [''original.cover'' @ path_suffix p]) (Some (20 * 1024 * 1024)))
       (bnd current_time (\<lambda>now.
        thn (put ''before.json'' before_metadata)
       (thn (put ''after.json'' after_metadata)
       (thn (put ''restore.json'' (PDict [(''run_id'', PStr run_id), (''book_key'', PStr book_key), (''calibre_book_id'', book_id),
               (''applied_at'', PStr (rv_isoformat en now)), (''fields_changed'', PList (map PStr fields_changed)),
               (''ttl_seconds'', PInt ttl_seconds)]))
        (ret \<lparr>rp_path = rp_dir, rp_run_id = PStr run_id, rp_book_key = PStr book_key, rp_calibre_book_id = book_id,
              rp_applied_at = (now, True), rp_fields_changed = PList (map PStr fields_changed),
              rp_restore_point_ttl = rv_default_ttl en\<rparr>)))))))))"

text \<open>\<open>meta[k]\<close> of a decoded document.\<close>

definition json_item :: "pyval \<Rightarrow> string \<Rightarrow> pyval res" where
  "json_item v k =
     (case v of
        PDict d \<Rightarrow> (case dict_get d k of Some x \<Rightarrow> Inr x | None \<Rightarrow> Inl (KeyError k))
      | _ \<Rightarrow> Inl (TypeError ''indices must be integers or slices''))"

definition date_of :: "retention_env \<Rightarrow> pyval \<Rightarrow> (int \<times> bool) res" where
  "date_of en v =
     (case v of
        PStr x \<Rightarrow> (case rv_fromisoformat en x of Some d \<Rightarrow> Inr d | None \<Rightarrow> Inl (ValueError ''Invalid isoformat string''))
      | _ \<Rightarrow> Inl (TypeError ''fromisoformat: argument must be str''))"

definition duration_of :: "retention_env \<Rightarrow> pyval \<Rightarrow> int res" where
  "duration_of en v =
     (case timedelta_seconds en v of Some n \<Rightarrow> Inr n | None \<Rightarrow> Inl (TypeError ''unsupported type for timedelta seconds component''))"

text \<open>The restore point \<open>list_all\<close> reads from a document; a bad document is skipped, but not one with a value of another type.\<close>

definition restore_point_of :: "retention_env \<Rightarrow> rpath \<Rightarrow> pyval \<Rightarrow> restore_point res" where
  "restore_point_of en book_dir meta =
     then_check (json_item meta ''run_id'') (\<lambda>run_id.
     then_check (json_item meta ''book_key'') (\<lambda>book_key.
     then_check (then_check (json_item meta ''applied_at'') (date_of en)) (\<lambda>applied_at.
     then_check (duration_of en (case json_field meta ''ttl_seconds'' of Some x \<Rightarrow> x | None \<Rightarrow> PInt (30 * 24 * 3600))) (\<lambda>ttl.
     Inr \<lparr>rp_path = book_dir, rp_run_id = run_id, rp_book_key = book_key,
          rp_calibre_book_id = (case json_field meta ''calibre_book_id'' of Some x \<Rightarrow> x | None \<Rightarrow> PNone),
          rp_applied_at = applied_at,
          rp_fields_changed = (case json_field meta ''fields_changed'' of Some x \<Rightarrow> x | None \<Rightarrow> PList []),
          rp_restore_point_ttl = ttl\<rparr>))))"

definition is_key_or_value_error :: "exn \<Rightarrow> bool" where
  "is_key_or_value_error e = (case e of KeyError _ \<Rightarrow> True | ValueError _ \<Rightarrow> True | _ \<Rightarrow> False)"

fun list_book_points :: "retention_env \<Rightarrow> tree \<Rightarrow> rpath list \<Rightarrow> restore_point list res" where
  "list_book_points en t [] = Inr []"
| "list_book_points en t (book_dir # rest) =
     (if \<not> path_is_dir t book_dir then list_book_points en t rest
      else case node_at t (book_dir @ [''restore.json'']) of
        Some (Document b (Some meta)) \<Rightarrow>
          (case restore_point_of en book_dir meta of
             Inr rp \<Rightarrow> then_check (list_book_points en t rest) (\<lambda>rps. Inr (rp # rps))
           | Inl e \<Rightarrow> if is_key_or_value_error e then list_book_points en t rest else Inl e)
      | Some (Directory d i) \<Rightarrow> Inl (OSError ''Is a directory'')
      | _ \<Rightarrow> list_book_points en t rest)"

text \<open>The book directories of the runs that are no links, in the order \<open>iterdir\<close> gives them.\<close>

definition book_dirs :: "tree \<Rightarrow> rpath list" where
  "book_dirs t =
     concat (map (\<lambda>run. if path_is_symlink t [run] \<or> \<not> path_is_dir t [run] then []
         else map (\<lambda>book. [run, book]) (child_names t [run])) (child_names t []))"

definition list_all_points :: "retention_env \<Rightarrow> tree \<Rightarrow> restore_point list res" where
  "list_all_points en t = (if \<not> path_exists t [] then Inr [] else list_book_points en t (book_dirs t))"

fun expired_of :: "int \<Rightarrow> restore_point list \<Rightarrow> restore_point list res" where
  "expired_of now [] = Inr []"
| "expired_of now (rp # rps) =
     then_check (is_expired rp now) (\<lambda>expired.
     then_check (expired_of now rps) (\<lambda>rest. Inr (if expired then rp # rest else rest)))"

definition list_expired :: "retention_env \<Rightarrow> int \<Rightarrow> tree \<Rightarrow> restore_point list res" where
  "list_expired en now t = then_check (list_all_points en t) (expired_of now)"

text \<open>\<open>cleanup_expired\<close>: a bad document keeps its restore point, and so does a link.\<close>

definition cleanup_expires :: "retention_env \<Rightarrow> int \<Rightarrow> tree \<Rightarrow> rpath \<Rightarrow> bool res" where
  "cleanup_expires en now t book_dir =
     (if \<not> path_is_dir t book_dir then Inr False
      else case node_at t (book_dir @ [''restore.json'']) of
         Some (Document b doc) \<Rightarrow>
           Inr (case restore_point_age en doc of Some (applied_at, ttl) \<Rightarrow> ttl < now - applied_at | None \<Rightarrow> False)
       | Some (Directory d i) \<Rightarrow> Inl (OSError ''Is a directory'')
       | _ \<Rightarrow> Inr False)"

fun cleanup_books :: "retention_env \<Rightarrow> int \<Rightarrow> rpath list \<Rightarrow> (disk, nat) eff" where
  "cleanup_books en now [] = ret 0"
| "cleanup_books en now (book_dir # rest) =
     bnd (look (\<lambda>t. then_check (cleanup_expires en now t book_dir) (\<lambda>b. Inr (b \<and> \<not> path_is_symlink t book_dir)))) (\<lambda>delete.
     if delete then thn (remove_tree book_dir) (bnd (cleanup_books en now rest) (\<lambda>n. ret (Suc n)))
     else cleanup_books en now rest)"

definition cleanup_expired :: "retention_env \<Rightarrow> int \<Rightarrow> (disk, nat) eff" where
  "cleanup_expired en now =
     bnd (look (\<lambda>t. Inr (if path_exists t [] then book_dirs t else []))) (cleanup_books en now)"

end
