(* ===== verification/RetentionLaws.thy ===== *)
theory RetentionLaws
  imports Retention
begin

text \<open>
  The retention transaction survives crashes: what every tree of its history looks like, and that recovery finishes what such a
  tree has begun.
\<close>

section \<open>Trees\<close>

named_theorems tree_simps \<open>nodes after a change of the tree\<close>

lemma node_at_with [tree_simps]: "node_at (with_node p n t) q = (if q = p then Some n else node_at t q)"
  unfolding node_at_def with_node_def by (induction t) (auto split: if_splits)

lemma node_at_without [tree_simps]: "node_at (without_node p t) q = (if q = p then None else node_at t q)"
  unfolding node_at_def without_node_def by (induction t) (auto split: if_splits)

lemma map_of_moved:
  "map_of (map (\<lambda>(q, m). (d @ drop (length p) q, m)) (filter (\<lambda>(q, m). take (length p) q = p) t)) q =
   (if take (length d) q = d then map_of t (p @ drop (length d) q) else None)"
proof (induction t)
  case (Cons a t)
  obtain k m where a: "a = (k, m)" by (cases a)
  have "(q = d @ drop (length p) k) = (p @ drop (length d) q = k)"
    if "take (length p) k = p" "take (length d) q = d"
    using that by (metis append_take_drop_id same_append_eq append_eq_conv_conj)
  moreover have "q \<noteq> d @ r" if "take (length d) q \<noteq> d" for r
    using that by auto
  moreover have "p @ drop (length d) q \<noteq> k" if "take (length p) k \<noteq> p"
    using that by auto
  ultimately show ?case using Cons a by auto
qed simp

lemma map_of_kept: "map_of (filter (\<lambda>x. P (fst x)) t) q = (if P q then map_of t q else None)"
  by (induction t) auto

lemma node_at_moved [tree_simps]:
  "node_at (moved_tree p d t) q =
     (if take (length d) q = d then node_at t (p @ drop (length d) q)
      else if take (length p) q = p then None else node_at t q)"
proof -
  have "map_of (filter (\<lambda>(q, m). take (length p) q \<noteq> p \<and> take (length d) q \<noteq> d) t) q
      = (if take (length p) q \<noteq> p \<and> take (length d) q \<noteq> d then map_of t q else None)"
    using map_of_kept [of "\<lambda>q. take (length p) q \<noteq> p \<and> take (length d) q \<noteq> d" t q]
    by (simp only: case_prod_unfold)
  then show ?thesis
    unfolding node_at_def moved_tree_def map_of_append map_add_def map_of_moved by (simp split: option.split)
qed

lemma child_names_iff: "x \<in> set (child_names t p) \<longleftrightarrow> node_at t (p @ [x]) \<noteq> None"
proof -
  have "x \<in> set (child_names t p) \<longleftrightarrow> (\<exists>q\<in>set (map fst t). (q \<noteq> [] \<and> butlast q = p) \<and> last q = x)"
    unfolding child_names_def by auto
  also have "\<dots> \<longleftrightarrow> p @ [x] \<in> set (map fst t)"
    by (metis append_butlast_last_id butlast_snoc last_snoc snoc_eq_iff_butlast)
  also have "\<dots> \<longleftrightarrow> node_at t (p @ [x]) \<noteq> None"
    by (simp add: node_at_def map_of_eq_None_iff)
  finally show ?thesis .
qed

lemma child_names_empty: "child_names t p = [] \<longleftrightarrow> (\<forall>x. node_at t (p @ [x]) = None)"
  by (metis child_names_iff list.set_intros(1) list.exhaust empty_iff list.set(1))

lemma is_dir_Directory [simp]: "node_at t p = Some (Directory d i) \<Longrightarrow> path_is_dir t p"
  by (simp add: path_is_dir_def)

lemma exists_Directory [simp]: "node_at t p = Some (Directory d i) \<Longrightarrow> path_exists t p"
  by (simp add: path_exists_def)

lemma exists_None [simp]: "node_at t p = None \<Longrightarrow> \<not> path_exists t p \<and> \<not> path_is_symlink t p"
  by (simp add: path_exists_def path_is_dir_def path_is_file_def path_is_symlink_def)

lemma not_symlink_Directory [simp]: "node_at t p = Some (Directory d i) \<Longrightarrow> \<not> path_is_symlink t p"
  by (simp add: path_is_symlink_def)

lemma validate_regular_Directory [simp]:
  "node_at t p = Some (Directory d i) \<Longrightarrow> validate_regular_directory t p label = Inr (d, i)"
  by (simp add: validate_regular_directory_def)

section \<open>System calls\<close>

lemma wp_look [wp_eqs]: "wp (look f) Q E s = (case f (dk_tree s) of Inl e \<Rightarrow> E e s | Inr x \<Rightarrow> Q x s)"
  by (simp add: wp_def look_def)

lemma wp_put_tree [wp_eqs]: "wp (put_tree t) Q E s = Q () (s\<lparr>dk_tree := t, dk_history := t # dk_history s\<rparr>)"
  by (simp add: wp_def put_tree_def)

lemma wp_fresh_uuid [wp_eqs]: "wp fresh_uuid Q E s = Q (dk_uuids s (dk_ticks s)) (s\<lparr>dk_ticks := Suc (dk_ticks s)\<rparr>)"
  by (simp add: wp_def fresh_uuid_def)

lemma wp_current_time [wp_eqs]: "wp current_time Q E s = Q (dk_clock s (dk_ticks s)) (s\<lparr>dk_ticks := Suc (dk_ticks s)\<rparr>)"
  by (simp add: wp_def current_time_def)

lemma wp_fun: "wp m Q E s = (case m s of (Inr x, s') \<Rightarrow> Q x s' | (Inl e, s') \<Rightarrow> E e s')"
  by (simp add: wp_def)

lemma wp_write_document:
  assumes "path_is_dir (dk_tree s) (butlast p)" "node_at (dk_tree s) p = None \<or> (\<exists>c w. node_at (dk_tree s) p = Some (Document c w))"
  shows "wp (write_document p b v) Q E s =
    (let t1 = with_node p (Document [] None) (dk_tree s); t2 = with_node p (Document b v) (dk_tree s)
     in Q () (s\<lparr>dk_tree := t2, dk_history := t2 # t1 # dk_history s\<rparr>))"
  using assms unfolding wp_def write_document_def
  by (elim disjE exE) (simp_all add: thn_def bnd_def put_tree_def Let_def)

lemma wp_rename_path:
  assumes "node_at (dk_tree s) p = Some n" "path_is_dir (dk_tree s) (butlast d)" "take (length p) d \<noteq> p" "take (length d) p \<noteq> d"
    "can_replace (dk_tree s) n d"
  shows "wp (rename_path p d) Q E s =
    Q () (s\<lparr>dk_tree := moved_tree p d (dk_tree s), dk_history := moved_tree p d (dk_tree s) # dk_history s\<rparr>)"
  using assms unfolding wp_def rename_path_def by (auto simp: put_tree_def)

lemma wp_make_directory:
  assumes "node_at (dk_tree s) p = None" "path_is_dir (dk_tree s) (butlast p)"
  shows "wp (make_directory p) Q E s =
    (let t = with_node p (Directory (dk_device s) (dk_inodes s (dk_ticks s))) (dk_tree s)
     in Q () (s\<lparr>dk_ticks := Suc (dk_ticks s), dk_tree := t, dk_history := t # dk_history s\<rparr>))"
  using assms unfolding wp_def make_directory_def by (simp add: put_tree_def Let_def)

lemma and_check_Inr: "and_check a b = Inr x \<longleftrightarrow> (\<exists>y. a = Inr y) \<and> b = Inr x"
  by (auto simp: and_check_def split: sum.split)

lemma and_check_ok [simp]: "and_check (Inr x) b = b"
  by (simp add: and_check_def)

lemma then_check_ok [simp]: "then_check (Inr x) f = f x"
  by (simp add: then_check_def)

lemma require_True [simp]: "require True m = Inr ()"
  by (simp add: require_def)

lemma require_Inr: "require b m = Inr u \<longleftrightarrow> b"
  by (simp add: require_def)

lemma check_each_Inr: "check_each f xs = Inr () \<longleftrightarrow> (\<forall>x\<in>set xs. f x = Inr ())"
  by (induction xs) (auto simp: and_check_Inr)

text \<open>The clock always gives texts that parse, and uuids are canonical.\<close>

definition supply_ok :: "retention_env \<Rightarrow> disk \<Rightarrow> bool" where
  "supply_ok en s =
     ((\<forall>n. rv_fromisoformat en (rv_isoformat en (dk_clock s n)) \<noteq> None) \<and> (\<forall>n. is_transaction_id (dk_uuids s n)))"

lemma supply_ok_updates [simp]:
  "supply_ok en (s\<lparr>dk_ticks := k\<rparr>) = supply_ok en s" "supply_ok en (s\<lparr>dk_tree := t\<rparr>) = supply_ok en s"
  "supply_ok en (s\<lparr>dk_history := h\<rparr>) = supply_ok en s"
  by (simp_all add: supply_ok_def)


text \<open>The history only grows.\<close>

definition in_history :: "tree \<Rightarrow> disk \<Rightarrow> bool" where
  "in_history t s = (t \<in> set (dk_history s))"

lemma preserves_basic [preserved]:
  "preserves (in_history t) (look f)" "preserves (in_history t) (put_tree u)" "preserves (in_history t) fresh_uuid"
  "preserves (in_history t) current_time"
  by (simp_all add: preserves_iff in_history_def look_def put_tree_def fresh_uuid_def current_time_def)

lemma preserves_at: "(\<And>s. I s \<Longrightarrow> I (snd (m s))) \<Longrightarrow> preserves I m"
  by (simp add: preserves_iff)

lemma preserves_system_calls [preserved]:
  "preserves (in_history t) (make_directory p)" "preserves (in_history t) (rename_path p d)"
  "preserves (in_history t) (write_document p b v)"
  by (rule preserves_at; simp add: in_history_def make_directory_def rename_path_def write_document_def put_tree_def thn_def bnd_def
      split: option.split node.split)+

lemma preserves_remove_entries [preserved]: "preserves (in_history t) (remove_entries ps)"
proof (induction ps)
  case (Cons p ps)
  have "preserves (in_history t) (\<lambda>s. put_tree (without_node p (dk_tree s)) s)"
    by (rule preserves_at) (simp add: in_history_def put_tree_def)
  with Cons show ?case by (simp add: preserves_thn)
qed (simp add: preserves_simps)

lemma preserves_remove_tree [preserved]: "preserves (in_history t) (remove_tree p)"
proof (rule preserves_at)
  fix s assume s: "in_history t s"
  have "in_history t (snd (remove_entries ps s))" for ps
    using preserves_remove_entries [of t ps] s by (simp add: preserves_iff)
  with s show "in_history t (snd (remove_tree p s))"
    by (auto simp: remove_tree_def split: option.split node.split)
qed

lemma preserves_journal [preserved]:
  "preserves (in_history t) (write_quarantine_journal en tx j)"
  "preserves (in_history t) (ensure_payload_parent p)"
  "preserves (in_history t) (finish_quarantine_delete en tx j)"
  unfolding write_quarantine_journal_def write_json_atomically_def ensure_payload_parent_def finish_quarantine_delete_def Let_def
  by (intro preserved)+

lemma preserves_quarantine_candidates [preserved]: "preserves (in_history t) (quarantine_candidates en tx cs j)"
  by (induction cs arbitrary: j) (simp_all add: Let_def preserved)

lemma preserves_recover_candidates [preserved]: "preserves (in_history t) (recover_candidates en tx items j)"
  by (induction items arbitrary: j) (simp_all add: Let_def preserved)

lemma wp_conj: "wp m Q E s \<Longrightarrow> wp m Q' (\<lambda>_ _. True) s \<Longrightarrow> wp m (\<lambda>x t. Q x t \<and> Q' x t) E s"
  by (simp add: wp_def split: prod.splits sum.splits)

section \<open>The files of a transaction\<close>

text \<open>Everything in a transaction's directory but the payload is a plain file: the journal and its temporary copies.\<close>

definition tx_files :: "tree \<Rightarrow> rpath \<Rightarrow> bool" where
  "tx_files t tx =
     (\<forall>x r. x \<noteq> QUARANTINE_PAYLOAD_NAME \<longrightarrow>
        (case node_at t (tx @ x # r) of None \<Rightarrow> True | Some (Document b v) \<Rightarrow> r = [] | Some n \<Rightarrow> False))"

definition same_but_files :: "rpath \<Rightarrow> tree \<Rightarrow> tree \<Rightarrow> bool" where
  "same_but_files tx t t' =
     (\<forall>q. (\<forall>x r. q = tx @ x # r \<longrightarrow> x = QUARANTINE_PAYLOAD_NAME) \<longrightarrow> node_at t' q = node_at t q)"

lemma tx_files_cases:
  assumes "tx_files t tx" "z \<noteq> QUARANTINE_PAYLOAD_NAME"
  shows "node_at t (tx @ [z]) = None \<or> (\<exists>b v. node_at t (tx @ [z]) = Some (Document b v))"
proof (cases "node_at t (tx @ [z])")
  case (Some n)
  have "case node_at t (tx @ z # []) of None \<Rightarrow> True | Some (Document b v) \<Rightarrow> ([] :: rpath) = [] | Some n \<Rightarrow> False"
    using assms unfolding tx_files_def by blast
  with Some show ?thesis by (cases n) simp_all
qed simp

lemma same_but_filesD: "same_but_files tx t t' \<Longrightarrow> (\<And>x r. q = tx @ x # r \<Longrightarrow> x = QUARANTINE_PAYLOAD_NAME) \<Longrightarrow> node_at t' q = node_at t q"
  unfolding same_but_files_def by blast

lemma same_but_files_refl: "same_but_files tx t t"
  by (simp add: same_but_files_def)

lemma same_but_files_trans: "same_but_files tx t u \<Longrightarrow> same_but_files tx u v \<Longrightarrow> same_but_files tx t v"
  unfolding same_but_files_def by metis

lemma with_file:
  assumes "tx_files t tx" "x \<noteq> QUARANTINE_PAYLOAD_NAME"
  shows "tx_files (with_node (tx @ [x]) (Document b v) t) tx" "same_but_files tx t (with_node (tx @ [x]) (Document b v) t)"
  using assms unfolding tx_files_def same_but_files_def by (auto simp: tree_simps)

lemma moved_file:
  assumes f: "tx_files t tx" and x: "x \<noteq> QUARANTINE_PAYLOAD_NAME" "y \<noteq> QUARANTINE_PAYLOAD_NAME" "x \<noteq> y"
  shows "tx_files (moved_tree (tx @ [x]) (tx @ [y]) t) tx" "same_but_files tx t (moved_tree (tx @ [x]) (tx @ [y]) t)"
    "node_at (moved_tree (tx @ [x]) (tx @ [y]) t) (tx @ [y]) = node_at t (tx @ [x])"
    "z \<noteq> x \<Longrightarrow> z \<noteq> y \<Longrightarrow> node_at (moved_tree (tx @ [x]) (tx @ [y]) t) (tx @ [z]) = node_at t (tx @ [z])"
proof -
  have g: "case node_at t (tx @ z # r) of None \<Rightarrow> True | Some (Document b v) \<Rightarrow> r = [] | Some n \<Rightarrow> False"
    if "z \<noteq> QUARANTINE_PAYLOAD_NAME" for z r
    using f that unfolding tx_files_def by blast
  have n: "node_at (moved_tree (tx @ [x]) (tx @ [y]) t) (tx @ z # r) =
      (if z = y then node_at t (tx @ x # r) else if z = x then None else node_at t (tx @ z # r))" for z r
    by (simp add: tree_simps)
  show "tx_files (moved_tree (tx @ [x]) (tx @ [y]) t) tx"
    unfolding tx_files_def n using g x by simp
  have "node_at (moved_tree (tx @ [x]) (tx @ [y]) t) q = node_at t q"
    if q: "\<forall>z r. q = tx @ z # r \<longrightarrow> z = QUARANTINE_PAYLOAD_NAME" for q
  proof -
    have "take (Suc (length tx)) q \<noteq> tx @ [z]" if "z \<noteq> QUARANTINE_PAYLOAD_NAME" for z
      using q that by (metis append_Cons append_Nil append_assoc append_take_drop_id)
    then show ?thesis using x by (simp add: tree_simps)
  qed
  then show "same_but_files tx t (moved_tree (tx @ [x]) (tx @ [y]) t)"
    unfolding same_but_files_def by blast
  show "node_at (moved_tree (tx @ [x]) (tx @ [y]) t) (tx @ [y]) = node_at t (tx @ [x])"
    using n [of y "[]"] by simp
  show "z \<noteq> x \<Longrightarrow> z \<noteq> y \<Longrightarrow> node_at (moved_tree (tx @ [x]) (tx @ [y]) t) (tx @ [z]) = node_at t (tx @ [z])"
    using n [of z "[]"] by simp
qed

lemma file_names: "QUARANTINE_JOURNAL_NAME \<noteq> QUARANTINE_PAYLOAD_NAME"
  "''.'' @ QUARANTINE_JOURNAL_NAME @ ''.tmp-'' @ u \<noteq> QUARANTINE_PAYLOAD_NAME"
  "''.'' @ QUARANTINE_JOURNAL_NAME @ ''.tmp-'' @ u \<noteq> QUARANTINE_JOURNAL_NAME"
  by (simp_all add: QUARANTINE_JOURNAL_NAME_def QUARANTINE_PAYLOAD_NAME_def)

text \<open>
  A file is replaced in three steps: two trees with the temporary file, where the file is still the old one, then the tree with
  the new one.
\<close>

lemma wp_replace_file:
  assumes dir: "node_at (dk_tree s) tx = Some (Directory d i)" and files: "tx_files (dk_tree s) tx"
    and x: "x \<noteq> QUARANTINE_PAYLOAD_NAME" and y: "y \<noteq> QUARANTINE_PAYLOAD_NAME" and xy: "x \<noteq> y"
    and post: "\<And>t1 t2 t3.
      same_but_files tx (dk_tree s) t1 \<Longrightarrow> tx_files t1 tx \<Longrightarrow> node_at t1 (tx @ [y]) = node_at (dk_tree s) (tx @ [y]) \<Longrightarrow>
      same_but_files tx (dk_tree s) t2 \<Longrightarrow> tx_files t2 tx \<Longrightarrow> node_at t2 (tx @ [y]) = node_at (dk_tree s) (tx @ [y]) \<Longrightarrow>
      same_but_files tx (dk_tree s) t3 \<Longrightarrow> tx_files t3 tx \<Longrightarrow> node_at t3 (tx @ [y]) = Some (Document b v) \<Longrightarrow>
      Q () (s\<lparr>dk_tree := t3, dk_history := t3 # t2 # t1 # dk_history s\<rparr>)"
  shows "wp (thn (write_document (tx @ [x]) b v) (rename_path (tx @ [x]) (tx @ [y]))) Q E s"
proof -
  define t t1 where t1: "t = dk_tree s" "t1 = with_node (tx @ [x]) (Document [] None) t"
  define t2 where t2: "t2 = with_node (tx @ [x]) (Document b v) t"
  define t3 where t3: "t3 = moved_tree (tx @ [x]) (tx @ [y]) t2"
  note w1 = with_file [OF files x, of "[]" None, folded t1(1), folded t1(2)]
  note w2 = with_file [OF files x, of b v, folded t1(1), folded t2[folded t1(1)]]
  note w3 = moved_file [OF w2(1) x y xy, folded t3]
  have s2: "same_but_files tx t t2" by (rule w2(2))
  have s3: "same_but_files tx t t3" using s2 w3(2) by (rule same_but_files_trans)
  have j: "node_at t1 (tx @ [y]) = node_at t (tx @ [y])" "node_at t2 (tx @ [y]) = node_at t (tx @ [y])"
    using xy by (simp_all add: tree_simps t1(2) t2)
  have f: "node_at t (tx @ [z]) = None \<or> (\<exists>b v. node_at t (tx @ [z]) = Some (Document b v))"
    if "z \<noteq> QUARANTINE_PAYLOAD_NAME" for z
    using files that unfolding t1(1) by (rule tx_files_cases)
  have d2: "path_is_dir t tx" "path_is_dir t2 tx" using dir by (simp_all add: path_is_dir_def tree_simps t1 t2)
  have c: "can_replace t2 (Document b v) (tx @ [y])"
    using f [OF y] j(2) by (auto simp: can_replace_def)
  have xt: "node_at t2 (tx @ [x]) = Some (Document b v)" by (simp add: tree_simps t2)
  have r: "wp (rename_path (tx @ [x]) (tx @ [y])) Q E s' = Q () (s'\<lparr>dk_tree := t3, dk_history := t3 # dk_history s'\<rparr>)"
    if "dk_tree s' = t2" for s'
    using that c xt d2 xy by (subst wp_rename_path [where n = "Document b v"]) (simp_all add: t3)
  have w: "wp (write_document (tx @ [x]) b v) R E s = R () (s\<lparr>dk_tree := t2, dk_history := t2 # t1 # dk_history s\<rparr>)" for R
    using d2(1) f [OF x] by (subst wp_write_document) (simp_all add: t1 t2 Let_def)
  have p: "Q () (s\<lparr>dk_tree := t3, dk_history := t3 # t2 # t1 # dk_history s\<rparr>)"
    by (rule post) (use w1 w2 w3 s2 s3 j xt in \<open>simp_all add: t1(1) [symmetric]\<close>)
  show ?thesis
    unfolding wp_thn w by (subst r) (use p in simp_all)
qed

lemma wp_write_json:
  assumes dir: "node_at (dk_tree s) tx = Some (Directory d i)" and files: "tx_files (dk_tree s) tx"
    and post: "\<And>t1 t2 t3 b k.
      same_but_files tx (dk_tree s) t1 \<Longrightarrow> tx_files t1 tx \<Longrightarrow> node_at t1 (journal_path tx) = node_at (dk_tree s) (journal_path tx) \<Longrightarrow>
      same_but_files tx (dk_tree s) t2 \<Longrightarrow> tx_files t2 tx \<Longrightarrow> node_at t2 (journal_path tx) = node_at (dk_tree s) (journal_path tx) \<Longrightarrow>
      same_but_files tx (dk_tree s) t3 \<Longrightarrow> tx_files t3 tx \<Longrightarrow> node_at t3 (journal_path tx) = Some (Document b (Some v)) \<Longrightarrow>
      Q () (s\<lparr>dk_ticks := k, dk_tree := t3, dk_history := t3 # t2 # t1 # dk_history s\<rparr>)"
  shows "wp (write_json_atomically en (journal_path tx) v) Q E s"
proof -
  have b: "butlast (journal_path tx) = tx" "last (journal_path tx) = QUARANTINE_JOURNAL_NAME"
    by (simp_all add: journal_path_def)
  show ?thesis
    unfolding write_json_atomically_def Let_def wp_bnd wp_fresh_uuid b unfolding journal_path_def
    by (rule wp_replace_file [OF _ _ file_names(2,1,3)])
      (use dir files post [unfolded journal_path_def, of _ _ _ "rv_dump en v" "Suc (dk_ticks s)"] in simp_all)
qed


section \<open>Reading the journal back\<close>

definition good_journal :: "retention_env \<Rightarrow> journal \<Rightarrow> bool" where
  "good_journal en j =
     (is_transaction_id (jn_transaction_id j) \<and> length (jn_backup_manifest_sha256 j) = 64 \<and> jn_candidates j \<noteq> [] \<and>
      rv_fromisoformat en (jn_created_at j) \<noteq> None \<and> rv_fromisoformat en (jn_updated_at j) \<noteq> None \<and>
      (\<forall>item\<in>set (jn_candidates j). safe_relative_text (ji_relative_path item) \<and> length (ji_manifest_sha256 item) = 64) \<and>
      distinct (map ji_relative_path (jn_candidates j)) \<and> distinct (jn_moved j) \<and>
      set (jn_moved j) \<subseteq> set (map ji_relative_path (jn_candidates j)))"

lemma text_field_PDict: "text_field (PDict d) k = (case dict_get d k of Some (PStr x) \<Rightarrow> Some x | _ \<Rightarrow> None)"
  by (auto simp: text_field_def json_field_def json_text_def split: option.split pyval.split)

lemma int_field_PDict: "int_field (PDict d) k = Option.bind (dict_get d k) json_int"
  by (simp add: int_field_def json_field_def)

lemma list_field_PDict: "list_field (PDict d) k = Option.bind (dict_get d k) json_list"
  by (simp add: list_field_def json_field_def)

lemmas field_simps = text_field_PDict int_field_PDict list_field_PDict json_field_def dict_get_def json_int_def json_list_def

lemma all_some_map: "(\<And>x. x \<in> set xs \<Longrightarrow> f x = Some (g x)) \<Longrightarrow> all_some (map f xs) = Some (map g xs)"
  by (induction xs) auto

lemma read_item_json:
  "safe_relative_text (ji_relative_path item) \<Longrightarrow> length (ji_manifest_sha256 item) = 64 \<Longrightarrow> read_item (item_json item) = Some item"
  unfolding read_item_def item_json_def by (simp add: field_simps guard_def)

lemma read_state_name: "read_state (quarantine_state_name st) = Some st"
  by (cases st) (simp_all add: read_state_def QUARANTINE_STATES_def)

lemma journal_round_trip:
  assumes "good_journal en j"
  shows "journal_of_json en (jn_transaction_id j) (journal_json j) = Some j"
proof -
  have c: "all_some (map read_item (map item_json (jn_candidates j))) = Some (jn_candidates j)"
    using assms all_some_map [of "jn_candidates j" "\<lambda>x. read_item (item_json x)" "\<lambda>x. x"] read_item_json
    by (simp add: good_journal_def comp_def)
  have m: "all_some (map json_text (map PStr (jn_moved j))) = Some (jn_moved j)"
    using all_some_map [of "jn_moved j" "\<lambda>x. json_text (PStr x)" "\<lambda>x. x"] by (simp add: json_text_def comp_def)
  have v: "py_eq (PInt 1) (PInt 1)" by simp
  show ?thesis
    using assms c m v unfolding journal_of_json_def journal_json_def good_journal_def
    by (simp add: field_simps guard_def read_state_name del: py_eq.simps) auto
qed

section \<open>A published transaction\<close>

abbreviation item_path :: "journal_item \<Rightarrow> rpath" where
  "item_path item \<equiv> relative_parts (ji_relative_path item)"

abbreviation tx_of :: "journal \<Rightarrow> rpath" where
  "tx_of j \<equiv> transaction_path (jn_transaction_id j)"

abbreviation payload_of :: "journal \<Rightarrow> rpath" where
  "payload_of j \<equiv> payload_path (tx_of j)"

lemma safe_text:
  assumes "safe_relative_text p"
  obtains run book where "relative_parts p = [run, book]" "py_join ''/'' [run, book] = p" "\<not> unsafe_part run" "\<not> unsafe_part book"
  using assms unfolding safe_relative_text_def by (auto simp: length_Suc_conv numeral_2_eq_2)

lemma safe_text_join: "safe_relative_text p \<Longrightarrow> py_join ''/'' (relative_parts p) = p"
  by (simp add: safe_relative_text_def)

lemma unsafe_root: "unsafe_part QUARANTINE_ROOT_NAME"
  by (simp add: unsafe_part_def QUARANTINE_ROOT_NAME_def py_startswith_def)

text \<open>Where a candidate's restore point is: still in place, or in the payload, with all it held when the transaction began.\<close>

definition kept :: "tree \<Rightarrow> tree \<Rightarrow> rpath \<Rightarrow> rpath \<Rightarrow> bool" where
  "kept t0 t payload p = (\<forall>r. node_at t (p @ r) = node_at t0 (p @ r) \<and> node_at t (payload @ p @ r) = None)"

definition gone :: "tree \<Rightarrow> tree \<Rightarrow> rpath \<Rightarrow> rpath \<Rightarrow> bool" where
  "gone t0 t payload p = (\<forall>r. node_at t (p @ r) = None \<and> node_at t (payload @ p @ r) = node_at t0 (p @ r))"

definition removed :: "tree \<Rightarrow> rpath \<Rightarrow> bool" where
  "removed t p = (\<forall>r. node_at t (p @ r) = None)"

text \<open>What the transaction never touches: all that is not its directory, the quarantine's root or a candidate.\<close>

definition untouched :: "journal \<Rightarrow> rpath \<Rightarrow> bool" where
  "untouched j q = (q \<noteq> quarantine_root \<and> take 2 q \<noteq> tx_of j \<and> (\<forall>item\<in>set (jn_candidates j). take 2 q \<noteq> item_path item))"

definition is_directory :: "tree \<Rightarrow> rpath \<Rightarrow> bool" where
  "is_directory t p = (\<exists>d i. node_at t p = Some (Directory d i))"

definition core :: "tree \<Rightarrow> journal \<Rightarrow> tree \<Rightarrow> bool" where
  "core t0 j t =
     (is_directory t quarantine_root \<and>
      node_at t (tx_of j) = Some (Directory (jn_transaction_device j) (jn_transaction_inode j)) \<and> tx_files t (tx_of j) \<and>
      (\<forall>q. untouched j q \<longrightarrow> node_at t q = node_at t0 q) \<and>
      (if jn_state j = Deleted
       then (\<forall>item\<in>set (jn_candidates j). removed t (item_path item)) \<and> node_at t (payload_of j) = None
       else if jn_state j = Deleting
       then (\<forall>item\<in>set (jn_candidates j). removed t (item_path item)) \<and>
         (node_at t (payload_of j) = None \<or> node_at t (payload_of j) = Some (Directory (jn_payload_device j) (jn_payload_inode j)))
       else node_at t (payload_of j) = Some (Directory (jn_payload_device j) (jn_payload_inode j)) \<and>
         (\<forall>x. node_at t (payload_of j @ [x]) = None \<or> is_directory t (payload_of j @ [x])) \<and>
         (\<forall>item\<in>set (jn_candidates j).
            (kept t0 t (payload_of j) (item_path item) \<and> ji_relative_path item \<notin> set (jn_moved j) \<or>
             gone t0 t (payload_of j) (item_path item) \<and> is_directory t (payload_of j @ [hd (item_path item)])))))"

definition placed :: "retention_env \<Rightarrow> tree \<Rightarrow> journal \<Rightarrow> tree \<Rightarrow> bool" where
  "placed en t0 j t =
     (good_journal en j \<and> core t0 j t \<and> (\<exists>b. node_at t (journal_path (tx_of j)) = Some (Document b (Some (journal_json j)))))"

text \<open>The restore points of the candidates when the transaction began.\<close>

definition base_ok :: "retention_env \<Rightarrow> tree \<Rightarrow> journal_item list \<Rightarrow> bool" where
  "base_ok en t0 items =
     (\<forall>item\<in>set items. is_directory t0 [hd (item_path item)] \<and> validate_journal_candidate en t0 (item_path item) item = Inr ())"


lemma tx_split: "tx_of j @ x # r = QUARANTINE_ROOT_NAME # jn_transaction_id j # x # r" "length (tx_of j) = 2"
  by (simp_all add: transaction_path_def quarantine_root_def)

lemma payload_split: "payload_of j @ r = tx_of j @ QUARANTINE_PAYLOAD_NAME # r"
  by (simp add: payload_path_def)

text \<open>A path no file of the transaction is at.\<close>

definition clear_of :: "journal \<Rightarrow> rpath \<Rightarrow> bool" where
  "clear_of j q = (\<forall>x r. q = tx_of j @ x # r \<longrightarrow> x = QUARANTINE_PAYLOAD_NAME)"

lemma clear_same: "same_but_files (tx_of j) t t' \<Longrightarrow> clear_of j q \<Longrightarrow> node_at t' q = node_at t q"
  unfolding clear_of_def by (rule same_but_filesD) auto

lemma clear_paths:
  "clear_of j quarantine_root" "clear_of j (tx_of j)" "clear_of j (payload_of j @ r)" "clear_of j (payload_of j)"
  "take 2 q \<noteq> tx_of j \<Longrightarrow> clear_of j q"
  unfolding clear_of_def payload_split tx_split by (auto simp: quarantine_root_def payload_path_def transaction_path_def)

lemma item_not_tx:
  assumes "safe_relative_text p"
  shows "take 2 (relative_parts p @ r) = relative_parts p" "relative_parts p \<noteq> tx_of j" "length (relative_parts p) = 2"
    "relative_parts p @ r \<noteq> quarantine_root" "hd (relative_parts p) \<noteq> QUARANTINE_ROOT_NAME"
proof -
  obtain run book where p: "relative_parts p = [run, book]" "\<not> unsafe_part run"
    using assms by (rule safe_text)
  then have "run \<noteq> QUARANTINE_ROOT_NAME" using unsafe_root by blast
  with p show "take 2 (relative_parts p @ r) = relative_parts p" "relative_parts p \<noteq> tx_of j" "length (relative_parts p) = 2"
    "relative_parts p @ r \<noteq> quarantine_root" "hd (relative_parts p) \<noteq> QUARANTINE_ROOT_NAME"
    by (simp_all add: transaction_path_def quarantine_root_def)
qed

lemma clear_item: "safe_relative_text p \<Longrightarrow> clear_of j (relative_parts p @ r)"
  by (rule clear_paths(5)) (simp add: item_not_tx)

lemma untouched_clear: "untouched j q \<Longrightarrow> clear_of j q"
  by (rule clear_paths(5)) (simp add: untouched_def)

lemma core_same:
  assumes g: "good_journal en j" and c: "core t0 j t" and s: "same_but_files (tx_of j) t t'" and f: "tx_files t' (tx_of j)"
  shows "core t0 j t'"
proof -
  have i: "node_at t' (item_path item @ r) = node_at t (item_path item @ r)" if "item \<in> set (jn_candidates j)" for item r
    using g that by (intro clear_same [OF s] clear_item) (simp add: good_journal_def)
  have u: "untouched j q \<Longrightarrow> node_at t' q = node_at t q" for q
    by (rule clear_same [OF s untouched_clear])
  note n = clear_same [OF s clear_paths(1)] clear_same [OF s clear_paths(2)] clear_same [OF s clear_paths(3)] clear_same [OF s clear_paths(4)]
  show ?thesis
    using c f i u unfolding core_def removed_def kept_def gone_def is_directory_def n by (simp cong: conj_cong)
qed

lemma placed_same:
  assumes "placed en t0 j t" "same_but_files (tx_of j) t t'" "tx_files t' (tx_of j)"
    "node_at t' (journal_path (tx_of j)) = node_at t (journal_path (tx_of j))"
  shows "placed en t0 j t'"
  using assms core_same unfolding placed_def by auto

text \<open>
  The assertion at a program point: the tree is that of a published transaction with journal \<open>j\<close>, and every tree since a crash
  was last excluded satisfies \<open>H\<close>.
\<close>

definition holds :: "retention_env \<Rightarrow> tree \<Rightarrow> (tree \<Rightarrow> bool) \<Rightarrow> journal \<Rightarrow> disk \<Rightarrow> bool" where
  "holds en t0 H j s = (supply_ok en s \<and> placed en t0 j (dk_tree s) \<and> list_all H (dk_history s))"

abbreviation restated :: "journal \<Rightarrow> quarantine_state \<Rightarrow> string list \<Rightarrow> string \<Rightarrow> journal" where
  "restated j st m u \<equiv> j\<lparr>jn_state := st, jn_moved := m, jn_updated_at := u\<rparr>"

lemma wp_funs:
  "wp (ret x) Q E = Q x" "wp (bnd m f) Q E = wp m (\<lambda>x. wp (f x) Q E) E" "wp (thn n k) Q E = wp n (\<lambda>_. wp k Q E) E"
  by (rule ext; simp add: wp_eqs)+

lemma restated_simps [simp]:
  "j\<lparr>jn_state := st, jn_updated_at := u, jn_moved := m\<rparr> = restated j st m u"
  "j\<lparr>jn_moved := m, jn_updated_at := u, jn_state := st\<rparr> = restated j st m u"
  by (cases j; simp)+

lemma wp_write_journal_same:
  assumes h: "holds en t0 H j s" and c: "core t0 (restated j st m u) (dk_tree s)"
    and g: "distinct m" "set m \<subseteq> set (map ji_relative_path (jn_candidates j))"
    and old: "\<And>t. placed en t0 j t \<Longrightarrow> same_but_files (tx_of j) (dk_tree s) t \<Longrightarrow> H t" and new: "\<And>t w. placed en t0 (restated j st m w) t \<Longrightarrow> H t"
    and post: "\<And>s' w. holds en t0 H (restated j st m w) s' \<Longrightarrow>
      same_but_files (tx_of j) (dk_tree s) (dk_tree s') \<Longrightarrow> Q (restated j st m w) s'"
  shows "wp (write_quarantine_journal en (tx_of j) (restated j st m u)) Q E s"
proof -
  let ?w = "rv_isoformat en (dk_clock s (dk_ticks s))"
  let ?j = "restated j st m ?w"
  from h have sup: "supply_ok en s" and p: "placed en t0 j (dk_tree s)" and hist: "list_all H (dk_history s)"
    by (auto simp: holds_def)
  from p have gj: "good_journal en j" and cj: "core t0 j (dk_tree s)" by (auto simp: placed_def)
  have gj': "good_journal en ?j" using gj g sup by (simp add: good_journal_def supply_ok_def)
  have same_core: "core t0 (restated j st m v) t = core t0 (restated j st m v') t" for v v' t
    by (simp add: core_def untouched_def)
  have dir: "node_at (dk_tree s) (tx_of j) = Some (Directory (jn_transaction_device j) (jn_transaction_inode j))"
    and files: "tx_files (dk_tree s) (tx_of j)" using cj by (simp_all add: core_def)
  have "wp (write_json_atomically en (journal_path (tx_of j)) (journal_json ?j)) (\<lambda>_. Q ?j) E (s\<lparr>dk_ticks := Suc (dk_ticks s)\<rparr>)"
  proof (rule wp_write_json)
    fix t1 t2 t3 b k
    assume a: "same_but_files (tx_of j) (dk_tree (s\<lparr>dk_ticks := Suc (dk_ticks s)\<rparr>)) t1" "tx_files t1 (tx_of j)"
        "node_at t1 (journal_path (tx_of j)) = node_at (dk_tree (s\<lparr>dk_ticks := Suc (dk_ticks s)\<rparr>)) (journal_path (tx_of j))"
        "same_but_files (tx_of j) (dk_tree (s\<lparr>dk_ticks := Suc (dk_ticks s)\<rparr>)) t2" "tx_files t2 (tx_of j)"
        "node_at t2 (journal_path (tx_of j)) = node_at (dk_tree (s\<lparr>dk_ticks := Suc (dk_ticks s)\<rparr>)) (journal_path (tx_of j))"
        "same_but_files (tx_of j) (dk_tree (s\<lparr>dk_ticks := Suc (dk_ticks s)\<rparr>)) t3" "tx_files t3 (tx_of j)"
        "node_at t3 (journal_path (tx_of j)) = Some (Document b (Some (journal_json ?j)))"
    have "H t1" "H t2" using placed_same [OF p] a(1-6) old by simp_all
    moreover have p3: "placed en t0 ?j t3"
      using core_same [OF gj', of t0 "dk_tree s" t3] c same_core gj' a(7-9) by (auto simp: placed_def)
    then have "H t3" by (rule new)
    ultimately show "Q ?j (s\<lparr>dk_ticks := Suc (dk_ticks s), dk_ticks := k, dk_tree := t3,
        dk_history := t3 # t2 # t1 # dk_history (s\<lparr>dk_ticks := Suc (dk_ticks s)\<rparr>)\<rparr>)"
      using sup hist p3 a(7) by (intro post) (simp_all add: holds_def)
  qed (use dir files in simp_all)
  then show ?thesis
    unfolding write_quarantine_journal_def Let_def wp_eqs by simp
qed


lemma wp_write_journal:
  assumes "holds en t0 H j s" "core t0 (restated j st m u) (dk_tree s)"
    "distinct m" "set m \<subseteq> set (map ji_relative_path (jn_candidates j))"
    "\<And>t. placed en t0 j t \<Longrightarrow> H t" "\<And>t w. placed en t0 (restated j st m w) t \<Longrightarrow> H t"
    "\<And>s' w. holds en t0 H (restated j st m w) s' \<Longrightarrow>
      same_but_files (tx_of j) (dk_tree s) (dk_tree s') \<Longrightarrow> Q (restated j st m w) s'"
  shows "wp (write_quarantine_journal en (tx_of j) (restated j st m u)) Q E s"
  by (rule wp_write_journal_same [OF assms(1-4) _ assms(6)]) (use assms(5,7) in auto)

section \<open>Reading a published transaction\<close>

lemma placed_reads: "placed en t0 j t \<Longrightarrow> read_quarantine_journal en t (tx_of j) = Inr j"
  using journal_round_trip [of en j]
  by (auto simp: placed_def core_def good_journal_def read_quarantine_journal_def validate_transaction_id_def
      transaction_path_def quarantine_root_def)

lemma candidate_missing:
  assumes "node_at t p = None" "node_at t (butlast p) = None \<or> is_directory t (butlast p)"
  shows "safe_candidate_exists t p trusted = Inr False"
  using assms by (auto simp: safe_candidate_exists_def is_directory_def)

lemma candidate_present:
  assumes "is_directory t p" "is_directory t (butlast p)" "take (length trusted) p = trusted"
  shows "safe_candidate_exists t p trusted = Inr True"
  using assms by (auto simp: safe_candidate_exists_def is_directory_def)

lemma valid_candidate_same:
  assumes "node_at t' p' = node_at t p" "node_at t' (p' @ [''restore.json'']) = node_at t (p @ [''restore.json''])"
  shows "validate_journal_candidate en t' p' item = validate_journal_candidate en t p item"
  by (simp only: validate_journal_candidate_def validate_candidate_identity_def assms)

lemma valid_candidate_directory: "validate_journal_candidate en t p item = Inr u \<Longrightarrow> is_directory t p"
  by (auto simp: validate_journal_candidate_def validate_candidate_identity_def is_directory_def
      split: option.splits node.splits)

text \<open>What the loops need to know of one candidate.\<close>

lemma item_facts:
  assumes g: "good_journal en j" and c: "core t0 j t" and b: "base_ok en t0 (jn_candidates j)" and i: "item \<in> set (jn_candidates j)"
  shows "is_directory t [hd (item_path item)]" "butlast (item_path item) = [hd (item_path item)]"
    "length (item_path item) = 2" "py_join ''/'' (item_path item) = ji_relative_path item"
    "is_directory t0 (item_path item)" "butlast (payload_of j @ item_path item) = payload_of j @ [hd (item_path item)]"
    "safe_relative_text (ji_relative_path item)"
proof -
  show s: "safe_relative_text (ji_relative_path item)" using g i by (simp add: good_journal_def)
  obtain run book where p: "item_path item = [run, book]" "py_join ''/'' [run, book] = ji_relative_path item" "\<not> unsafe_part run"
    using s by (rule safe_text)
  have "[run] \<noteq> quarantine_root" using p(3) unsafe_root by (auto simp: quarantine_root_def)
  moreover have "length (item_path k) = 2" if "k \<in> set (jn_candidates j)" for k
    using g that by (intro item_not_tx(3)) (simp add: good_journal_def)
  ultimately have "untouched j [run]"
    unfolding untouched_def by (force simp: transaction_path_def quarantine_root_def dest: arg_cong [where f = length])
  with c have "node_at t [run] = node_at t0 [run]" unfolding core_def by blast
  moreover have "is_directory t0 [run]" using b i p by (fastforce simp: base_ok_def)
  ultimately show "is_directory t [hd (item_path item)]" by (simp add: p is_directory_def)
  show "is_directory t0 (item_path item)" using b i valid_candidate_directory by (fastforce simp: base_ok_def)
  show "butlast (item_path item) = [hd (item_path item)]" "length (item_path item) = 2"
      "py_join ''/'' (item_path item) = ji_relative_path item"
      "butlast (payload_of j @ item_path item) = payload_of j @ [hd (item_path item)]"
    using p by (simp_all add: butlast_append)
qed

lemma kept_facts:
  assumes g: "good_journal en j" and c: "core t0 j t" and b: "base_ok en t0 (jn_candidates j)" and i: "item \<in> set (jn_candidates j)"
    and st: "jn_state j \<notin> {Deleting, Deleted}" and k: "kept t0 t (payload_of j) (item_path item)"
  shows "safe_candidate_exists t (item_path item) [] = Inr True"
    "safe_candidate_exists t (payload_of j @ item_path item) (payload_of j) = Inr False"
    "validate_journal_candidate en t (item_path item) item = Inr ()"
proof -
  note f = item_facts [OF g c b i]
  have n: "node_at t (item_path item @ r) = node_at t0 (item_path item @ r)" "node_at t (payload_of j @ item_path item @ r) = None" for r
    using k by (simp_all add: kept_def)
  from n(1) [of "[]"] f(5) have "is_directory t (item_path item)" by (simp add: is_directory_def)
  then show "safe_candidate_exists t (item_path item) [] = Inr True"
    by (rule candidate_present) (simp_all add: f)
  show "safe_candidate_exists t (payload_of j @ item_path item) (payload_of j) = Inr False"
    using n(2) [of "[]"] c st by (intro candidate_missing) (auto simp: f core_def)
  show "validate_journal_candidate en t (item_path item) item = Inr ()"
    using b i valid_candidate_same [of t "item_path item" t0 "item_path item"] n(1) n(1) [of "[]"] by (simp add: base_ok_def)
qed

lemma gone_facts:
  assumes g: "good_journal en j" and c: "core t0 j t" and b: "base_ok en t0 (jn_candidates j)" and i: "item \<in> set (jn_candidates j)"
    and k: "gone t0 t (payload_of j) (item_path item)" and d: "is_directory t (payload_of j @ [hd (item_path item)])"
  shows "safe_candidate_exists t (item_path item) [] = Inr False"
    "safe_candidate_exists t (payload_of j @ item_path item) (payload_of j) = Inr True"
    "validate_journal_candidate en t (payload_of j @ item_path item) item = Inr ()"
proof -
  note f = item_facts [OF g c b i]
  have n: "node_at t (item_path item @ r) = None" "node_at t (payload_of j @ item_path item @ r) = node_at t0 (item_path item @ r)" for r
    using k by (simp_all add: gone_def)
  show "safe_candidate_exists t (item_path item) [] = Inr False"
    using n(1) [of "[]"] by (intro candidate_missing) (simp_all add: f)
  from n(2) [of "[]"] f(5) have "is_directory t (payload_of j @ item_path item)" by (simp add: is_directory_def)
  then show "safe_candidate_exists t (payload_of j @ item_path item) (payload_of j) = Inr True"
    using d by (intro candidate_present) (simp_all add: f)
  show "validate_journal_candidate en t (payload_of j @ item_path item) item = Inr ()"
    using b i valid_candidate_same [of t "payload_of j @ item_path item" t0 "item_path item"] n(2) n(2) [of "[]"]
    by (simp add: base_ok_def)
qed

text \<open>What a state asks of the places, beyond the core.\<close>

definition state_settled :: "tree \<Rightarrow> journal \<Rightarrow> tree \<Rightarrow> bool" where
  "state_settled t0 j t =
     (case jn_state j of
        Prepared \<Rightarrow> jn_moved j = [] \<and> (\<forall>item\<in>set (jn_candidates j). kept t0 t (payload_of j) (item_path item))
      | Quarantined \<Rightarrow> set (map ji_relative_path (jn_candidates j)) \<subseteq> set (jn_moved j)
      | _ \<Rightarrow> True)"

lemma kept_not_gone: "kept t0 t P p \<Longrightarrow> is_directory t0 p \<Longrightarrow> \<not> gone t0 t P p"
  unfolding kept_def gone_def is_directory_def by (metis append_Nil2 option.distinct(1))

lemma core_item:
  assumes "core t0 j t" "jn_state j \<notin> {Deleting, Deleted}" "item \<in> set (jn_candidates j)"
  shows "kept t0 t (payload_of j) (item_path item) \<and> ji_relative_path item \<notin> set (jn_moved j) \<or>
    gone t0 t (payload_of j) (item_path item) \<and> is_directory t (payload_of j @ [hd (item_path item)])"
  using assms by (auto simp: core_def)

lemma preflight_item_ok:
  assumes g: "good_journal en j" and c: "core t0 j t" and b: "base_ok en t0 (jn_candidates j)" and s: "state_settled t0 j t"
    and i: "item \<in> set (jn_candidates j)"
  shows "preflight_item en t (payload_of j) j item = Inr ()"
proof (cases "jn_state j \<in> {Deleting, Deleted}")
  case True
  note f = item_facts [OF g c b i]
  have "node_at t (item_path item @ []) = None" using c i True unfolding core_def removed_def by (metis insert_iff singletonD)
  then have "safe_candidate_exists t (item_path item) [] = Inr False"
    using f by (intro candidate_missing) simp_all
  with True show ?thesis by (simp add: preflight_item_def)
next
  case False
  note f = item_facts [OF g c b i]
  from core_item [OF c False i] show ?thesis
  proof
    assume k: "kept t0 t (payload_of j) (item_path item) \<and> ji_relative_path item \<notin> set (jn_moved j)"
    with s i False have "jn_state j \<noteq> Quarantined" by (fastforce simp: state_settled_def)
    with k False kept_facts [OF g c b i False] f show ?thesis by (simp add: preflight_item_def)
  next
    assume k: "gone t0 t (payload_of j) (item_path item) \<and> is_directory t (payload_of j @ [hd (item_path item)])"
    with s i f(5) kept_not_gone have "jn_state j \<noteq> Prepared" by (fastforce simp: state_settled_def)
    moreover have "ji_relative_path item \<in> set (jn_moved j)" if "jn_state j = Quarantined"
      using s i that by (auto simp: state_settled_def)
    ultimately show ?thesis
      using k False gone_facts [OF g c b i] f by (simp add: preflight_item_def require_def)
  qed
qed

lemma preflight_ok:
  assumes "placed en t0 j t" "base_ok en t0 (jn_candidates j)" "state_settled t0 j t"
  shows "preflight_quarantine en t (tx_of j) j = Inr ()"
proof -
  from assms have g: "good_journal en j" and c: "core t0 j t" by (auto simp: placed_def)
  have e: "check_each (preflight_item en t (payload_of j) j) (jn_candidates j) = Inr ()"
    unfolding check_each_Inr using preflight_item_ok [OF g c assms(2,3)] by blast
  from c have d: "node_at t (tx_of j) = Some (Directory (jn_transaction_device j) (jn_transaction_inode j))" by (simp add: core_def)
  show ?thesis
    unfolding preflight_quarantine_def Let_def using c d e
    by (auto simp: core_def validate_payload_root_def require_def split: if_splits)
qed


section \<open>Moving a candidate\<close>

lemma node_at_quarantined:
  assumes p: "length p = 2" "hd p \<noteq> QUARANTINE_ROOT_NAME"
  shows "node_at (moved_tree p (payload_of j @ p) t) (payload_of j @ q) =
      (if take 2 q = p then node_at t (p @ drop 2 q) else node_at t (payload_of j @ q))"
    "take 3 q \<noteq> payload_of j \<Longrightarrow>
      node_at (moved_tree p (payload_of j @ p) t) q = (if take 2 q = p then None else node_at t q)"
proof -
  have l: "length (payload_of j) = 3" by (simp add: payload_path_def transaction_path_def quarantine_root_def)
  have "take 2 (payload_of j @ q) = tx_of j" for q
    by (simp add: payload_path_def transaction_path_def quarantine_root_def)
  moreover have "tx_of j \<noteq> p" using p(2) by (auto simp: transaction_path_def quarantine_root_def)
  ultimately show "node_at (moved_tree p (payload_of j @ p) t) (payload_of j @ q) =
      (if take 2 q = p then node_at t (p @ drop 2 q) else node_at t (payload_of j @ q))"
    using l p by (simp add: tree_simps)
  assume "take 3 q \<noteq> payload_of j"
  moreover have "take 3 q = payload_of j" if a: "take (length (payload_of j @ p)) q = payload_of j @ p"
  proof -
    have "take 3 q = take 3 (take (length (payload_of j @ p)) q)" using l p by simp
    also have "\<dots> = payload_of j" unfolding a using l by simp
    finally show ?thesis .
  qed
  ultimately have "take (length (payload_of j @ p)) q \<noteq> payload_of j @ p" by blast
  then show "node_at (moved_tree p (payload_of j @ p) t) q = (if take 2 q = p then None else node_at t q)"
    using p by (simp add: tree_simps)
qed

lemma take3_payload:
  "take 3 (payload_of j) = payload_of j" "take 3 (tx_of j) \<noteq> payload_of j" "take 3 quarantine_root \<noteq> payload_of j"
  "x \<noteq> QUARANTINE_PAYLOAD_NAME \<Longrightarrow> take 3 (tx_of j @ x # r) \<noteq> payload_of j"
  "take 2 q \<noteq> tx_of j \<Longrightarrow> take 3 q \<noteq> payload_of j"
  "take 2 (tx_of j @ r) = tx_of j"
proof -
  show "take 3 (payload_of j) = payload_of j" "take 3 (tx_of j) \<noteq> payload_of j" "take 3 quarantine_root \<noteq> payload_of j"
    "x \<noteq> QUARANTINE_PAYLOAD_NAME \<Longrightarrow> take 3 (tx_of j @ x # r) \<noteq> payload_of j" "take 2 (tx_of j @ r) = tx_of j"
    by (simp_all add: payload_path_def transaction_path_def quarantine_root_def)
  show "take 2 q \<noteq> tx_of j \<Longrightarrow> take 3 q \<noteq> payload_of j"
  proof
    assume q: "take 2 q \<noteq> tx_of j" "take 3 q = payload_of j"
    have "take 2 q = take 2 (take 3 q)" by simp
    also have "\<dots> = tx_of j" unfolding q(2) by (simp add: payload_path_def transaction_path_def quarantine_root_def)
    finally show False using q(1) by blast
  qed
qed

lemma item_path_inj:
  assumes "good_journal en j" "a \<in> set (jn_candidates j)" "b \<in> set (jn_candidates j)" "item_path a = item_path b"
  shows "a = b"
proof -
  have "safe_relative_text (ji_relative_path a)" "safe_relative_text (ji_relative_path b)"
    using assms by (simp_all add: good_journal_def)
  with assms(4) have "ji_relative_path a = ji_relative_path b" by (metis safe_text_join)
  with assms(1-3) show ?thesis by (auto simp: good_journal_def distinct_map dest: inj_onD)
qed

lemma placed_move:
  assumes g: "good_journal en j" and c: "core t0 j t" and b: "base_ok en t0 (jn_candidates j)" and i: "item \<in> set (jn_candidates j)"
    and st: "jn_state j \<notin> {Deleting, Deleted}" and k: "kept t0 t (payload_of j) (item_path item)"
    and d: "is_directory t (payload_of j @ [hd (item_path item)])"
  defines "t' \<equiv> moved_tree (item_path item) (payload_of j @ item_path item) t"
  shows "core t0 j t'" "gone t0 t' (payload_of j) (item_path item)" "is_directory t' (payload_of j @ [x]) = is_directory t (payload_of j @ [x])"
    "node_at t' (journal_path (tx_of j)) = node_at t (journal_path (tx_of j))"
    "a \<in> set (jn_candidates j) \<Longrightarrow> gone t0 t (payload_of j) (item_path a) \<Longrightarrow> gone t0 t' (payload_of j) (item_path a)"
    "a \<in> set (jn_candidates j) \<Longrightarrow> kept t0 t (payload_of j) (item_path a) \<Longrightarrow> a \<noteq> item \<Longrightarrow> kept t0 t' (payload_of j) (item_path a)"
proof -
  let ?p = "item_path item" and ?P = "payload_of j"
  have safe: "safe_relative_text (ji_relative_path a)" if "a \<in> set (jn_candidates j)" for a
    using g that by (simp add: good_journal_def)
  note ia = item_not_tx [OF safe]
  have p: "length ?p = 2" "hd ?p \<noteq> QUARANTINE_ROOT_NAME" "tx_of j \<noteq> ?p" "take 2 (tx_of j) \<noteq> ?p"
  proof -
    have "hd (tx_of j) = QUARANTINE_ROOT_NAME" "take 2 (tx_of j) = tx_of j"
      by (simp_all add: transaction_path_def quarantine_root_def)
    then show "length ?p = 2" "hd ?p \<noteq> QUARANTINE_ROOT_NAME" "tx_of j \<noteq> ?p" "take 2 (tx_of j) \<noteq> ?p"
      using ia(3,5) [OF i] by auto
  qed
  note n1 = node_at_quarantined(1) [OF p(1,2), of j t, folded t'_def]
  note n2 = node_at_quarantined(2) [OF p(1,2), of _ j t, folded t'_def]
  have tx: "node_at t' (tx_of j @ y # r) = node_at t (tx_of j @ y # r)" if "y \<noteq> QUARANTINE_PAYLOAD_NAME" for y r
    using n2 [OF take3_payload(4) [OF that, of j r], unfolded take3_payload(6)] p(3) by simp
  have txd: "node_at t' (tx_of j) = node_at t (tx_of j)"
    using n2 [OF take3_payload(2)] p(4) by simp
  have rt: "node_at t' quarantine_root = node_at t quarantine_root"
  proof -
    have "take 2 quarantine_root \<noteq> ?p" using p(1) by (auto simp: quarantine_root_def dest: arg_cong [where f = length])
    then show ?thesis using n2 [OF take3_payload(3)] by simp
  qed
  have pl: "node_at t' ?P = node_at t ?P" "node_at t' (?P @ [y]) = node_at t (?P @ [y])" for y
  proof -
    have "take 2 [] \<noteq> ?p" "take 2 [y] \<noteq> ?p" using p(1) by (auto dest: arg_cong [where f = length])
    then show "node_at t' ?P = node_at t ?P" "node_at t' (?P @ [y]) = node_at t (?P @ [y])"
      using n1 [of "[]"] n1 [of "[y]"] by simp_all
  qed
  have fr: "node_at t' q = node_at t q" if "untouched j q" for q
    using n2 [of q] take3_payload(5) [of q j] that i by (auto simp: untouched_def)
  have me: "node_at t' (?p @ r) = None" "node_at t' (?P @ ?p @ r) = node_at t0 (?p @ r)" for r
  proof -
    have "take 3 (?p @ r) \<noteq> ?P" using ia(1,2) [OF i] by (intro take3_payload(5)) simp
    then show "node_at t' (?p @ r) = None" using n2 ia(1) [OF i] by simp
    show "node_at t' (?P @ ?p @ r) = node_at t0 (?p @ r)"
      using n1 [of "?p @ r"] ia(1) [OF i] p(1) k by (simp add: kept_def)
  qed
  have ot: "node_at t' (item_path a @ r) = node_at t (item_path a @ r)"
      "node_at t' (?P @ item_path a @ r) = node_at t (?P @ item_path a @ r)"
    if "a \<in> set (jn_candidates j)" "a \<noteq> item" for a r
  proof -
    have ne: "item_path a \<noteq> ?p" using item_path_inj [OF g that(1) i] that(2) by blast
    have "take 3 (item_path a @ r) \<noteq> ?P" using ia(1,2) [OF that(1)] by (intro take3_payload(5)) simp
    then show "node_at t' (item_path a @ r) = node_at t (item_path a @ r)" using n2 ia(1) [OF that(1)] ne by simp
    show "node_at t' (?P @ item_path a @ r) = node_at t (?P @ item_path a @ r)"
      using n1 [of "item_path a @ r"] ia(1) [OF that(1)] ne by simp
  qed
  show gm: "gone t0 t' ?P ?p" using me by (simp add: gone_def)
  show dd: "is_directory t' (?P @ [x]) = is_directory t (?P @ [x])" for x by (simp add: is_directory_def pl)
  show "node_at t' (journal_path (tx_of j)) = node_at t (journal_path (tx_of j))"
    using tx [of QUARANTINE_JOURNAL_NAME "[]"] file_names by (simp add: journal_path_def)
  show go: "gone t0 t' ?P (item_path a)" if "a \<in> set (jn_candidates j)" "gone t0 t ?P (item_path a)" for a
    using gm ot [OF that(1)] that(2) by (cases "a = item") (auto simp: gone_def)
  show ke: "kept t0 t' ?P (item_path a)" if "a \<in> set (jn_candidates j)" "kept t0 t ?P (item_path a)" "a \<noteq> item" for a
    using ot [OF that(1,3)] that(2) by (auto simp: kept_def)
  have items: "kept t0 t' ?P (item_path a) \<and> ji_relative_path a \<notin> set (jn_moved j) \<or>
      gone t0 t' ?P (item_path a) \<and> is_directory t' (?P @ [hd (item_path a)])" if "a \<in> set (jn_candidates j)" for a
    using core_item [OF c st that] ke [OF that] go [OF that] gm d dd by (cases "a = item") auto
  show "core t0 j t'"
    using c st fr items tx txd rt pl
    unfolding core_def tx_files_def by (simp add: is_directory_def)
qed

lemma placed_mkdir:
  assumes g: "good_journal en j" and c: "core t0 j t" and st: "jn_state j \<notin> {Deleting, Deleted}"
    and t': "t' = with_node (payload_of j @ [x]) (Directory d i) t"
  shows "core t0 j t'" "is_directory t' (payload_of j @ [x])"
    "node_at t' (journal_path (tx_of j)) = node_at t (journal_path (tx_of j))"
    "a \<in> set (jn_candidates j) \<Longrightarrow> gone t0 t' (payload_of j) (item_path a) = gone t0 t (payload_of j) (item_path a)"
    "a \<in> set (jn_candidates j) \<Longrightarrow> kept t0 t' (payload_of j) (item_path a) = kept t0 t (payload_of j) (item_path a)"
proof -
  have ot: "node_at t' q = node_at t q" if "q \<noteq> payload_of j @ [x]" for q
    using that by (simp add: t' tree_simps)
  have me: "node_at t' (payload_of j @ [x]) = Some (Directory d i)" by (simp add: t' tree_simps)
  have safe: "safe_relative_text (ji_relative_path a)" if "a \<in> set (jn_candidates j)" for a
    using g that by (simp add: good_journal_def)
  note ia = item_not_tx [OF safe]
  have q: "quarantine_root \<noteq> payload_of j @ [x]" "tx_of j \<noteq> payload_of j @ [x]" "payload_of j \<noteq> payload_of j @ [x]"
      "y \<noteq> QUARANTINE_PAYLOAD_NAME \<Longrightarrow> tx_of j @ y # r \<noteq> payload_of j @ [x]" for y r
    by (simp_all add: payload_path_def transaction_path_def quarantine_root_def)
  have un: "node_at t' q = node_at t q" if "untouched j q" for q
    using that by (intro ot) (auto simp: untouched_def payload_path_def transaction_path_def quarantine_root_def)
  have it: "item_path a @ r \<noteq> payload_of j @ [x]" "payload_of j @ item_path a @ r \<noteq> payload_of j @ [x]"
    if "a \<in> set (jn_candidates j)" for a r
  proof -
    have "take 2 (payload_of j @ [x]) = tx_of j" by (simp add: payload_path_def transaction_path_def quarantine_root_def)
    with ia(1,2) [OF that] show "item_path a @ r \<noteq> payload_of j @ [x]" by metis
    show "payload_of j @ item_path a @ r \<noteq> payload_of j @ [x]"
      using ia(3) [OF that] by (auto simp: length_Suc_conv numeral_2_eq_2)
  qed
  show d: "is_directory t' (payload_of j @ [x])" by (simp add: is_directory_def me)
  show jn: "node_at t' (journal_path (tx_of j)) = node_at t (journal_path (tx_of j))"
    unfolding journal_path_def by (rule ot) (rule q(4) [OF file_names(1)])
  show go: "gone t0 t' (payload_of j) (item_path a) = gone t0 t (payload_of j) (item_path a)"
    and ke: "kept t0 t' (payload_of j) (item_path a) = kept t0 t (payload_of j) (item_path a)"
    if "a \<in> set (jn_candidates j)" for a
    using it [OF that] ot by (simp_all add: gone_def kept_def)
  have dm: "is_directory t (payload_of j @ [y]) \<Longrightarrow> is_directory t' (payload_of j @ [y])" for y
    using ot [of "payload_of j @ [y]"] d by (cases "y = x") (auto simp: is_directory_def)
  have ch: "node_at t' (payload_of j @ [y]) = None \<or> is_directory t' (payload_of j @ [y])"
    if "node_at t (payload_of j @ [y]) = None \<or> is_directory t (payload_of j @ [y])" for y
    using that dm ot [of "payload_of j @ [y]"] d by (cases "y = x") auto
  show "core t0 j t'"
    using c st un ch dm go ke ot q
    unfolding core_def tx_files_def by (simp add: is_directory_def) blast
qed


section \<open>The loops\<close>

lemma holds_placed: "holds en t0 H j s \<Longrightarrow> good_journal en j \<and> core t0 j (dk_tree s) \<and> placed en t0 j (dk_tree s)"
  by (simp add: holds_def placed_def)

lemma holds_step:
  assumes "holds en t0 H j s" "placed en t0 j t" "\<And>t. placed en t0 j t \<Longrightarrow> H t"
  shows "holds en t0 H j (s\<lparr>dk_ticks := k, dk_tree := t, dk_history := t # dk_history s\<rparr>)"
    "holds en t0 H j (s\<lparr>dk_tree := t, dk_history := t # dk_history s\<rparr>)"
  using assms by (simp_all add: holds_def)

text \<open>The parent in the payload, then the move.\<close>

lemma wp_take_candidate:
  assumes h: "holds en t0 H j s" and b: "base_ok en t0 (jn_candidates j)" and i: "item \<in> set (jn_candidates j)"
    and st: "jn_state j \<notin> {Deleting, Deleted}" and k: "kept t0 (dk_tree s) (payload_of j) (item_path item)"
    and H: "\<And>t. placed en t0 j t \<Longrightarrow> H t"
    and post: "\<And>s'. holds en t0 H j s' \<Longrightarrow> gone t0 (dk_tree s') (payload_of j) (item_path item) \<Longrightarrow>
      (\<And>a. a \<in> set (jn_candidates j) \<Longrightarrow> a \<noteq> item \<Longrightarrow> kept t0 (dk_tree s) (payload_of j) (item_path a) \<Longrightarrow>
        kept t0 (dk_tree s') (payload_of j) (item_path a)) \<Longrightarrow> Q () s'"
  shows "wp (ensure_payload_parent (butlast (payload_of j @ item_path item)))
    (\<lambda>_. wp (rename_path (item_path item) (payload_of j @ item_path item)) Q E) E s"
proof -
  from holds_placed [OF h] have g: "good_journal en j" and c: "core t0 j (dk_tree s)" and p: "placed en t0 j (dk_tree s)" by auto
  let ?p = "item_path item" and ?P = "payload_of j"
  note f = item_facts [OF g c b i]
  have move: "wp (rename_path ?p (?P @ ?p)) Q E s'"
    if h': "holds en t0 H j s'" and k': "kept t0 (dk_tree s') ?P ?p" and d': "is_directory (dk_tree s') (?P @ [hd ?p])"
      and ks: "\<And>a. a \<in> set (jn_candidates j) \<Longrightarrow> kept t0 (dk_tree s) ?P (item_path a) \<Longrightarrow> kept t0 (dk_tree s') ?P (item_path a)" for s'
  proof -
    from holds_placed [OF h'] have c': "core t0 j (dk_tree s')" and p': "placed en t0 j (dk_tree s')" by auto
    obtain v w where n: "node_at (dk_tree s') ?p = Some (Directory v w)"
      using k' f(5) by (auto simp: kept_def is_directory_def dest: spec [where x = "[]"])
    have t: "node_at (dk_tree s') (?P @ ?p) = None" using k' by (auto simp: kept_def dest: spec [where x = "[]"])
    have l: "length ?P = 3" by (simp add: payload_path_def transaction_path_def quarantine_root_def)
    have tk: "take (length ?p) (?P @ ?p) \<noteq> ?p" "take (length (?P @ ?p)) ?p \<noteq> ?P @ ?p"
    proof -
      have "hd (take (length ?p) (?P @ ?p)) = QUARANTINE_ROOT_NAME"
        using f(3) by (simp add: payload_path_def transaction_path_def quarantine_root_def)
      then show "take (length ?p) (?P @ ?p) \<noteq> ?p" using item_not_tx(5) [OF f(7)] by metis
      show "take (length (?P @ ?p)) ?p \<noteq> ?P @ ?p" using l by (auto dest: arg_cong [where f = length])
    qed
    note m = placed_move [OF g c' b i st k' d']
    have pm: "placed en t0 j (moved_tree ?p (?P @ ?p) (dk_tree s'))"
      using m(1,4) p' g unfolding placed_def by simp
    show ?thesis
      using n tk t d' f(6) by (subst wp_rename_path [where n = "Directory v w"])
        (auto simp: can_replace_def is_directory_def intro!: post holds_step(2) [OF h' pm H] m(2) m(6) ks)
  qed
  show ?thesis
  proof (cases "is_directory (dk_tree s) (?P @ [hd ?p])")
    case True
    then show ?thesis
      using move [OF h k True] f(6) unfolding ensure_payload_parent_def wp_eqs by (auto simp: is_directory_def)
  next
    case False
    with c st have none: "node_at (dk_tree s) (?P @ [hd ?p]) = None" by (auto simp: core_def)
    have pd: "path_is_dir (dk_tree s) ?P" using c st by (auto simp: core_def)
    let ?d = "dk_device s" and ?i = "dk_inodes s (dk_ticks s)"
    let ?t = "with_node (?P @ [hd ?p]) (Directory ?d ?i) (dk_tree s)"
    note m = placed_mkdir [OF g c st refl, where d = ?d and i = ?i]
    have pm: "placed en t0 j ?t" using m(1,3) p g unfolding placed_def by simp
    have km: "kept t0 ?t ?P ?p" using m(5) [OF i] k by simp
    have n: "node_at ?t (?P @ [hd ?p]) = Some (Directory ?d ?i)" by (simp add: tree_simps)
    show ?thesis
      unfolding ensure_payload_parent_def wp_eqs f(6)
      using none pd n by (simp add: wp_make_directory wp_look Let_def)
        (rule move [OF holds_step(1) [OF h pm H]]; simp add: km m(2,5))
  qed
qed

lemma all_gone:
  assumes "core t0 j t" "jn_state j \<notin> {Deleting, Deleted}" "set (map ji_relative_path (jn_candidates j)) \<subseteq> set (jn_moved j)"
    "item \<in> set (jn_candidates j)"
  shows "gone t0 t (payload_of j) (item_path item)"
  using core_item [OF assms(1,2,4)] assms(3,4) by auto

lemma core_restated:
  assumes c: "core t0 j t" and st: "jn_state j \<notin> {Deleting, Deleted}" "st \<notin> {Deleting, Deleted}"
    and m: "\<And>item. item \<in> set (jn_candidates j) \<Longrightarrow> ji_relative_path item \<in> set m \<Longrightarrow>
      ji_relative_path item \<in> set (jn_moved j) \<or> gone t0 t (payload_of j) (item_path item)"
    and b: "\<And>item. item \<in> set (jn_candidates j) \<Longrightarrow> is_directory t0 (item_path item)"
  shows "core t0 (restated j st m u) t"
proof -
  have "kept t0 t (payload_of j) (item_path item) \<and> ji_relative_path item \<notin> set m \<or>
      gone t0 t (payload_of j) (item_path item) \<and> is_directory t (payload_of j @ [hd (item_path item)])"
    if i: "item \<in> set (jn_candidates j)" for item
    using core_item [OF c st(1) i] m [OF i] kept_not_gone b [OF i] by blast
  with c st show ?thesis by (simp add: core_def untouched_def)
qed

lemma wp_recover_candidates:
  assumes "holds en t0 H (restated j st m u) s" "base_ok en t0 (jn_candidates j)" "st \<notin> {Deleting, Deleted}"
    "set items \<subseteq> set (jn_candidates j)"
    "\<And>m' w t. placed en t0 (restated j st m' w) t \<Longrightarrow> set m \<subseteq> set m' \<Longrightarrow> H t"
    "\<And>s' m' w. holds en t0 H (restated j st m' w) s' \<Longrightarrow> set m \<subseteq> set m' \<Longrightarrow> ji_relative_path ` set items \<subseteq> set m' \<Longrightarrow>
      Q (restated j st m' w) s'"
  shows "wp (recover_candidates en (tx_of j) items (restated j st m u)) Q E s"
  using assms
proof (induction items arbitrary: m u s)
  case Nil
  then show ?case by (simp add: wp_ret)
next
  case (Cons item items)
  let ?j = "restated j st m u"
  have i: "item \<in> set (jn_candidates ?j)" using Cons.prems(4) by simp
  have st: "jn_state ?j \<notin> {Deleting, Deleted}" and b: "base_ok en t0 (jn_candidates ?j)" using Cons.prems(2,3) by simp_all
  note h = Cons.prems(1)
  from holds_placed [OF h] have g: "good_journal en ?j" and c: "core t0 ?j (dk_tree s)" by auto
  note f = item_facts [OF g c b i]
  have H: "placed en t0 ?j t \<Longrightarrow> H t" for t using Cons.prems(5) by blast
  let ?rest = "wp (bnd (if py_join ''/'' (item_path item) \<notin> set m
              then write_quarantine_journal en (tx_of j) (?j\<lparr>jn_moved := jn_moved ?j @ [py_join ''/'' (item_path item)]\<rparr>)
              else ret ?j) (\<lambda>j'. recover_candidates en (tx_of j) items j')) Q E"
  have rest: "?rest s'" if h': "holds en t0 H ?j s'" and gn: "gone t0 (dk_tree s') (payload_of j) (item_path item)" for s'
  proof (cases "ji_relative_path item \<in> set m")
    case True
    have "wp (recover_candidates en (tx_of j) items ?j) Q E s'"
    proof (rule Cons.IH [OF h' Cons.prems(2,3)])
      show "holds en t0 H (restated j st m' w) s'' \<Longrightarrow> set m \<subseteq> set m' \<Longrightarrow> ji_relative_path ` set items \<subseteq> set m' \<Longrightarrow>
          Q (restated j st m' w) s''" for s'' m' w
        using True by (intro Cons.prems(6)) auto
    qed (use Cons.prems(4,5) in auto)
    with True f(4) show ?thesis by (simp add: wp_eqs)
  next
    case False
    let ?m = "m @ [ji_relative_path item]"
    from holds_placed [OF h'] have g': "good_journal en ?j" and c': "core t0 ?j (dk_tree s')" by auto
    have isd: "a \<in> set (jn_candidates ?j) \<Longrightarrow> is_directory t0 (item_path a)" for a
      using item_facts(5) [OF g' c' b] by simp
    have safe: "a \<in> set (jn_candidates j) \<Longrightarrow> ji_relative_path a = ji_relative_path item \<Longrightarrow> a = item" for a
      using g' i by (auto simp: good_journal_def distinct_map dest: inj_onD)
    have cm: "core t0 (restated ?j st ?m u) (dk_tree s')"
      by (rule core_restated [OF c' st _ _ isd]) (use Cons.prems(3) gn safe in auto)
    have dm: "distinct ?m" "set ?m \<subseteq> set (map ji_relative_path (jn_candidates ?j))"
      using g' False i by (auto simp: good_journal_def)
    have "wp (write_quarantine_journal en (tx_of ?j) (restated ?j st ?m u))
        (\<lambda>j'. wp (recover_candidates en (tx_of j) items j') Q E) E s'"
    proof (rule wp_write_journal [OF h' cm dm H])
      fix t w assume "placed en t0 (restated ?j st ?m w) t"
      then show "H t" using Cons.prems(5) [where m' = ?m and w = w and t = t] by auto
    next
      fix s'' w assume "holds en t0 H (restated ?j st ?m w) s''"
      then have h2: "holds en t0 H (restated j st ?m w) s''" by simp
      have "wp (recover_candidates en (tx_of j) items (restated j st ?m w)) Q E s''"
      proof (rule Cons.IH [OF h2 Cons.prems(2,3)])
        show "holds en t0 H (restated j st m' v) s3 \<Longrightarrow> set ?m \<subseteq> set m' \<Longrightarrow> ji_relative_path ` set items \<subseteq> set m' \<Longrightarrow>
            Q (restated j st m' v) s3" for s3 m' v
          by (intro Cons.prems(6)) auto
      qed (use Cons.prems(4,5) in auto)
      then show "wp (recover_candidates en (tx_of j) items (restated ?j st ?m w)) Q E s''" by simp
    qed
    with False f(4) show ?thesis by (simp add: wp_eqs)
  qed
  from core_item [OF c st i] have "kept t0 (dk_tree s) (payload_of j) (item_path item) \<or>
      gone t0 (dk_tree s) (payload_of j) (item_path item) \<and> is_directory (dk_tree s) (payload_of j @ [hd (item_path item)])" by auto
  then show ?case
  proof
    assume k: "kept t0 (dk_tree s) (payload_of j) (item_path item)"
    have k': "kept t0 (dk_tree s) (payload_of ?j) (item_path item)" using k by simp
    note e = kept_facts [OF g c b i st k']
    have "wp (ensure_payload_parent (butlast (payload_of ?j @ item_path item)))
        (\<lambda>_. wp (rename_path (item_path item) (payload_of ?j @ item_path item)) (\<lambda>_. ?rest) E) E s"
      by (rule wp_take_candidate [OF h b i st k' H]) (use rest in auto)
    with e show ?thesis by (simp add: Let_def wp_eqs split del: if_split)
  next
    assume k: "gone t0 (dk_tree s) (payload_of j) (item_path item) \<and> is_directory (dk_tree s) (payload_of j @ [hd (item_path item)])"
    then have k': "gone t0 (dk_tree s) (payload_of ?j) (item_path item)" "is_directory (dk_tree s) (payload_of ?j @ [hd (item_path item)])"
      by simp_all
    note e = gone_facts [OF g c b i k']
    from rest [OF h] k e show ?thesis by (simp add: Let_def wp_eqs split del: if_split)
  qed
qed


section \<open>Deleting the payload\<close>

lemma placed_remove:
  assumes p: "placed en t0 j t" and st: "jn_state j = Deleting" and q: "take 3 q = payload_of j"
  shows "placed en t0 j (without_node q t)"
proof -
  from p have g: "good_journal en j" and c: "core t0 j t" by (auto simp: placed_def)
  have ot: "node_at (without_node q t) r = node_at t r" if "take 3 r \<noteq> payload_of j" for r
    using that q by (auto simp: tree_simps)
  have safe: "safe_relative_text (ji_relative_path a)" if "a \<in> set (jn_candidates j)" for a
    using g that by (simp add: good_journal_def)
  have tx: "node_at (without_node q t) (tx_of j @ x # r) = node_at t (tx_of j @ x # r)" if "x \<noteq> QUARANTINE_PAYLOAD_NAME" for x r
    using ot take3_payload(4) that by blast
  have un: "node_at (without_node q t) r = node_at t r" if "untouched j r" for r
    using ot take3_payload(5) that by (simp add: untouched_def)
  have it: "removed (without_node q t) (item_path a)" if "removed t (item_path a)" "a \<in> set (jn_candidates j)" for a
    using that by (auto simp: removed_def tree_simps)
  have pl: "node_at (without_node q t) (payload_of j) = None \<or> node_at (without_node q t) (payload_of j) = node_at t (payload_of j)"
    by (simp add: tree_simps)
  have "core t0 j (without_node q t)"
    using c st it un tx pl ot [OF take3_payload(2)] ot [OF take3_payload(3)]
    unfolding core_def tx_files_def is_directory_def by auto
  with p tx [OF file_names(1), of "[]"] show ?thesis by (auto simp: placed_def journal_path_def)
qed

lemma wp_remove_entries:
  assumes "holds en t0 H j s" "jn_state j = Deleting" "\<And>q. q \<in> set qs \<Longrightarrow> take 3 q = payload_of j" "\<And>t. placed en t0 j t \<Longrightarrow> H t"
    "\<And>s'. holds en t0 H j s' \<Longrightarrow> (\<And>q. q \<in> set qs \<or> node_at (dk_tree s) q = None \<Longrightarrow> node_at (dk_tree s') q = None) \<Longrightarrow> Q () s'"
  shows "wp (remove_entries qs) Q E s"
  using assms
proof (induction qs arbitrary: s)
  case Nil
  then show ?case by (simp add: wp_ret)
next
  case (Cons q qs)
  let ?s = "s\<lparr>dk_tree := without_node q (dk_tree s), dk_history := without_node q (dk_tree s) # dk_history s\<rparr>"
  have h: "holds en t0 H j ?s"
    using Cons.prems(1,3,4) placed_remove [OF _ Cons.prems(2)] by (intro holds_step(2)) (auto simp: holds_def)
  have "wp (remove_entries qs) Q E ?s"
  proof (rule Cons.IH [OF h Cons.prems(2)])
    show "Q () s'" if h': "holds en t0 H j s'"
      and n: "\<And>a. a \<in> set qs \<or> node_at (dk_tree ?s) a = None \<Longrightarrow> node_at (dk_tree s') a = None" for s'
    proof (rule Cons.prems(5) [OF h'])
      show "node_at (dk_tree s') a = None" if "a \<in> set (q # qs) \<or> node_at (dk_tree s) a = None" for a
        using that by (intro n) (auto simp: tree_simps)
    qed
  qed (use Cons.prems(3,4) in auto)
  then show ?case by (simp add: wp_eqs) (simp add: wp_def put_tree_def)
qed

lemma wp_finish_delete:
  assumes h: "holds en t0 H j s" and st: "jn_state j = Deleting"
    and H: "\<And>t. placed en t0 j t \<Longrightarrow> H t" "\<And>t w. placed en t0 (restated j Deleted (jn_moved j) w) t \<Longrightarrow> H t"
    and post: "\<And>s' w. holds en t0 H (restated j Deleted (jn_moved j) w) s' \<Longrightarrow> Q () s'"
  shows "wp (finish_quarantine_delete en (tx_of j) j) Q E s"
proof -
  have wr: "wp (write_quarantine_journal en (tx_of j) (j\<lparr>jn_state := Deleted\<rparr>)) (\<lambda>_. Q ()) E s'"
    if h': "holds en t0 H j s'" and n: "node_at (dk_tree s') (payload_of j) = None" for s'
  proof -
    from holds_placed [OF h'] have g: "good_journal en j" and c: "core t0 j (dk_tree s')" by auto
    have c': "core t0 (restated j Deleted (jn_moved j) (jn_updated_at j)) (dk_tree s')"
      using c st n by (simp add: core_def untouched_def)
    have "wp (write_quarantine_journal en (tx_of j) (restated j Deleted (jn_moved j) (jn_updated_at j))) (\<lambda>_. Q ()) E s'"
      by (rule wp_write_journal [OF h' c' _ _ H]) (use g post in \<open>auto simp: good_journal_def\<close>)
    then show ?thesis by simp
  qed
  from holds_placed [OF h] have c: "core t0 j (dk_tree s)" by auto
  then have "node_at (dk_tree s) (payload_of j) = None \<or>
      node_at (dk_tree s) (payload_of j) = Some (Directory (jn_payload_device j) (jn_payload_inode j))"
    using st by (auto simp: core_def)
  then show ?thesis
  proof
    assume "node_at (dk_tree s) (payload_of j) = None"
    with wr [OF h this] show ?thesis by (simp add: finish_quarantine_delete_def Let_def wp_eqs wp_funs)
  next
    assume d: "node_at (dk_tree s) (payload_of j) = Some (Directory (jn_payload_device j) (jn_payload_inode j))"
    let ?qs = "rev (sort_key length (paths_below (dk_tree s) (payload_of j)))"
    have l: "length (payload_of j) = 3" by (simp add: payload_path_def transaction_path_def quarantine_root_def)
    have "payload_of j \<in> set (map fst (dk_tree s))"
      using d by (auto simp: node_at_def dest!: map_of_SomeD intro: rev_image_eqI)
    then have pin: "payload_of j \<in> set ?qs" using l by (simp add: paths_below_def)
    have "wp (remove_entries ?qs) (\<lambda>_. wp (write_quarantine_journal en (tx_of j) (j\<lparr>jn_state := Deleted\<rparr>)) (\<lambda>_. Q ()) E) E s"
    proof (rule wp_remove_entries [OF h st _ H(1)])
      show "take 3 q = payload_of j" if "q \<in> set ?qs" for q using that l by (simp add: paths_below_def)
    next
      fix s' assume "holds en t0 H j s'" "\<And>q. q \<in> set ?qs \<or> node_at (dk_tree s) q = None \<Longrightarrow> node_at (dk_tree s') q = None"
      with pin show "wp (write_quarantine_journal en (tx_of j) (j\<lparr>jn_state := Deleted\<rparr>)) (\<lambda>_. Q ()) E s'" by (intro wr) blast+
    qed
    moreover have "wp (remove_tree (payload_of j)) R E s = wp (remove_entries ?qs) R E s" for R
      by (simp add: wp_def remove_tree_def d)
    ultimately show ?thesis
      using d by (simp add: finish_quarantine_delete_def Let_def wp_eqs wp_funs validate_payload_root_def)
  qed
qed

section \<open>Recovery\<close>

text \<open>The trees a recovery may leave: those of its transaction in any later state.\<close>

definition later :: "retention_env \<Rightarrow> tree \<Rightarrow> journal \<Rightarrow> (journal \<Rightarrow> tree \<Rightarrow> bool) \<Rightarrow> tree \<Rightarrow> bool" where
  "later en t0 j P t = (\<exists>st m w. placed en t0 (restated j st m w) t \<and> P (restated j st m w) t)"

lemma wp_recover:
  assumes h: "holds en t0 H j s" and b: "base_ok en t0 (jn_candidates j)" and s: "state_settled t0 j (dk_tree s)"
    and H: "\<And>t m w. placed en t0 (restated j (jn_state j) m w) t \<Longrightarrow> set (jn_moved j) \<subseteq> set m \<Longrightarrow> jn_state j \<notin> {Deleting, Deleted} \<Longrightarrow> H t"
    and H': "\<And>t st m w. placed en t0 (restated j st m w) t \<Longrightarrow> state_settled t0 (restated j st m w) t \<Longrightarrow> st \<in> {Quarantined, Deleting, Deleted} \<Longrightarrow> H t"
    and post: "\<And>s' m w. holds en t0 H (restated j Deleted m w) s' \<Longrightarrow>
      Q (if jn_state j = Deleted then 0 else length (jn_candidates j)) s'"
  shows "wp (recover_quarantine en (jn_transaction_id j) (jn_backup_manifest_sha256 j)) Q E s"
proof -
  from holds_placed [OF h] have p: "placed en t0 j (dk_tree s)" and g: "good_journal en j" and c: "core t0 j (dk_tree s)" by auto
  have root: "is_directory (dk_tree s) quarantine_root" using c by (simp add: core_def)
  have tid: "validate_transaction_id (jn_transaction_id j) = Inr ()"
    using g by (simp add: good_journal_def validate_transaction_id_def)
  have self: "j = restated j (jn_state j) (jn_moved j) (jn_updated_at j)" by simp
  let ?rest = "bnd (if jn_state j = Deleting then ret j
                else
                  thn (look (\<lambda>t. validate_payload_root t (payload_of j) j))
                 (bnd (recover_candidates en (tx_of j) (jn_candidates j) j) (\<lambda>j1.
                  bnd (write_quarantine_journal en (tx_of j) (j1\<lparr>jn_state := Quarantined\<rparr>)) (\<lambda>j2.
                  write_quarantine_journal en (tx_of j) (j2\<lparr>jn_state := Deleting\<rparr>)))))
             (\<lambda>j3. thn (finish_quarantine_delete en (tx_of j) j3) (ret (length (jn_candidates j))))"
  have fin: "wp (thn (finish_quarantine_delete en (tx_of j) (restated j Deleting m w)) (ret (length (jn_candidates j)))) Q E s'"
    if h': "holds en t0 H (restated j Deleting m w) s'" and nd: "jn_state j \<noteq> Deleted" for s' m w
  proof -
    let ?k = "restated j Deleting m w"
    have "wp (finish_quarantine_delete en (tx_of ?k) ?k) (\<lambda>_. Q (length (jn_candidates j))) E s'"
    proof (rule wp_finish_delete [OF h'])
      fix t assume "placed en t0 ?k t"
      then show "H t" by (rule H') (simp_all add: state_settled_def)
    next
      fix t v assume "placed en t0 (restated ?k Deleted (jn_moved ?k) v) t"
      then have "placed en t0 (restated j Deleted m v) t" by simp
      then show "H t" by (rule H') (simp_all add: state_settled_def)
    next
      fix s'' v assume "holds en t0 H (restated ?k Deleted (jn_moved ?k) v) s''"
      then have "holds en t0 H (restated j Deleted m v) s''" by simp
      from post [OF this] nd show "Q (length (jn_candidates j)) s''" by simp
    qed simp
    then show ?thesis by (simp add: wp_eqs wp_funs)
  qed
  have rest: "wp ?rest Q E s" if nd: "jn_state j \<noteq> Deleted"
  proof (cases "jn_state j = Deleting")
    case True
    have e: "restated j Deleting (jn_moved j) (jn_updated_at j) = j" using True by (cases j) simp
    have "holds en t0 H (restated j Deleting (jn_moved j) (jn_updated_at j)) s" unfolding e by (rule h)
    from fin [OF this nd, unfolded e] True show ?thesis by (simp add: wp_eqs)
  next
    case False
    with nd have st: "jn_state j \<notin> {Deleting, Deleted}" by simp
    have h0: "holds en t0 H (restated j (jn_state j) (jn_moved j) (jn_updated_at j)) s" using h by simp
    have "wp (recover_candidates en (tx_of j) (jn_candidates j) (restated j (jn_state j) (jn_moved j) (jn_updated_at j)))
        (\<lambda>j1. wp (write_quarantine_journal en (tx_of j) (j1\<lparr>jn_state := Quarantined\<rparr>)) (\<lambda>j2.
          wp (write_quarantine_journal en (tx_of j) (j2\<lparr>jn_state := Deleting\<rparr>)) (\<lambda>j3.
          wp (thn (finish_quarantine_delete en (tx_of j) j3) (ret (length (jn_candidates j)))) Q E) E) E) E s"
    proof (rule wp_recover_candidates [OF h0 b st])
      fix m' w t assume "placed en t0 (restated j (jn_state j) m' w) t" "set (jn_moved j) \<subseteq> set m'"
      then show "H t" using H st by blast
    next
      fix s' m' w
      assume h1: "holds en t0 H (restated j (jn_state j) m' w) s'" and all: "ji_relative_path ` set (jn_candidates j) \<subseteq> set m'"
        and mono: "set (jn_moved j) \<subseteq> set m'"
      let ?j1 = "restated j (jn_state j) m' w"
      from holds_placed [OF h1] have g1: "good_journal en ?j1" and c1: "core t0 ?j1 (dk_tree s')" by auto
      have st1: "jn_state ?j1 \<notin> {Deleting, Deleted}" using st by simp
      have al: "set (map ji_relative_path (jn_candidates ?j1)) \<subseteq> set (jn_moved ?j1)" using all by simp
      have c2: "core t0 (restated ?j1 Quarantined m' w) (dk_tree s')"
        using c1 st by (simp add: core_def untouched_def)
      have dm: "distinct m'" "set m' \<subseteq> set (map ji_relative_path (jn_candidates ?j1))" using g1 by (simp_all add: good_journal_def)
      have "wp (write_quarantine_journal en (tx_of ?j1) (restated ?j1 Quarantined m' w)) (\<lambda>j2.
          wp (write_quarantine_journal en (tx_of j) (j2\<lparr>jn_state := Deleting\<rparr>)) (\<lambda>j3.
          wp (thn (finish_quarantine_delete en (tx_of j) j3) (ret (length (jn_candidates j)))) Q E) E) E s'"
      proof (rule wp_write_journal [OF h1 c2 dm])
        fix t assume "placed en t0 ?j1 t"
        then show "H t" using H mono st by blast
      next
        fix t v assume "placed en t0 (restated ?j1 Quarantined m' v) t"
        then have "placed en t0 (restated j Quarantined m' v) t" by simp
        then show "H t" by (rule H') (use all in \<open>simp_all add: state_settled_def\<close>)
      next
        fix s2 v assume "holds en t0 H (restated ?j1 Quarantined m' v) s2"
        then have h2: "holds en t0 H (restated j Quarantined m' v) s2" by simp
        let ?j2 = "restated j Quarantined m' v"
        from holds_placed [OF h2] have c3: "core t0 ?j2 (dk_tree s2)" by auto
        have gn: "gone t0 (dk_tree s2) (payload_of ?j2) (item_path item)" if "item \<in> set (jn_candidates ?j2)" for item
          by (rule all_gone [OF c3 _ _ that]) (use all in simp_all)
        have c4: "core t0 (restated ?j2 Deleting m' v) (dk_tree s2)"
          using c3 gn by (simp add: core_def untouched_def removed_def gone_def)
        have "wp (write_quarantine_journal en (tx_of ?j2) (restated ?j2 Deleting m' v)) (\<lambda>j3.
            wp (thn (finish_quarantine_delete en (tx_of j) j3) (ret (length (jn_candidates j)))) Q E) E s2"
        proof (rule wp_write_journal [OF h2 c4])
          show "distinct m'" "set m' \<subseteq> set (map ji_relative_path (jn_candidates ?j2))" using dm by simp_all
        next
          fix t assume "placed en t0 ?j2 t"
          then show "H t" by (rule H') (use all in \<open>simp_all add: state_settled_def\<close>)
        next
          fix t x assume "placed en t0 (restated ?j2 Deleting m' x) t"
          then have "placed en t0 (restated j Deleting m' x) t" by simp
          then show "H t" by (rule H') (simp_all add: state_settled_def)
        next
          fix s3 x assume "holds en t0 H (restated ?j2 Deleting m' x) s3"
          then have h3: "holds en t0 H (restated j Deleting m' x) s3" by simp
          from fin [OF h3 nd]
          show "wp (thn (finish_quarantine_delete en (tx_of j) (restated ?j2 Deleting m' x)) (ret (length (jn_candidates j)))) Q E s3" by simp
        qed
        then show "wp (write_quarantine_journal en (tx_of j) ((restated ?j1 Quarantined m' v)\<lparr>jn_state := Deleting\<rparr>)) (\<lambda>j3.
            wp (thn (finish_quarantine_delete en (tx_of j) j3) (ret (length (jn_candidates j)))) Q E) E s2" by simp
      qed
      then show "wp (write_quarantine_journal en (tx_of j) ((restated j (jn_state j) m' w)\<lparr>jn_state := Quarantined\<rparr>)) (\<lambda>j2.
          wp (write_quarantine_journal en (tx_of j) (j2\<lparr>jn_state := Deleting\<rparr>)) (\<lambda>j3.
          wp (thn (finish_quarantine_delete en (tx_of j) j3) (ret (length (jn_candidates j)))) Q E) E) E s'" by simp
    qed simp
    moreover have "validate_payload_root (dk_tree s) (payload_of j) j = Inr ()"
      using c st by (simp add: core_def validate_payload_root_def)
    ultimately show ?thesis using False by (simp add: wp_eqs wp_funs)
  qed
  have z: "Q 0 s" if "jn_state j = Deleted"
  proof -
    have e: "restated j Deleted (jn_moved j) (jn_updated_at j) = j" using that by (cases j) simp
    show ?thesis
      using post [where m = "jn_moved j" and w = "jn_updated_at j" and s' = s, unfolded e, OF h] that by simp
  qed
  show ?thesis
    unfolding recover_quarantine_def Let_def
    using tid root placed_reads [OF p] preflight_ok [OF p b s] rest z
    by (auto simp: wp_eqs is_directory_def)
qed


section \<open>Quarantine\<close>

lemma kept_same:
  assumes "same_but_files (tx_of j) t t'" "good_journal en j" "a \<in> set (jn_candidates j)" "kept t0 t (payload_of j) (item_path a)"
  shows "kept t0 t' (payload_of j) (item_path a)"
proof -
  have "safe_relative_text (ji_relative_path a)" using assms(2,3) by (simp add: good_journal_def)
  then show ?thesis
    using assms(4) clear_same [OF assms(1) clear_item] clear_same [OF assms(1) clear_paths(3)] by (simp add: kept_def)
qed

text \<open>The candidates a transaction takes: named by two plain components, as the preview saw them, in place.\<close>

definition plain_name :: "string \<Rightarrow> bool" where
  "plain_name n = (n \<noteq> [] \<and> CHR ''/'' \<notin> set n \<and> hd n \<noteq> CHR ''.'')"

definition ready :: "retention_env \<Rightarrow> tree \<Rightarrow> deletion_candidate list \<Rightarrow> bool" where
  "ready en t0 cs =
     (distinct (map dc_path cs) \<and>
      (\<forall>c\<in>set cs. (\<exists>run book. dc_path c = [run, book] \<and> plain_name run \<and> plain_name book \<and> is_directory t0 [run]) \<and>
        length (dc_manifest_sha256 c) = 64 \<and> validate_candidate en t0 c = Inr ()))"

lemma plain_parts:
  assumes "plain_name run" "plain_name book"
  shows "relative_parts (py_join ''/'' [run, book]) = [run, book]" "safe_relative_text (py_join ''/'' [run, book])"
proof -
  have "py_split (CHR ''/'') (py_join [CHR ''/''] [run, book]) = [run, book]"
    using assms by (intro split_join) (auto simp: plain_name_def)
  then show r: "relative_parts (py_join ''/'' [run, book]) = [run, book]"
    using assms by (auto simp: relative_parts_def plain_name_def)
  have "\<not> unsafe_part run" "\<not> unsafe_part book"
    using assms by (auto simp: plain_name_def unsafe_part_def py_startswith_def neq_Nil_conv)
  moreover have "\<not> is_absolute (py_join ''/'' [run, book])"
    using assms by (auto simp: plain_name_def is_absolute_def py_startswith_def neq_Nil_conv)
  ultimately show "safe_relative_text (py_join ''/'' [run, book])"
    by (simp only: safe_relative_text_def r) simp
qed

lemma ready_item:
  assumes "ready en t0 cs" "c \<in> set cs"
  shows "item_path (candidate_to_journal c) = dc_path c" "safe_relative_text (ji_relative_path (candidate_to_journal c))"
    "length (ji_manifest_sha256 (candidate_to_journal c)) = 64"
    "validate_journal_candidate en t (dc_path c) (candidate_to_journal c) = validate_candidate en t c"
proof -
  obtain run book where p: "dc_path c = [run, book]" "plain_name run" "plain_name book"
    using assms by (auto simp: ready_def)
  show "item_path (candidate_to_journal c) = dc_path c" "safe_relative_text (ji_relative_path (candidate_to_journal c))"
    using plain_parts [OF p(2,3)] by (simp_all add: candidate_to_journal_def p(1))
  show "length (ji_manifest_sha256 (candidate_to_journal c)) = 64"
    using assms by (simp add: candidate_to_journal_def ready_def)
  show "validate_journal_candidate en t (dc_path c) (candidate_to_journal c) = validate_candidate en t c"
    by (simp add: validate_journal_candidate_def validate_candidate_def candidate_to_journal_def)
qed

lemma ready_base: "ready en t0 cs \<Longrightarrow> base_ok en t0 (map candidate_to_journal cs)"
  unfolding base_ok_def by (auto simp: ready_item ready_def)

lemma ready_paths:
  assumes "ready en t0 cs" "c \<in> set cs" "c' \<in> set cs" "ji_relative_path (candidate_to_journal c) = ji_relative_path (candidate_to_journal c')"
  shows "c = c'"
proof -
  have "dc_path c = dc_path c'" using assms ready_item(1) by metis
  with assms(1-3) show ?thesis by (auto simp: ready_def distinct_map dest: inj_onD)
qed

lemma wp_quarantine_candidates:
  assumes "holds en t0 H (restated j Quarantining m u) s" "ready en t0 all" "jn_candidates j = map candidate_to_journal all"
    "set cs \<subseteq> set all" "distinct cs"
    "\<And>c. c \<in> set cs \<Longrightarrow> kept t0 (dk_tree s) (payload_of j) (dc_path c) \<and> ji_relative_path (candidate_to_journal c) \<notin> set m"
    "\<And>m' w t. placed en t0 (restated j Quarantining m' w) t \<Longrightarrow> H t"
    "\<And>s' m' w. holds en t0 H (restated j Quarantining m' w) s' \<Longrightarrow>
      set m' = set m \<union> (\<lambda>c. ji_relative_path (candidate_to_journal c)) ` set cs \<Longrightarrow> Q (restated j Quarantining m' w) s'"
  shows "wp (quarantine_candidates en (tx_of j) cs (restated j Quarantining m u)) Q E s"
  using assms
proof (induction cs arbitrary: m u s)
  case Nil
  then show ?case by (simp add: wp_ret)
next
  case (Cons c cs)
  let ?j = "restated j Quarantining m u" and ?item = "candidate_to_journal c"
  note h = Cons.prems(1)
  have cin: "c \<in> set all" using Cons.prems(4) by simp
  note r = ready_item [OF Cons.prems(2) cin]
  have i: "?item \<in> set (jn_candidates ?j)" using cin Cons.prems(3) by simp
  have b: "base_ok en t0 (jn_candidates ?j)" using ready_base [OF Cons.prems(2)] Cons.prems(3) by simp
  have st: "jn_state ?j \<notin> {Deleting, Deleted}" by simp
  from holds_placed [OF h] have g: "good_journal en ?j" and co: "core t0 ?j (dk_tree s)" by auto
  have k: "kept t0 (dk_tree s) (payload_of ?j) (item_path ?item)" and nm: "ji_relative_path ?item \<notin> set m"
    using Cons.prems(6) [of c] r(1) by simp_all
  have H: "placed en t0 ?j t \<Longrightarrow> H t" for t using Cons.prems(7) by blast
  have v: "validate_candidate en (dk_tree s) c = Inr ()"
    using kept_facts(3) [OF g co b i st k] r(1,4) by simp
  let ?m = "m @ [ji_relative_path ?item]"
  let ?rest = "wp (bnd (write_quarantine_journal en (tx_of ?j) (restated ?j Quarantining ?m u)) (\<lambda>j'. quarantine_candidates en (tx_of j) cs j')) Q E"
  have rest: "?rest s'" if h': "holds en t0 H ?j s'" and gn: "gone t0 (dk_tree s') (payload_of ?j) (item_path ?item)"
    and ks: "\<And>a. a \<in> set (jn_candidates ?j) \<Longrightarrow> a \<noteq> ?item \<Longrightarrow> kept t0 (dk_tree s) (payload_of ?j) (item_path a) \<Longrightarrow>
        kept t0 (dk_tree s') (payload_of ?j) (item_path a)" for s'
  proof -
    from holds_placed [OF h'] have g': "good_journal en ?j" and c': "core t0 ?j (dk_tree s')" by auto
    have isd: "a \<in> set (jn_candidates ?j) \<Longrightarrow> is_directory t0 (item_path a)" for a
      using item_facts(5) [OF g' c' b] by simp
    have same: "a = ?item" if "a \<in> set (jn_candidates j)" "ji_relative_path a = ji_relative_path ?item" for a
      using g' i that by (auto simp: good_journal_def distinct_map dest: inj_onD)
    have cm: "core t0 (restated ?j Quarantining ?m u) (dk_tree s')"
      by (rule core_restated [OF c' st _ _ isd]) (use gn same in auto)
    have dm: "distinct ?m" "set ?m \<subseteq> set (map ji_relative_path (jn_candidates ?j))"
      using g' nm i by (auto simp: good_journal_def)
    have "wp (write_quarantine_journal en (tx_of ?j) (restated ?j Quarantining ?m u))
        (\<lambda>j'. wp (quarantine_candidates en (tx_of j) cs j') Q E) E s'"
    proof (rule wp_write_journal [OF h' cm dm H])
      fix t w assume "placed en t0 (restated ?j Quarantining ?m w) t"
      then show "H t" using Cons.prems(7) [where m' = ?m and w = w and t = t] by simp
    next
      fix s'' w assume h2: "holds en t0 H (restated ?j Quarantining ?m w) s''"
        and sf: "same_but_files (tx_of ?j) (dk_tree s') (dk_tree s'')"
      have h3: "holds en t0 H (restated j Quarantining ?m w) s''" using h2 by simp
      have kk: "kept t0 (dk_tree s'') (payload_of j) (dc_path c') \<and> ji_relative_path (candidate_to_journal c') \<notin> set ?m" if c': "c' \<in> set cs" for c'
      proof -
        have al: "c' \<in> set all" and ne: "c' \<noteq> c" using c' Cons.prems(4,5) by auto
        have nr: "ji_relative_path (candidate_to_journal c') \<noteq> ji_relative_path ?item"
          using ready_paths [OF Cons.prems(2) al cin] ne by blast
        then have ni: "candidate_to_journal c' \<noteq> ?item" by metis
        have ci: "candidate_to_journal c' \<in> set (jn_candidates ?j)" using al Cons.prems(3) by simp
        have "kept t0 (dk_tree s) (payload_of ?j) (item_path (candidate_to_journal c'))"
          using Cons.prems(6) [of c'] c' ready_item(1) [OF Cons.prems(2) al] by simp
        from kept_same [OF sf g' ci ks [OF ci ni this]] nr Cons.prems(6) [of c'] c'
        show ?thesis using ready_item(1) [OF Cons.prems(2) al] by simp
      qed
      have "wp (quarantine_candidates en (tx_of j) cs (restated j Quarantining ?m w)) Q E s''"
      proof (rule Cons.IH [OF h3 Cons.prems(2,3)])
        show "holds en t0 H (restated j Quarantining m' x) s3 \<Longrightarrow>
            set m' = set ?m \<union> (\<lambda>c. ji_relative_path (candidate_to_journal c)) ` set cs \<Longrightarrow> Q (restated j Quarantining m' x) s3" for s3 m' x
          by (rule Cons.prems(8)) auto
      qed (use Cons.prems(4,5,7) kk in auto)
      then show "wp (quarantine_candidates en (tx_of j) cs (restated ?j Quarantining ?m w)) Q E s''" by simp
    qed
    then show ?thesis by (simp add: wp_eqs)
  qed
  have "wp (ensure_payload_parent (butlast (payload_of ?j @ item_path ?item)))
      (\<lambda>_. wp (rename_path (item_path ?item) (payload_of ?j @ item_path ?item)) (\<lambda>_. ?rest) E) E s"
    by (rule wp_take_candidate [OF h b i st k H]) (use rest in auto)
  with v show ?case
    by (simp add: Let_def wp_look wp_thn r(1) wp_funs) (simp add: candidate_to_journal_def)
qed

end
