(* ===== verification/RetentionRuns.thy ===== *)
theory RetentionRuns
  imports RetentionLaws
begin

text \<open>Whole runs of the retention transaction: what a crash leaves, and what recovery makes of it.\<close>

section \<open>Staging\<close>

text \<open>Before it is published, a transaction is only in its staging directory.\<close>

definition staged :: "tree \<Rightarrow> string \<Rightarrow> tree \<Rightarrow> bool" where
  "staged t0 tid t = (\<forall>q. q \<noteq> quarantine_root \<and> take 2 q \<noteq> staging_path tid \<longrightarrow> node_at t q = node_at t0 q)"

text \<open>The names of a transaction are not in use.\<close>

definition unused :: "tree \<Rightarrow> string \<Rightarrow> bool" where
  "unused t0 tid = (\<forall>q. take 2 q = transaction_path tid \<or> take 2 q = staging_path tid \<longrightarrow> node_at t0 q = None)"

definition staging_shape :: "string \<Rightarrow> int \<times> int \<Rightarrow> int \<times> int \<Rightarrow> tree \<Rightarrow> bool" where
  "staging_shape tid d p t =
     (is_directory t quarantine_root \<and> node_at t (staging_path tid) = Some (Directory (fst d) (snd d)) \<and>
      tx_files t (staging_path tid) \<and>
      node_at t (payload_path (staging_path tid)) = Some (Directory (fst p) (snd p)) \<and>
      (\<forall>x r. node_at t (payload_path (staging_path tid) @ x # r) = None))"

lemma staging_names:
  "length (staging_path tid) = 2" "take 2 (staging_path tid @ r) = staging_path tid" "staging_path tid \<noteq> transaction_path tid"
  "staging_path tid \<noteq> quarantine_root" "butlast (staging_path tid) = quarantine_root"
  "butlast (payload_path (staging_path tid)) = staging_path tid" "staging_path tid @ x # r \<noteq> quarantine_root"
  "take 2 (transaction_path tid @ r) = transaction_path tid" "butlast (transaction_path tid) = quarantine_root"
  "length (transaction_path tid) = 2"
  by (simp_all add: staging_path_def transaction_path_def quarantine_root_def payload_path_def QUARANTINE_STAGING_PREFIX_def)

lemma staged_same:
  assumes "staged t0 tid t" "same_but_files (staging_path tid) t t'"
  shows "staged t0 tid t'"
  unfolding staged_def
proof (intro allI impI)
  fix q assume q: "q \<noteq> quarantine_root \<and> take 2 q \<noteq> staging_path tid"
  then have "node_at t' q = node_at t q"
    using staging_names(2) [of tid] by (intro same_but_filesD [OF assms(2)]) metis
  with q assms(1) show "node_at t' q = node_at t0 q" by (simp add: staged_def)
qed

lemma shape_same:
  assumes "staging_shape tid d p t" "same_but_files (staging_path tid) t t'" "tx_files t' (staging_path tid)"
  shows "staging_shape tid d p t'"
proof -
  have "node_at t' q = node_at t q"
    if "q = quarantine_root \<or> q = staging_path tid \<or> q = payload_path (staging_path tid) @ r" for q r
    by (rule same_but_filesD [OF assms(2)])
      (use that in \<open>auto simp: staging_path_def quarantine_root_def payload_path_def\<close>)
  then have "node_at t' quarantine_root = node_at t quarantine_root" "node_at t' (staging_path tid) = node_at t (staging_path tid)"
      "node_at t' (payload_path (staging_path tid) @ r) = node_at t (payload_path (staging_path tid) @ r)" for r by blast+
  moreover from this(3) [of "[]"] have "node_at t' (payload_path (staging_path tid)) = node_at t (payload_path (staging_path tid))" by simp
  ultimately show ?thesis using assms(1,3) by (simp add: staging_shape_def is_directory_def)
qed

text \<open>Publishing: the staging directory becomes the transaction's.\<close>

lemma publish:
  assumes sh: "staging_shape tid d p t" and sg: "staged t0 tid t" and un: "unused t0 tid" and g: "good_journal en j"
    and j: "jn_transaction_id j = tid" "jn_state j = Prepared" "jn_moved j = []"
      "(jn_transaction_device j, jn_transaction_inode j) = d" "(jn_payload_device j, jn_payload_inode j) = p"
    and doc: "node_at t (journal_path (staging_path tid)) = Some (Document b (Some (journal_json j)))"
  defines "t' \<equiv> moved_tree (staging_path tid) (transaction_path tid) t"
  shows "placed en t0 j t'" "state_settled t0 j t'"
proof -
  let ?s = "staging_path tid" and ?tx = "transaction_path tid"
  have n: "node_at t' (?tx @ r) = node_at t (?s @ r)" for r
    unfolding t'_def by (simp add: tree_simps staging_names)
  have o: "node_at t' q = (if take 2 q = ?s then None else node_at t q)" if "take 2 q \<noteq> ?tx" for q
    using that unfolding t'_def by (simp add: tree_simps staging_names)
  have fr: "node_at t' q = node_at t0 q" if "q \<noteq> quarantine_root" "take 2 q \<noteq> ?tx" for q
    using o [OF that(2)] sg un that by (auto simp: staged_def unused_def)
  have root: "node_at t' quarantine_root = node_at t quarantine_root"
  proof -
    have "take 2 quarantine_root = quarantine_root" "quarantine_root \<noteq> ?tx" "quarantine_root \<noteq> ?s"
      by (simp_all add: quarantine_root_def transaction_path_def staging_path_def)
    then show ?thesis using o [of quarantine_root] by simp
  qed
  have pl: "payload_of j @ r = ?tx @ QUARANTINE_PAYLOAD_NAME # r" "payload_path ?s @ r = ?s @ QUARANTINE_PAYLOAD_NAME # r"
      "payload_of j = ?tx @ [QUARANTINE_PAYLOAD_NAME]" "payload_path ?s = ?s @ [QUARANTINE_PAYLOAD_NAME]" for r
    using j(1) by (simp_all add: payload_path_def)
  have k: "kept t0 t' (payload_of j) (item_path a)" if a: "a \<in> set (jn_candidates j)" for a
  proof -
    have safe: "safe_relative_text (ji_relative_path a)" using g a by (simp add: good_journal_def)
    note i = item_not_tx [OF safe]
    obtain x r where xr: "item_path a = x # r" using i(3) by (cases "item_path a") auto
    have "node_at t' (item_path a @ q) = node_at t0 (item_path a @ q)" for q
      using i j(1) by (intro fr) auto
    moreover have "node_at t' (payload_of j @ item_path a @ q) = None" for q
      using sh n unfolding staging_shape_def pl xr by simp
    ultimately show ?thesis by (simp add: kept_def)
  qed
  have tf: "tx_files t' ?tx" using sh unfolding tx_files_def staging_shape_def n by simp
  have unt: "node_at t' q = node_at t0 q" if "untouched j q" for q
    using that j(1) by (intro fr) (auto simp: untouched_def)
  have txn: "node_at t' (tx_of j) = node_at t ?s" using n [of "[]"] j(1) by simp
  have ch: "node_at t' (payload_of j) = Some (Directory (fst p) (snd p))" "node_at t' (payload_of j @ [x]) = None" for x
    using sh n [of "[QUARANTINE_PAYLOAD_NAME]"] n [of "[QUARANTINE_PAYLOAD_NAME, x]"] by (simp_all add: pl staging_shape_def)
  have core: "core t0 j t'"
    using sh k tf unt root j ch unfolding core_def txn staging_shape_def by (auto simp: is_directory_def)
  have "node_at t' (journal_path (tx_of j)) = node_at t (journal_path ?s)"
    using n j(1) by (simp add: journal_path_def)
  with doc core g show "placed en t0 j t'" by (simp add: placed_def)
  show "state_settled t0 j t'" using k j by (simp add: state_settled_def)
qed


section \<open>A run\<close>

text \<open>What a crash of a run may leave: nothing but a staging directory, or a published transaction recovery accepts.\<close>

definition recoverable_tree :: "retention_env \<Rightarrow> tree \<Rightarrow> deletion_candidate list \<Rightarrow> string \<Rightarrow> string \<Rightarrow> tree \<Rightarrow> bool" where
  "recoverable_tree en t0 cs digest tid t =
     (\<exists>j. placed en t0 j t \<and> state_settled t0 j t \<and> jn_transaction_id j = tid \<and> jn_candidates j = map candidate_to_journal cs \<and>
        jn_backup_manifest_sha256 j = digest)"

definition crash_tree :: "retention_env \<Rightarrow> tree \<Rightarrow> deletion_candidate list \<Rightarrow> string \<Rightarrow> string \<Rightarrow> tree \<Rightarrow> bool" where
  "crash_tree en t0 cs digest tid t = (staged t0 tid t \<or> recoverable_tree en t0 cs digest tid t)"

definition prepared_tree :: "retention_env \<Rightarrow> tree \<Rightarrow> deletion_candidate list \<Rightarrow> string \<Rightarrow> string \<Rightarrow> tree \<Rightarrow> bool" where
  "prepared_tree en t0 cs digest tid t =
     (\<exists>j. placed en t0 j t \<and> state_settled t0 j t \<and> jn_state j = Prepared \<and> jn_transaction_id j = tid \<and>
        jn_candidates j = map candidate_to_journal cs \<and> jn_backup_manifest_sha256 j = digest)"

lemma wp_publish_run:
  assumes h: "holds en t0 (crash_tree en t0 cs digest (jn_transaction_id j)) j s" and r: "ready en t0 cs"
    and j: "jn_state j = Prepared" "jn_moved j = []" "jn_candidates j = map candidate_to_journal cs" "jn_backup_manifest_sha256 j = digest"
    and s: "state_settled t0 j (dk_tree s)"
    and post: "\<And>s' m w. holds en t0 (crash_tree en t0 cs digest (jn_transaction_id j)) (restated j Deleted m w) s' \<Longrightarrow> Q (length cs) s'"
  shows "wp (bnd (write_quarantine_journal en (tx_of j) (j\<lparr>jn_state := Quarantining\<rparr>)) (\<lambda>j1.
          bnd (quarantine_candidates en (tx_of j) cs j1) (\<lambda>j2.
          bnd (write_quarantine_journal en (tx_of j) (j2\<lparr>jn_state := Quarantined\<rparr>)) (\<lambda>j3.
          bnd (write_quarantine_journal en (tx_of j) (j3\<lparr>jn_state := Deleting\<rparr>)) (\<lambda>j4.
          thn (finish_quarantine_delete en (tx_of j) j4) (ret (length cs))))))) Q E s"
proof -
  let ?H = "crash_tree en t0 cs digest (jn_transaction_id j)"
  have H: "?H t" if "placed en t0 (restated j st m w) t" "state_settled t0 (restated j st m w) t" for st m w t
    unfolding crash_tree_def recoverable_tree_def
    by (rule disjI2, rule exI [of _ "restated j st m w"]) (use that j in simp)
  have free: "state_settled t0 (restated j st m w) t" if "st \<in> {Quarantining, Deleting, Deleted}" for st m w t
    using that by (auto simp: state_settled_def)
  from holds_placed [OF h] have p: "placed en t0 j (dk_tree s)" and g: "good_journal en j" and c: "core t0 j (dk_tree s)" by auto
  have self: "j = restated j Prepared [] (jn_updated_at j)" using j by (cases j) simp
  have kept0: "kept t0 (dk_tree s) (payload_of j) (item_path a)" if "a \<in> set (jn_candidates j)" for a
    using s j(1) that by (simp add: state_settled_def)
  have c1: "core t0 (restated j Quarantining [] (jn_updated_at j)) (dk_tree s)"
    using c j by (simp add: core_def untouched_def)
  let ?k1 = "\<lambda>j4. wp (finish_quarantine_delete en (tx_of j) j4) (\<lambda>_. Q (length cs)) E"
  let ?k2 = "\<lambda>j3. wp (write_quarantine_journal en (tx_of j) (j3\<lparr>jn_state := Deleting\<rparr>)) ?k1 E"
  let ?k3 = "\<lambda>j2. wp (write_quarantine_journal en (tx_of j) (j2\<lparr>jn_state := Quarantined\<rparr>)) ?k2 E"
  have k1: "?k1 (restated j Deleting m w) s'" if h': "holds en t0 ?H (restated j Deleting m w) s'" for s' m w
  proof -
    let ?k = "restated j Deleting m w"
    have "wp (finish_quarantine_delete en (tx_of ?k) ?k) (\<lambda>_. Q (length cs)) E s'"
    proof (rule wp_finish_delete [OF h'])
      fix t v assume "placed en t0 (restated ?k Deleted (jn_moved ?k) v) t"
      then have "placed en t0 (restated j Deleted m v) t" by simp
      then show "?H t" by (rule H) (rule free, simp)
    next
      fix s'' v assume "holds en t0 ?H (restated ?k Deleted (jn_moved ?k) v) s''"
      then have "holds en t0 ?H (restated j Deleted m v) s''" by simp
      then show "Q (length cs) s''" by (rule post)
    qed (use H free in auto)
    then show ?thesis by simp
  qed
  have k2: "?k2 (restated j Quarantined m w) s'" if h': "holds en t0 ?H (restated j Quarantined m w) s'"
    and al: "set (map ji_relative_path (jn_candidates j)) \<subseteq> set m" for s' m w
  proof -
    let ?k = "restated j Quarantined m w"
    from holds_placed [OF h'] have g': "good_journal en ?k" and c': "core t0 ?k (dk_tree s')" by auto
    have gn: "gone t0 (dk_tree s') (payload_of ?k) (item_path item)" if "item \<in> set (jn_candidates ?k)" for item
      by (rule all_gone [OF c' _ _ that]) (use al in simp_all)
    have c2: "core t0 (restated ?k Deleting m w) (dk_tree s')"
      using c' gn by (simp add: core_def untouched_def removed_def gone_def)
    have "wp (write_quarantine_journal en (tx_of ?k) (restated ?k Deleting m w)) ?k1 E s'"
    proof (rule wp_write_journal [OF h' c2])
      show "distinct m" "set m \<subseteq> set (map ji_relative_path (jn_candidates ?k))" using g' by (simp_all add: good_journal_def)
    next
      fix t assume "placed en t0 ?k t"
      then show "?H t" by (rule H) (use al in \<open>simp add: state_settled_def\<close>)
    next
      fix t x assume "placed en t0 (restated ?k Deleting m x) t"
      then have "placed en t0 (restated j Deleting m x) t" by simp
      then show "?H t" by (rule H) (rule free, simp)
    next
      fix s3 x assume "holds en t0 ?H (restated ?k Deleting m x) s3"
      then have "holds en t0 ?H (restated j Deleting m x) s3" by simp
      from k1 [OF this] show "?k1 (restated ?k Deleting m x) s3" by simp
    qed
    then show ?thesis by simp
  qed
  have k3: "?k3 (restated j Quarantining m w) s'" if h': "holds en t0 ?H (restated j Quarantining m w) s'"
    and al: "set (map ji_relative_path (jn_candidates j)) \<subseteq> set m" for s' m w
  proof -
    let ?k = "restated j Quarantining m w"
    from holds_placed [OF h'] have g': "good_journal en ?k" and c': "core t0 ?k (dk_tree s')" by auto
    have c2: "core t0 (restated ?k Quarantined m w) (dk_tree s')"
      using c' by (simp add: core_def untouched_def)
    have "wp (write_quarantine_journal en (tx_of ?k) (restated ?k Quarantined m w)) ?k2 E s'"
    proof (rule wp_write_journal [OF h' c2])
      show "distinct m" "set m \<subseteq> set (map ji_relative_path (jn_candidates ?k))" using g' by (simp_all add: good_journal_def)
    next
      fix t assume "placed en t0 ?k t"
      then show "?H t" by (rule H) (rule free, simp)
    next
      fix t x assume "placed en t0 (restated ?k Quarantined m x) t"
      then have "placed en t0 (restated j Quarantined m x) t" by simp
      then show "?H t" by (rule H) (use al in \<open>simp add: state_settled_def\<close>)
    next
      fix s3 x assume "holds en t0 ?H (restated ?k Quarantined m x) s3"
      then have "holds en t0 ?H (restated j Quarantined m x) s3" by simp
      from k2 [OF this al] show "?k2 (restated ?k Quarantined m x) s3" by simp
    qed
    then show ?thesis by simp
  qed
  have loop: "wp (quarantine_candidates en (tx_of j) cs (restated j Quarantining [] w)) ?k3 E s'"
    if h': "holds en t0 ?H (restated j Quarantining [] w) s'"
      and sf: "same_but_files (tx_of j) (dk_tree s) (dk_tree s')" for s' w
  proof (rule wp_quarantine_candidates [OF h' r j(3) order_refl])
    show "distinct cs" using r by (simp add: ready_def distinct_map)
  next
    fix c assume c: "c \<in> set cs"
    then have ci: "candidate_to_journal c \<in> set (jn_candidates j)" using j by simp
    show "kept t0 (dk_tree s') (payload_of j) (dc_path c) \<and> ji_relative_path (candidate_to_journal c) \<notin> set []"
      using kept_same [OF sf g ci kept0 [OF ci]] ready_item(1) [OF r c] by simp
  next
    fix m' w t assume "placed en t0 (restated j Quarantining m' w) t"
    then show "?H t" by (rule H) (rule free, simp)
  next
    fix s'' m' w assume "holds en t0 ?H (restated j Quarantining m' w) s''"
      "set m' = set [] \<union> (\<lambda>c. ji_relative_path (candidate_to_journal c)) ` set cs"
    then show "?k3 (restated j Quarantining m' w) s''" by (intro k3) (auto simp: j)
  qed
  have "wp (write_quarantine_journal en (tx_of j) (restated j Quarantining [] (jn_updated_at j)))
      (\<lambda>j1. wp (quarantine_candidates en (tx_of j) cs j1) ?k3 E) E s"
  proof (rule wp_write_journal_same [OF h c1])
    show "distinct []" "set [] \<subseteq> set (map ji_relative_path (jn_candidates j))" by simp_all
  next
    fix t assume pt: "placed en t0 j t" and sf: "same_but_files (tx_of j) (dk_tree s) t"
    have "state_settled t0 j t" using kept_same [OF sf g _ kept0] j by (simp add: state_settled_def)
    with pt H [where st = Prepared and m = "[]" and w = "jn_updated_at j" and t = t] self show "?H t" by metis
  next
    fix t w assume "placed en t0 (restated j Quarantining [] w) t"
    then show "?H t" by (rule H) (rule free, simp)
  qed (rule loop)
  moreover have "j\<lparr>jn_state := Quarantining\<rparr> = restated j Quarantining [] (jn_updated_at j)" using j by (cases j) simp
  ultimately show ?thesis by (simp add: wp_eqs wp_funs)
qed


lemma staging_made:
  assumes sg: "staged t0 tid t" and un: "unused t0 tid" and root: "is_directory t quarantine_root"
    and none: "\<And>q. take 2 q = staging_path tid \<Longrightarrow> node_at t q = None"
    and t2: "t2 = with_node (staging_path tid) (Directory d i) t"
    and t3: "t3 = with_node (payload_path (staging_path tid)) (Directory d' i') t2"
  shows "staged t0 tid t2" "staged t0 tid t3" "staging_shape tid (d, i) (d', i') t3"
    "node_at t2 (payload_path (staging_path tid)) = None" "path_is_dir t2 (staging_path tid)"
proof -
  have p: "take 2 (payload_path (staging_path tid) @ r) = staging_path tid" "payload_path (staging_path tid) \<noteq> staging_path tid"
      "take 2 (payload_path (staging_path tid)) = staging_path tid" "payload_path (staging_path tid) \<noteq> quarantine_root" for r
    by (simp_all add: payload_path_def staging_path_def quarantine_root_def)
  have n: "node_at t3 q = (if q = payload_path (staging_path tid) then Some (Directory d' i')
      else if q = staging_path tid then Some (Directory d i) else node_at t q)" for q
    by (simp add: t2 t3 tree_simps)
  show "staged t0 tid t2" "staged t0 tid t3"
    using sg p(3) staging_names(2) [of tid "[]"] unfolding staged_def n by (auto simp: t2 tree_simps)
  show "node_at t2 (payload_path (staging_path tid)) = None" "path_is_dir t2 (staging_path tid)"
    using none [OF p(3)] p(2) by (simp_all add: t2 tree_simps path_is_dir_def)
  have f: "tx_files t3 (staging_path tid)"
    unfolding tx_files_def n using none staging_names(2) by (simp add: payload_path_def)
  have c: "node_at t3 (payload_path (staging_path tid) @ x # r) = None" for x r
    unfolding n using none [OF p(1)] by (simp add: payload_path_def staging_names)
  show "staging_shape tid (d, i) (d', i') t3"
    using f c root p(2,4) staging_names(4) unfolding staging_shape_def n is_directory_def by (auto simp: n)
qed

lemma wp_write_staging:
  assumes sh: "staging_shape tid d p (dk_tree s)" and sg: "staged t0 tid (dk_tree s)" and sup: "supply_ok en s"
    and hist: "list_all (staged t0 tid) (dk_history s)"
    and post: "\<And>s' b. staging_shape tid d p (dk_tree s') \<Longrightarrow> staged t0 tid (dk_tree s') \<Longrightarrow> supply_ok en s' \<Longrightarrow>
      list_all (staged t0 tid) (dk_history s') \<Longrightarrow>
      node_at (dk_tree s') (journal_path (staging_path tid)) =
        Some (Document b (Some (journal_json (j\<lparr>jn_updated_at := rv_isoformat en (dk_clock s (dk_ticks s))\<rparr>)))) \<Longrightarrow>
      dk_uuids s' = dk_uuids s \<Longrightarrow>
      Q (j\<lparr>jn_updated_at := rv_isoformat en (dk_clock s (dk_ticks s))\<rparr>) s'"
  shows "wp (write_quarantine_journal en (staging_path tid) j) Q E s"
proof -
  let ?j = "j\<lparr>jn_updated_at := rv_isoformat en (dk_clock s (dk_ticks s))\<rparr>"
  let ?s = "s\<lparr>dk_ticks := Suc (dk_ticks s)\<rparr>"
  have "wp (write_json_atomically en (journal_path (staging_path tid)) (journal_json ?j)) (\<lambda>_. Q ?j) E ?s"
  proof (rule wp_write_json)
    show "node_at (dk_tree ?s) (staging_path tid) = Some (Directory (fst d) (snd d))" "tx_files (dk_tree ?s) (staging_path tid)"
      using sh by (simp_all add: staging_shape_def)
  next
    fix t1 t2 t3 b k
    assume a: "same_but_files (staging_path tid) (dk_tree ?s) t1" "same_but_files (staging_path tid) (dk_tree ?s) t2"
        "same_but_files (staging_path tid) (dk_tree ?s) t3" "tx_files t3 (staging_path tid)"
        "node_at t3 (journal_path (staging_path tid)) = Some (Document b (Some (journal_json ?j)))"
    have "staged t0 tid t1" "staged t0 tid t2" "staged t0 tid t3" using staged_same [OF sg] a(1-3) by simp_all
    moreover have "staging_shape tid d p t3" using shape_same [OF sh] a(3,4) by simp
    ultimately show "Q ?j (?s\<lparr>dk_ticks := k, dk_tree := t3, dk_history := t3 # t2 # t1 # dk_history ?s\<rparr>)"
      using a(5) sup hist by (intro post [where b = b]) simp_all
  qed
  then show ?thesis unfolding write_quarantine_journal_def Let_def wp_eqs by simp
qed

lemma wp_from_staging:
  assumes sg: "staged t0 tid (dk_tree s)" and un: "unused t0 tid" and root: "is_directory (dk_tree s) quarantine_root"
    and hist: "list_all (staged t0 tid) (dk_history s)" and sup: "supply_ok en s" and t: "is_transaction_id tid"
    and r: "ready en t0 cs" "cs \<noteq> []" and dg: "length digest = 64"
    and none: "\<And>q. take 2 q = staging_path tid \<Longrightarrow> node_at (dk_tree s) q = None"
    and post: "\<And>s' j t. holds en t0 (crash_tree en t0 cs digest tid) j s' \<Longrightarrow> jn_state j = Deleted \<Longrightarrow>
      jn_transaction_id j = tid \<Longrightarrow> jn_candidates j = map candidate_to_journal cs \<Longrightarrow> jn_backup_manifest_sha256 j = digest \<Longrightarrow>
      in_history t s' \<Longrightarrow> prepared_tree en t0 cs digest tid t \<Longrightarrow> Q (length cs) s'"
  shows "wp (run_transaction en cs digest tid) Q E s"
proof -
  let ?s = "staging_path tid" and ?tx = "transaction_path tid" and ?H = "crash_tree en t0 cs digest tid"
  let ?k = "dk_ticks s"
  define d where "d = (dk_device s, dk_inodes s ?k)"
  define p where "p = (dk_device s, dk_inodes s (Suc ?k))"
  define t2 where "t2 = with_node ?s (Directory (fst d) (snd d)) (dk_tree s)"
  define t3 where "t3 = with_node (payload_path ?s) (Directory (fst p) (snd p)) t2"
  note m = staging_made [OF sg un root none t2_def t3_def]
  define s3 where "s3 = s\<lparr>dk_ticks := Suc (Suc ?k), dk_tree := t3, dk_history := t3 # t2 # dk_history s\<rparr>"
  have sup3: "supply_ok en s3" using sup by (simp add: s3_def)
  have mk1: "wp (make_directory ?s) R E s = R () (s\<lparr>dk_ticks := Suc ?k, dk_tree := t2, dk_history := t2 # dk_history s\<rparr>)" for R
    using none [of ?s] root staging_names(1,5) [of tid]
    by (subst wp_make_directory) (auto simp: Let_def t2_def d_def is_directory_def)
  have mk2: "wp (make_directory (payload_path ?s)) R E (s\<lparr>dk_ticks := Suc ?k, dk_tree := t2, dk_history := t2 # dk_history s\<rparr>) = R () s3" for R
    using m(4,5) by (subst wp_make_directory) (simp_all add: Let_def t3_def p_def s3_def staging_names)
  have sh: "staging_shape tid d p (dk_tree s3)" using m(3) by (simp add: s3_def)
  have v: "validate_regular_directory (dk_tree s3) ?s l = Inr d" "validate_regular_directory (dk_tree s3) (payload_path ?s) l = Inr p" for l
    using sh by (simp_all add: staging_shape_def)
  define s4 where "s4 = s3\<lparr>dk_ticks := Suc (dk_ticks s3)\<rparr>"
  define created where "created = rv_isoformat en (dk_clock s3 (dk_ticks s3))"
  let ?j = "\<lambda>w. \<lparr>jn_transaction_id = tid, jn_created_at = created, jn_updated_at = w, jn_state = Prepared,
      jn_transaction_device = fst d, jn_transaction_inode = snd d, jn_payload_device = fst p, jn_payload_inode = snd p,
      jn_backup_manifest_sha256 = digest, jn_moved = [], jn_candidates = map candidate_to_journal cs\<rparr>"
  let ?rest = "\<lambda>j0. thn (rename_path ?s ?tx)
         (bnd (write_quarantine_journal en ?tx (j0\<lparr>jn_state := Quarantining\<rparr>)) (\<lambda>j1.
          bnd (quarantine_candidates en ?tx cs j1) (\<lambda>j2.
          bnd (write_quarantine_journal en ?tx (j2\<lparr>jn_state := Quarantined\<rparr>)) (\<lambda>j3.
          bnd (write_quarantine_journal en ?tx (j3\<lparr>jn_state := Deleting\<rparr>)) (\<lambda>j4.
          thn (finish_quarantine_delete en ?tx j4) (ret (length cs)))))))"
  have iso: "rv_fromisoformat en created \<noteq> None" "rv_fromisoformat en (rv_isoformat en (dk_clock s4 (dk_ticks s4))) \<noteq> None"
    using sup by (simp_all add: created_def s4_def s3_def supply_ok_def)
  define updated where "updated = rv_isoformat en (dk_clock s4 (dk_ticks s4))"
  have gj: "good_journal en (?j updated)"
    using t dg r iso ready_item(2,3) [OF r(1)] ready_paths [OF r(1)]
    by (auto simp: good_journal_def updated_def distinct_map inj_on_def ready_def)
  have "wp (write_quarantine_journal en ?s (?j [])) (\<lambda>j0. wp (?rest j0) Q E) E s4"
  proof (rule wp_write_staging [where d = d and p = p and ?t0.0 = t0])
    show "staging_shape tid d p (dk_tree s4)" "supply_ok en s4" using sh sup3 by (simp_all add: s4_def)
    show "staged t0 tid (dk_tree s4)" "list_all (staged t0 tid) (dk_history s4)"
      using m(1,2) hist by (simp_all add: s4_def s3_def)
  next
    fix s5 b
    assume a: "staging_shape tid d p (dk_tree s5)" "staged t0 tid (dk_tree s5)" "supply_ok en s5"
      "list_all (staged t0 tid) (dk_history s5)"
      "node_at (dk_tree s5) (journal_path ?s) =
        Some (Document b (Some (journal_json (?j []\<lparr>jn_updated_at := rv_isoformat en (dk_clock s4 (dk_ticks s4))\<rparr>))))"
    let ?t6 = "moved_tree ?s ?tx (dk_tree s5)"
    have a5: "node_at (dk_tree s5) (journal_path ?s) = Some (Document b (Some (journal_json (?j updated))))"
      using a(5) by (simp add: updated_def)
    have pub: "placed en t0 (?j updated) ?t6" "state_settled t0 (?j updated) ?t6"
      by (rule publish [OF a(1,2) un gj _ _ _ _ _ a5]; simp)+
    have "node_at (dk_tree s5) ?tx = node_at t0 ?tx"
      using a(2) unfolding staged_def by (simp add: transaction_path_def quarantine_root_def staging_path_def QUARANTINE_STAGING_PREFIX_def)
    also have "\<dots> = None" using un staging_names(8) [of tid "[]"] by (simp add: unused_def)
    finally have free: "node_at (dk_tree s5) ?tx = None" .
    have rn: "wp (rename_path ?s ?tx) R E s5 = R () (s5\<lparr>dk_tree := ?t6, dk_history := ?t6 # dk_history s5\<rparr>)" for R
    proof (rule wp_rename_path)
      show "node_at (dk_tree s5) ?s = Some (Directory (fst d) (snd d))" "path_is_dir (dk_tree s5) (butlast ?tx)"
        using a(1) by (auto simp: staging_shape_def staging_names is_directory_def)
      show "take (length ?s) ?tx \<noteq> ?s" "take (length ?tx) ?s \<noteq> ?tx"
        using staging_names(1-3) [of tid] staging_names(8,10) [of tid] by (metis append_Nil2)+
      show "can_replace (dk_tree s5) (Directory (fst d) (snd d)) ?tx" using free by (simp add: can_replace_def)
    qed
    have hj: "holds en t0 (crash_tree en t0 cs digest (jn_transaction_id (?j updated))) (?j updated)
        (s5\<lparr>dk_tree := ?t6, dk_history := ?t6 # dk_history s5\<rparr>)"
    proof -
      have "?H ?t6" unfolding crash_tree_def recoverable_tree_def using pub by (intro disjI2 exI [of _ "?j updated"]) simp
      moreover have "list_all ?H (dk_history s5)" using a(4) by (auto simp: list_all_iff crash_tree_def)
      ultimately show ?thesis using pub(1) a(3) by (simp add: holds_def)
    qed
    let ?s6 = "s5\<lparr>dk_tree := ?t6, dk_history := ?t6 # dk_history s5\<rparr>"
    let ?run = "bnd (write_quarantine_journal en (tx_of (?j updated)) ((?j updated)\<lparr>jn_state := Quarantining\<rparr>)) (\<lambda>j1.
          bnd (quarantine_candidates en (tx_of (?j updated)) cs j1) (\<lambda>j2.
          bnd (write_quarantine_journal en (tx_of (?j updated)) (j2\<lparr>jn_state := Quarantined\<rparr>)) (\<lambda>j3.
          bnd (write_quarantine_journal en (tx_of (?j updated)) (j3\<lparr>jn_state := Deleting\<rparr>)) (\<lambda>j4.
          thn (finish_quarantine_delete en (tx_of (?j updated)) j4) (ret (length cs))))))"
    let ?post = "\<lambda>x s'. x = length cs \<and> (\<exists>m w. holds en t0 ?H (restated (?j updated) Deleted m w) s')"
    have prep: "prepared_tree en t0 cs digest tid ?t6"
      unfolding prepared_tree_def using pub by (intro exI [of _ "?j updated"]) simp
    have "wp ?run ?post E ?s6"
    proof (rule wp_publish_run [OF hj r(1)])
      show "state_settled t0 (?j updated) (dk_tree ?s6)" using pub(2) by simp
    next
      fix s' m w
      assume "holds en t0 (crash_tree en t0 cs digest (jn_transaction_id (?j updated))) (restated (?j updated) Deleted m w) s'"
      then show "?post (length cs) s'" by auto
    qed simp_all
    moreover have "wp ?run (\<lambda>_. in_history ?t6) (\<lambda>_ _. True) ?s6"
    proof -
      have "preserves (in_history ?t6) ?run" by (intro preserved)
      moreover have "in_history ?t6 ?s6" by (simp add: in_history_def)
      ultimately show ?thesis by (blast intro: wp_mono dest: preserves_wp)
    qed
    ultimately have "wp ?run (\<lambda>x s'. ?post x s' \<and> in_history ?t6 s') E ?s6" by (rule wp_conj)
    then have run: "wp ?run Q E ?s6"
    proof (rule wp_mono)
      fix x s' assume a: "?post x s' \<and> in_history ?t6 s'"
      then obtain m w where "holds en t0 ?H (restated (?j updated) Deleted m w) s'" by blast
      from post [OF this _ _ _ _ _ prep] a show "Q x s'" by simp
    qed
    from run have "wp (?rest (?j updated)) Q E s5" unfolding wp_thn rn by simp
    then show "wp (?rest (?j []\<lparr>jn_updated_at := rv_isoformat en (dk_clock s4 (dk_ticks s4))\<rparr>)) Q E s5"
      by (simp add: updated_def)
  qed
  then show ?thesis
    unfolding run_transaction_def Let_def wp_thn mk1 mk2 wp_bnd wp_look v sum.case case_prod_beta wp_current_time created_def s4_def
    by simp
qed


text \<open>What a run starts from.\<close>

definition retention_ready :: "retention_env \<Rightarrow> disk \<Rightarrow> deletion_candidate list \<Rightarrow> string \<Rightarrow> bool" where
  "retention_ready en s cs digest =
     (supply_ok en s \<and> dk_history s = [] \<and> ready en (dk_tree s) cs \<and> cs \<noteq> [] \<and> length digest = 64 \<and> is_directory (dk_tree s) [] \<and>
      (node_at (dk_tree s) quarantine_root = None \<or> is_directory (dk_tree s) quarantine_root) \<and>
      (\<forall>n. unused (dk_tree s) (dk_uuids s n)))"

lemma wp_quarantine_and_delete:
  assumes "retention_ready en s cs digest"
  shows "\<exists>tid. wp (quarantine_and_delete en cs digest) (\<lambda>x s'. x = length cs \<and>
      (\<exists>j. holds en (dk_tree s) (crash_tree en (dk_tree s) cs digest tid) j s' \<and> jn_state j = Deleted \<and> jn_transaction_id j = tid \<and>
        jn_candidates j = map candidate_to_journal cs) \<and>
      (\<exists>t. in_history t s' \<and> prepared_tree en (dk_tree s) cs digest tid t)) (\<lambda>_ _. False) s"
proof -
  let ?t0 = "dk_tree s"
  from assms have sup: "supply_ok en s" and hist: "dk_history s = []" and r: "ready en ?t0 cs" "cs \<noteq> []" and dg: "length digest = 64"
    and top: "is_directory ?t0 []" and root: "node_at ?t0 quarantine_root = None \<or> is_directory ?t0 quarantine_root"
    and un: "unused ?t0 (dk_uuids s n)" for n by (auto simp: retention_ready_def)
  have v: "check_each (validate_candidate en ?t0) cs = Inr ()" using r(1) by (simp add: check_each_Inr ready_def)
  let ?Q = "\<lambda>tid x s'. x = length cs \<and>
      (\<exists>j. holds en ?t0 (crash_tree en ?t0 cs digest tid) j s' \<and> jn_state j = Deleted \<and> jn_transaction_id j = tid \<and>
        jn_candidates j = map candidate_to_journal cs) \<and> (\<exists>t. in_history t s' \<and> prepared_tree en ?t0 cs digest tid t)"
  have q: "take 2 q = staging_path tid \<Longrightarrow> q \<noteq> quarantine_root" for q tid
    using staging_names(4) by (auto simp: quarantine_root_def staging_path_def)
  have run: "wp (run_transaction en cs digest tid) (?Q tid) (\<lambda>_ _. False) s'"
    if "staged ?t0 tid (dk_tree s')" "unused ?t0 tid" "is_directory (dk_tree s') quarantine_root"
      "list_all (staged ?t0 tid) (dk_history s')" "supply_ok en s'" "is_transaction_id tid"
      "\<And>q. take 2 q = staging_path tid \<Longrightarrow> node_at (dk_tree s') q = None" for tid s'
    by (rule wp_from_staging [OF that(1-6) r dg that(7)]) blast+
  show ?thesis
  proof (cases "is_directory ?t0 quarantine_root")
    case True
    let ?tid = "dk_uuids s (dk_ticks s)" and ?s = "s\<lparr>dk_ticks := Suc (dk_ticks s)\<rparr>"
    have "wp (run_transaction en cs digest ?tid) (?Q ?tid) (\<lambda>_ _. False) ?s"
    proof (rule run [OF _ un])
      show "is_transaction_id ?tid" using sup by (simp add: supply_ok_def)
      show "node_at (dk_tree ?s) q = None" if "take 2 q = staging_path ?tid" for q
        using un that by (simp add: unused_def)
    qed (use True sup hist in \<open>simp_all add: staged_def\<close>)
    with True v dg r(2) have "wp (quarantine_and_delete en cs digest) (?Q ?tid) (\<lambda>_ _. False) s"
      unfolding quarantine_and_delete_def by (auto simp: is_directory_def wp_eqs)
    then show ?thesis by blast
  next
    case False
    with root have none: "node_at ?t0 quarantine_root = None" by blast
    let ?tid = "dk_uuids s (Suc (dk_ticks s))"
    let ?u = "with_node quarantine_root (Directory (dk_device s) (dk_inodes s (dk_ticks s))) ?t0"
    let ?s1 = "s\<lparr>dk_ticks := Suc (dk_ticks s), dk_tree := ?u, dk_history := ?u # dk_history s\<rparr>"
    let ?s = "?s1\<lparr>dk_ticks := Suc (dk_ticks ?s1)\<rparr>"
    have sg: "staged ?t0 ?tid ?u" by (simp add: staged_def tree_simps)
    have "wp (run_transaction en cs digest ?tid) (?Q ?tid) (\<lambda>_ _. False) ?s"
    proof (rule run [OF _ un])
      show "is_transaction_id ?tid" using sup by (simp add: supply_ok_def)
      show "node_at (dk_tree ?s) q = None" if "take 2 q = staging_path ?tid" for q
        using un that q [OF that] by (simp add: unused_def tree_simps)
      show "is_directory (dk_tree ?s) quarantine_root" by (simp add: is_directory_def tree_simps)
    qed (use sup hist sg in simp_all)
    moreover have "wp (make_directory quarantine_root) R F s = R () ?s1" for R F
      using none top by (subst wp_make_directory) (auto simp: Let_def quarantine_root_def is_directory_def)
    ultimately have "wp (quarantine_and_delete en cs digest) (?Q ?tid) (\<lambda>_ _. False) s"
      unfolding quarantine_and_delete_def using v dg r(2) none by (simp add: wp_eqs)
    then show ?thesis by blast
  qed
qed


section \<open>Finishing and recovering\<close>

text \<open>The candidates and the payload are gone, and everything else is as it was.\<close>

definition deletion_finished :: "tree \<Rightarrow> deletion_candidate list \<Rightarrow> string \<Rightarrow> tree \<Rightarrow> bool" where
  "deletion_finished t0 cs tid t =
     ((\<forall>q. q \<noteq> quarantine_root \<and> take 2 q \<noteq> transaction_path tid \<and> (\<forall>c\<in>set cs. take 2 q \<noteq> dc_path c) \<longrightarrow>
         node_at t q = node_at t0 q) \<and>
      (\<forall>c\<in>set cs. removed t (dc_path c)) \<and> node_at t (payload_path (transaction_path tid)) = None)"

definition recovers :: "retention_env \<Rightarrow> tree \<Rightarrow> deletion_candidate list \<Rightarrow> string \<Rightarrow> string \<Rightarrow> tree \<Rightarrow> bool" where
  "recovers en t0 cs digest tid t =
     (\<forall>d. supply_ok en d \<and> dk_tree d = t \<longrightarrow>
        (\<exists>n d'. recover_quarantine en tid digest d = (Inr n, d') \<and> deletion_finished t0 cs tid (dk_tree d') \<and> (n = 0 \<or> n = length cs)))"

text \<open>A recovery started on the tree \<open>t\<close> that stops at the tree \<open>t'\<close>.\<close>

definition recovery_crash :: "retention_env \<Rightarrow> string \<Rightarrow> string \<Rightarrow> tree \<Rightarrow> tree \<Rightarrow> bool" where
  "recovery_crash en digest tid t t' =
     (\<exists>d. supply_ok en d \<and> dk_tree d = t \<and> dk_history d = [] \<and> t' \<in> set (dk_history (snd (recover_quarantine en tid digest d))))"

text \<open>A transaction that has left the state prepared.\<close>

definition under_way :: "retention_env \<Rightarrow> tree \<Rightarrow> deletion_candidate list \<Rightarrow> string \<Rightarrow> string \<Rightarrow> tree \<Rightarrow> bool" where
  "under_way en t0 cs digest tid t =
     (ready en t0 cs \<and>
      (\<exists>j. placed en t0 j t \<and> state_settled t0 j t \<and> jn_state j \<noteq> Prepared \<and> jn_transaction_id j = tid \<and>
        jn_candidates j = map candidate_to_journal cs \<and> jn_backup_manifest_sha256 j = digest))"

lemma deleted_finished:
  assumes "placed en t0 j t" "jn_state j = Deleted" "jn_transaction_id j = tid" "jn_candidates j = map candidate_to_journal cs"
    "ready en t0 cs"
  shows "deletion_finished t0 cs tid t"
proof -
  from assms have c: "core t0 j t" by (simp add: placed_def)
  have p: "item_path (candidate_to_journal x) = dc_path x" if "x \<in> set cs" for x
    using ready_item(1) [OF assms(5) that] .
  have "removed t (dc_path x)" if "x \<in> set cs" for x
    using c assms(2,4) that p [OF that] by (fastforce simp: core_def)
  moreover have "node_at t q = node_at t0 q"
    if "q \<noteq> quarantine_root" "take 2 q \<noteq> transaction_path tid" "\<forall>c\<in>set cs. take 2 q \<noteq> dc_path c" for q
    using c that assms(3,4) p by (auto simp: core_def untouched_def)
  ultimately show ?thesis using c assms(2,3) by (auto simp: deletion_finished_def core_def)
qed

lemma recoverable_recovers:
  assumes r: "ready en t0 cs" and t: "recoverable_tree en t0 cs digest tid t"
  shows "recovers en t0 cs digest tid t"
  unfolding recovers_def
proof (intro allI impI)
  fix d assume d: "supply_ok en d \<and> dk_tree d = t"
  from t obtain j where j: "placed en t0 j t" "state_settled t0 j t" "jn_transaction_id j = tid"
      "jn_candidates j = map candidate_to_journal cs" "jn_backup_manifest_sha256 j = digest"
    by (auto simp: recoverable_tree_def)
  have h: "holds en t0 (\<lambda>_. True) j d" using d j by (simp add: holds_def list_all_iff)
  have b: "base_ok en t0 (jn_candidates j)" using ready_base [OF r] j by simp
  have "wp (recover_quarantine en (jn_transaction_id j) (jn_backup_manifest_sha256 j))
      (\<lambda>n s'. deletion_finished t0 cs tid (dk_tree s') \<and> (n = 0 \<or> n = length cs)) (\<lambda>_ _. False) d"
  proof (rule wp_recover [OF h b])
    show "state_settled t0 j (dk_tree d)" using j d by simp
  next
    fix s' m w assume "holds en t0 (\<lambda>_. True) (restated j Deleted m w) s'"
    then have "placed en t0 (restated j Deleted m w) (dk_tree s')" by (simp add: holds_def)
    from deleted_finished [OF this _ _ _ r, of tid] j
    show "deletion_finished t0 cs tid (dk_tree s') \<and>
        ((if jn_state j = Deleted then 0 else length (jn_candidates j)) = 0 \<or>
         (if jn_state j = Deleted then 0 else length (jn_candidates j)) = length cs)" by simp
  qed simp_all
  from wp_no_raise [OF this] j
  show "\<exists>n d'. recover_quarantine en tid digest d = (Inr n, d') \<and> deletion_finished t0 cs tid (dk_tree d') \<and> (n = 0 \<or> n = length cs)"
    by auto
qed

lemma recovery_crash_keeps:
  assumes u: "under_way en t0 cs digest tid t" and c: "recovery_crash en digest tid t t'"
  shows "under_way en t0 cs digest tid t'"
proof -
  from u have r: "ready en t0 cs" by (simp add: under_way_def)
  from u obtain j where j: "placed en t0 j t" "state_settled t0 j t" "jn_state j \<noteq> Prepared" "jn_transaction_id j = tid"
      "jn_candidates j = map candidate_to_journal cs" "jn_backup_manifest_sha256 j = digest"
    by (auto simp: under_way_def)
  from c obtain d where d: "supply_ok en d" "dk_tree d = t" "dk_history d = []"
      "t' \<in> set (dk_history (snd (recover_quarantine en tid digest d)))"
    by (auto simp: recovery_crash_def)
  let ?H = "under_way en t0 cs digest tid"
  have h: "holds en t0 ?H j d" using d j by (simp add: holds_def)
  have b: "base_ok en t0 (jn_candidates j)" using ready_base [OF r] j by simp
  have H: "?H t" if "placed en t0 (restated j st m w) t" "state_settled t0 (restated j st m w) t" "st \<noteq> Prepared" for st m w t
    unfolding under_way_def by (intro conjI r exI [of _ "restated j st m w"]) (use that j in simp_all)
  have "wp (recover_quarantine en (jn_transaction_id j) (jn_backup_manifest_sha256 j))
      (\<lambda>n s'. list_all ?H (dk_history s')) (\<lambda>_ _. False) d"
  proof (rule wp_recover [OF h b])
    show "state_settled t0 j (dk_tree d)" using j d by simp
  next
    fix t m w assume p: "placed en t0 (restated j (jn_state j) m w) t" "set (jn_moved j) \<subseteq> set m" "jn_state j \<notin> {Deleting, Deleted}"
    show "?H t"
      by (rule H [OF p(1) _ j(3)]) (use p(2,3) j(2,3) in \<open>auto simp: state_settled_def split: quarantine_state.splits\<close>)
  next
    fix t st m w assume "placed en t0 (restated j st m w) t" "state_settled t0 (restated j st m w) t" "st \<in> {Quarantined, Deleting, Deleted}"
    then show "?H t" by (intro H) auto
  next
    fix s' m w assume "holds en t0 ?H (restated j Deleted m w) s'"
    then show "list_all ?H (dk_history s')" by (simp add: holds_def)
  qed
  from wp_no_raise [OF this] d(4) j(4,6) show ?thesis by (auto simp: list_all_iff)
qed

interpretation crashes: transition_system "recovery_crash en digest tid" "under_way en t0 cs digest tid"
  by unfold_locales (rule recovery_crash_keeps)

lemma crash_tree_cases:
  assumes "crash_tree en t0 cs digest tid t" "ready en t0 cs"
  shows "staged t0 tid t \<or> recovers en t0 cs digest tid t \<and>
    (prepared_tree en t0 cs digest tid t \<or> under_way en t0 cs digest tid t)"
  using assms recoverable_recovers unfolding crash_tree_def recoverable_tree_def prepared_tree_def under_way_def by blast

lemma under_way_recovers: "under_way en t0 cs digest tid t \<Longrightarrow> recovers en t0 cs digest tid t"
  by (rule recoverable_recovers) (auto simp: under_way_def recoverable_tree_def)

text \<open>
  Claim C38. A retention run deletes exactly its restore points, and survives a crash at any point: whatever tree the crash leaves,
  either no restore point was touched, or recovery finishes the deletion and touches nothing else; and once the journal has left
  the state prepared, this holds again after any number of recoveries that crash in turn.
\<close>

theorem retention_survives_crashes:
  assumes "retention_ready en s cs digest"
  shows "\<exists>tid s'. quarantine_and_delete en cs digest s = (Inr (length cs), s') \<and> deletion_finished (dk_tree s) cs tid (dk_tree s') \<and>
    list_all (\<lambda>t. staged (dk_tree s) tid t \<or>
        recovers en (dk_tree s) cs digest tid t \<and>
        (prepared_tree en (dk_tree s) cs digest tid t \<or>
         (\<forall>t'. (recovery_crash en digest tid)\<^sup>*\<^sup>* t t' \<longrightarrow> recovers en (dk_tree s) cs digest tid t')))
      (dk_history s')"
proof -
  from assms have r: "ready en (dk_tree s) cs" by (simp add: retention_ready_def)
  from wp_quarantine_and_delete [OF assms] obtain tid s' j where
    run: "quarantine_and_delete en cs digest s = (Inr (length cs), s')"
      "holds en (dk_tree s) (crash_tree en (dk_tree s) cs digest tid) j s'" "jn_state j = Deleted" "jn_transaction_id j = tid"
      "jn_candidates j = map candidate_to_journal cs"
    by (blast dest: wp_no_raise)
  have "deletion_finished (dk_tree s) cs tid (dk_tree s')"
    using run r by (intro deleted_finished) (auto simp: holds_def)
  moreover have "staged (dk_tree s) tid t \<or> recovers en (dk_tree s) cs digest tid t \<and>
        (prepared_tree en (dk_tree s) cs digest tid t \<or>
         (\<forall>t'. (recovery_crash en digest tid)\<^sup>*\<^sup>* t t' \<longrightarrow> recovers en (dk_tree s) cs digest tid t'))"
    if "t \<in> set (dk_history s')" for t
  proof -
    have "crash_tree en (dk_tree s) cs digest tid t" using run(2) that by (simp add: holds_def list_all_iff)
    from crash_tree_cases [OF this r] show ?thesis
      using crashes.reachable_keeps under_way_recovers by blast
  qed
  ultimately show ?thesis using run(1) by (auto simp: list_all_iff)
qed


section \<open>Two crashes\<close>

text \<open>A recovery that began on a prepared journal and moved the first candidate.\<close>

definition half_moved :: "retention_env \<Rightarrow> tree \<Rightarrow> journal \<Rightarrow> tree \<Rightarrow> bool" where
  "half_moved en t0 j t =
     (placed en t0 j t \<and> jn_state j = Prepared \<and> base_ok en t0 (jn_candidates j) \<and>
      gone t0 t (payload_of j) (item_path (hd (jn_candidates j))))"

lemma half_moved_preflight:
  assumes "half_moved en t0 j t"
  shows "preflight_quarantine en t (tx_of j) j = Inl (RuntimeError ''Invalid prepared quarantine state'')"
proof -
  from assms have g: "good_journal en j" and c: "core t0 j t" and st: "jn_state j = Prepared" and b: "base_ok en t0 (jn_candidates j)"
    and gn: "gone t0 t (payload_of j) (item_path (hd (jn_candidates j)))" by (auto simp: half_moved_def placed_def)
  from g obtain item items where cs: "jn_candidates j = item # items"
    by (cases "jn_candidates j") (auto simp: good_journal_def)
  have i: "item \<in> set (jn_candidates j)" by (simp add: cs)
  note f = item_facts [OF g c b i]
  have nd: "jn_state j \<notin> {Deleting, Deleted}" using st by simp
  have gi: "gone t0 t (payload_of j) (item_path item)" using gn cs by simp
  have dir: "is_directory t (payload_of j @ [hd (item_path item)])"
    using core_item [OF c nd i] kept_not_gone [OF _ f(5)] gi by blast
  note e = gone_facts [OF g c b i gi dir]
  have "preflight_item en t (payload_of j) j item = Inl (RuntimeError ''Invalid prepared quarantine state'')"
    using e f st by (simp add: preflight_item_def and_check_def require_def)
  moreover have "node_at t (tx_of j) = Some (Directory (jn_transaction_device j) (jn_transaction_inode j))"
      "node_at t (payload_of j) = Some (Directory (jn_payload_device j) (jn_payload_inode j))"
    using c st by (simp_all add: core_def)
  ultimately show ?thesis
    using st unfolding preflight_quarantine_def Let_def cs by (simp add: validate_payload_root_def and_check_def)
qed

lemma transaction_id_not_staging: "is_transaction_id t \<Longrightarrow> \<not> py_startswith t QUARANTINE_STAGING_PREFIX"
  by (cases t) (auto simp: is_transaction_id_def py_startswith_def QUARANTINE_STAGING_PREFIX_def is_hex_lower_def is_digit_def Let_def)

lemma half_moved_stuck:
  assumes "half_moved en t0 j (dk_tree d)"
  shows "recover_quarantine en (jn_transaction_id j) digest d = (Inl (RuntimeError ''Invalid prepared quarantine state''), d)"
    "pending_transactions en [jn_transaction_id j] d = (Inl (RuntimeError ''Invalid prepared quarantine state''), d)"
proof -
  from assms have p: "placed en t0 j (dk_tree d)" by (simp add: half_moved_def)
  then have g: "good_journal en j" and root: "is_directory (dk_tree d) quarantine_root" by (auto simp: placed_def core_def)
  have v: "validate_transaction_id (jn_transaction_id j) = Inr ()" using g by (simp add: good_journal_def validate_transaction_id_def)
  have n: "\<not> py_startswith (jn_transaction_id j) QUARANTINE_STAGING_PREFIX"
    using g transaction_id_not_staging by (simp add: good_journal_def)
  show "recover_quarantine en (jn_transaction_id j) digest d = (Inl (RuntimeError ''Invalid prepared quarantine state''), d)"
    using v root placed_reads [OF p] half_moved_preflight [OF assms]
    by (auto simp: recover_quarantine_def Let_def thn_def bnd_def look_def is_directory_def)
  show "pending_transactions en [jn_transaction_id j] d = (Inl (RuntimeError ''Invalid prepared quarantine state''), d)"
    using n placed_reads [OF p] half_moved_preflight [OF assms] by (simp add: thn_def bnd_def look_def)
qed

text \<open>The tree of a disk is the one it started from or is in its history.\<close>

definition tracked :: "tree \<Rightarrow> disk \<Rightarrow> bool" where
  "tracked t s = (dk_tree s = t \<or> in_history (dk_tree s) s)"

lemma preserves_tracked:
  "preserves (tracked t) (ensure_payload_parent p)" "preserves (tracked t) (rename_path p d)"
proof -
  have m: "preserves (tracked t) (make_directory p)" "preserves (tracked t) (look f)" for f :: "tree \<Rightarrow> 'a res"
    by (rule preserves_at; auto simp: tracked_def in_history_def make_directory_def look_def put_tree_def)+
  have l: "preserves (tracked t) (look f)" for f :: "tree \<Rightarrow> 'b res"
    by (rule preserves_at) (simp add: look_def)
  show "preserves (tracked t) (ensure_payload_parent p)"
    unfolding ensure_payload_parent_def by (intro preserved m l)
  show "preserves (tracked t) (rename_path p d)"
    by (rule preserves_at) (auto simp: tracked_def in_history_def rename_path_def put_tree_def split: option.split)
qed

lemma wp_recover_kept:
  assumes "safe_candidate_exists (dk_tree s) (item_path item) [] = Inr True"
    "safe_candidate_exists (dk_tree s) (payload_path tx @ item_path item) (payload_path tx) = Inr False"
    "validate_journal_candidate en (dk_tree s) (item_path item) item = Inr ()"
  shows "wp (recover_candidates en tx (item # items) j) Q E s =
    wp (ensure_payload_parent (butlast (payload_path tx @ item_path item)))
      (\<lambda>_. wp (rename_path (item_path item) (payload_path tx @ item_path item))
        (\<lambda>_. wp (bnd (if py_join ''/'' (item_path item) \<notin> set (jn_moved j)
              then write_quarantine_journal en tx (j\<lparr>jn_moved := jn_moved j @ [py_join ''/'' (item_path item)]\<rparr>)
              else ret j) (recover_candidates en tx items)) Q E) E) E s"
  using assms by (simp add: Let_def wp_look wp_bnd wp_thn)

lemma wp_recover_open:
  assumes "validate_transaction_id tid = Inr ()" "is_directory (dk_tree s) quarantine_root"
    "read_quarantine_journal en (dk_tree s) (transaction_path tid) = Inr j"
    "preflight_quarantine en (dk_tree s) (transaction_path tid) j = Inr ()" "jn_backup_manifest_sha256 j = digest"
    "jn_state j \<notin> {Deleting, Deleted}" "validate_payload_root (dk_tree s) (payload_path (transaction_path tid)) j = Inr ()"
  shows "wp (recover_quarantine en tid digest) Q E s =
    wp (recover_candidates en (transaction_path tid) (jn_candidates j) j) (\<lambda>j1.
      wp (bnd (bnd (write_quarantine_journal en (transaction_path tid) (j1\<lparr>jn_state := Quarantined\<rparr>)) (\<lambda>j2.
            write_quarantine_journal en (transaction_path tid) (j2\<lparr>jn_state := Deleting\<rparr>)))
          (\<lambda>j3. thn (finish_quarantine_delete en (transaction_path tid) j3) (ret (length (jn_candidates j))))) Q E) E s"
  using assms unfolding recover_quarantine_def Let_def by (auto simp: wp_eqs wp_funs is_directory_def)

lemma prepared_recovery_moves:
  assumes p: "prepared_tree en t0 cs digest tid t" and r: "ready en t0 cs" and d: "supply_ok en d" "dk_tree d = t" "dk_history d = []"
  shows "\<exists>t' j. in_history t' (snd (recover_quarantine en tid digest d)) \<and> half_moved en t0 j t' \<and> jn_transaction_id j = tid"
proof -
  from p obtain j where j: "placed en t0 j t" "state_settled t0 j t" "jn_state j = Prepared" "jn_transaction_id j = tid"
      "jn_candidates j = map candidate_to_journal cs" "jn_backup_manifest_sha256 j = digest"
    by (auto simp: prepared_tree_def)
  from j(1) have g: "good_journal en j" and c: "core t0 j t" by (auto simp: placed_def)
  have b: "base_ok en t0 (jn_candidates j)" using ready_base [OF r] j by simp
  from g obtain item items where cs: "jn_candidates j = item # items"
    by (cases "jn_candidates j") (auto simp: good_journal_def)
  have i: "item \<in> set (jn_candidates j)" by (simp add: cs)
  have st: "jn_state j \<notin> {Deleting, Deleted}" using j by simp
  have k: "kept t0 t (payload_of j) (item_path item)" using j(2,3) i by (simp add: state_settled_def)
  note f = item_facts [OF g c b i]
  note e = kept_facts [OF g c b i st k]
  have h: "holds en t0 (\<lambda>_. True) j d" using d j by (simp add: holds_def)
  have k': "kept t0 (dk_tree d) (payload_of j) (item_path item)" using k d by simp
  define good where "good = (\<lambda>s'. \<exists>t' j. in_history t' s' \<and> half_moved en t0 j t' \<and> jn_transaction_id j = tid)"
  have pres: "preserves good m" if "\<And>t. preserves (in_history t) m" for m :: "(disk, 'x) eff"
    using that by (auto simp: preserves_iff good_def)
  have take: "wp (ensure_payload_parent (butlast (payload_of j @ item_path item)))
      (\<lambda>_. wp (rename_path (item_path item) (payload_of j @ item_path item)) (\<lambda>_. good) (\<lambda>_ _. False)) (\<lambda>_ _. False) d"
  proof -
    let ?m = "thn (ensure_payload_parent (butlast (payload_of j @ item_path item))) (rename_path (item_path item) (payload_of j @ item_path item))"
    have 1: "wp ?m (\<lambda>_ s'. placed en t0 j (dk_tree s') \<and> gone t0 (dk_tree s') (payload_of j) (item_path item)) (\<lambda>_ _. False) d"
      unfolding wp_thn by (rule wp_take_candidate [OF h b i st k']) (auto simp: holds_def)
    have "preserves (tracked t) ?m" by (intro preserves_thn preserves_tracked)
    moreover have "tracked t d" using d by (simp add: tracked_def)
    ultimately have 2: "wp ?m (\<lambda>_. tracked t) (\<lambda>_ _. True) d" by (blast intro: wp_mono dest: preserves_wp)
    have "wp ?m (\<lambda>_. good) (\<lambda>_ _. False) d"
    proof (rule wp_mono [OF wp_conj [OF 1 2]])
      fix x s' assume a: "(placed en t0 j (dk_tree s') \<and> gone t0 (dk_tree s') (payload_of j) (item_path item)) \<and> tracked t s'"
      then have "dk_tree s' \<noteq> t" using k kept_not_gone [OF _ f(5)] by metis
      with a have "in_history (dk_tree s') s'" by (auto simp: tracked_def)
      moreover have "half_moved en t0 j (dk_tree s')" using a j(3) b cs by (simp add: half_moved_def)
      ultimately show "good s'" using j(4) by (auto simp: good_def)
    qed
    then show ?thesis unfolding wp_thn .
  qed
  let ?w = "\<lambda>m. wp m (\<lambda>_. good) (\<lambda>_. good)"
  have keep: "good s' \<Longrightarrow> ?w m s'" if "\<And>t. preserves (in_history t) m" for m :: "(disk, 'x) eff" and s'
    by (rule preserves_wp [OF pres [OF that]])
  let ?fin = "\<lambda>j3. thn (finish_quarantine_delete en (tx_of j) j3) (ret (length (jn_candidates j)))"
  let ?close = "\<lambda>j1. bnd (bnd (write_quarantine_journal en (tx_of j) (j1\<lparr>jn_state := Quarantined\<rparr>)) (\<lambda>j2.
      write_quarantine_journal en (tx_of j) (j2\<lparr>jn_state := Deleting\<rparr>))) ?fin"
  let ?rest = "bnd (bnd (if py_join ''/'' (item_path item) \<notin> set (jn_moved j)
              then write_quarantine_journal en (tx_of j) (j\<lparr>jn_moved := jn_moved j @ [py_join ''/'' (item_path item)]\<rparr>)
              else ret j) (recover_candidates en (tx_of j) items)) ?close"
  have "preserves (in_history t') ?rest" for t' by (intro preserved)
  then have go: "good s' \<Longrightarrow> ?w ?rest s'" for s' by (rule keep)
  have steps: "wp (ensure_payload_parent (butlast (payload_of j @ item_path item)))
      (\<lambda>_. wp (rename_path (item_path item) (payload_of j @ item_path item)) (\<lambda>_. ?w ?rest) (\<lambda>_. good)) (\<lambda>_. good) d"
    by (rule wp_mono [OF take]) (rule wp_mono, assumption, erule go, simp, simp)
  have root: "is_directory (dk_tree d) quarantine_root" using c d by (simp add: core_def)
  have tid: "validate_transaction_id tid = Inr ()" using g j(4) by (auto simp: good_journal_def validate_transaction_id_def)
  have reads: "read_quarantine_journal en (dk_tree d) (transaction_path tid) = Inr j"
    using placed_reads [OF j(1)] d j(4) by simp
  have pre: "preflight_quarantine en (dk_tree d) (transaction_path tid) j = Inr ()"
    using preflight_ok [OF j(1) b j(2)] d j(4) by simp
  have pay: "validate_payload_root (dk_tree d) (payload_path (transaction_path tid)) j = Inr ()"
    using c d(2) j(3,4) by (auto simp: core_def validate_payload_root_def)
  have "?w (recover_quarantine en tid digest) d"
    unfolding wp_recover_open [OF tid root reads pre j(6) st pay] cs
    by (subst wp_recover_kept) (use e d(2) j(4) steps in \<open>simp_all only: wp_funs\<close>)
  then show ?thesis by (auto simp: wp_def good_def split: prod.splits sum.splits)
qed


text \<open>
  Claim C39. Two crashes defeat the transaction: when a run stops right after it published its journal, and the recovery stops after
  it moved the first restore point, the journal still says prepared; from then on recovery and the listing of pending
  transactions raise, whatever digest is given, and nothing changes any more. The intent of the recovery is that it resumes.
\<close>

theorem interrupted_recovery_is_stuck:
  assumes "retention_ready en s cs digest"
  shows "\<exists>tid s' t t'. quarantine_and_delete en cs digest s = (Inr (length cs), s') \<and> t \<in> set (dk_history s') \<and>
    recovery_crash en digest tid t t' \<and>
    (\<forall>d dg. dk_tree d = t' \<longrightarrow>
       recover_quarantine en tid dg d = (Inl (RuntimeError ''Invalid prepared quarantine state''), d) \<and>
       pending_transactions en [tid] d = (Inl (RuntimeError ''Invalid prepared quarantine state''), d))"
proof -
  from assms have r: "ready en (dk_tree s) cs" and sup: "supply_ok en s" by (simp_all add: retention_ready_def)
  from wp_quarantine_and_delete [OF assms] obtain tid s' t where
    run: "quarantine_and_delete en cs digest s = (Inr (length cs), s')"
    and t: "in_history t s'" "prepared_tree en (dk_tree s) cs digest tid t"
    by (blast dest: wp_no_raise)
  let ?d = "s\<lparr>dk_tree := t, dk_history := []\<rparr>"
  have d: "supply_ok en ?d" "dk_tree ?d = t" "dk_history ?d = []" using sup by simp_all
  from prepared_recovery_moves [OF t(2) r d] obtain t' j where
    m: "in_history t' (snd (recover_quarantine en tid digest ?d))" "half_moved en (dk_tree s) j t'" "jn_transaction_id j = tid"
    by blast
  have "recovery_crash en digest tid t t'"
    unfolding recovery_crash_def using d m(1) by (intro exI [of _ ?d]) (simp add: in_history_def)
  with run t(1) m(2,3) half_moved_stuck show ?thesis unfolding in_history_def by blast
qed

section \<open>What blocks the retention for good\<close>

text \<open>
  A restore point made again where a deleted one was, by applying a book of the same run once more, makes the listing of pending
  transactions raise: a transaction that has ended is looked at like one that has not.
\<close>

lemma reused_restore_point_blocks:
  assumes p: "placed en t0 j t" and st: "jn_state j = Deleted" and b: "base_ok en t0 (jn_candidates j)" and i: "item \<in> set (jn_candidates j)"
    and d: "dk_tree s = with_node (item_path item) (Directory v w) t"
  shows "pending_transactions en [jn_transaction_id j] s =
    (Inl (RuntimeError ''Original restore point reappeared during deletion''), s)"
proof -
  from p have g: "good_journal en j" and c: "core t0 j t" by (auto simp: placed_def)
  have safe: "safe_relative_text (ji_relative_path a)" if "a \<in> set (jn_candidates j)" for a
    using g that by (simp add: good_journal_def)
  have ne: "item_path item \<noteq> tx_of j @ r" for r
    using item_not_tx(5) [OF safe [OF i]] by (auto simp: transaction_path_def quarantine_root_def)
  have n: "node_at (dk_tree s) (tx_of j) = Some (Directory (jn_transaction_device j) (jn_transaction_inode j))"
      "node_at (dk_tree s) (journal_path (tx_of j)) = node_at t (journal_path (tx_of j))"
      "node_at (dk_tree s) (payload_of j) = None"
    using c st ne [of "[]"] ne [of "[QUARANTINE_JOURNAL_NAME]"] ne [of "[QUARANTINE_PAYLOAD_NAME]"]
    unfolding d by (auto simp: tree_simps core_def journal_path_def payload_path_def)
  have reads: "read_quarantine_journal en (dk_tree s) (tx_of j) = Inr j"
    using placed_reads [OF p] n c by (simp add: read_quarantine_journal_def core_def)
  have run: "is_directory (dk_tree s) [hd (item_path a)]" if "a \<in> set (jn_candidates j)" for a
    using item_facts(1) [OF g c b that] item_facts(3) [OF g c b i] unfolding d by (auto simp: tree_simps is_directory_def)
  have item: "preflight_item en (dk_tree s) (payload_of j) j a =
      (if item_path a = item_path item then Inl (RuntimeError ''Original restore point reappeared during deletion'') else Inr ())"
    if a: "a \<in> set (jn_candidates j)" for a
  proof -
    have here: "node_at (dk_tree s) (item_path a) = (if item_path a = item_path item then Some (Directory v w) else None)"
    proof -
      have "removed t (item_path a)" using c st a by (simp add: core_def)
      from this [unfolded removed_def, rule_format, of "[]"] show ?thesis unfolding d by (simp add: tree_simps)
    qed
    show ?thesis
    proof (cases "item_path a = item_path item")
      case True
      have "safe_candidate_exists (dk_tree s) (item_path a) [] = Inr True"
        using True here run [OF a] item_facts(2) [OF g c b a] by (intro candidate_present) (auto simp: is_directory_def)
      with True st show ?thesis by (simp add: preflight_item_def require_def)
    next
      case False
      have "safe_candidate_exists (dk_tree s) (item_path a) [] = Inr False"
        using False here run [OF a] item_facts(2) [OF g c b a] by (intro candidate_missing) auto
      with False st show ?thesis by (simp add: preflight_item_def require_def)
    qed
  qed
  have "check_each (preflight_item en (dk_tree s) (payload_of j) j) items =
      Inl (RuntimeError ''Original restore point reappeared during deletion'')"
    if "set items \<subseteq> set (jn_candidates j)" "item \<in> set items" for items
    using that by (induction items) (auto simp: item and_check_def)
  from this [OF order_refl i] have "preflight_quarantine en (dk_tree s) (tx_of j) j =
      Inl (RuntimeError ''Original restore point reappeared during deletion'')"
    using n st by (simp add: preflight_quarantine_def Let_def)
  moreover have "\<not> py_startswith (jn_transaction_id j) QUARANTINE_STAGING_PREFIX"
    using g transaction_id_not_staging by (simp add: good_journal_def)
  ultimately show ?thesis using reads by (simp add: thn_def bnd_def look_def)
qed

text \<open>
  \<open>path_for\<close> lets a name begin with a dot, which the journal's reader does not: a transaction over such a restore point can
  neither be recovered nor, once it has ended, be read.
\<close>

lemma hidden_restore_point_unreadable:
  assumes "item \<in> set (jn_candidates j)" "ji_relative_path item = py_join ''/'' [run, CHR ''.'' # book]" "plain_name run" "CHR ''/'' \<notin> set book"
    "book \<notin> {[], ''.''}"
  shows "journal_of_json en name (journal_json j) = None"
    "path_for ''r'' ''.hidden'' = Inr [''r'', ''.hidden'']"
proof -
  have "py_split (CHR ''/'') (py_join [CHR ''/''] [run, CHR ''.'' # book]) = [run, CHR ''.'' # book]"
    using assms by (intro split_join) (auto simp: plain_name_def)
  then have "relative_parts (ji_relative_path item) = [run, CHR ''.'' # book]"
    using assms by (auto simp: relative_parts_def plain_name_def)
  then have "\<not> safe_relative_text (ji_relative_path item)"
    by (simp add: safe_relative_text_def unsafe_part_def py_startswith_def)
  then have n: "read_item (item_json item) = None"
    by (simp add: read_item_def item_json_def field_simps guard_def)
  have "all_some (map f xs) = None" if "x \<in> set xs" "f x = None" for x xs and f :: "pyval \<Rightarrow> journal_item option"
    using that by (induction xs) (auto split: option.split simp: bind_eq_None_conv)
  from this [of "item_json item" "map item_json (jn_candidates j)" read_item] n assms(1)
  have "all_some (map read_item (map item_json (jn_candidates j))) = None" by (simp del: map_map)
  then show "journal_of_json en name (journal_json j) = None"
    unfolding journal_of_json_def journal_json_def by (auto simp: field_simps guard_def bind_eq_None_conv simp del: map_map)
  show "path_for ''r'' ''.hidden'' = Inr [''r'', ''.hidden'']"
    by (simp add: path_for_def safe_component_def is_digit_def is_upper_def is_lower_def Let_def)
qed

text \<open>
  A restore point whose date has no offset stops \<open>list_expired\<close>, while the manifest of the same tree takes the date as UTC.
\<close>

lemma date_without_offset_stops_listing:
  assumes "list_all_points en t = Inr (pre @ rp # rps)" "list_all (\<lambda>r. snd (rp_applied_at r)) pre" "\<not> snd (rp_applied_at rp)"
  shows "\<exists>m. list_expired en now t = Inl (TypeError m)"
proof -
  have "\<exists>m. expired_of now (pre @ rp # rps) = Inl (TypeError m)"
    using assms(2,3) by (induction pre) (auto simp: is_expired_def then_check_def)
  with assms(1) show ?thesis by (auto simp: list_expired_def)
qed

lemma date_without_offset_is_utc:
  assumes "node_at t p = Some (Directory d i)" "node_at t (p @ [''restore.json'']) = Some (Document b (Some v))"
    "text_field v ''applied_at'' = Some x" "rv_fromisoformat en x = Some (n, False)" "json_field v ''ttl_seconds'' = Some (PInt k)"
  shows "manifest_entry en now t p = Inr (if now - n \<le> 1000000 * k then None
    else Some \<lparr>dc_path = p, dc_manifest_sha256 = rv_sha256 en b, dc_device = d, dc_inode = i\<rparr>)"
  using assms by (simp add: manifest_entry_def restore_point_age_def timedelta_seconds_def)

section \<open>A restore point on a disk\<close>

definition demo_retention :: retention_env where
  "demo_retention =
     \<lparr>rv_sha256 = (\<lambda>b. replicate 64 (CHR ''0'')), rv_dump = (\<lambda>v. ''{}''), rv_isoformat = (\<lambda>n. ''2026-01-01T00:00:00+00:00''),
      rv_fromisoformat = (\<lambda>x. Some (0, True)), rv_float_seconds = (\<lambda>x. None), rv_default_ttl = 2592000000000\<rparr>"

definition demo_disk :: disk where
  "demo_disk =
     \<lparr>dk_tree = [([], Directory 1 1), ([''run-1''], Directory 1 2), ([''run-1'', ''calibre_7''], Directory 1 3),
        ([''run-1'', ''calibre_7'', ''restore.json''], Document ''{}'' (Some (PDict []))),
        ([''run-1'', ''calibre_7'', ''original.opf''], Document ''<package/>'' None)],
      dk_history = [], dk_device = 1, dk_inodes = (\<lambda>n. int n + 10), dk_uuids = (\<lambda>n. replicate 32 (CHR ''a'')),
      dk_clock = (\<lambda>n. int n), dk_ticks = 0\<rparr>"

definition demo_candidates :: "deletion_candidate list" where
  "demo_candidates =
     [\<lparr>dc_path = [''run-1'', ''calibre_7''], dc_manifest_sha256 = replicate 64 (CHR ''0''), dc_device = 1, dc_inode = 3\<rparr>]"

lemma demo_retention_ready: "retention_ready demo_retention demo_disk demo_candidates (replicate 64 (CHR ''b''))"
proof -
  have sup: "supply_ok demo_retention demo_disk"
    by (simp add: supply_ok_def demo_retention_def demo_disk_def is_transaction_id_def list_all_iff is_hex_lower_def Let_def)
  have names: "plain_name ''run-1''" "plain_name ''calibre_7''" by (simp_all add: plain_name_def)
  have ready: "ready demo_retention (dk_tree demo_disk) demo_candidates"
    using names by (simp add: ready_def demo_candidates_def demo_disk_def demo_retention_def is_directory_def node_at_def
        validate_candidate_def validate_candidate_identity_def require_def)
  have un: "unused (dk_tree demo_disk) (dk_uuids demo_disk n)" for n
    by (auto simp: unused_def demo_disk_def node_at_def transaction_path_def staging_path_def quarantine_root_def QUARANTINE_ROOT_NAME_def)
  show ?thesis
    using sup ready un
    by (auto simp: retention_ready_def demo_disk_def demo_candidates_def is_directory_def node_at_def quarantine_root_def
        QUARANTINE_ROOT_NAME_def)
qed

theorem retention_survives_crashes_witness:
  "\<exists>tid s'. quarantine_and_delete demo_retention demo_candidates (replicate 64 (CHR ''b'')) demo_disk = (Inr 1, s') \<and>
    deletion_finished (dk_tree demo_disk) demo_candidates tid (dk_tree s')"
  using retention_survives_crashes [OF demo_retention_ready] by (auto simp: demo_candidates_def)

theorem interrupted_recovery_is_stuck_witness:
  "\<exists>tid t t'. recovery_crash demo_retention (replicate 64 (CHR ''b'')) tid t t' \<and>
    (\<forall>dg. recover_quarantine demo_retention tid dg (demo_disk\<lparr>dk_tree := t'\<rparr>) =
      (Inl (RuntimeError ''Invalid prepared quarantine state''), demo_disk\<lparr>dk_tree := t'\<rparr>))"
proof -
  obtain tid t t' where "recovery_crash demo_retention (replicate 64 (CHR ''b'')) tid t t'"
    and stuck: "\<And>d dg. dk_tree d = t' \<Longrightarrow>
      recover_quarantine demo_retention tid dg d = (Inl (RuntimeError ''Invalid prepared quarantine state''), d)"
    using interrupted_recovery_is_stuck [OF demo_retention_ready] by blast
  moreover have "recover_quarantine demo_retention tid dg (demo_disk\<lparr>dk_tree := t'\<rparr>) =
      (Inl (RuntimeError ''Invalid prepared quarantine state''), demo_disk\<lparr>dk_tree := t'\<rparr>)" for dg
    by (rule stuck) simp
  ultimately show ?thesis by blast
qed

end
