(* ===== verification/Clusters.thy ===== *)
theory Clusters
  imports Isbn PyVal
begin

text \<open>
  Duplicate clusters of a library (src/src/calibre\_ai\_auditor/curation/series\_topology.py): the disjoint set union with path
  compression and ranks, and the clustering of books by ISBN, title and author, with the parts of
  curation/entity\_cleanser.py it calls. A dict is a map, or an association list where its order matters.
\<close>

section \<open>Entity cleansing\<close>

definition strip_chars :: "string \<Rightarrow> string \<Rightarrow> string" where
  "strip_chars cs s = rev (dropWhile (\<lambda>c. c \<in> set cs) (rev (dropWhile (\<lambda>c. c \<in> set cs) s)))"

text \<open>\<open>re.sub(r"\s+", " ", s)\<close>\<close>

function (sequential) collapse_blanks :: "string \<Rightarrow> string" where
  "collapse_blanks [] = []"
| "collapse_blanks (c # cs) =
     (if is_space c then CHR '' '' # collapse_blanks (dropWhile is_space cs) else c # collapse_blanks cs)"
  by pat_completeness auto
termination
  by (relation "measure length") (auto simp: le_imp_less_Suc length_dropWhile_le)

text \<open>The alternatives of BOGUS_AUTHOR_PATTERNS, for a text whose blanks are single spaces; 237 and 205 are i with an accent.\<close>

definition bogus_words :: "string list" where
  "bogus_words =
     [''calibre'', ''calibre-web'', ''unknown'', ''desconocido'', ''epublibre'', ''editor'', ''traductor'', ''chapter one'',
      ''chapter two'', ''chapter three'', ''author'', ''autor'', ''none'', ''n/a'']"

definition chapter_words :: "string list" where
  "chapter_words = [''capitulo '', ''cap'' @ [char_of (237 :: nat)] @ ''tulo '', ''cap'' @ [char_of (205 :: nat)] @ ''tulo '']"

definition bogus_author :: "string \<Rightarrow> bool" where
  "bogus_author s =
     (let l = py_lower s
      in l \<in> set bogus_words \<or>
         py_startswith l ''chapter '' \<and> py_isdigit (drop 8 l) \<or>
         list_ex (\<lambda>w. py_startswith l w \<and> (drop 9 l \<in> {''uno'', ''dos''} \<or> py_isdigit (drop 9 l))) chapter_words \<or>
         l \<noteq> [] \<and> list_all (\<lambda>c. c = CHR ''?'') l)"

definition clean_author_name :: "string \<Rightarrow> string option" where
  "clean_author_name raw =
     (if raw = [] then None
      else
        let s = strip_chars ('' ;/,'' @ map char_of [9 :: nat, 10, 13, 92, 39, 34]) raw;
            s = collapse_blanks s;
            s = py_strip (rev (dropWhile (\<lambda>c. c = CHR '';'' \<or> c = CHR ''/'') (rev s)))
        in if s = [] \<or> bogus_author s then None else Some s)"

text \<open>\<open>int\<close> of an X among the first nine characters raises.\<close>

definition validate_and_convert_isbn :: "string option \<Rightarrow> string option res" where
  "validate_and_convert_isbn raw_isbn =
     (case raw_isbn of
        None \<Rightarrow> Inr None
      | Some raw \<Rightarrow>
          if raw = [] then Inr None
          else
            let clean = isbn_clean (py_upper raw) in
            if length clean = 10 then
              if \<not> list_all is_digit (take 9 clean) then Inl (ValueError (''invalid literal for int() with base 10: '' @ repr_string ''X''))
              else
                let s = wsum w10 (take 9 clean);
                    last_value = (if clean ! 9 = CHR ''X'' then 10 else digit_val (clean ! 9));
                    base = ''978'' @ take 9 clean
                in if (s + last_value) mod 11 \<noteq> 0 then Inr None
                   else Inr (Some (base @ show_nat ((10 - wsum w13 base mod 10) mod 10)))
            else if length clean = 13 \<and> py_isdigit clean then
              if (10 - wsum w13 (take 12 clean) mod 10) mod 10 = digit_val (clean ! 12) then Inr (Some clean) else Inr None
            else Inr None)"

section \<open>Disjoint set union\<close>

record dsu =
  du_parent :: "int \<Rightarrow> int option"
  du_rank :: "int \<Rightarrow> nat option"

definition empty_dsu :: dsu where
  "empty_dsu = \<lparr>du_parent = (\<lambda>_. None), du_rank = (\<lambda>_. None)\<rparr>"

definition set_parent :: "int \<Rightarrow> int \<Rightarrow> dsu \<Rightarrow> dsu" where
  "set_parent x p d = d\<lparr>du_parent := (du_parent d)(x := Some p)\<rparr>"

definition set_rank :: "int \<Rightarrow> nat \<Rightarrow> dsu \<Rightarrow> dsu" where
  "set_rank x n d = d\<lparr>du_rank := (du_rank d)(x := Some n)\<rparr>"

text \<open>None: the recursion does not end, or a key is missing.\<close>

partial_function (option) dsu_find :: "dsu \<Rightarrow> int \<Rightarrow> (int \<times> dsu) option" where
  "dsu_find d item =
     (case du_parent d item of
        None \<Rightarrow> Some (item, set_rank item 0 (set_parent item item d))
      | Some p \<Rightarrow>
          if p = item then Some (item, d)
          else Option.bind (dsu_find d p) (\<lambda>(root, d'). Some (root, set_parent item root d')))"

definition dsu_union :: "dsu \<Rightarrow> int \<Rightarrow> int \<Rightarrow> dsu option" where
  "dsu_union d x y =
     Option.bind (dsu_find d x) (\<lambda>(root_x, d1).
     Option.bind (dsu_find d1 y) (\<lambda>(root_y, d2).
     if root_x = root_y then Some d2
     else case (du_rank d2 root_x, du_rank d2 root_y) of
       (Some rank_x, Some rank_y) \<Rightarrow>
         Some (if rank_x < rank_y then set_parent root_x root_y d2
               else if rank_y < rank_x then set_parent root_y root_x d2
               else set_rank root_x (Suc rank_x) (set_parent root_y root_x d2))
     | _ \<Rightarrow> None))"

section \<open>Clusters\<close>

datatype duplicate_type = CLONE | MULTIFORMAT | EDITION | OMNIBUS

record book_node =
  bn_book_id :: int
  bn_title :: string
  bn_cleaned_title :: string
  bn_author :: string
  bn_author_sort :: string
  bn_isbn :: "string option"
  bn_formats :: "string list"
  bn_paths :: "string list"
  bn_file_hashes :: "string list"

text \<open>The lists made of sets have no order of their own: they are kept as sets.\<close>

record duplicate_cluster =
  dl_cluster_id :: string
  dl_cluster_type :: duplicate_type
  dl_canonical_book_id :: int
  dl_member_book_ids :: "int list"
  dl_titles :: "string list"
  dl_authors :: "string set"
  dl_formats :: "string set"
  dl_confidence :: pyval
  dl_recommendation :: string

fun add_to_group :: "'k \<Rightarrow> 'v \<Rightarrow> ('k \<times> 'v list) list \<Rightarrow> ('k \<times> 'v list) list" where
  "add_to_group k v [] = [(k, [v])]"
| "add_to_group k v ((j, vs) # gs) = (if j = k then (j, vs @ [v]) # gs else (j, vs) # add_to_group k v gs)"

fun complete_hashes :: "(string \<times> string) list \<Rightarrow> string dict \<Rightarrow> string dict option" where
  "complete_hashes [] mapping = Some mapping"
| "complete_hashes ((fmt, digest) # rest) mapping =
     (let normalized_format = py_upper (py_strip fmt); normalized_digest = py_lower (py_strip digest)
      in if normalized_format = [] \<or> \<not> is_sha256_hex normalized_digest \<or> dict_has mapping normalized_format then None
         else complete_hashes rest (dict_set normalized_format normalized_digest mapping))"

definition complete_format_hashes :: "book_node \<Rightarrow> string dict option" where
  "complete_format_hashes b =
     (if bn_formats b = [] \<or> length (bn_formats b) \<noteq> length (bn_file_hashes b) then None
      else complete_hashes (zip (bn_formats b) (bn_file_hashes b)) [])"

text \<open>\<open>str((author, title))\<close>\<close>

definition title_key :: "book_node \<Rightarrow> string" where
  "title_key b =
     ''('' @ repr_string (case clean_author_name (bn_author b) of Some a \<Rightarrow> a | None \<Rightarrow> []) @ '', ''
       @ repr_string (py_lower (bn_cleaned_title b)) @ '')''"

type_synonym id_groups = "(string \<times> int list) list"

fun index_books :: "book_node list \<Rightarrow> id_groups \<Rightarrow> id_groups \<Rightarrow> (id_groups \<times> id_groups) res" where
  "index_books [] by_isbn by_title = Inr (by_isbn, by_title)"
| "index_books (b # bs) by_isbn by_title =
     (case validate_and_convert_isbn (bn_isbn b) of
        Inl e \<Rightarrow> Inl e
      | Inr canonical \<Rightarrow>
          index_books bs
            (case canonical of Some i \<Rightarrow> add_to_group i (bn_book_id b) by_isbn | None \<Rightarrow> by_isbn)
            (if bn_cleaned_title b \<noteq> [] then add_to_group (title_key b) (bn_book_id b) by_title else by_title))"

fun find_all :: "int list \<Rightarrow> dsu \<Rightarrow> dsu option" where
  "find_all [] d = Some d"
| "find_all (x # xs) d = Option.bind (dsu_find d x) (\<lambda>(root, d'). find_all xs d')"

fun union_pairs :: "(int \<times> int) list \<Rightarrow> dsu \<Rightarrow> dsu option" where
  "union_pairs [] d = Some d"
| "union_pairs ((x, y) # ps) d = Option.bind (dsu_union d x y) (union_pairs ps)"

definition group_pairs :: "id_groups \<Rightarrow> (int \<times> int) list" where
  "group_pairs gs = concat (map (\<lambda>(k, g). case g of [] \<Rightarrow> [] | first # others \<Rightarrow> map (Pair first) others) gs)"

fun group_by_root :: "int list \<Rightarrow> dsu \<Rightarrow> (int \<times> int list) list \<Rightarrow> (int \<times> int list) list option" where
  "group_by_root [] d gs = Some gs"
| "group_by_root (x # xs) d gs = Option.bind (dsu_find d x) (\<lambda>(root, d'). group_by_root xs d' (add_to_group root x gs))"

definition node_of :: "book_node list \<Rightarrow> int \<Rightarrow> book_node" where
  "node_of books i = the (map_of (rev (map (\<lambda>b. (bn_book_id b, b)) books)) i)"

definition is_clone :: "book_node list \<Rightarrow> bool" where
  "is_clone members =
     (case map complete_format_hashes members of
        [] \<Rightarrow> False
      | first # rest \<Rightarrow>
          list_all (\<lambda>m. m \<noteq> None) (first # rest) \<and> list_all (\<lambda>m. set (the m) = set (the first)) rest)"

definition build_cluster :: "book_node list \<Rightarrow> int \<times> int list \<Rightarrow> duplicate_cluster" where
  "build_cluster books g =
     (let (root, member_ids) = g;
          members = map (node_of books) member_ids;
          all_fmts = concat (map bn_formats members);
          formats = set all_fmts;
          clone = is_clone members;
          multi = distinct all_fmts \<and> length members = 2 \<and> ''EPUB'' \<in> formats \<and> ''PDF'' \<in> formats
      in \<lparr>dl_cluster_id = ''cluster_'' @ show_int root,
          dl_cluster_type = (if clone then CLONE else if multi then MULTIFORMAT else EDITION),
          dl_canonical_book_id =
            (case List.find (\<lambda>m. ''EPUB'' \<in> set (bn_formats m)) members of
               Some m \<Rightarrow> bn_book_id m | None \<Rightarrow> Min (set member_ids)),
          dl_member_book_ids = member_ids,
          dl_titles = map bn_title members,
          dl_authors = set (filter (\<lambda>a. a \<noteq> []) (map bn_author members)),
          dl_formats = formats,
          dl_confidence = (if clone then PFloat ''1.0'' else PFloat ''0.75''),
          dl_recommendation =
            (if clone then ''Review complete cryptographic hash evidence before any manual cleanup.''
             else if multi then ''Review complementary formats; title or ISBN evidence alone must not merge records.''
             else ''Review edition variants; consider keeping if distinct translations or publishers.'')\<rparr>)"

definition cluster_duplicates :: "book_node list \<Rightarrow> duplicate_cluster list option res" where
  "cluster_duplicates books =
     (case index_books books [] [] of
        Inl e \<Rightarrow> Inl e
      | Inr (by_isbn, by_title) \<Rightarrow>
          let ids = map bn_book_id books
          in Inr (Option.bind (find_all ids empty_dsu) (\<lambda>d.
                  Option.bind (union_pairs (group_pairs by_isbn @ group_pairs by_title) d) (\<lambda>d.
                  Option.bind (group_by_root ids d []) (\<lambda>gs.
                  Some (map (build_cluster books) (filter (\<lambda>(root, ms). 1 < length ms) gs)))))))"

end
