(* ===== verification/ClusterLaws.thy ===== *)
theory ClusterLaws
  imports Clusters
begin

text \<open>
  What the duplicate clusters promise: the search with path compression ends and changes no class, the union joins
  exactly two classes, and the clusters are the connected components of the books that share a canonical ISBN or an author
  and title. The ISBN conversion of the cleanser agrees with the one of the resolver wherever it returns.
\<close>

section \<open>Roots\<close>

inductive root_of :: "dsu \<Rightarrow> int \<Rightarrow> int \<Rightarrow> bool" for d where
  new: "du_parent d x = None \<Longrightarrow> root_of d x x"
| self: "du_parent d x = Some x \<Longrightarrow> root_of d x x"
| up: "du_parent d x = Some p \<Longrightarrow> p \<noteq> x \<Longrightarrow> root_of d p r \<Longrightarrow> root_of d x r"

inductive_cases root_ofE: "root_of d x r"

lemma root_of_unique: "root_of d x r \<Longrightarrow> root_of d x s \<Longrightarrow> s = r"
proof (induction arbitrary: s rule: root_of.induct)
  case (up x p r)
  from up.prems up.hyps(1,2) have "root_of d p s" by (cases rule: root_ofE) auto
  then show ?case by (rule up.IH)
qed (auto elim: root_ofE)

lemma root_is_root: "root_of d x r \<Longrightarrow> du_parent d r = Some r \<or> du_parent d r = None"
  by (induction rule: root_of.induct) auto

definition dsu_ok :: "dsu \<Rightarrow> bool" where
  "dsu_ok d \<longleftrightarrow>
     finite (dom (du_parent d)) \<and> dom (du_rank d) = dom (du_parent d) \<and>
     (\<forall>x p. du_parent d x = Some p \<longrightarrow> p \<noteq> x \<longrightarrow>
        (\<exists>n m. du_rank d x = Some n \<and> du_rank d p = Some m \<and> n < m))"

lemma dsu_okD:
  assumes "dsu_ok d" "du_parent d x = Some p" "p \<noteq> x"
  obtains n m q where "du_rank d x = Some n" "du_rank d p = Some m" "n < m" "du_parent d p = Some q"
proof -
  from assms obtain n m where "du_rank d x = Some n" "du_rank d p = Some m" "n < m"
    unfolding dsu_ok_def by blast
  moreover from this assms(1) obtain q where "du_parent d p = Some q"
    unfolding dsu_ok_def by blast
  ultimately show thesis by (rule that)
qed

text \<open>Ranks grow on the way up and are bounded, so every item has a root.\<close>

lemma root_exists:
  assumes ok: "dsu_ok d"
  shows "\<exists>r. root_of d x r"
proof -
  have "finite (ran (du_rank d))"
    using ok by (metis dsu_ok_def finite_ran)
  then obtain B where B: "\<forall>n\<in>ran (du_rank d). n \<le> B"
    by (auto simp: finite_nat_set_iff_bounded_le)
  have "\<exists>r. root_of d x r" if "du_rank d x = Some n" for x n
    using that
  proof (induction "B - n" arbitrary: x n rule: less_induct)
    case less
    show ?case
    proof (cases "du_parent d x")
      case (Some p)
      show ?thesis
      proof (cases "p = x")
        case False
        obtain n' m q where *: "du_rank d x = Some n'" "du_rank d p = Some m" "n' < m"
          using dsu_okD[OF ok Some False] by metis
        then have "m \<le> B" "n < m" using B less.prems by (auto simp: ran_def)
        then have "B - m < B - n" by simp
        with less.hyps[OF this *(2)] Some False show ?thesis by (blast intro: root_of.up)
      qed (use Some in \<open>blast intro: root_of.self\<close>)
    qed (blast intro: root_of.new)
  qed
  moreover have "du_rank d x = None \<Longrightarrow> \<exists>r. root_of d x r"
    using ok unfolding dsu_ok_def by (metis domIff root_of.new)
  ultimately show ?thesis by (cases "du_rank d x") auto
qed

definition rep :: "dsu \<Rightarrow> int \<Rightarrow> int" where
  "rep d x = (THE r. root_of d x r)"

lemma rep_root: "dsu_ok d \<Longrightarrow> root_of d x (rep d x)"
  unfolding rep_def by (metis root_exists root_of_unique theI)

lemma rep_eq: "root_of d x r \<Longrightarrow> rep d x = r"
  unfolding rep_def by (metis root_of_unique the_equality)

lemma rep_idem: "dsu_ok d \<Longrightarrow> rep d (rep d x) = rep d x"
  by (metis rep_eq rep_root root_is_root root_of.new root_of.self)

lemma root_rank: "root_of d x r \<Longrightarrow> dsu_ok d \<Longrightarrow> x \<noteq> r \<Longrightarrow> \<exists>n m. du_rank d x = Some n \<and> du_rank d r = Some m \<and> n < m"
proof (induction rule: root_of.induct)
  case (up x p r)
  obtain n m where nm: "du_rank d x = Some n" "du_rank d p = Some m" "n < m"
    using dsu_okD[OF up.prems(1) up.hyps(1,2)] by metis
  show ?case
  proof (cases "p = r")
    case False
    then obtain k where "du_rank d r = Some k" "m < k" using up.IH up.prems(1) nm by auto
    with nm show ?thesis by auto
  qed (use nm in auto)
qed auto

lemma root_in_dom: "root_of d x r \<Longrightarrow> dsu_ok d \<Longrightarrow> du_parent d x \<noteq> None \<Longrightarrow> du_parent d r = Some r"
proof (induction rule: root_of.induct)
  case (up x p r)
  then show ?case by (metis dsu_okD option.distinct(1))
qed auto

section \<open>Search\<close>

text \<open>Hanging an item below its own root changes no class, and adding a new item neither.\<close>

lemma rep_set_parent:
  assumes ok: "dsu_ok d" and x: "du_parent d x \<noteq> None"
  shows "dsu_ok (set_parent x (rep d x) d)" and "rep (set_parent x (rep d x) d) = rep d"
proof -
  let ?r = "rep d x" and ?d = "set_parent x (rep d x) d"
  have r: "root_of d x ?r" by (rule rep_root[OF ok])
  have rr: "du_parent d ?r = Some ?r" by (rule root_in_dom[OF r ok x])
  show ok': "dsu_ok ?d"
    using ok x root_rank[OF r ok] unfolding dsu_ok_def set_parent_def by (auto simp: insert_absorb)
  have "root_of ?d y s" if "root_of d y s" for y s
    using that
  proof (induction rule: root_of.induct)
    case (new y)
    with x show ?case by (intro root_of.new) (auto simp: set_parent_def)
  next
    case (self y)
    then have "y = x \<Longrightarrow> ?r = x" by (simp add: rep_eq root_of.self)
    with self show ?case by (intro root_of.self) (auto simp: set_parent_def)
  next
    case (up y p s)
    show ?case
    proof (cases "y = x")
      case True
      have "s = ?r" using up True by (metis rep_eq root_of.up)
      moreover have "root_of ?d ?r ?r" using rr by (intro root_of.self) (auto simp: set_parent_def)
      ultimately show ?thesis using True
        by (cases "?r = x") (auto intro: root_of.up simp: set_parent_def)
    next
      case False
      with up show ?thesis by (intro root_of.up[of ?d y p s]) (auto simp: set_parent_def)
    qed
  qed
  then show "rep ?d = rep d" by (metis ext ok rep_eq rep_root)
qed

lemma rep_new_item:
  assumes ok: "dsu_ok d" and x: "du_parent d x = None"
  defines "d' \<equiv> set_rank x 0 (set_parent x x d)"
  shows "dsu_ok d'" and "rep d' = rep d" and "rep d x = x"
proof -
  have x': "\<And>y p. du_parent d y = Some p \<Longrightarrow> p \<noteq> y \<Longrightarrow> p \<noteq> x \<and> y \<noteq> x"
    using ok x by (metis dsu_okD option.distinct(1))
  show ok': "dsu_ok d'"
    using ok x x' unfolding dsu_ok_def d'_def set_parent_def set_rank_def by auto
  have "root_of d' y s" if "root_of d y s" for y s
    using that
  proof (induction rule: root_of.induct)
    case (new y)
    then show ?case
      by (cases "y = x") (auto simp: d'_def set_parent_def set_rank_def intro: root_of.new root_of.self)
  next
    case (self y)
    with x show ?case by (intro root_of.self) (auto simp: d'_def set_parent_def set_rank_def)
  next
    case (up y p s)
    with x x' show ?case by (intro root_of.up[of d' y p s]) (auto simp: d'_def set_parent_def set_rank_def)
  qed
  then show "rep d' = rep d" by (metis ext ok rep_eq rep_root)
  show "rep d x = x" using x by (simp add: rep_eq root_of.new)
qed

text \<open>The search ends, returns the root, keeps every class and leaves the item in the structure.\<close>

definition found :: "dsu \<Rightarrow> int \<Rightarrow> dsu \<Rightarrow> bool" where
  "found d x d' \<longleftrightarrow>
     dsu_ok d' \<and> rep d' = rep d \<and> dom (du_parent d') = insert x (dom (du_parent d)) \<and>
     (\<forall>y n. du_rank d y = Some n \<longrightarrow> du_rank d' y = Some n)"

lemma find_from:
  assumes "root_of d x r" and ok: "dsu_ok d"
  shows "\<exists>d'. dsu_find d x = Some (r, d') \<and> found d x d'"
  using assms(1)
proof (induction rule: root_of.induct)
  case (new x)
  then have "dsu_find d x = Some (x, set_rank x 0 (set_parent x x d))"
    by (subst dsu_find.simps) simp
  moreover have "du_rank d x = None" using new ok by (auto simp: dsu_ok_def domIff)
  then have "found d x (set_rank x 0 (set_parent x x d))"
    using rep_new_item[OF ok new] by (auto simp: found_def set_rank_def set_parent_def)
  ultimately show ?case by blast
next
  case (self x)
  then have "dsu_find d x = Some (x, d)" by (subst dsu_find.simps) simp
  moreover have "found d x d" using self ok by (auto simp: found_def insert_absorb)
  ultimately show ?case by blast
next
  case (up x p r)
  then obtain d' where d': "dsu_find d p = Some (r, d')" and f: "found d p d'" by blast
  have "dsu_find d x = Some (r, set_parent x r d')"
    using up.hyps d' by (subst dsu_find.simps) simp
  moreover have r: "r = rep d' x"
    using up.hyps f by (metis found_def rep_eq root_of.up)
  have ok': "dsu_ok d'" and x: "du_parent d' x \<noteq> None" "x \<in> dom (du_parent d)" "p \<in> dom (du_parent d)"
    using f up.hyps ok by (auto simp: found_def elim: dsu_okD)
  have "found d x (set_parent x r d')"
    unfolding r found_def using rep_set_parent[OF ok' x(1)] f x(2,3)
    by (auto simp: found_def set_parent_def insert_absorb)
  ultimately show ?case by blast
qed

lemma find_ends:
  assumes "dsu_ok d"
  obtains d' where "dsu_find d x = Some (rep d x, d')" "found d x d'"
  using find_from[OF rep_root[OF assms] assms] by blast

section \<open>Union\<close>

lemma rep_link:
  assumes ok: "dsu_ok d" and a: "du_parent d a = Some a" and b: "du_parent d b = Some b" and ab: "a \<noteq> b"
    and n: "du_rank d a = Some n" and m: "du_rank d b = Some m" and nk: "n < k" "m \<le> k"
  shows "dsu_ok (set_rank b k (set_parent a b d))"
    and "rep (set_rank b k (set_parent a b d)) z = (if rep d z = a then b else rep d z)"
proof -
  let ?d = "set_rank b k (set_parent a b d)"
  have top: "\<And>y. y \<noteq> b \<Longrightarrow> du_parent d y = Some b \<Longrightarrow> \<exists>i. du_rank d y = Some i \<and> i < m"
    using ok m by (metis dsu_okD option.inject)
  show ok': "dsu_ok ?d"
    using ok a b ab n m nk unfolding dsu_ok_def set_parent_def set_rank_def
    by (auto simp: insert_absorb domI) (metis order.strict_trans2 option.inject)+
  have b': "root_of ?d b b" using b ab by (intro root_of.self) (auto simp: set_parent_def set_rank_def)
  have "root_of ?d y (if s = a then b else s)" if "root_of d y s" for y s
    using that
  proof (induction rule: root_of.induct)
    case (new y)
    with a show ?case by (auto intro!: root_of.new simp: set_parent_def set_rank_def)
  next
    case (self y)
    show ?case
    proof (cases "y = a")
      case True
      have "root_of ?d a b" using b' ab by (intro root_of.up[of ?d a b]) (auto simp: set_parent_def set_rank_def)
      with True show ?thesis by simp
    next
      case False
      with self show ?thesis by (auto intro!: root_of.self simp: set_parent_def set_rank_def)
    qed
  next
    case (up y p s)
    with a have "y \<noteq> a" by auto
    with up show ?case by (intro root_of.up[of ?d y p]) (auto simp: set_parent_def set_rank_def)
  qed
  from this[OF rep_root[OF ok, of z]] show "rep ?d z = (if rep d z = a then b else rep d z)"
    by (rule rep_eq)
qed

definition joined :: "dsu \<Rightarrow> int \<Rightarrow> int \<Rightarrow> dsu \<Rightarrow> bool" where
  "joined d x y d' \<longleftrightarrow>
     dsu_ok d' \<and> dom (du_parent d') = insert x (insert y (dom (du_parent d))) \<and>
     (\<exists>a b. {a, b} = {rep d x, rep d y} \<and> rep d' = (\<lambda>z. if rep d z = a then b else rep d z))"

lemma joined_link:
  assumes ok: "dsu_ok d" and a: "du_parent d a = Some a" and b: "du_parent d b = Some b" and ab: "a \<noteq> b"
    and n: "du_rank d a = Some n" and m: "du_rank d b = Some m" and nk: "n < k" "m \<le> k"
    and xy: "{a, b} = {rep d x, rep d y}" and dom: "x \<in> dom (du_parent d)" "y \<in> dom (du_parent d)"
  shows "joined d x y (set_rank b k (set_parent a b d))"
proof -
  have "rep (set_rank b k (set_parent a b d)) = (\<lambda>z. if rep d z = a then b else rep d z)"
    using rep_link(2)[OF ok a b ab n m nk] by auto
  moreover have "dom (du_parent (set_rank b k (set_parent a b d))) = dom (du_parent d)"
    using a by (auto simp: set_rank_def set_parent_def)
  ultimately show ?thesis
    unfolding joined_def using rep_link(1)[OF ok a b ab n m nk] dom
    by (intro conjI exI[of _ a] exI[of _ b]) (simp_all only: xy insert_absorb)
qed

lemma set_rank_same: "du_rank d x = Some n \<Longrightarrow> set_rank x n d = d"
  by (simp add: set_rank_def fun_upd_idem)

lemma union_ends:
  assumes ok: "dsu_ok d"
  obtains d' where "dsu_union d x y = Some d'" "joined d x y d'"
proof -
  let ?a = "rep d x" and ?b = "rep d y"
  obtain d1 where d1: "dsu_find d x = Some (?a, d1)" "found d x d1" using find_ends[OF ok] .
  then have ok1: "dsu_ok d1" and r1: "rep d1 = rep d" by (auto simp: found_def)
  obtain d2 where d2: "dsu_find d1 y = Some (?b, d2)" "found d1 y d2"
    using find_ends[OF ok1, of y] r1 by auto
  then have ok2: "dsu_ok d2" and r2: "rep d2 = rep d"
    and dom2: "dom (du_parent d2) = insert x (insert y (dom (du_parent d)))"
    using d1(2) r1 by (auto simp: found_def)
  have top: "du_parent d2 (rep d z) = Some (rep d z)" if "z \<in> {x, y}" for z
    using root_in_dom[OF rep_root[OF ok2, of z] ok2] that dom2 r2 by auto
  have join: "joined d x y d'" if "joined d2 x y d'" for d'
  proof -
    have "insert x (insert y (dom (du_parent d2))) = insert x (insert y (dom (du_parent d)))"
      using dom2 by auto
    with that show ?thesis unfolding joined_def r2 by simp
  qed
  show thesis
  proof (cases "?a = ?b")
    case True
    then have "dsu_union d x y = Some d2" by (simp add: dsu_union_def d1 d2)
    moreover have "joined d x y d2"
      unfolding joined_def using ok2 r2 dom2 True by (auto intro!: exI[of _ ?a])
    ultimately show thesis by (rule that)
  next
    case False
    have "rep d z \<in> dom (du_rank d2)" if "z \<in> {x, y}" for z
      using top[OF that] ok2 by (auto simp: dsu_ok_def)
    then obtain n m where n: "du_rank d2 ?a = Some n" and m: "du_rank d2 ?b = Some m" by blast
    have dom: "x \<in> dom (du_parent d2)" "y \<in> dom (du_parent d2)" using dom2 by auto
    note link = joined_link[OF ok2 _ _ _ _ _ _ _ _ dom]
    consider "n < m" | "m < n" | "n = m" by linarith
    then show thesis
    proof cases
      case 1
      have "joined d x y (set_rank ?b m (set_parent ?a ?b d2))"
        by (rule join, rule link) (use top False n m 1 r2 in auto)
      with 1 show thesis
        by (intro that) (auto simp: dsu_union_def d1 d2 n m False set_rank_same set_parent_def)
    next
      case 2
      have "joined d x y (set_rank ?a n (set_parent ?b ?a d2))"
        by (rule join, rule link) (use top False n m 2 r2 in auto)
      with 2 show thesis
        by (intro that) (auto simp: dsu_union_def d1 d2 n m False set_rank_same set_parent_def)
    next
      case 3
      have "joined d x y (set_rank ?a (Suc n) (set_parent ?b ?a d2))"
        by (rule join, rule link) (use top False n m 3 r2 in auto)
      with 3 show thesis
        by (intro that) (auto simp: dsu_union_def d1 d2 n m False)
    qed
  qed
qed

section \<open>Classes are chains of pairs\<close>

text \<open>Two items have one root iff the pairs joined so far connect them.\<close>

definition classes :: "dsu \<Rightarrow> (int \<times> int) set \<Rightarrow> bool" where
  "classes d E \<longleftrightarrow> (\<forall>u v. rep d u = rep d v \<longleftrightarrow> (u, v) \<in> (E \<union> E\<inverse>)\<^sup>*)"

lemma classes_join:
  assumes c: "classes d E" and j: "joined d x y d'"
  shows "classes d' (insert (x, y) E)"
proof -
  let ?E = "insert (x, y) E"
  obtain a b where ab: "{a, b} = {rep d x, rep d y}" and r: "\<And>z. rep d' z = (if rep d z = a then b else rep d z)"
    using j by (auto simp: joined_def)
  have old: "(u, v) \<in> (?E \<union> ?E\<inverse>)\<^sup>*" if "rep d u = rep d v" for u v
    using c that rtrancl_mono[of "E \<union> E\<inverse>" "?E \<union> ?E\<inverse>"] by (auto simp: classes_def)
  have xy: "(x, y) \<in> (?E \<union> ?E\<inverse>)\<^sup>*" "(y, x) \<in> (?E \<union> ?E\<inverse>)\<^sup>*" by auto
  have ends: "rep d' x = b" "rep d' y = b" using ab r by (auto simp: doubleton_eq_iff)
  have "(u, v) \<in> (?E \<union> ?E\<inverse>)\<^sup>*" if "rep d' u = rep d' v" for u v
  proof (cases "rep d u = rep d v")
    case False
    then have "rep d u = rep d x \<and> rep d v = rep d y \<or> rep d u = rep d y \<and> rep d v = rep d x"
      using that ab r by (auto simp: doubleton_eq_iff split: if_splits)
    then show ?thesis using old xy by (metis rtrancl_trans)
  qed (rule old)
  moreover have "rep d' u = rep d' v" if "(u, v) \<in> (?E \<union> ?E\<inverse>)\<^sup>*" for u v
    using that
  proof (induction rule: rtrancl_induct)
    case (step v w)
    have "rep d' v = rep d' w" if "(v, w) \<in> E \<union> E\<inverse>"
    proof -
      have "rep d v = rep d w" using c that by (auto simp: classes_def)
      then show ?thesis by (simp add: r)
    qed
    with step ends show ?case by auto
  qed simp
  ultimately show ?thesis unfolding classes_def by blast
qed

lemma find_all_ends:
  "dsu_ok d \<Longrightarrow> \<exists>d'. find_all xs d = Some d' \<and> dsu_ok d' \<and> rep d' = rep d"
proof (induction xs arbitrary: d)
  case (Cons x xs)
  obtain d1 where d1: "dsu_find d x = Some (rep d x, d1)" "found d x d1" using find_ends[OF Cons.prems] .
  with Cons.IH[of d1] show ?case by (auto simp: found_def)
qed simp

lemma union_pairs_ends:
  "dsu_ok d \<Longrightarrow> classes d E \<Longrightarrow> \<exists>d'. union_pairs ps d = Some d' \<and> dsu_ok d' \<and> classes d' (set ps \<union> E)"
proof (induction ps arbitrary: d E)
  case (Cons p ps)
  obtain x y where p: "p = (x, y)" by (cases p)
  obtain d1 where d1: "dsu_union d x y = Some d1" "joined d x y d1" using union_ends[OF Cons.prems(1)] .
  from Cons.IH[of d1, OF _ classes_join[OF Cons.prems(2) d1(2)]] d1 show ?case
    by (auto simp: p joined_def)
qed simp

section \<open>Groups\<close>

definition key_members :: "('k \<times> 'v list) list \<Rightarrow> 'k \<Rightarrow> 'v list" where
  "key_members gs k = (case map_of gs k of Some vs \<Rightarrow> vs | None \<Rightarrow> [])"

definition groups_ok :: "('k \<times> 'v list) list \<Rightarrow> bool" where
  "groups_ok gs \<longleftrightarrow> distinct (map fst gs) \<and> (\<forall>(k, vs)\<in>set gs. vs \<noteq> [])"

definition group_by :: "('x \<Rightarrow> 'k option) \<Rightarrow> ('x \<Rightarrow> 'v) \<Rightarrow> 'x list \<Rightarrow> ('k \<times> 'v list) list \<Rightarrow> ('k \<times> 'v list) list" where
  "group_by f g = fold (\<lambda>x. case f x of Some k \<Rightarrow> add_to_group k (g x) | None \<Rightarrow> id)"

lemma fst_add_to_group: "fst ` set (add_to_group k v gs) = insert k (fst ` set gs)"
  by (induction k v gs rule: add_to_group.induct) auto

lemma groups_ok_add: "groups_ok gs \<Longrightarrow> groups_ok (add_to_group k v gs)"
  by (induction k v gs rule: add_to_group.induct) (auto simp: groups_ok_def fst_add_to_group)

lemma key_members_add: "key_members (add_to_group k v gs) j = key_members gs j @ (if j = k then [v] else [])"
  by (induction k v gs rule: add_to_group.induct) (auto simp: key_members_def)

lemma group_by_ok: "groups_ok gs \<Longrightarrow> groups_ok (group_by f g xs gs)"
  by (induction xs arbitrary: gs) (auto simp: group_by_def groups_ok_add split: option.split)

lemma key_members_group_by:
  "key_members (group_by f g xs gs) k = key_members gs k @ map g (filter (\<lambda>x. f x = Some k) xs)"
  by (induction xs arbitrary: gs) (auto simp: group_by_def key_members_add split: option.split)

lemma in_groups:
  assumes "groups_ok gs"
  shows "(k, vs) \<in> set gs \<longleftrightarrow> vs \<noteq> [] \<and> key_members gs k = vs"
proof -
  have "(k, vs) \<in> set gs \<longleftrightarrow> map_of gs k = Some vs"
    using assms by (simp add: groups_ok_def)
  moreover have "map_of gs k = Some vs \<Longrightarrow> vs \<noteq> []"
    using assms map_of_SomeD[of gs k vs] by (auto simp: groups_ok_def)
  ultimately show ?thesis by (auto simp: key_members_def split: option.splits)
qed

lemma in_group_by:
  "(k, vs) \<in> set (group_by f g xs []) \<longleftrightarrow> vs \<noteq> [] \<and> vs = map g (filter (\<lambda>x. f x = Some k) xs)"
proof -
  have "key_members (group_by f g xs []) k = map g (filter (\<lambda>x. f x = Some k) xs)"
    by (simp only: key_members_group_by) (simp add: key_members_def)
  moreover have "groups_ok (group_by f g xs [])"
    by (rule group_by_ok) (simp add: groups_ok_def)
  ultimately show ?thesis using in_groups[of "group_by f g xs []" k vs] by auto
qed

lemma group_pairs_iff:
  "(x, y) \<in> set (group_pairs gs) \<longleftrightarrow> (\<exists>k others. (k, x # others) \<in> set gs \<and> y \<in> set others)"
  by (force simp: group_pairs_def split: list.splits)

text \<open>All members of one group are connected by its pairs.\<close>

lemma group_connected:
  assumes "(k, vs) \<in> set gs" "set (group_pairs gs) \<subseteq> P" "u \<in> set vs" "v \<in> set vs"
  shows "(u, v) \<in> (P \<union> P\<inverse>)\<^sup>*"
proof (cases vs)
  case (Cons x others)
  have "(x, w) \<in> (P \<union> P\<inverse>)\<^sup>* \<and> (w, x) \<in> (P \<union> P\<inverse>)\<^sup>*" if "w \<in> set vs" for w
  proof (cases "w = x")
    case False
    then have "(x, w) \<in> P" using that assms(1,2) Cons group_pairs_iff by fastforce
    then show ?thesis by auto
  qed auto
  with assms(3,4) show ?thesis by (meson rtrancl_trans)
qed (use assms in simp)

section \<open>The clusters\<close>

definition isbn_of :: "book_node \<Rightarrow> string option" where
  "isbn_of b = (case validate_and_convert_isbn (bn_isbn b) of Inr c \<Rightarrow> c | Inl e \<Rightarrow> None)"

definition title_of :: "book_node \<Rightarrow> string option" where
  "title_of b = (if bn_cleaned_title b \<noteq> [] then Some (title_key b) else None)"

text \<open>Two books are linked when they have the same canonical ISBN, or the same author and title.\<close>

definition linked :: "book_node list \<Rightarrow> (int \<times> int) set" where
  "linked books =
     {(bn_book_id b, bn_book_id c) | b c.
        b \<in> set books \<and> c \<in> set books \<and>
        (isbn_of b \<noteq> None \<and> isbn_of b = isbn_of c \<or> title_of b \<noteq> None \<and> title_of b = title_of c)}"

lemma index_books_groups:
  "\<forall>b\<in>set bs. is_ok (validate_and_convert_isbn (bn_isbn b)) \<Longrightarrow>
   index_books bs gs hs = Inr (group_by isbn_of bn_book_id bs gs, group_by title_of bn_book_id bs hs)"
  by (induction bs gs hs rule: index_books.induct)
    (auto simp: group_by_def isbn_of_def title_of_def split: sum.splits option.splits)

lemma index_books_raises:
  "b \<in> set bs \<Longrightarrow> validate_and_convert_isbn (bn_isbn b) = Inl e \<Longrightarrow> \<exists>e'. index_books bs gs hs = Inl e'"
  by (induction bs gs hs rule: index_books.induct) (auto split: sum.splits)

lemma pairs_are_links:
  fixes books :: "book_node list"
  defines "P \<equiv> set (group_pairs (group_by isbn_of bn_book_id books []) @ group_pairs (group_by title_of bn_book_id books []))"
  shows "(P \<union> P\<inverse>)\<^sup>* = (linked books)\<^sup>*"
proof
  have key: "\<exists>b\<in>set books. \<exists>c\<in>set books. x = bn_book_id b \<and> y = bn_book_id c \<and> f b \<noteq> None \<and> f b = f c"
    if "(x, y) \<in> set (group_pairs (group_by f bn_book_id books []))" for f :: "book_node \<Rightarrow> string option" and x y
  proof -
    obtain k others where "(k, x # others) \<in> set (group_by f bn_book_id books [])" and y: "y \<in> set others"
      using \<open>(x, y) \<in> _\<close> by (auto simp: group_pairs_iff)
    then have "set (x # others) = bn_book_id ` {b \<in> set books. f b = Some k}"
      by (auto simp: in_group_by simp flip: set_map set_filter)
    with y have "x \<in> bn_book_id ` {b \<in> set books. f b = Some k}" "y \<in> bn_book_id ` {b \<in> set books. f b = Some k}"
      by auto
    then show ?thesis by force
  qed
  have "P \<subseteq> linked books"
    unfolding P_def linked_def using key[of _ _ isbn_of] key[of _ _ title_of] by fastforce
  moreover have "sym (linked books)" by (auto simp: sym_def linked_def) metis+
  ultimately have "P \<union> P\<inverse> \<subseteq> linked books" by (auto simp: sym_def)
  then show "(P \<union> P\<inverse>)\<^sup>* \<subseteq> (linked books)\<^sup>*" by (rule rtrancl_mono)
  have conn: "(bn_book_id b, bn_book_id c) \<in> (P \<union> P\<inverse>)\<^sup>*"
    if "set (group_pairs (group_by f bn_book_id books [])) \<subseteq> P" "b \<in> set books" "c \<in> set books" "f b = Some k" "f c = Some k"
    for f k b c
  proof (rule group_connected[OF _ that(1)])
    show "(k, map bn_book_id (filter (\<lambda>x. f x = Some k) books)) \<in> set (group_by f bn_book_id books [])"
      using that by (auto simp: in_group_by filter_empty_conv)
  qed (use that in auto)
  have sub: "set (group_pairs (group_by isbn_of bn_book_id books [])) \<subseteq> P"
    "set (group_pairs (group_by title_of bn_book_id books [])) \<subseteq> P"
    by (auto simp: P_def)
  have "linked books \<subseteq> (P \<union> P\<inverse>)\<^sup>*"
  proof
    fix l
    assume "l \<in> linked books"
    then obtain b c where l: "l = (bn_book_id b, bn_book_id c)" and bc: "b \<in> set books" "c \<in> set books"
      and "isbn_of b \<noteq> None \<and> isbn_of b = isbn_of c \<or> title_of b \<noteq> None \<and> title_of b = title_of c"
      unfolding linked_def by blast
    then consider k where "isbn_of b = Some k" "isbn_of c = Some k" | k where "title_of b = Some k" "title_of c = Some k"
      by (metis not_None_eq)
    then show "l \<in> (P \<union> P\<inverse>)\<^sup>*"
      unfolding l by cases (rule conn[OF sub(1) bc] conn[OF sub(2) bc]; assumption)+
  qed
  then show "(linked books)\<^sup>* \<subseteq> (P \<union> P\<inverse>)\<^sup>*" by (metis rtrancl_mono rtrancl_idemp)
qed

lemma group_by_root_ends:
  "dsu_ok d \<Longrightarrow> rep d = r \<Longrightarrow> group_by_root xs d gs = Some (group_by (\<lambda>x. Some (r x)) id xs gs)"
proof (induction xs arbitrary: d gs)
  case (Cons x xs)
  obtain d1 where d1: "dsu_find d x = Some (rep d x, d1)" "found d x d1" using find_ends[OF Cons.prems(1)] .
  with Cons.IH[of d1] Cons.prems(2) show ?case by (auto simp: found_def group_by_def)
qed (simp add: group_by_def)

lemma empty_dsu_ok: "dsu_ok empty_dsu" "rep empty_dsu = id"
  by (auto simp: dsu_ok_def empty_dsu_def rep_eq[OF root_of.new])

text \<open>The groups behind the clusters: the classes with more than one entry.\<close>

lemma cluster_groups:
  assumes "\<forall>b\<in>set books. is_ok (validate_and_convert_isbn (bn_isbn b))"
  obtains r where
    "cluster_duplicates books = Inr (Some (map (build_cluster books)
       (filter (\<lambda>(root, ms). 1 < length ms) (group_by (\<lambda>x. Some (r x)) id (map bn_book_id books) []))))"
    "\<And>u v. r u = r v \<longleftrightarrow> (u, v) \<in> (linked books)\<^sup>*"
proof -
  let ?ps = "group_pairs (group_by isbn_of bn_book_id books []) @ group_pairs (group_by title_of bn_book_id books [])"
  obtain d where d: "find_all (map bn_book_id books) empty_dsu = Some d" "dsu_ok d" "rep d = id"
    using find_all_ends[OF empty_dsu_ok(1)] empty_dsu_ok(2) by metis
  then have "classes d {}" by (simp add: classes_def)
  then obtain d' where d': "union_pairs ?ps d = Some d'" "dsu_ok d'" "classes d' (set ?ps)"
    using union_pairs_ends[OF d(2), of "{}" ?ps] by auto
  have "cluster_duplicates books = Inr (Some (map (build_cluster books)
       (filter (\<lambda>(root, ms). 1 < length ms) (group_by (\<lambda>x. Some (rep d' x)) id (map bn_book_id books) []))))"
    unfolding cluster_duplicates_def index_books_groups[OF assms] sum.case prod.case Let_def d(1) bind.bind_lunit
      d'(1) group_by_root_ends[OF d'(2) refl] ..
  moreover have "rep d' u = rep d' v \<longleftrightarrow> (u, v) \<in> (linked books)\<^sup>*" for u v
    using d'(3) pairs_are_links[of books] by (simp add: classes_def)
  ultimately show thesis by (rule that)
qed

lemma members_build_cluster: "dl_member_book_ids (build_cluster books (k, ms)) = ms"
  by (simp add: build_cluster_def Let_def)

lemma clone_build_cluster: "dl_cluster_type (build_cluster books (k, ms)) = CLONE \<Longrightarrow> is_clone (map (node_of books) ms)"
  by (simp add: build_cluster_def Let_def split: if_splits)

lemma is_clone_same:
  assumes "is_clone bs"
  shows "\<exists>h. \<forall>b\<in>set bs. \<exists>m. complete_format_hashes b = Some m \<and> set m = set h"
proof (cases bs)
  case (Cons a as)
  then obtain h where "complete_format_hashes a = Some h" using assms by (auto simp: is_clone_def)
  with Cons assms show ?thesis by (intro exI[of _ h]) (fastforce simp: is_clone_def list_all_iff)
qed simp

lemma two_in_list: "i \<noteq> j \<Longrightarrow> {i, j} \<subseteq> set xs \<Longrightarrow> 1 < length xs"
  by (cases xs; cases "tl xs") auto


text \<open>Three books: the first two share an ISBN written in two ways, the last two an author and a title.\<close>

definition example_book :: "int \<Rightarrow> string \<Rightarrow> string option \<Rightarrow> book_node" where
  "example_book i title isbn =
     \<lparr>bn_book_id = i, bn_title = title, bn_cleaned_title = title, bn_author = ''Ada  Smith;'', bn_author_sort = ''Smith, Ada'',
      bn_isbn = isbn, bn_formats = [''EPUB''], bn_paths = [], bn_file_hashes = []\<rparr>"

definition example_books :: "book_node list" where
  "example_books =
     [example_book 1 ''Maps'' (Some ''0-306-40615-2''), example_book 2 ''Charts'' (Some ''978-0-306-40615-7''),
      example_book 3 ''Charts'' None]"


section \<open>ISBNs of the cleanser\<close>

lemma is_isbn_char_of_upper: "is_isbn_char (upper_char c) = is_isbn_char c"
proof (cases "is_lower c")
  case True
  have code: "d = CHR ''x'' \<longleftrightarrow> (of_char d :: nat) = 120" "d = CHR ''X'' \<longleftrightarrow> (of_char d :: nat) = 88" for d
    using of_char_eq_iff[of d "CHR ''x''", where ?'a = nat] of_char_eq_iff[of d "CHR ''X''", where ?'a = nat] by simp_all
  from True have n: "97 \<le> (of_char c :: nat)" "(of_char c :: nat) \<le> 122" by (auto simp: is_lower_def Let_def)
  then have "of_char (upper_char c) = (of_char c - 32 :: nat)"
    using True by (simp add: upper_char_def of_char_of)
  with n show ?thesis by (auto simp: is_isbn_char_def is_digit_def Let_def code)
qed (simp add: upper_char_def)

lemma isbn_clean_of_upper: "isbn_clean (py_upper raw) = py_upper (isbn_clean raw)"
  by (simp add: isbn_clean_def py_upper_def filter_map o_def is_isbn_char_of_upper)

lemma upper_clean_chars: "c \<in> set (py_upper (isbn_clean v)) \<Longrightarrow> is_digit c \<or> c = CHR ''X''"
  by (auto simp: py_upper_def isbn_clean_def is_isbn_char_def upper_char_digit)

text \<open>The cleanser returns what the resolver computes, except that a misplaced X makes it raise.\<close>

lemma cleanser_is_resolver:
  "validate_and_convert_isbn (Some raw) =
     (let s = py_upper (isbn_clean raw) in
      if length s = 10 \<and> \<not> list_all is_digit (take 9 s)
      then Inl (ValueError (''invalid literal for int() with base 10: '' @ repr_string ''X''))
      else Inr (canonical_isbn13 raw))"
proof -
  define s where "s = py_upper (isbn_clean raw)"
  have s: "isbn_clean s = s" "py_upper s = s" "isbn_clean (py_upper raw) = s"
    unfolding s_def by (rule isbn_clean_upper py_upper_clean_idem isbn_clean_of_upper)+
  have nine: "length s = 10 \<Longrightarrow> is_digit (s ! 9) \<or> s ! 9 = CHR ''X''"
    using upper_clean_chars[of "s ! 9" raw] by (simp add: s_def)
  have raw: "raw = [] \<Longrightarrow> s = []" by (simp add: s_def isbn_clean_def py_upper_def)
  consider "length s = 10" | "length s = 13" | "length s \<noteq> 10" "length s \<noteq> 13" by blast
  then show ?thesis
  proof cases
    case 1
    then have "take 9 s \<noteq> []" by auto
    with 1 raw nine show ?thesis
      by (auto simp: validate_and_convert_isbn_def canonical_isbn13_def isbn10_checksum_valid_def Let_def s py_isdigit_def
          simp flip: s_def)
  next
    case 2
    with raw show ?thesis
      by (auto simp: validate_and_convert_isbn_def canonical_isbn13_def isbn13_checksum_valid_def Let_def s
          simp flip: s_def)
  next
    case 3
    then show ?thesis
      by (auto simp: validate_and_convert_isbn_def canonical_isbn13_def Let_def s simp flip: s_def)
  qed
qed

text \<open>So one book with a misplaced X stops the clustering of the whole library.\<close>

lemma misplaced_x_stops_clustering:
  assumes "b \<in> set books" "bn_isbn b = Some raw"
    and "length (isbn_clean raw) = 10" "\<not> list_all is_digit (take 9 (py_upper (isbn_clean raw)))"
  shows "\<exists>e. cluster_duplicates books = Inl e"
proof -
  have "\<exists>e. validate_and_convert_isbn (bn_isbn b) = Inl e"
    using assms(2-4) by (simp add: cleanser_is_resolver py_upper_def)
  with index_books_raises[OF assms(1), of _ "[]" "[]"] show ?thesis by (auto simp: cluster_duplicates_def)
qed

end
