(* ===== verification/Spec2Isabelle.thy ===== *)
theory Spec2Isabelle
  imports Isbn Execution WriterFindings DurableRuns OfflineFacts RulesLaws RetentionRuns ClusterLaws
begin

text \<open>
  Verification development for Calibre Bookwarden, which audits the metadata of a Calibre library against the books
  themselves and writes corrections under supervision. All paths below are relative to src/src/calibre\_ai\_auditor/.

  The program. An audit looks at every book of a library (verification/pipeline\_v2.py), through the live Calibre or
  through a stopped, read-only copy (calibre/offline.py), and seals what it saw and what it concludes in an evidence package; the
  conclusion is the deterministic resolver's (verification/identity\_v2.py). Audits are run by a verifier process that takes
  requests from the database under leases and fence tokens (web/api/production\_verify.py,
  verification/certificate\_a\_worker.py), or by the self-hosted web application (verification/durable\_v2.py, persistence\_v2.py,
  service\_v2.py). A sealed package may become a write request: the coordinator (apply/coordinator.py) checks package,
  approval and pilot budget and queues an operation with an outbox event (storage/models.py, storage/operations.py); a single
  writer process (apply/writer.py, apply/engine.py) claims it, backs the book up, writes, reads back, and restores on failure;
  after a crash it reconciles what was in flight. Restore points of earlier writes expire in journaled transactions
  (verification/restore.py). Beside this path stand the field rules and the verdict engine (verification/rules.py,
  verification/engine.py), whose auto-apply decision passes the gate of verification/verdict.py and restore.py, and the report on
  duplicate books (curation/series\_topology.py).

  Common ground.
  \<^item> BwPrelude: exceptions as values (\<open>res\<close> is an exception or a result), dictionaries in insertion order, tables of rows, and the
    locales every state machine is an instance of: \<open>transition_system\<close> (a property that steps keep), \<open>fenced_system\<close> (tokens
    that never fall) and \<open>ranked_system\<close> (a rank that each step lowers).
  \<^item> PyStr, PyVal, PyPath: the string methods, the dynamically typed values (truth, equality, \<open>str\<close>, \<open>json.dumps\<close>) and the POSIX
    path functions of Python that the code uses. A character is a code point below 256, and case and character classes are those
    of ASCII text; a float is the text of its shortest \<open>repr\<close>.
  \<^item> Session: database transactions and the outside world. A program takes a session (rows as the transaction sees them,
    committed rows, outside world, clock, log of library writes) and returns a result or an exception and the next session; \<open>wp\<close>
    is its weakest precondition. Rolling back, committing and failing inserts are those of an SQLAlchemy session.

  Components, each a group of theories: definitions first, laws after.
  \<^item> Isbn (rules/isbn.py): the checksums and the canonical ISBN-13; they detect every error in one digit.
  \<^item> IdentityV2 (verification/identity\_v2.py): evidence records with their validators, the consensus of a field, Tier A and
    the patch. Tier A needs independent roots that agree; evidence without authority changes nothing.
  \<^item> Evidence (the package model of pipeline\_v2.py): snapshot, invariants, seal. Sealing is idempotent and checked, and the files
    of a sealed package stay inside its library.
  \<^item> Pipeline, PipelineLaws (\<open>LibraryAuditPipeline\<close>): the audit of each book and the loop over the library, for any reader,
    inspector, enricher and callbacks; the locale \<open>reader_keeps\<close> states what a reader has to keep.
  \<^item> OfflineSource, OfflineLaws, OfflineFacts (calibre/offline.py): schema checks, inventory with frozen files, fingerprint and
    export. References round trip, and reads stay inside the library.
  \<^item> Ledger (storage/models.py, storage/operations.py): operations, events, locks; every operation only moves along the
    transition table, and from a written state only boundedly often.
  \<^item> Coordinator (apply/coordinator.py, apply/heartbeat.py): queueing, undo, approval and revalidation. What is queued was sealed and
    approved, the pilot's budget is never exceeded, and the writer's second check accepts what was queued.
  \<^item> ApplyEngine (apply/artifacts.py, apply/engine.py), Writer, WriterLogic, WriterLaws, WriterFrame, WriterTurn, Claiming (apply/writer.py
    and one turn of its loop in cli/main.py): \<open>inv_at\<close> is the assertion kept at every point of a program, with a rule for every primitive;
    the locales \<open>table_frame\<close>, \<open>insert_frame\<close> and \<open>write_frame\<close> carry a condition on the tables through every part of the writer.
    Writes follow their committed intent, an operation touches only its own rows, success is a read-back, every claimed operation
    ends, and a turn returns whatever the library answers.
  \<^item> Reconcile, ReconcileLaws (crash recovery of apply/writer.py): every operation in flight ends with its lock released.
  \<^item> System: coordinator requests, writer turns and restarts in any order; at most one unfinished operation per book.
    WriterFindings: a failed undo cannot be requested again, and a refused path skips the restore.
  \<^item> Runs (verification runs, web/api/production\_verify.py), CertificateA, CertLaws, Fencing (certificate\_a\_worker.py): requests,
    claims, heartbeats and the fenced store. Stale verifiers are refused, lease windows are exact, finished runs and their books are
    frozen, and one run per library is active.
  \<^item> Executor, ExecutorLaws, Demo, Execution (\<open>execute_certificate_a_claim\<close> and a turn of the worker): a run reported complete is
    complete, with other processes free to commit between any two transactions.
  \<^item> Durable, DurableLaws, DurableRuns (persistence\_v2.py, durable\_v2.py, service\_v2.py): the store without fences in its own code,
    which the fenced one refines, its leases, and the recovery after a crash with what it cannot resume. A lease operation reads the
    run without locking it and commits later, so the model keeps the two apart: a live lease excludes the claims that read it,
    and claims that read before either commits both succeed. The writes of the store, like those of the fenced one, are single steps.
  \<^item> Verdict, Rules, VerdictEngine, RulesLaws (verdict.py, rules.py, engine.py): a verdict that may be applied without a person is
    confident and free of risk flags in every patched field; ISBNs are compared by their canonical form.
  \<^item> Retention, RetentionLaws, RetentionRuns (\<open>RestorePointStore\<close>): the tree of restore points is a table of paths with the history
    of its changes, so that a crash is one of the earlier tables. A transaction deletes exactly its restore points, and recovery
    completes it after any number of crashes, with the exception that is stated there.
  \<^item> Clusters, ClusterLaws (curation/series\_topology.py, curation/entity\_cleanser.py): clusters are the connected components of
    the books that share an ISBN or an author and title.

  Interpretations. \<open>rows\<close> and \<open>written_rows\<close> (Ledger), \<open>coordinator\<close> (Coordinator), \<open>own\<close>, \<open>same_changes\<close> and
  \<open>not_succeeded\<close> (WriterFrame), \<open>system\<close> (System), \<open>cert\<close> (CertLaws),
  \<open>offline\<close> (ExecutorLaws: the offline source is a reader of the pipeline) and \<open>crashes\<close> (RetentionRuns) instantiate the locales on
  the definitions of the code; the reachability theorems are their facts.

  Termination. No definition uses fuel. Loops are recursions over their data; the writer's search for work ends because
  each round takes an event off the queue (\<open>claim_next_operation\<close>), and the search for a root, a \<open>partial_function\<close> whose value None
  would be an endless loop, is proved to end on every structure the unions can build.

  Parameters. SHA-256 (a function; where it matters, with hexadecimal digests), the type coercion of pydantic, \<open>calibredb\<close> and
  the protected file functions of security/files.py (operations on an arbitrary outside world that return or raise), Pillow and the XML
  parser, the contents of SQLite databases, texts of JSON and dates where only their round trip matters, the arithmetic of doubles
  (\<open>floats\<close>), clocks and uuids. What the theorems need of them are hypotheses, and the witnesses show concrete instances.

  Not modelled. The rules for title, authors, publisher and series, which rest on \<open>difflib\<close> and the tables of Unicode, are
  parameters of the verdict engine. Drivers of external programs and services (calibre/cli.py, llm/, ocr/, providers/, extractors/,
  covers/, vectors/, queue/valkey.py) contain what such a model would have to invent; what they return enters as parameters.
  security/files.py is calls to the kernel. The web and command line layers (web/, cli/, mcp\_server.py) turn requests into the
  operations above. Statistics and reports that nothing acts on (verification/calibration\_v2.py, metrics.py, curation/ except the
  clusters), the retired ledger facade (security/cryptographic\_ledger.py), and scheduling (threads, asyncio, sleeping, the advisory
  lock of PostgreSQL) are left out; the heartbeat thread appears as the commits of other processes. Logging is left out.
\<close>

end
